(* ===== verification/Rust_Std.thy ===== *)
theory Rust_Std
  imports Prelude
begin

text \<open>
  The parts of the Rust language and standard library the modelled code uses: fixed-width
  integers and their big-endian bytes, \<open>str\<close> as a UTF-8 byte sequence with \<open>from_utf8\<close>,
  \<open>chars\<close>, \<open>is_control\<close>, \<open>is_whitespace\<close> and \<open>trim\<close>, decimal display of unsigned integers,
  \<open>core::cmp::Ordering\<close>, and \<open>BTreeMap\<close> as a strictly key-sorted association list.
  The locale \<open>ordered_map\<close> states what the clients of \<open>BTreeMap\<close> rely on.
\<close>

section \<open>Fixed-width integers\<close>

type_synonym byte = "8 word"
type_synonym u16 = "16 word"
type_synonym u32 = "32 word"
type_synonym u64 = "64 word"
type_synonym u128 = "128 word"
type_synonym i64 = "64 word"
type_synonym i128 = "128 word"

text \<open>Big-endian digits of a natural number: \<open>be_bytes n k\<close> are the last \<open>n\<close> bytes of \<open>k\<close>.\<close>

fun be_bytes :: "nat \<Rightarrow> nat \<Rightarrow> byte list" where
  "be_bytes 0 k = []"
| "be_bytes (Suc n) k = be_bytes n (k div 256) @ [of_nat (k mod 256)]"

definition be_nat :: "byte list \<Rightarrow> nat" where
  "be_nat bs = foldl (\<lambda>a b. a * 256 + unat b) 0 bs"

lemma length_be_bytes [simp]: "length (be_bytes n k) = n"
  by (induction n arbitrary: k) auto

lemma be_nat_snoc: "be_nat (bs @ [b]) = be_nat bs * 256 + unat b"
  by (simp add: be_nat_def)

lemma unat_byte_of_nat: "unat (of_nat (k mod 256) :: byte) = k mod 256"
  by (simp add: unat_of_nat)

lemma be_nat_be_bytes: "be_nat (be_bytes n k) = k mod 256 ^ n"
proof (induction n arbitrary: k)
  case 0
  then show ?case by (simp add: be_nat_def)
next
  case (Suc n)
  have "k mod (256 * 256 ^ n) = 256 * (k div 256 mod 256 ^ n) + k mod 256"
    by (rule mod_mult2_eq)
  then show ?case by (simp add: be_nat_snoc Suc.IH unat_byte_of_nat del: of_nat_mod)
qed

text \<open>\<open>to_be_bytes\<close> and \<open>from_be_bytes\<close> at the widths the wire format uses.\<close>

definition u16_be :: "u16 \<Rightarrow> byte list" where "u16_be w = be_bytes 2 (unat w)"
definition u32_be :: "u32 \<Rightarrow> byte list" where "u32_be w = be_bytes 4 (unat w)"
definition u64_be :: "u64 \<Rightarrow> byte list" where "u64_be w = be_bytes 8 (unat w)"
definition u128_be :: "u128 \<Rightarrow> byte list" where "u128_be w = be_bytes 16 (unat w)"

definition u16_from_be :: "byte list \<Rightarrow> u16" where "u16_from_be bs = of_nat (be_nat bs)"
definition u32_from_be :: "byte list \<Rightarrow> u32" where "u32_from_be bs = of_nat (be_nat bs)"
definition u64_from_be :: "byte list \<Rightarrow> u64" where "u64_from_be bs = of_nat (be_nat bs)"
definition u128_from_be :: "byte list \<Rightarrow> u128" where "u128_from_be bs = of_nat (be_nat bs)"

lemma unat_u16_bound: "unat (w :: u16) < 65536" using unsigned_less [of w, where ?'a = nat] by simp
lemma unat_u32_bound: "unat (w :: u32) < 4294967296" using unsigned_less [of w, where ?'a = nat] by simp
lemma unat_u64_bound: "unat (w :: u64) < 18446744073709551616" using unsigned_less [of w, where ?'a = nat] by simp
lemma unat_u128_bound: "unat (w :: u128) < 340282366920938463463374607431768211456"
  using unsigned_less [of w, where ?'a = nat] by simp

lemma be_word_lengths [simp]:
  "length (u16_be a) = 2" "length (u32_be b) = 4" "length (u64_be c) = 8" "length (u128_be d) = 16"
  by (simp_all add: u16_be_def u32_be_def u64_be_def u128_be_def)

lemma from_be_to_be [simp]:
  "u16_from_be (u16_be a) = a" "u32_from_be (u32_be b) = b"
  "u64_from_be (u64_be c) = c" "u128_from_be (u128_be d) = d"
  using unat_u16_bound [of a] unat_u32_bound [of b] unat_u64_bound [of c] unat_u128_bound [of d]
  by (simp_all add: u16_be_def u32_be_def u64_be_def u128_be_def u16_from_be_def u32_from_be_def
      u64_from_be_def u128_from_be_def be_nat_be_bytes)

lemma be_nat_less: "be_nat bs < 256 ^ length bs"
proof (induction bs rule: rev_induct)
  case Nil
  then show ?case by (simp add: be_nat_def)
next
  case (snoc b bs)
  have "unat b < 256" using unsigned_less [of b, where ?'a = nat] by simp
  with snoc show ?case by (simp add: be_nat_snoc)
qed

lemma be_bytes_be_nat: "be_bytes (length bs) (be_nat bs) = bs"
proof (induction bs rule: rev_induct)
  case Nil
  then show ?case by simp
next
  case (snoc b bs)
  have "unat b < 256" using unsigned_less [of b, where ?'a = nat] by simp
  then show ?case using snoc by (simp add: be_nat_snoc)
qed

lemma to_be_from_be:
  "length bs = 2 \<Longrightarrow> u16_be (u16_from_be bs) = bs"
  "length bs = 4 \<Longrightarrow> u32_be (u32_from_be bs) = bs"
  "length bs = 8 \<Longrightarrow> u64_be (u64_from_be bs) = bs"
  "length bs = 16 \<Longrightarrow> u128_be (u128_from_be bs) = bs"
  using be_bytes_be_nat [of bs] be_nat_less [of bs]
  by (simp_all add: u16_be_def u32_be_def u64_be_def u128_be_def u16_from_be_def u32_from_be_def
      u64_from_be_def u128_from_be_def unat_of_nat)

section \<open>Strings\<close>

text \<open>
  A Rust \<open>str\<close> is a sequence of bytes that is valid UTF-8. It is modelled as a \<open>string\<close> whose
  characters are its bytes, so \<open>length\<close> is \<open>str::len\<close> and the lexicographic order of
  \<open>List_Lexorder\<close> over \<open>Char_ord\<close> is Rust's byte-wise \<open>Ord for str\<close>.
\<close>

definition char_byte :: "char \<Rightarrow> byte" where
  "char_byte c = of_nat (of_char c)"

definition byte_char :: "byte \<Rightarrow> char" where
  "byte_char b = char_of (unat b)"

lemma byte_char_byte [simp]: "byte_char (char_byte c) = c"
proof -
  have "(of_char c :: nat) < 256" by (rule nat_of_char_less_256)
  then have "unat (of_nat (of_char c) :: byte) = of_char c" by (simp add: unat_of_nat)
  then show ?thesis by (simp add: byte_char_def char_byte_def)
qed

definition as_bytes :: "string \<Rightarrow> byte list" where
  "as_bytes s = map char_byte s"

definition bytes_as_str :: "byte list \<Rightarrow> string" where
  "bytes_as_str bs = map byte_char bs"

lemma length_as_bytes [simp]: "length (as_bytes s) = length s"
  by (simp add: as_bytes_def)

lemma bytes_as_str_as_bytes [simp]: "bytes_as_str (as_bytes s) = s"
  by (simp add: bytes_as_str_def as_bytes_def comp_def)

text \<open>The UTF-8 decoder: the Unicode scalar values of a byte sequence, or \<open>None\<close>.\<close>

definition utf8_continuation :: "nat \<Rightarrow> bool" where
  "utf8_continuation b \<longleftrightarrow> 128 \<le> b \<and> b \<le> 191"

fun utf8_decode :: "nat list \<Rightarrow> nat list option" where
  "utf8_decode [] = Some []"
| "utf8_decode (b0 # bs) =
     (if b0 < 128 then map_option ((#) b0) (utf8_decode bs)
      else if 194 \<le> b0 \<and> b0 \<le> 223 then
        (case bs of
           b1 # r \<Rightarrow>
             if utf8_continuation b1
             then map_option ((#) ((b0 - 192) * 64 + (b1 - 128))) (utf8_decode r) else None
         | _ \<Rightarrow> None)
      else if 224 \<le> b0 \<and> b0 \<le> 239 then
        (case bs of
           b1 # b2 # r \<Rightarrow>
             if utf8_continuation b1 \<and> utf8_continuation b2 \<and>
                (b0 = 224 \<longrightarrow> 160 \<le> b1) \<and> (b0 = 237 \<longrightarrow> b1 \<le> 159)
             then map_option ((#) ((b0 - 224) * 4096 + (b1 - 128) * 64 + (b2 - 128))) (utf8_decode r)
             else None
         | _ \<Rightarrow> None)
      else if 240 \<le> b0 \<and> b0 \<le> 244 then
        (case bs of
           b1 # b2 # b3 # r \<Rightarrow>
             if utf8_continuation b1 \<and> utf8_continuation b2 \<and> utf8_continuation b3 \<and>
                (b0 = 240 \<longrightarrow> 144 \<le> b1) \<and> (b0 = 244 \<longrightarrow> b1 \<le> 143)
             then map_option ((#) ((b0 - 240) * 262144 + (b1 - 128) * 4096 + (b2 - 128) * 64 + (b3 - 128)))
                    (utf8_decode r)
             else None
         | _ \<Rightarrow> None)
      else None)"

text \<open>\<open>str::chars\<close>: the scalar values; \<open>rust_str\<close> is the invariant of the type \<open>str\<close>.\<close>

definition chars :: "string \<Rightarrow> nat list" where
  "chars s = (case utf8_decode (map of_char s) of None \<Rightarrow> [] | Some cs \<Rightarrow> cs)"

definition rust_str :: "string \<Rightarrow> bool" where
  "rust_str s \<longleftrightarrow> utf8_decode (map of_char s) \<noteq> None"

definition from_utf8 :: "byte list \<Rightarrow> string option" where
  "from_utf8 bs = (if rust_str (bytes_as_str bs) then Some (bytes_as_str bs) else None)"

lemma from_utf8_as_bytes [simp]: "rust_str s \<Longrightarrow> from_utf8 (as_bytes s) = Some s"
  by (simp add: from_utf8_def)

lemma from_utf8_rust_str: "from_utf8 bs = Some s \<Longrightarrow> rust_str s"
  by (auto simp: from_utf8_def split: if_splits)

text \<open>\<open>char::is_control\<close> (category Cc) and \<open>char::is_whitespace\<close> (property White_Space).\<close>

definition is_control :: "nat \<Rightarrow> bool" where
  "is_control c \<longleftrightarrow> c \<le> 31 \<or> 127 \<le> c \<and> c \<le> 159"

definition is_whitespace :: "nat \<Rightarrow> bool" where
  "is_whitespace c \<longleftrightarrow>
     9 \<le> c \<and> c \<le> 13 \<or> c = 32 \<or> c = 133 \<or> c = 160 \<or> c = 5760 \<or> 8192 \<le> c \<and> c \<le> 8202 \<or>
     c = 8232 \<or> c = 8233 \<or> c = 8239 \<or> c = 8287 \<or> c = 12288"

text \<open>\<open>value.trim() != value\<close>: the string starts or ends with white space.\<close>

definition has_surrounding_whitespace :: "string \<Rightarrow> bool" where
  "has_surrounding_whitespace s \<longleftrightarrow>
     (let cs = chars s in cs \<noteq> [] \<and> (is_whitespace (hd cs) \<or> is_whitespace (last cs)))"

fun str_contains :: "string \<Rightarrow> string \<Rightarrow> bool" where
  "str_contains needle [] = (needle = [])"
| "str_contains needle (c # s) = (prefix needle (c # s) \<or> str_contains needle s)"

lemma str_contains_iff: "str_contains needle s \<longleftrightarrow> (\<exists>ps ss. s = ps @ needle @ ss)"
proof (induction s)
  case Nil
  then show ?case by auto
next
  case (Cons c s)
  have "(\<exists>ps ss. c # s = ps @ needle @ ss) \<longleftrightarrow>
    (\<exists>ss. c # s = needle @ ss) \<or> (\<exists>ps ss. s = ps @ needle @ ss)"
    by (metis append_Cons append_Nil list.exhaust list.inject)
  then show ?case using Cons.IH by (auto simp: prefix_def)
qed

lemma str_contains_append: "str_contains n s \<Longrightarrow> str_contains n (a @ s @ b)"
  unfolding str_contains_iff by (metis append.assoc)

text \<open>Decimal display of an unsigned integer, as in \<open>format!("{}", n)\<close>.\<close>

fun show_nat :: "nat \<Rightarrow> string" where
  "show_nat n = (if n < 10 then [char_of (48 + n)] else show_nat (n div 10) @ [char_of (48 + n mod 10)])"

declare show_nat.simps [simp del]

lemma show_nat_digits: "c \<in> set (show_nat n) \<Longrightarrow> 48 \<le> (of_char c :: nat) \<and> (of_char c :: nat) \<le> 57"
proof (induction n rule: show_nat.induct)
  case (1 n)
  then show ?case
    by (subst (asm) (2) show_nat.simps) (auto split: if_splits simp: of_char_of)
qed

section \<open>\<open>core::cmp::Ordering\<close>\<close>

datatype ordering = Less | Equal | Greater

definition cmp_of :: "'a::linorder \<Rightarrow> 'a \<Rightarrow> ordering" where
  "cmp_of a b = (if a < b then Less else if a = b then Equal else Greater)"

fun reverse_ordering :: "ordering \<Rightarrow> ordering" where
  "reverse_ordering Less = Greater"
| "reverse_ordering Equal = Equal"
| "reverse_ordering Greater = Less"

fun then_with :: "ordering \<Rightarrow> ordering \<Rightarrow> ordering" where
  "then_with Equal o2 = o2"
| "then_with o1 _ = o1"

lemma cmp_of_eq [simp]:
  "cmp_of a b = Less \<longleftrightarrow> a < b" "cmp_of a b = Equal \<longleftrightarrow> a = b" "cmp_of a b = Greater \<longleftrightarrow> b < a"
  by (auto simp: cmp_of_def)

lemma cmp_of_swap: "cmp_of b a = reverse_ordering (cmp_of a b)"
  by (auto simp: cmp_of_def)

end
