(* ===== verification/Ordered_Map.thy ===== *)
theory Ordered_Map
  imports Rust_Std
begin

text \<open>
  \<open>BTreeMap\<close>: the contract their clients in the DOL sources rely on (locale
  \<open>ordered_map\<close>), client lemmas proved once against the contract, and the model \<open>btree\<close>, a strictly
  key-sorted association list that iterates in key order, as an interpretation of it.
\<close>

section \<open>The interface\<close>

lemma alist_canonical:
  assumes "distinct (map fst es)"
  shows "map (\<lambda>k. (k, the (map_of es k))) (map fst es) = es"
  using assms by (auto intro!: map_idI simp: comp_def)

locale ordered_map =
  fixes empty :: "'m"
    and insert :: "'k::linorder \<Rightarrow> 'v \<Rightarrow> 'm \<Rightarrow> 'm"
    and get :: "'m \<Rightarrow> 'k \<Rightarrow> 'v option"
    and entries :: "'m \<Rightarrow> ('k \<times> 'v) list"
    and inv :: "'m \<Rightarrow> bool"
  assumes inv_empty: "inv empty"
    and inv_insert: "inv m \<Longrightarrow> inv (insert k v m)"
    and entries_empty: "entries empty = []"
    and get_insert: "inv m \<Longrightarrow> get (insert k v m) = (get m)(k \<mapsto> v)"
    and get_entries: "inv m \<Longrightarrow> get m = map_of (entries m)"
    and entries_sorted: "inv m \<Longrightarrow> sorted_wrt (<) (map fst (entries m))"
begin

definition insert_all :: "('k \<times> 'v) list \<Rightarrow> 'm \<Rightarrow> 'm" where
  "insert_all kvs m = foldl (\<lambda>m kv. insert (fst kv) (snd kv) m) m kvs"

lemma inv_insert_all: "inv m \<Longrightarrow> inv (insert_all kvs m)"
  unfolding insert_all_def by (induction kvs arbitrary: m) (auto intro: inv_insert)

lemma get_insert_all: "inv m \<Longrightarrow> get (insert_all kvs m) = get m ++ map_of (rev kvs)"
  unfolding insert_all_def
proof (induction kvs arbitrary: m)
  case Nil
  then show ?case by simp
next
  case (Cons kv kvs)
  then show ?case by (auto simp: inv_insert get_insert map_add_def fun_eq_iff split: option.splits)
qed

lemma distinct_entries: "inv m \<Longrightarrow> distinct (map fst (entries m))"
  using entries_sorted strict_sorted_iff by blast

text \<open>The entries are determined by the mapping: iteration order is canonical.\<close>

lemma entries_unique:
  assumes "inv m" and "sorted_wrt (<) (map fst es)" and "map_of es = get m"
  shows "entries m = es"
proof -
  have d: "distinct (map fst es)" "distinct (map fst (entries m))"
    using assms(2) strict_sorted_iff distinct_entries [OF assms(1)] by blast+
  have eq: "map_of (entries m) = map_of es"
    using get_entries [OF assms(1)] assms(3) by simp
  have "set (entries m) = set es"
    using map_of_inject_set [OF d(2,1)] eq by simp
  then have "map fst (entries m) = map fst es"
    using entries_sorted [OF assms(1)] assms(2)
    by (intro strict_sorted_equal) auto
  with eq alist_canonical [OF d(1)] alist_canonical [OF d(2)] show ?thesis by metis
qed

text \<open>Re-inserting the entries of a map, in order, rebuilds its entries.\<close>

lemma rebuild:
  assumes "sorted_wrt (<) (map fst es)"
  shows "entries (insert_all es empty) = es"
proof (rule entries_unique)
  show "inv (insert_all es empty)" by (intro inv_insert_all inv_empty)
  have "distinct (map fst es)" using assms strict_sorted_iff by blast
  then have "map_of (rev es) = map_of es"
    by (subst map_of_inject_set) (simp_all add: rev_map [symmetric])
  then show "map_of es = get (insert_all es empty)"
    by (simp add: get_insert_all inv_empty get_entries entries_empty)
qed (rule assms)

end

section \<open>The model: strictly sorted association lists\<close>

type_synonym ('k, 'v) btree = "('k \<times> 'v) list"

fun btree_insert :: "'k::linorder \<Rightarrow> 'v \<Rightarrow> ('k, 'v) btree \<Rightarrow> ('k, 'v) btree" where
  "btree_insert k v [] = [(k, v)]"
| "btree_insert k v ((k', v') # m) =
     (if k < k' then (k, v) # (k', v') # m
      else if k = k' then (k, v) # m
      else (k', v') # btree_insert k v m)"

definition btree_inv :: "('k::linorder, 'v) btree \<Rightarrow> bool" where
  "btree_inv m \<longleftrightarrow> sorted_wrt (<) (map fst m)"

lemma keys_btree_insert: "fst ` set (btree_insert k v m) = insert k (fst ` set m)"
  by (induction k v m rule: btree_insert.induct) auto

lemma btree_inv_insert: "btree_inv m \<Longrightarrow> btree_inv (btree_insert k v m)"
  unfolding btree_inv_def
proof (induction k v m rule: btree_insert.induct)
  case (1 k v)
  then show ?case by simp
next
  case (2 k v k' v' m)
  have keys: "x \<in> fst ` set (btree_insert k v m) \<Longrightarrow> x = k \<or> x \<in> fst ` set m" for x
    by (auto simp: keys_btree_insert)
  show ?case using 2 keys by (force simp: image_image)
qed

lemma map_of_btree_insert: "btree_inv m \<Longrightarrow> map_of (btree_insert k v m) = (map_of m)(k \<mapsto> v)"
  unfolding btree_inv_def
  by (induction k v m rule: btree_insert.induct) (auto simp: fun_eq_iff)

interpretation btree: ordered_map "[] :: ('k::linorder, 'v) btree" btree_insert map_of id btree_inv
  by unfold_locales (auto simp: btree_inv_def[of "[]"] map_of_btree_insert btree_inv_insert,
      simp add: btree_inv_def)

definition btree_of_list :: "('k::linorder \<times> 'v) list \<Rightarrow> ('k, 'v) btree" where
  "btree_of_list kvs = foldl (\<lambda>m kv. btree_insert (fst kv) (snd kv) m) [] kvs"

lemma btree_of_list_inv: "btree_inv (btree_of_list kvs)"
  using btree.inv_insert_all [OF btree.inv_empty] by (simp add: btree.insert_all_def btree_of_list_def)

lemma btree_of_list_sorted: "btree_inv kvs \<Longrightarrow> btree_of_list kvs = kvs"
  using btree.rebuild [of kvs] by (simp add: btree.insert_all_def btree_of_list_def btree_inv_def)

lemma map_of_btree_of_list: "map_of (btree_of_list kvs) = map_of (rev kvs)"
  using btree.get_insert_all [OF btree.inv_empty, of kvs]
  by (simp add: btree.insert_all_def btree_of_list_def)

end
