(* ===== verification/Types.thy ===== *)
theory Types
  imports Ordered_Map
begin

text \<open>
  \<open>dol-core\<close>: structured diagnostics, definition limits and the semantic type model of
  \<open>types/def.rs\<close>: type definitions, their constructors, derived properties and the canonical order of
  record fields. Struct fields are selectors of one-constructor datatypes, because \<open>TypeDef\<close>,
  \<open>TypeShape\<close> and \<open>RecordField\<close> are mutually recursive. Parameters are a \<open>btree\<close>.
\<close>

section \<open>Diagnostics (\<open>diagnostic/mod.rs\<close>)\<close>

datatype severity = SevError | SevWarning

record diagnostic =
  code :: string
  severity :: severity
  message :: string
  help_text :: "string option"

definition diagnostic_error :: "string \<Rightarrow> string \<Rightarrow> diagnostic" where
  "diagnostic_error c m = \<lparr>code = c, severity = SevError, message = m, help_text = None\<rparr>"

definition with_help :: "diagnostic \<Rightarrow> string \<Rightarrow> diagnostic" where
  "with_help d h = d\<lparr>help_text := Some h\<rparr>"

type_synonym 'a res = "diagnostic + 'a"

lemma diagnostic_error_fields [simp]:
  "code (diagnostic_error c m) = c" "message (diagnostic_error c m) = m"
  "severity (diagnostic_error c m) = SevError" "help_text (diagnostic_error c m) = None"
  by (simp_all add: diagnostic_error_def)

section \<open>Definition limits (\<open>limits/mod.rs\<close>)\<close>

record definition_limits =
  max_fields :: nat
  max_relations :: nat
  max_constraints :: nat
  max_type_depth :: nat
  max_type_nodes :: nat
  max_name_bytes :: nat

definition default_definition_limits :: definition_limits where
  "default_definition_limits =
     \<lparr>max_fields = 4096, max_relations = 4096, max_constraints = 4096,
      max_type_depth = 64, max_type_nodes = 16384, max_name_bytes = 1024\<rparr>"

section \<open>Type definitions (\<open>types/def.rs\<close>)\<close>

datatype type_parameter = TPBool bool | TPInt i64 | TPUInt u64 | TPString string

datatype nullability = NonNull | Nullable

datatype presence = Required | Optional

record type_properties =
  equality :: bool
  ordering_p :: bool
  keyable :: bool
  numeric :: bool
  integral :: bool
  exact_numeric :: bool
  temporal :: bool
  collection :: bool

definition type_properties_none :: type_properties where
  "type_properties_none =
     \<lparr>equality = False, ordering_p = False, keyable = False, numeric = False,
      integral = False, exact_numeric = False, temporal = False, collection = False\<rparr>"

datatype scalar_repr =
    RBool | RTruth | RInt byte | RUInt byte | RFloat32 | RFloat64 | RDecimal | RChar | RString
  | RBytes | RUuid | RDate | RTime | RLocalDateTime | RInstant | RDuration

datatype type_def =
    TypeDef (ty_key: string) (ty_version: u32) (ty_shape: type_shape) (ty_nullability: nullability)
      (ty_properties: type_properties) (ty_parameters: "(string, type_parameter) btree")
and type_shape =
    ShScalar scalar_repr
  | ShList type_def
  | ShMap type_def type_def
  | ShTuple "type_def list"
  | ShRecord "record_field list"
and record_field =
    RecordField (rf_name: string) (rf_ty: type_def) (rf_presence: presence)

definition record_field_required :: "string \<Rightarrow> type_def \<Rightarrow> record_field" where
  "record_field_required name ty = RecordField name ty Required"

definition record_field_optional :: "string \<Rightarrow> type_def \<Rightarrow> record_field" where
  "record_field_optional name ty = RecordField name ty Optional"

subsection \<open>Derived properties\<close>

definition scalar_properties :: "scalar_repr \<Rightarrow> type_properties" where
  "scalar_properties repr =
     (let properties =
        \<lparr>equality = True, ordering_p = True, keyable = True, numeric = False,
         integral = False, exact_numeric = False, temporal = False, collection = False\<rparr>
      in case repr of
        RInt _ \<Rightarrow> properties\<lparr>numeric := True, integral := True, exact_numeric := True\<rparr>
      | RUInt _ \<Rightarrow> properties\<lparr>numeric := True, integral := True, exact_numeric := True\<rparr>
      | RFloat32 \<Rightarrow> properties\<lparr>numeric := True, ordering_p := True, keyable := False\<rparr>
      | RFloat64 \<Rightarrow> properties\<lparr>numeric := True, ordering_p := True, keyable := False\<rparr>
      | RDecimal \<Rightarrow> properties\<lparr>numeric := True, exact_numeric := True\<rparr>
      | RTruth \<Rightarrow> properties\<lparr>ordering_p := False\<rparr>
      | RDate \<Rightarrow> properties\<lparr>temporal := True\<rparr>
      | RTime \<Rightarrow> properties\<lparr>temporal := True\<rparr>
      | RLocalDateTime \<Rightarrow> properties\<lparr>temporal := True\<rparr>
      | RInstant \<Rightarrow> properties\<lparr>temporal := True\<rparr>
      | RDuration \<Rightarrow> properties\<lparr>temporal := True\<rparr>
      | _ \<Rightarrow> properties)"

definition collection_properties :: "bool \<Rightarrow> bool \<Rightarrow> type_properties" where
  "collection_properties eqp keyp =
     \<lparr>equality = eqp, ordering_p = False, keyable = keyp, numeric = False, integral = False,
      exact_numeric = False, temporal = False, collection = True\<rparr>"

fun shape_properties :: "type_shape \<Rightarrow> type_properties" where
  "shape_properties (ShScalar repr) = scalar_properties repr"
| "shape_properties (ShList element) = collection_properties (equality (ty_properties element)) False"
| "shape_properties (ShMap key val) =
     collection_properties (equality (ty_properties key) \<and> equality (ty_properties val)) False"
| "shape_properties (ShTuple elements) =
     collection_properties
       (list_all (\<lambda>element. equality (ty_properties element)) elements)
       (list_all (\<lambda>element. keyable (ty_properties element)) elements)"
| "shape_properties (ShRecord fs) =
     collection_properties
       (list_all (\<lambda>field. equality (ty_properties (rf_ty field))) fs)
       (list_all (\<lambda>field. keyable (ty_properties (rf_ty field))) fs)"

subsection \<open>Canonical field order\<close>

text \<open>
  \<open>canonicalize\<close> sorts the fields of every nested record by name (\<open>sort_by\<close> is stable, as
  \<open>sort_key\<close> is).
\<close>

fun canonicalize :: "type_def \<Rightarrow> type_def"
and canonicalize_shape :: "type_shape \<Rightarrow> type_shape"
and canonicalize_field :: "record_field \<Rightarrow> record_field" where
  "canonicalize (TypeDef k v sh n p ps) = TypeDef k v (canonicalize_shape sh) n p ps"
| "canonicalize_shape (ShScalar r) = ShScalar r"
| "canonicalize_shape (ShList element) = ShList (canonicalize element)"
| "canonicalize_shape (ShMap key val) = ShMap (canonicalize key) (canonicalize val)"
| "canonicalize_shape (ShTuple elements) = ShTuple (map canonicalize elements)"
| "canonicalize_shape (ShRecord fs) = ShRecord (sort_key rf_name (map canonicalize_field fs))"
| "canonicalize_field (RecordField nm ty pr) = RecordField nm (canonicalize ty) pr"

subsection \<open>Constructors\<close>

definition type_scalar :: "string \<Rightarrow> u32 \<Rightarrow> scalar_repr \<Rightarrow> type_def" where
  "type_scalar key version repr =
     TypeDef key version (ShScalar repr) NonNull (scalar_properties repr) []"

definition type_shaped :: "string \<Rightarrow> u32 \<Rightarrow> type_shape \<Rightarrow> type_def" where
  "type_shaped key version shape =
     canonicalize (TypeDef key version shape NonNull (shape_properties shape) [])"

fun with_properties :: "type_def \<Rightarrow> type_properties \<Rightarrow> type_def" where
  "with_properties (TypeDef k v sh n _ ps) p = TypeDef k v sh n p ps"

fun parameter :: "type_def \<Rightarrow> string \<Rightarrow> type_parameter \<Rightarrow> type_def" where
  "parameter (TypeDef k v sh n p ps) name val = TypeDef k v sh n p (btree_insert name val ps)"

fun nullable :: "type_def \<Rightarrow> type_def" where
  "nullable (TypeDef k v sh _ p ps) = TypeDef k v sh Nullable p ps"

fun non_null :: "type_def \<Rightarrow> type_def" where
  "non_null (TypeDef k v sh _ p ps) = TypeDef k v sh NonNull p ps"

definition is_nullable :: "type_def \<Rightarrow> bool" where
  "is_nullable ty \<longleftrightarrow> ty_nullability ty = Nullable"

definition same_value_type :: "type_def \<Rightarrow> type_def \<Rightarrow> bool" where
  "same_value_type a b \<longleftrightarrow>
     ty_key a = ty_key b \<and> ty_version a = ty_version b \<and> ty_shape a = ty_shape b \<and>
     ty_properties a = ty_properties b \<and> ty_parameters a = ty_parameters b"

section \<open>The representation invariant\<close>

text \<open>
  What every \<open>TypeDef\<close> built through the public constructors satisfies: strings are UTF-8 (the
  invariant of \<open>str\<close>), parameters are in key order (the invariant of \<open>BTreeMap\<close>), record fields are in
  name order at every level.
\<close>

fun type_parameter_ok :: "type_parameter \<Rightarrow> bool" where
  "type_parameter_ok (TPString s) = rust_str s"
| "type_parameter_ok _ = True"

fun type_ok :: "type_def \<Rightarrow> bool"
and shape_ok :: "type_shape \<Rightarrow> bool"
and field_ok :: "record_field \<Rightarrow> bool" where
  "type_ok (TypeDef k v sh n p ps) \<longleftrightarrow>
     rust_str k \<and> btree_inv ps \<and> (\<forall>kv \<in> set ps. rust_str (fst kv) \<and> type_parameter_ok (snd kv)) \<and>
     shape_ok sh"
| "shape_ok (ShScalar r) \<longleftrightarrow> True"
| "shape_ok (ShList element) \<longleftrightarrow> type_ok element"
| "shape_ok (ShMap key val) \<longleftrightarrow> type_ok key \<and> type_ok val"
| "shape_ok (ShTuple elements) \<longleftrightarrow> list_all type_ok elements"
| "shape_ok (ShRecord fs) \<longleftrightarrow> sorted (map rf_name fs) \<and> list_all field_ok fs"
| "field_ok (RecordField nm ty pr) \<longleftrightarrow> rust_str nm \<and> type_ok ty"

text \<open>The same without the field order: what the arguments of \<open>shaped\<close> satisfy.\<close>

fun type_text_ok :: "type_def \<Rightarrow> bool"
and shape_text_ok :: "type_shape \<Rightarrow> bool"
and field_text_ok :: "record_field \<Rightarrow> bool" where
  "type_text_ok (TypeDef k v sh n p ps) \<longleftrightarrow>
     rust_str k \<and> btree_inv ps \<and> (\<forall>kv \<in> set ps. rust_str (fst kv) \<and> type_parameter_ok (snd kv)) \<and>
     shape_text_ok sh"
| "shape_text_ok (ShScalar r) \<longleftrightarrow> True"
| "shape_text_ok (ShList element) \<longleftrightarrow> type_text_ok element"
| "shape_text_ok (ShMap key val) \<longleftrightarrow> type_text_ok key \<and> type_text_ok val"
| "shape_text_ok (ShTuple elements) \<longleftrightarrow> list_all type_text_ok elements"
| "shape_text_ok (ShRecord fs) \<longleftrightarrow> list_all field_text_ok fs"
| "field_text_ok (RecordField nm ty pr) \<longleftrightarrow> rust_str nm \<and> type_text_ok ty"

lemma rf_name_canonicalize [simp]: "rf_name (canonicalize_field f) = rf_name f"
  by (cases f) simp

lemma canonicalize_ok:
  "type_text_ok t \<Longrightarrow> type_ok (canonicalize t)"
  "shape_text_ok s \<Longrightarrow> shape_ok (canonicalize_shape s)"
  "field_text_ok f \<Longrightarrow> field_ok (canonicalize_field f)"
  by (induction t and s and f rule: canonicalize_canonicalize_shape_canonicalize_field.induct)
    (auto simp: list_all_iff)

lemma canonicalize_id:
  "type_ok t \<Longrightarrow> canonicalize t = t"
  "shape_ok s \<Longrightarrow> canonicalize_shape s = s"
  "field_ok f \<Longrightarrow> canonicalize_field f = f"
proof (induction t and s and f rule: canonicalize_canonicalize_shape_canonicalize_field.induct)
  case (6 fs)
  then have "map canonicalize_field fs = fs"
    by (auto simp: list_all_iff intro: map_idI)
  with 6 show ?case by (simp add: sort_key_id_if_sorted)
qed (auto simp: list_all_iff intro: map_idI)

end
