(* ===== verification/Truth.thy ===== *)
theory Truth
  imports Types
begin

text \<open>
  \<open>semantics/mod.rs\<close>, the type \<open>Truth\<close>: DOL's three-valued logic and its reading as the three-element
  chain \<open>False < Unknown < True\<close>, on which AND is the minimum and OR the maximum.
\<close>

datatype truth = TTrue | TFalse | TUnknown

definition retains_row :: "truth \<Rightarrow> bool" where
  "retains_row t \<longleftrightarrow> t = TTrue"

fun truth_and :: "truth \<Rightarrow> truth \<Rightarrow> truth" where
  "truth_and TFalse _ = TFalse"
| "truth_and _ TFalse = TFalse"
| "truth_and TTrue TTrue = TTrue"
| "truth_and _ _ = TUnknown"

fun truth_or :: "truth \<Rightarrow> truth \<Rightarrow> truth" where
  "truth_or TTrue _ = TTrue"
| "truth_or _ TTrue = TTrue"
| "truth_or TFalse TFalse = TFalse"
| "truth_or _ _ = TUnknown"

fun truth_negate :: "truth \<Rightarrow> truth" where
  "truth_negate TTrue = TFalse"
| "truth_negate TFalse = TTrue"
| "truth_negate TUnknown = TUnknown"

definition truth_type_def :: type_def where
  "truth_type_def = type_scalar ''dol/truth'' 1 RTruth"

text \<open>The derived \<open>Ord\<close> of the enum follows the declaration order of its variants.\<close>

fun truth_discriminant :: "truth \<Rightarrow> nat" where
  "truth_discriminant TTrue = 0"
| "truth_discriminant TFalse = 1"
| "truth_discriminant TUnknown = 2"

text \<open>The logical order, not used by the code: the abstract specification of the connectives.\<close>

fun truth_level :: "truth \<Rightarrow> int" where
  "truth_level TFalse = -1"
| "truth_level TUnknown = 0"
| "truth_level TTrue = 1"

lemma truth_level_inject: "truth_level a = truth_level b \<longleftrightarrow> a = b"
  by (cases a; cases b) auto

lemma truth_and_level: "truth_level (truth_and a b) = min (truth_level a) (truth_level b)"
  by (cases a; cases b) auto

lemma truth_or_level: "truth_level (truth_or a b) = max (truth_level a) (truth_level b)"
  by (cases a; cases b) auto

lemma truth_negate_level: "truth_level (truth_negate a) = - truth_level a"
  by (cases a) auto

lemmas truth_levels = truth_and_level truth_or_level truth_negate_level

lemma truth_de_morgan:
  "truth_negate (truth_and a b) = truth_or (truth_negate a) (truth_negate b)"
  "truth_negate (truth_or a b) = truth_and (truth_negate a) (truth_negate b)"
  by (simp_all add: truth_level_inject [symmetric] truth_levels)

lemma truth_lattice:
  "truth_and a b = truth_and b a" "truth_or a b = truth_or b a"
  "truth_and a (truth_and b c) = truth_and (truth_and a b) c"
  "truth_or a (truth_or b c) = truth_or (truth_or a b) c"
  "truth_and a (truth_or b c) = truth_or (truth_and a b) (truth_and a c)"
  "truth_and a (truth_or a b) = a"
  by (auto simp: truth_level_inject [symmetric] truth_levels)

end
