(* ===== verification/Values.thy ===== *)
theory Values
  imports Truth
begin

text \<open>
  \<open>value/logical.rs\<close>, \<open>value/datum.rs\<close> and the ordering of \<open>semantics/mod.rs\<close>: owned logical values and
  datums, their equality, their logical size and their deterministic order.

  The scalar types of third-party crates (\<open>rust_decimal::Decimal\<close>, \<open>uuid::Uuid\<close> and the types of
  \<open>time\<close>) are the type variable \<open>'x\<close>; what the code calls on them is a parameter of the model, the
  record \<open>'x ext\<close>. Floating-point values are their IEEE bit patterns.
\<close>

section \<open>Operations of the third-party scalar crates\<close>

datatype ext_kind = KDecimal | KUuid | KDate | KTime | KLocalDateTime | KInstant | KDuration

record 'x ext =
  x_eq :: "ext_kind \<Rightarrow> 'x \<Rightarrow> 'x \<Rightarrow> bool"
  x_cmp :: "ext_kind \<Rightarrow> 'x \<Rightarrow> 'x \<Rightarrow> ordering"
  dec_normalize :: "'x \<Rightarrow> 'x"
  dec_mantissa :: "'x \<Rightarrow> i128"
  dec_scale :: "'x \<Rightarrow> u32"
  dec_parse :: "string \<Rightarrow> 'x option"
  dec_from_i128_with_scale :: "i128 \<Rightarrow> u32 \<Rightarrow> 'x option"
  uuid_as_bytes :: "'x \<Rightarrow> byte list"
  uuid_parse :: "string \<Rightarrow> 'x option"
  date_to_julian_day :: "'x \<Rightarrow> 32 word"
  date_from_julian_day :: "32 word \<Rightarrow> 'x option"
  time_hour :: "'x \<Rightarrow> byte"
  time_minute :: "'x \<Rightarrow> byte"
  time_second :: "'x \<Rightarrow> byte"
  time_nanosecond :: "'x \<Rightarrow> u32"
  time_from_hms_nano :: "byte \<Rightarrow> byte \<Rightarrow> byte \<Rightarrow> u32 \<Rightarrow> 'x option"
  datetime_new :: "'x \<Rightarrow> 'x \<Rightarrow> 'x"
  datetime_date :: "'x \<Rightarrow> 'x"
  datetime_time :: "'x \<Rightarrow> 'x"
  instant_unix_nanos :: "'x \<Rightarrow> i128"
  instant_from_unix_nanos :: "i128 \<Rightarrow> 'x option"
  duration_whole_nanos :: "'x \<Rightarrow> i128"
  duration_new :: "i64 \<Rightarrow> 32 word \<Rightarrow> 'x"

section \<open>Values\<close>

datatype 'x val =
    VBool bool
  | VTruth truth
  | VInt i128
  | VUInt u128
  | VFloat32 u32
  | VFloat64 u64
  | VDecimal 'x
  | VChar u32
  | VString string
  | VBytes "byte list"
  | VUuid 'x
  | VDate 'x
  | VTime 'x
  | VLocalDateTime 'x
  | VInstant 'x
  | VDuration 'x
  | VList "'x datum list"
  | VMap "('x datum \<times> 'x datum) list"
  | VTuple "'x datum list"
  | VRecord "(string, 'x datum) btree"
and 'x datum = Missing | Null | Value "'x val"

subsection \<open>Floating-point comparison on bit patterns\<close>

definition f32_is_nan :: "u32 \<Rightarrow> bool" where
  "f32_is_nan w \<longleftrightarrow> unat w mod 2 ^ 31 > 2139095040"
definition f32_is_zero :: "u32 \<Rightarrow> bool" where
  "f32_is_zero w \<longleftrightarrow> unat w mod 2 ^ 31 = 0"
definition f32_eq :: "u32 \<Rightarrow> u32 \<Rightarrow> bool" where
  "f32_eq a b \<longleftrightarrow> \<not> f32_is_nan a \<and> \<not> f32_is_nan b \<and> (a = b \<or> f32_is_zero a \<and> f32_is_zero b)"

definition f64_is_nan :: "u64 \<Rightarrow> bool" where
  "f64_is_nan w \<longleftrightarrow> unat w mod 2 ^ 63 > 9218868437227405312"
definition f64_is_zero :: "u64 \<Rightarrow> bool" where
  "f64_is_zero w \<longleftrightarrow> unat w mod 2 ^ 63 = 0"
definition f64_eq :: "u64 \<Rightarrow> u64 \<Rightarrow> bool" where
  "f64_eq a b \<longleftrightarrow> \<not> f64_is_nan a \<and> \<not> f64_is_nan b \<and> (a = b \<or> f64_is_zero a \<and> f64_is_zero b)"

text \<open>\<open>total_cmp\<close> compares the signed readings after flipping the magnitude bits of negative values.\<close>

definition f32_total_key :: "u32 \<Rightarrow> int" where
  "f32_total_key w = sint (if bit w 31 then xor w 2147483647 else w)"
definition f64_total_key :: "u64 \<Rightarrow> int" where
  "f64_total_key w = sint (if bit w 63 then xor w 9223372036854775807 else w)"

subsection \<open>Equality (\<open>PartialEq\<close>)\<close>

text \<open>
  Containers compare through the comparisons of their left members: vectors, tuples and records member
  by member, \<open>maps_equal\<close> by length and by looking every left entry up among the right ones.
\<close>

definition vec_equal :: "('b \<Rightarrow> bool) list \<Rightarrow> 'b list \<Rightarrow> bool" where
  "vec_equal left right = list_all2 (\<lambda>eq e. eq e) left right"

definition maps_equal :: "(('b \<Rightarrow> bool) \<times> ('b \<Rightarrow> bool)) list \<Rightarrow> ('b \<times> 'b) list \<Rightarrow> bool" where
  "maps_equal left right \<longleftrightarrow>
     length left = length right \<and>
     list_all (\<lambda>l. list_ex (\<lambda>r. fst l (fst r) \<and> snd l (snd r)) right) left"

definition record_equal :: "(string \<times> ('b \<Rightarrow> bool)) list \<Rightarrow> (string \<times> 'b) list \<Rightarrow> bool" where
  "record_equal left right = list_all2 (\<lambda>l r. fst l = fst r \<and> snd l (snd r)) left right"

primrec value_eq :: "'x ext \<Rightarrow> 'x val \<Rightarrow> 'x val \<Rightarrow> bool"
and datum_eq :: "'x ext \<Rightarrow> 'x datum \<Rightarrow> 'x datum \<Rightarrow> bool" where
  "value_eq X (VBool a) = (\<lambda>w. (case w of VBool b \<Rightarrow> a = b | _ \<Rightarrow> False))"
| "value_eq X (VTruth a) = (\<lambda>w. (case w of VTruth b \<Rightarrow> a = b | _ \<Rightarrow> False))"
| "value_eq X (VInt a) = (\<lambda>w. (case w of VInt b \<Rightarrow> a = b | _ \<Rightarrow> False))"
| "value_eq X (VUInt a) = (\<lambda>w. (case w of VUInt b \<Rightarrow> a = b | _ \<Rightarrow> False))"
| "value_eq X (VFloat32 a) = (\<lambda>w. (case w of VFloat32 b \<Rightarrow> f32_eq a b | _ \<Rightarrow> False))"
| "value_eq X (VFloat64 a) = (\<lambda>w. (case w of VFloat64 b \<Rightarrow> f64_eq a b | _ \<Rightarrow> False))"
| "value_eq X (VDecimal a) = (\<lambda>w. (case w of VDecimal b \<Rightarrow> x_eq X KDecimal a b | _ \<Rightarrow> False))"
| "value_eq X (VChar a) = (\<lambda>w. (case w of VChar b \<Rightarrow> a = b | _ \<Rightarrow> False))"
| "value_eq X (VString a) = (\<lambda>w. (case w of VString b \<Rightarrow> a = b | _ \<Rightarrow> False))"
| "value_eq X (VBytes a) = (\<lambda>w. (case w of VBytes b \<Rightarrow> a = b | _ \<Rightarrow> False))"
| "value_eq X (VUuid a) = (\<lambda>w. (case w of VUuid b \<Rightarrow> x_eq X KUuid a b | _ \<Rightarrow> False))"
| "value_eq X (VDate a) = (\<lambda>w. (case w of VDate b \<Rightarrow> x_eq X KDate a b | _ \<Rightarrow> False))"
| "value_eq X (VTime a) = (\<lambda>w. (case w of VTime b \<Rightarrow> x_eq X KTime a b | _ \<Rightarrow> False))"
| "value_eq X (VLocalDateTime a) = (\<lambda>w.
     (case w of VLocalDateTime b \<Rightarrow> x_eq X KLocalDateTime a b | _ \<Rightarrow> False))"
| "value_eq X (VInstant a) = (\<lambda>w. (case w of VInstant b \<Rightarrow> x_eq X KInstant a b | _ \<Rightarrow> False))"
| "value_eq X (VDuration a) = (\<lambda>w. (case w of VDuration b \<Rightarrow> x_eq X KDuration a b | _ \<Rightarrow> False))"
| "value_eq X (VList a) = (\<lambda>w. (case w of VList b \<Rightarrow> vec_equal (map (datum_eq X) a) b | _ \<Rightarrow> False))"
| "value_eq X (VTuple a) = (\<lambda>w. (case w of VTuple b \<Rightarrow> vec_equal (map (datum_eq X) a) b | _ \<Rightarrow> False))"
| "value_eq X (VMap a) = (\<lambda>w.
     (case w of VMap b \<Rightarrow> maps_equal (map (map_prod (datum_eq X) (datum_eq X)) a) b | _ \<Rightarrow> False))"
| "value_eq X (VRecord a) = (\<lambda>w.
     (case w of VRecord b \<Rightarrow> record_equal (map (map_prod id (datum_eq X)) a) b | _ \<Rightarrow> False))"
| "datum_eq X Missing = (\<lambda>e. case e of Missing \<Rightarrow> True | _ \<Rightarrow> False)"
| "datum_eq X Null = (\<lambda>e. case e of Null \<Rightarrow> True | _ \<Rightarrow> False)"
| "datum_eq X (Value v) = (\<lambda>e. case e of Value w \<Rightarrow> value_eq X v w | _ \<Rightarrow> False)"

subsection \<open>Logical size\<close>

fun value_bytes :: "'x val \<Rightarrow> nat"
and datum_bytes :: "'x datum \<Rightarrow> nat" where
  "value_bytes (VBool _) = 1"
| "value_bytes (VTruth _) = 1"
| "value_bytes (VInt _) = 16"
| "value_bytes (VUInt _) = 16"
| "value_bytes (VDecimal _) = 16"
| "value_bytes (VFloat32 _) = 4"
| "value_bytes (VChar _) = 4"
| "value_bytes (VDate _) = 4"
| "value_bytes (VFloat64 _) = 8"
| "value_bytes (VTime _) = 8"
| "value_bytes (VUuid _) = 16"
| "value_bytes (VLocalDateTime _) = 16"
| "value_bytes (VInstant _) = 16"
| "value_bytes (VDuration _) = 16"
| "value_bytes (VString s) = saturating_add_u64 8 (length s)"
| "value_bytes (VBytes bs) = saturating_add_u64 8 (length bs)"
| "value_bytes (VList ds) = foldl (\<lambda>size d. saturating_add_u64 size (datum_bytes d)) 8 ds"
| "value_bytes (VTuple ds) = foldl (\<lambda>size d. saturating_add_u64 size (datum_bytes d)) 8 ds"
| "value_bytes (VMap es) =
     foldl (\<lambda>size kv. saturating_add_u64 (saturating_add_u64 size (datum_bytes (fst kv)))
       (datum_bytes (snd kv))) 8 es"
| "value_bytes (VRecord fs) =
     foldl (\<lambda>size nd. saturating_add_u64 (saturating_add_u64 size (length (fst nd)))
       (datum_bytes (snd nd))) 8 fs"
| "datum_bytes Missing = 1"
| "datum_bytes Null = 1"
| "datum_bytes (Value v) = saturating_add_u64 1 (value_bytes v)"

subsection \<open>Deterministic execution order (\<open>compare_values\<close>, \<open>compare_datums\<close>)\<close>

fun bytes_cmp :: "byte list \<Rightarrow> byte list \<Rightarrow> ordering" where
  "bytes_cmp [] [] = Equal"
| "bytes_cmp [] (_ # _) = Less"
| "bytes_cmp (_ # _) [] = Greater"
| "bytes_cmp (a # as) (b # bs) = then_with (cmp_of a b) (bytes_cmp as bs)"

definition compare_values :: "'x ext \<Rightarrow> 'x val \<Rightarrow> 'x val \<Rightarrow> ordering option" where
  "compare_values X l r =
     (case l of
        VBool a \<Rightarrow> (case r of VBool b \<Rightarrow> Some (cmp_of a b) | _ \<Rightarrow> None)
      | VTruth a \<Rightarrow>
          (case r of VTruth b \<Rightarrow> Some (cmp_of (truth_discriminant a) (truth_discriminant b)) | _ \<Rightarrow> None)
      | VInt a \<Rightarrow> (case r of VInt b \<Rightarrow> Some (cmp_of (sint a) (sint b)) | _ \<Rightarrow> None)
      | VUInt a \<Rightarrow> (case r of VUInt b \<Rightarrow> Some (cmp_of a b) | _ \<Rightarrow> None)
      | VFloat32 a \<Rightarrow>
          (case r of VFloat32 b \<Rightarrow> Some (cmp_of (f32_total_key a) (f32_total_key b)) | _ \<Rightarrow> None)
      | VFloat64 a \<Rightarrow>
          (case r of VFloat64 b \<Rightarrow> Some (cmp_of (f64_total_key a) (f64_total_key b)) | _ \<Rightarrow> None)
      | VDecimal a \<Rightarrow> (case r of VDecimal b \<Rightarrow> Some (x_cmp X KDecimal a b) | _ \<Rightarrow> None)
      | VChar a \<Rightarrow> (case r of VChar b \<Rightarrow> Some (cmp_of a b) | _ \<Rightarrow> None)
      | VString a \<Rightarrow> (case r of VString b \<Rightarrow> Some (cmp_of a b) | _ \<Rightarrow> None)
      | VBytes a \<Rightarrow> (case r of VBytes b \<Rightarrow> Some (bytes_cmp a b) | _ \<Rightarrow> None)
      | VUuid a \<Rightarrow> (case r of VUuid b \<Rightarrow> Some (x_cmp X KUuid a b) | _ \<Rightarrow> None)
      | VDate a \<Rightarrow> (case r of VDate b \<Rightarrow> Some (x_cmp X KDate a b) | _ \<Rightarrow> None)
      | VTime a \<Rightarrow> (case r of VTime b \<Rightarrow> Some (x_cmp X KTime a b) | _ \<Rightarrow> None)
      | VLocalDateTime a \<Rightarrow>
          (case r of VLocalDateTime b \<Rightarrow> Some (x_cmp X KLocalDateTime a b) | _ \<Rightarrow> None)
      | VInstant a \<Rightarrow> (case r of VInstant b \<Rightarrow> Some (x_cmp X KInstant a b) | _ \<Rightarrow> None)
      | VDuration a \<Rightarrow> (case r of VDuration b \<Rightarrow> Some (x_cmp X KDuration a b) | _ \<Rightarrow> None)
      | _ \<Rightarrow> None)"

fun compare_datums :: "'x ext \<Rightarrow> 'x datum \<Rightarrow> 'x datum \<Rightarrow> ordering option" where
  "compare_datums X Missing Missing = Some Equal"
| "compare_datums X Null Null = Some Equal"
| "compare_datums X Missing _ = Some Less"
| "compare_datums X _ Missing = Some Greater"
| "compare_datums X Null _ = Some Less"
| "compare_datums X _ Null = Some Greater"
| "compare_datums X (Value l) (Value r) = compare_values X l r"

section \<open>Laws of the order\<close>

text \<open>
  The documented contract of the third-party \<open>Ord\<close> implementations: on values of one kind,
  \<open>cmp\<close> is a total order (the predicate \<open>ok\<close> tells the values of a kind).
\<close>

definition ext_order_laws :: "'x ext \<Rightarrow> (ext_kind \<Rightarrow> 'x \<Rightarrow> bool) \<Rightarrow> bool" where
  "ext_order_laws X ok \<longleftrightarrow>
     (\<forall>k a. ok k a \<longrightarrow> x_cmp X k a a = Equal) \<and>
     (\<forall>k a b. ok k a \<and> ok k b \<longrightarrow> x_cmp X k b a = reverse_ordering (x_cmp X k a b)) \<and>
     (\<forall>k a b c. ok k a \<and> ok k b \<and> ok k c \<and> x_cmp X k a b \<noteq> Greater \<and> x_cmp X k b c \<noteq> Greater \<longrightarrow>
        x_cmp X k a c \<noteq> Greater)"

fun scalar_ext_ok :: "(ext_kind \<Rightarrow> 'x \<Rightarrow> bool) \<Rightarrow> 'x val \<Rightarrow> bool" where
  "scalar_ext_ok ok (VDecimal x) = ok KDecimal x"
| "scalar_ext_ok ok (VUuid x) = ok KUuid x"
| "scalar_ext_ok ok (VDate x) = ok KDate x"
| "scalar_ext_ok ok (VTime x) = ok KTime x"
| "scalar_ext_ok ok (VLocalDateTime x) = ok KLocalDateTime x"
| "scalar_ext_ok ok (VInstant x) = ok KInstant x"
| "scalar_ext_ok ok (VDuration x) = ok KDuration x"
| "scalar_ext_ok ok _ = True"

definition datum_ext_ok :: "(ext_kind \<Rightarrow> 'x \<Rightarrow> bool) \<Rightarrow> 'x datum \<Rightarrow> bool" where
  "datum_ext_ok ok d = (case d of Value v \<Rightarrow> scalar_ext_ok ok v | _ \<Rightarrow> True)"

lemma reverse_then_with: "reverse_ordering (then_with a b) = then_with (reverse_ordering a) (reverse_ordering b)"
  by (cases a) auto

lemma bytes_cmp_swap: "bytes_cmp b a = reverse_ordering (bytes_cmp a b)"
proof (induction a b rule: bytes_cmp.induct)
  case (4 a as b bs)
  then show ?case by (simp add: reverse_then_with cmp_of_swap [of b a])
qed auto

lemma bytes_cmp_refl: "bytes_cmp a a = Equal"
  by (induction a) (auto simp: cmp_of_def)

lemma bytes_cmp_trans:
  "bytes_cmp a b \<noteq> Greater \<Longrightarrow> bytes_cmp b c \<noteq> Greater \<Longrightarrow> bytes_cmp a c \<noteq> Greater"
proof (induction a c arbitrary: b rule: bytes_cmp.induct)
  case (3 a as)
  then show ?case by (cases b) auto
next
  case (4 a as c cs)
  then obtain b' bs where b: "b = b' # bs" by (cases b) auto
  show ?case
  proof (cases "a = b' \<and> b' = c")
    case True
    with 4 b show ?thesis by (auto simp: cmp_of_def)
  next
    case False
    have "then_with (cmp_of x y) o2 \<noteq> Greater \<Longrightarrow> x \<le> y" for x y :: byte and o2
      by (auto simp: cmp_of_def split: if_splits)
    with 4 b have "a \<le> b'" "b' \<le> c" by auto
    with False have "a < c" by (metis order_le_less order_le_less_trans)
    then show ?thesis by (simp add: cmp_of_def)
  qed
qed auto

end
