(* ===== verification/Value_Validate.thy ===== *)
theory Value_Validate
  imports Values
begin

text \<open>
  \<open>value/validate.rs\<close>: conformance of a datum to a semantic type and presence contract.
\<close>

definition runtime_002 :: diagnostic where
  "runtime_002 = diagnostic_error ''RUNTIME-002'' ''required value is missing''"
definition runtime_003 :: diagnostic where
  "runtime_003 = diagnostic_error ''RUNTIME-003'' ''non-null value received null''"
definition runtime_003_nested :: diagnostic where
  "runtime_003_nested = diagnostic_error ''RUNTIME-003'' ''non-null nested value received null''"
definition runtime_004 :: "type_def \<Rightarrow> diagnostic" where
  "runtime_004 ty = diagnostic_error ''RUNTIME-004''
     (''value does not conform to type `'' @ ty_key ty @ ''`'')"
definition runtime_005 :: "string \<Rightarrow> diagnostic" where
  "runtime_005 name = diagnostic_error ''RUNTIME-005'' (''record value missing field `'' @ name @ ''`'')"
definition runtime_006 :: diagnostic where
  "runtime_006 = diagnostic_error ''RUNTIME-006'' ''missing is only valid for named record/model fields''"
definition runtime_007 :: diagnostic where
  "runtime_007 = diagnostic_error ''RUNTIME-007'' ''map value contains a duplicate key''"

definition signed_fits :: "byte \<Rightarrow> i128 \<Rightarrow> bool" where
  "signed_fits bits v \<longleftrightarrow>
     (if bits = 8 then - (2 ^ 7) \<le> sint v \<and> sint v < 2 ^ 7
      else if bits = 16 then - (2 ^ 15) \<le> sint v \<and> sint v < 2 ^ 15
      else if bits = 32 then - (2 ^ 31) \<le> sint v \<and> sint v < 2 ^ 31
      else if bits = 64 then - (2 ^ 63) \<le> sint v \<and> sint v < 2 ^ 63
      else bits = 128)"

definition unsigned_fits :: "byte \<Rightarrow> u128 \<Rightarrow> bool" where
  "unsigned_fits bits v \<longleftrightarrow>
     (if bits = 8 then unat v < 2 ^ 8
      else if bits = 16 then unat v < 2 ^ 16
      else if bits = 32 then unat v < 2 ^ 32
      else if bits = 64 then unat v < 2 ^ 64
      else bits = 128)"

definition scalar_matches :: "scalar_repr \<Rightarrow> 'x val \<Rightarrow> bool" where
  "scalar_matches repr v \<longleftrightarrow>
     (case v of
        VInt n \<Rightarrow> (case repr of RInt bits \<Rightarrow> signed_fits bits n | _ \<Rightarrow> False)
      | VUInt n \<Rightarrow> (case repr of RUInt bits \<Rightarrow> unsigned_fits bits n | _ \<Rightarrow> False)
      | VBool _ \<Rightarrow> repr = RBool
      | VTruth _ \<Rightarrow> repr = RTruth
      | VFloat32 _ \<Rightarrow> repr = RFloat32
      | VFloat64 _ \<Rightarrow> repr = RFloat64
      | VDecimal _ \<Rightarrow> repr = RDecimal
      | VChar _ \<Rightarrow> repr = RChar
      | VString _ \<Rightarrow> repr = RString
      | VBytes _ \<Rightarrow> repr = RBytes
      | VUuid _ \<Rightarrow> repr = RUuid
      | VDate _ \<Rightarrow> repr = RDate
      | VTime _ \<Rightarrow> repr = RTime
      | VLocalDateTime _ \<Rightarrow> repr = RLocalDateTime
      | VInstant _ \<Rightarrow> repr = RInstant
      | VDuration _ \<Rightarrow> repr = RDuration
      | _ \<Rightarrow> False)"

text \<open>
  The loops over the members of a container: \<open>validate_entries\<close> carries the entries already checked
  (\<open>entries[..index]\<close>), \<open>validate_zip\<close> pairs tuple elements with their types, \<open>validate_fields\<close> is the
  second loop of \<open>validate_record_value\<close>. They take the checks of the members as functions.
\<close>

fun validate_entries :: "'x ext \<Rightarrow> ('x datum \<Rightarrow> unit res) \<Rightarrow> ('x datum \<Rightarrow> unit res) \<Rightarrow>
    ('x datum \<times> 'x datum) list \<Rightarrow> ('x datum \<times> 'x datum) list \<Rightarrow> unit res" where
  "validate_entries X ckey cval seen [] = Inr ()"
| "validate_entries X ckey cval seen ((ek, ev) # es) =
     and_then (ckey ek) (\<lambda>_.
     and_then (cval ev) (\<lambda>_.
       if list_ex (\<lambda>kv. datum_eq X (fst kv) ek) seen then Inl runtime_007
       else validate_entries X ckey cval (seen @ [(ek, ev)]) es))"

fun validate_zip :: "('x datum \<Rightarrow> unit res) list \<Rightarrow> 'x datum list \<Rightarrow> unit res" where
  "validate_zip (c # cs) (d # ds) = and_then (c d) (\<lambda>_. validate_zip cs ds)"
| "validate_zip _ _ = Inr ()"

definition validate_field :: "(string, 'x datum) btree \<Rightarrow> record_field \<Rightarrow> ('x datum \<Rightarrow> unit res) \<Rightarrow> unit res" where
  "validate_field m f check =
     (case map_of m (rf_name f) of
        Some d \<Rightarrow> check d
      | None \<Rightarrow> if rf_presence f = Optional then Inr () else Inl (runtime_005 (rf_name f)))"

definition unknown_field :: "record_field list \<Rightarrow> (string, 'x datum) btree \<Rightarrow> bool" where
  "unknown_field fs m \<longleftrightarrow> list_ex (\<lambda>kd. \<not> list_ex (\<lambda>f. rf_name f = fst kd) fs) m"

lemma size_rf_ty: "f \<in> set fs \<Longrightarrow> size (rf_ty f) < Suc (size_list size fs)"
proof -
  assume f: "f \<in> set fs"
  have "size (rf_ty f) \<le> size f" by (cases f) simp
  also have "size f \<le> size_list size fs" using f by (rule size_list_estimation'[where f = size]) simp
  finally show ?thesis by simp
qed

lemma size_tuple_element: "t \<in> set ts \<Longrightarrow> size t < Suc (size_list size ts)"
  by (rule le_imp_less_Suc, rule size_list_estimation'[where f = size]) auto

function validate_value :: "'x ext \<Rightarrow> type_def \<Rightarrow> 'x val \<Rightarrow> unit res"
and validate_nested :: "'x ext \<Rightarrow> type_def \<Rightarrow> 'x datum \<Rightarrow> unit res" where
  "validate_value X (TypeDef k vn sh n p ps) v =
     (let mismatch = Inl (runtime_004 (TypeDef k vn sh n p ps))
      in case sh of
        ShScalar repr \<Rightarrow> if scalar_matches repr v then Inr () else mismatch
      | ShList element \<Rightarrow>
          (case v of VList ds \<Rightarrow> try_all (\<lambda>d. validate_nested X element d) ds | _ \<Rightarrow> mismatch)
      | ShMap key mv \<Rightarrow>
          (case v of
             VMap es \<Rightarrow>
               validate_entries X (\<lambda>d. validate_nested X key d) (\<lambda>d. validate_nested X mv d) [] es
           | _ \<Rightarrow> mismatch)
      | ShTuple elements \<Rightarrow>
          (case v of
             VTuple ds \<Rightarrow>
               if length ds = length elements
               then validate_zip (map (\<lambda>t d. validate_nested X t d) elements) ds else mismatch
           | _ \<Rightarrow> mismatch)
      | ShRecord fs \<Rightarrow>
          (case v of
             VRecord m \<Rightarrow>
               if unknown_field fs m then mismatch
               else try_all (\<lambda>f. validate_field m f (\<lambda>d. validate_nested X (rf_ty f) d)) fs
           | _ \<Rightarrow> mismatch))"
| "validate_nested X ty d =
     (case d of
        Missing \<Rightarrow> Inl runtime_006
      | Null \<Rightarrow> if is_nullable ty then Inr () else Inl runtime_003_nested
      | Value v \<Rightarrow> validate_value X ty v)"
  by pat_completeness auto
termination
  by (relation "measure (\<lambda>p. case p of Inl (X, ty, v) \<Rightarrow> 2 * size ty | Inr (X, ty, d) \<Rightarrow> 2 * size ty + 1)")
    (auto simp: less_Suc_eq_le [symmetric] dest: size_rf_ty size_tuple_element)

fun validate_datum :: "'x ext \<Rightarrow> type_def \<Rightarrow> presence \<Rightarrow> 'x datum \<Rightarrow> unit res" where
  "validate_datum X ty presence Missing = (if presence = Required then Inl runtime_002 else Inr ())"
| "validate_datum X ty presence Null =
     (if ty_nullability ty = NonNull then Inl runtime_003 else Inr ())"
| "validate_datum X ty presence (Value v) = validate_value X ty v"

end
