(* ===== verification/Expr_Node.thy ===== *)
theory Expr_Node
  imports Value_Validate
begin

text \<open>
  The data of \<open>dol-core/expr\<close>: operators and nodes (\<open>node.rs\<close>), portable function definitions with
  their local implementations (\<open>function.rs\<close>) and the limits of expressions. An \<open>Arc<ExprNode>\<close> is the
  tree below it, the \<open>OnceLock\<close> that caches its fingerprint is left out. A subquery of an existential
  is the type variable \<open>'q\<close>: expressions hand it on to the pipeline planner.
\<close>

section \<open>Limits\<close>

record expression_limits =
  el_max_nodes :: nat
  el_max_depth :: nat
  el_max_parameter_name_bytes :: nat

definition default_expression_limits :: expression_limits where
  "default_expression_limits =
     \<lparr>el_max_nodes = 65536, el_max_depth = 256, el_max_parameter_name_bytes = 1024\<rparr>"

section \<open>Operators\<close>

datatype unary_op =
    OpNot | OpIsNull | OpIsMissing | OpIsPresent | OpNullableLift | OpLosslessCast | OpNegate | OpAbs

datatype binary_op =
    OpEq | OpNe | OpLt | OpLe | OpGt | OpGe | OpAnd | OpOr | OpAdd | OpSub | OpMul | OpDiv | OpRem
  | OpIsDistinctFrom | OpIsNotDistinctFrom | OpCoalesce

section \<open>Functions (\<open>function.rs\<close>)\<close>

datatype function_determinism = Deterministic | Contextual | Volatile

record function_def =
  fn_key :: string
  fn_version :: u32
  fn_determinism :: function_determinism
  fn_dependencies :: "(string, string) btree"

definition function_new :: "string \<Rightarrow> u32 \<Rightarrow> function_determinism \<Rightarrow> function_def" where
  "function_new k v det = \<lparr>fn_key = k, fn_version = v, fn_determinism = det, fn_dependencies = []\<rparr>"

definition with_dependency :: "function_def \<Rightarrow> string \<Rightarrow> string \<Rightarrow> function_def" where
  "with_dependency f name version = f\<lparr>fn_dependencies := btree_insert name version (fn_dependencies f)\<rparr>"

definition func_001 :: diagnostic where
  "func_001 = diagnostic_error ''EXPR-FUNC-001''
     ''function key must be a non-empty namespaced path such as `org.example/function`''"
definition func_002 :: diagnostic where
  "func_002 = diagnostic_error ''EXPR-FUNC-002'' ''function semantic version must be greater than zero''"
definition func_003 :: diagnostic where
  "func_003 = diagnostic_error ''EXPR-FUNC-003''
     ''function semantic dependencies require non-empty names and versions''"
definition func_005 :: diagnostic where
  "func_005 = diagnostic_error ''EXPR-FUNC-005''
     ''custom semantic functions may not claim the reserved `dol/` namespace''"
definition func_006 :: diagnostic where
  "func_006 = diagnostic_error ''EXPR-FUNC-006''
     ''Phase 2 custom semantic functions must be deterministic; contextual and volatile functions require a future explicit evaluation-context contract''"

text \<open>\<open>split('/')\<close>: the segments between the slashes, at least one.\<close>

fun split_slash :: "string \<Rightarrow> string list" where
  "split_slash [] = [[]]"
| "split_slash (c # s) =
     (if c = CHR ''/'' then [] # split_slash s
      else (case split_slash s of seg # segs \<Rightarrow> (c # seg) # segs | [] \<Rightarrow> [[c]]))"

definition validate_function_def :: "function_def \<Rightarrow> unit res" where
  "validate_function_def f =
     (let k = fn_key f;
          valid_key = k \<noteq> [] \<and> hd k \<noteq> CHR ''/'' \<and> last k \<noteq> CHR ''/'' \<and>
            length (split_slash k) \<ge> 2 \<and> list_all (\<lambda>segment. segment \<noteq> []) (split_slash k)
      in if \<not> valid_key then Inl func_001
         else if fn_version f = 0 then Inl func_002
         else try_all (\<lambda>(name, version). if name = [] \<or> version = [] then Inl func_003 else Inr ())
                (fn_dependencies f))"

record 'x function_ref =
  fr_definition :: function_def
  fr_validate :: "function_def \<Rightarrow> type_def list \<Rightarrow> type_def \<Rightarrow> unit res"
  fr_evaluate :: "function_def \<Rightarrow> 'x datum list \<Rightarrow> type_def \<Rightarrow> 'x datum res"

definition function_validate :: "'x function_ref \<Rightarrow> type_def list \<Rightarrow> type_def \<Rightarrow> unit res" where
  "function_validate f arguments result =
     and_then (validate_function_def (fr_definition f)) (\<lambda>_. fr_validate f (fr_definition f) arguments result)"

definition function_evaluate :: "'x function_ref \<Rightarrow> 'x datum list \<Rightarrow> type_def \<Rightarrow> 'x datum res" where
  "function_evaluate f arguments result = fr_evaluate f (fr_definition f) arguments result"

text \<open>
  A custom semantic function: its definition, validation and evaluation are user code and enter as
  arguments.
\<close>

definition validate_semantic_function ::
  "(type_def list \<Rightarrow> type_def \<Rightarrow> unit res) \<Rightarrow> function_def \<Rightarrow> type_def list \<Rightarrow> type_def \<Rightarrow> unit res" where
  "validate_semantic_function validate f arguments result =
     (if prefix ''dol/'' (fn_key f) then Inl func_005
      else if fn_determinism f \<noteq> Deterministic then Inl func_006
      else validate arguments result)"

definition semantic_ref :: "function_def \<Rightarrow> (type_def list \<Rightarrow> type_def \<Rightarrow> unit res) \<Rightarrow>
    ('x datum list \<Rightarrow> type_def \<Rightarrow> 'x datum res) \<Rightarrow> 'x function_ref" where
  "semantic_ref f validate evaluate =
     \<lparr>fr_definition = f, fr_validate = validate_semantic_function validate,
      fr_evaluate = (\<lambda>_. evaluate)\<rparr>"

section \<open>Nodes (\<open>node.rs\<close>)\<close>

record field_ref =
  fref_model :: string
  fref_key :: string
  fref_name :: string
  fref_scope :: "string option"

datatype ('x, 'q) expr_node =
    ExprNode (en_kind: "('x, 'q) expr_kind") (en_ty: type_def)
and ('x, 'q) expr_kind =
    EField field_ref
  | ELiteral "'x datum"
  | EParameter string
  | EUnary unary_op "('x, 'q) expr_node"
  | EBinary binary_op "('x, 'q) expr_node" "('x, 'q) expr_node"
  | EMembership "('x, 'q) expr_node" "('x, 'q) expr_node list" bool
  | EConditional "('x, 'q) expr_node" "('x, 'q) expr_node" "('x, 'q) expr_node"
  | EFunctionCall "'x function_ref" "('x, 'q) expr_node list"
  | EExists 'q

text \<open>The children of a node, in the order in which every traversal visits them.\<close>

fun kind_children :: "('x, 'q) expr_kind \<Rightarrow> ('x, 'q) expr_node list" where
  "kind_children (EUnary op input) = [input]"
| "kind_children (EBinary op left right) = [left, right]"
| "kind_children (EMembership input candidates negate) = input # candidates"
| "kind_children (EConditional c t e) = [c, t, e]"
| "kind_children (EFunctionCall f arguments) = arguments"
| "kind_children _ = []"

definition children :: "('x, 'q) expr_node \<Rightarrow> ('x, 'q) expr_node list" where
  "children n = kind_children (en_kind n)"

lemma children_simps [simp]: "children (ExprNode k ty) = kind_children k"
  by (simp add: children_def)

lemma size_expr_member: "c \<in> set ns \<Longrightarrow> size (c :: ('x, 'q) expr_node) \<le> size_list size ns"
  by (induction ns) auto

lemma size_expr_child: "c \<in> set (children n) \<Longrightarrow> size c < size n"
  by (cases n; cases "en_kind n") (auto dest!: size_expr_member)

text \<open>All nodes of a tree.\<close>

function subnodes :: "('x, 'q) expr_node \<Rightarrow> ('x, 'q) expr_node list" where
  "subnodes n = n # concat (map subnodes (children n))"
  by pat_completeness auto
termination
  by (relation "measure size") (auto intro: size_expr_child)

declare subnodes.simps [simp del]

end
