(* ===== verification/Expr_Semantic.thy ===== *)
theory Expr_Semantic
  imports Expr_Node "HOL-Library.Signed_Division"
begin

text \<open>
  \<open>expr/semantic.rs\<close>: the meaning of every operator and built-in function on datums. Integer arithmetic
  is modelled exactly; the arithmetic of IEEE floats (whose NaN payloads Rust leaves open), of decimals,
  the accessors of calendar types and the Unicode case tables are the parameters \<open>'x scalar_ops\<close>.
\<close>

section \<open>Parameters\<close>

datatype month = January | February | March | April | May | June | July | August | September
  | October | November | December

datatype weekday = Monday | Tuesday | Wednesday | Thursday | Friday | Saturday | Sunday

record 'x scalar_ops =
  ops_ext :: "'x ext"
  f32_arith :: "binary_op \<Rightarrow> u32 \<Rightarrow> u32 \<Rightarrow> u32"
  f64_arith :: "binary_op \<Rightarrow> u64 \<Rightarrow> u64 \<Rightarrow> u64"
  f64_from_f32 :: "u32 \<Rightarrow> u64"
  dec_checked :: "binary_op \<Rightarrow> 'x \<Rightarrow> 'x \<Rightarrow> 'x option"
  dec_neg :: "'x \<Rightarrow> 'x"
  dec_abs :: "'x \<Rightarrow> 'x"
  to_lowercase :: "string \<Rightarrow> string"
  to_uppercase :: "string \<Rightarrow> string"
  date_year :: "'x \<Rightarrow> 32 word"
  date_month :: "'x \<Rightarrow> month"
  date_day :: "'x \<Rightarrow> byte"
  date_ordinal :: "'x \<Rightarrow> u16"
  date_weekday :: "'x \<Rightarrow> weekday"
  instant_unix_timestamp :: "'x \<Rightarrow> i64"
  duration_whole_seconds :: "'x \<Rightarrow> i64"

section \<open>Checked 128-bit integers\<close>

definition i128_checked :: "int \<Rightarrow> i128 option" where
  "i128_checked n = (if - (2 ^ 127) \<le> n \<and> n < 2 ^ 127 then Some (word_of_int n) else None)"

definition u128_checked :: "int \<Rightarrow> u128 option" where
  "u128_checked n = (if 0 \<le> n \<and> n < 2 ^ 128 then Some (word_of_int n) else None)"

definition i128_checked_div :: "i128 \<Rightarrow> i128 \<Rightarrow> i128 option" where
  "i128_checked_div a b = (if b = 0 then None else i128_checked (sint a sdiv sint b))"

text \<open>\<open>checked_rem\<close> fails wherever the division does, also on \<open>MIN % -1\<close>.\<close>

definition i128_checked_rem :: "i128 \<Rightarrow> i128 \<Rightarrow> i128 option" where
  "i128_checked_rem a b =
     (if b = 0 \<or> i128_checked (sint a sdiv sint b) = None then None else Some (word_of_int (sint a smod sint b)))"

section \<open>Errors\<close>

definition eval_001 :: diagnostic where
  "eval_001 = diagnostic_error ''EXPR-EVAL-001'' ''logical operation expected a truth value''"
definition eval_002 :: diagnostic where
  "eval_002 = diagnostic_error ''EXPR-EVAL-002'' ''numeric operation received incompatible runtime values''"
definition eval_002_abs :: diagnostic where
  "eval_002_abs = diagnostic_error ''EXPR-EVAL-002''
     ''numeric absolute value received an incompatible runtime value''"
definition eval_002_negate :: diagnostic where
  "eval_002_negate = diagnostic_error ''EXPR-EVAL-002'' ''numeric negation received an incompatible runtime value''"
definition eval_003_op_signed :: diagnostic where
  "eval_003_op_signed = diagnostic_error ''EXPR-EVAL-003''
     ''signed arithmetic overflow or invalid division/remainder''"
definition eval_003_op_unsigned :: diagnostic where
  "eval_003_op_unsigned = diagnostic_error ''EXPR-EVAL-003''
     ''unsigned arithmetic overflow or invalid division/remainder''"
definition eval_003_op_decimal :: diagnostic where
  "eval_003_op_decimal = diagnostic_error ''EXPR-EVAL-003'' ''decimal arithmetic overflow or invalid division''"
definition eval_003_abs :: diagnostic where
  "eval_003_abs = diagnostic_error ''EXPR-EVAL-003'' ''signed arithmetic overflow during absolute value''"
definition eval_003_negate :: diagnostic where
  "eval_003_negate = diagnostic_error ''EXPR-EVAL-003'' ''signed arithmetic overflow during negation''"
definition eval_004 :: diagnostic where
  "eval_004 = diagnostic_error ''EXPR-EVAL-004'' ''unsupported arithmetic operator''"
definition eval_006 :: "string \<Rightarrow> diagnostic" where
  "eval_006 = diagnostic_error ''EXPR-EVAL-006''"
definition cast_001 :: diagnostic where
  "cast_001 = diagnostic_error ''EXPR-CAST-001'' ''lossless cast must preserve nullability''"
definition cast_002 :: diagnostic where
  "cast_002 = diagnostic_error ''EXPR-CAST-002'' ''lossless cast requires scalar numeric types''"
definition cast_003 :: diagnostic where
  "cast_003 = diagnostic_error ''EXPR-CAST-003'' ''requested numeric cast is not lossless for every source value''"
definition cast_004 :: diagnostic where
  "cast_004 = diagnostic_error ''EXPR-CAST-004'' ''lossless cast cannot produce null for a non-null target''"
definition cast_005 :: diagnostic where
  "cast_005 = diagnostic_error ''EXPR-CAST-005'' ''unsigned value does not fit signed target''"
definition cast_006 :: diagnostic where
  "cast_006 = diagnostic_error ''EXPR-CAST-006''
     ''runtime value is incompatible with the validated lossless cast''"

section \<open>Truth values and comparisons\<close>

definition truth_datum :: "bool \<Rightarrow> 'x datum" where
  "truth_datum b = Value (VTruth (if b then TTrue else TFalse))"

definition unknown :: "'x datum" where
  "unknown = Value (VTruth TUnknown)"

definition as_truth :: "'x datum \<Rightarrow> truth res" where
  "as_truth d = (case d of Value (VTruth t) \<Rightarrow> Inr t | _ \<Rightarrow> Inl eval_001)"

definition truth_unary :: "'x datum \<Rightarrow> (truth \<Rightarrow> truth) \<Rightarrow> 'x datum res" where
  "truth_unary input operation = and_then (as_truth input) (\<lambda>t. Inr (Value (VTruth (operation t))))"

definition truth_binary :: "'x datum \<Rightarrow> 'x datum \<Rightarrow> (truth \<Rightarrow> truth \<Rightarrow> truth) \<Rightarrow> 'x datum res" where
  "truth_binary left right operation =
     and_then (as_truth left) (\<lambda>l. and_then (as_truth right) (\<lambda>r. Inr (Value (VTruth (operation l r)))))"

fun is_absent :: "'x datum \<Rightarrow> bool" where
  "is_absent Missing = True"
| "is_absent Null = True"
| "is_absent (Value _) = False"

definition compare_equality :: "'x ext \<Rightarrow> 'x datum \<Rightarrow> 'x datum \<Rightarrow> bool \<Rightarrow> 'x datum res" where
  "compare_equality X left right negate =
     (case (left, right) of
        (Value l, Value r) \<Rightarrow>
          (let equal = value_eq X l r in Inr (truth_datum (if negate then \<not> equal else equal)))
      | _ \<Rightarrow> Inr unknown)"

definition distinct_equality :: "'x ext \<Rightarrow> 'x datum \<Rightarrow> 'x datum \<Rightarrow> bool \<Rightarrow> 'x datum res" where
  "distinct_equality X left right distinct_p =
     (let equal =
        (case (left, right) of
           (Missing, Missing) \<Rightarrow> True
         | (Null, Null) \<Rightarrow> True
         | (Value l, Value r) \<Rightarrow> value_eq X l r
         | _ \<Rightarrow> False)
      in Inr (truth_datum (if distinct_p then \<not> equal else equal)))"

definition f32_partial_cmp :: "u32 \<Rightarrow> u32 \<Rightarrow> ordering option" where
  "f32_partial_cmp a b =
     (if f32_is_nan a \<or> f32_is_nan b then None
      else if f32_eq a b then Some Equal else Some (cmp_of (f32_total_key a) (f32_total_key b)))"

definition f64_partial_cmp :: "u64 \<Rightarrow> u64 \<Rightarrow> ordering option" where
  "f64_partial_cmp a b =
     (if f64_is_nan a \<or> f64_is_nan b then None
      else if f64_eq a b then Some Equal else Some (cmp_of (f64_total_key a) (f64_total_key b)))"

text \<open>The scalars other than floats compare as in \<open>compare_values\<close>.\<close>

definition value_partial_cmp :: "'x ext \<Rightarrow> 'x val \<Rightarrow> 'x val \<Rightarrow> ordering option" where
  "value_partial_cmp X left right =
     (case left of
        VFloat32 l \<Rightarrow> (case right of VFloat32 r \<Rightarrow> f32_partial_cmp l r | _ \<Rightarrow> None)
      | VFloat64 l \<Rightarrow> (case right of VFloat64 r \<Rightarrow> f64_partial_cmp l r | _ \<Rightarrow> None)
      | _ \<Rightarrow> compare_values X left right)"

definition compare_order :: "'x ext \<Rightarrow> binary_op \<Rightarrow> 'x datum \<Rightarrow> 'x datum \<Rightarrow> 'x datum res" where
  "compare_order X op left right =
     (case (left, right) of
        (Value l, Value r) \<Rightarrow>
          (case value_partial_cmp X l r of
             None \<Rightarrow> Inr (truth_datum False)
           | Some c \<Rightarrow> Inr (truth_datum
               (case op of
                  OpLt \<Rightarrow> c = Less
                | OpLe \<Rightarrow> c \<noteq> Greater
                | OpGt \<Rightarrow> c = Greater
                | OpGe \<Rightarrow> c \<noteq> Less
                | _ \<Rightarrow> False)))
      | _ \<Rightarrow> Inr unknown)"

fun coalesce :: "'x datum \<Rightarrow> 'x datum \<Rightarrow> 'x datum" where
  "coalesce (Value v) right = Value v"
| "coalesce _ right = right"

section \<open>Arithmetic\<close>

definition checked_signed :: "binary_op \<Rightarrow> i128 \<Rightarrow> i128 \<Rightarrow> i128 res" where
  "checked_signed op left right =
     (case op of
        OpAdd \<Rightarrow> ok_or (i128_checked (sint left + sint right)) eval_003_op_signed
      | OpSub \<Rightarrow> ok_or (i128_checked (sint left - sint right)) eval_003_op_signed
      | OpMul \<Rightarrow> ok_or (i128_checked (sint left * sint right)) eval_003_op_signed
      | OpDiv \<Rightarrow> ok_or (i128_checked_div left right) eval_003_op_signed
      | OpRem \<Rightarrow> ok_or (i128_checked_rem left right) eval_003_op_signed
      | _ \<Rightarrow> Inl eval_004)"

definition checked_unsigned :: "binary_op \<Rightarrow> u128 \<Rightarrow> u128 \<Rightarrow> u128 res" where
  "checked_unsigned op left right =
     (case op of
        OpAdd \<Rightarrow> ok_or (u128_checked (uint left + uint right)) eval_003_op_unsigned
      | OpSub \<Rightarrow> ok_or (u128_checked (uint left - uint right)) eval_003_op_unsigned
      | OpMul \<Rightarrow> ok_or (u128_checked (uint left * uint right)) eval_003_op_unsigned
      | OpDiv \<Rightarrow> if right = 0 then Inl eval_003_op_unsigned else Inr (left div right)
      | OpRem \<Rightarrow> if right = 0 then Inl eval_003_op_unsigned else Inr (left mod right)
      | _ \<Rightarrow> Inl eval_004)"

definition arithmetic_values :: "'x scalar_ops \<Rightarrow> binary_op \<Rightarrow> 'x val \<Rightarrow> 'x val \<Rightarrow> 'x val res" where
  "arithmetic_values S op left right =
     (case left of
        VInt l \<Rightarrow>
          (case right of VInt r \<Rightarrow> and_then (checked_signed op l r) (\<lambda>n. Inr (VInt n)) | _ \<Rightarrow> Inl eval_002)
      | VUInt l \<Rightarrow>
          (case right of VUInt r \<Rightarrow> and_then (checked_unsigned op l r) (\<lambda>n. Inr (VUInt n)) | _ \<Rightarrow> Inl eval_002)
      | VFloat32 l \<Rightarrow>
          (case right of
             VFloat32 r \<Rightarrow>
               if op \<in> {OpAdd, OpSub, OpMul, OpDiv} then Inr (VFloat32 (f32_arith S op l r)) else Inl eval_004
           | _ \<Rightarrow> Inl eval_002)
      | VFloat64 l \<Rightarrow>
          (case right of
             VFloat64 r \<Rightarrow>
               if op \<in> {OpAdd, OpSub, OpMul, OpDiv} then Inr (VFloat64 (f64_arith S op l r)) else Inl eval_004
           | _ \<Rightarrow> Inl eval_002)
      | VDecimal l \<Rightarrow>
          (case right of
             VDecimal r \<Rightarrow>
               if op \<in> {OpAdd, OpSub, OpMul, OpDiv}
               then ok_or (map_option VDecimal (dec_checked S op l r)) eval_003_op_decimal else Inl eval_004
           | _ \<Rightarrow> Inl eval_002)
      | _ \<Rightarrow> Inl eval_002)"

definition arithmetic :: "'x scalar_ops \<Rightarrow> binary_op \<Rightarrow> 'x datum \<Rightarrow> 'x datum \<Rightarrow> 'x datum res" where
  "arithmetic S op left right =
     (case (left, right) of
        (Missing, _) \<Rightarrow> Inr Missing
      | (_, Missing) \<Rightarrow> Inr Missing
      | (Null, _) \<Rightarrow> Inr Null
      | (_, Null) \<Rightarrow> Inr Null
      | (Value l, Value r) \<Rightarrow> and_then (arithmetic_values S op l r) (\<lambda>v. Inr (Value v)))"

text \<open>Negation of a float flips its sign bit, the absolute value clears it.\<close>

fun numeric_abs :: "'x scalar_ops \<Rightarrow> 'x datum \<Rightarrow> 'x datum res" where
  "numeric_abs S Missing = Inr Missing"
| "numeric_abs S Null = Inr Null"
| "numeric_abs S (Value v) =
     (case v of
        VInt n \<Rightarrow> ok_or (map_option (\<lambda>m. Value (VInt m)) (i128_checked \<bar>sint n\<bar>)) eval_003_abs
      | VFloat32 w \<Rightarrow> Inr (Value (VFloat32 (and w 2147483647)))
      | VFloat64 w \<Rightarrow> Inr (Value (VFloat64 (and w 9223372036854775807)))
      | VDecimal x \<Rightarrow> Inr (Value (VDecimal (dec_abs S x)))
      | _ \<Rightarrow> Inl eval_002_abs)"

fun numeric_negate :: "'x scalar_ops \<Rightarrow> 'x datum \<Rightarrow> 'x datum res" where
  "numeric_negate S Missing = Inr Missing"
| "numeric_negate S Null = Inr Null"
| "numeric_negate S (Value v) =
     (case v of
        VInt n \<Rightarrow> ok_or (map_option (\<lambda>m. Value (VInt m)) (i128_checked (- sint n))) eval_003_negate
      | VFloat32 w \<Rightarrow> Inr (Value (VFloat32 (xor w 2147483648)))
      | VFloat64 w \<Rightarrow> Inr (Value (VFloat64 (xor w 9223372036854775808)))
      | VDecimal x \<Rightarrow> Inr (Value (VDecimal (dec_neg S x)))
      | _ \<Rightarrow> Inl eval_002_negate)"

section \<open>Lossless casts\<close>

definition lossless_scalar_cast :: "scalar_repr \<Rightarrow> scalar_repr \<Rightarrow> bool" where
  "lossless_scalar_cast source target =
     (case source of
        RInt s \<Rightarrow> (case target of RInt t \<Rightarrow> t \<ge> s | _ \<Rightarrow> False)
      | RUInt s \<Rightarrow> (case target of RUInt t \<Rightarrow> t \<ge> s | RInt t \<Rightarrow> t > s | _ \<Rightarrow> False)
      | RFloat32 \<Rightarrow> target = RFloat32 \<or> target = RFloat64
      | RFloat64 \<Rightarrow> target = RFloat64
      | RDecimal \<Rightarrow> target = RDecimal
      | _ \<Rightarrow> False)"

definition validate_lossless_cast :: "type_def \<Rightarrow> type_def \<Rightarrow> unit res" where
  "validate_lossless_cast source target =
     (if ty_nullability source \<noteq> ty_nullability target then Inl cast_001
      else case (ty_shape (non_null source), ty_shape (non_null target)) of
        (ShScalar s, ShScalar t) \<Rightarrow> if lossless_scalar_cast s t then Inr () else Inl cast_003
      | _ \<Rightarrow> Inl cast_002)"

definition cast_value_lossless :: "'x scalar_ops \<Rightarrow> 'x val \<Rightarrow> type_def \<Rightarrow> 'x val res" where
  "cast_value_lossless S v target =
     (case ty_shape target of
        ShScalar repr \<Rightarrow>
          (case v of
             VInt n \<Rightarrow> (case repr of RInt _ \<Rightarrow> Inr (VInt n) | _ \<Rightarrow> Inl cast_006)
           | VUInt n \<Rightarrow>
               (case repr of
                  RUInt _ \<Rightarrow> Inr (VUInt n)
                | RInt _ \<Rightarrow> ok_or (map_option VInt (i128_checked (uint n))) cast_005
                | _ \<Rightarrow> Inl cast_006)
           | VFloat32 w \<Rightarrow>
               (case repr of
                  RFloat32 \<Rightarrow> Inr (VFloat32 w)
                | RFloat64 \<Rightarrow> Inr (VFloat64 (f64_from_f32 S w))
                | _ \<Rightarrow> Inl cast_006)
           | VFloat64 w \<Rightarrow> (case repr of RFloat64 \<Rightarrow> Inr (VFloat64 w) | _ \<Rightarrow> Inl cast_006)
           | VDecimal x \<Rightarrow> (case repr of RDecimal \<Rightarrow> Inr (VDecimal x) | _ \<Rightarrow> Inl cast_006)
           | _ \<Rightarrow> Inl cast_006)
      | _ \<Rightarrow> Inl cast_002)"

fun cast_lossless :: "'x scalar_ops \<Rightarrow> 'x datum \<Rightarrow> type_def \<Rightarrow> 'x datum res" where
  "cast_lossless S Missing target = Inr Missing"
| "cast_lossless S Null target = (if ty_nullability target = Nullable then Inr Null else Inl cast_004)"
| "cast_lossless S (Value v) target = and_then (cast_value_lossless S v target) (\<lambda>w. Inr (Value w))"

section \<open>The operators\<close>

definition eval_unary :: "'x scalar_ops \<Rightarrow> unary_op \<Rightarrow> 'x datum \<Rightarrow> type_def \<Rightarrow> 'x datum res" where
  "eval_unary S op input result =
     (case op of
        OpNot \<Rightarrow> truth_unary input truth_negate
      | OpIsNull \<Rightarrow> Inr (truth_datum (input = Null))
      | OpIsMissing \<Rightarrow> Inr (truth_datum (input = Missing))
      | OpIsPresent \<Rightarrow> Inr (truth_datum (input \<noteq> Missing))
      | OpNullableLift \<Rightarrow> Inr input
      | OpLosslessCast \<Rightarrow> cast_lossless S input result
      | OpNegate \<Rightarrow> numeric_negate S input
      | OpAbs \<Rightarrow> numeric_abs S input)"

definition eval_binary :: "'x scalar_ops \<Rightarrow> binary_op \<Rightarrow> 'x datum \<Rightarrow> 'x datum \<Rightarrow> 'x datum res" where
  "eval_binary S op left right =
     (case op of
        OpEq \<Rightarrow> compare_equality (ops_ext S) left right False
      | OpNe \<Rightarrow> compare_equality (ops_ext S) left right True
      | OpLt \<Rightarrow> compare_order (ops_ext S) op left right
      | OpLe \<Rightarrow> compare_order (ops_ext S) op left right
      | OpGt \<Rightarrow> compare_order (ops_ext S) op left right
      | OpGe \<Rightarrow> compare_order (ops_ext S) op left right
      | OpAnd \<Rightarrow> truth_binary left right truth_and
      | OpOr \<Rightarrow> truth_binary left right truth_or
      | OpIsDistinctFrom \<Rightarrow> distinct_equality (ops_ext S) left right True
      | OpIsNotDistinctFrom \<Rightarrow> distinct_equality (ops_ext S) left right False
      | OpCoalesce \<Rightarrow> Inr (coalesce left right)
      | _ \<Rightarrow> arithmetic S op left right)"

text \<open>The loop over the candidates carries \<open>saw_unknown\<close> and stops at the first match.\<close>

fun membership_loop :: "'x ext \<Rightarrow> 'x datum \<Rightarrow> bool \<Rightarrow> bool \<Rightarrow> 'x datum list \<Rightarrow> 'x datum res" where
  "membership_loop X input negate saw_unknown [] =
     (if saw_unknown then Inr unknown else Inr (truth_datum negate))"
| "membership_loop X input negate saw_unknown (candidate # candidates) =
     and_then (compare_equality X input candidate False) (\<lambda>comparison.
     and_then (as_truth comparison) (\<lambda>t.
       case t of
         TTrue \<Rightarrow> Inr (truth_datum (\<not> negate))
       | TFalse \<Rightarrow> membership_loop X input negate saw_unknown candidates
       | TUnknown \<Rightarrow> membership_loop X input negate True candidates))"

definition eval_membership :: "'x ext \<Rightarrow> 'x datum \<Rightarrow> 'x datum list \<Rightarrow> bool \<Rightarrow> 'x datum res" where
  "eval_membership X input candidates negate = membership_loop X input negate False candidates"

definition eval_conditional :: "'x datum \<Rightarrow> 'x datum \<Rightarrow> 'x datum \<Rightarrow> 'x datum res" where
  "eval_conditional condition when_true when_false =
     and_then (as_truth condition) (\<lambda>t.
       case t of TTrue \<Rightarrow> Inr when_true | TFalse \<Rightarrow> Inr when_false | TUnknown \<Rightarrow> Inr when_false)"

end
