(* ===== verification/Expr_Function.thy ===== *)
theory Expr_Function
  imports Expr_Semantic
begin

text \<open>
  The built-in functions of the expression language: their portable definitions (\<open>BuiltinFunction\<close> of
  \<open>function.rs\<close>), their evaluation (\<open>semantic.rs\<close>), the validation of their calls (\<open>validate.rs\<close>) and the
  type definitions of the Rust types they produce (\<open>types/traits.rs\<close>).
\<close>

section \<open>Strings\<close>

text \<open>\<open>char::encode_utf8\<close> and the string of a sequence of scalar values.\<close>

definition utf8_encode :: "nat \<Rightarrow> string" where
  "utf8_encode c = map char_of
     (if c < 128 then [c]
      else if c < 2048 then [192 + c div 64, 128 + c mod 64]
      else if c < 65536 then [224 + c div 4096, 128 + c div 64 mod 64, 128 + c mod 64]
      else [240 + c div 262144, 128 + c div 4096 mod 64, 128 + c div 64 mod 64, 128 + c mod 64])"

definition str_of_chars :: "nat list \<Rightarrow> string" where
  "str_of_chars cs = concat (map utf8_encode cs)"

definition trim_start :: "string \<Rightarrow> string" where
  "trim_start s = str_of_chars (dropWhile is_whitespace (chars s))"

definition trim_end :: "string \<Rightarrow> string" where
  "trim_end s = str_of_chars (rev (dropWhile is_whitespace (rev (chars s))))"

definition trim :: "string \<Rightarrow> string" where
  "trim s = str_of_chars (rev (dropWhile is_whitespace (rev (dropWhile is_whitespace (chars s)))))"

section \<open>Type definitions of Rust types\<close>

definition int32_type :: type_def where "int32_type = type_scalar ''dol/int32'' 1 (RInt 32)"
definition int64_type :: type_def where "int64_type = type_scalar ''dol/int64'' 1 (RInt 64)"
definition uint8_type :: type_def where "uint8_type = type_scalar ''dol/uint8'' 1 (RUInt 8)"
definition uint16_type :: type_def where "uint16_type = type_scalar ''dol/uint16'' 1 (RUInt 16)"
definition uint64_type :: type_def where "uint64_type = type_scalar ''dol/uint64'' 1 (RUInt 64)"
definition string_type :: type_def where "string_type = type_scalar ''dol/string'' 1 RString"
definition date_builtin :: type_def where "date_builtin = type_scalar ''dol/date'' 1 RDate"
definition time_builtin :: type_def where "time_builtin = type_scalar ''dol/time'' 1 RTime"
definition local_datetime_builtin :: type_def where
  "local_datetime_builtin = type_scalar ''dol/local-datetime'' 1 RLocalDateTime"
definition instant_builtin :: type_def where "instant_builtin = type_scalar ''dol/instant'' 1 RInstant"
definition duration_builtin :: type_def where "duration_builtin = type_scalar ''dol/duration'' 1 RDuration"
definition month_type :: type_def where "month_type = type_scalar ''dol/month'' 1 (RUInt 8)"
definition weekday_type :: type_def where "weekday_type = type_scalar ''dol/weekday'' 1 (RUInt 8)"

section \<open>Portable definitions\<close>

datatype builtin_function =
    TextLowercase | TextUppercase | TextTrim | TextTrimStart | TextTrimEnd | TextContains
  | TextStartsWith | TextEndsWith | TextByteLength | TextScalarLength | DateYear | DateMonth | DateDay
  | DateOrdinal | DateWeekday | LocalDateTimeDate | LocalDateTimeTime | InstantUnixTimestamp
  | DurationWholeSeconds

text \<open>The Unicode version of the standard library, displayed, is the argument \<open>unicode\<close>.\<close>

definition unicode_function :: "string \<Rightarrow> string \<Rightarrow> function_def" where
  "unicode_function unicode k = with_dependency (function_new k 1 Deterministic) ''unicode'' unicode"

definition builtin_definition :: "string \<Rightarrow> builtin_function \<Rightarrow> function_def" where
  "builtin_definition unicode f =
     (case f of
        TextLowercase \<Rightarrow> unicode_function unicode ''dol/text/to-lowercase''
      | TextUppercase \<Rightarrow> unicode_function unicode ''dol/text/to-uppercase''
      | TextTrim \<Rightarrow> unicode_function unicode ''dol/text/trim''
      | TextTrimStart \<Rightarrow> unicode_function unicode ''dol/text/trim-start''
      | TextTrimEnd \<Rightarrow> unicode_function unicode ''dol/text/trim-end''
      | TextContains \<Rightarrow> function_new ''dol/text/contains'' 1 Deterministic
      | TextStartsWith \<Rightarrow> function_new ''dol/text/starts-with'' 1 Deterministic
      | TextEndsWith \<Rightarrow> function_new ''dol/text/ends-with'' 1 Deterministic
      | TextByteLength \<Rightarrow> function_new ''dol/text/byte-length'' 1 Deterministic
      | TextScalarLength \<Rightarrow> function_new ''dol/text/scalar-length'' 1 Deterministic
      | DateYear \<Rightarrow> function_new ''dol/date/year'' 1 Deterministic
      | DateMonth \<Rightarrow> function_new ''dol/date/month'' 1 Deterministic
      | DateDay \<Rightarrow> function_new ''dol/date/day'' 1 Deterministic
      | DateOrdinal \<Rightarrow> function_new ''dol/date/ordinal'' 1 Deterministic
      | DateWeekday \<Rightarrow> function_new ''dol/date/weekday'' 1 Deterministic
      | LocalDateTimeDate \<Rightarrow> function_new ''dol/local-datetime/date'' 1 Deterministic
      | LocalDateTimeTime \<Rightarrow> function_new ''dol/local-datetime/time'' 1 Deterministic
      | InstantUnixTimestamp \<Rightarrow> function_new ''dol/instant/unix-timestamp'' 1 Deterministic
      | DurationWholeSeconds \<Rightarrow> function_new ''dol/duration/whole-seconds'' 1 Deterministic)"

section \<open>Evaluation\<close>

definition function_value_error :: "string \<Rightarrow> string \<Rightarrow> diagnostic" where
  "function_value_error f expected =
     eval_006 (''function `'' @ f @ ''` expected a '' @ expected @ '' runtime value'')"

definition month_number :: "month \<Rightarrow> byte" where
  "month_number m =
     (case m of January \<Rightarrow> 1 | February \<Rightarrow> 2 | March \<Rightarrow> 3 | April \<Rightarrow> 4 | May \<Rightarrow> 5 | June \<Rightarrow> 6 | July \<Rightarrow> 7
      | August \<Rightarrow> 8 | September \<Rightarrow> 9 | October \<Rightarrow> 10 | November \<Rightarrow> 11 | December \<Rightarrow> 12)"

definition weekday_number :: "weekday \<Rightarrow> byte" where
  "weekday_number d =
     (case d of Monday \<Rightarrow> 1 | Tuesday \<Rightarrow> 2 | Wednesday \<Rightarrow> 3 | Thursday \<Rightarrow> 4 | Friday \<Rightarrow> 5 | Saturday \<Rightarrow> 6
      | Sunday \<Rightarrow> 7)"

definition unary_value :: "'x datum list \<Rightarrow> ('x val \<Rightarrow> 'x val res) \<Rightarrow> 'x datum res" where
  "unary_value arguments operation =
     (case arguments of
        [input] \<Rightarrow>
          (case input of
             Missing \<Rightarrow> Inr Missing
           | Null \<Rightarrow> Inr Null
           | Value v \<Rightarrow> and_then (operation v) (\<lambda>w. Inr (Value w)))
      | _ \<Rightarrow> Inl (eval_006 ''unary function received an invalid arity''))"

definition text_unary :: "'x datum list \<Rightarrow> (string \<Rightarrow> string) \<Rightarrow> 'x datum res" where
  "text_unary arguments operation =
     unary_value arguments (\<lambda>v.
       case v of VString s \<Rightarrow> Inr (VString (operation s)) | _ \<Rightarrow> Inl (function_value_error ''text'' ''string''))"

definition text_predicate :: "string \<Rightarrow> 'x datum list \<Rightarrow> 'x datum res" where
  "text_predicate k arguments =
     (case arguments of
        [left, right] \<Rightarrow>
          if is_absent left \<or> is_absent right then Inr unknown
          else (case left of
             Value (VString l) \<Rightarrow>
               (case right of
                  Value (VString r) \<Rightarrow>
                    if k = ''dol/text/contains'' then Inr (truth_datum (str_contains r l))
                    else if k = ''dol/text/starts-with'' then Inr (truth_datum (prefix r l))
                    else if k = ''dol/text/ends-with'' then Inr (truth_datum (suffix r l))
                    else Inl (eval_006 ''non-text-predicate function reached text predicate evaluation'')
                | _ \<Rightarrow> Inl (function_value_error ''text predicate'' ''string''))
           | _ \<Rightarrow> Inl (function_value_error ''text predicate'' ''string''))
      | _ \<Rightarrow> Inl (eval_006 ''binary text function received an invalid arity''))"

text \<open>\<open>u64::try_from(usize)\<close>.\<close>

definition length_value :: "nat \<Rightarrow> string \<Rightarrow> 'x val res" where
  "length_value n m = (if n < 2 ^ 64 then Inr (VUInt (of_nat n)) else Inl (eval_006 m))"

definition byte_length :: "'x val \<Rightarrow> 'x val res" where
  "byte_length v =
     (case v of
        VString s \<Rightarrow> length_value (length s) ''string byte length exceeds the portable u64 result domain''
      | _ \<Rightarrow> Inl (function_value_error ''byte-length'' ''string''))"

definition scalar_length :: "'x val \<Rightarrow> 'x val res" where
  "scalar_length v =
     (case v of
        VString s \<Rightarrow>
          length_value (length (chars s)) ''string scalar length exceeds the portable u64 result domain''
      | _ \<Rightarrow> Inl (function_value_error ''scalar-length'' ''string''))"

definition date_part :: "string \<Rightarrow> ('x \<Rightarrow> 'x val) \<Rightarrow> 'x val \<Rightarrow> 'x val res" where
  "date_part f part v = (case v of VDate d \<Rightarrow> Inr (part d) | _ \<Rightarrow> Inl (function_value_error f ''date''))"

definition datetime_part :: "string \<Rightarrow> ('x \<Rightarrow> 'x val) \<Rightarrow> 'x val \<Rightarrow> 'x val res" where
  "datetime_part f part v =
     (case v of VLocalDateTime d \<Rightarrow> Inr (part d) | _ \<Rightarrow> Inl (function_value_error f ''local datetime''))"

definition eval_builtin_function ::
  "'x scalar_ops \<Rightarrow> function_def \<Rightarrow> 'x datum list \<Rightarrow> type_def \<Rightarrow> 'x datum res" where
  "eval_builtin_function S f arguments result =
     (let k = fn_key f
      in if k = ''dol/text/to-lowercase'' then text_unary arguments (to_lowercase S)
         else if k = ''dol/text/to-uppercase'' then text_unary arguments (to_uppercase S)
         else if k = ''dol/text/trim'' then text_unary arguments trim
         else if k = ''dol/text/trim-start'' then text_unary arguments trim_start
         else if k = ''dol/text/trim-end'' then text_unary arguments trim_end
         else if k = ''dol/text/contains'' \<or> k = ''dol/text/starts-with'' \<or> k = ''dol/text/ends-with''
         then text_predicate k arguments
         else if k = ''dol/text/byte-length'' then unary_value arguments byte_length
         else if k = ''dol/text/scalar-length'' then unary_value arguments scalar_length
         else if k = ''dol/date/year'' then unary_value arguments
           (date_part ''date/year'' (\<lambda>d. VInt (word_of_int (sint (date_year S d)))))
         else if k = ''dol/date/month'' then unary_value arguments
           (date_part ''date/month'' (\<lambda>d. VUInt (of_nat (unat (month_number (date_month S d))))))
         else if k = ''dol/date/day'' then unary_value arguments
           (date_part ''date/day'' (\<lambda>d. VUInt (of_nat (unat (date_day S d)))))
         else if k = ''dol/date/ordinal'' then unary_value arguments
           (date_part ''date/ordinal'' (\<lambda>d. VUInt (of_nat (unat (date_ordinal S d)))))
         else if k = ''dol/date/weekday'' then unary_value arguments
           (date_part ''date/weekday'' (\<lambda>d. VUInt (of_nat (unat (weekday_number (date_weekday S d))))))
         else if k = ''dol/local-datetime/date'' then unary_value arguments
           (datetime_part ''local-datetime/date'' (\<lambda>d. VDate (datetime_date (ops_ext S) d)))
         else if k = ''dol/local-datetime/time'' then unary_value arguments
           (datetime_part ''local-datetime/time'' (\<lambda>d. VTime (datetime_time (ops_ext S) d)))
         else if k = ''dol/instant/unix-timestamp'' then unary_value arguments
           (\<lambda>v. case v of VInstant i \<Rightarrow> Inr (VInt (word_of_int (sint (instant_unix_timestamp S i))))
             | _ \<Rightarrow> Inl (function_value_error ''instant/unix-timestamp'' ''instant''))
         else if k = ''dol/duration/whole-seconds'' then unary_value arguments
           (\<lambda>v. case v of VDuration d \<Rightarrow> Inr (VInt (word_of_int (sint (duration_whole_seconds S d))))
             | _ \<Rightarrow> Inl (function_value_error ''duration/whole-seconds'' ''duration''))
         else Inl (eval_006 (''no built-in local evaluator exists for semantic function `'' @ k @ ''`'')))"

section \<open>Validation of a call\<close>

definition expr_type_008 :: "string \<Rightarrow> diagnostic" where
  "expr_type_008 context =
     diagnostic_error ''EXPR-TYPE-008'' (context @ '' has an unexpected semantic type'')"
definition expr_type_007 :: diagnostic where
  "expr_type_007 = diagnostic_error ''EXPR-TYPE-007'' ''operation requires the built-in DOL string type''"
definition function_001 :: "string \<Rightarrow> diagnostic" where
  "function_001 = diagnostic_error ''EXPR-FUNCTION-001''"
definition function_002 :: "string \<Rightarrow> diagnostic" where
  "function_002 name = diagnostic_error ''EXPR-FUNCTION-002''
     (''function requires the built-in DOL '' @ name @ '' type'')"
definition function_003 :: "string \<Rightarrow> diagnostic" where
  "function_003 k = diagnostic_error ''EXPR-FUNCTION-003''
     (''no built-in validator exists for semantic function `'' @ k @ ''`'')"

definition require_exact_type :: "type_def \<Rightarrow> type_def \<Rightarrow> string \<Rightarrow> unit res" where
  "require_exact_type actual expected context = (if actual = expected then Inr () else Inl (expr_type_008 context))"

definition require_truth :: "type_def \<Rightarrow> string \<Rightarrow> unit res" where
  "require_truth ty context = require_exact_type ty truth_type_def context"

definition require_string :: "type_def \<Rightarrow> unit res" where
  "require_string ty =
     (if ty_shape ty = ShScalar RString \<and> ty_key ty = ty_key string_type then Inr () else Inl expr_type_007)"

definition require_builtin :: "type_def \<Rightarrow> type_def \<Rightarrow> string \<Rightarrow> unit res" where
  "require_builtin actual expected name =
     (if non_null actual = expected then Inr () else Inl (function_002 name))"

definition preserve_nullability :: "type_def \<Rightarrow> type_def \<Rightarrow> type_def" where
  "preserve_nullability ty input = (if is_nullable input then nullable ty else ty)"

definition unary_type_argument :: "type_def list \<Rightarrow> type_def res" where
  "unary_type_argument arguments =
     (case arguments of [t] \<Rightarrow> Inr t | _ \<Rightarrow> Inl (function_001 ''function requires exactly one argument''))"

definition binary_type_arguments :: "type_def list \<Rightarrow> (type_def \<times> type_def) res" where
  "binary_type_arguments arguments =
     (case arguments of
        [l, r] \<Rightarrow> Inr (l, r) | _ \<Rightarrow> Inl (function_001 ''function requires exactly two arguments''))"

text \<open>The arms of the calendar functions: one argument of a built-in type, a result that keeps its
  nullability.\<close>

definition validate_accessor ::
  "type_def \<Rightarrow> string \<Rightarrow> type_def \<Rightarrow> string \<Rightarrow> type_def list \<Rightarrow> type_def \<Rightarrow> unit res" where
  "validate_accessor input_type name result_type context arguments result =
     and_then (unary_type_argument arguments) (\<lambda>input.
     and_then (require_builtin input input_type name) (\<lambda>_.
       require_exact_type result (preserve_nullability result_type input) context))"

definition validate_builtin_function :: "function_def \<Rightarrow> type_def list \<Rightarrow> type_def \<Rightarrow> unit res" where
  "validate_builtin_function f arguments result =
     (let k = fn_key f
      in if k \<in> {''dol/text/to-lowercase'', ''dol/text/to-uppercase'', ''dol/text/trim'',
                 ''dol/text/trim-start'', ''dol/text/trim-end''}
         then and_then (unary_type_argument arguments) (\<lambda>input.
              and_then (require_string input) (\<lambda>_. require_exact_type result input ''text function result''))
         else if k \<in> {''dol/text/contains'', ''dol/text/starts-with'', ''dol/text/ends-with''}
         then and_then (binary_type_arguments arguments) (\<lambda>(left, right).
              and_then (require_exact_type left right ''text function inputs'') (\<lambda>_.
              and_then (require_string left) (\<lambda>_. require_truth result ''text predicate result'')))
         else if k \<in> {''dol/text/byte-length'', ''dol/text/scalar-length''}
         then and_then (unary_type_argument arguments) (\<lambda>input.
              and_then (require_string input) (\<lambda>_.
                require_exact_type result (preserve_nullability uint64_type input) ''text length result''))
         else if k = ''dol/date/year''
         then validate_accessor date_builtin ''date'' int32_type ''date year result'' arguments result
         else if k = ''dol/date/month''
         then validate_accessor date_builtin ''date'' month_type ''date month result'' arguments result
         else if k = ''dol/date/day''
         then validate_accessor date_builtin ''date'' uint8_type ''date day result'' arguments result
         else if k = ''dol/date/ordinal''
         then validate_accessor date_builtin ''date'' uint16_type ''date ordinal result'' arguments result
         else if k = ''dol/date/weekday''
         then validate_accessor date_builtin ''date'' weekday_type ''date weekday result'' arguments result
         else if k = ''dol/local-datetime/date''
         then validate_accessor local_datetime_builtin ''local datetime'' date_builtin
                ''local datetime date result'' arguments result
         else if k = ''dol/local-datetime/time''
         then validate_accessor local_datetime_builtin ''local datetime'' time_builtin
                ''local datetime time result'' arguments result
         else if k = ''dol/instant/unix-timestamp''
         then validate_accessor instant_builtin ''instant'' int64_type ''instant timestamp result'' arguments result
         else if k = ''dol/duration/whole-seconds''
         then validate_accessor duration_builtin ''duration'' int64_type ''duration seconds result'' arguments result
         else Inl (function_003 k))"

text \<open>The reference a call of a built-in function is made with (\<open>call.rs\<close>).\<close>

definition builtin_ref :: "'x scalar_ops \<Rightarrow> string \<Rightarrow> builtin_function \<Rightarrow> 'x function_ref" where
  "builtin_ref S unicode f =
     \<lparr>fr_definition = builtin_definition unicode f, fr_validate = validate_builtin_function,
      fr_evaluate = eval_builtin_function S\<rparr>"

end
