(* ===== verification/Type_Validate.thy ===== *)
theory Type_Validate
  imports Types
begin

text \<open>
  \<open>types/validate.rs\<close>: the two passes of \<open>validate_type\<close> (an explicit-stack pass that enforces the
  resource limits, and a recursive semantic pass) and the identity check of a universe of types.
  The stack loop is shown equivalent to structural depth and node count.
\<close>

section \<open>Diagnostics of the component\<close>

definition type_001 :: diagnostic where
  "type_001 = diagnostic_error ''TYPE-001'' ''type nesting exceeds configured depth''"
definition type_003 :: diagnostic where
  "type_003 = diagnostic_error ''TYPE-003'' ''tuple exceeds width limit''"
definition type_004 :: diagnostic where
  "type_004 = diagnostic_error ''TYPE-004'' ''record exceeds width limit''"
definition type_006 :: "string \<Rightarrow> diagnostic" where
  "type_006 name = diagnostic_error ''TYPE-006'' (''duplicate record field `'' @ name @ ''`'')"
definition type_007 :: diagnostic where
  "type_007 = diagnostic_error ''TYPE-007'' ''semantic type version must be greater than zero''"
definition type_008 :: diagnostic where
  "type_008 = diagnostic_error ''TYPE-008''
     ''integer representation width must be 8, 16, 32, 64, or 128 bits''"
definition type_009 :: diagnostic where
  "type_009 = diagnostic_error ''TYPE-009''
     ''map keys must be non-null, equality-capable, and keyable''"
definition type_010 :: "nat \<Rightarrow> diagnostic" where
  "type_010 n = diagnostic_error ''TYPE-010'' (''type has more than '' @ show_nat n @ '' nodes'')"
definition type_012 :: "string \<Rightarrow> nat \<Rightarrow> diagnostic" where
  "type_012 name n = diagnostic_error ''TYPE-012''
     (''type parameter `'' @ name @ ''` exceeds '' @ show_nat n @ '' bytes'')"
definition type_013 :: diagnostic where
  "type_013 = diagnostic_error ''TYPE-013''
     ''semantic type key must use a non-empty `namespace/name` form without whitespace''"
definition type_101 :: "type_def \<Rightarrow> diagnostic" where
  "type_101 ty = diagnostic_error ''TYPE-101''
     (''semantic type `'' @ ty_key ty @ ''@'' @ show_nat (unat (ty_version ty)) @
      ''` has conflicting definitions'')"

section \<open>Names and keys\<close>

definition validate_name :: "string \<Rightarrow> string \<Rightarrow> string \<Rightarrow> definition_limits \<Rightarrow> unit res" where
  "validate_name cd kind val limits =
     (if val = [] then Inl (diagnostic_error cd (kind @ '' must not be empty''))
      else if length val > max_name_bytes limits then
        Inl (diagnostic_error cd (kind @ '' exceeds '' @ show_nat (max_name_bytes limits) @ '' bytes''))
      else Inr ())"

definition valid_type_key_form :: "string \<Rightarrow> bool" where
  "valid_type_key_form val \<longleftrightarrow>
     \<not> (prefix ''/'' val \<or> suffix ''/'' val \<or> str_contains ''//'' val \<or> \<not> str_contains ''/'' val \<or>
        list_ex is_control (chars val) \<or> list_ex is_whitespace (chars val))"

definition validate_type_key :: "string \<Rightarrow> definition_limits \<Rightarrow> unit res" where
  "validate_type_key val limits =
     and_then (validate_name ''TYPE-002'' ''type key'' val limits) (\<lambda>_.
       if \<not> valid_type_key_form val then Inl type_013 else Inr ())"

section \<open>Resource limits, with an explicit stack\<close>

text \<open>
  The Rust vector is used as a stack; the head of the list is its top. \<open>Map\<close> pushes the value and
  then the key, \<open>Tuple\<close> and \<open>Record\<close> push their members in reverse, so members pop in order.
\<close>

definition stack_children :: "type_shape \<Rightarrow> type_def list" where
  "stack_children sh =
     (case sh of
        ShScalar _ \<Rightarrow> []
      | ShList element \<Rightarrow> [element]
      | ShMap key val \<Rightarrow> [key, val]
      | ShTuple elements \<Rightarrow> elements
      | ShRecord fs \<Rightarrow> map rf_ty fs)"

lemma size_stack_children:
  "sum_list (map size (stack_children (ty_shape t))) < size t"
proof -
  have rf: "size (rf_ty f) \<le> size f" for f by (cases f) simp
  have "sum_list (map (\<lambda>x. size (rf_ty x)) fs) \<le> size_list size fs" for fs
    by (induction fs) (auto intro: add_mono rf le_SucI order_trans)
  moreover have "sum_list (map size es) \<le> size_list size es" for es :: "type_def list"
    by (induction es) auto
  ultimately show ?thesis
    by (cases t; cases "ty_shape t") (auto simp: stack_children_def comp_def less_Suc_eq_le le_SucI)
qed

function structure_loop :: "definition_limits \<Rightarrow> (type_def \<times> nat) list \<Rightarrow> nat \<Rightarrow> unit res" where
  "structure_loop limits [] nodes = Inr ()"
| "structure_loop limits ((ty, depth) # stack) nodes =
     (if depth > max_type_depth limits then Inl type_001
      else let nodes = saturating_add_usize nodes 1
      in if nodes > max_type_nodes limits then Inl (type_010 (max_type_nodes limits))
      else let child_depth = saturating_add_usize depth 1
      in structure_loop limits
           (map (\<lambda>c. (c, child_depth)) (stack_children (ty_shape ty)) @ stack) nodes)"
  by pat_completeness auto
termination
  using size_stack_children
  by (relation "measure (\<lambda>(limits, stack, nodes). sum_list (map (\<lambda>p. size (fst p)) stack))")
    (auto simp: comp_def)

definition validate_structure_limits :: "type_def \<Rightarrow> definition_limits \<Rightarrow> unit res" where
  "validate_structure_limits root limits = structure_loop limits [(root, 0)] 0"

section \<open>The semantic pass\<close>

definition validate_parameters :: "(string, type_parameter) btree \<Rightarrow> definition_limits \<Rightarrow> unit res" where
  "validate_parameters ps limits =
     try_all (\<lambda>(name, val).
       and_then (validate_name ''TYPE-011'' ''type parameter name'' name limits) (\<lambda>_.
         case val of
           TPString v \<Rightarrow>
             if length v > max_name_bytes limits then Inl (type_012 name (max_name_bytes limits)) else Inr ()
         | _ \<Rightarrow> Inr ())) ps"

definition valid_integer_width :: "byte \<Rightarrow> bool" where
  "valid_integer_width bits \<longleftrightarrow> bits = 8 \<or> bits = 16 \<or> bits = 32 \<or> bits = 64 \<or> bits = 128"

definition validate_scalar_shape :: "scalar_repr \<Rightarrow> unit res" where
  "validate_scalar_shape repr =
     (case repr of
        RInt bits \<Rightarrow> if valid_integer_width bits then Inr () else Inl type_008
      | RUInt bits \<Rightarrow> if valid_integer_width bits then Inr () else Inl type_008
      | _ \<Rightarrow> Inr ())"

definition map_key_allowed :: "type_def \<Rightarrow> bool" where
  "map_key_allowed key \<longleftrightarrow>
     \<not> (is_nullable key \<or> \<not> equality (ty_properties key) \<or> \<not> keyable (ty_properties key))"

fun validate_type_at_depth :: "definition_limits \<Rightarrow> type_def \<Rightarrow> nat \<Rightarrow> unit res"
and validate_shape_at_depth :: "definition_limits \<Rightarrow> type_shape \<Rightarrow> nat \<Rightarrow> unit res"
and validate_record_fields :: "definition_limits \<Rightarrow> record_field list \<Rightarrow> string set \<Rightarrow> nat \<Rightarrow> unit res" where
  "validate_type_at_depth limits (TypeDef k v sh n p ps) depth =
     (if depth > max_type_depth limits then Inl type_001
      else and_then (validate_type_key k limits) (\<lambda>_.
        if v = 0 then Inl type_007
        else and_then (validate_parameters ps limits) (\<lambda>_. validate_shape_at_depth limits sh depth)))"
| "validate_shape_at_depth limits (ShScalar repr) depth = validate_scalar_shape repr"
| "validate_shape_at_depth limits (ShList element) depth =
     validate_type_at_depth limits element (depth + 1)"
| "validate_shape_at_depth limits (ShMap key val) depth =
     and_then (validate_type_at_depth limits key (depth + 1)) (\<lambda>_.
     and_then (validate_type_at_depth limits val (depth + 1)) (\<lambda>_.
       if \<not> map_key_allowed key then Inl type_009 else Inr ()))"
| "validate_shape_at_depth limits (ShTuple elements) depth =
     (if length elements > max_fields limits then Inl type_003
      else try_all (\<lambda>element. validate_type_at_depth limits element (depth + 1)) elements)"
| "validate_shape_at_depth limits (ShRecord fs) depth =
     (if length fs > max_fields limits then Inl type_004
      else validate_record_fields limits fs {} depth)"
| "validate_record_fields limits [] names depth = Inr ()"
| "validate_record_fields limits (RecordField nm ty pr # fs) names depth =
     and_then (validate_name ''TYPE-005'' ''record field name'' nm limits) (\<lambda>_.
       if nm \<in> names then Inl (type_006 nm)
       else and_then (validate_type_at_depth limits ty (depth + 1)) (\<lambda>_.
         validate_record_fields limits fs (insert nm names) depth))"

definition validate_type :: "type_def \<Rightarrow> definition_limits \<Rightarrow> unit res" where
  "validate_type ty limits =
     and_then (validate_structure_limits ty limits) (\<lambda>_. validate_type_at_depth limits ty 0)"

section \<open>Node count and type identities\<close>

lemma size_child: "c \<in> set (stack_children (ty_shape t)) \<Longrightarrow> size c < size t"
  using size_stack_children [of t] member_le_sum_list [of "size c" "map size (stack_children (ty_shape t))"]
  by fastforce

text \<open>\<open>type_node_count\<close>; here \<open>Tuple\<close> and \<open>Record\<close> push members in declaration order, so they pop in
  reverse.\<close>

definition push_children :: "type_shape \<Rightarrow> type_def list" where
  "push_children sh = (case sh of ShMap key val \<Rightarrow> [key, val] | _ \<Rightarrow> rev (stack_children sh))"

lemma set_push_children [simp]: "set (push_children sh) = set (stack_children sh)"
  by (auto simp: push_children_def stack_children_def split: type_shape.splits)

lemma sum_push_children [simp]:
  "sum_list (map f (push_children sh)) = sum_list (map f (stack_children sh))"
  for f :: "type_def \<Rightarrow> nat"
  by (auto simp: push_children_def stack_children_def rev_map [symmetric] split: type_shape.splits)

function node_count_loop :: "type_def list \<Rightarrow> nat \<Rightarrow> nat" where
  "node_count_loop [] nodes = nodes"
| "node_count_loop (ty # stack) nodes =
     node_count_loop (push_children (ty_shape ty) @ stack) (saturating_add_usize nodes 1)"
  by pat_completeness auto
termination
  using size_stack_children
  by (relation "measure (\<lambda>(stack, nodes). sum_list (map size stack))") auto

definition type_node_count :: "type_def \<Rightarrow> nat" where
  "type_node_count ty = node_count_loop [ty] 0"

text \<open>The identities already seen, keyed by type key and version.\<close>

type_synonym type_universe = "string \<times> u32 \<Rightarrow> type_def option"

function register_type_identity :: "type_def \<Rightarrow> type_universe \<Rightarrow> type_universe res" where
  "register_type_identity ty known =
     (let key = (ty_key ty, ty_version ty)
      in and_then
           (case known key of
              Some existing \<Rightarrow> if \<not> same_value_type existing ty then Inl (type_101 ty) else Inr known
            | None \<Rightarrow> Inr (known(key \<mapsto> non_null ty)))
           (try_each register_type_identity (stack_children (ty_shape ty))))"
  by pat_completeness auto
termination
  by (relation "measure (\<lambda>(ty, known). size ty)") (auto intro: size_child)

declare register_type_identity.simps [simp del]

definition validate_type_universe :: "type_def list \<Rightarrow> unit res" where
  "validate_type_universe types =
     and_then (try_each register_type_identity types Map.empty) (\<lambda>_. Inr ())"

section \<open>Structural depth and size\<close>

function type_depth :: "type_def \<Rightarrow> nat" where
  "type_depth t = Max (insert 0 ((\<lambda>c. Suc (type_depth c)) ` set (stack_children (ty_shape t))))"
  by pat_completeness auto
termination
  by (relation "measure size") (auto intro: size_child)

declare type_depth.simps [simp del]

function type_nodes :: "type_def \<Rightarrow> nat" where
  "type_nodes t = Suc (sum_list (map type_nodes (stack_children (ty_shape t))))"
  by pat_completeness auto
termination
  by (relation "measure size") (auto intro: size_child)

declare type_nodes.simps [simp del]

lemma type_depth_le: "type_depth t \<le> n \<longleftrightarrow> (\<forall>c \<in> set (stack_children (ty_shape t)). type_depth c < n)"
  by (subst type_depth.simps) (auto simp: Suc_le_eq)

lemma type_nodes_pos: "0 < type_nodes t"
  by (subst type_nodes.simps) simp

lemma type_depth_add_le:
  "d + type_depth t \<le> n \<longleftrightarrow>
     d \<le> n \<and> (\<forall>c \<in> set (stack_children (ty_shape t)). Suc d + type_depth c \<le> n)"
proof -
  have "d + type_depth t \<le> n \<longleftrightarrow> d \<le> n \<and> type_depth t \<le> n - d" by auto
  also have "\<dots> \<longleftrightarrow> d \<le> n \<and> (\<forall>c \<in> set (stack_children (ty_shape t)). Suc d + type_depth c \<le> n)"
    unfolding type_depth_le by (intro conj_cong refl ball_cong) auto
  finally show ?thesis .
qed

lemma structure_loop_ok:
  assumes "max_type_depth limits < usize_max" and "max_type_nodes limits < usize_max"
    and "nodes \<le> max_type_nodes limits"
  shows "structure_loop limits stack nodes = Inr () \<longleftrightarrow>
    (\<forall>(t, d) \<in> set stack. d + type_depth t \<le> max_type_depth limits) \<and>
    nodes + sum_list (map (\<lambda>p. type_nodes (fst p)) stack) \<le> max_type_nodes limits"
  using assms
proof (induction limits stack nodes rule: structure_loop.induct)
  case (1 limits nodes)
  then show ?case by simp
next
  case (2 limits ty depth stack nodes)
  have sat: "saturating_add_usize nodes 1 = Suc nodes"
    "depth \<le> max_type_depth limits \<Longrightarrow> saturating_add_usize depth 1 = Suc depth"
    using "2.prems" by (auto simp: saturating_add_usize_def)
  have nodes: "type_nodes ty = Suc (sum_list (map type_nodes (stack_children (ty_shape ty))))"
    by (rule type_nodes.simps)
  show ?case
  proof (cases "depth \<le> max_type_depth limits \<and> Suc nodes \<le> max_type_nodes limits")
    case True
    then have "structure_loop limits ((ty, depth) # stack) nodes =
      structure_loop limits (map (\<lambda>c. (c, Suc depth)) (stack_children (ty_shape ty)) @ stack) (Suc nodes)"
      using sat by simp
    also have "\<dots> = Inr () \<longleftrightarrow>
      (\<forall>(t, d) \<in> set (map (\<lambda>c. (c, Suc depth)) (stack_children (ty_shape ty)) @ stack).
         d + type_depth t \<le> max_type_depth limits) \<and>
      Suc nodes + sum_list (map (\<lambda>p. type_nodes (fst p))
         (map (\<lambda>c. (c, Suc depth)) (stack_children (ty_shape ty)) @ stack)) \<le> max_type_nodes limits"
      using "2.IH" [OF _ refl _ refl] True sat "2.prems" by simp
    also have "(\<forall>(t, d) \<in> set (map (\<lambda>c. (c, Suc depth)) (stack_children (ty_shape ty)) @ stack).
         d + type_depth t \<le> max_type_depth limits) \<longleftrightarrow>
      (\<forall>(t, d) \<in> set ((ty, depth) # stack). d + type_depth t \<le> max_type_depth limits)"
      using True by (simp add: ball_Un type_depth_add_le [of depth ty])
    finally show ?thesis
      using nodes by (simp add: comp_def add.assoc)
  next
    case False
    then show ?thesis using sat nodes by (auto simp: not_le)
  qed
qed

lemma node_count_loop_eq:
  assumes "nodes + sum_list (map type_nodes stack) \<le> usize_max"
  shows "node_count_loop stack nodes = nodes + sum_list (map type_nodes stack)"
  using assms
proof (induction stack nodes rule: node_count_loop.induct)
  case (2 ty stack nodes)
  have nodes: "type_nodes ty = Suc (sum_list (map type_nodes (stack_children (ty_shape ty))))"
    by (rule type_nodes.simps)
  with "2.prems" have "saturating_add_usize nodes 1 = Suc nodes"
    by (simp add: saturating_add_usize_def)
  with "2" nodes show ?case by simp
qed simp

end
