(* ===== verification/Expr_Validate.thy ===== *)
theory Expr_Validate
  imports Expr_Function Type_Validate
begin

text \<open>
  \<open>expr/validate.rs\<close> and \<open>check_expression_limits\<close> of \<open>expr/prepare.rs\<close>: the resource check over an explicit
  stack, the check of all type and function definitions of an expression, and the type rules of every
  node, with the types of parameters collected on the way.
\<close>

section \<open>Resource limits\<close>

definition expr_limit_001 :: "expression_limits \<Rightarrow> diagnostic" where
  "expr_limit_001 L = diagnostic_error ''EXPR-LIMIT-001''
     (''expression has more than '' @ show_nat (el_max_nodes L) @ '' nodes'')"
definition expr_limit_002 :: "expression_limits \<Rightarrow> diagnostic" where
  "expr_limit_002 L = diagnostic_error ''EXPR-LIMIT-002''
     (''expression depth exceeds limit '' @ show_nat (el_max_depth L))"

text \<open>The stack of pending nodes with their depths; its top is the head of the list.\<close>

lemma sum_sizes: "sum_list (map size ns) \<le> size_list size (ns :: ('x, 'q) expr_node list)"
  by (induction ns) auto

lemma sum_children: "sum_list (map size (children n)) < size n"
  by (cases n; cases "en_kind n") (auto simp: less_Suc_eq_le intro: sum_sizes [THEN le_trans])

function limits_loop :: "expression_limits \<Rightarrow> (('x, 'q) expr_node \<times> nat) list \<Rightarrow> nat \<Rightarrow> nat res" where
  "limits_loop L [] nodes = Inr nodes"
| "limits_loop L ((current, depth) # stack) nodes =
     (let nodes = saturating_add_usize nodes 1
      in if nodes > el_max_nodes L then Inl (expr_limit_001 L)
         else if depth > el_max_depth L then Inl (expr_limit_002 L)
         else limits_loop L
           (map (\<lambda>child. (child, saturating_add_usize depth 1)) (children current) @ stack) nodes)"
  by pat_completeness auto
termination
  by (relation "measure (\<lambda>(L, stack, nodes). sum_list (map (size \<circ> fst) stack))")
    (use sum_children in \<open>auto simp: comp_def\<close>)

definition check_expression_limits :: "('x, 'q) expr_node \<Rightarrow> expression_limits \<Rightarrow> nat res" where
  "check_expression_limits node L = limits_loop L [(node, 1)] 0"

section \<open>Types and functions\<close>

definition func_004 :: "function_def \<Rightarrow> diagnostic" where
  "func_004 f = diagnostic_error ''EXPR-FUNC-004''
     (''function `'' @ fn_key f @ ''` version '' @ show_nat (unat (fn_version f)) @
      '' has conflicting semantic definitions'')"

type_synonym function_universe = "string \<times> u32 \<rightharpoonup> function_def"

definition register_function :: "function_def \<Rightarrow> function_universe \<Rightarrow> function_universe res" where
  "register_function f functions =
     and_then (validate_function_def f) (\<lambda>_.
       let identity = (fn_key f, fn_version f)
       in case functions identity of
            Some existing \<Rightarrow> if existing \<noteq> f then Inl (func_004 f) else Inr functions
          | None \<Rightarrow> Inr (functions(identity \<mapsto> f)))"

function definitions_loop ::
  "('x, 'q) expr_node list \<Rightarrow> type_def list \<Rightarrow> function_universe \<Rightarrow> type_def list res" where
  "definitions_loop [] types functions = Inr types"
| "definitions_loop (current # stack) types functions =
     and_then (validate_type (en_ty current) default_definition_limits) (\<lambda>_.
     and_then
       (case en_kind current of
          EFunctionCall f arguments \<Rightarrow> register_function (fr_definition f) functions
        | _ \<Rightarrow> Inr functions) (\<lambda>functions.
       definitions_loop (children current @ stack) (types @ [en_ty current]) functions))"
  by pat_completeness auto
termination
  by (relation "measure (\<lambda>(stack, types, functions). sum_list (map size stack))") (use sum_children in auto)

section \<open>Typing rules\<close>

definition expr_type_003 :: diagnostic where
  "expr_type_003 = diagnostic_error ''EXPR-TYPE-003'' ''type does not define equality semantics''"
definition expr_type_004 :: diagnostic where
  "expr_type_004 = diagnostic_error ''EXPR-TYPE-004'' ''type does not define ordering semantics''"
definition expr_type_005 :: diagnostic where
  "expr_type_005 = diagnostic_error ''EXPR-TYPE-005'' ''type does not define numeric semantics''"
definition expr_type_006 :: diagnostic where
  "expr_type_006 = diagnostic_error ''EXPR-TYPE-006'' ''binary operands must have identical semantic types''"
definition expr_type_009 :: diagnostic where
  "expr_type_009 = diagnostic_error ''EXPR-TYPE-009'' ''numeric expression requires a canonical numeric representation''"
definition expr_type_010 :: diagnostic where
  "expr_type_010 = diagnostic_error ''EXPR-TYPE-010'' ''membership requires a type with equality semantics''"
definition expr_type_011 :: diagnostic where
  "expr_type_011 = diagnostic_error ''EXPR-TYPE-011'' ''remainder requires integral numeric semantics''"
definition expr_type_012 :: diagnostic where
  "expr_type_012 = diagnostic_error ''EXPR-TYPE-012'' ''integral expression requires a canonical integer representation''"
definition expr_type_013 :: diagnostic where
  "expr_type_013 = diagnostic_error ''EXPR-TYPE-013''
     ''signed numeric unary operation requires signed, floating-point, or decimal semantics''"
definition expr_type_014 :: diagnostic where
  "expr_type_014 = diagnostic_error ''EXPR-TYPE-014''
     ''coalesce fallback must match the nullable input's semantic type''"
definition expr_type_015 :: diagnostic where
  "expr_type_015 = diagnostic_error ''EXPR-TYPE-015'' ''nullable lift requires a non-null semantic input type''"
definition literal_001 :: "string \<Rightarrow> diagnostic" where
  "literal_001 m = diagnostic_error ''EXPR-LITERAL-001'' (''invalid typed expression literal: '' @ m)"
definition param_001 :: diagnostic where
  "param_001 = diagnostic_error ''EXPR-PARAM-001'' ''parameter name must not be empty''"
definition param_002 :: diagnostic where
  "param_002 = diagnostic_error ''EXPR-PARAM-002'' ''parameter name exceeds configured size limit''"
definition param_003 :: "string \<Rightarrow> diagnostic" where
  "param_003 name = diagnostic_error ''EXPR-PARAM-003''
     (''parameter `'' @ name @ ''` is used with more than one semantic type'')"

definition require_same_input_types :: "type_def \<Rightarrow> type_def \<Rightarrow> unit res" where
  "require_same_input_types left right = (if left = right then Inr () else Inl expr_type_006)"

definition numeric_representation :: "type_shape \<Rightarrow> bool" where
  "numeric_representation sh =
     (case sh of
        ShScalar r \<Rightarrow>
          (case r of
             RInt _ \<Rightarrow> True | RUInt _ \<Rightarrow> True | RFloat32 \<Rightarrow> True | RFloat64 \<Rightarrow> True | RDecimal \<Rightarrow> True
           | _ \<Rightarrow> False)
      | _ \<Rightarrow> False)"

definition require_numeric_representation :: "type_def \<Rightarrow> unit res" where
  "require_numeric_representation ty =
     (if numeric_representation (ty_shape ty) then Inr () else Inl expr_type_009)"

definition require_integral_representation :: "type_def \<Rightarrow> unit res" where
  "require_integral_representation ty =
     (case ty_shape ty of
        ShScalar r \<Rightarrow> (case r of RInt _ \<Rightarrow> Inr () | RUInt _ \<Rightarrow> Inr () | _ \<Rightarrow> Inl expr_type_012)
      | _ \<Rightarrow> Inl expr_type_012)"

definition require_negatable :: "type_def \<Rightarrow> unit res" where
  "require_negatable ty =
     (if numeric_representation (ty_shape ty) \<and> (case ty_shape ty of ShScalar r \<Rightarrow> (case r of RUInt _ \<Rightarrow> False | _ \<Rightarrow> True) | _ \<Rightarrow> True) \<and>
         numeric (ty_properties ty)
      then Inr () else Inl expr_type_013)"

definition require_equality :: "type_def \<Rightarrow> diagnostic \<Rightarrow> unit res" where
  "require_equality ty err = (if equality (ty_properties ty) then Inr () else Inl err)"

definition validate_unary :: "unary_op \<Rightarrow> type_def \<Rightarrow> type_def \<Rightarrow> unit res" where
  "validate_unary op input output =
     and_then
       (case op of
          OpNot \<Rightarrow> require_truth input ''logical NOT''
        | OpIsNull \<Rightarrow> Inr ()
        | OpIsMissing \<Rightarrow> Inr ()
        | OpIsPresent \<Rightarrow> Inr ()
        | OpNullableLift \<Rightarrow> if is_nullable input then Inl expr_type_015 else Inr ()
        | OpLosslessCast \<Rightarrow> validate_lossless_cast input output
        | OpNegate \<Rightarrow> require_negatable input
        | OpAbs \<Rightarrow> require_negatable input) (\<lambda>_.
     let expected =
       (case op of
          OpNullableLift \<Rightarrow> nullable input
        | OpLosslessCast \<Rightarrow> output
        | OpNegate \<Rightarrow> input
        | OpAbs \<Rightarrow> input
        | _ \<Rightarrow> truth_type_def)
     in require_exact_type output expected ''unary expression result'')"

definition validate_coalesce :: "type_def \<Rightarrow> type_def \<Rightarrow> type_def \<Rightarrow> unit res" where
  "validate_coalesce left right output =
     (if left = right then require_exact_type output left ''coalesce result''
      else if is_nullable left \<and> non_null left = right
      then require_exact_type output right ''coalesce result''
      else Inl expr_type_014)"

definition validate_binary :: "binary_op \<Rightarrow> type_def \<Rightarrow> type_def \<Rightarrow> type_def \<Rightarrow> unit res" where
  "validate_binary op left right output =
     (if op \<in> {OpEq, OpNe} then
        and_then (require_same_input_types left right) (\<lambda>_.
        and_then (require_equality left expr_type_003) (\<lambda>_. require_truth output ''equality result''))
      else if op \<in> {OpLt, OpLe, OpGt, OpGe} then
        and_then (require_same_input_types left right) (\<lambda>_.
          if \<not> ordering_p (ty_properties left) then Inl expr_type_004 else require_truth output ''ordering result'')
      else if op \<in> {OpAnd, OpOr} then
        and_then (require_truth left ''logical left operand'') (\<lambda>_.
        and_then (require_truth right ''logical right operand'') (\<lambda>_. require_truth output ''logical result''))
      else if op \<in> {OpAdd, OpSub, OpMul, OpDiv} then
        and_then (require_same_input_types left right) (\<lambda>_.
          if \<not> numeric (ty_properties left) then Inl expr_type_005
          else and_then (require_numeric_representation left) (\<lambda>_.
            require_exact_type output left ''numeric result''))
      else if op = OpRem then
        and_then (require_same_input_types left right) (\<lambda>_.
          if \<not> integral (ty_properties left) then Inl expr_type_011
          else and_then (require_integral_representation left) (\<lambda>_.
            require_exact_type output left ''remainder result''))
      else if op \<in> {OpIsDistinctFrom, OpIsNotDistinctFrom} then
        and_then (require_same_input_types left right) (\<lambda>_.
        and_then (require_equality left expr_type_003) (\<lambda>_. require_truth output ''null-safe equality result''))
      else validate_coalesce left right output)"

section \<open>Nodes\<close>

type_synonym parameter_types = "string \<rightharpoonup> type_def"

definition validate_parameter ::
  "expression_limits \<Rightarrow> string \<Rightarrow> type_def \<Rightarrow> parameter_types \<Rightarrow> parameter_types res" where
  "validate_parameter L name ty parameters =
     (if name = [] then Inl param_001
      else if length name > el_max_parameter_name_bytes L then Inl param_002
      else case parameters name of
        Some existing \<Rightarrow> if existing \<noteq> ty then Inl (param_003 name) else Inr parameters
      | None \<Rightarrow> Inr (parameters(name \<mapsto> ty)))"

text \<open>What a node requires of the types of its children, after these have been validated.\<close>

definition node_rule :: "type_def \<Rightarrow> ('x, 'q) expr_kind \<Rightarrow> unit res" where
  "node_rule ty kind =
     (case kind of
        EUnary op input \<Rightarrow> validate_unary op (en_ty input) ty
      | EBinary op left right \<Rightarrow> validate_binary op (en_ty left) (en_ty right) ty
      | EMembership input candidates negate \<Rightarrow>
          and_then (require_equality (en_ty input) expr_type_010) (\<lambda>_. require_truth ty ''membership result'')
      | EConditional c t e \<Rightarrow>
          and_then (require_truth (en_ty c) ''conditional condition'') (\<lambda>_.
          and_then (require_exact_type (en_ty t) (en_ty e) ''conditional branches'') (\<lambda>_.
            require_exact_type ty (en_ty t) ''conditional result''))
      | EFunctionCall f arguments \<Rightarrow> function_validate f (map en_ty arguments) ty
      | EExists q \<Rightarrow> require_truth ty ''existential result''
      | _ \<Rightarrow> Inr ())"

function validate_node :: "'x ext \<Rightarrow> expression_limits \<Rightarrow> ('x, 'q) expr_node \<Rightarrow> parameter_types \<Rightarrow>
    parameter_types res" where
  "validate_node X L node parameters =
     and_then
       (case en_kind node of
          EField f \<Rightarrow> Inr parameters
        | ELiteral v \<Rightarrow>
            map_err (\<lambda>err. literal_001 (message err))
              (and_then (validate_datum X (en_ty node) Required v) (\<lambda>_. Inr parameters))
        | EParameter name \<Rightarrow> validate_parameter L name (en_ty node) parameters
        | EMembership input candidates negate \<Rightarrow>
            and_then (validate_node X L input parameters)
              (try_each (\<lambda>candidate parameters.
                  and_then (validate_node X L candidate parameters) (\<lambda>parameters.
                  and_then (require_exact_type (en_ty candidate) (en_ty input) ''membership candidate'')
                    (\<lambda>_. Inr parameters)))
                candidates)
        | _ \<Rightarrow> try_each (validate_node X L) (children node) parameters) (\<lambda>parameters.
     and_then (node_rule (en_ty node) (en_kind node)) (\<lambda>_. Inr parameters))"
  by pat_completeness auto
termination
  by (relation "measure (\<lambda>(X, L, node, parameters). size node)")
    (auto intro!: size_expr_child simp: children_def)

declare validate_node.simps [simp del]

definition validate_expression_node :: "'x ext \<Rightarrow> ('x, 'q) expr_node \<Rightarrow> expression_limits \<Rightarrow> unit res" where
  "validate_expression_node X node L =
     and_then (definitions_loop [node] [] Map.empty) (\<lambda>types.
     and_then (validate_type_universe types) (\<lambda>_.
     and_then (validate_node X L node Map.empty) (\<lambda>_. Inr ())))"

end
