(* ===== verification/Model_Def.thy ===== *)
theory Model_Def
  imports Type_Validate "HOL-Library.Product_Lexorder"
begin

text \<open>
  \<open>dol-core/model\<close>: the mutable \<open>ModelBuilder\<close>, the checks and the canonicalisation of
  \<open>ModelBuilder::freeze\<close>, the immutable \<open>ModelDef\<close> with its lookup indexes, and the cross-model checks
  of \<open>ModelSet\<close>. Stable keys (\<open>ModelKey\<close>, \<open>FieldKey\<close>, \<open>RelationKey\<close>) are newtypes of \<open>String\<close> and are
  modelled as strings. The fingerprint of a model is a function of its parts (theory \<open>Fingerprint\<close>)
  and is not stored.
\<close>

section \<open>Relations and constraints\<close>

datatype cardinality = One | OptionalOne | Many

record relation_field =
  rel_source :: string
  rel_target :: string

record relation_def =
  rel_key :: string
  rel_name :: string
  rel_target_model :: string
  rel_cardinality :: cardinality
  rel_fields :: "relation_field list"

definition relation_pair_key :: "relation_field \<Rightarrow> string \<times> string" where
  "relation_pair_key p = (rel_source p, rel_target p)"

definition relation_new :: "string \<Rightarrow> string \<Rightarrow> string \<Rightarrow> cardinality \<Rightarrow> (string \<times> string) list \<Rightarrow> relation_def" where
  "relation_new key name target_model c pairs =
     \<lparr>rel_key = key, rel_name = name, rel_target_model = target_model, rel_cardinality = c,
      rel_fields = sort_key relation_pair_key
        (map (\<lambda>(source, tgt). \<lparr>rel_source = source, rel_target = tgt\<rparr>) pairs)\<rparr>"

record reference_def =
  ref_source_fields :: "string list"
  ref_target_model :: string
  ref_target_fields :: "string list"

definition reference_new :: "string list \<Rightarrow> string \<Rightarrow> string list \<Rightarrow> reference_def" where
  "reference_new source_fields target_model target_fields =
     (if length source_fields = length target_fields then
        let pairs = sort_key fst (zip source_fields target_fields)
        in \<lparr>ref_source_fields = map fst pairs, ref_target_model = target_model,
            ref_target_fields = map snd pairs\<rparr>
      else \<lparr>ref_source_fields = source_fields, ref_target_model = target_model,
            ref_target_fields = target_fields\<rparr>)"

text \<open>\<open>IdentityDef::new\<close> and \<open>UniqueDef::new\<close> sort their field keys.\<close>

definition identity_new :: "string list \<Rightarrow> string list" where
  "identity_new ks = sort ks"

definition unique_new :: "string list \<Rightarrow> string list" where
  "unique_new ks = sort ks"

section \<open>The builder\<close>

record field_spec =
  fs_key :: string
  fs_name :: string
  fs_ty :: type_def
  fs_presence :: presence

record model_builder =
  mb_key :: string
  mb_name :: string
  mb_fields :: "field_spec list"
  mb_identity :: "string list option"
  mb_identity_redeclared :: bool
  mb_unique :: "string list list"
  mb_relations :: "relation_def list"
  mb_references :: "reference_def list"
  mb_limits :: definition_limits

definition builder_with_key :: "string \<Rightarrow> string \<Rightarrow> model_builder" where
  "builder_with_key key name =
     \<lparr>mb_key = key, mb_name = name, mb_fields = [], mb_identity = None, mb_identity_redeclared = False,
      mb_unique = [], mb_relations = [], mb_references = [], mb_limits = default_definition_limits\<rparr>"

definition builder_new :: "string \<Rightarrow> model_builder" where
  "builder_new name = builder_with_key name name"

definition builder_limits :: "definition_limits \<Rightarrow> model_builder \<Rightarrow> model_builder" where
  "builder_limits limits b = b\<lparr>mb_limits := limits\<rparr>"

definition builder_field_def :: "string \<Rightarrow> string \<Rightarrow> type_def \<Rightarrow> presence \<Rightarrow> model_builder \<Rightarrow> model_builder" where
  "builder_field_def key name ty presence b =
     b\<lparr>mb_fields := mb_fields b @
       [\<lparr>fs_key = key, fs_name = name, fs_ty = canonicalize ty, fs_presence = presence\<rparr>]\<rparr>"

definition builder_identity :: "string list \<Rightarrow> model_builder \<Rightarrow> model_builder" where
  "builder_identity ks b =
     b\<lparr>mb_identity := Some ks,
       mb_identity_redeclared := (if mb_identity b \<noteq> None then True else mb_identity_redeclared b)\<rparr>"

definition builder_unique :: "string list \<Rightarrow> model_builder \<Rightarrow> model_builder" where
  "builder_unique ks b = b\<lparr>mb_unique := mb_unique b @ [ks]\<rparr>"

definition builder_relation :: "relation_def \<Rightarrow> model_builder \<Rightarrow> model_builder" where
  "builder_relation r b = b\<lparr>mb_relations := mb_relations b @ [r]\<rparr>"

definition builder_reference :: "string list \<Rightarrow> string \<Rightarrow> string list \<Rightarrow> model_builder \<Rightarrow> model_builder" where
  "builder_reference source_fields target_model target_fields b =
     b\<lparr>mb_references := mb_references b @ [reference_new source_fields target_model target_fields]\<rparr>"

section \<open>The immutable model\<close>

record field_def =
  fd_key :: string
  fd_name :: string
  fd_slot :: u32
  fd_ty :: type_def
  fd_presence :: presence

record model_def =
  md_key :: string
  md_name :: string
  md_fields :: "field_def list"
  md_fields_by_key :: "(string, nat) btree"
  md_fields_by_name :: "(string, nat) btree"
  md_identity :: "string list option"
  md_unique :: "string list list"
  md_relations :: "relation_def list"
  md_references :: "reference_def list"

definition model_from_parts :: "string \<Rightarrow> string \<Rightarrow> field_def list \<Rightarrow> string list option \<Rightarrow>
    string list list \<Rightarrow> relation_def list \<Rightarrow> reference_def list \<Rightarrow> model_def" where
  "model_from_parts key name fds identity unique relations references =
     \<lparr>md_key = key, md_name = name, md_fields = fds,
      md_fields_by_key = btree_of_list (map (\<lambda>(i, f). (fd_key f, i)) (enumerate 0 fds)),
      md_fields_by_name = btree_of_list (map (\<lambda>(i, f). (fd_name f, i)) (enumerate 0 fds)),
      md_identity = identity, md_unique = unique, md_relations = relations, md_references = references\<rparr>"

definition model_field :: "model_def \<Rightarrow> string \<Rightarrow> field_def option" where
  "model_field m key = map_option (\<lambda>i. md_fields m ! i) (map_of (md_fields_by_key m) key)"

definition model_field_named :: "model_def \<Rightarrow> string \<Rightarrow> field_def option" where
  "model_field_named m name = map_option (\<lambda>i. md_fields m ! i) (map_of (md_fields_by_name m) name)"

section \<open>Checks of \<open>freeze\<close>\<close>

definition limit_001 :: "nat \<Rightarrow> nat \<Rightarrow> diagnostic" where
  "limit_001 n m = diagnostic_error ''LIMIT-001''
     (''model has '' @ show_nat n @ '' fields; limit is '' @ show_nat m)"
definition limit_002 :: diagnostic where
  "limit_002 = diagnostic_error ''LIMIT-002'' ''model exceeds relation limit''"
definition limit_003 :: diagnostic where
  "limit_003 = diagnostic_error ''LIMIT-003'' ''model exceeds constraint limit''"
definition limit_004 :: diagnostic where
  "limit_004 = diagnostic_error ''LIMIT-004'' ''model field count exceeds slot address space''"
definition limit_005 :: "nat \<Rightarrow> nat \<Rightarrow> diagnostic" where
  "limit_005 n m = diagnostic_error ''LIMIT-005''
     (''model has '' @ show_nat n @ '' type nodes; limit is '' @ show_nat m)"
definition constraint_008 :: diagnostic where
  "constraint_008 = diagnostic_error ''CONSTRAINT-008'' ''model identity may only be declared once''"

definition check_new :: "'a set \<Rightarrow> 'a \<Rightarrow> diagnostic \<Rightarrow> 'a set res" where
  "check_new seen k err = (if k \<in> seen then Inl err else Inr (insert k seen))"

definition validate_field_spec ::
    "definition_limits \<Rightarrow> field_spec \<Rightarrow> string set \<times> string set \<Rightarrow> (string set \<times> string set) res" where
  "validate_field_spec limits f seen =
     and_then (validate_name ''FIELD-001'' ''field key'' (fs_key f) limits) (\<lambda>_.
     and_then (validate_name ''FIELD-002'' ''field name'' (fs_name f) limits) (\<lambda>_.
     and_then (check_new (fst seen) (fs_key f)
       (diagnostic_error ''FIELD-003'' (''duplicate field key `'' @ fs_key f @ ''`''))) (\<lambda>keys.
     and_then (check_new (snd seen) (fs_name f)
       (diagnostic_error ''FIELD-004'' (''duplicate field name `'' @ fs_name f @ ''`''))) (\<lambda>names.
     and_then (validate_type (fs_ty f) limits) (\<lambda>_. Inr (keys, names))))))"

definition validate_fields :: "field_spec list \<Rightarrow> definition_limits \<Rightarrow> unit res" where
  "validate_fields fs limits =
     and_then (try_each (validate_field_spec limits) fs ({}, {})) (\<lambda>_.
       validate_type_universe (map fs_ty fs))"

type_synonym fields_by_key = "(string, field_spec) btree"

definition validate_field_tuple :: "string \<Rightarrow> string list \<Rightarrow> fields_by_key \<Rightarrow> unit res" where
  "validate_field_tuple cd ks known =
     (if ks = [] then Inl (diagnostic_error cd ''field tuple must not be empty'')
      else and_then
        (try_each (\<lambda>k seen.
           if map_of known k = None then Inl (diagnostic_error cd (''unknown field `'' @ k @ ''`''))
           else check_new seen k (diagnostic_error cd (''duplicate field `'' @ k @ ''` in constraint''))) ks {})
        (\<lambda>_. Inr ()))"

definition stable_key :: "field_spec \<Rightarrow> bool" where
  "stable_key f \<longleftrightarrow> \<not> (\<not> equality (ty_properties (fs_ty f)) \<or> \<not> keyable (ty_properties (fs_ty f)))"

definition validate_identity_field :: "fields_by_key \<Rightarrow> string \<Rightarrow> unit res" where
  "validate_identity_field by_key k =
     (let field = the (map_of by_key k)
      in if fs_presence field \<noteq> Required \<or> ty_nullability (fs_ty field) \<noteq> NonNull
         then Inl (diagnostic_error ''CONSTRAINT-002''
                (''identity field `'' @ k @ ''` must be required and non-null''))
         else if \<not> stable_key field
         then Inl (diagnostic_error ''CONSTRAINT-006''
                (''identity field `'' @ k @ ''` must support stable key equality''))
         else Inr ())"

definition validate_unique_field :: "fields_by_key \<Rightarrow> string \<Rightarrow> unit res" where
  "validate_unique_field by_key k =
     (if \<not> stable_key (the (map_of by_key k))
      then Inl (diagnostic_error ''CONSTRAINT-007''
             (''unique field `'' @ k @ ''` must support stable key equality''))
      else Inr ())"

definition validate_constraints ::
    "string list option \<Rightarrow> string list list \<Rightarrow> fields_by_key \<Rightarrow> unit res" where
  "validate_constraints identity unique by_key =
     and_then
       (case identity of
          None \<Rightarrow> Inr ()
        | Some ks \<Rightarrow>
            and_then (validate_field_tuple ''CONSTRAINT-001'' ks by_key) (\<lambda>_.
              try_all (validate_identity_field by_key) ks)) (\<lambda>_.
     try_all (\<lambda>ks.
       and_then (validate_field_tuple ''CONSTRAINT-003'' ks by_key) (\<lambda>_.
         try_all (validate_unique_field by_key) ks)) unique)"

definition validate_relation_pair :: "definition_limits \<Rightarrow> fields_by_key \<Rightarrow> relation_field \<Rightarrow>
    string set \<times> string set \<Rightarrow> (string set \<times> string set) res" where
  "validate_relation_pair limits by_key p seen =
     and_then (validate_name ''RELATION-009'' ''relation target field key'' (rel_target p) limits) (\<lambda>_.
       if map_of by_key (rel_source p) = None
       then Inl (diagnostic_error ''RELATION-002'' (''unknown source field `'' @ rel_source p @ ''`''))
       else if rel_source p \<in> fst seen \<or> rel_target p \<in> snd seen
       then Inl (diagnostic_error ''RELATION-007''
              ''relation field mappings must not repeat source or target fields'')
       else Inr (insert (rel_source p) (fst seen), insert (rel_target p) (snd seen)))"

definition validate_relation :: "definition_limits \<Rightarrow> fields_by_key \<Rightarrow> relation_def \<Rightarrow>
    string set \<times> string set \<Rightarrow> (string set \<times> string set) res" where
  "validate_relation limits by_key r seen =
     and_then (validate_name ''RELATION-003'' ''relation key'' (rel_key r) limits) (\<lambda>_.
     and_then (validate_name ''RELATION-004'' ''relation name'' (rel_name r) limits) (\<lambda>_.
     and_then (check_new (fst seen) (rel_key r)
       (diagnostic_error ''RELATION-005'' (''duplicate relation key `'' @ rel_key r @ ''`''))) (\<lambda>keys.
     and_then (check_new (snd seen) (rel_name r)
       (diagnostic_error ''RELATION-006'' (''duplicate relation name `'' @ rel_name r @ ''`''))) (\<lambda>names.
     and_then (validate_name ''RELATION-008'' ''relation target model key'' (rel_target_model r) limits) (\<lambda>_.
       if rel_fields r = []
       then Inl (diagnostic_error ''RELATION-001'' ''relation must map at least one field'')
       else and_then (try_each (validate_relation_pair limits by_key) (rel_fields r) ({}, {})) (\<lambda>_.
         Inr (keys, names)))))))"

definition validate_relations :: "definition_limits \<Rightarrow> fields_by_key \<Rightarrow> relation_def list \<Rightarrow> unit res" where
  "validate_relations limits by_key rs =
     and_then (try_each (validate_relation limits by_key) rs ({}, {})) (\<lambda>_. Inr ())"

definition validate_target_key :: "definition_limits \<Rightarrow> string \<Rightarrow> string set \<Rightarrow> string set res" where
  "validate_target_key limits k seen =
     and_then (validate_name ''CONSTRAINT-011'' ''reference target field key'' k limits) (\<lambda>_.
       check_new seen k (diagnostic_error ''CONSTRAINT-009''
         (''duplicate target field `'' @ k @ ''` in reference'')))"

definition validate_reference :: "definition_limits \<Rightarrow> fields_by_key \<Rightarrow> reference_def \<Rightarrow> unit res" where
  "validate_reference limits by_key r =
     and_then (validate_name ''CONSTRAINT-010'' ''reference target model key'' (ref_target_model r) limits) (\<lambda>_.
       if length (ref_source_fields r) \<noteq> length (ref_target_fields r) \<or> ref_source_fields r = []
       then Inl (diagnostic_error ''CONSTRAINT-004''
              ''reference source/target field tuples must be non-empty and equal in width'')
       else and_then (validate_field_tuple ''CONSTRAINT-005'' (ref_source_fields r) by_key) (\<lambda>_.
         and_then (try_each (validate_target_key limits) (ref_target_fields r) {}) (\<lambda>_. Inr ())))"

definition validate_references :: "definition_limits \<Rightarrow> fields_by_key \<Rightarrow> reference_def list \<Rightarrow> unit res" where
  "validate_references limits by_key rs = try_all (validate_reference limits by_key) rs"

section \<open>Canonical order and \<open>freeze\<close>\<close>

definition reference_sort_key :: "reference_def \<Rightarrow> string \<times> string list \<times> string list" where
  "reference_sort_key r = (ref_target_model r, ref_source_fields r, ref_target_fields r)"

definition builder_canonicalize :: "model_builder \<Rightarrow> model_builder" where
  "builder_canonicalize b =
     b\<lparr>mb_fields := sort_key fs_key (mb_fields b),
       mb_relations := sort_key rel_key (mb_relations b),
       mb_unique := remdups_adj (sort (map sort (mb_unique b))),
       mb_references := remdups_adj (sort_key reference_sort_key (mb_references b))\<rparr>"

fun assign_slots :: "nat \<Rightarrow> field_spec list \<Rightarrow> field_def list res" where
  "assign_slots index [] = Inr []"
| "assign_slots index (f # fs) =
     (if index \<ge> 2 ^ 32 then Inl limit_004
      else and_then (assign_slots (Suc index) fs) (\<lambda>ds.
        Inr (\<lparr>fd_key = fs_key f, fd_name = fs_name f, fd_slot = of_nat index, fd_ty = fs_ty f,
              fd_presence = fs_presence f\<rparr> # ds)))"

definition into_model_def :: "model_builder \<Rightarrow> model_def res" where
  "into_model_def b =
     and_then (assign_slots 0 (mb_fields b)) (\<lambda>fds.
       Inr (model_from_parts (mb_key b) (mb_name b) fds (map_option identity_new (mb_identity b))
         (map unique_new (mb_unique b)) (mb_relations b) (mb_references b)))"

definition check_counts :: "model_builder \<Rightarrow> unit res" where
  "check_counts b =
     (let limits = mb_limits b;
          constraint_count = length (mb_unique b) + length (mb_references b) +
            (if mb_identity b \<noteq> None then 1 else 0);
          node_total = foldl (\<lambda>sum f. saturating_add_usize sum (type_node_count (fs_ty f))) 0 (mb_fields b)
      in if length (mb_fields b) > max_fields limits
         then Inl (limit_001 (length (mb_fields b)) (max_fields limits))
         else if length (mb_relations b) > max_relations limits then Inl limit_002
         else if constraint_count > max_constraints limits then Inl limit_003
         else if node_total > max_type_nodes limits
         then Inl (limit_005 node_total (max_type_nodes limits))
         else if mb_identity_redeclared b then Inl constraint_008
         else Inr ())"

definition model_freeze :: "model_builder \<Rightarrow> model_def res" where
  "model_freeze b =
     (let limits = mb_limits b;
          by_key = btree_of_list (map (\<lambda>f. (fs_key f, f)) (mb_fields b))
      in and_then (validate_name ''MODEL-001'' ''model key'' (mb_key b) limits) (\<lambda>_.
         and_then (validate_name ''MODEL-002'' ''model name'' (mb_name b) limits) (\<lambda>_.
         and_then (check_counts b) (\<lambda>_.
         and_then (validate_fields (mb_fields b) limits) (\<lambda>_.
         and_then (validate_constraints (mb_identity b) (mb_unique b) by_key) (\<lambda>_.
         and_then (validate_relations limits by_key (mb_relations b)) (\<lambda>_.
         and_then (validate_references limits by_key (mb_references b)) (\<lambda>_.
           into_model_def (builder_canonicalize b)))))))))"

section \<open>Model sets\<close>

type_synonym model_set = "(string, model_def) btree"

definition is_unique :: "model_def \<Rightarrow> string set \<Rightarrow> bool" where
  "is_unique m ks \<longleftrightarrow>
     (case md_identity m of Some i \<Rightarrow> set i = ks | None \<Rightarrow> False) \<or> list_ex (\<lambda>u. set u = ks) (md_unique m)"

definition set_relation_pair :: "model_def \<Rightarrow> model_def \<Rightarrow> relation_def \<Rightarrow> relation_field \<Rightarrow> unit res" where
  "set_relation_pair source tgt r p =
     and_then (ok_or (model_field source (rel_source p))
       (diagnostic_error ''RELATION-102'' ''relation source field missing after freeze'')) (\<lambda>left.
     and_then (ok_or (model_field tgt (rel_target p))
       (diagnostic_error ''RELATION-103''
         (''relation `'' @ rel_name r @ ''` targets unknown field `'' @ rel_target p @ ''`''))) (\<lambda>right.
       if \<not> same_value_type (fd_ty left) (fd_ty right)
       then Inl (diagnostic_error ''RELATION-104'' (''relation `'' @ rel_name r @ ''` maps incompatible types''))
       else Inr ()))"

definition set_relation :: "model_set \<Rightarrow> model_def \<Rightarrow> relation_def \<Rightarrow> unit res" where
  "set_relation models source r =
     and_then (ok_or (map_of models (rel_target_model r))
       (diagnostic_error ''RELATION-101''
         (''relation `'' @ rel_name r @ ''` targets unknown model `'' @ rel_target_model r @ ''`''))) (\<lambda>tgt.
     and_then (try_all (set_relation_pair source tgt r) (rel_fields r)) (\<lambda>_.
       if (rel_cardinality r = One \<or> rel_cardinality r = OptionalOne) \<and>
          \<not> is_unique tgt (set (map rel_target (rel_fields r)))
       then Inl (diagnostic_error ''RELATION-105''
              (''to-one relation `'' @ rel_name r @ ''` must target an identity or unique field tuple''))
       else Inr ()))"

definition set_reference_pair :: "model_def \<Rightarrow> model_def \<Rightarrow> string \<times> string \<Rightarrow> unit res" where
  "set_reference_pair source tgt p =
     and_then (ok_or (model_field source (fst p))
       (diagnostic_error ''CONSTRAINT-102'' ''reference source field missing after freeze'')) (\<lambda>left.
     and_then (ok_or (model_field tgt (snd p))
       (diagnostic_error ''CONSTRAINT-103'' (''reference targets unknown field `'' @ snd p @ ''`''))) (\<lambda>right.
       if \<not> same_value_type (fd_ty left) (fd_ty right)
       then Inl (diagnostic_error ''CONSTRAINT-104'' ''reference field types must match exactly'')
       else Inr ()))"

definition set_reference :: "model_set \<Rightarrow> model_def \<Rightarrow> reference_def \<Rightarrow> unit res" where
  "set_reference models source r =
     and_then (ok_or (map_of models (ref_target_model r))
       (diagnostic_error ''CONSTRAINT-101''
         (''reference targets unknown model `'' @ ref_target_model r @ ''`''))) (\<lambda>tgt.
     and_then (try_all (set_reference_pair source tgt) (zip (ref_source_fields r) (ref_target_fields r))) (\<lambda>_.
       if \<not> is_unique tgt (set (ref_target_fields r))
       then Inl (diagnostic_error ''CONSTRAINT-105''
              ''reference target fields must form identity or unique tuple'')
       else Inr ()))"

definition validate_cross_model :: "model_set \<Rightarrow> unit res" where
  "validate_cross_model models =
     try_all (\<lambda>source.
       and_then (try_all (set_relation models source) (md_relations source)) (\<lambda>_.
         try_all (set_reference models source) (md_references source))) (map snd models)"

definition model_set_insert :: "model_def \<Rightarrow> model_set \<Rightarrow> model_set res" where
  "model_set_insert m models =
     (if map_of models (md_key m) \<noteq> None
      then Inl (diagnostic_error ''MODELSET-001'' ''duplicate model key'')
      else Inr (btree_insert (md_key m) m models))"

definition model_set_new :: "model_def list \<Rightarrow> model_set res" where
  "model_set_new models =
     and_then (try_each model_set_insert models []) (\<lambda>st.
     and_then (validate_type_universe (map fd_ty (concat (map md_fields (map snd st))))) (\<lambda>_.
     and_then (validate_cross_model st) (\<lambda>_. Inr st)))"

end
