(* ===== verification/Type_Laws.thy ===== *)
theory Type_Laws
  imports Type_Validate "HOL-Library.Multiset"
begin

text \<open>
  What the type validation of \<open>dol-core\<close> establishes: a declarative well-formedness predicate that
  \<open>validate_type\<close> decides exactly, and the agreement of type identities in an accepted universe.
\<close>

section \<open>Declarative well-formedness\<close>

definition name_ok :: "definition_limits \<Rightarrow> string \<Rightarrow> bool" where
  "name_ok limits s \<longleftrightarrow> s \<noteq> [] \<and> length s \<le> max_name_bytes limits"

fun parameter_ok :: "definition_limits \<Rightarrow> type_parameter \<Rightarrow> bool" where
  "parameter_ok limits (TPString v) = (length v \<le> max_name_bytes limits)"
| "parameter_ok limits _ = True"

fun scalar_ok :: "scalar_repr \<Rightarrow> bool" where
  "scalar_ok (RInt bits) = valid_integer_width bits"
| "scalar_ok (RUInt bits) = valid_integer_width bits"
| "scalar_ok _ = True"

fun type_wf :: "definition_limits \<Rightarrow> type_def \<Rightarrow> bool"
and shape_wf :: "definition_limits \<Rightarrow> type_shape \<Rightarrow> bool"
and field_wf :: "definition_limits \<Rightarrow> record_field \<Rightarrow> bool" where
  "type_wf limits (TypeDef k v sh n p ps) \<longleftrightarrow>
     name_ok limits k \<and> valid_type_key_form k \<and> v \<noteq> 0 \<and>
     (\<forall>kv \<in> set ps. name_ok limits (fst kv) \<and> parameter_ok limits (snd kv)) \<and> shape_wf limits sh"
| "shape_wf limits (ShScalar repr) \<longleftrightarrow> scalar_ok repr"
| "shape_wf limits (ShList element) \<longleftrightarrow> type_wf limits element"
| "shape_wf limits (ShMap key val) \<longleftrightarrow> type_wf limits key \<and> type_wf limits val \<and> map_key_allowed key"
| "shape_wf limits (ShTuple elements) \<longleftrightarrow>
     length elements \<le> max_fields limits \<and> (\<forall>e \<in> set elements. type_wf limits e)"
| "shape_wf limits (ShRecord fs) \<longleftrightarrow>
     length fs \<le> max_fields limits \<and> distinct (map rf_name fs) \<and> (\<forall>f \<in> set fs. field_wf limits f)"
| "field_wf limits (RecordField nm ty pr) \<longleftrightarrow> name_ok limits nm \<and> type_wf limits ty"

lemma validate_name_ok [result_simps]:
  "validate_name cd kind s limits = Inr u \<longleftrightarrow> name_ok limits s"
  by (auto simp: validate_name_def name_ok_def)

lemma validate_type_key_ok [result_simps]:
  "validate_type_key s limits = Inr u \<longleftrightarrow> name_ok limits s \<and> valid_type_key_form s"
  by (auto simp: validate_type_key_def result_simps)

lemma validate_parameters_ok [result_simps]:
  "validate_parameters ps limits = Inr u \<longleftrightarrow>
     (\<forall>kv \<in> set ps. name_ok limits (fst kv) \<and> parameter_ok limits (snd kv))"
  unfolding validate_parameters_def try_all_ok
  by (intro ball_cong refl) (auto simp: result_simps split: type_parameter.splits prod.splits)

lemma validate_scalar_shape_ok [result_simps]:
  "validate_scalar_shape repr = Inr u \<longleftrightarrow> scalar_ok repr"
  by (cases repr) (auto simp: validate_scalar_shape_def)

lemma type_depth_TypeDef:
  "type_depth (TypeDef k v sh n p ps) =
     Max (insert 0 ((\<lambda>c. Suc (type_depth c)) ` set (stack_children sh)))"
  by (subst type_depth.simps) simp

lemma within_depth_TypeDef:
  "d + type_depth (TypeDef k v sh n p ps) \<le> m \<longleftrightarrow>
     d \<le> m \<and> (\<forall>c \<in> set (stack_children sh). Suc d + type_depth c \<le> m)"
  using type_depth_add_le [of d "TypeDef k v sh n p ps" m] by simp

lemma validate_at_depth_ok:
  "validate_type_at_depth limits t d = Inr () \<longleftrightarrow>
     d + type_depth t \<le> max_type_depth limits \<and> type_wf limits t"
  "d \<le> max_type_depth limits \<Longrightarrow> validate_shape_at_depth limits sh d = Inr () \<longleftrightarrow>
     (\<forall>c \<in> set (stack_children sh). Suc d + type_depth c \<le> max_type_depth limits) \<and> shape_wf limits sh"
  "validate_record_fields limits fs names d = Inr () \<longleftrightarrow>
     (\<forall>f \<in> set fs. Suc d + type_depth (rf_ty f) \<le> max_type_depth limits \<and> field_wf limits f) \<and>
     distinct (map rf_name fs) \<and> set (map rf_name fs) \<inter> names = {}"
proof (induction limits t d and limits sh d and limits fs names d
    rule: validate_type_at_depth_validate_shape_at_depth_validate_record_fields.induct)
  case (1 limits k v sh n p ps depth)
  then show ?case by (auto simp: result_simps within_depth_TypeDef)
next
  case (4 limits key val depth)
  then show ?case by (auto simp: result_simps stack_children_def)
next
  case (5 limits elements depth)
  then show ?case by (auto simp: result_simps stack_children_def)
next
  case (6 limits fs depth)
  then show ?case by (auto simp: stack_children_def)
next
  case (8 limits nm ty pr fs names depth)
  then show ?case by (auto simp: result_simps)
qed (auto simp: result_simps stack_children_def)

text \<open>
  \<open>validate_type\<close> is a decision procedure: on limits below \<open>usize::MAX\<close> it accepts a definition exactly
  when depth and node count are within the limits and the definition is well formed at every level.
\<close>

lemma validate_type_ok:
  assumes "max_type_depth limits < usize_max" and "max_type_nodes limits < usize_max"
  shows "validate_type t limits = Inr () \<longleftrightarrow>
    type_depth t \<le> max_type_depth limits \<and> type_nodes t \<le> max_type_nodes limits \<and> type_wf limits t"
  using structure_loop_ok [OF assms, of 0 "[(t, 0)]"] validate_at_depth_ok(1) [of limits t 0]
  by (auto simp: validate_type_def validate_structure_limits_def and_then_Inr)

section \<open>Map keys\<close>

function subtypes :: "type_def \<Rightarrow> type_def list" where
  "subtypes t = t # concat (map subtypes (stack_children (ty_shape t)))"
  by pat_completeness auto
termination
  by (relation "measure size") (auto intro: size_child)

declare subtypes.simps [simp del]

lemma type_wf_child:
  assumes "type_wf limits t" and "c \<in> set (stack_children (ty_shape t))"
  shows "type_wf limits c"
proof -
  obtain k v sh n p ps where t: "t = TypeDef k v sh n p ps" by (cases t)
  with assms(1) have "shape_wf limits sh" by simp
  moreover have "field_wf limits f \<Longrightarrow> type_wf limits (rf_ty f)" for f by (cases f) simp
  ultimately show ?thesis
    using assms(2) t by (cases sh) (auto simp: stack_children_def)
qed

lemma set_subtypes:
  "set (subtypes t) = insert t (\<Union>c \<in> set (stack_children (ty_shape t)). set (subtypes c))"
  by (subst subtypes.simps) simp

lemma type_wf_subtypes: "type_wf limits t \<Longrightarrow> s \<in> set (subtypes t) \<Longrightarrow> type_wf limits s"
proof (induction t rule: subtypes.induct)
  case (1 t)
  from "1.prems"(2) consider "s = t" | c where "c \<in> set (stack_children (ty_shape t))" "s \<in> set (subtypes c)"
    unfolding set_subtypes [of t] by auto
  then show ?case using "1.IH" "1.prems"(1) type_wf_child by cases blast+
qed

section \<open>Type identities\<close>

definition type_identity :: "type_def \<Rightarrow> string \<times> u32" where
  "type_identity t = (ty_key t, ty_version t)"

lemma same_value_type_equivalence:
  "same_value_type a a"
  "same_value_type a b \<Longrightarrow> same_value_type b a"
  "same_value_type a b \<Longrightarrow> same_value_type b c \<Longrightarrow> same_value_type a c"
  by (auto simp: same_value_type_def)

lemma same_value_type_non_null [simp]:
  "same_value_type (non_null a) b = same_value_type a b"
  by (cases a) (simp add: same_value_type_def)

definition register_one :: "type_def \<Rightarrow> type_universe \<Rightarrow> type_universe res" where
  "register_one ty known =
     (case known (type_identity ty) of
        Some existing \<Rightarrow> if \<not> same_value_type existing ty then Inl (type_101 ty) else Inr known
      | None \<Rightarrow> Inr (known(type_identity ty \<mapsto> non_null ty)))"

lemma register_flat: "register_type_identity t known = try_each register_one (subtypes t) known"
proof (induction t arbitrary: known rule: subtypes.induct)
  case (1 t)
  have "try_each register_type_identity cs u = try_each register_one (concat (map subtypes cs)) u"
    if "set cs \<subseteq> set (stack_children (ty_shape t))" for cs u
    using that by (induction cs arbitrary: u) (auto simp: try_each_append "1.IH" cong: and_then_cong)
  then show ?case
    by (subst register_type_identity.simps, subst subtypes.simps)
      (auto simp: register_one_def type_identity_def Let_def split: option.splits)
qed

text \<open>Registration succeeds when the new types agree with the known ones and with each other.\<close>

definition agrees :: "type_universe \<Rightarrow> type_def \<Rightarrow> bool" where
  "agrees known t \<longleftrightarrow> (case known (type_identity t) of None \<Rightarrow> True | Some r \<Rightarrow> same_value_type r t)"

lemma agrees_update:
  "known (type_identity t) = None \<Longrightarrow>
    agrees (known(type_identity t \<mapsto> non_null t)) s \<longleftrightarrow>
      agrees known s \<and> (type_identity s = type_identity t \<longrightarrow> same_value_type t s)"
  by (auto simp: agrees_def)

lemma ball_pairs_insert:
  assumes "R t t" and sym: "\<And>a b. R a b \<Longrightarrow> R b a"
  shows "(\<forall>a \<in> insert t S. \<forall>b \<in> insert t S. f a = f b \<longrightarrow> R a b) \<longleftrightarrow>
    (\<forall>s \<in> S. f s = f t \<longrightarrow> R t s) \<and> (\<forall>a \<in> S. \<forall>b \<in> S. f a = f b \<longrightarrow> R a b)"
proof (intro iffI conjI ballI impI)
  fix a b
  assume h: "(\<forall>s \<in> S. f s = f t \<longrightarrow> R t s) \<and> (\<forall>a \<in> S. \<forall>b \<in> S. f a = f b \<longrightarrow> R a b)"
    and ab: "a \<in> insert t S" "b \<in> insert t S" "f a = f b"
  from ab(1,2) consider "a = t" "b = t" | "a = t" "b \<in> S" | "a \<in> S" "b = t" | "a \<in> S" "b \<in> S" by blast
  then show "R a b"
  proof cases
    case 2
    with ab(3) have "f b = f t" by (simp only:)
    with 2 h show ?thesis by blast
  next
    case 3
    with ab(3) have "f a = f t" by (simp only:)
    with 3 h sym show ?thesis by blast
  qed (use assms(1) h ab(3) in blast)+
qed (blast intro: sym)+

lemma agrees_known:
  "agrees known t \<Longrightarrow> agrees known s \<Longrightarrow> known (type_identity t) = Some r \<Longrightarrow>
    type_identity s = type_identity t \<Longrightarrow> same_value_type t s"
  by (auto simp: agrees_def same_value_type_def)

lemma register_all_ok:
  "(\<exists>known'. try_each register_one ts known = Inr known') \<longleftrightarrow>
     (\<forall>t \<in> set ts. agrees known t) \<and>
     (\<forall>a \<in> set ts. \<forall>b \<in> set ts. type_identity a = type_identity b \<longrightarrow> same_value_type a b)"
proof (induction ts arbitrary: known)
  case Nil
  then show ?case by simp
next
  case (Cons t ts)
  have head: "(\<forall>a \<in> set (t # ts). \<forall>b \<in> set (t # ts). type_identity a = type_identity b \<longrightarrow> same_value_type a b)
    \<longleftrightarrow> (\<forall>s \<in> set ts. type_identity s = type_identity t \<longrightarrow> same_value_type t s) \<and>
      (\<forall>a \<in> set ts. \<forall>b \<in> set ts. type_identity a = type_identity b \<longrightarrow> same_value_type a b)"
    unfolding list.set by (rule ball_pairs_insert) (auto intro: same_value_type_equivalence)
  show ?case
  proof (cases "known (type_identity t)")
    case None
    then have "try_each register_one (t # ts) known =
        try_each register_one ts (known(type_identity t \<mapsto> non_null t))"
      and "agrees known t"
      by (simp_all add: register_one_def agrees_def)
    then show ?thesis unfolding head using agrees_update [of known t, OF None]
      by (auto simp: Cons.IH simp del: fun_upd_apply)
  next
    case (Some r)
    show ?thesis
    proof (cases "same_value_type r t")
      case True
      with Some have "try_each register_one (t # ts) known = try_each register_one ts known"
        and "agrees known t"
        by (simp_all add: register_one_def agrees_def)
      then show ?thesis unfolding head using agrees_known [of known t _ r, OF _ _ Some] by (auto simp: Cons.IH)
    next
      case False
      with Some show ?thesis by (auto simp: register_one_def agrees_def)
    qed
  qed
qed

lemma validate_type_universe_ok:
  "validate_type_universe types = Inr () \<longleftrightarrow>
     (\<forall>a \<in> set (concat (map subtypes types)). \<forall>b \<in> set (concat (map subtypes types)).
        type_identity a = type_identity b \<longrightarrow> same_value_type a b)"
proof -
  have "try_each register_type_identity types known =
      try_each register_one (concat (map subtypes types)) known" for known
    by (induction types arbitrary: known)
      (auto simp: register_flat try_each_append cong: and_then_cong)
  then have "validate_type_universe types = Inr () \<longleftrightarrow>
      (\<exists>known'. try_each register_one (concat (map subtypes types)) Map.empty = Inr known')"
    by (auto simp: validate_type_universe_def and_then_Inr)
  then show ?thesis by (simp add: register_all_ok agrees_def)
qed


section \<open>Field order\<close>

lemma sort_key_perm:
  assumes "mset xs = mset ys" and "distinct (map f xs)"
  shows "sort_key f xs = sort_key f ys"
proof (rule map_sorted_distinct_set_unique [where f = f])
  have perm: "distinct (map f zs)" if "mset zs = mset xs" for zs
    using that assms(2) by (metis mset_eq_imp_distinct_iff mset_map)
  show "distinct (map f (sort_key f xs))" "distinct (map f (sort_key f ys))"
    using assms(1) by (simp_all add: perm)
  show "set (sort_key f xs) = set (sort_key f ys)" using mset_eq_setD [OF assms(1)] by simp
  then show "inj_on f (set (sort_key f xs) \<union> set (sort_key f ys))"
    using assms(2) by (simp add: distinct_map)
qed simp_all

lemma list_all_mset: "mset xs = mset ys \<Longrightarrow> list_all P xs \<longleftrightarrow> list_all P ys"
  by (metis list_all_iff mset_eq_setD)

lemma type_shaped_perm:
  assumes "mset fs = mset gs" and "distinct (map rf_name fs)"
  shows "type_shaped k v (ShRecord fs) = type_shaped k v (ShRecord gs)"
proof -
  have "sort_key rf_name (map canonicalize_field fs) = sort_key rf_name (map canonicalize_field gs)"
    using assms by (intro sort_key_perm) (simp_all add: comp_def)
  then show ?thesis
    using list_all_mset [OF assms(1)] by (simp add: type_shaped_def)
qed

end
