(* ===== verification/Model_Laws.thy ===== *)
theory Model_Laws
  imports Model_Def Type_Laws "HOL-Library.Multiset"
begin

text \<open>
  What \<open>ModelBuilder::freeze\<close> establishes: a declarative validity of the declared parts that the checks
  decide, the canonical form of the frozen model, lookups by key and by name, and the idempotence of
  freezing: a builder that re-declares the parts of a frozen model freezes to the same model.
\<close>

section \<open>Loops that collect keys\<close>

lemma check_new_Inr [result_simps]: "check_new S k e = Inr S' \<longleftrightarrow> k \<notin> S \<and> S' = insert k S"
  by (auto simp: check_new_def)

lemma collect_loop:
  assumes "\<And>x S S'. f x S = Inr S' \<longleftrightarrow> P x \<and> key x \<notin> S \<and> S' = insert (key x) S"
  shows "try_each f xs S = Inr S' \<longleftrightarrow>
    (\<forall>x \<in> set xs. P x) \<and> distinct (map key xs) \<and> key ` set xs \<inter> S = {} \<and> S' = S \<union> key ` set xs"
proof (induction xs arbitrary: S)
  case Nil
  then show ?case by auto
next
  case (Cons x xs)
  then show ?case by (auto simp: and_then_Inr assms)
qed

lemma collect_pair_loop:
  assumes "\<And>x S S'. f x S = Inr S' \<longleftrightarrow>
      P x \<and> k1 x \<notin> fst S \<and> k2 x \<notin> snd S \<and> S' = (insert (k1 x) (fst S), insert (k2 x) (snd S))"
  shows "try_each f xs S = Inr S' \<longleftrightarrow>
    (\<forall>x \<in> set xs. P x) \<and> distinct (map k1 xs) \<and> distinct (map k2 xs) \<and>
    k1 ` set xs \<inter> fst S = {} \<and> k2 ` set xs \<inter> snd S = {} \<and>
    S' = (fst S \<union> k1 ` set xs, snd S \<union> k2 ` set xs)"
proof (induction xs arbitrary: S)
  case Nil
  then show ?case by (cases S; cases S') auto
next
  case (Cons x xs)
  then show ?case by (cases S; cases S') (auto simp: and_then_Inr assms)
qed

section \<open>Declarative validity\<close>

definition fields_valid :: "definition_limits \<Rightarrow> field_spec list \<Rightarrow> bool" where
  "fields_valid limits fs \<longleftrightarrow>
     (\<forall>f \<in> set fs. name_ok limits (fs_key f) \<and> name_ok limits (fs_name f) \<and>
        validate_type (fs_ty f) limits = Inr ()) \<and>
     distinct (map fs_key fs) \<and> distinct (map fs_name fs) \<and>
     validate_type_universe (map fs_ty fs) = Inr ()"

definition tuple_valid :: "field_spec list \<Rightarrow> string list \<Rightarrow> bool" where
  "tuple_valid fs ks \<longleftrightarrow> ks \<noteq> [] \<and> distinct ks \<and> set ks \<subseteq> fs_key ` set fs"

definition identity_valid :: "field_spec list \<Rightarrow> string list option \<Rightarrow> bool" where
  "identity_valid fs identity \<longleftrightarrow>
     (case identity of
        None \<Rightarrow> True
      | Some ks \<Rightarrow> tuple_valid fs ks \<and>
          (\<forall>f \<in> set fs. fs_key f \<in> set ks \<longrightarrow>
             fs_presence f = Required \<and> ty_nullability (fs_ty f) = NonNull \<and> stable_key f))"

definition unique_valid :: "field_spec list \<Rightarrow> string list \<Rightarrow> bool" where
  "unique_valid fs ks \<longleftrightarrow> tuple_valid fs ks \<and> (\<forall>f \<in> set fs. fs_key f \<in> set ks \<longrightarrow> stable_key f)"

definition relation_valid :: "definition_limits \<Rightarrow> field_spec list \<Rightarrow> relation_def \<Rightarrow> bool" where
  "relation_valid limits fs r \<longleftrightarrow>
     name_ok limits (rel_key r) \<and> name_ok limits (rel_name r) \<and> name_ok limits (rel_target_model r) \<and>
     rel_fields r \<noteq> [] \<and>
     (\<forall>p \<in> set (rel_fields r). name_ok limits (rel_target p) \<and> rel_source p \<in> fs_key ` set fs) \<and>
     distinct (map rel_source (rel_fields r)) \<and> distinct (map rel_target (rel_fields r))"

definition relations_valid :: "definition_limits \<Rightarrow> field_spec list \<Rightarrow> relation_def list \<Rightarrow> bool" where
  "relations_valid limits fs rs \<longleftrightarrow>
     (\<forall>r \<in> set rs. relation_valid limits fs r) \<and> distinct (map rel_key rs) \<and> distinct (map rel_name rs)"

definition reference_valid :: "definition_limits \<Rightarrow> field_spec list \<Rightarrow> reference_def \<Rightarrow> bool" where
  "reference_valid limits fs r \<longleftrightarrow>
     name_ok limits (ref_target_model r) \<and> length (ref_source_fields r) = length (ref_target_fields r) \<and>
     tuple_valid fs (ref_source_fields r) \<and>
     (\<forall>k \<in> set (ref_target_fields r). name_ok limits k) \<and> distinct (ref_target_fields r)"

section \<open>The checks decide validity\<close>

lemma validate_field_spec_Inr:
  "validate_field_spec limits f S = Inr S' \<longleftrightarrow>
    (name_ok limits (fs_key f) \<and> name_ok limits (fs_name f) \<and> validate_type (fs_ty f) limits = Inr ()) \<and>
    fs_key f \<notin> fst S \<and> fs_name f \<notin> snd S \<and> S' = (insert (fs_key f) (fst S), insert (fs_name f) (snd S))"
  by (auto simp: validate_field_spec_def result_simps)

lemma validate_fields_ok: "validate_fields fs limits = Inr () \<longleftrightarrow> fields_valid limits fs"
  using collect_pair_loop [where f = "validate_field_spec limits", OF validate_field_spec_Inr, of fs "({}, {})"]
  by (auto simp: validate_fields_def and_then_Inr fields_valid_def)

abbreviation fields_index :: "field_spec list \<Rightarrow> fields_by_key" where
  "fields_index fs \<equiv> btree_of_list (map (\<lambda>f. (fs_key f, f)) fs)"

lemma map_of_index_eq:
  assumes "distinct (map fs_key fs)"
  shows "map_of (fields_index fs) = map_of (map (\<lambda>f. (fs_key f, f)) fs)"
proof -
  have "distinct (map fst (map (\<lambda>f. (fs_key f, f)) fs))" using assms by (simp add: comp_def)
  then show ?thesis unfolding map_of_btree_of_list
    by (subst map_of_inject_set) (simp_all add: rev_map [symmetric])
qed

lemma index_None: "distinct (map fs_key fs) \<Longrightarrow> map_of (fields_index fs) k = None \<longleftrightarrow> k \<notin> fs_key ` set fs"
  by (simp add: map_of_index_eq map_of_eq_None_iff image_image)

lemma index_Some:
  "distinct (map fs_key fs) \<Longrightarrow> map_of (fields_index fs) k = Some f \<longleftrightarrow> f \<in> set fs \<and> fs_key f = k"
  by (subst map_of_index_eq) (auto simp: map_of_eq_Some_iff comp_def)

lemma index_the: "distinct (map fs_key fs) \<Longrightarrow> f \<in> set fs \<Longrightarrow> the (map_of (fields_index fs) (fs_key f)) = f"
  using index_Some [of fs "fs_key f" f] by simp

lemma validate_field_tuple_ok:
  assumes "distinct (map fs_key fs)"
  shows "validate_field_tuple cd ks (fields_index fs) = Inr () \<longleftrightarrow> tuple_valid fs ks"
proof -
  have "try_each (\<lambda>k seen.
      if map_of (fields_index fs) k = None then Inl (diagnostic_error cd (''unknown field `'' @ k @ ''`''))
      else check_new seen k (diagnostic_error cd (''duplicate field `'' @ k @ ''` in constraint''))) ks {} = Inr S'
    \<longleftrightarrow> (\<forall>k \<in> set ks. k \<in> fs_key ` set fs) \<and> distinct (map id ks) \<and> id ` set ks \<inter> {} = {} \<and> S' = {} \<union> id ` set ks"
    for S'
    by (rule collect_loop) (auto simp: index_None [OF assms] result_simps)
  then show ?thesis by (auto simp: validate_field_tuple_def and_then_Inr tuple_valid_def)
qed

lemma ball_tuple:
  assumes "distinct (map fs_key fs)" and "set ks \<subseteq> fs_key ` set fs"
  shows "(\<forall>k \<in> set ks. P (the (map_of (fields_index fs) k))) \<longleftrightarrow> (\<forall>f \<in> set fs. fs_key f \<in> set ks \<longrightarrow> P f)"
proof
  assume "\<forall>k \<in> set ks. P (the (map_of (fields_index fs) k))"
  then show "\<forall>f \<in> set fs. fs_key f \<in> set ks \<longrightarrow> P f" using index_the [OF assms(1)] by fastforce
next
  assume r: "\<forall>f \<in> set fs. fs_key f \<in> set ks \<longrightarrow> P f"
  show "\<forall>k \<in> set ks. P (the (map_of (fields_index fs) k))"
  proof
    fix k assume k: "k \<in> set ks"
    then obtain f where "f \<in> set fs" "k = fs_key f" using assms(2) by auto
    then show "P (the (map_of (fields_index fs) k))" using r k index_the [OF assms(1)] by simp
  qed
qed

definition identity_field_ok :: "field_spec \<Rightarrow> bool" where
  "identity_field_ok f \<longleftrightarrow>
     fs_presence f = Required \<and> ty_nullability (fs_ty f) = NonNull \<and> stable_key f"

lemma validate_identity_field_ok:
  "validate_identity_field by_key k = Inr u \<longleftrightarrow> identity_field_ok (the (map_of by_key k))"
  by (auto simp: validate_identity_field_def Let_def identity_field_ok_def)

lemma validate_unique_field_ok:
  "validate_unique_field by_key k = Inr u \<longleftrightarrow> stable_key (the (map_of by_key k))"
  by (auto simp: validate_unique_field_def)

lemma tuple_check_ok:
  assumes d: "distinct (map fs_key fs)" and f: "\<And>k. f k = Inr () \<longleftrightarrow> P (the (map_of (fields_index fs) k))"
  shows "and_then (validate_field_tuple cd ks (fields_index fs)) (\<lambda>_. try_all f ks) = Inr () \<longleftrightarrow>
    tuple_valid fs ks \<and> (\<forall>f \<in> set fs. fs_key f \<in> set ks \<longrightarrow> P f)"
  using ball_tuple [OF d, of ks P] validate_field_tuple_ok [OF d, of cd ks]
  by (auto simp: and_then_Inr try_all_ok f tuple_valid_def)

lemma validate_constraints_ok:
  assumes d: "distinct (map fs_key fs)"
  shows "validate_constraints identity unique (fields_index fs) = Inr () \<longleftrightarrow>
    identity_valid fs identity \<and> (\<forall>ks \<in> set unique. unique_valid fs ks)"
proof -
  have "identity_valid fs identity \<longleftrightarrow> (case identity of None \<Rightarrow> Inr () | Some ks \<Rightarrow>
      and_then (validate_field_tuple ''CONSTRAINT-001'' ks (fields_index fs)) (\<lambda>_.
        try_all (validate_identity_field (fields_index fs)) ks)) = Inr ()"
    unfolding identity_valid_def identity_field_ok_def [symmetric]
    by (cases identity) (simp_all add: tuple_check_ok [where P = identity_field_ok, OF d validate_identity_field_ok])
  moreover have "(\<forall>ks \<in> set unique. unique_valid fs ks) \<longleftrightarrow> try_all (\<lambda>ks.
      and_then (validate_field_tuple ''CONSTRAINT-003'' ks (fields_index fs)) (\<lambda>_.
        try_all (validate_unique_field (fields_index fs)) ks)) unique = Inr ()"
    by (subst try_all_ok)
      (simp only: tuple_check_ok [where P = stable_key, OF d validate_unique_field_ok], simp add: unique_valid_def Ball_def)
  ultimately show ?thesis
    unfolding validate_constraints_def by (simp add: and_then_Inr del: try_all.simps)
qed

lemma validate_relation_pair_Inr:
  assumes "distinct (map fs_key fs)"
  shows "validate_relation_pair limits (fields_index fs) p S = Inr S' \<longleftrightarrow>
    (name_ok limits (rel_target p) \<and> rel_source p \<in> fs_key ` set fs) \<and>
    rel_source p \<notin> fst S \<and> rel_target p \<notin> snd S \<and>
    S' = (insert (rel_source p) (fst S), insert (rel_target p) (snd S))"
  using index_None [OF assms, of "rel_source p"]
  by (auto simp: validate_relation_pair_def result_simps)

lemma validate_relation_Inr:
  assumes d: "distinct (map fs_key fs)"
  shows "validate_relation limits (fields_index fs) r S = Inr S' \<longleftrightarrow>
    relation_valid limits fs r \<and> rel_key r \<notin> fst S \<and> rel_name r \<notin> snd S \<and>
    S' = (insert (rel_key r) (fst S), insert (rel_name r) (snd S))"
  unfolding validate_relation_def
  using collect_pair_loop [where f = "validate_relation_pair limits (fields_index fs)",
      OF validate_relation_pair_Inr [OF d], of "rel_fields r" "({}, {})"]
  by (auto simp: result_simps relation_valid_def)

lemma validate_relations_ok:
  assumes d: "distinct (map fs_key fs)"
  shows "validate_relations limits (fields_index fs) rs = Inr () \<longleftrightarrow> relations_valid limits fs rs"
  unfolding validate_relations_def relations_valid_def
  using collect_pair_loop [where f = "validate_relation limits (fields_index fs)",
      OF validate_relation_Inr [OF d], of rs "({}, {})"]
  by (auto simp: and_then_Inr)

lemma validate_target_key_Inr:
  "validate_target_key limits k S = Inr S' \<longleftrightarrow> name_ok limits k \<and> id k \<notin> S \<and> S' = insert (id k) S"
  by (auto simp: validate_target_key_def result_simps)

lemma target_key_loop:
  "try_each (validate_target_key limits) ks {} = Inr S' \<longleftrightarrow>
    (\<forall>k \<in> set ks. name_ok limits k) \<and> distinct ks \<and> S' = set ks"
  using collect_loop [where f = "validate_target_key limits", OF validate_target_key_Inr, of ks "{}" S'] by auto

lemma validate_references_ok:
  assumes d: "distinct (map fs_key fs)"
  shows "validate_references limits (fields_index fs) rs = Inr () \<longleftrightarrow> (\<forall>r \<in> set rs. reference_valid limits fs r)"
proof -
  have "validate_reference limits (fields_index fs) r = Inr () \<longleftrightarrow> reference_valid limits fs r" for r
    unfolding validate_reference_def reference_valid_def
    by (auto simp: result_simps validate_field_tuple_ok [OF d] target_key_loop tuple_valid_def)
  then show ?thesis by (simp add: validate_references_def try_all_ok)
qed

lemma model_freeze_Inr:
  "model_freeze b = Inr m \<longleftrightarrow>
    name_ok (mb_limits b) (mb_key b) \<and> name_ok (mb_limits b) (mb_name b) \<and> check_counts b = Inr () \<and>
    fields_valid (mb_limits b) (mb_fields b) \<and> identity_valid (mb_fields b) (mb_identity b) \<and>
    (\<forall>ks \<in> set (mb_unique b). unique_valid (mb_fields b) ks) \<and>
    relations_valid (mb_limits b) (mb_fields b) (mb_relations b) \<and>
    (\<forall>r \<in> set (mb_references b). reference_valid (mb_limits b) (mb_fields b) r) \<and>
    into_model_def (builder_canonicalize b) = Inr m"
proof (cases "fields_valid (mb_limits b) (mb_fields b)")
  case True
  then have d: "distinct (map fs_key (mb_fields b))" by (simp add: fields_valid_def)
  show ?thesis
    unfolding model_freeze_def Let_def and_then_Inr
    by (auto simp: result_simps validate_fields_ok validate_constraints_ok [OF d]
        validate_relations_ok [OF d] validate_references_ok [OF d])
next
  case False
  then show ?thesis
    by (auto simp: model_freeze_def Let_def and_then_Inr validate_fields_ok)
qed


section \<open>The frozen model\<close>

definition field_of :: "nat \<times> field_spec \<Rightarrow> field_def" where
  "field_of p = \<lparr>fd_key = fs_key (snd p), fd_name = fs_name (snd p), fd_slot = of_nat (fst p),
     fd_ty = fs_ty (snd p), fd_presence = fs_presence (snd p)\<rparr>"

definition spec_of :: "field_def \<Rightarrow> field_spec" where
  "spec_of f = \<lparr>fs_key = fd_key f, fs_name = fd_name f, fs_ty = fd_ty f, fs_presence = fd_presence f\<rparr>"

lemma field_of_simps [simp]:
  "fd_key (field_of p) = fs_key (snd p)" "fd_name (field_of p) = fs_name (snd p)"
  "fd_slot (field_of p) = of_nat (fst p)" "fd_ty (field_of p) = fs_ty (snd p)"
  "fd_presence (field_of p) = fs_presence (snd p)" "spec_of (field_of p) = snd p"
  by (simp_all add: field_of_def spec_of_def)

lemma spec_of_simps [simp]:
  "fs_key (spec_of f) = fd_key f" "fs_name (spec_of f) = fd_name f" "fs_ty (spec_of f) = fd_ty f"
  "fs_presence (spec_of f) = fd_presence f"
  by (simp_all add: spec_of_def)

lemma assign_slots_Inr:
  "assign_slots i fs = Inr ds \<longleftrightarrow> (fs = [] \<or> i + length fs \<le> 2 ^ 32) \<and> ds = map field_of (enumerate i fs)"
proof (induction fs arbitrary: i ds)
  case Nil
  then show ?case by auto
next
  case (Cons f fs)
  have step: "assign_slots i (f # fs) = Inr ds \<longleftrightarrow>
      i < 2 ^ 32 \<and> (\<exists>ds'. assign_slots (Suc i) fs = Inr ds' \<and> ds = field_of (i, f) # ds')"
    by (auto simp: and_then_Inr field_of_def)
  show ?case unfolding step Cons.IH by (cases fs) auto
qed

lemma map_snd_enum [simp]: "map (\<lambda>p. g (snd p)) (enumerate n xs) = map g xs"
  by (induction xs arbitrary: n) auto

lemma map_snd_field_of: "map spec_of (map field_of (enumerate i fs)) = fs"
  by (simp add: comp_def)

lemma sorted_remdups_adj_strict: "sorted xs \<Longrightarrow> sorted_wrt (<) (remdups_adj xs)" for xs :: "'a::linorder list"
  by (induction xs rule: remdups_adj.induct) (auto simp: le_neq_trans order_le_less_trans)

lemma reference_sort_key_inj: "inj reference_sort_key"
  by (rule injI) (simp add: reference_sort_key_def)

lemma sorted_references:
  "sorted_wrt (<) (map reference_sort_key (remdups_adj (sort_key reference_sort_key rs)))"
  using sorted_remdups_adj_strict [of "map reference_sort_key (sort_key reference_sort_key rs)"]
  by (simp add: remdups_adj_map_injective [OF reference_sort_key_inj])

text \<open>The canonical form of a frozen model.\<close>

definition model_canonical :: "model_def \<Rightarrow> bool" where
  "model_canonical m \<longleftrightarrow>
     sorted_wrt (<) (map fd_key (md_fields m)) \<and>
     length (md_fields m) \<le> 2 ^ 32 \<and>
     md_fields m = map field_of (enumerate 0 (map spec_of (md_fields m))) \<and>
     m = model_from_parts (md_key m) (md_name m) (md_fields m) (md_identity m) (md_unique m)
           (md_relations m) (md_references m) \<and>
     (\<forall>ks. md_identity m = Some ks \<longrightarrow> sorted ks) \<and>
     (\<forall>ks \<in> set (md_unique m). sorted ks) \<and> sorted_wrt (<) (md_unique m) \<and>
     sorted_wrt (<) (map rel_key (md_relations m)) \<and>
     sorted_wrt (<) (map reference_sort_key (md_references m))"

definition model_valid :: "definition_limits \<Rightarrow> model_def \<Rightarrow> bool" where
  "model_valid limits m \<longleftrightarrow>
     (let fs = map spec_of (md_fields m)
      in name_ok limits (md_key m) \<and> name_ok limits (md_name m) \<and> fields_valid limits fs \<and>
         identity_valid fs (md_identity m) \<and> (\<forall>ks \<in> set (md_unique m). unique_valid fs ks) \<and>
         relations_valid limits fs (md_relations m) \<and>
         (\<forall>r \<in> set (md_references m). reference_valid limits fs r))"

text \<open>Validity does not depend on the order of the parts.\<close>

lemma distinct_map_mset: "mset xs = mset ys \<Longrightarrow> distinct (map f xs) \<longleftrightarrow> distinct (map f ys)"
  by (metis mset_eq_imp_distinct_iff mset_map)

lemma universe_set:
  "set xs = set ys \<Longrightarrow> validate_type_universe xs = Inr () \<longleftrightarrow> validate_type_universe ys = Inr ()"
  by (simp add: validate_type_universe_ok)

lemma fields_valid_perm: "mset fs = mset gs \<Longrightarrow> fields_valid limits fs \<longleftrightarrow> fields_valid limits gs"
  unfolding fields_valid_def
  using universe_set [of "map fs_ty fs" "map fs_ty gs"] distinct_map_mset [of fs gs fs_key]
    distinct_map_mset [of fs gs fs_name] mset_eq_setD [of fs gs]
  by simp

lemma tuple_valid_set: "set fs = set gs \<Longrightarrow> mset ks = mset ls \<Longrightarrow> tuple_valid fs ks \<longleftrightarrow> tuple_valid gs ls"
  unfolding tuple_valid_def by (metis mset_eq_imp_distinct_iff mset_eq_setD mset_zero_iff)

lemma identity_valid_set:
  "set fs = set gs \<Longrightarrow> identity_valid fs (Some ks) \<longleftrightarrow> identity_valid gs (Some (sort ks))"
  using tuple_valid_set [of fs gs ks "sort ks"] by (simp add: identity_valid_def)

lemma unique_valid_set: "set fs = set gs \<Longrightarrow> mset ks = mset ls \<Longrightarrow> unique_valid fs ks \<longleftrightarrow> unique_valid gs ls"
  using tuple_valid_set [of fs gs ks ls] mset_eq_setD [of ks ls] by (simp add: unique_valid_def)

lemma relations_valid_perm:
  "set fs = set gs \<Longrightarrow> mset rs = mset ss \<Longrightarrow> relations_valid limits fs rs \<longleftrightarrow> relations_valid limits gs ss"
  unfolding relations_valid_def relation_valid_def
  using distinct_map_mset [of rs ss rel_key] distinct_map_mset [of rs ss rel_name] mset_eq_setD [of rs ss]
  by simp

lemma reference_valid_set: "set fs = set gs \<Longrightarrow> reference_valid limits fs r \<longleftrightarrow> reference_valid limits gs r"
  using tuple_valid_set [of fs gs "ref_source_fields r"] by (simp add: reference_valid_def)

lemma freeze_establishes:
  assumes "model_freeze b = Inr m"
  shows "model_canonical m" and "model_valid (mb_limits b) m"
proof -
  let ?c = "builder_canonicalize b"
  let ?fs = "sort_key fs_key (mb_fields b)"
  note v = assms [unfolded model_freeze_Inr]
  then have parts: "into_model_def ?c = Inr m" and d: "distinct (map fs_key (mb_fields b))"
    by (auto simp: fields_valid_def)
  then have len: "length ?fs \<le> 2 ^ 32" and
    m: "m = model_from_parts (mb_key b) (mb_name b) (map field_of (enumerate 0 ?fs))
      (map_option sort (mb_identity b)) (map sort (remdups_adj (sort (map sort (mb_unique b)))))
      (sort_key rel_key (mb_relations b)) (remdups_adj (sort_key reference_sort_key (mb_references b)))"
    by (auto simp: into_model_def_def and_then_Inr assign_slots_Inr builder_canonicalize_def
        identity_new_def [abs_def] unique_new_def [abs_def] dest: arg_cong [where f = length])
  have us: "map sort (remdups_adj (sort (map sort (mb_unique b)))) = remdups_adj (sort (map sort (mb_unique b)))"
    by (rule map_idI) (auto simp: sorted_sort_id)
  note sel = m [unfolded us model_from_parts_def]
  have fields: "map spec_of (md_fields m) = ?fs" by (simp add: sel comp_def)
  have d': "distinct (map fs_key ?fs)" using d distinct_map_mset [of ?fs "mb_fields b" fs_key] by simp
  then have "sorted_wrt (<) (map fs_key ?fs)" by (simp add: strict_sorted_iff)
  moreover have "map fd_key (md_fields m) = map fs_key ?fs" by (simp add: sel comp_def)
  moreover have "distinct (map rel_key (sort_key rel_key (mb_relations b)))"
    using v distinct_map_mset [of "sort_key rel_key (mb_relations b)" "mb_relations b" rel_key]
    by (simp add: relations_valid_def)
  then have "sorted_wrt (<) (map rel_key (md_relations m))" by (simp add: sel strict_sorted_iff)
  moreover have "sorted_wrt (<) (md_unique m)" by (simp add: sel sorted_remdups_adj_strict)
  moreover have "sorted_wrt (<) (map reference_sort_key (md_references m))" by (simp add: sel sorted_references)
  ultimately show "model_canonical m"
    unfolding model_canonical_def fields
    using len by (auto simp: sel model_from_parts_def)
  have set: "set ?fs = set (mb_fields b)" by simp
  have "unique_valid ?fs ks" if "ks \<in> set (md_unique m)" for ks
  proof -
    from that obtain ls where ls: "ls \<in> set (mb_unique b)" "ks = sort ls" by (auto simp: sel)
    with v have "unique_valid (mb_fields b) ls" by blast
    then show ?thesis using unique_valid_set [OF set, of ks ls] ls by simp
  qed
  moreover have "identity_valid ?fs (md_identity m)"
    using v identity_valid_set [of "mb_fields b" ?fs] by (cases "mb_identity b") (auto simp: sel identity_valid_def)
  moreover have "relations_valid (mb_limits b) ?fs (md_relations m)"
    using v relations_valid_perm [OF set, of "md_relations m" "mb_relations b"] by (simp add: sel)
  moreover have "fields_valid (mb_limits b) ?fs"
    using v fields_valid_perm [of ?fs "mb_fields b"] by simp
  moreover have "\<forall>r \<in> set (md_references m). reference_valid (mb_limits b) ?fs r"
    using v reference_valid_set [OF set] by (simp add: sel)
  ultimately show "model_valid (mb_limits b) m"
    unfolding model_valid_def Let_def fields using v by (simp add: sel)
qed


section \<open>Freezing is idempotent\<close>

text \<open>The builder that declares the parts of a model again.\<close>

definition rebuild :: "definition_limits \<Rightarrow> model_def \<Rightarrow> model_builder" where
  "rebuild limits m =
     \<lparr>mb_key = md_key m, mb_name = md_name m, mb_fields = map spec_of (md_fields m),
      mb_identity = md_identity m, mb_identity_redeclared = False, mb_unique = md_unique m,
      mb_relations = md_relations m, mb_references = md_references m, mb_limits = limits\<rparr>"

lemma foldl_saturating:
  assumes "a \<le> usize_max"
  shows "foldl (\<lambda>sum f. saturating_add_usize sum (g f)) a fs = min (a + sum_list (map g fs)) usize_max"
  using assms
proof (induction fs arbitrary: a)
  case Nil
  then show ?case by simp
next
  case (Cons f fs)
  have "saturating_add_usize a (g f) \<le> usize_max" by (simp add: saturating_add_usize_def)
  from Cons.IH [OF this] show ?case by (auto simp: saturating_add_usize_def min_def)
qed

definition model_type_nodes :: "field_spec list \<Rightarrow> nat" where
  "model_type_nodes fs = sum_list (map (\<lambda>f. type_node_count (fs_ty f)) fs)"

lemma check_counts_ok:
  "check_counts b = Inr () \<longleftrightarrow>
    length (mb_fields b) \<le> max_fields (mb_limits b) \<and>
    length (mb_relations b) \<le> max_relations (mb_limits b) \<and>
    length (mb_unique b) + length (mb_references b) + (if mb_identity b \<noteq> None then 1 else 0) \<le>
      max_constraints (mb_limits b) \<and>
    min (model_type_nodes (mb_fields b)) usize_max \<le> max_type_nodes (mb_limits b) \<and>
    \<not> mb_identity_redeclared b"
  by (auto simp: check_counts_def Let_def model_type_nodes_def
      foldl_saturating [of 0 "\<lambda>f. type_node_count (fs_ty f)"] not_less)

lemma strict_sorted_distinct: "sorted_wrt (<) xs \<Longrightarrow> sorted xs \<and> distinct xs" for xs :: "'a::linorder list"
  by (simp add: strict_sorted_iff)

lemma sort_key_sorted: "sorted_wrt (<) (map f xs) \<Longrightarrow> sort_key f xs = xs"
  using strict_sorted_distinct [of "map f xs"] by (simp add: sort_key_id_if_sorted)

lemma rebuild_canonical:
  assumes "model_canonical m"
  shows "builder_canonicalize (rebuild limits m) = rebuild limits m"
    and "into_model_def (rebuild limits m) = Inr m"
proof -
  note c = assms [unfolded model_canonical_def]
  have us: "map sort (md_unique m) = md_unique m"
    using c by (intro map_idI) (auto simp: sorted_sort_id)
  have refs: "remdups_adj (sort_key reference_sort_key (md_references m)) = md_references m"
    using c strict_sorted_distinct [of "map reference_sort_key (md_references m)"]
    by (simp add: sort_key_sorted remdups_adj_distinct distinct_map)
  have "sort_key fs_key (map spec_of (md_fields m)) = map spec_of (md_fields m)"
    using c by (intro sort_key_sorted) (simp add: comp_def)
  then show "builder_canonicalize (rebuild limits m) = rebuild limits m"
    using c us refs strict_sorted_distinct [of "md_unique m"]
    by (simp add: builder_canonicalize_def rebuild_def sort_key_sorted sorted_sort_id remdups_adj_distinct)
  have uu: "map unique_new (md_unique m) = md_unique m"
    using us by (simp add: unique_new_def [abs_def])
  have ii: "map_option identity_new (md_identity m) = md_identity m"
    using c by (cases "md_identity m") (auto simp: identity_new_def sorted_sort_id)
  have "assign_slots 0 (map spec_of (md_fields m)) = Inr (md_fields m)"
    using c by (auto simp: assign_slots_Inr)
  moreover have "m = model_from_parts (md_key m) (md_name m) (md_fields m) (md_identity m) (md_unique m)
      (md_relations m) (md_references m)"
    using c by blast
  ultimately show "into_model_def (rebuild limits m) = Inr m"
    unfolding into_model_def_def by (simp add: rebuild_def uu ii)
qed

lemma freeze_rebuild:
  assumes "model_canonical m" and "model_valid limits m" and "check_counts (rebuild limits m) = Inr ()"
  shows "model_freeze (rebuild limits m) = Inr m"
  using assms rebuild_canonical [OF assms(1), of limits]
  by (simp add: model_freeze_Inr model_valid_def Let_def) (simp add: rebuild_def)

lemma freeze_idempotent:
  assumes "model_freeze b = Inr m"
  shows "model_freeze (rebuild (mb_limits b) m) = Inr m"
proof (rule freeze_rebuild [OF freeze_establishes [OF assms]])
  note v = assms [unfolded model_freeze_Inr]
  from v have "into_model_def (builder_canonicalize b) = Inr m" by blast
  then have fs: "map spec_of (md_fields m) = sort_key fs_key (mb_fields b)"
    and u: "md_unique m = map sort (remdups_adj (sort (map sort (mb_unique b))))"
    and r: "md_relations m = sort_key rel_key (mb_relations b)"
    and f: "md_references m = remdups_adj (sort_key reference_sort_key (mb_references b))"
    and i: "md_identity m = None \<longleftrightarrow> mb_identity b = None"
    by (auto simp: into_model_def_def and_then_Inr assign_slots_Inr builder_canonicalize_def comp_def
        model_from_parts_def unique_new_def [abs_def])
  have "length (md_unique m) \<le> length (mb_unique b)"
    unfolding u by simp (metis length_map length_sort remdups_adj_length)
  moreover have "length (md_references m) \<le> length (mb_references b)"
    unfolding f by (metis length_sort remdups_adj_length)
  moreover have "model_type_nodes (map spec_of (md_fields m)) = model_type_nodes (mb_fields b)"
    unfolding fs model_type_nodes_def by (simp flip: sum_mset_sum_list)
  moreover have "length (md_fields m) = length (mb_fields b)" "length (md_relations m) = length (mb_relations b)"
    using arg_cong [OF fs, of length] r by simp_all
  moreover have "check_counts b = Inr ()" using v by blast
  ultimately show "check_counts (rebuild (mb_limits b) m) = Inr ()"
    using i by (auto simp: check_counts_ok rebuild_def split: if_splits)
qed

section \<open>Lookups\<close>

lemma lookup_index:
  assumes "distinct (map g fs)"
  shows "map_option (\<lambda>i. fs ! i) (map_of (btree_of_list (map (\<lambda>(i, f). (g f, i)) (enumerate 0 fs))) k) =
      Some f \<longleftrightarrow> f \<in> set fs \<and> g f = k"
proof -
  let ?kvs = "map (\<lambda>(i, f). (g f, i)) (enumerate 0 fs)"
  have fst: "map fst ?kvs = map g fs"
    by (simp add: comp_def split_def)
  have "map_of (btree_of_list ?kvs) k = Some i \<longleftrightarrow> i < length fs \<and> g (fs ! i) = k" for i
  proof -
    have "map_of (btree_of_list ?kvs) k = Some i \<longleftrightarrow> (k, i) \<in> set ?kvs"
      unfolding map_of_btree_of_list
      using assms fst by (subst map_of_eq_Some_iff) (simp_all add: rev_map [symmetric])
    also have "\<dots> \<longleftrightarrow> i < length fs \<and> g (fs ! i) = k"
      by (auto simp: in_set_enumerate_eq)
    finally show ?thesis .
  qed
  then show ?thesis unfolding map_option_eq_Some in_set_conv_nth by blast
qed

lemma model_field_lookup:
  assumes "model_canonical m"
  shows "model_field m k = Some f \<longleftrightarrow> f \<in> set (md_fields m) \<and> fd_key f = k"
proof -
  note c = assms [unfolded model_canonical_def]
  then have "md_fields_by_key m = btree_of_list (map (\<lambda>(i, f). (fd_key f, i)) (enumerate 0 (md_fields m)))"
    by (metis model_def.select_convs(4) model_from_parts_def)
  moreover have "distinct (map fd_key (md_fields m))" using c strict_sorted_distinct by blast
  ultimately show ?thesis unfolding model_field_def by (simp only: lookup_index)
qed

lemma model_field_named_lookup:
  assumes "model_canonical m" and "model_valid limits m"
  shows "model_field_named m n = Some f \<longleftrightarrow> f \<in> set (md_fields m) \<and> fd_name f = n"
proof -
  note c = assms(1) [unfolded model_canonical_def]
  then have "md_fields_by_name m = btree_of_list (map (\<lambda>(i, f). (fd_name f, i)) (enumerate 0 (md_fields m)))"
    by (metis model_def.select_convs(5) model_from_parts_def)
  moreover have "distinct (map fd_name (md_fields m))"
    using assms(2) by (simp add: model_valid_def Let_def fields_valid_def comp_def)
  ultimately show ?thesis unfolding model_field_named_def by (simp only: lookup_index)
qed

end
