(* ===== verification/Fingerprint.thy ===== *)
theory Fingerprint
  imports Value_Validate Model_Laws
begin

text \<open>
  \<open>fingerprint/mod.rs\<close> and \<open>fingerprint_model\<close> of \<open>model/def.rs\<close>: the canonical byte streams that are
  hashed into semantic fingerprints. A \<open>CanonicalHasher\<close> is the stream it has been fed; the digest
  (\<open>blake3\<close>, a third-party crate) is the parameter \<open>B\<close> that \<open>finish\<close> applies to the stream.
\<close>

section \<open>The hasher\<close>

type_synonym hasher = "byte list"
type_synonym digest = "byte list \<Rightarrow> byte list"

definition u32_le :: "u32 \<Rightarrow> byte list" where "u32_le w = rev (u32_be w)"
definition u64_le :: "u64 \<Rightarrow> byte list" where "u64_le w = rev (u64_be w)"
definition u128_le :: "u128 \<Rightarrow> byte list" where "u128_le w = rev (u128_be w)"

definition hasher_new :: "string \<Rightarrow> hasher" where
  "hasher_new domain = as_bytes ''DOL'' @ [0] @ u64_le (of_nat (length domain)) @ as_bytes domain"

definition h_bytes :: "byte list \<Rightarrow> hasher \<Rightarrow> hasher" where
  "h_bytes v h = h @ u64_le (of_nat (length v)) @ v"
definition h_str :: "string \<Rightarrow> hasher \<Rightarrow> hasher" where "h_str s = h_bytes (as_bytes s)"
definition h_u8 :: "byte \<Rightarrow> hasher \<Rightarrow> hasher" where "h_u8 v h = h @ [v]"
definition h_u32 :: "u32 \<Rightarrow> hasher \<Rightarrow> hasher" where "h_u32 v h = h @ u32_le v"
definition h_u64 :: "u64 \<Rightarrow> hasher \<Rightarrow> hasher" where "h_u64 v h = h @ u64_le v"

definition hasher_finish :: "digest \<Rightarrow> hasher \<Rightarrow> byte list" where
  "hasher_finish B h = B h"

text \<open>Updates in program order, and the loop that follows the length of a sequence.\<close>

fun updates :: "(hasher \<Rightarrow> hasher) list \<Rightarrow> hasher \<Rightarrow> hasher" where
  "updates [] h = h"
| "updates (u # us) h = updates us (u h)"

declare updates.simps [simp del]

definition h_each :: "(hasher \<Rightarrow> hasher) list \<Rightarrow> hasher \<Rightarrow> hasher" where
  "h_each us = updates (h_u64 (of_nat (length us)) # us)"

definition u8_from_bool :: "bool \<Rightarrow> byte" where "u8_from_bool b = (if b then 1 else 0)"

section \<open>Type definitions\<close>

definition hash_properties :: "type_properties \<Rightarrow> hasher \<Rightarrow> hasher" where
  "hash_properties p = updates
     [h_u8 (u8_from_bool (equality p)), h_u8 (u8_from_bool (ordering_p p)), h_u8 (u8_from_bool (keyable p)),
      h_u8 (u8_from_bool (numeric p)), h_u8 (u8_from_bool (integral p)), h_u8 (u8_from_bool (exact_numeric p)),
      h_u8 (u8_from_bool (temporal p)), h_u8 (u8_from_bool (collection p))]"

fun hash_parameter_value :: "type_parameter \<Rightarrow> hasher \<Rightarrow> hasher" where
  "hash_parameter_value (TPBool b) = updates [h_u8 0, h_u8 (u8_from_bool b)]"
| "hash_parameter_value (TPInt i) = updates [h_u8 1, h_bytes (u64_le i)]"
| "hash_parameter_value (TPUInt n) = updates [h_u8 2, h_u64 n]"
| "hash_parameter_value (TPString s) = updates [h_u8 3, h_str s]"

definition hash_parameter :: "string \<times> type_parameter \<Rightarrow> hasher \<Rightarrow> hasher" where
  "hash_parameter p = updates [h_str (fst p), hash_parameter_value (snd p)]"

fun hash_scalar :: "scalar_repr \<Rightarrow> hasher \<Rightarrow> hasher" where
  "hash_scalar RBool = h_u8 0"
| "hash_scalar (RInt bits) = updates [h_u8 1, h_u8 bits]"
| "hash_scalar (RUInt bits) = updates [h_u8 2, h_u8 bits]"
| "hash_scalar RFloat32 = h_u8 3"
| "hash_scalar RFloat64 = h_u8 4"
| "hash_scalar RDecimal = h_u8 5"
| "hash_scalar RChar = h_u8 6"
| "hash_scalar RString = h_u8 7"
| "hash_scalar RBytes = h_u8 8"
| "hash_scalar RUuid = h_u8 9"
| "hash_scalar RDate = h_u8 10"
| "hash_scalar RTime = h_u8 11"
| "hash_scalar RLocalDateTime = h_u8 12"
| "hash_scalar RInstant = h_u8 13"
| "hash_scalar RDuration = h_u8 14"
| "hash_scalar RTruth = h_u8 15"

definition hash_presence :: "presence \<Rightarrow> hasher \<Rightarrow> hasher" where
  "hash_presence p = h_u8 (case p of Required \<Rightarrow> 0 | Optional \<Rightarrow> 1)"

fun hash_type_def :: "type_def \<Rightarrow> hasher \<Rightarrow> hasher"
and hash_shape :: "type_shape \<Rightarrow> hasher \<Rightarrow> hasher"
and hash_field :: "record_field \<Rightarrow> hasher \<Rightarrow> hasher" where
  "hash_type_def (TypeDef k v sh n p ps) = updates
     [h_str k, h_u32 v, h_u8 (case n of NonNull \<Rightarrow> 0 | Nullable \<Rightarrow> 1), hash_properties p,
      h_each (map hash_parameter ps), hash_shape sh]"
| "hash_shape (ShScalar r) = updates [h_u8 0, hash_scalar r]"
| "hash_shape (ShList element) = updates [h_u8 1, hash_type_def element]"
| "hash_shape (ShMap key val) = updates [h_u8 2, hash_type_def key, hash_type_def val]"
| "hash_shape (ShTuple elements) = updates [h_u8 3, h_each (map hash_type_def elements)]"
| "hash_shape (ShRecord fs) = updates [h_u8 4, h_each (map hash_field fs)]"
| "hash_field (RecordField name ty pr) = updates [h_str name, hash_presence pr, hash_type_def ty]"

definition fingerprint_type_def :: "digest \<Rightarrow> type_def \<Rightarrow> byte list" where
  "fingerprint_type_def B ty = hasher_finish B (hash_type_def ty (hasher_new ''type/v1''))"

section \<open>Models\<close>

definition hash_field_keys :: "string list \<Rightarrow> hasher \<Rightarrow> hasher" where
  "hash_field_keys ks = h_each (map h_str ks)"

definition hash_model_field :: "field_def \<Rightarrow> hasher \<Rightarrow> hasher" where
  "hash_model_field f = updates
     [h_str (fd_key f), h_str (fd_name f), hash_type_def (fd_ty f), hash_presence (fd_presence f)]"

definition hash_identity :: "string list option \<Rightarrow> hasher \<Rightarrow> hasher" where
  "hash_identity identity =
     (case identity of None \<Rightarrow> h_u8 0 | Some ks \<Rightarrow> updates [h_u8 1, hash_field_keys ks])"

definition hash_relation_pair :: "relation_field \<Rightarrow> hasher \<Rightarrow> hasher" where
  "hash_relation_pair p = updates [h_str (rel_source p), h_str (rel_target p)]"

definition hash_relation :: "relation_def \<Rightarrow> hasher \<Rightarrow> hasher" where
  "hash_relation r = updates
     [h_str (rel_key r), h_str (rel_name r), h_str (rel_target_model r),
      h_u8 (case rel_cardinality r of One \<Rightarrow> 0 | OptionalOne \<Rightarrow> 1 | Many \<Rightarrow> 2),
      h_each (map hash_relation_pair (rel_fields r))]"

definition hash_reference :: "reference_def \<Rightarrow> hasher \<Rightarrow> hasher" where
  "hash_reference r = updates
     [hash_field_keys (ref_source_fields r), h_str (ref_target_model r), hash_field_keys (ref_target_fields r)]"

definition hash_model :: "model_def \<Rightarrow> hasher \<Rightarrow> hasher" where
  "hash_model m = updates
     [h_str (md_key m), h_str (md_name m), h_each (map hash_model_field (md_fields m)),
      hash_identity (md_identity m), h_each (map hash_field_keys (md_unique m)),
      h_each (map hash_relation (md_relations m)), h_each (map hash_reference (md_references m))]"

definition fingerprint_model :: "digest \<Rightarrow> model_def \<Rightarrow> byte list" where
  "fingerprint_model B m = hasher_finish B (hash_model m (hasher_new ''model/v1''))"

section \<open>Datums\<close>

definition canonical_f32_bits :: "u32 \<Rightarrow> u32" where
  "canonical_f32_bits w = (if f32_is_nan w then 2143289344 else if f32_is_zero w then 0 else w)"

definition canonical_f64_bits :: "u64 \<Rightarrow> u64" where
  "canonical_f64_bits w = (if f64_is_nan w then 9221120237041090560 else if f64_is_zero w then 0 else w)"

definition hash_decimal :: "'x ext \<Rightarrow> 'x \<Rightarrow> hasher \<Rightarrow> hasher" where
  "hash_decimal X x =
     (let normalized = dec_normalize X x
      in updates [h_u8 6, h_bytes (u128_le (dec_mantissa X normalized)), h_u32 (dec_scale X normalized)])"

definition hash_clock :: "'x ext \<Rightarrow> 'x \<Rightarrow> hasher \<Rightarrow> hasher" where
  "hash_clock X x = updates
     [h_u8 (time_hour X x), h_u8 (time_minute X x), h_u8 (time_second X x), h_u32 (time_nanosecond X x)]"

definition hash_truth :: "truth \<Rightarrow> hasher \<Rightarrow> hasher" where
  "hash_truth t = h_u8 (case t of TTrue \<Rightarrow> 0 | TFalse \<Rightarrow> 1 | TUnknown \<Rightarrow> 2)"

text \<open>\<open>hash_map\<close> takes the updates of the keys and values; the entry digests are sorted.\<close>

definition entry_fingerprint :: "digest \<Rightarrow> (hasher \<Rightarrow> hasher) \<times> (hasher \<Rightarrow> hasher) \<Rightarrow> byte list" where
  "entry_fingerprint B kv =
     hasher_finish B (updates [fst kv, snd kv] (hasher_new ''datum/map-entry/v1''))"

definition hash_map :: "digest \<Rightarrow> ((hasher \<Rightarrow> hasher) \<times> (hasher \<Rightarrow> hasher)) list \<Rightarrow> hasher \<Rightarrow> hasher" where
  "hash_map B entries = h_each (map h_bytes (sort (map (entry_fingerprint B) entries)))"

primrec hash_value :: "digest \<Rightarrow> 'x ext \<Rightarrow> 'x val \<Rightarrow> hasher \<Rightarrow> hasher"
and hash_datum :: "digest \<Rightarrow> 'x ext \<Rightarrow> 'x datum \<Rightarrow> hasher \<Rightarrow> hasher" where
  "hash_value B X (VBool v) = updates [h_u8 0, h_u8 (u8_from_bool v)]"
| "hash_value B X (VTruth v) = updates [h_u8 1, hash_truth v]"
| "hash_value B X (VInt v) = updates [h_u8 2, h_bytes (u128_le v)]"
| "hash_value B X (VUInt v) = updates [h_u8 3, h_bytes (u128_le v)]"
| "hash_value B X (VFloat32 v) = updates [h_u8 4, h_u32 (canonical_f32_bits v)]"
| "hash_value B X (VFloat64 v) = updates [h_u8 5, h_u64 (canonical_f64_bits v)]"
| "hash_value B X (VDecimal v) = hash_decimal X v"
| "hash_value B X (VChar v) = updates [h_u8 7, h_u32 v]"
| "hash_value B X (VString v) = updates [h_u8 8, h_str v]"
| "hash_value B X (VBytes v) = updates [h_u8 9, h_bytes v]"
| "hash_value B X (VUuid v) = updates [h_u8 10, h_bytes (uuid_as_bytes X v)]"
| "hash_value B X (VDate v) = updates [h_u8 11, h_bytes (u32_le (date_to_julian_day X v))]"
| "hash_value B X (VTime v) = updates [h_u8 12, hash_clock X v]"
| "hash_value B X (VLocalDateTime v) = updates
     [h_u8 13, h_bytes (u32_le (date_to_julian_day X (datetime_date X v))), hash_clock X (datetime_time X v)]"
| "hash_value B X (VInstant v) = updates [h_u8 14, h_bytes (u128_le (instant_unix_nanos X v))]"
| "hash_value B X (VDuration v) = updates [h_u8 15, h_bytes (u128_le (duration_whole_nanos X v))]"
| "hash_value B X (VList ds) = updates [h_u8 16, h_each (map (hash_datum B X) ds)]"
| "hash_value B X (VMap es) =
     updates [h_u8 17, hash_map B (map (map_prod (hash_datum B X) (hash_datum B X)) es)]"
| "hash_value B X (VTuple ds) = updates [h_u8 18, h_each (map (hash_datum B X) ds)]"
| "hash_value B X (VRecord fs) = updates
     [h_u8 19, h_each (map (\<lambda>nd. updates [h_str (fst nd), snd nd]) (map (map_prod id (hash_datum B X)) fs))]"
| "hash_datum B X Missing = h_u8 0"
| "hash_datum B X Null = h_u8 1"
| "hash_datum B X (Value v) = updates [h_u8 2, hash_value B X v]"

definition fingerprint_datum :: "digest \<Rightarrow> 'x ext \<Rightarrow> type_def \<Rightarrow> 'x datum \<Rightarrow> byte list res" where
  "fingerprint_datum B X ty d =
     and_then (validate_datum X ty Optional d) (\<lambda>_.
       Inr (hasher_finish B (updates [hash_type_def ty, hash_datum B X d] (hasher_new ''datum/v1''))))"

section \<open>Streams\<close>

text \<open>Every update appends to the stream; \<open>stream u\<close> is what it appends.\<close>

definition stream :: "(hasher \<Rightarrow> hasher) \<Rightarrow> byte list" where
  "stream u = u []"

definition appends :: "(hasher \<Rightarrow> hasher) \<Rightarrow> bool" where
  "appends u \<longleftrightarrow> (\<forall>h. u h = h @ stream u)"

lemma appends_base [simp]:
  "appends (h_bytes v)" "appends (h_str s)" "appends (h_u8 b)" "appends (h_u32 w)" "appends (h_u64 l)"
  by (simp_all add: appends_def stream_def h_bytes_def h_str_def h_u8_def h_u32_def h_u64_def)

lemma updates_stream: "list_all appends us \<Longrightarrow> updates us h = h @ concat (map stream us)"
  by (induction us arbitrary: h) (simp_all add: appends_def updates.simps)

lemma appends_updates [simp]: "list_all appends us \<Longrightarrow> appends (updates us)"
  by (simp add: appends_def stream_def updates_stream)

lemma stream_updates [simp]: "list_all appends us \<Longrightarrow> stream (updates us) = concat (map stream us)"
  by (simp add: stream_def updates_stream)

definition str_stream :: "string \<Rightarrow> byte list" where
  "str_stream s = u64_le (of_nat (length s)) @ as_bytes s"

lemma stream_base [simp]:
  "stream (h_bytes v) = u64_le (of_nat (length v)) @ v" "stream (h_u8 b) = [b]"
  "stream (h_u32 w) = u32_le w" "stream (h_u64 l) = u64_le l"
  "stream (h_str s) = str_stream s"
  by (simp_all add: stream_def str_stream_def h_bytes_def h_str_def h_u8_def h_u32_def h_u64_def as_bytes_def)

lemma appends_each [simp]: "list_all appends us \<Longrightarrow> appends (h_each us)"
  unfolding h_each_def by (rule appends_updates) simp

lemma stream_each:
  "list_all appends us \<Longrightarrow> stream (h_each us) = u64_le (of_nat (length us)) @ concat (map stream us)"
  unfolding h_each_def by (subst stream_updates) simp_all

lemma all_appends [simp]: "(\<And>x. appends (u x)) \<Longrightarrow> list_all appends (map u xs)"
  by (simp add: list_all_iff)

lemma appends_type_parts [simp]:
  "appends (hash_properties p)" "appends (hash_parameter_value v)" "appends (hash_parameter q)"
  "appends (hash_scalar r)" "appends (hash_presence pr)"
proof -
  show "appends (hash_parameter_value v)" for v by (cases v) simp_all
  then show "appends (hash_parameter q)" by (simp add: hash_parameter_def)
  show "appends (hash_scalar r)" by (cases r) simp_all
qed (simp_all add: hash_properties_def hash_presence_def)

lemma appends_type [simp]:
  "appends (hash_type_def t)" "appends (hash_shape sh)" "appends (hash_field f)"
  by (induction t and sh and f rule: hash_type_def_hash_shape_hash_field.induct) (auto simp: list_all_iff)


section \<open>Streams determine what they encode\<close>

lemma le_words [simp]:
  "length (u32_le w) = 4" "length (u64_le l) = 8" "length (u128_le q) = 16"
  "u32_le w = u32_le w' \<longleftrightarrow> w = w'" "u64_le l = u64_le l' \<longleftrightarrow> l = l'"
  by (auto simp: u32_le_def u64_le_def u128_le_def) (metis from_be_to_be)+

text \<open>A length below \<open>2 ^ 64\<close> is determined by its word; every Rust sequence in memory has such a length.\<close>

definition sized :: "'a list \<Rightarrow> bool" where
  "sized xs \<longleftrightarrow> length xs < 2 ^ 64"

lemma sized_length: "sized xs \<Longrightarrow> sized ys \<Longrightarrow> (of_nat (length xs) :: u64) = of_nat (length ys) \<longleftrightarrow> length xs = length ys"
  by (auto simp: sized_def dest!: arg_cong [where f = unat] simp: unat_of_nat)

lemma as_bytes_eq [simp]: "as_bytes s = as_bytes t \<longleftrightarrow> s = t"
  by (metis bytes_as_str_as_bytes)

lemma str_stream_eq:
  assumes "sized a" and "sized b"
  shows "str_stream a @ s = str_stream b @ t \<longleftrightarrow> a = b \<and> s = t"
proof -
  have "length a = length b \<Longrightarrow> as_bytes a @ s = as_bytes b @ t \<longleftrightarrow> a = b \<and> s = t"
    by (subst append_eq_append_conv) (simp_all add: as_bytes_def [of a] as_bytes_def [of b] flip: as_bytes_eq)
  then show ?thesis
    using sized_length [OF assms] by (auto simp: str_stream_def append_eq_append_conv)
qed

lemma word_stream_eq:
  "u32_le a @ s = u32_le b @ t \<longleftrightarrow> a = b \<and> s = t" "u64_le c @ s = u64_le d @ t \<longleftrightarrow> c = d \<and> s = t"
  by (simp_all add: append_eq_append_conv)

text \<open>\<open>pins u v\<close>: no continuation of one stream is a continuation of the other, unless the values agree.\<close>

definition pins :: "('a \<Rightarrow> hasher \<Rightarrow> hasher) \<Rightarrow> 'a \<Rightarrow> 'a \<Rightarrow> bool" where
  "pins u a b \<longleftrightarrow> (\<forall>s t. stream (u a) @ s = stream (u b) @ t \<longrightarrow> a = b \<and> s = t)"

lemma pinsD: "pins u a b \<Longrightarrow> stream (u a) @ s = stream (u b) @ t \<longleftrightarrow> a = b \<and> s = t"
  by (auto simp: pins_def)

lemma pins_items:
  assumes "length as = length bs" and "\<forall>a \<in> set as. \<forall>b \<in> set bs. pins u a b"
  shows "concat (map stream (map u as)) @ s = concat (map stream (map u bs)) @ t \<longleftrightarrow> as = bs \<and> s = t"
  using assms
proof (induction as bs rule: list_induct2)
  case Nil
  then show ?case by simp
next
  case (Cons a as b bs)
  then have "pins u a b" by simp
  with Cons show ?case by (simp add: pinsD)
qed

lemma pins_each:
  assumes "sized as" and "sized bs" and "\<And>a. a \<in> set as \<union> set bs \<Longrightarrow> appends (u a)"
    and pins: "\<forall>a \<in> set as. \<forall>b \<in> set bs. pins u a b"
  shows "stream (h_each (map u as)) @ s = stream (h_each (map u bs)) @ t \<longleftrightarrow> as = bs \<and> s = t"
proof -
  have eq: "stream (h_each (map u xs)) = u64_le (of_nat (length xs)) @ concat (map stream (map u xs))"
    if "\<And>a. a \<in> set xs \<Longrightarrow> appends (u a)" for xs
    using that by (subst stream_each) (auto simp: list_all_iff)
  have "stream (h_each (map u as)) @ s = stream (h_each (map u bs)) @ t \<longleftrightarrow>
      length as = length bs \<and>
      concat (map stream (map u as)) @ s = concat (map stream (map u bs)) @ t"
    using assms(3) by (simp add: eq word_stream_eq sized_length [OF assms(1,2)] del: map_map)
  then show ?thesis using pins_items [OF _ pins] by blast
qed

lemma u8_from_bool_eq [simp]: "u8_from_bool a = u8_from_bool b \<longleftrightarrow> a = b"
  by (simp add: u8_from_bool_def)

lemma pins_properties: "pins hash_properties p q"
  by (cases p; cases q) (auto simp: pins_def hash_properties_def)

lemma pins_presence: "pins hash_presence p q"
  by (cases p; cases q) (auto simp: pins_def hash_presence_def)

lemma pins_scalar: "pins hash_scalar r r'"
  by (cases r; cases r') (auto simp: pins_def)

fun parameter_sized :: "type_parameter \<Rightarrow> bool" where
  "parameter_sized (TPString s) \<longleftrightarrow> sized s"
| "parameter_sized _ \<longleftrightarrow> True"

lemma pins_parameter:
  assumes "sized (fst p)" "sized (fst q)" "parameter_sized (snd p)" "parameter_sized (snd q)"
  shows "pins hash_parameter p q"
proof -
  have "pins hash_parameter_value v w" if "parameter_sized v" "parameter_sized w" for v w
    using that by (cases v; cases w) (auto simp: pins_def word_stream_eq str_stream_eq)
  from this [OF assms(3,4)] show ?thesis
    using assms(1,2) by (auto simp: pins_def hash_parameter_def str_stream_eq prod_eq_iff)
qed

fun type_sized :: "type_def \<Rightarrow> bool"
and shape_sized :: "type_shape \<Rightarrow> bool"
and field_sized :: "record_field \<Rightarrow> bool" where
  "type_sized (TypeDef k v sh n p ps) \<longleftrightarrow>
     sized k \<and> sized ps \<and> (\<forall>q \<in> set ps. sized (fst q) \<and> parameter_sized (snd q)) \<and> shape_sized sh"
| "shape_sized (ShScalar r) \<longleftrightarrow> True"
| "shape_sized (ShList element) \<longleftrightarrow> type_sized element"
| "shape_sized (ShMap key val) \<longleftrightarrow> type_sized key \<and> type_sized val"
| "shape_sized (ShTuple elements) \<longleftrightarrow> sized elements \<and> list_all type_sized elements"
| "shape_sized (ShRecord fs) \<longleftrightarrow> sized fs \<and> list_all field_sized fs"
| "field_sized (RecordField name ty pr) \<longleftrightarrow> sized name \<and> type_sized ty"


lemma pins_type:
  "type_sized t \<Longrightarrow> type_sized t' \<Longrightarrow> pins hash_type_def t t'"
  "shape_sized sh \<Longrightarrow> shape_sized sh' \<Longrightarrow> pins hash_shape sh sh'"
  "field_sized f \<Longrightarrow> field_sized f' \<Longrightarrow> pins hash_field f f'"
proof (induction t and sh and f arbitrary: t' and sh' and f' rule: hash_type_def_hash_shape_hash_field.induct)
  case (1 k v sh n p ps)
  obtain k' v' sh' n' p' ps' where t': "t' = TypeDef k' v' sh' n' p' ps'" by (cases t')
  have shape: "stream (hash_shape sh) @ a = stream (hash_shape sh') @ b \<longleftrightarrow> sh = sh' \<and> a = b" for a b
    by (rule pinsD) (use 1 in \<open>simp add: t'\<close>)
  have parameters: "stream (h_each (map hash_parameter ps)) @ a = stream (h_each (map hash_parameter ps')) @ b \<longleftrightarrow>
      ps = ps' \<and> a = b" for a b
    using 1 by (intro pins_each ballI) (auto simp: t' intro: pins_parameter)
  have nulls: "(case n of NonNull \<Rightarrow> 0 :: byte | Nullable \<Rightarrow> 1) = (case n' of NonNull \<Rightarrow> 0 | Nullable \<Rightarrow> 1) \<longleftrightarrow> n = n'"
    by (cases n; cases n') simp_all
  have "sized k" "sized k'" using "1.prems" by (simp_all add: t')
  then show ?case
    by (simp add: pins_def t' str_stream_eq word_stream_eq pinsD [OF pins_properties] shape parameters nulls)
next
  case (2 r)
  then show ?case by (cases sh') (simp_all add: pins_def pinsD [OF pins_scalar])
next
  case (3 element)
  show ?case
  proof (cases sh')
    case (ShList element')
    have "stream (hash_type_def element) @ a = stream (hash_type_def element') @ b \<longleftrightarrow> element = element' \<and> a = b" for a b
      by (rule pinsD) (use 3 in \<open>simp add: ShList\<close>)
    then show ?thesis by (simp add: pins_def ShList)
  qed (simp_all add: pins_def)
next
  case (4 key val)
  show ?case
  proof (cases sh')
    case (ShMap key' val')
    have "stream (hash_type_def key) @ a = stream (hash_type_def key') @ b \<longleftrightarrow> key = key' \<and> a = b" for a b
      by (rule pinsD) (use 4 in \<open>simp add: ShMap\<close>)
    moreover have "stream (hash_type_def val) @ a = stream (hash_type_def val') @ b \<longleftrightarrow> val = val' \<and> a = b" for a b
      by (rule pinsD) (use 4 in \<open>simp add: ShMap\<close>)
    ultimately show ?thesis by (simp add: pins_def ShMap)
  qed (simp_all add: pins_def)
next
  case (5 elements)
  show ?case
  proof (cases sh')
    case (ShTuple elements')
    have "stream (h_each (map hash_type_def elements)) @ a = stream (h_each (map hash_type_def elements')) @ b \<longleftrightarrow>
        elements = elements' \<and> a = b" for a b
      using 5 by (intro pins_each ballI) (auto simp: ShTuple list_all_iff)
    then show ?thesis by (simp add: pins_def ShTuple)
  qed (simp_all add: pins_def)
next
  case (6 fs)
  show ?case
  proof (cases sh')
    case (ShRecord fs')
    have "stream (h_each (map hash_field fs)) @ a = stream (h_each (map hash_field fs')) @ b \<longleftrightarrow>
        fs = fs' \<and> a = b" for a b
      using 6 by (intro pins_each ballI) (auto simp: ShRecord list_all_iff)
    then show ?thesis by (simp add: pins_def ShRecord)
  qed (simp_all add: pins_def)
next
  case (7 name ty pr)
  obtain name' ty' pr' where f': "f' = RecordField name' ty' pr'" by (cases f')
  have "stream (hash_type_def ty) @ a = stream (hash_type_def ty') @ b \<longleftrightarrow> ty = ty' \<and> a = b" for a b
    by (rule pinsD) (use 7 in \<open>simp add: f'\<close>)
  then show ?case
    using "7.prems" by (simp add: f' pins_def str_stream_eq pinsD [OF pins_presence])
qed

text \<open>The bytes that are hashed for a type determine it.\<close>

lemma hash_type_def_stream: "hash_type_def t h = h @ stream (hash_type_def t)"
  using appends_type(1) [of t] by (simp add: appends_def)

lemma type_stream_inject:
  assumes "type_sized a" and "type_sized b"
  shows "hash_type_def a h = hash_type_def b h \<longleftrightarrow> a = b"
  using pinsD [OF pins_type(1) [OF assms], of "[]" "[]"] by (simp add: hash_type_def_stream [of _ h])

section \<open>Models\<close>

lemma appends_model_parts [simp]:
  "appends (hash_field_keys ks)" "appends (hash_model_field f)" "appends (hash_identity i)"
  "appends (hash_relation_pair p)" "appends (hash_relation r)" "appends (hash_reference e)"
proof -
  show keys: "appends (hash_field_keys ks)" for ks
    unfolding hash_field_keys_def by (rule appends_each) (simp add: list_all_iff)
  show "appends (hash_model_field f)" by (simp add: hash_model_field_def)
  show "appends (hash_identity i)" using keys by (cases i) (simp_all add: hash_identity_def)
  show pair: "appends (hash_relation_pair p)" for p by (simp add: hash_relation_pair_def)
  show "appends (hash_relation r)" using pair by (simp add: hash_relation_def list_all_iff)
  show "appends (hash_reference e)" using keys by (simp add: hash_reference_def)
qed

definition keys_sized :: "string list \<Rightarrow> bool" where
  "keys_sized ks \<longleftrightarrow> sized ks \<and> (\<forall>k \<in> set ks. sized k)"

definition relation_sized :: "relation_def \<Rightarrow> bool" where
  "relation_sized r \<longleftrightarrow>
     sized (rel_key r) \<and> sized (rel_name r) \<and> sized (rel_target_model r) \<and> sized (rel_fields r) \<and>
     (\<forall>p \<in> set (rel_fields r). sized (rel_source p) \<and> sized (rel_target p))"

definition reference_sized :: "reference_def \<Rightarrow> bool" where
  "reference_sized r \<longleftrightarrow>
     keys_sized (ref_source_fields r) \<and> sized (ref_target_model r) \<and> keys_sized (ref_target_fields r)"

definition field_def_sized :: "field_def \<Rightarrow> bool" where
  "field_def_sized f \<longleftrightarrow> sized (fd_key f) \<and> sized (fd_name f) \<and> type_sized (fd_ty f)"

definition model_sized :: "model_def \<Rightarrow> bool" where
  "model_sized m \<longleftrightarrow>
     sized (md_key m) \<and> sized (md_name m) \<and> sized (md_fields m) \<and> (\<forall>f \<in> set (md_fields m). field_def_sized f) \<and>
     (\<forall>ks. md_identity m = Some ks \<longrightarrow> keys_sized ks) \<and>
     sized (md_unique m) \<and> (\<forall>ks \<in> set (md_unique m). keys_sized ks) \<and>
     sized (md_relations m) \<and> (\<forall>r \<in> set (md_relations m). relation_sized r) \<and>
     sized (md_references m) \<and> (\<forall>r \<in> set (md_references m). reference_sized r)"

lemma pins_str: "sized a \<Longrightarrow> sized b \<Longrightarrow> pins h_str a b"
  by (simp add: pins_def str_stream_eq)

lemma pins_keys:
  assumes "keys_sized a" and "keys_sized b"
  shows "pins hash_field_keys a b"
proof -
  have "stream (h_each (map h_str a)) @ s = stream (h_each (map h_str b)) @ t \<longleftrightarrow> a = b \<and> s = t" for s t
    using assms by (intro pins_each ballI pins_str) (auto simp: keys_sized_def)
  then show ?thesis by (simp add: pins_def hash_field_keys_def)
qed

lemma pins_identity:
  assumes "\<And>ks. a = Some ks \<Longrightarrow> keys_sized ks" and "\<And>ks. b = Some ks \<Longrightarrow> keys_sized ks"
  shows "pins hash_identity a b"
  using assms by (cases a; cases b) (auto simp: pins_def [of hash_identity] hash_identity_def pinsD [OF pins_keys])

lemma pins_relation:
  assumes "relation_sized a" and "relation_sized b"
  shows "pins hash_relation a b"
proof -
  have pair: "pins hash_relation_pair p q" if "p \<in> set (rel_fields a)" "q \<in> set (rel_fields b)" for p q
    using assms that by (auto simp: pins_def hash_relation_pair_def relation_sized_def str_stream_eq)
  have "stream (h_each (map hash_relation_pair (rel_fields a))) @ s =
      stream (h_each (map hash_relation_pair (rel_fields b))) @ t \<longleftrightarrow> rel_fields a = rel_fields b \<and> s = t" for s t
    using assms by (intro pins_each ballI pair) (auto simp: relation_sized_def)
  moreover have "a = b \<longleftrightarrow> rel_key a = rel_key b \<and> rel_name a = rel_name b \<and> rel_target_model a = rel_target_model b \<and>
      rel_cardinality a = rel_cardinality b \<and> rel_fields a = rel_fields b"
    by (cases a; cases b) simp
  moreover have "(case rel_cardinality a of One \<Rightarrow> 0 :: byte | OptionalOne \<Rightarrow> 1 | Many \<Rightarrow> 2) =
      (case rel_cardinality b of One \<Rightarrow> 0 | OptionalOne \<Rightarrow> 1 | Many \<Rightarrow> 2) \<longleftrightarrow> rel_cardinality a = rel_cardinality b"
    by (cases "rel_cardinality a"; cases "rel_cardinality b") simp_all
  ultimately show ?thesis
    using assms by (simp add: pins_def hash_relation_def relation_sized_def str_stream_eq)
qed

lemma pins_reference:
  assumes "reference_sized a" and "reference_sized b"
  shows "pins hash_reference a b"
  using assms by (cases a; cases b)
    (simp add: pins_def [of hash_reference] hash_reference_def reference_sized_def str_stream_eq pinsD [OF pins_keys])

text \<open>Slots follow the order of the fields and are not hashed: what a stream fixes of a field is its spec.\<close>

definition hash_field_spec :: "field_spec \<Rightarrow> hasher \<Rightarrow> hasher" where
  "hash_field_spec f = updates [h_str (fs_key f), h_str (fs_name f), hash_type_def (fs_ty f), hash_presence (fs_presence f)]"

lemma pins_field_spec:
  assumes "sized (fs_key a)" "sized (fs_name a)" "type_sized (fs_ty a)"
    and "sized (fs_key b)" "sized (fs_name b)" "type_sized (fs_ty b)"
  shows "pins hash_field_spec a b"
  using assms by (cases a; cases b) (simp add: pins_def [of hash_field_spec] hash_field_spec_def str_stream_eq
      pinsD [OF pins_presence] pinsD [OF pins_type(1)])


lemma hash_field_spec_of: "hash_model_field f = hash_field_spec (spec_of f)"
  by (simp add: hash_model_field_def hash_field_spec_def)

lemma canonical_parts_eq:
  assumes "model_canonical a" and "model_canonical b"
  shows "a = b \<longleftrightarrow>
    md_key a = md_key b \<and> md_name a = md_name b \<and> map spec_of (md_fields a) = map spec_of (md_fields b) \<and>
    md_identity a = md_identity b \<and> md_unique a = md_unique b \<and> md_relations a = md_relations b \<and>
    md_references a = md_references b"
  using assms unfolding model_canonical_def by metis

lemma pins_model:
  assumes "model_canonical a" and "model_canonical b" and "model_sized a" and "model_sized b"
  shows "pins hash_model a b"
proof -
  note sa = assms(3) [unfolded model_sized_def] and sb = assms(4) [unfolded model_sized_def]
  have field: "pins hash_field_spec f g" if "f \<in> set (map spec_of (md_fields a))" "g \<in> set (map spec_of (md_fields b))" for f g
    using that sa sb by (intro pins_field_spec) (auto simp: field_def_sized_def)
  have fields: "stream (h_each (map hash_model_field (md_fields a))) @ s = stream (h_each (map hash_model_field (md_fields b))) @ t \<longleftrightarrow>
      map spec_of (md_fields a) = map spec_of (md_fields b) \<and> s = t" for s t
  proof -
    have hashes: "map hash_model_field fs = map hash_field_spec (map spec_of fs)" for fs
      by (simp add: hash_field_spec_of)
    show ?thesis
      unfolding hashes by (rule pins_each) (use field sa sb in \<open>auto simp: sized_def hash_field_spec_def\<close>)
  qed
  have identity: "stream (hash_identity (md_identity a)) @ s = stream (hash_identity (md_identity b)) @ t \<longleftrightarrow>
      md_identity a = md_identity b \<and> s = t" for s t
    by (rule pinsD, rule pins_identity) (use sa sb in blast)+
  have unique: "stream (h_each (map hash_field_keys (md_unique a))) @ s = stream (h_each (map hash_field_keys (md_unique b))) @ t \<longleftrightarrow>
      md_unique a = md_unique b \<and> s = t" for s t
    using sa sb by (intro pins_each ballI pins_keys) auto
  have relations: "stream (h_each (map hash_relation (md_relations a))) @ s = stream (h_each (map hash_relation (md_relations b))) @ t \<longleftrightarrow>
      md_relations a = md_relations b \<and> s = t" for s t
    using sa sb by (intro pins_each ballI pins_relation) auto
  have references: "stream (h_each (map hash_reference (md_references a))) @ s = stream (h_each (map hash_reference (md_references b))) @ t \<longleftrightarrow>
      md_references a = md_references b \<and> s = t" for s t
    using sa sb by (intro pins_each ballI pins_reference) auto
  show ?thesis
    using sa sb by (simp add: pins_def hash_model_def str_stream_eq fields identity unique relations references
        canonical_parts_eq [OF assms(1,2)])
qed

lemma appends_model [simp]: "appends (hash_model m)"
  by (simp add: hash_model_def)

lemma model_stream_inject:
  assumes "model_canonical a" and "model_canonical b" and "model_sized a" and "model_sized b"
  shows "hash_model a h = hash_model b h \<longleftrightarrow> a = b"
proof -
  have "hash_model m h = h @ stream (hash_model m)" for m
    using appends_model [of m] by (simp add: appends_def)
  then show ?thesis using pinsD [OF pins_model [OF assms], of "[]" "[]"] by simp
qed

section \<open>Domains\<close>

lemma hasher_new_eq:
  assumes "sized d" and "sized d'"
  shows "hasher_new d @ s = hasher_new d' @ t \<longleftrightarrow> d = d' \<and> s = t"
proof -
  have "hasher_new e = as_bytes ''DOL'' @ [0] @ str_stream e" for e
    by (simp add: hasher_new_def str_stream_def)
  then show ?thesis using str_stream_eq [OF assms] by simp
qed

lemma domain_separation:
  assumes "sized d" and "sized d'" and "d \<noteq> d'" and "appends u" and "appends v"
  shows "u (hasher_new d) \<noteq> v (hasher_new d')"
  using assms hasher_new_eq [OF assms(1,2)] by (simp add: appends_def)

section \<open>Datums\<close>

lemma hash_map_mset: "mset es = mset es' \<Longrightarrow> hash_map B es = hash_map B es'"
  unfolding hash_map_def by (metis mset_map sorted_list_of_multiset_mset)

lemma canonical_f32_bits_eq:
  "canonical_f32_bits a = canonical_f32_bits b \<longleftrightarrow> a = b \<or> f32_is_nan a \<and> f32_is_nan b \<or> f32_is_zero a \<and> f32_is_zero b"
  by (auto simp: canonical_f32_bits_def f32_is_nan_def f32_is_zero_def)

lemma canonical_f64_bits_eq:
  "canonical_f64_bits a = canonical_f64_bits b \<longleftrightarrow> a = b \<or> f64_is_nan a \<and> f64_is_nan b \<or> f64_is_zero a \<and> f64_is_zero b"
  by (auto simp: canonical_f64_bits_def f64_is_nan_def f64_is_zero_def)

lemma fingerprint_datum_Inr:
  "fingerprint_datum B X ty d = Inr f \<longleftrightarrow>
     validate_datum X ty Optional d = Inr () \<and>
     f = B (hash_datum B X d (hash_type_def ty (hasher_new ''datum/v1'')))"
  by (auto simp: fingerprint_datum_def and_then_Inr hasher_finish_def updates.simps)

end
