(* ===== verification/Expr_Normalize.thy ===== *)
theory Expr_Normalize
  imports Expr_Function Fingerprint
begin

text \<open>
  \<open>expr/fingerprint.rs\<close> and \<open>expr/normalize.rs\<close>: the canonical byte stream of an expression, and the
  rewriting into normal form, which folds constants, drops double negations and branches that are never
  taken, and sorts the candidates of a membership by their fingerprints. The fingerprint of a subquery
  (\<open>subquery_fingerprint\<close>, a function of the pipeline) is the parameter \<open>Q\<close>.
\<close>

section \<open>Fingerprints\<close>

definition unary_tag :: "unary_op \<Rightarrow> byte" where
  "unary_tag op =
     (case op of OpNot \<Rightarrow> 0 | OpIsNull \<Rightarrow> 1 | OpIsMissing \<Rightarrow> 2 | OpIsPresent \<Rightarrow> 3 | OpNullableLift \<Rightarrow> 4
      | OpLosslessCast \<Rightarrow> 5 | OpNegate \<Rightarrow> 6 | OpAbs \<Rightarrow> 7)"

definition binary_tag :: "binary_op \<Rightarrow> byte" where
  "binary_tag op =
     (case op of OpEq \<Rightarrow> 0 | OpNe \<Rightarrow> 1 | OpLt \<Rightarrow> 2 | OpLe \<Rightarrow> 3 | OpGt \<Rightarrow> 4 | OpGe \<Rightarrow> 5 | OpAnd \<Rightarrow> 6 | OpOr \<Rightarrow> 7
      | OpAdd \<Rightarrow> 8 | OpSub \<Rightarrow> 9 | OpMul \<Rightarrow> 10 | OpDiv \<Rightarrow> 11 | OpRem \<Rightarrow> 12 | OpIsDistinctFrom \<Rightarrow> 13
      | OpIsNotDistinctFrom \<Rightarrow> 14 | OpCoalesce \<Rightarrow> 15)"

definition hash_function_def :: "function_def \<Rightarrow> hasher \<Rightarrow> hasher" where
  "hash_function_def f = updates
     [h_str (fn_key f), h_u32 (fn_version f),
      h_u8 (case fn_determinism f of Deterministic \<Rightarrow> 0 | Contextual \<Rightarrow> 1 | Volatile \<Rightarrow> 2),
      h_each (map (\<lambda>(name, version). updates [h_str name, h_str version]) (fn_dependencies f))]"

definition fingerprint_function_def :: "digest \<Rightarrow> function_def \<Rightarrow> byte list" where
  "fingerprint_function_def B f = hasher_finish B (hash_function_def f (hasher_new ''function/v1''))"

function hash_node :: "digest \<Rightarrow> 'x ext \<Rightarrow> ('q \<Rightarrow> byte list res) \<Rightarrow> ('x, 'q) expr_node \<Rightarrow> hasher \<Rightarrow> hasher res" where
  "hash_node B X Q node h =
     (let h = hash_type_def (en_ty node) h
      in case en_kind node of
        EField f \<Rightarrow> Inr (updates [h_u8 0, h_str (fref_model f), h_str (fref_key f)] h)
      | ELiteral v \<Rightarrow> Inr (updates [h_u8 1, hash_datum B X v] h)
      | EParameter name \<Rightarrow> Inr (updates [h_u8 2, h_str name] h)
      | EUnary op input \<Rightarrow> hash_node B X Q input (updates [h_u8 3, h_u8 (unary_tag op)] h)
      | EBinary op left right \<Rightarrow>
          and_then (hash_node B X Q left (updates [h_u8 4, h_u8 (binary_tag op)] h)) (hash_node B X Q right)
      | EMembership input candidates negate \<Rightarrow>
          and_then (hash_node B X Q input (updates [h_u8 5, h_u8 (u8_from_bool negate)] h)) (\<lambda>h.
            try_each (hash_node B X Q) candidates (h_u64 (of_nat (length candidates)) h))
      | EConditional c t e \<Rightarrow>
          and_then (hash_node B X Q c (updates [h_u8 6] h)) (\<lambda>h.
          and_then (hash_node B X Q t h) (hash_node B X Q e))
      | EFunctionCall f arguments \<Rightarrow>
          try_each (hash_node B X Q) arguments
            (updates [h_u8 7, hash_function_def (fr_definition f), h_u64 (of_nat (length arguments))] h)
      | EExists q \<Rightarrow> and_then (Q q) (\<lambda>subquery. Inr (updates [h_u8 8, h_bytes subquery] h)))"
  by pat_completeness auto
termination
  by (relation "measure (\<lambda>(B, X, Q, node, h). size node)") (auto intro!: size_expr_child simp: children_def)

declare hash_node.simps [simp del]

definition fingerprint_node :: "digest \<Rightarrow> 'x ext \<Rightarrow> ('q \<Rightarrow> byte list res) \<Rightarrow> ('x, 'q) expr_node \<Rightarrow> byte list res" where
  "fingerprint_node B X Q node =
     and_then (hash_node B X Q node (hasher_new ''expression/v4'')) (\<lambda>h. Inr (hasher_finish B h))"

section \<open>Normal form\<close>

definition literal_value :: "('x, 'q) expr_node \<Rightarrow> 'x datum option" where
  "literal_value node = (case en_kind node of ELiteral v \<Rightarrow> Some v | _ \<Rightarrow> None)"

definition literal_node :: "'x datum \<Rightarrow> type_def \<Rightarrow> ('x, 'q) expr_node" where
  "literal_node v ty = ExprNode (ELiteral v) ty"

text \<open>The literals of a list of nodes, when all of them are literals.\<close>

definition literal_values :: "('x, 'q) expr_node list \<Rightarrow> 'x datum list option" where
  "literal_values nodes =
     (if list_all (\<lambda>n. literal_value n \<noteq> None) nodes then Some (List.map_filter literal_value nodes) else None)"

definition negated :: "('x, 'q) expr_node \<Rightarrow> ('x, 'q) expr_node option" where
  "negated node = (case en_kind node of EUnary op nested \<Rightarrow> if op = OpNot then Some nested else None | _ \<Rightarrow> None)"

text \<open>Folding a result of an operator into a literal of the node's type.\<close>

definition fold_literal :: "'x datum res \<Rightarrow> type_def \<Rightarrow> ('x, 'q) expr_node res" where
  "fold_literal result ty = and_then result (\<lambda>folded. Inr (literal_node folded ty))"

definition normalize_unary :: "'x scalar_ops \<Rightarrow> unary_op \<Rightarrow> ('x, 'q) expr_node \<Rightarrow> type_def \<Rightarrow> ('x, 'q) expr_node res" where
  "normalize_unary S op input ty =
     (case if op = OpNot then negated input else None of
        Some nested \<Rightarrow> Inr nested
      | None \<Rightarrow>
          (case literal_value input of
             Some v \<Rightarrow> fold_literal (eval_unary S op v ty) ty
           | None \<Rightarrow> Inr (ExprNode (EUnary op input) ty)))"

definition sort_candidates :: "digest \<Rightarrow> 'x ext \<Rightarrow> ('q \<Rightarrow> byte list res) \<Rightarrow> ('x, 'q) expr_node list \<Rightarrow>
    ('x, 'q) expr_node list res" where
  "sort_candidates B X Q candidates =
     and_then (try_map (\<lambda>c. and_then (fingerprint_node B X Q c) (\<lambda>f. Inr (f, c))) candidates)
       (\<lambda>pairs. Inr (map snd (sort_key fst pairs)))"

definition normalize_membership :: "digest \<Rightarrow> 'x scalar_ops \<Rightarrow> ('q \<Rightarrow> byte list res) \<Rightarrow> ('x, 'q) expr_node \<Rightarrow>
    ('x, 'q) expr_node list \<Rightarrow> bool \<Rightarrow> type_def \<Rightarrow> ('x, 'q) expr_node res" where
  "normalize_membership B S Q input candidates negate ty =
     and_then (sort_candidates B (ops_ext S) Q candidates) (\<lambda>candidates.
       case (literal_value input, literal_values candidates) of
         (Some v, Some vs) \<Rightarrow> fold_literal (eval_membership (ops_ext S) v vs negate) ty
       | _ \<Rightarrow> Inr (ExprNode (EMembership input candidates negate) ty))"

definition normalize_call :: "'x function_ref \<Rightarrow> ('x, 'q) expr_node list \<Rightarrow> type_def \<Rightarrow> ('x, 'q) expr_node res" where
  "normalize_call f arguments ty =
     (case if fn_determinism (fr_definition f) = Deterministic then literal_values arguments else None of
        Some vs \<Rightarrow> fold_literal (function_evaluate f vs ty) ty
      | None \<Rightarrow> Inr (ExprNode (EFunctionCall f arguments) ty))"

function normalize_node :: "digest \<Rightarrow> 'x scalar_ops \<Rightarrow> ('q \<Rightarrow> byte list res) \<Rightarrow> ('x, 'q) expr_node \<Rightarrow>
    ('x, 'q) expr_node res" where
  "normalize_node B S Q node =
     (case en_kind node of
        EUnary op input \<Rightarrow>
          and_then (normalize_node B S Q input) (\<lambda>input. normalize_unary S op input (en_ty node))
      | EBinary op left right \<Rightarrow>
          and_then (normalize_node B S Q left) (\<lambda>left.
            case if op = OpCoalesce then literal_value left else None of
              Some v \<Rightarrow>
                if is_absent v then normalize_node B S Q right else Inr (literal_node v (en_ty node))
            | None \<Rightarrow>
                and_then (normalize_node B S Q right) (\<lambda>right.
                  case (literal_value left, literal_value right) of
                    (Some l, Some r) \<Rightarrow> fold_literal (eval_binary S op l r) (en_ty node)
                  | _ \<Rightarrow> Inr (ExprNode (EBinary op left right) (en_ty node))))
      | EMembership input candidates negate \<Rightarrow>
          and_then (normalize_node B S Q input) (\<lambda>input.
          and_then (try_map (normalize_node B S Q) candidates) (\<lambda>candidates.
            normalize_membership B S Q input candidates negate (en_ty node)))
      | EConditional c t e \<Rightarrow>
          and_then (normalize_node B S Q c) (\<lambda>c.
            case literal_value c of
              Some (Value (VTruth v)) \<Rightarrow> if v = TTrue then normalize_node B S Q t else normalize_node B S Q e
            | _ \<Rightarrow>
                and_then (normalize_node B S Q t) (\<lambda>t.
                and_then (normalize_node B S Q e) (\<lambda>e. Inr (ExprNode (EConditional c t e) (en_ty node)))))
      | EFunctionCall f arguments \<Rightarrow>
          and_then (try_map (normalize_node B S Q) arguments) (\<lambda>arguments.
            normalize_call f arguments (en_ty node))
      | _ \<Rightarrow> Inr node)"
  by pat_completeness auto
termination
  by (relation "measure (\<lambda>(B, S, Q, node). size node)") (auto intro!: size_expr_child simp: children_def)

declare normalize_node.simps [simp del]

end
