(* ===== verification/Expr_Prepare.thy ===== *)
theory Expr_Prepare
  imports Expr_Validate Expr_Normalize
begin

text \<open>
  \<open>expr/prepare.rs\<close>: binding of field references to the models in scope and compilation of an expression
  tree into the flat array of a prepared expression, whose nodes name their children by index. The
  planner that resolves existentials is a closure with a state of its own: the state is threaded
  through the compilation, the closure is a parameter.
\<close>

section \<open>Binding contexts\<close>

record bind_context =
  bc_models :: "model_def list"
  bc_aliases :: "string option list"
  bc_nullable :: "bool list"

definition bind_new :: bind_context where
  "bind_new = \<lparr>bc_models = [], bc_aliases = [], bc_nullable = []\<rparr>"

definition bind_single :: "model_def \<Rightarrow> bind_context" where
  "bind_single m = \<lparr>bc_models = [m], bc_aliases = [None], bc_nullable = [False]\<rparr>"

definition bind_push :: "model_def \<Rightarrow> string option \<Rightarrow> bool \<Rightarrow> bind_context \<Rightarrow> bind_context" where
  "bind_push m alias n c =
     c\<lparr>bc_models := bc_models c @ [m], bc_aliases := bc_aliases c @ [alias], bc_nullable := bc_nullable c @ [n]\<rparr>"

definition with_model :: "model_def \<Rightarrow> bind_context \<Rightarrow> bind_context" where
  "with_model m = bind_push m None False"
definition with_nullable_model :: "model_def \<Rightarrow> bind_context \<Rightarrow> bind_context" where
  "with_nullable_model m = bind_push m None True"
definition with_alias :: "string \<Rightarrow> model_def \<Rightarrow> bind_context \<Rightarrow> bind_context" where
  "with_alias a m = bind_push m (Some a) False"
definition with_nullable_alias :: "string \<Rightarrow> model_def \<Rightarrow> bind_context \<Rightarrow> bind_context" where
  "with_nullable_alias a m = bind_push m (Some a) True"

definition scope_001 :: "field_ref \<Rightarrow> diagnostic" where
  "scope_001 f = diagnostic_error ''EXPR-SCOPE-001''
     (''model `'' @ fref_model f @ ''` is not available in this expression scope'')"
definition scope_002 :: "field_ref \<Rightarrow> diagnostic" where
  "scope_002 f = diagnostic_error ''EXPR-SCOPE-002''
     (''model `'' @ fref_model f @
      ''` appears more than once; bind the field to an explicit pipeline source alias'')"
definition scope_003 :: "field_ref \<Rightarrow> diagnostic" where
  "scope_003 f = diagnostic_error ''EXPR-SCOPE-003''
     (''field `'' @ fref_key f @ ''` is not defined by model `'' @ fref_model f @ ''`'')"
definition scope_004 :: diagnostic where
  "scope_004 = diagnostic_error ''EXPR-SCOPE-004'' ''expression scope exceeds u32 capacity''"
definition scope_005 :: "string \<Rightarrow> field_ref \<Rightarrow> diagnostic" where
  "scope_005 alias f = diagnostic_error ''EXPR-SCOPE-005''
     (''source alias `'' @ alias @ ''` for model `'' @ fref_model f @
      ''` is not available in this expression scope'')"
definition scope_006 :: "field_ref \<Rightarrow> diagnostic" where
  "scope_006 f = diagnostic_error ''EXPR-SCOPE-006''
     (''field `'' @ fref_name f @
      ''` is read from the nullable side of an outer join; lift it explicitly with `.nullable()`'')"
definition scope_007 :: diagnostic where
  "scope_007 = diagnostic_error ''EXPR-SCOPE-007''
     ''outer expression scope count exceeds the available binding context''"
definition expr_type_002 :: "field_ref \<Rightarrow> diagnostic" where
  "expr_type_002 f = diagnostic_error ''EXPR-TYPE-002''
     (''field `'' @ fref_name f @ ''` semantic type does not match its model definition'')"
definition expr_type_001 :: diagnostic where
  "expr_type_001 = diagnostic_error ''EXPR-TYPE-001''
     ''expression's semantic result type disagrees with its Rust type parameter''"
definition expr_limit_003 :: diagnostic where
  "expr_limit_003 = diagnostic_error ''EXPR-LIMIT-003'' ''prepared expression exceeds u32 node capacity''"
definition exists_001 :: diagnostic where
  "exists_001 = diagnostic_error ''EXPR-EXISTS-001''
     ''existential expressions can only be bound while planning a pipeline filter''"

text \<open>\<open>ExprId\<close> and \<open>ScopeId\<close> are \<open>u32\<close> indices, kept as their \<open>index()\<close>.\<close>

definition expr_id_from_index :: "nat \<Rightarrow> nat res" where
  "expr_id_from_index i = (if i < 2 ^ 32 then Inr i else Inl expr_limit_003)"

definition scope_id_from_index :: "nat \<Rightarrow> nat res" where
  "scope_id_from_index i = (if i < 2 ^ 32 then Inr i else Inl scope_004)"

text \<open>\<open>Vec::get\<close>.\<close>

definition vec_get :: "'a list \<Rightarrow> nat \<Rightarrow> 'a option" where
  "vec_get xs i = (if i < length xs then Some (xs ! i) else None)"

text \<open>A source answers a reference when it has the model and, if the reference names an alias, that alias.\<close>

definition source_matches :: "bind_context \<Rightarrow> field_ref \<Rightarrow> nat \<Rightarrow> model_def \<Rightarrow> bool" where
  "source_matches c f index m \<longleftrightarrow>
     md_key m = fref_model f \<and>
     (case fref_scope f of
        None \<Rightarrow> True
      | Some required \<Rightarrow>
          (case vec_get (bc_aliases c) index of Some (Some a) \<Rightarrow> a = required | _ \<Rightarrow> False))"

fun resolve_loop :: "bind_context \<Rightarrow> field_ref \<Rightarrow> (nat \<times> model_def) list \<Rightarrow> (nat \<times> model_def \<times> bool) option \<Rightarrow>
    (nat \<times> model_def \<times> bool) option res" where
  "resolve_loop c f [] found = Inr found"
| "resolve_loop c f ((index, m) # rest) found =
     (if \<not> source_matches c f index m then resolve_loop c f rest found
      else if found \<noteq> None then Inl (scope_002 f)
      else and_then (scope_id_from_index index) (\<lambda>scope.
        resolve_loop c f rest
          (Some (scope, m, case vec_get (bc_nullable c) index of Some b \<Rightarrow> b | None \<Rightarrow> False))))"

definition resolve_field :: "bind_context \<Rightarrow> field_ref \<Rightarrow> (nat \<times> model_def \<times> bool) res" where
  "resolve_field c f =
     and_then (resolve_loop c f (enumerate 0 (bc_models c)) None) (\<lambda>found.
       ok_or found (case fref_scope f of Some a \<Rightarrow> scope_005 a f | None \<Rightarrow> scope_001 f))"

section \<open>Prepared expressions\<close>

datatype 'x prepared_kind =
    PField nat nat bool
  | PLiteral "'x datum"
  | PParameter string
  | PUnary unary_op nat
  | PBinary binary_op nat nat
  | PMembership nat "nat list" bool
  | PConditional nat nat nat
  | PFunctionCall "'x function_ref" "nat list"
  | PExists nat "byte list"

record 'x prepared_node =
  pn_kind :: "'x prepared_kind"
  pn_ty :: type_def

record 'x prepared_expression =
  pe_nodes :: "'x prepared_node list"
  pe_root :: nat
  pe_ty :: type_def
  pe_fingerprint :: "byte list"
  pe_bound_fingerprint :: "byte list"
  pe_scopes :: "string list"
  pe_outer_scope_count :: nat

type_synonym ('q, 's) exists_resolver = "'q \<Rightarrow> 's \<Rightarrow> ((nat \<times> byte list) \<times> 's) res"

text \<open>The arm of \<open>compile_node_mode\<close> for a field.\<close>

definition compile_field :: "bind_context \<Rightarrow> field_ref \<Rightarrow> type_def \<Rightarrow> bool \<Rightarrow> 'x prepared_kind res" where
  "compile_field c f ty allow_nullable_field =
     and_then (resolve_field c f) (\<lambda>(scope, m, nullable_scope).
     and_then (ok_or (model_field m (fref_key f)) (scope_003 f)) (\<lambda>d.
       if fd_ty d \<noteq> ty then Inl (expr_type_002 f)
       else if nullable_scope \<and> \<not> is_nullable (fd_ty d) \<and> \<not> allow_nullable_field then Inl (scope_006 f)
       else Inr (PField scope (unat (fd_slot d))
              (nullable_scope \<and> \<not> is_nullable (fd_ty d) \<and> allow_nullable_field))))"

text \<open>\<open>iter().map(compile).collect()\<close> with the state of the compilation.\<close>

fun collect_state :: "('a \<Rightarrow> 's \<Rightarrow> ('b \<times> 's) res) \<Rightarrow> 'a list \<Rightarrow> 's \<Rightarrow> ('b list \<times> 's) res" where
  "collect_state f [] s = Inr ([], s)"
| "collect_state f (x # xs) s =
     and_then (f x s) (\<lambda>(y, s). and_then (collect_state f xs s) (\<lambda>(ys, s). Inr (y # ys, s)))"

lemma collect_state_cong [fundef_cong]:
  "xs = ys \<Longrightarrow> s = t \<Longrightarrow> (\<And>x u. x \<in> set ys \<Longrightarrow> f x u = g x u) \<Longrightarrow> collect_state f xs s = collect_state g ys t"
proof (induction xs arbitrary: ys s t)
  case Nil
  then show ?case by simp
next
  case (Cons x xs)
  then have "collect_state f xs = collect_state g xs" by (intro ext Cons.IH) auto
  moreover from Cons.prems have "f x t = g x t" by auto
  ultimately show ?case using Cons.prems by auto
qed

definition push_node :: "'x prepared_kind \<Rightarrow> type_def \<Rightarrow> 'x prepared_node list \<times> 's \<Rightarrow>
    (nat \<times> 'x prepared_node list \<times> 's) res" where
  "push_node kind ty st =
     and_then (expr_id_from_index (length (fst st))) (\<lambda>i.
       Inr (i, fst st @ [\<lparr>pn_kind = kind, pn_ty = ty\<rparr>], snd st))"

function compile_node :: "('q, 's) exists_resolver \<Rightarrow> bind_context \<Rightarrow> bool \<Rightarrow> ('x, 'q) expr_node \<Rightarrow>
    'x prepared_node list \<times> 's \<Rightarrow> (nat \<times> 'x prepared_node list \<times> 's) res" where
  "compile_node R c allow node st =
     and_then
       (case en_kind node of
          EField f \<Rightarrow> and_then (compile_field c f (en_ty node) allow) (\<lambda>k. Inr (k, st))
        | ELiteral v \<Rightarrow> Inr (PLiteral v, st)
        | EParameter name \<Rightarrow> Inr (PParameter name, st)
        | EUnary op input \<Rightarrow>
            and_then (compile_node R c (op = OpNullableLift) input st) (\<lambda>(i, st). Inr (PUnary op i, st))
        | EBinary op left right \<Rightarrow>
            and_then (compile_node R c False left st) (\<lambda>(l, st).
            and_then (compile_node R c False right st) (\<lambda>(r, st). Inr (PBinary op l r, st)))
        | EMembership input candidates negate \<Rightarrow>
            and_then (compile_node R c False input st) (\<lambda>(i, st).
            and_then (collect_state (compile_node R c False) candidates st) (\<lambda>(cs, st).
              Inr (PMembership i cs negate, st)))
        | EConditional cond t e \<Rightarrow>
            and_then (compile_node R c False cond st) (\<lambda>(i, st).
            and_then (compile_node R c False t st) (\<lambda>(j, st).
            and_then (compile_node R c False e st) (\<lambda>(k, st). Inr (PConditional i j k, st))))
        | EFunctionCall f arguments \<Rightarrow>
            and_then (collect_state (compile_node R c False) arguments st) (\<lambda>(as, st).
              Inr (PFunctionCall f as, st))
        | EExists q \<Rightarrow>
            and_then (R q (snd st)) (\<lambda>((subquery, fingerprint), s).
              Inr (PExists subquery fingerprint, fst st, s)))
       (\<lambda>(kind, st). push_node kind (en_ty node) st)"
  by pat_completeness auto
termination
  by (relation "measure (\<lambda>(R, c, allow, node, st). size node)") (auto intro!: size_expr_child simp: children_def)

declare compile_node.simps [simp del]

definition fingerprint_bound_expression :: "digest \<Rightarrow> byte list \<Rightarrow> 'x prepared_node list \<Rightarrow> nat \<Rightarrow> byte list" where
  "fingerprint_bound_expression B expression nodes outer_scope_count =
     (let fields = List.map_filter (\<lambda>n. case pn_kind n of PField scope slot allow \<Rightarrow> Some (scope, allow) | _ \<Rightarrow> None) nodes;
          existentials = List.map_filter (\<lambda>n. case pn_kind n of PExists q f \<Rightarrow> Some f | _ \<Rightarrow> None) nodes
      in hasher_finish B (updates
        [h_bytes expression, h_u64 (of_nat outer_scope_count),
         h_each (map (\<lambda>(scope, allow). updates [h_u64 (of_nat scope), h_u8 (u8_from_bool allow)]) fields),
         h_each (map h_bytes existentials)]
        (hasher_new ''expression/binding/v3'')))"

definition prepare_with_existentials :: "digest \<Rightarrow> 'x scalar_ops \<Rightarrow> ('q \<Rightarrow> byte list res) \<Rightarrow>
    ('q, 's) exists_resolver \<Rightarrow> ('x, 'q) expr_node \<Rightarrow> type_def \<Rightarrow> bind_context \<Rightarrow> expression_limits \<Rightarrow> nat \<Rightarrow> 's \<Rightarrow>
    ('x prepared_expression \<times> 's) res" where
  "prepare_with_existentials B S Q R node ty c L outer_scope_count s =
     (if outer_scope_count > length (bc_models c) then Inl scope_007
      else and_then (check_expression_limits node L) (\<lambda>_.
        and_then (validate_expression_node (ops_ext S) node L) (\<lambda>_.
        and_then (normalize_node B S Q node) (\<lambda>normalized.
        and_then (validate_expression_node (ops_ext S) normalized L) (\<lambda>_.
          if en_ty normalized \<noteq> ty then Inl expr_type_001
          else and_then (fingerprint_node B (ops_ext S) Q normalized) (\<lambda>fingerprint.
            and_then (compile_node R c False normalized ([], s)) (\<lambda>(root, nodes, s).
              Inr (\<lparr>pe_nodes = nodes, pe_root = root, pe_ty = en_ty normalized, pe_fingerprint = fingerprint,
                    pe_bound_fingerprint = fingerprint_bound_expression B fingerprint nodes outer_scope_count,
                    pe_scopes = map md_key (bc_models c), pe_outer_scope_count = outer_scope_count\<rparr>, s))))))))"

definition prepare_expression :: "digest \<Rightarrow> 'x scalar_ops \<Rightarrow> ('q \<Rightarrow> byte list res) \<Rightarrow> ('x, 'q) expr_node \<Rightarrow> type_def \<Rightarrow>
    bind_context \<Rightarrow> expression_limits \<Rightarrow> 'x prepared_expression res" where
  "prepare_expression B S Q node ty c L =
     and_then (prepare_with_existentials B S Q (\<lambda>_ _. Inl exists_001) node ty c L 0 ()) (\<lambda>(p, _). Inr p)"

end
