(* ===== verification/Expr_Eval.thy ===== *)
theory Expr_Eval
  imports Expr_Prepare
begin

text \<open>
  \<open>expr/eval.rs\<close>: evaluation of a prepared expression over its array of nodes, against records and
  parameters. The recursion follows indices and runs on fuel; for compiled expressions as many steps as
  there are nodes are enough. Beside it stands the direct meaning of an expression tree,
  \<open>eval_expr\<close>, which the evaluator is proved to implement.
\<close>

section \<open>Contexts\<close>

text \<open>A \<open>dyn RecordView\<close> is its two methods.\<close>

record 'x record_view =
  rv_model :: "model_def res"
  rv_field :: "nat \<Rightarrow> 'x datum option res"

record 'x bound_parameter =
  bp_ty :: type_def
  bp_datum :: "'x datum"

type_synonym 'x parameters = "(string, 'x bound_parameter) btree"

definition parameters_insert :: "string \<Rightarrow> type_def \<Rightarrow> 'x datum \<Rightarrow> 'x parameters \<Rightarrow> 'x parameters" where
  "parameters_insert name ty d ps = btree_insert name \<lparr>bp_ty = ty, bp_datum = d\<rparr> ps"

record 'x eval_context =
  ec_records :: "'x record_view list"
  ec_null_extended :: "bool list"
  ec_parameters :: "'x parameters"

definition eval_context_new :: "'x eval_context" where
  "eval_context_new = \<lparr>ec_records = [], ec_null_extended = [], ec_parameters = []\<rparr>"

definition eval_context_single :: "'x record_view \<Rightarrow> 'x eval_context" where
  "eval_context_single r = \<lparr>ec_records = [r], ec_null_extended = [False], ec_parameters = []\<rparr>"

definition with_record :: "'x record_view \<Rightarrow> 'x eval_context \<Rightarrow> 'x eval_context" where
  "with_record r c =
     c\<lparr>ec_records := ec_records c @ [r], ec_null_extended := ec_null_extended c @ [False]\<rparr>"

definition with_null_extended_record :: "'x record_view \<Rightarrow> 'x eval_context \<Rightarrow> 'x eval_context" where
  "with_null_extended_record r c =
     c\<lparr>ec_records := ec_records c @ [r], ec_null_extended := ec_null_extended c @ [True]\<rparr>"

definition with_parameter :: "string \<Rightarrow> type_def \<Rightarrow> 'x datum \<Rightarrow> 'x eval_context \<Rightarrow> 'x eval_context" where
  "with_parameter name ty d c = c\<lparr>ec_parameters := parameters_insert name ty d (ec_parameters c)\<rparr>"

section \<open>Errors\<close>

definition eval_101 :: diagnostic where
  "eval_101 = diagnostic_error ''EXPR-EVAL-101'' ''evaluation context is missing a bound record scope''"
definition eval_102 :: diagnostic where
  "eval_102 = diagnostic_error ''EXPR-EVAL-102'' ''bound field slot is not exposed by the record''"
definition eval_103 :: "string \<Rightarrow> diagnostic" where
  "eval_103 name = diagnostic_error ''EXPR-EVAL-103'' (''parameter `'' @ name @ ''` is not bound'')"
definition eval_107 :: diagnostic where
  "eval_107 = diagnostic_error ''EXPR-EVAL-107'' ''prepared expression references an invalid node''"
definition eval_108 :: diagnostic where
  "eval_108 = diagnostic_error ''EXPR-EVAL-108'' ''truth expression did not produce a truth value''"
definition eval_109 :: diagnostic where
  "eval_109 = diagnostic_error ''EXPR-EVAL-109'' ''evaluation context does not contain every bound model scope''"
definition eval_109_model :: "nat \<Rightarrow> string \<Rightarrow> string \<Rightarrow> diagnostic" where
  "eval_109_model i expected actual = diagnostic_error ''EXPR-EVAL-109''
     (''evaluation scope '' @ show_nat i @ '' expects model `'' @ expected @ ''` but received `'' @ actual @ ''`'')"
definition eval_110 :: "string \<Rightarrow> diagnostic" where
  "eval_110 m = diagnostic_error ''EXPR-EVAL-110''
     (''expression node produced an invalid semantic value: '' @ m)"
definition eval_111 :: "string \<Rightarrow> diagnostic" where
  "eval_111 name = diagnostic_error ''EXPR-EVAL-111''
     (''parameter `'' @ name @ ''` was bound with a different semantic type'')"
definition eval_112 :: diagnostic where
  "eval_112 = diagnostic_error ''EXPR-EVAL-112'' ''existential expressions require pipeline execution context''"

text \<open>The evaluator's recursion bound; no error of the code.\<close>

definition out_of_fuel :: diagnostic where
  "out_of_fuel = diagnostic_error ''MODEL-FUEL'' []"

section \<open>The parts of \<open>evaluate_node\<close>\<close>

definition read_field :: "'x eval_context \<Rightarrow> nat \<Rightarrow> nat \<Rightarrow> 'x datum res" where
  "read_field ctx scope slot =
     and_then (ok_or (vec_get (ec_records ctx) scope) eval_101) (\<lambda>r.
     and_then (rv_field r slot) (\<lambda>d. ok_or d eval_102))"

definition read_parameter :: "'x eval_context \<Rightarrow> string \<Rightarrow> type_def \<Rightarrow> 'x datum res" where
  "read_parameter ctx name ty =
     and_then (ok_or (map_of (ec_parameters ctx) name) (eval_103 name)) (\<lambda>p.
       if bp_ty p \<noteq> ty then Inl (eval_111 name) else Inr (bp_datum p))"

text \<open>A field of a nullable scope is exempt from validation when its record is null-extended.\<close>

definition null_extended_field :: "'x eval_context \<Rightarrow> 'x prepared_kind \<Rightarrow> 'x datum \<Rightarrow> bool" where
  "null_extended_field ctx kind v =
     (case kind of
        PField scope slot allow \<Rightarrow>
          allow \<and> v = Null \<and> (case vec_get (ec_null_extended ctx) scope of Some b \<Rightarrow> b | None \<Rightarrow> False)
      | _ \<Rightarrow> False)"

definition checked_result :: "'x ext \<Rightarrow> type_def \<Rightarrow> bool \<Rightarrow> 'x datum \<Rightarrow> 'x datum res" where
  "checked_result X ty exempt v =
     (if exempt then Inr v
      else and_then (map_err (\<lambda>err. eval_110 (message err)) (validate_datum X ty Optional v)) (\<lambda>_. Inr v))"

section \<open>Evaluation of prepared expressions\<close>

fun evaluate_node :: "nat \<Rightarrow> 'x scalar_ops \<Rightarrow> 'x prepared_node list \<Rightarrow> 'x eval_context \<Rightarrow> (nat \<Rightarrow> truth res) \<Rightarrow> nat \<Rightarrow>
    'x datum res" where
  "evaluate_node 0 S nodes ctx rex i = Inl out_of_fuel"
| "evaluate_node (Suc n) S nodes ctx rex i =
     and_then (ok_or (vec_get nodes i) eval_107) (\<lambda>node.
     and_then
       (case pn_kind node of
          PField scope slot allow \<Rightarrow> read_field ctx scope slot
        | PLiteral v \<Rightarrow> Inr v
        | PParameter name \<Rightarrow> read_parameter ctx name (pn_ty node)
        | PUnary op input \<Rightarrow>
            and_then (evaluate_node n S nodes ctx rex input) (\<lambda>v. eval_unary S op v (pn_ty node))
        | PBinary op left right \<Rightarrow>
            and_then (evaluate_node n S nodes ctx rex left) (\<lambda>l.
              if op = OpCoalesce \<and> \<not> is_absent l then Inr l
              else and_then (evaluate_node n S nodes ctx rex right) (\<lambda>r. eval_binary S op l r))
        | PMembership input candidates negate \<Rightarrow>
            and_then (evaluate_node n S nodes ctx rex input) (\<lambda>v.
            and_then (try_map (evaluate_node n S nodes ctx rex) candidates) (\<lambda>vs.
              eval_membership (ops_ext S) v vs negate))
        | PConditional c t e \<Rightarrow>
            and_then (evaluate_node n S nodes ctx rex c) (\<lambda>v.
              case v of
                Value (VTruth b) \<Rightarrow>
                  if b = TTrue then evaluate_node n S nodes ctx rex t else evaluate_node n S nodes ctx rex e
              | _ \<Rightarrow> eval_conditional v Missing Missing)
        | PFunctionCall f arguments \<Rightarrow>
            and_then (try_map (evaluate_node n S nodes ctx rex) arguments) (\<lambda>vs.
              function_evaluate f vs (pn_ty node))
        | PExists subquery fingerprint \<Rightarrow> and_then (rex subquery) (\<lambda>b. Inr (Value (VTruth b)))) (\<lambda>v.
     checked_result (ops_ext S) (pn_ty node) (null_extended_field ctx (pn_kind node) v) v))"

fun scopes_loop :: "(nat \<times> string) list \<Rightarrow> 'x eval_context \<Rightarrow> unit res" where
  "scopes_loop [] ctx = Inr ()"
| "scopes_loop ((i, expected) # rest) ctx =
     and_then (ok_or (vec_get (ec_records ctx) i) eval_109) (\<lambda>r.
     and_then (rv_model r) (\<lambda>actual.
       if md_key actual \<noteq> expected then Inl (eval_109_model i expected (md_key actual))
       else scopes_loop rest ctx))"

definition validate_evaluation_scopes :: "'x prepared_expression \<Rightarrow> 'x eval_context \<Rightarrow> unit res" where
  "validate_evaluation_scopes p ctx =
     (if length (ec_records ctx) \<noteq> length (pe_scopes p) \<or>
         length (ec_null_extended ctx) \<noteq> length (ec_records ctx)
      then Inl eval_109 else scopes_loop (enumerate 0 (pe_scopes p)) ctx)"

definition evaluate_datum_with_exists :: "'x scalar_ops \<Rightarrow> 'x prepared_expression \<Rightarrow> 'x eval_context \<Rightarrow>
    (nat \<Rightarrow> truth res) \<Rightarrow> 'x datum res" where
  "evaluate_datum_with_exists S p ctx rex =
     and_then (validate_evaluation_scopes p ctx) (\<lambda>_.
       evaluate_node (length (pe_nodes p)) S (pe_nodes p) ctx rex (pe_root p))"

definition evaluate_datum :: "'x scalar_ops \<Rightarrow> 'x prepared_expression \<Rightarrow> 'x eval_context \<Rightarrow> 'x datum res" where
  "evaluate_datum S p ctx = evaluate_datum_with_exists S p ctx (\<lambda>_. Inl eval_112)"

definition evaluate_truth :: "'x scalar_ops \<Rightarrow> 'x prepared_expression \<Rightarrow> 'x eval_context \<Rightarrow> truth res" where
  "evaluate_truth S p ctx =
     and_then (evaluate_datum S p ctx) (\<lambda>d. case d of Value (VTruth t) \<Rightarrow> Inr t | _ \<Rightarrow> Inl eval_108)"

section \<open>The meaning of an expression tree\<close>

text \<open>
  \<open>rd\<close> reads a field, in a position that lifts null-extended fields or not, and says whether the
  datum is exempt from validation; \<open>pv\<close> reads a parameter, \<open>ex\<close> answers an existential.
\<close>

record ('x, 'q) valuation =
  val_field :: "bool \<Rightarrow> field_ref \<Rightarrow> type_def \<Rightarrow> ('x datum \<times> bool) res"
  val_parameter :: "string \<Rightarrow> type_def \<Rightarrow> 'x datum res"
  val_exists :: "'q \<Rightarrow> truth res"

definition plain :: "'x datum res \<Rightarrow> ('x datum \<times> bool) res" where
  "plain r = and_then r (\<lambda>v. Inr (v, False))"

function eval_expr :: "'x scalar_ops \<Rightarrow> ('x, 'q) valuation \<Rightarrow> bool \<Rightarrow> ('x, 'q) expr_node \<Rightarrow> 'x datum res" where
  "eval_expr S V lift node =
     and_then
       (case en_kind node of
          EField f \<Rightarrow> val_field V lift f (en_ty node)
        | ELiteral v \<Rightarrow> Inr (v, False)
        | EParameter name \<Rightarrow> plain (val_parameter V name (en_ty node))
        | EUnary op input \<Rightarrow>
            plain (and_then (eval_expr S V (op = OpNullableLift) input) (\<lambda>v. eval_unary S op v (en_ty node)))
        | EBinary op left right \<Rightarrow>
            plain (and_then (eval_expr S V False left) (\<lambda>l.
              if op = OpCoalesce \<and> \<not> is_absent l then Inr l
              else and_then (eval_expr S V False right) (\<lambda>r. eval_binary S op l r)))
        | EMembership input candidates negate \<Rightarrow>
            plain (and_then (eval_expr S V False input) (\<lambda>v.
              and_then (try_map (eval_expr S V False) candidates) (\<lambda>vs.
                eval_membership (ops_ext S) v vs negate)))
        | EConditional c t e \<Rightarrow>
            plain (and_then (eval_expr S V False c) (\<lambda>v.
              and_then (as_truth v) (\<lambda>b. if b = TTrue then eval_expr S V False t else eval_expr S V False e)))
        | EFunctionCall f arguments \<Rightarrow>
            plain (and_then (try_map (eval_expr S V False) arguments) (\<lambda>vs.
              function_evaluate f vs (en_ty node)))
        | EExists q \<Rightarrow> plain (and_then (val_exists V q) (\<lambda>b. Inr (Value (VTruth b))))) (\<lambda>(v, exempt).
     checked_result (ops_ext S) (en_ty node) exempt v)"
  by pat_completeness auto
termination
  by (relation "measure (\<lambda>(S, V, lift, node). size node)") (auto intro!: size_expr_child simp: children_def)

declare eval_expr.simps [simp del]

end
