(* ===== verification/Row.thy ===== *)
theory Row
  imports Expr_Eval Fingerprint
begin

text \<open>
  \<open>runtime/row.rs\<close> and \<open>data/validate.rs\<close> of \<open>dol-core\<close>: dense runtime rows, their builder and
  mutation, the validation of records against a model, and of materialized data against its identity and
  unique constraints through buckets of tuple fingerprints.
\<close>

section \<open>Rows\<close>

record 'x dyn_row =
  dr_model :: model_def
  dr_values :: "'x datum list"

definition runtime_001 :: "string \<Rightarrow> diagnostic" where
  "runtime_001 key = diagnostic_error ''RUNTIME-001'' (''unknown field `'' @ key @ ''`'')"
definition runtime_001_name :: "string \<Rightarrow> diagnostic" where
  "runtime_001_name name = diagnostic_error ''RUNTIME-001'' (''unknown field name `'' @ name @ ''`'')"
definition runtime_008_model :: diagnostic where
  "runtime_008_model = diagnostic_error ''RUNTIME-008'' ''field slot is outside the runtime model''"
definition runtime_008_row :: diagnostic where
  "runtime_008_row = diagnostic_error ''RUNTIME-008'' ''field slot is outside the runtime row''"
definition runtime_009 :: "string \<Rightarrow> diagnostic" where
  "runtime_009 key = diagnostic_error ''RUNTIME-009'' (''record does not expose field `'' @ key @ ''`'')"
definition runtime_010_width :: diagnostic where
  "runtime_010_width = diagnostic_error ''RUNTIME-010'' ''dense runtime row width does not match its model definition''"
definition runtime_010_slot :: diagnostic where
  "runtime_010_slot = diagnostic_error ''RUNTIME-010'' ''dense runtime row is missing a declared model slot''"

text \<open>A panic of a slice index; no error of the code.\<close>

definition index_panic :: diagnostic where
  "index_panic = diagnostic_error ''PANIC-INDEX'' []"

definition slot_index :: "field_def \<Rightarrow> nat" where
  "slot_index f = unat (fd_slot f)"

definition row_get :: "'x dyn_row \<Rightarrow> nat \<Rightarrow> 'x datum option" where
  "row_get r slot = vec_get (dr_values r) slot"

definition row_view :: "'x dyn_row \<Rightarrow> 'x record_view" where
  "row_view r = \<lparr>rv_model = Inr (dr_model r), rv_field = (\<lambda>slot. Inr (row_get r slot))\<rparr>"

definition dyn_row_eq :: "digest \<Rightarrow> 'x ext \<Rightarrow> 'x dyn_row \<Rightarrow> 'x dyn_row \<Rightarrow> bool" where
  "dyn_row_eq B X a b \<longleftrightarrow>
     fingerprint_model B (dr_model a) = fingerprint_model B (dr_model b) \<and>
     vec_equal (map (datum_eq X) (dr_values a)) (dr_values b)"

definition row_from_record :: "'x ext \<Rightarrow> 'x record_view \<Rightarrow> 'x dyn_row res" where
  "row_from_record X record =
     and_then (rv_model record) (\<lambda>m.
     and_then (try_map (\<lambda>f.
         and_then (rv_field record (slot_index f)) (\<lambda>d.
         and_then (ok_or d (runtime_009 (fd_key f))) (\<lambda>d.
         and_then (validate_datum X (fd_ty f) (fd_presence f) d) (\<lambda>_. Inr d)))) (md_fields m)) (\<lambda>vs.
       Inr \<lparr>dr_model = m, dr_values = vs\<rparr>))"

definition row_from_dense :: "'x ext \<Rightarrow> model_def \<Rightarrow> 'x datum list \<Rightarrow> 'x dyn_row res" where
  "row_from_dense X m vs =
     (if length vs \<noteq> length (md_fields m) then Inl runtime_010_width
      else and_then (try_all (\<lambda>f.
             and_then (ok_or (vec_get vs (slot_index f)) runtime_010_slot)
               (validate_datum X (fd_ty f) (fd_presence f))) (md_fields m)) (\<lambda>_.
           Inr \<lparr>dr_model = m, dr_values = vs\<rparr>))"

definition row_bytes :: "'x dyn_row \<Rightarrow> nat" where
  "row_bytes r = foldl (\<lambda>size d. saturating_add_u64 size (datum_bytes d)) 32 (dr_values r)"

definition row_set_field :: "'x ext \<Rightarrow> nat \<Rightarrow> 'x datum \<Rightarrow> 'x dyn_row \<Rightarrow> 'x dyn_row res" where
  "row_set_field X slot d r =
     and_then (ok_or (vec_get (md_fields (dr_model r)) slot) runtime_008_model) (\<lambda>f.
     and_then (validate_datum X (fd_ty f) (fd_presence f) d) (\<lambda>_.
     and_then (ok_or (vec_get (dr_values r) slot) runtime_008_row) (\<lambda>_.
       Inr (r\<lparr>dr_values := (dr_values r)[slot := d]\<rparr>))))"

text \<open>The builder of rows has the state of a row whose values may still be missing.\<close>

definition row_builder :: "model_def \<Rightarrow> 'x dyn_row" where
  "row_builder m = \<lparr>dr_model = m, dr_values = replicate (length (md_fields m)) Missing\<rparr>"

definition row_put :: "'x ext \<Rightarrow> field_def \<Rightarrow> 'x datum \<Rightarrow> 'x dyn_row \<Rightarrow> 'x dyn_row res" where
  "row_put X f d b =
     and_then (validate_datum X (fd_ty f) (fd_presence f) d) (\<lambda>_.
       if slot_index f < length (dr_values b)
       then Inr (b\<lparr>dr_values := (dr_values b)[slot_index f := d]\<rparr>) else Inl index_panic)"

definition row_set :: "'x ext \<Rightarrow> string \<Rightarrow> 'x datum \<Rightarrow> 'x dyn_row \<Rightarrow> 'x dyn_row res" where
  "row_set X key d b =
     and_then (ok_or (model_field (dr_model b) key) (runtime_001 key)) (\<lambda>f. row_put X f d b)"

definition row_set_named :: "'x ext \<Rightarrow> string \<Rightarrow> 'x datum \<Rightarrow> 'x dyn_row \<Rightarrow> 'x dyn_row res" where
  "row_set_named X name d b =
     and_then (ok_or (model_field_named (dr_model b) name) (runtime_001_name name)) (\<lambda>f. row_put X f d b)"

definition row_freeze :: "'x ext \<Rightarrow> 'x dyn_row \<Rightarrow> 'x dyn_row res" where
  "row_freeze X b =
     and_then (try_all (\<lambda>f.
         and_then (ok_or (vec_get (dr_values b) (slot_index f)) index_panic)
           (validate_datum X (fd_ty f) (fd_presence f))) (md_fields (dr_model b))) (\<lambda>_.
       Inr b)"

section \<open>Records against a model\<close>

definition dataset_record_001 :: diagnostic where
  "dataset_record_001 = diagnostic_error ''DATASET-RECORD-001''
     ''record model semantics do not match the DataSet model type''"
definition dataset_record_002 :: "string \<Rightarrow> diagnostic" where
  "dataset_record_002 key = diagnostic_error ''DATASET-RECORD-002''
     (''record does not expose field `'' @ key @ ''`'')"
definition dataset_constraint_001 :: diagnostic where
  "dataset_constraint_001 = diagnostic_error ''DATASET-CONSTRAINT-001''
     ''model constraint references an unknown field''"

definition record_datum :: "'x record_view \<Rightarrow> field_def \<Rightarrow> 'x datum res" where
  "record_datum record f =
     and_then (rv_field record (slot_index f)) (\<lambda>d. ok_or d (dataset_record_002 (fd_key f)))"

definition validate_record_against :: "digest \<Rightarrow> 'x ext \<Rightarrow> model_def \<Rightarrow> 'x record_view \<Rightarrow> unit res" where
  "validate_record_against B X expected record =
     and_then (rv_model record) (\<lambda>actual.
       if md_key actual \<noteq> md_key expected \<or> fingerprint_model B actual \<noteq> fingerprint_model B expected
       then Inl dataset_record_001
       else try_all (\<lambda>f. and_then (record_datum record f) (validate_datum X (fd_ty f) (fd_presence f)))
              (md_fields expected))"

definition fingerprint_record :: "digest \<Rightarrow> 'x ext \<Rightarrow> model_def \<Rightarrow> 'x record_view \<Rightarrow> byte list res" where
  "fingerprint_record B X m record =
     and_then (validate_record_against B X m record) (\<lambda>_.
     and_then (try_each (\<lambda>f h.
         and_then (record_datum record f) (\<lambda>d.
         and_then (fingerprint_datum B X (fd_ty f) d) (\<lambda>fp. Inr (h_bytes fp (h_str (fd_key f) h)))))
         (md_fields m) (h_bytes (fingerprint_model B m) (hasher_new ''record/v1''))) (\<lambda>h.
       Inr (hasher_finish B h)))"

section \<open>Unique tuples\<close>

record unique_spec =
  us_fields :: "string list"
  us_skip_absent :: bool
  us_error :: diagnostic

fun tuple_values :: "'x record_view \<Rightarrow> model_def \<Rightarrow> bool \<Rightarrow> string list \<Rightarrow> 'x datum list option res" where
  "tuple_values record m skip_absent [] = Inr (Some [])"
| "tuple_values record m skip_absent (k # ks) =
     and_then (ok_or (model_field m k) dataset_constraint_001) (\<lambda>f.
     and_then (record_datum record f) (\<lambda>d.
       if skip_absent \<and> is_absent d then Inr None
       else and_then (tuple_values record m skip_absent ks) (\<lambda>vs. Inr (map_option ((#) d) vs))))"

definition tuple_step :: "digest \<Rightarrow> 'x ext \<Rightarrow> model_def \<Rightarrow> string \<times> 'x datum \<Rightarrow> hasher \<Rightarrow> hasher res" where
  "tuple_step B X m e h =
     and_then (ok_or (model_field m (fst e)) dataset_constraint_001) (\<lambda>f.
     and_then (fingerprint_datum B X (fd_ty f) (snd e)) (\<lambda>fp. Inr (h_bytes fp (h_str (fd_key f) h))))"

definition tuple_fingerprint :: "digest \<Rightarrow> 'x ext \<Rightarrow> model_def \<Rightarrow> string list \<Rightarrow> 'x datum list \<Rightarrow> byte list res" where
  "tuple_fingerprint B X m ks vs =
     and_then (try_each (tuple_step B X m) (zip ks vs)
       (h_bytes (fingerprint_model B m) (hasher_new ''constraint/tuple/v1''))) (\<lambda>h.
       Inr (hasher_finish B h))"

type_synonym 'x buckets = "(byte list, 'x datum list list) btree"

definition bucket :: "'x buckets \<Rightarrow> byte list \<Rightarrow> 'x datum list list" where
  "bucket seen fp = (case map_of seen fp of Some b \<Rightarrow> b | None \<Rightarrow> [])"

definition unique_step :: "digest \<Rightarrow> 'x ext \<Rightarrow> model_def \<Rightarrow> unique_spec \<Rightarrow> 'x record_view \<Rightarrow> 'x buckets \<Rightarrow> 'x buckets res" where
  "unique_step B X m spec record seen =
     and_then (tuple_values record m (us_skip_absent spec) (us_fields spec)) (\<lambda>vs.
       case vs of
         None \<Rightarrow> Inr seen
       | Some values \<Rightarrow>
           and_then (tuple_fingerprint B X m (us_fields spec) values) (\<lambda>fp.
             if list_ex (\<lambda>existing. vec_equal (map (datum_eq X) existing) values) (bucket seen fp)
             then Inl (us_error spec)
             else Inr (btree_insert fp (bucket seen fp @ [values]) seen)))"

definition validate_unique_tuple :: "digest \<Rightarrow> 'x ext \<Rightarrow> model_def \<Rightarrow> unique_spec \<Rightarrow> 'x record_view list \<Rightarrow> unit res" where
  "validate_unique_tuple B X m spec records =
     and_then (try_each (unique_step B X m spec) records []) (\<lambda>_. Inr ())"

definition identity_spec :: "string list \<Rightarrow> unique_spec" where
  "identity_spec ks = \<lparr>us_fields = ks, us_skip_absent = False,
     us_error = diagnostic_error ''DATASET-IDENTITY-001'' ''duplicate model identity in materialized data''\<rparr>"

definition constraint_spec :: "string list \<Rightarrow> unique_spec" where
  "constraint_spec ks = \<lparr>us_fields = ks, us_skip_absent = True,
     us_error = diagnostic_error ''DATASET-UNIQUE-001'' ''duplicate unique field tuple in materialized data''\<rparr>"

definition validate_dataset :: "digest \<Rightarrow> 'x ext \<Rightarrow> model_def \<Rightarrow> 'x record_view list \<Rightarrow> unit res" where
  "validate_dataset B X m records =
     and_then (try_all (validate_record_against B X m) records) (\<lambda>_.
     and_then (case md_identity m of
         None \<Rightarrow> Inr () | Some ks \<Rightarrow> validate_unique_tuple B X m (identity_spec ks) records) (\<lambda>_.
       try_all (\<lambda>ks. validate_unique_tuple B X m (constraint_spec ks) records) (md_unique m)))"

definition validate_dynamic_dataset :: "digest \<Rightarrow> 'x ext \<Rightarrow> model_def \<Rightarrow> 'x dyn_row list \<Rightarrow> unit res" where
  "validate_dynamic_dataset B X m rows = validate_dataset B X m (map row_view rows)"

end
