(* ===== verification/Write_Op.thy ===== *)
theory Write_Op
  imports Row
begin

text \<open>
  The write operations of \<open>dol-core\<close>: authored writes and their builders (\<open>ops/mod.rs\<close>, with the
  conjunctions of filters from \<open>expr/existential.rs\<close>), preparation and fingerprints (\<open>ops/prepare.rs\<close>)
  and the logical form handed to engines (\<open>ops/logical.rs\<close>). A Rust model type \<open>M\<close> enters as the
  result of its \<open>model_def()\<close> and the operations of its records.
\<close>

section \<open>Canonical conjunctions (\<open>expr/existential.rs\<close>)\<close>

record ('x, 'q) expression_spec =
  es_node :: "('x, 'q) expr_node"
  es_ty :: type_def

definition and_node :: "('x, 'q) expr_node \<Rightarrow> ('x, 'q) expr_node \<Rightarrow> ('x, 'q) expr_node" where
  "and_node l r = ExprNode (EBinary OpAnd l r) truth_type_def"

lemma size_and: "en_kind n = EBinary op l r \<Longrightarrow> size l + size r < size n"
  by (cases n) auto

lemma size_pos: "0 < size (n :: ('x, 'q) expr_node)"
  by (cases n) auto

text \<open>The stack of the traversal, its top first, and the leaves found.\<close>

function leaves_loop :: "('x, 'q) expr_node list \<Rightarrow> ('x, 'q) expr_node list \<Rightarrow> ('x, 'q) expr_node list" where
  "leaves_loop [] leaves = leaves"
| "leaves_loop (n # stack) leaves =
     (case en_kind n of
        EBinary op l r \<Rightarrow>
          if op = OpAnd then leaves_loop (l # r # stack) leaves else leaves_loop stack (leaves @ [n])
      | _ \<Rightarrow> leaves_loop stack (leaves @ [n]))"
  by pat_completeness auto

termination
  by (relation "measure (\<lambda>(stack, leaves). sum_list (map size stack))") (auto simp: size_pos size_and add.assoc [symmetric])

fun and_pairs :: "('x, 'q) expr_node list \<Rightarrow> ('x, 'q) expr_node list" where
  "and_pairs (l # r # ns) = and_node l r # and_pairs ns"
| "and_pairs ns = ns"

lemma length_and_pairs: "length (and_pairs ns) = (length ns + 1) div 2"
  by (induction ns rule: and_pairs.induct) auto

function balance :: "('x, 'q) expr_node list \<Rightarrow> ('x, 'q) expr_node list" where
  "balance ns = (if 1 < length ns then balance (and_pairs ns) else ns)"
  by pat_completeness auto
termination
  by (relation "measure length") (auto simp: length_and_pairs)

declare balance.simps [simp del]

definition canonical_truth :: "('x, 'q) expression_spec \<Rightarrow> ('x, 'q) expression_spec" where
  "canonical_truth e =
     (let leaves = balance (leaves_loop [es_node e] [])
      in \<lparr>es_node = (if leaves = [] then es_node e else last leaves), es_ty = truth_type_def\<rparr>)"

definition and_truth :: "('x, 'q) expression_spec \<Rightarrow> ('x, 'q) expression_spec \<Rightarrow> ('x, 'q) expression_spec" where
  "and_truth e e' = canonical_truth \<lparr>es_node = and_node (es_node e) (es_node e'), es_ty = truth_type_def\<rparr>"

section \<open>Authored operations (\<open>ops/mod.rs\<close>)\<close>

record 'r insert_many =
  im_values :: "'r list"
  im_batch_rows :: "nat option"

definition insert_many_new :: "'r list \<Rightarrow> 'r insert_many" where
  "insert_many_new vs = \<lparr>im_values = vs, im_batch_rows = None\<rparr>"

definition with_batch_rows :: "nat \<Rightarrow> 'r insert_many \<Rightarrow> 'r insert_many" where
  "with_batch_rows n w = w\<lparr>im_batch_rows := Some n\<rparr>"

record ('x, 'q) assignment =
  as_model :: string
  as_field :: string
  as_ty :: type_def
  as_value :: "('x, 'q) expression_spec"

record ('x, 'q) update_op =
  up_assignments :: "('x, 'q) assignment list"
  up_condition :: "('x, 'q) expression_spec option"

definition update_new :: "('x, 'q) update_op" where
  "update_new = \<lparr>up_assignments = [], up_condition = None\<rparr>"

text \<open>\<open>filter\<close> of an unscoped and of a scoped operation.\<close>

definition update_filter :: "('x, 'q) expression_spec \<Rightarrow> ('x, 'q) update_op \<Rightarrow> ('x, 'q) update_op" where
  "update_filter e u = u\<lparr>up_condition := Some (canonical_truth e)\<rparr>"

definition conjoin :: "('x, 'q) expression_spec option \<Rightarrow> ('x, 'q) expression_spec \<Rightarrow> ('x, 'q) expression_spec" where
  "conjoin current e =
     (case current of Some c \<Rightarrow> and_truth c (canonical_truth e) | None \<Rightarrow> canonical_truth e)"

definition update_filter_scoped :: "('x, 'q) expression_spec \<Rightarrow> ('x, 'q) update_op \<Rightarrow> ('x, 'q) update_op" where
  "update_filter_scoped e u = u\<lparr>up_condition := Some (conjoin (up_condition u) e)\<rparr>"

definition update_all :: "('x, 'q) update_op \<Rightarrow> ('x, 'q) update_op" where
  "update_all u = u\<lparr>up_condition := None\<rparr>"

definition update_set :: "('x, 'q) assignment \<Rightarrow> ('x, 'q) update_op \<Rightarrow> ('x, 'q) update_op" where
  "update_set a u = u\<lparr>up_assignments := up_assignments u @ [a]\<rparr>"

text \<open>A delete is its condition.\<close>

definition delete_filter :: "('x, 'q) expression_spec \<Rightarrow> ('x, 'q) expression_spec option" where
  "delete_filter e = Some (canonical_truth e)"

definition delete_filter_scoped :: "('x, 'q) expression_spec \<Rightarrow> ('x, 'q) expression_spec option \<Rightarrow>
    ('x, 'q) expression_spec option" where
  "delete_filter_scoped e current = Some (conjoin current e)"

section \<open>Preparation (\<open>ops/prepare.rs\<close>)\<close>

record 'x prepared_assignment =
  pa_field :: nat
  pa_key :: string
  pa_expression :: "'x prepared_expression"

record 'x prepared_update =
  pu_assignments :: "'x prepared_assignment list"
  pu_condition :: "'x prepared_expression option"

definition write_batch_001 :: diagnostic where
  "write_batch_001 = diagnostic_error ''WRITE-BATCH-001'' ''insert batch size must be greater than zero''"
definition write_update_001 :: diagnostic where
  "write_update_001 = diagnostic_error ''WRITE-UPDATE-001'' ''update must assign at least one field''"
definition write_update_002 :: "string \<Rightarrow> diagnostic" where
  "write_update_002 f = diagnostic_error ''WRITE-UPDATE-002'' (''field `'' @ f @ ''` is assigned more than once'')"
definition write_update_003 :: "string \<Rightarrow> string \<Rightarrow> string \<Rightarrow> diagnostic" where
  "write_update_003 f m m' = diagnostic_error ''WRITE-UPDATE-003''
     (''field `'' @ f @ ''` belongs to model `'' @ m @ ''`, not `'' @ m' @ ''`'')"
definition write_update_004 :: "string \<Rightarrow> diagnostic" where
  "write_update_004 f = diagnostic_error ''WRITE-UPDATE-004'' (''model does not define field `'' @ f @ ''`'')"
definition write_update_005_type :: "string \<Rightarrow> diagnostic" where
  "write_update_005_type f = diagnostic_error ''WRITE-UPDATE-005''
     (''assignment type for field `'' @ f @ ''` does not match the model'')"
definition write_update_005_expression :: "string \<Rightarrow> diagnostic" where
  "write_update_005_expression f = diagnostic_error ''WRITE-UPDATE-005''
     (''assignment expression for field `'' @ f @ ''` has the wrong semantic type'')"
definition write_scope_001 :: diagnostic where
  "write_scope_001 = diagnostic_error ''WRITE-SCOPE-001''
     ''all-row acknowledgement cannot also carry a filter condition''"
definition write_scope_002 :: diagnostic where
  "write_scope_002 = diagnostic_error ''WRITE-SCOPE-002''
     ''scoped destructive operation is missing its filter condition''"

definition validate_batch_size :: "nat option \<Rightarrow> unit res" where
  "validate_batch_size n = (if n = Some 0 then Inl write_batch_001 else Inr ())"

definition prepare_spec :: "digest \<Rightarrow> 'x scalar_ops \<Rightarrow> ('q \<Rightarrow> byte list res) \<Rightarrow> bind_context \<Rightarrow>
    ('x, 'q) expression_spec \<Rightarrow> 'x prepared_expression res" where
  "prepare_spec B S Q c e = prepare_expression B S Q (es_node e) (es_ty e) c default_expression_limits"

definition prepare_assignment :: "digest \<Rightarrow> 'x scalar_ops \<Rightarrow> ('q \<Rightarrow> byte list res) \<Rightarrow> model_def \<Rightarrow>
    ('x, 'q) assignment \<Rightarrow> 'x prepared_assignment res" where
  "prepare_assignment B S Q m a =
     (if as_model a \<noteq> md_key m then Inl (write_update_003 (as_field a) (as_model a) (md_key m))
      else and_then (ok_or (model_field m (as_field a)) (write_update_004 (as_field a))) (\<lambda>f.
        if fd_ty f \<noteq> as_ty a then Inl (write_update_005_type (as_field a))
        else and_then (prepare_spec B S Q (bind_single m) (as_value a)) (\<lambda>e.
          if pe_ty e \<noteq> as_ty a then Inl (write_update_005_expression (as_field a))
          else Inr \<lparr>pa_field = slot_index f, pa_key = fd_key f, pa_expression = e\<rparr>)))"

fun assignments_loop :: "digest \<Rightarrow> 'x scalar_ops \<Rightarrow> ('q \<Rightarrow> byte list res) \<Rightarrow> model_def \<Rightarrow> string option \<Rightarrow>
    ('x, 'q) assignment list \<Rightarrow> 'x prepared_assignment list res" where
  "assignments_loop B S Q m previous [] = Inr []"
| "assignments_loop B S Q m previous (a # as) =
     (if previous = Some (as_field a) then Inl (write_update_002 (as_field a))
      else and_then (prepare_assignment B S Q m a) (\<lambda>p.
           and_then (assignments_loop B S Q m (Some (as_field a)) as) (\<lambda>ps. Inr (p # ps))))"

definition prepare_condition :: "digest \<Rightarrow> 'x scalar_ops \<Rightarrow> ('q \<Rightarrow> byte list res) \<Rightarrow> bind_context \<Rightarrow>
    ('x, 'q) expression_spec option \<Rightarrow> bool \<Rightarrow> 'x prepared_expression option res" where
  "prepare_condition B S Q c condition all =
     (case condition of
        Some e \<Rightarrow> if all then Inl write_scope_001 else and_then (prepare_spec B S Q c e) (\<lambda>p. Inr (Some p))
      | None \<Rightarrow> if all then Inr None else Inl write_scope_002)"

definition prepare_update :: "digest \<Rightarrow> 'x scalar_ops \<Rightarrow> ('q \<Rightarrow> byte list res) \<Rightarrow> model_def res \<Rightarrow>
    ('x, 'q) update_op \<Rightarrow> bool \<Rightarrow> 'x prepared_update res" where
  "prepare_update B S Q model u all =
     (if up_assignments u = [] then Inl write_update_001
      else and_then model (\<lambda>m.
           and_then (assignments_loop B S Q m None (sort_key as_field (up_assignments u))) (\<lambda>as.
           and_then (prepare_condition B S Q (bind_single m) (up_condition u) all) (\<lambda>c.
             Inr \<lparr>pu_assignments = as, pu_condition = c\<rparr>))))"

definition prepare_delete :: "digest \<Rightarrow> 'x scalar_ops \<Rightarrow> ('q \<Rightarrow> byte list res) \<Rightarrow> model_def res \<Rightarrow>
    ('x, 'q) expression_spec option \<Rightarrow> bool \<Rightarrow> 'x prepared_expression option res" where
  "prepare_delete B S Q model condition all =
     and_then model (\<lambda>m. prepare_condition B S Q (bind_single m) condition all)"

section \<open>Fingerprints of writes\<close>

definition write_hasher :: "digest \<Rightarrow> model_def res \<Rightarrow> byte \<Rightarrow> hasher res" where
  "write_hasher B model kind =
     and_then model (\<lambda>m. Inr (h_bytes (fingerprint_model B m) (h_u8 kind (hasher_new ''write/v1''))))"

definition hash_scope :: "'x prepared_expression option \<Rightarrow> bool \<Rightarrow> hasher \<Rightarrow> hasher" where
  "hash_scope condition all h =
     (case condition of
        None \<Rightarrow> h_u8 (u8_from_bool all) h
      | Some c \<Rightarrow> h_bytes (pe_bound_fingerprint c) (h_u8 (u8_from_bool all) h))"

definition fingerprint_insert :: "digest \<Rightarrow> 'x ext \<Rightarrow> model_def res \<Rightarrow> 'x record_view \<Rightarrow> byte list res" where
  "fingerprint_insert B X model record =
     and_then model (\<lambda>m.
     and_then (validate_record_against B X m record) (\<lambda>_.
     and_then (write_hasher B model 0) (\<lambda>h.
     and_then (fingerprint_record B X m record) (\<lambda>fp. Inr (hasher_finish B (h_bytes fp h))))))"

definition fingerprint_insert_many :: "digest \<Rightarrow> 'x ext \<Rightarrow> model_def res \<Rightarrow> 'x record_view insert_many \<Rightarrow>
    byte list res" where
  "fingerprint_insert_many B X model w =
     and_then (validate_batch_size (im_batch_rows w)) (\<lambda>_.
     and_then model (\<lambda>m.
     and_then (validate_dataset B X m (im_values w)) (\<lambda>_.
     and_then (write_hasher B model 1) (\<lambda>h.
     and_then (try_each (\<lambda>record h. and_then (fingerprint_record B X m record) (\<lambda>fp. Inr (h_bytes fp h)))
         (im_values w) (h_u64 (of_nat (length (im_values w))) h)) (\<lambda>h.
       Inr (hasher_finish B h))))))"

definition fingerprint_update :: "digest \<Rightarrow> 'x scalar_ops \<Rightarrow> ('q \<Rightarrow> byte list res) \<Rightarrow> model_def res \<Rightarrow>
    ('x, 'q) update_op \<Rightarrow> bool \<Rightarrow> byte list res" where
  "fingerprint_update B S Q model u all =
     and_then (prepare_update B S Q model u all) (\<lambda>p.
     and_then (write_hasher B model 2) (\<lambda>h.
       Inr (hasher_finish B (updates
         [hash_scope (pu_condition p) all, h_u64 (of_nat (length (pu_assignments p))),
          h_each (map (\<lambda>a. updates [h_str (pa_key a), h_bytes (pe_bound_fingerprint (pa_expression a))])
            (pu_assignments p))] h))))"

definition fingerprint_delete :: "digest \<Rightarrow> 'x scalar_ops \<Rightarrow> ('q \<Rightarrow> byte list res) \<Rightarrow> model_def res \<Rightarrow>
    ('x, 'q) expression_spec option \<Rightarrow> bool \<Rightarrow> byte list res" where
  "fingerprint_delete B S Q model condition all =
     and_then (prepare_delete B S Q model condition all) (\<lambda>p.
     and_then (write_hasher B model 3) (\<lambda>h. Inr (hasher_finish B (hash_scope p all h))))"

section \<open>Logical writes (\<open>ops/logical.rs\<close>)\<close>

datatype write_kind = KindInsert | KindInsertMany | KindUpdate | KindDelete

datatype write_scope = ScopeFiltered | ScopeAll

record 'x logical_insert =
  li_model :: model_def
  li_row :: "'x dyn_row"
  li_fingerprint :: "byte list"

record 'x logical_insert_many =
  lm_model :: model_def
  lm_rows :: "'x dyn_row list"
  lm_batch_rows :: "nat option"
  lm_fingerprint :: "byte list"

record 'x logical_update =
  lu_model :: model_def
  lu_assignments :: "'x prepared_assignment list"
  lu_condition :: "'x prepared_expression option"
  lu_scope :: write_scope
  lu_fingerprint :: "byte list"

record 'x logical_delete =
  ld_model :: model_def
  ld_condition :: "'x prepared_expression option"
  ld_scope :: write_scope
  ld_fingerprint :: "byte list"

datatype 'x logical_write =
    LInsert "'x logical_insert"
  | LInsertMany "'x logical_insert_many"
  | LUpdate "'x logical_update"
  | LDelete "'x logical_delete"

fun write_kind_of :: "'x logical_write \<Rightarrow> write_kind" where
  "write_kind_of (LInsert w) = KindInsert"
| "write_kind_of (LInsertMany w) = KindInsertMany"
| "write_kind_of (LUpdate w) = KindUpdate"
| "write_kind_of (LDelete w) = KindDelete"

fun write_model :: "'x logical_write \<Rightarrow> model_def" where
  "write_model (LInsert w) = li_model w"
| "write_model (LInsertMany w) = lm_model w"
| "write_model (LUpdate w) = lu_model w"
| "write_model (LDelete w) = ld_model w"

fun write_fingerprint :: "'x logical_write \<Rightarrow> byte list" where
  "write_fingerprint (LInsert w) = li_fingerprint w"
| "write_fingerprint (LInsertMany w) = lm_fingerprint w"
| "write_fingerprint (LUpdate w) = lu_fingerprint w"
| "write_fingerprint (LDelete w) = ld_fingerprint w"

definition logical_insert_of :: "digest \<Rightarrow> 'x ext \<Rightarrow> model_def res \<Rightarrow> 'x record_view \<Rightarrow> 'x logical_write res" where
  "logical_insert_of B X model record =
     and_then model (\<lambda>m.
     and_then (row_from_record X record) (\<lambda>r.
     and_then (fingerprint_insert B X model record) (\<lambda>fp.
       Inr (LInsert \<lparr>li_model = m, li_row = r, li_fingerprint = fp\<rparr>))))"

definition logical_insert_many_of :: "digest \<Rightarrow> 'x ext \<Rightarrow> model_def res \<Rightarrow> 'x record_view insert_many \<Rightarrow>
    'x logical_write res" where
  "logical_insert_many_of B X model w =
     and_then (try_map (row_from_record X) (im_values w)) (\<lambda>rows.
     and_then model (\<lambda>m.
     and_then (fingerprint_insert_many B X model w) (\<lambda>fp.
       Inr (LInsertMany \<lparr>lm_model = m, lm_rows = rows, lm_batch_rows = im_batch_rows w, lm_fingerprint = fp\<rparr>))))"

definition scope_of :: "bool \<Rightarrow> write_scope" where
  "scope_of all = (if all then ScopeAll else ScopeFiltered)"

definition logical_update_of :: "digest \<Rightarrow> 'x scalar_ops \<Rightarrow> ('q \<Rightarrow> byte list res) \<Rightarrow> model_def res \<Rightarrow>
    ('x, 'q) update_op \<Rightarrow> bool \<Rightarrow> 'x logical_write res" where
  "logical_update_of B S Q model u all =
     and_then (prepare_update B S Q model u all) (\<lambda>p.
     and_then model (\<lambda>m.
     and_then (fingerprint_update B S Q model u all) (\<lambda>fp.
       Inr (LUpdate \<lparr>lu_model = m, lu_assignments = pu_assignments p, lu_condition = pu_condition p,
                     lu_scope = scope_of all, lu_fingerprint = fp\<rparr>))))"

definition logical_delete_of :: "digest \<Rightarrow> 'x scalar_ops \<Rightarrow> ('q \<Rightarrow> byte list res) \<Rightarrow> model_def res \<Rightarrow>
    ('x, 'q) expression_spec option \<Rightarrow> bool \<Rightarrow> 'x logical_write res" where
  "logical_delete_of B S Q model condition all =
     and_then (prepare_delete B S Q model condition all) (\<lambda>c.
     and_then model (\<lambda>m.
     and_then (fingerprint_delete B S Q model condition all) (\<lambda>fp.
       Inr (LDelete \<lparr>ld_model = m, ld_condition = c, ld_scope = scope_of all, ld_fingerprint = fp\<rparr>))))"

end
