(* ===== verification/Data_Write.thy ===== *)
theory Data_Write
  imports Write_Op
begin

text \<open>
  \<open>data/mod.rs\<close> and \<open>data/write.rs\<close> of \<open>dol-core\<close>: eager data sets and the normative local semantics of
  writes and filters. A data set is the list of its values; the type of its records enters as \<open>model_def()\<close>
  and the two operations of \<open>RecordView\<close> and \<open>RecordMut\<close>.
\<close>

record ('x, 'r) record_ops =
  ro_model :: "model_def res"
  ro_view :: "'r \<Rightarrow> 'x record_view"
  ro_set_field :: "nat \<Rightarrow> 'x datum \<Rightarrow> 'r \<Rightarrow> 'r res"

definition write_filter_001 :: diagnostic where
  "write_filter_001 = diagnostic_error ''WRITE-FILTER-001''
     ''prepared write filter did not evaluate to DOL truth''"

definition data_validate :: "digest \<Rightarrow> 'x ext \<Rightarrow> ('x, 'r) record_ops \<Rightarrow> 'r list \<Rightarrow> unit res" where
  "data_validate B X R data = and_then (ro_model R) (\<lambda>m. validate_dataset B X m (map (ro_view R) data))"

definition validate_record :: "digest \<Rightarrow> 'x ext \<Rightarrow> ('x, 'r) record_ops \<Rightarrow> 'r \<Rightarrow> unit res" where
  "validate_record B X R record = and_then (ro_model R) (\<lambda>m. validate_record_against B X m (ro_view R record))"

definition data_try_new :: "digest \<Rightarrow> 'x ext \<Rightarrow> ('x, 'r) record_ops \<Rightarrow> 'r list \<Rightarrow> 'r list res" where
  "data_try_new B X R vs = and_then (data_validate B X R vs) (\<lambda>_. Inr vs)"

fun filter_loop :: "'x scalar_ops \<Rightarrow> ('x, 'r) record_ops \<Rightarrow> 'x prepared_expression \<Rightarrow> 'r list \<Rightarrow> 'r list res" where
  "filter_loop S R p [] = Inr []"
| "filter_loop S R p (row # rows) =
     and_then (evaluate_datum S p (eval_context_single (ro_view R row))) (\<lambda>d.
     and_then (filter_loop S R p rows) (\<lambda>retained.
       Inr (if d = Value (VTruth TTrue) then row # retained else retained)))"

text \<open>\<open>filter\<close> prepares its condition for the model, with the default limits.\<close>

definition data_filter :: "digest \<Rightarrow> 'x scalar_ops \<Rightarrow> ('q \<Rightarrow> byte list res) \<Rightarrow> ('x, 'r) record_ops \<Rightarrow>
    ('x, 'q) expression_spec \<Rightarrow> 'r list \<Rightarrow> 'r list res" where
  "data_filter B S Q R condition data =
     and_then (data_validate B (ops_ext S) R data) (\<lambda>_.
     and_then (ro_model R) (\<lambda>m.
     and_then (prepare_spec B S Q (bind_single m) condition) (\<lambda>p. filter_loop S R p data)))"

section \<open>Inserts\<close>

definition local_insert :: "digest \<Rightarrow> 'x ext \<Rightarrow> ('x, 'r) record_ops \<Rightarrow> 'r \<Rightarrow> 'r list \<Rightarrow> 'r list \<times> nat res" where
  "local_insert B X R record data =
     (case validate_record B X R record of
        Inl e \<Rightarrow> (data, Inl e)
      | Inr _ \<Rightarrow>
          (case data_validate B X R (data @ [record]) of
             Inl e \<Rightarrow> (butlast (data @ [record]), Inl e)
           | Inr _ \<Rightarrow> (data @ [record], Inr 1)))"

definition local_insert_many :: "digest \<Rightarrow> 'x ext \<Rightarrow> ('x, 'r) record_ops \<Rightarrow> 'r insert_many \<Rightarrow> 'r list \<Rightarrow>
    'r list \<times> nat res" where
  "local_insert_many B X R w data =
     (case and_then (validate_batch_size (im_batch_rows w)) (\<lambda>_. data_validate B X R (im_values w)) of
        Inl e \<Rightarrow> (data, Inl e)
      | Inr _ \<Rightarrow>
          (case data_validate B X R (data @ im_values w) of
             Inl e \<Rightarrow> (take (length data) (data @ im_values w), Inl e)
           | Inr _ \<Rightarrow> (data @ im_values w, Inr (length (im_values w)))))"

section \<open>Updates and deletes\<close>

definition local_selected :: "'x scalar_ops \<Rightarrow> 'x prepared_expression option \<Rightarrow> 'x record_view \<Rightarrow> bool res" where
  "local_selected S condition row =
     (case condition of
        None \<Rightarrow> Inr True
      | Some c \<Rightarrow>
          and_then (evaluate_datum S c (eval_context_single row)) (\<lambda>d.
            case d of Value (VTruth t) \<Rightarrow> Inr (t = TTrue) | _ \<Rightarrow> Inl write_filter_001))"

definition local_set_fields :: "('x, 'r) record_ops \<Rightarrow> (nat \<times> 'x datum) list \<Rightarrow> 'r \<Rightarrow> 'r res" where
  "local_set_fields R = try_each (\<lambda>(slot, d). ro_set_field R slot d)"

fun local_update_rows :: "'x scalar_ops \<Rightarrow> ('x, 'r) record_ops \<Rightarrow> 'x prepared_update \<Rightarrow> 'r list \<Rightarrow> ('r list \<times> nat) res" where
  "local_update_rows S R p [] = Inr ([], 0)"
| "local_update_rows S R p (row # rows) =
     and_then (local_selected S (pu_condition p) (ro_view R row)) (\<lambda>b.
     and_then
       (if b
        then and_then (try_map (\<lambda>a. evaluate_datum S (pa_expression a) (eval_context_single (ro_view R row)))
                         (pu_assignments p)) (\<lambda>vs.
               local_set_fields R (zip (map pa_field (pu_assignments p)) vs) row)
        else Inr row) (\<lambda>row'.
     and_then (local_update_rows S R p rows) (\<lambda>(rows', affected).
       Inr (row' # rows', (if b then 1 else 0) + affected))))"

text \<open>The update works on a copy that replaces the data when it is valid.\<close>

definition local_apply_update :: "digest \<Rightarrow> 'x scalar_ops \<Rightarrow> ('x, 'r) record_ops \<Rightarrow> 'x prepared_update \<Rightarrow> 'r list \<Rightarrow>
    'r list \<times> nat res" where
  "local_apply_update B S R p data =
     (case and_then (try_all (validate_record B (ops_ext S) R) data) (\<lambda>_.
           and_then (local_update_rows S R p data) (\<lambda>(candidate, affected).
           and_then (data_validate B (ops_ext S) R candidate) (\<lambda>_. Inr (candidate, affected)))) of
        Inl e \<Rightarrow> (data, Inl e)
      | Inr (candidate, affected) \<Rightarrow> (candidate, Inr affected))"

definition local_update :: "digest \<Rightarrow> 'x scalar_ops \<Rightarrow> ('q \<Rightarrow> byte list res) \<Rightarrow> ('x, 'r) record_ops \<Rightarrow>
    ('x, 'q) update_op \<Rightarrow> bool \<Rightarrow> 'r list \<Rightarrow> 'r list \<times> nat res" where
  "local_update B S Q R u all data =
     (case prepare_update B S Q (ro_model R) u all of
        Inl e \<Rightarrow> (data, Inl e)
      | Inr p \<Rightarrow> local_apply_update B S R p data)"

text \<open>\<open>retain\<close> keeps the rows whose flag, by their index, is not set.\<close>

definition local_apply_delete :: "digest \<Rightarrow> 'x scalar_ops \<Rightarrow> ('x, 'r) record_ops \<Rightarrow> 'x prepared_expression option \<Rightarrow>
    'r list \<Rightarrow> 'r list \<times> nat res" where
  "local_apply_delete B S R condition data =
     (case and_then (try_all (validate_record B (ops_ext S) R) data) (\<lambda>_.
           try_map (\<lambda>row. local_selected S condition (ro_view R row)) data) of
        Inl e \<Rightarrow> (data, Inl e)
      | Inr flags \<Rightarrow>
          (map snd (filter (\<lambda>(i, row). \<not> flags ! i) (enumerate 0 data)), Inr (length (filter id flags))))"

definition local_delete :: "digest \<Rightarrow> 'x scalar_ops \<Rightarrow> ('q \<Rightarrow> byte list res) \<Rightarrow> ('x, 'r) record_ops \<Rightarrow>
    ('x, 'q) expression_spec option \<Rightarrow> bool \<Rightarrow> 'r list \<Rightarrow> 'r list \<times> nat res" where
  "local_delete B S Q R condition all data =
     (case prepare_delete B S Q (ro_model R) condition all of
        Inl e \<Rightarrow> (data, Inl e)
      | Inr c \<Rightarrow> local_apply_delete B S R c data)"

section \<open>All writes\<close>

text \<open>The implementations of \<open>DataSetWrite\<close> and of \<open>WriteSource\<close>, by the type of the operation.\<close>

datatype ('x, 'q, 'r) authored =
    AInsert 'r
  | AInsertMany "'r insert_many"
  | AUpdate "('x, 'q) update_op" bool
  | ADelete "('x, 'q) expression_spec option" bool

fun data_apply :: "digest \<Rightarrow> 'x scalar_ops \<Rightarrow> ('q \<Rightarrow> byte list res) \<Rightarrow> ('x, 'r) record_ops \<Rightarrow>
    ('x, 'q, 'r) authored \<Rightarrow> 'r list \<Rightarrow> 'r list \<times> nat res" where
  "data_apply B S Q R (AInsert record) data = local_insert B (ops_ext S) R record data"
| "data_apply B S Q R (AInsertMany w) data = local_insert_many B (ops_ext S) R w data"
| "data_apply B S Q R (AUpdate u all) data = local_update B S Q R u all data"
| "data_apply B S Q R (ADelete c all) data = local_delete B S Q R c all data"

fun logical_write_of :: "digest \<Rightarrow> 'x scalar_ops \<Rightarrow> ('q \<Rightarrow> byte list res) \<Rightarrow> ('x, 'r) record_ops \<Rightarrow>
    ('x, 'q, 'r) authored \<Rightarrow> 'x logical_write res" where
  "logical_write_of B S Q R (AInsert record) = logical_insert_of B (ops_ext S) (ro_model R) (ro_view R record)"
| "logical_write_of B S Q R (AInsertMany w) =
     logical_insert_many_of B (ops_ext S) (ro_model R)
       \<lparr>im_values = map (ro_view R) (im_values w), im_batch_rows = im_batch_rows w\<rparr>"
| "logical_write_of B S Q R (AUpdate u all) = logical_update_of B S Q (ro_model R) u all"
| "logical_write_of B S Q R (ADelete c all) = logical_delete_of B S Q (ro_model R) c all"

end
