(* ===== verification/Value_Conformance.thy ===== *)
theory Value_Conformance
  imports Value_Validate
begin

text \<open>
  The abstract specification of \<open>value/validate.rs\<close>: the judgement that a value is of a type, as an
  inductive relation without any order of checks or error codes, and the proof that the validator
  decides it. Keys of a map are pairwise different under the equality of datums, and a record has no
  undeclared field and lacks only optional ones.
\<close>

section \<open>The judgement\<close>

inductive of_type :: "'x ext \<Rightarrow> type_def \<Rightarrow> 'x val \<Rightarrow> bool"
and of_nested_type :: "'x ext \<Rightarrow> type_def \<Rightarrow> 'x datum \<Rightarrow> bool" for X :: "'x ext" where
  of_scalar: "ty_shape ty = ShScalar repr \<Longrightarrow> scalar_matches repr v \<Longrightarrow> of_type X ty v"
| of_list: "ty_shape ty = ShList element \<Longrightarrow> \<forall>d \<in> set ds. of_nested_type X element d \<Longrightarrow>
    of_type X ty (VList ds)"
| of_map: "ty_shape ty = ShMap kt vt \<Longrightarrow>
    \<forall>e \<in> set es. of_nested_type X kt (fst e) \<and> of_nested_type X vt (snd e) \<Longrightarrow>
    sorted_wrt (\<lambda>a b. \<not> datum_eq X (fst a) (fst b)) es \<Longrightarrow> of_type X ty (VMap es)"
| of_tuple: "ty_shape ty = ShTuple elements \<Longrightarrow> list_all2 (of_nested_type X) elements ds \<Longrightarrow>
    of_type X ty (VTuple ds)"
| of_record: "ty_shape ty = ShRecord fs \<Longrightarrow> fst ` set m \<subseteq> rf_name ` set fs \<Longrightarrow>
    \<forall>f \<in> set fs. (map_of m (rf_name f) = None \<longrightarrow> rf_presence f = Optional) \<and>
      (\<forall>d. map_of m (rf_name f) = Some d \<longrightarrow> of_nested_type X (rf_ty f) d) \<Longrightarrow>
    of_type X ty (VRecord m)"
| of_null: "is_nullable ty \<Longrightarrow> of_nested_type X ty Null"
| of_value: "of_type X ty v \<Longrightarrow> of_nested_type X ty (Value v)"

inductive_simps of_nested_type_simps:
  "of_nested_type X ty Missing" "of_nested_type X ty Null" "of_nested_type X ty (Value v)"

inductive_simps of_type_shape: "of_type X (TypeDef k vn sh n p ps) v"

text \<open>The presence of a field adds the top-level rules.\<close>

definition of_field :: "'x ext \<Rightarrow> type_def \<Rightarrow> presence \<Rightarrow> 'x datum \<Rightarrow> bool" where
  "of_field X ty presence d =
     (case d of
        Missing \<Rightarrow> presence = Optional
      | Null \<Rightarrow> ty_nullability ty = Nullable
      | Value v \<Rightarrow> of_type X ty v)"

section \<open>The loops\<close>

lemma validate_entries_ok:
  "validate_entries X ckey cval seen es = Inr () \<longleftrightarrow>
     (\<forall>e \<in> set es. ckey (fst e) = Inr () \<and> cval (snd e) = Inr ()) \<and>
     (\<forall>s \<in> set seen. \<forall>e \<in> set es. \<not> datum_eq X (fst s) (fst e)) \<and>
     sorted_wrt (\<lambda>a b. \<not> datum_eq X (fst a) (fst b)) es"
  by (induction X ckey cval seen es rule: validate_entries.induct) (auto simp: and_then_Inr list_ex_iff)

lemma validate_zip_ok:
  "length cs = length ds \<Longrightarrow> validate_zip cs ds = Inr () \<longleftrightarrow> list_all2 (\<lambda>c d. c d = Inr ()) cs ds"
  by (induction cs ds rule: list_induct2) (auto simp: and_then_Inr)

lemma unknown_field_iff: "\<not> unknown_field fs m \<longleftrightarrow> fst ` set m \<subseteq> rf_name ` set fs"
  by (force simp: unknown_field_def list_ex_iff)

lemma validate_field_ok:
  "validate_field m f check = Inr () \<longleftrightarrow>
     (case map_of m (rf_name f) of Some d \<Rightarrow> check d = Inr () | None \<Rightarrow> rf_presence f = Optional)"
  by (auto simp: validate_field_def split: option.splits)

section \<open>The validator decides the judgement\<close>

declare validate_nested.simps [simp del]

lemma validate_value_ok:
  "validate_value X ty v = Inr () \<longleftrightarrow> of_type X ty v"
  "validate_nested X ty d = Inr () \<longleftrightarrow> of_nested_type X ty d"
proof (induction X ty v and X ty d rule: validate_value_validate_nested.induct)
  case (1 X k vn sh n p ps v)
  show ?case
  proof (cases sh)
    case (ShScalar repr)
    then show ?thesis by (auto simp: of_type_shape)
  next
    case (ShList element)
    then show ?thesis using 1 by (cases v) (auto simp: of_type_shape result_simps)
  next
    case (ShMap kt vt)
    then show ?thesis using 1 by (cases v) (auto simp: of_type_shape validate_entries_ok)
  next
    case (ShTuple elements)
    show ?thesis
    proof (cases v)
      case (VTuple ds)
      have "validate_nested X t d = Inr () \<longleftrightarrow> of_nested_type X t d"
        if "t \<in> set elements" "length ds = length elements" for t d
        using 1 that by (simp add: ShTuple VTuple)
      then have "list_all2 (\<lambda>c d. c d = Inr ()) (map (\<lambda>t d. validate_nested X t d) elements) ds \<longleftrightarrow>
          list_all2 (of_nested_type X) elements ds"
        by (auto simp: list_all2_conv_all_nth)
      then show ?thesis
        using validate_zip_ok [of "map (\<lambda>t d. validate_nested X t d) elements" ds]
        by (auto simp: of_type_shape ShTuple VTuple dest: list_all2_lengthD)
    qed (auto simp: of_type_shape ShTuple)
  next
    case (ShRecord fs)
    show ?thesis
    proof (cases v)
      case (VRecord m)
      have "validate_nested X (rf_ty f) d = Inr () \<longleftrightarrow> of_nested_type X (rf_ty f) d"
        if "f \<in> set fs" "\<not> unknown_field fs m" for f d
        using 1 that by (simp add: ShRecord VRecord)
      then have "try_all (\<lambda>f. validate_field m f (\<lambda>d. validate_nested X (rf_ty f) d)) fs = Inr () \<longleftrightarrow>
          (\<forall>f \<in> set fs. (map_of m (rf_name f) = None \<longrightarrow> rf_presence f = Optional) \<and>
             (\<forall>d. map_of m (rf_name f) = Some d \<longrightarrow> of_nested_type X (rf_ty f) d))"
        if "\<not> unknown_field fs m"
        unfolding try_all_ok validate_field_ok using that by (intro ball_cong refl) (simp split: option.splits)
      then show ?thesis
        by (cases "unknown_field fs m") (auto simp: of_type_shape ShRecord VRecord simp flip: unknown_field_iff)
    qed (auto simp: of_type_shape ShRecord)
  qed
next
  case (2 X ty d)
  then show ?case by (cases d) (simp_all add: of_nested_type_simps validate_nested.simps)
qed

lemma validate_datum_ok: "validate_datum X ty presence d = Inr () \<longleftrightarrow> of_field X ty presence d"
  by (cases d; cases presence; cases "ty_nullability ty") (auto simp: of_field_def validate_value_ok)

section \<open>What conforming values have\<close>

lemma of_map_distinct:
  assumes "of_type X ty (VMap es)" and "i < j" and "j < length es"
  shows "\<not> datum_eq X (fst (es ! i)) (fst (es ! j))"
  using assms by (cases rule: of_type.cases) (auto simp: sorted_wrt_iff_nth_less scalar_matches_def)

lemma of_int_range:
  assumes "of_type X ty (VInt n)" and "ty_shape ty = ShScalar (RInt bits)"
  shows "bits \<in> {8, 16, 32, 64, 128} \<and> - (2 ^ (unat bits - 1)) \<le> sint n \<and> sint n < 2 ^ (unat bits - 1)"
  using assms sint_range_size [of n]
  by (cases rule: of_type.cases) (auto simp: scalar_matches_def signed_fits_def word_size split: if_splits)

end
