(* ===== verification/Value_Equality.thy ===== *)
theory Value_Equality
  imports Fingerprint Value_Conformance
begin

text \<open>
  The equality of values and its fingerprint. \<open>maps_equal\<close> looks every left entry up on the right, which is no
  equivalence in general; on values whose maps have no duplicate key, as validation ensures, equality is
  symmetric and transitive (not reflexive: NaN), and equal values are hashed alike.
\<close>

section \<open>Laws of the scalars\<close>

text \<open>
  The documented contract of \<open>Eq\<close> on the third-party scalars: a partial equivalence under which
  normalized decimals, UUIDs and calendar values have the same components.
\<close>

definition same_clock :: "'x ext \<Rightarrow> 'x \<Rightarrow> 'x \<Rightarrow> bool" where
  "same_clock X a b \<longleftrightarrow>
     time_hour X a = time_hour X b \<and> time_minute X a = time_minute X b \<and>
     time_second X a = time_second X b \<and> time_nanosecond X a = time_nanosecond X b"

definition ext_eq_laws :: "'x ext \<Rightarrow> bool" where
  "ext_eq_laws X \<longleftrightarrow>
     (\<forall>k a b. x_eq X k a b \<longrightarrow> x_eq X k b a) \<and>
     (\<forall>k a b c. x_eq X k a b \<and> x_eq X k b c \<longrightarrow> x_eq X k a c) \<and>
     (\<forall>a b. x_eq X KDecimal a b \<longrightarrow>
        dec_mantissa X (dec_normalize X a) = dec_mantissa X (dec_normalize X b) \<and>
        dec_scale X (dec_normalize X a) = dec_scale X (dec_normalize X b)) \<and>
     (\<forall>a b. x_eq X KUuid a b \<longrightarrow> uuid_as_bytes X a = uuid_as_bytes X b) \<and>
     (\<forall>a b. x_eq X KDate a b \<longrightarrow> date_to_julian_day X a = date_to_julian_day X b) \<and>
     (\<forall>a b. x_eq X KTime a b \<longrightarrow> same_clock X a b) \<and>
     (\<forall>a b. x_eq X KLocalDateTime a b \<longrightarrow>
        date_to_julian_day X (datetime_date X a) = date_to_julian_day X (datetime_date X b) \<and>
        same_clock X (datetime_time X a) (datetime_time X b)) \<and>
     (\<forall>a b. x_eq X KInstant a b \<longrightarrow> instant_unix_nanos X a = instant_unix_nanos X b) \<and>
     (\<forall>a b. x_eq X KDuration a b \<longrightarrow> duration_whole_nanos X a = duration_whole_nanos X b)"

lemma ext_eq_sym: "ext_eq_laws X \<Longrightarrow> x_eq X k a b \<Longrightarrow> x_eq X k b a"
  unfolding ext_eq_laws_def by (drule conjunct1) iprover

lemma ext_eq_trans: "ext_eq_laws X \<Longrightarrow> x_eq X k a b \<Longrightarrow> x_eq X k b c \<Longrightarrow> x_eq X k a c"
  unfolding ext_eq_laws_def by (drule conjunct2, drule conjunct1) iprover

lemma float_eq:
  "f32_eq a b \<Longrightarrow> f32_eq b a" "f32_eq a b \<Longrightarrow> f32_eq b c \<Longrightarrow> f32_eq a c"
  "f64_eq d e \<Longrightarrow> f64_eq e d" "f64_eq d e \<Longrightarrow> f64_eq e g \<Longrightarrow> f64_eq d g"
  by (auto simp: f32_eq_def f64_eq_def f32_is_nan_def f64_is_nan_def f32_is_zero_def f64_is_zero_def)

section \<open>Distinct keys\<close>

primrec value_distinct :: "'x ext \<Rightarrow> 'x val \<Rightarrow> bool"
and datum_distinct :: "'x ext \<Rightarrow> 'x datum \<Rightarrow> bool" where
  "value_distinct X (VBool v) = True"
| "value_distinct X (VTruth v) = True"
| "value_distinct X (VInt v) = True"
| "value_distinct X (VUInt v) = True"
| "value_distinct X (VFloat32 v) = True"
| "value_distinct X (VFloat64 v) = True"
| "value_distinct X (VDecimal v) = True"
| "value_distinct X (VChar v) = True"
| "value_distinct X (VString v) = True"
| "value_distinct X (VBytes v) = True"
| "value_distinct X (VUuid v) = True"
| "value_distinct X (VDate v) = True"
| "value_distinct X (VTime v) = True"
| "value_distinct X (VLocalDateTime v) = True"
| "value_distinct X (VInstant v) = True"
| "value_distinct X (VDuration v) = True"
| "value_distinct X (VList ds) = list_all id (map (datum_distinct X) ds)"
| "value_distinct X (VMap es) =
     (sorted_wrt (\<lambda>a b. \<not> datum_eq X (fst a) (fst b)) es \<and>
      list_all (\<lambda>e. fst e \<and> snd e) (map (map_prod (datum_distinct X) (datum_distinct X)) es))"
| "value_distinct X (VTuple ds) = list_all id (map (datum_distinct X) ds)"
| "value_distinct X (VRecord fs) = list_all snd (map (map_prod id (datum_distinct X)) fs)"
| "datum_distinct X Missing = True"
| "datum_distinct X Null = True"
| "datum_distinct X (Value v) = value_distinct X v"

section \<open>Conforming values have distinct keys\<close>

text \<open>The invariant of the \<open>BTreeMap\<close>s of record values.\<close>

primrec value_btrees :: "'x val \<Rightarrow> bool"
and datum_btrees :: "'x datum \<Rightarrow> bool" where
  "value_btrees (VBool v) = True"
| "value_btrees (VTruth v) = True"
| "value_btrees (VInt v) = True"
| "value_btrees (VUInt v) = True"
| "value_btrees (VFloat32 v) = True"
| "value_btrees (VFloat64 v) = True"
| "value_btrees (VDecimal v) = True"
| "value_btrees (VChar v) = True"
| "value_btrees (VString v) = True"
| "value_btrees (VBytes v) = True"
| "value_btrees (VUuid v) = True"
| "value_btrees (VDate v) = True"
| "value_btrees (VTime v) = True"
| "value_btrees (VLocalDateTime v) = True"
| "value_btrees (VInstant v) = True"
| "value_btrees (VDuration v) = True"
| "value_btrees (VList ds) = list_all id (map datum_btrees ds)"
| "value_btrees (VMap es) = list_all (\<lambda>e. fst e \<and> snd e) (map (map_prod datum_btrees datum_btrees) es)"
| "value_btrees (VTuple ds) = list_all id (map datum_btrees ds)"
| "value_btrees (VRecord fs) = (btree_inv fs \<and> list_all snd (map (map_prod id datum_btrees) fs))"
| "datum_btrees Missing = True"
| "datum_btrees Null = True"
| "datum_btrees (Value v) = value_btrees v"

lemma btree_inv_lookup: "btree_inv m \<Longrightarrow> (k, v) \<in> set m \<Longrightarrow> map_of m k = Some v"
  by (simp add: btree_inv_def strict_sorted_iff)

lemma conforming_distinct:
  "of_type X ty v \<Longrightarrow> value_btrees v \<Longrightarrow> value_distinct X v"
  "of_nested_type X ty d \<Longrightarrow> datum_btrees d \<Longrightarrow> datum_distinct X d"
proof (induction rule: of_type_of_nested_type.inducts)
  case (of_scalar ty repr v)
  then show ?case by (cases v) (auto simp: scalar_matches_def)
next
  case (of_list ty element ds)
  then show ?case by (auto simp: list_all_iff)
next
  case (of_map ty kt vt es)
  then show ?case by (auto simp: list_all_iff)
next
  case (of_tuple ty elements ds)
  have "datum_distinct X (ds ! i)" if "i < length ds" for i
    using of_tuple nth_mem [OF that] that by (auto simp: list_all2_conv_all_nth list_all_iff)
  then show ?case by (auto simp: list_all_iff in_set_conv_nth [of _ ds])
next
  case (of_record ty fs m)
  have "datum_distinct X d" if "(k, d) \<in> set m" for k d
  proof -
    from of_record that have "map_of m k = Some d" "datum_btrees d"
      by (auto simp: btree_inv_lookup list_all_iff)
    moreover from of_record.hyps that obtain f where "f \<in> set fs" "rf_name f = k" by force
    ultimately show ?thesis using of_record by auto
  qed
  then show ?case by (auto simp: list_all_iff)
qed simp_all

lemma field_distinct: "of_field X ty presence d \<Longrightarrow> datum_btrees d \<Longrightarrow> datum_distinct X d"
  by (cases d) (auto simp: of_field_def intro: conforming_distinct(1))

section \<open>Matching entries\<close>

text \<open>Lists of one length whose left members are matched, no two by the same, are permutations of each other.\<close>

lemma matching:
  assumes "length es = length fs" and "\<forall>e \<in> set es. \<exists>f \<in> set fs. R e f"
    and "sorted_wrt (\<lambda>a b. \<forall>f \<in> set fs. \<not> (R a f \<and> R b f)) es"
  shows "\<exists>gs. mset gs = mset fs \<and> list_all2 R es gs"
  using assms
proof (induction es arbitrary: fs)
  case Nil
  then show ?case by simp
next
  case (Cons e es)
  then obtain f where f: "f \<in> set fs" "R e f" by auto
  have "\<exists>gs. mset gs = mset (remove1 f fs) \<and> list_all2 R es gs"
  proof (rule Cons.IH)
    show "length es = length (remove1 f fs)" using Cons.prems(1) f by (simp add: length_remove1)
    show "\<forall>e' \<in> set es. \<exists>f' \<in> set (remove1 f fs). R e' f'"
    proof
      fix e'
      assume e': "e' \<in> set es"
      with Cons.prems(2) obtain f' where f': "f' \<in> set fs" "R e' f'" by auto
      from Cons.prems(3) e' f f' have "f' \<noteq> f" by auto
      with f' show "\<exists>f' \<in> set (remove1 f fs). R e' f'" by auto
    qed
    show "sorted_wrt (\<lambda>a b. \<forall>f' \<in> set (remove1 f fs). \<not> (R a f' \<and> R b f')) es"
      using Cons.prems(3) by (auto elim!: sorted_wrt_mono_rel [rotated] dest: notin_set_remove1)
  qed
  then obtain gs where "mset gs = mset (remove1 f fs)" "list_all2 R es gs" by blast
  with f show ?case by (intro exI [of _ "f # gs"]) simp
qed

definition entries_match :: "'x ext \<Rightarrow> 'x datum \<times> 'x datum \<Rightarrow> 'x datum \<times> 'x datum \<Rightarrow> bool" where
  "entries_match X l r \<longleftrightarrow> datum_eq X (fst l) (fst r) \<and> datum_eq X (snd l) (snd r)"

lemma maps_equal_match:
  "maps_equal (map (map_prod (datum_eq X) (datum_eq X)) a) b \<longleftrightarrow>
     length a = length b \<and> (\<forall>l \<in> set a. \<exists>r \<in> set b. entries_match X l r)"
  by (auto simp: maps_equal_def entries_match_def list_all_iff list_ex_iff)

lemma maps_equal_perm:
  assumes "maps_equal (map (map_prod (datum_eq X) (datum_eq X)) a) b"
    and "sorted_wrt (\<lambda>a b. \<not> datum_eq X (fst a) (fst b)) a"
    and sym: "\<And>l k. l \<in> set a \<Longrightarrow> datum_eq X (fst l) k \<Longrightarrow> datum_eq X k (fst l)"
    and trans: "\<And>l k k'. l \<in> set a \<Longrightarrow> datum_eq X (fst l) k \<Longrightarrow> datum_eq X k k' \<Longrightarrow> datum_eq X (fst l) k'"
  shows "\<exists>c. mset c = mset b \<and> list_all2 (entries_match X) a c"
proof (rule matching)
  show "length a = length b" "\<forall>l \<in> set a. \<exists>r \<in> set b. entries_match X l r"
    using assms(1) by (simp_all add: maps_equal_match)
  show "sorted_wrt (\<lambda>l l'. \<forall>r \<in> set b. \<not> (entries_match X l r \<and> entries_match X l' r)) a"
  proof (rule sorted_wrt_mono_rel [OF _ assms(2)])
    fix l l'
    assume "l \<in> set a" "l' \<in> set a" "\<not> datum_eq X (fst l) (fst l')"
    with sym trans show "\<forall>r \<in> set b. \<not> (entries_match X l r \<and> entries_match X l' r)"
      unfolding entries_match_def by blast
  qed
qed

section \<open>Partial equivalence\<close>

lemma vec_equal_all2: "vec_equal (map (datum_eq X) a) b \<longleftrightarrow> list_all2 (datum_eq X) a b"
  by (simp add: vec_equal_def list_all2_map1)

lemma record_equal_all2:
  "record_equal (map (map_prod id (datum_eq X)) a) b \<longleftrightarrow> list_all2 (\<lambda>l r. fst l = fst r \<and> datum_eq X (snd l) (snd r)) a b"
  by (simp add: record_equal_def list_all2_map1)

lemma all2_sym: "list_all2 R a b \<Longrightarrow> (\<And>x y. x \<in> set a \<Longrightarrow> R x y \<Longrightarrow> S y x) \<Longrightarrow> list_all2 S b a"
  by (auto simp: list_all2_conv_all_nth)

lemma all2_trans:
  "list_all2 R a b \<Longrightarrow> list_all2 R b c \<Longrightarrow> (\<And>x y z. x \<in> set a \<Longrightarrow> R x y \<Longrightarrow> R y z \<Longrightarrow> R x z) \<Longrightarrow> list_all2 R a c"
  by (auto simp: list_all2_conv_all_nth)

definition per_at :: "('b \<Rightarrow> 'b \<Rightarrow> bool) \<Rightarrow> 'b \<Rightarrow> bool" where
  "per_at R a \<longleftrightarrow> (\<forall>b. R a b \<longrightarrow> R b a) \<and> (\<forall>b c. R a b \<longrightarrow> R b c \<longrightarrow> R a c)"

lemma per_list:
  assumes "\<forall>d \<in> set a. per_at (datum_eq X) d"
  shows "per_at (\<lambda>a b. list_all2 (datum_eq X) a b) a"
  using assms unfolding per_at_def by (blast intro: all2_sym all2_trans)

lemma per_record:
  assumes "\<forall>e \<in> set a. per_at (datum_eq X) (snd e)"
  shows "per_at (\<lambda>a b. list_all2 (\<lambda>l r. fst l = fst r \<and> datum_eq X (snd l) (snd r)) a b) a"
  unfolding per_at_def
proof (intro conjI allI impI)
  fix b c
  let ?R = "\<lambda>l r. fst l = fst r \<and> datum_eq X (snd l) (snd r)"
  show "list_all2 ?R b a" if "list_all2 ?R a b"
    by (rule all2_sym [OF that]) (use assms in \<open>auto simp: per_at_def\<close>)
  show "list_all2 ?R a c" if "list_all2 ?R a b" "list_all2 ?R b c"
    by (rule all2_trans [OF that]) (use assms in \<open>auto simp: per_at_def\<close>)
qed

lemma per_map:
  assumes keys: "\<forall>e \<in> set a. per_at (datum_eq X) (fst e)" and vals: "\<forall>e \<in> set a. per_at (datum_eq X) (snd e)"
    and distinct: "sorted_wrt (\<lambda>a b. \<not> datum_eq X (fst a) (fst b)) a"
  shows "per_at (\<lambda>a b. maps_equal (map (map_prod (datum_eq X) (datum_eq X)) a) b) a"
  unfolding per_at_def
proof (intro conjI allI impI)
  fix b c
  assume ab: "maps_equal (map (map_prod (datum_eq X) (datum_eq X)) a) b"
  have "\<exists>c. mset c = mset b \<and> list_all2 (entries_match X) a c"
    by (rule maps_equal_perm [OF ab distinct]) (use keys in \<open>auto simp: per_at_def\<close>)
  then obtain b' where b': "mset b' = mset b" "list_all2 (entries_match X) a b'" by blast
  have "list_all2 (entries_match X) b' a"
    by (rule all2_sym [OF b'(2)]) (use keys vals in \<open>auto simp: per_at_def entries_match_def\<close>)
  then have "\<forall>r \<in> set b'. \<exists>l \<in> set a. entries_match X r l"
    by (metis list_all2_conv_all_nth in_set_conv_nth)
  with ab show "maps_equal (map (map_prod (datum_eq X) (datum_eq X)) b) a"
    using mset_eq_setD [OF b'(1)] by (simp add: maps_equal_match)
  assume bc: "maps_equal (map (map_prod (datum_eq X) (datum_eq X)) b) c"
  have "\<exists>r \<in> set c. entries_match X l r" if l: "l \<in> set a" for l
  proof -
    from ab l obtain m where m: "m \<in> set b" "entries_match X l m" by (auto simp: maps_equal_match)
    with bc obtain r where r: "r \<in> set c" "entries_match X m r" by (auto simp: maps_equal_match)
    from keys vals l have "per_at (datum_eq X) (fst l)" "per_at (datum_eq X) (snd l)" by auto
    with m r have "entries_match X l r" unfolding entries_match_def per_at_def by blast
    with r show ?thesis by blast
  qed
  with ab bc show "maps_equal (map (map_prod (datum_eq X) (datum_eq X)) a) c" by (simp add: maps_equal_match)
qed

lemma per_scalar: "ext_eq_laws X \<Longrightarrow> per_at (x_eq X k) a"
  unfolding per_at_def using ext_eq_sym ext_eq_trans by iprover

text \<open>Equality goes constructor by constructor.\<close>

definition lifted :: "('a \<Rightarrow> 'b) \<Rightarrow> ('a \<Rightarrow> 'a \<Rightarrow> bool) \<Rightarrow> 'a \<Rightarrow> 'b \<Rightarrow> bool" where
  "lifted C R a w \<longleftrightarrow> (\<exists>b. w = C b \<and> R a b)"

lemma value_eq_lifted:
  "value_eq X (VBool aVBool) = lifted VBool (=) aVBool"
  "value_eq X (VTruth aVTruth) = lifted VTruth (=) aVTruth"
  "value_eq X (VInt aVInt) = lifted VInt (=) aVInt"
  "value_eq X (VUInt aVUInt) = lifted VUInt (=) aVUInt"
  "value_eq X (VFloat32 aVFloat32) = lifted VFloat32 f32_eq aVFloat32"
  "value_eq X (VFloat64 aVFloat64) = lifted VFloat64 f64_eq aVFloat64"
  "value_eq X (VDecimal aVDecimal) = lifted VDecimal (x_eq X KDecimal) aVDecimal"
  "value_eq X (VChar aVChar) = lifted VChar (=) aVChar"
  "value_eq X (VString aVString) = lifted VString (=) aVString"
  "value_eq X (VBytes aVBytes) = lifted VBytes (=) aVBytes"
  "value_eq X (VUuid aVUuid) = lifted VUuid (x_eq X KUuid) aVUuid"
  "value_eq X (VDate aVDate) = lifted VDate (x_eq X KDate) aVDate"
  "value_eq X (VTime aVTime) = lifted VTime (x_eq X KTime) aVTime"
  "value_eq X (VLocalDateTime aVLocalDateTime) = lifted VLocalDateTime (x_eq X KLocalDateTime) aVLocalDateTime"
  "value_eq X (VInstant aVInstant) = lifted VInstant (x_eq X KInstant) aVInstant"
  "value_eq X (VDuration aVDuration) = lifted VDuration (x_eq X KDuration) aVDuration"
  "value_eq X (VList aVList) = lifted VList (list_all2 (datum_eq X)) aVList"
  "value_eq X (VTuple aVTuple) = lifted VTuple (list_all2 (datum_eq X)) aVTuple"
  "value_eq X (VMap aVMap) = lifted VMap (\<lambda>a b. maps_equal (map (map_prod (datum_eq X) (datum_eq X)) a) b) aVMap"
  "value_eq X (VRecord aVRecord) = lifted VRecord (list_all2 (\<lambda>l r. fst l = fst r \<and> datum_eq X (snd l) (snd r))) aVRecord"
  by (auto simp: fun_eq_iff lifted_def vec_equal_all2 record_equal_all2 split: val.split)

lemma datum_eq_lifted: "datum_eq X (Value v) = lifted Value (value_eq X) v"
  by (simp add: fun_eq_iff lifted_def split: datum.split)

lemma per_lifted:
  assumes "\<And>a. V (C a) = lifted C R a" and "inj C" and "per_at R a"
  shows "per_at V (C a)"
  using assms(3) unfolding per_at_def assms(1) lifted_def by (auto simp: assms(1) lifted_def inj_eq [OF assms(2)])

lemma inj_values:
  "inj VBool" "inj VTruth" "inj VInt" "inj VUInt" "inj VFloat32" "inj VFloat64" "inj VDecimal" "inj VChar"
  "inj VString" "inj VBytes" "inj VUuid" "inj VDate" "inj VTime" "inj VLocalDateTime" "inj VInstant" "inj VDuration"
  "inj VList" "inj VTuple" "inj VMap" "inj VRecord" "inj Value"
  by (simp_all add: inj_def)

lemma per_basic: "per_at (=) a" "per_at f32_eq w" "per_at f64_eq x"
  unfolding per_at_def using float_eq by blast+

lemma equality_per:
  assumes laws: "ext_eq_laws X"
  shows "value_distinct X v \<Longrightarrow> per_at (value_eq X) v" and "datum_distinct X d \<Longrightarrow> per_at (datum_eq X) d"
proof (induction v and d)
  case (VList ds)
  then show ?case by (intro per_lifted [OF value_eq_lifted(17) inj_values(17)] per_list) (auto simp: list_all_iff)
next
  case (VTuple ds)
  then show ?case by (intro per_lifted [OF value_eq_lifted(18) inj_values(18)] per_list) (auto simp: list_all_iff)
next
  case (VMap es)
  have "\<forall>e \<in> set es. per_at (datum_eq X) (fst e) \<and> per_at (datum_eq X) (snd e)"
    using VMap by (auto simp: list_all_iff)
  then show ?case using VMap.prems by (intro per_lifted [OF value_eq_lifted(19) inj_values(19)] per_map) auto
next
  case (VRecord fs)
  have "\<forall>e \<in> set fs. per_at (datum_eq X) (snd e)" using VRecord by (auto simp: list_all_iff)
  then show ?case by (intro per_lifted [OF value_eq_lifted(20) inj_values(20)] per_record)
next
  case (Value v)
  then show ?case by (intro per_lifted [OF datum_eq_lifted inj_values(21)]) simp
next
  case Missing
  show ?case by (auto simp: per_at_def split: datum.split_asm)
next
  case Null
  show ?case by (auto simp: per_at_def split: datum.split_asm)
qed (rule per_lifted [OF value_eq_lifted(1) inj_values(1)] per_lifted [OF value_eq_lifted(2) inj_values(2)] per_lifted [OF value_eq_lifted(3) inj_values(3)]
    per_lifted [OF value_eq_lifted(4) inj_values(4)] per_lifted [OF value_eq_lifted(5) inj_values(5)] per_lifted [OF value_eq_lifted(6) inj_values(6)]
    per_lifted [OF value_eq_lifted(7) inj_values(7)] per_lifted [OF value_eq_lifted(8) inj_values(8)] per_lifted [OF value_eq_lifted(9) inj_values(9)]
    per_lifted [OF value_eq_lifted(10) inj_values(10)] per_lifted [OF value_eq_lifted(11) inj_values(11)] per_lifted [OF value_eq_lifted(12) inj_values(12)]
    per_lifted [OF value_eq_lifted(13) inj_values(13)] per_lifted [OF value_eq_lifted(14) inj_values(14)] per_lifted [OF value_eq_lifted(15) inj_values(15)]
    per_lifted [OF value_eq_lifted(16) inj_values(16)], rule per_basic per_scalar [OF laws])+

section \<open>Equal values are hashed alike\<close>

lemma map_hash_cong: "list_all2 R a b \<Longrightarrow> (\<And>x y. x \<in> set a \<Longrightarrow> R x y \<Longrightarrow> f x = g y) \<Longrightarrow> map f a = map g b"
  by (induction rule: list_all2_induct) auto

lemma float_bits_eq: "f32_eq a b \<Longrightarrow> canonical_f32_bits a = canonical_f32_bits b"
  "f64_eq c d \<Longrightarrow> canonical_f64_bits c = canonical_f64_bits d"
  by (auto simp: f32_eq_def f64_eq_def canonical_f32_bits_eq canonical_f64_bits_eq)

lemma scalar_hash_eq:
  assumes "ext_eq_laws X"
  shows "x_eq X KDecimal a b \<Longrightarrow> hash_decimal X a = hash_decimal X b"
    and "x_eq X KUuid a b \<Longrightarrow> uuid_as_bytes X a = uuid_as_bytes X b"
    and "x_eq X KDate a b \<Longrightarrow> date_to_julian_day X a = date_to_julian_day X b"
    and "x_eq X KTime a b \<Longrightarrow> hash_clock X a = hash_clock X b"
    and "x_eq X KLocalDateTime a b \<Longrightarrow> date_to_julian_day X (datetime_date X a) = date_to_julian_day X (datetime_date X b)"
    and "x_eq X KLocalDateTime a b \<Longrightarrow> hash_clock X (datetime_time X a) = hash_clock X (datetime_time X b)"
    and "x_eq X KInstant a b \<Longrightarrow> instant_unix_nanos X a = instant_unix_nanos X b"
    and "x_eq X KDuration a b \<Longrightarrow> duration_whole_nanos X a = duration_whole_nanos X b"
  using assms [unfolded ext_eq_laws_def, THEN conjunct2, THEN conjunct2]
  unfolding hash_decimal_def hash_clock_def same_clock_def fun_eq_iff Let_def by simp_all

lemma hash_equal:
  assumes laws: "ext_eq_laws X"
  shows "value_distinct X v \<Longrightarrow> value_eq X v w \<Longrightarrow> hash_value B X v = hash_value B X w"
    and "datum_distinct X d \<Longrightarrow> datum_eq X d e \<Longrightarrow> hash_datum B X d = hash_datum B X e"
proof (induction v and d arbitrary: w and e)
  case (VList ds)
  then obtain es where w: "w = VList es" and eq: "list_all2 (datum_eq X) ds es"
    by (auto simp: vec_equal_all2 split: val.split_asm)
  have "map (hash_datum B X) ds = map (hash_datum B X) es"
    by (rule map_hash_cong [OF eq]) (use VList in \<open>auto simp: list_all_iff\<close>)
  then show ?case by (simp add: w)
next
  case (VTuple ds)
  then obtain es where w: "w = VTuple es" and eq: "list_all2 (datum_eq X) ds es"
    by (auto simp: vec_equal_all2 split: val.split_asm)
  have "map (hash_datum B X) ds = map (hash_datum B X) es"
    by (rule map_hash_cong [OF eq]) (use VTuple in \<open>auto simp: list_all_iff\<close>)
  then show ?case by (simp add: w)
next
  case (VRecord fs)
  then obtain gs where w: "w = VRecord gs" and eq: "list_all2 (\<lambda>l r. fst l = fst r \<and> datum_eq X (snd l) (snd r)) fs gs"
    by (auto simp: record_equal_all2 split: val.split_asm)
  have "map (map_prod id (hash_datum B X)) fs = map (map_prod id (hash_datum B X)) gs"
    by (rule map_hash_cong [OF eq]) (use VRecord in \<open>auto simp: list_all_iff\<close>)
  then show ?case by (simp only: w hash_value.simps)
next
  case (VMap es)
  then obtain fs where w: "w = VMap fs" and eq: "maps_equal (map (map_prod (datum_eq X) (datum_eq X)) es) fs"
    by (auto split: val.split_asm)
  have per: "\<forall>e \<in> set es. per_at (datum_eq X) (fst e)"
    using VMap.prems equality_per(2) [OF laws] by (auto simp: list_all_iff)
  have "\<exists>c. mset c = mset fs \<and> list_all2 (entries_match X) es c"
    by (rule maps_equal_perm [OF eq]) (use per VMap.prems in \<open>auto simp: per_at_def\<close>)
  then obtain c where c: "mset c = mset fs" "list_all2 (entries_match X) es c" by blast
  let ?h = "map (map_prod (hash_datum B X) (hash_datum B X))"
  have "?h es = ?h c"
    by (rule map_hash_cong [OF c(2)]) (use VMap in \<open>auto simp: list_all_iff entries_match_def\<close>)
  moreover have "hash_map B (?h c) = hash_map B (?h fs)"
    by (rule hash_map_mset) (simp only: mset_map c(1))
  ultimately show ?case by (simp only: w hash_value.simps)
qed (use float_bits_eq scalar_hash_eq [OF laws] in \<open>auto split: val.split_asm datum.split_asm\<close>)

end
