(* ===== verification/Row_Laws.thy ===== *)
theory Row_Laws
  imports Row Value_Equality
begin

text \<open>
  The invariant of runtime rows, kept by every operation that makes or changes one, and the meaning of
  dataset validation: records conform to the model, and no two have equal identities or equal tuples of a
  unique constraint, whatever the digest does.
\<close>

section \<open>Slots of a canonical model\<close>

lemma canonical_slot:
  assumes "model_canonical m" and "i < length (md_fields m)"
  shows "slot_index (md_fields m ! i) = i"
proof -
  from assms(1) have fields: "md_fields m = map field_of (enumerate 0 (map spec_of (md_fields m)))"
    and len: "length (md_fields m) \<le> 2 ^ 32"
    by (simp_all add: model_canonical_def)
  have "fd_slot (md_fields m ! i) = of_nat i"
    using assms(2) by (subst fields) (simp add: nth_enumerate_eq)
  moreover have "unat (of_nat i :: u32) = i"
    using assms(2) len by (simp add: unsigned_of_nat take_bit_nat_eq_self)
  ultimately show ?thesis by (simp add: slot_index_def)
qed

lemma canonical_field: "model_canonical m \<Longrightarrow> f \<in> set (md_fields m) \<Longrightarrow>
    slot_index f < length (md_fields m) \<and> md_fields m ! slot_index f = f"
  by (auto simp: in_set_conv_nth canonical_slot)

section \<open>Rows\<close>

lemma try_all_Inl: "try_all f xs = Inl e \<Longrightarrow> \<exists>x \<in> set xs. f x = Inl e"
  by (induction xs) (auto simp: and_then_Inl)

definition row_ok :: "'x ext \<Rightarrow> 'x dyn_row \<Rightarrow> bool" where
  "row_ok X r \<longleftrightarrow>
     list_all2 (\<lambda>f d. of_field X (fd_ty f) (fd_presence f) d) (md_fields (dr_model r)) (dr_values r)"

text \<open>A row under construction may still lack values.\<close>

definition building_ok :: "'x ext \<Rightarrow> 'x dyn_row \<Rightarrow> bool" where
  "building_ok X b \<longleftrightarrow>
     list_all2 (\<lambda>f d. d = Missing \<or> of_field X (fd_ty f) (fd_presence f) d) (md_fields (dr_model b)) (dr_values b)"

lemma vec_get_Some [result_simps]: "vec_get xs i = Some x \<longleftrightarrow> i < length xs \<and> x = xs ! i"
  by (auto simp: vec_get_def)

lemma fields_by_slot:
  assumes "model_canonical m" and "length vs = length (md_fields m)"
  shows "(\<forall>f \<in> set (md_fields m). P f (vs ! slot_index f)) \<longleftrightarrow> list_all2 P (md_fields m) vs"
  using assms by (auto simp: list_all2_conv_all_nth all_set_conv_all_nth canonical_slot)

lemma row_from_dense_ok:
  assumes "model_canonical m"
  shows "row_from_dense X m vs = Inr r \<longleftrightarrow> r = \<lparr>dr_model = m, dr_values = vs\<rparr> \<and> row_ok X r"
proof (cases "length vs = length (md_fields m)")
  case True
  then have "(\<forall>f \<in> set (md_fields m). slot_index f < length vs \<and>
      validate_datum X (fd_ty f) (fd_presence f) (vs ! slot_index f) = Inr ()) \<longleftrightarrow>
      list_all2 (\<lambda>f d. of_field X (fd_ty f) (fd_presence f) d) (md_fields m) vs"
    using fields_by_slot [OF assms True, of "\<lambda>f d. of_field X (fd_ty f) (fd_presence f) d"] canonical_field [OF assms]
    by (simp add: validate_datum_ok)
  then show ?thesis by (auto simp: row_from_dense_def result_simps row_ok_def True)
next
  case False
  then show ?thesis by (auto simp: row_from_dense_def row_ok_def dest: list_all2_lengthD)
qed

lemma row_from_record_ok:
  assumes "row_from_record X record = Inr r"
  shows "rv_model record = Inr (dr_model r)" and "row_ok X r"
    and "list_all2 (\<lambda>f d. rv_field record (slot_index f) = Inr (Some d)) (md_fields (dr_model r)) (dr_values r)"
  using assms
  by (auto simp: row_from_record_def result_simps try_map_Inr row_ok_def validate_datum_ok elim!: list_all2_mono)

lemma row_set_field_ok:
  assumes "row_ok X r" and "row_set_field X slot d r = Inr r'"
  shows "row_ok X r'" and "dr_model r' = dr_model r" and "dr_values r' = (dr_values r)[slot := d]"
    and "slot < length (dr_values r)"
  using assms
  by (auto simp: row_set_field_def result_simps row_ok_def validate_datum_ok list_all2_conv_all_nth nth_list_update)

lemma row_builder_ok: "building_ok X (row_builder m)"
  by (simp add: building_ok_def row_builder_def list_all2_conv_all_nth)

lemma row_put_ok:
  assumes "building_ok X b" and "model_canonical (dr_model b)" and "f \<in> set (md_fields (dr_model b))"
    and "row_put X f d b = Inr b'"
  shows "building_ok X b'" and "dr_model b' = dr_model b"
  using assms canonical_field [OF assms(2,3)]
  by (auto simp: row_put_def result_simps building_ok_def validate_datum_ok list_all2_conv_all_nth nth_list_update
      split: if_splits)

text \<open>The only error of a builder step is a refused value: the index is within the row.\<close>

lemma row_put_total:
  assumes "building_ok X b" and "model_canonical (dr_model b)" and "f \<in> set (md_fields (dr_model b))"
  shows "row_put X f d b = Inl e \<Longrightarrow> validate_datum X (fd_ty f) (fd_presence f) d = Inl e"
  using assms canonical_field [OF assms(2,3)]
  by (auto simp: row_put_def building_ok_def and_then_Inl dest: list_all2_lengthD)

lemma row_sets_ok:
  assumes "building_ok X b" and "model_canonical (dr_model b)" and "try_each (\<lambda>(k, d). row_set X k d) kvs b = Inr b'"
  shows "building_ok X b' \<and> dr_model b' = dr_model b"
  using assms
proof (induction kvs arbitrary: b)
  case Nil
  then show ?case by simp
next
  case (Cons kv kvs)
  obtain k d where kv: "kv = (k, d)" by (cases kv)
  from Cons.prems(3) obtain b1 where "row_set X k d b = Inr b1"
    and rest: "try_each (\<lambda>(k, d). row_set X k d) kvs b1 = Inr b'"
    by (auto simp: kv result_simps)
  then obtain f where f: "model_field (dr_model b) k = Some f" and b1: "row_put X f d b = Inr b1"
    by (auto simp: row_set_def result_simps)
  from f have "f \<in> set (md_fields (dr_model b))" by (simp add: model_field_lookup [OF Cons.prems(2)])
  from row_put_ok [OF Cons.prems(1,2) this b1] Cons.prems(2) Cons.IH [OF _ _ rest] show ?case by simp
qed

lemma row_freeze_ok:
  assumes "building_ok X b" and "model_canonical (dr_model b)"
  shows "row_freeze X b = Inr r \<longleftrightarrow> r = b \<and> row_ok X b"
    and "row_freeze X b = Inl e \<Longrightarrow> \<exists>f \<in> set (md_fields (dr_model b)). \<exists>d.
      validate_datum X (fd_ty f) (fd_presence f) d = Inl e"
proof -
  have len: "length (dr_values b) = length (md_fields (dr_model b))"
    using assms(1) by (auto simp: building_ok_def dest: list_all2_lengthD)
  note slots = canonical_field [OF assms(2)]
  have "(\<forall>f \<in> set (md_fields (dr_model b)). slot_index f < length (dr_values b) \<and>
      validate_datum X (fd_ty f) (fd_presence f) (dr_values b ! slot_index f) = Inr ()) \<longleftrightarrow> row_ok X b"
    using fields_by_slot [OF assms(2) len, of "\<lambda>f d. of_field X (fd_ty f) (fd_presence f) d"] slots len
    by (simp add: validate_datum_ok row_ok_def)
  then show "row_freeze X b = Inr r \<longleftrightarrow> r = b \<and> row_ok X b"
    by (auto simp: row_freeze_def result_simps)
  show "\<exists>f \<in> set (md_fields (dr_model b)). \<exists>d. validate_datum X (fd_ty f) (fd_presence f) d = Inl e"
    if "row_freeze X b = Inl e"
  proof -
    from that obtain f where f: "f \<in> set (md_fields (dr_model b))"
      and "and_then (ok_or (vec_get (dr_values b) (slot_index f)) index_panic)
        (validate_datum X (fd_ty f) (fd_presence f)) = Inl e"
      unfolding row_freeze_def and_then_Inl by (auto dest: try_all_Inl simp: and_then_Inl)
    with slots [OF f] len show ?thesis by (auto simp: vec_get_def)
  qed
qed

section \<open>Records\<close>

definition record_valid :: "digest \<Rightarrow> 'x ext \<Rightarrow> model_def \<Rightarrow> 'x record_view \<Rightarrow> bool" where
  "record_valid B X m record \<longleftrightarrow>
     (\<exists>actual. rv_model record = Inr actual \<and> md_key actual = md_key m \<and>
        fingerprint_model B actual = fingerprint_model B m) \<and>
     (\<forall>f \<in> set (md_fields m). \<exists>d. rv_field record (slot_index f) = Inr (Some d) \<and>
        of_field X (fd_ty f) (fd_presence f) d)"

lemma record_datum_Inr [result_simps]: "record_datum record f = Inr d \<longleftrightarrow> rv_field record (slot_index f) = Inr (Some d)"
  by (auto simp: record_datum_def result_simps)

lemma validate_record_ok: "validate_record_against B X m record = Inr () \<longleftrightarrow> record_valid B X m record"
  by (auto simp: validate_record_against_def record_valid_def result_simps validate_datum_ok split: if_splits)

lemma row_view_valid:
  assumes "model_canonical (dr_model r)"
  shows "record_valid B X (dr_model r) (row_view r) \<longleftrightarrow>
    (\<forall>f \<in> set (md_fields (dr_model r)). slot_index f < length (dr_values r) \<and>
       of_field X (fd_ty f) (fd_presence f) (dr_values r ! slot_index f))"
  by (auto simp: record_valid_def row_view_def row_get_def vec_get_def)

lemma row_ok_valid: "model_canonical (dr_model r) \<Longrightarrow> row_ok X r \<Longrightarrow> record_valid B X (dr_model r) (row_view r)"
  unfolding row_view_valid using canonical_field [of "dr_model r"]
  by (auto simp: row_ok_def list_all2_conv_all_nth in_set_conv_nth canonical_slot)

section \<open>Unique tuples\<close>

definition field_datum :: "'x record_view \<Rightarrow> field_def \<Rightarrow> 'x datum" where
  "field_datum record f = (case record_datum record f of Inr d \<Rightarrow> d | Inl _ \<Rightarrow> Missing)"

definition tuple_of :: "model_def \<Rightarrow> string list \<Rightarrow> 'x record_view \<Rightarrow> 'x datum list" where
  "tuple_of m ks record = map (\<lambda>k. case model_field m k of None \<Rightarrow> Missing | Some f \<Rightarrow> field_datum record f) ks"

definition tuple_present :: "bool \<Rightarrow> 'x datum list \<Rightarrow> bool" where
  "tuple_present skip_absent vs \<longleftrightarrow> \<not> (skip_absent \<and> list_ex is_absent vs)"

text \<open>No two records have equal tuples, absent ones aside.\<close>

definition tuples_distinct :: "'x ext \<Rightarrow> model_def \<Rightarrow> bool \<Rightarrow> string list \<Rightarrow> 'x record_view list \<Rightarrow> bool" where
  "tuples_distinct X m skip_absent ks records \<longleftrightarrow>
     sorted_wrt (\<lambda>a b. \<not> list_all2 (datum_eq X) a b) (filter (tuple_present skip_absent) (map (tuple_of m ks) records))"

definition tuple_valid_in :: "'x ext \<Rightarrow> model_def \<Rightarrow> string list \<Rightarrow> 'x datum list \<Rightarrow> bool" where
  "tuple_valid_in X m ks vs \<longleftrightarrow>
     list_all2 (\<lambda>k d. \<exists>f. model_field m k = Some f \<and> of_field X (fd_ty f) Optional d \<and> datum_distinct X d) ks vs"

lemma of_field_optional: "of_field X ty presence d \<Longrightarrow> of_field X ty Optional d"
  by (auto simp: of_field_def split: datum.splits)

lemma tuple_values_valid:
  assumes "record_valid B X m record" and "\<forall>k \<in> set ks. \<exists>f \<in> set (md_fields m). model_field m k = Some f"
  shows "tuple_values record m skip_absent ks =
    Inr (if tuple_present skip_absent (tuple_of m ks record) then Some (tuple_of m ks record) else None)"
  using assms(2)
proof (induction ks)
  case Nil
  then show ?case by (simp add: tuple_of_def tuple_present_def)
next
  case (Cons k ks)
  then obtain f where f: "f \<in> set (md_fields m)" "model_field m k = Some f" by auto
  with assms(1) obtain d where "record_datum record f = Inr d"
    by (auto simp: record_valid_def result_simps)
  moreover from this have "field_datum record f = d" by (simp add: field_datum_def)
  ultimately show ?case using Cons by (auto simp: f tuple_of_def tuple_present_def)
qed

lemma tuple_fingerprint_total:
  assumes "tuple_valid_in X m ks vs"
  shows "\<exists>fp. tuple_fingerprint B X m ks vs = Inr fp"
proof -
  have "\<exists>h'. try_each (tuple_step B X m) (zip ks vs) h = Inr h'" for h
    using assms unfolding tuple_valid_in_def
  proof (induction ks vs arbitrary: h rule: list_all2_induct)
    case Nil
    then show ?case by simp
  next
    case (Cons k ks d vs)
    then show ?case by (auto simp: tuple_step_def fingerprint_datum_def validate_datum_ok [symmetric])
  qed
  then show ?thesis by (auto simp: tuple_fingerprint_def result_simps)
qed

lemma tuple_fingerprint_equal:
  assumes laws: "ext_eq_laws X" and "tuple_valid_in X m ks vs" and "tuple_valid_in X m ks ws"
    and "list_all2 (datum_eq X) vs ws"
  shows "tuple_fingerprint B X m ks vs = tuple_fingerprint B X m ks ws"
proof -
  have "try_each (tuple_step B X m) (zip ks vs) h = try_each (tuple_step B X m) (zip ks ws) h" for h
    using assms(2-4) unfolding tuple_valid_in_def
  proof (induction ks vs arbitrary: h ws rule: list_all2_induct)
    case Nil
    then show ?case by simp
  next
    case (Cons k ks d vs)
    then obtain e ws' where ws: "ws = e # ws'" "datum_eq X d e" "list_all2 (datum_eq X) vs ws'"
      by (auto simp: list_all2_Cons1)
    from Cons ws obtain f where f: "model_field m k = Some f"
      "validate_datum X (fd_ty f) Optional d = Inr ()" "validate_datum X (fd_ty f) Optional e = Inr ()"
      and "datum_distinct X d" by (auto simp: validate_datum_ok)
    then have "fingerprint_datum B X (fd_ty f) d = fingerprint_datum B X (fd_ty f) e"
      using hash_equal(2) [OF laws _ ws(2), of B] by (simp add: fingerprint_datum_def updates.simps)
    moreover have "try_each (tuple_step B X m) (zip ks vs) = try_each (tuple_step B X m) (zip ks ws')"
      using Cons ws by (intro ext) auto
    moreover have "tuple_step B X m (k, d) h = tuple_step B X m (k, e) h"
      using calculation(1) f by (simp add: tuple_step_def)
    ultimately show ?case by (simp add: ws)
  qed
  then show ?thesis by (simp add: tuple_fingerprint_def)
qed

text \<open>The buckets hold the tuples seen so far by their fingerprints.\<close>

lemma unique_loop:
  fixes vals :: "'x record_view \<Rightarrow> 'x datum list option"
  assumes vals: "\<forall>r \<in> set records. tuple_values r m (us_skip_absent spec) (us_fields spec) = Inr (vals r)"
    and fp: "\<forall>r \<in> set records. \<forall>vs. vals r = Some vs \<longrightarrow> vs \<in> V"
    and F: "\<forall>vs \<in> V. tuple_fingerprint B X m (us_fields spec) vs = Inr (F vs)"
    and eq: "\<forall>vs \<in> V. \<forall>ws \<in> V. list_all2 (datum_eq X) vs ws \<longrightarrow> F vs = F ws"
    and seen: "btree_inv seen" "\<And>f. bucket seen f = filter (\<lambda>v. F v = f) ps" "set ps \<subseteq> V"
    and ps: "sorted_wrt (\<lambda>a b. \<not> list_all2 (datum_eq X) a b) ps"
  shows "and_then (try_each (unique_step B X m spec) records seen) (\<lambda>_. Inr ()) =
    (if sorted_wrt (\<lambda>a b. \<not> list_all2 (datum_eq X) a b) (ps @ List.map_filter vals records)
     then Inr () else Inl (us_error spec))"
  using vals fp seen ps
proof (induction records arbitrary: seen ps)
  case Nil
  then show ?case by simp
next
  case (Cons r records)
  show ?case
  proof (cases "vals r")
    case None
    with Cons show ?thesis by (simp add: unique_step_def)
  next
    case (Some v)
    with Cons.prems F have v: "v \<in> V" and step: "unique_step B X m spec r seen =
        (if list_ex (\<lambda>e. list_all2 (datum_eq X) e v) (bucket seen (F v)) then Inl (us_error spec)
         else Inr (btree_insert (F v) (bucket seen (F v) @ [v]) seen))"
      by (simp_all add: unique_step_def vec_equal_all2)
    have found: "list_ex (\<lambda>e. list_all2 (datum_eq X) e v) (bucket seen (F v)) \<longleftrightarrow>
        (\<exists>e \<in> set ps. list_all2 (datum_eq X) e v)"
      using Cons.prems(4,5) eq v unfolding list_ex_iff by (simp only: Cons.prems(4) set_filter) blast
    show ?thesis
    proof (cases "\<exists>e \<in> set ps. list_all2 (datum_eq X) e v")
      case True
      then show ?thesis using Some by (auto simp: step found sorted_wrt_append)
    next
      case False
      have "bucket (btree_insert (F v) (bucket seen (F v) @ [v]) seen) f = filter (\<lambda>w. F w = f) (ps @ [v])" for f
        using Cons.prems(3,4) by (simp add: bucket_def map_of_btree_insert)
      moreover have "btree_inv (btree_insert (F v) (bucket seen (F v) @ [v]) seen)"
        using Cons.prems(3) by (rule btree_inv_insert)
      moreover have "sorted_wrt (\<lambda>a b. \<not> list_all2 (datum_eq X) a b) (ps @ [v])"
        using False Cons.prems(6) by (simp add: sorted_wrt_append)
      moreover have "unique_step B X m spec r seen = Inr (btree_insert (F v) (bucket seen (F v) @ [v]) seen)"
        unfolding step found using False by simp
      ultimately show ?thesis using Cons.IH [of "btree_insert (F v) (bucket seen (F v) @ [v]) seen" "ps @ [v]"]
          Cons.prems(1-3,5) v Some by simp
    qed
  qed
qed

lemma constraint_fields:
  assumes "model_canonical m" and "model_valid limits m" and "ks \<in> set_option (md_identity m) \<union> set (md_unique m)"
  shows "\<forall>k \<in> set ks. \<exists>f \<in> set (md_fields m). model_field m k = Some f"
proof -
  from assms(2,3) have "tuple_valid (map spec_of (md_fields m)) ks"
    by (auto simp: model_valid_def Let_def identity_valid_def unique_valid_def split: option.splits)
  then show ?thesis by (force simp: tuple_valid_def model_field_lookup [OF assms(1)])
qed

text \<open>The maps inside a record's values are \<open>BTreeMap\<close>s.\<close>

definition record_btrees :: "model_def \<Rightarrow> 'x record_view \<Rightarrow> bool" where
  "record_btrees m record \<longleftrightarrow> (\<forall>f \<in> set (md_fields m). datum_btrees (field_datum record f))"

lemma tuple_of_valid:
  assumes "record_valid B X m record" and "record_btrees m record"
    and "\<forall>k \<in> set ks. \<exists>f \<in> set (md_fields m). model_field m k = Some f"
  shows "tuple_valid_in X m ks (tuple_of m ks record)"
proof -
  have "\<exists>f. model_field m k = Some f \<and> of_field X (fd_ty f) Optional (field_datum record f) \<and>
      datum_distinct X (field_datum record f)" if "k \<in> set ks" for k
  proof -
    from assms(3) that obtain f where f: "f \<in> set (md_fields m)" "model_field m k = Some f" by auto
    with assms(1) obtain d where "rv_field record (slot_index f) = Inr (Some d)"
      and d: "of_field X (fd_ty f) (fd_presence f) d" by (auto simp: record_valid_def)
    then have "field_datum record f = d" by (simp add: field_datum_def record_datum_def)
    with assms(2) f d show ?thesis by (auto simp: record_btrees_def intro: of_field_optional field_distinct)
  qed
  then show ?thesis by (fastforce simp: tuple_valid_in_def tuple_of_def list_all2_map2 list_all2_same)
qed

lemma validate_unique_tuple_decides:
  assumes laws: "ext_eq_laws X" and fields: "\<forall>k \<in> set (us_fields spec). \<exists>f \<in> set (md_fields m). model_field m k = Some f"
    and records: "\<forall>r \<in> set records. record_valid B X m r \<and> record_btrees m r"
  shows "validate_unique_tuple B X m spec records =
    (if tuples_distinct X m (us_skip_absent spec) (us_fields spec) records then Inr () else Inl (us_error spec))"
proof -
  let ?ks = "us_fields spec" and ?skip = "us_skip_absent spec"
  let ?vals = "\<lambda>r. if tuple_present ?skip (tuple_of m ?ks r) then Some (tuple_of m ?ks r) else None"
  let ?V = "{vs. tuple_valid_in X m ?ks vs}"
  let ?F = "\<lambda>vs. case tuple_fingerprint B X m ?ks vs of Inr fp \<Rightarrow> fp | Inl _ \<Rightarrow> []"
  have "and_then (try_each (unique_step B X m spec) records []) (\<lambda>_. Inr ()) =
    (if sorted_wrt (\<lambda>a b. \<not> list_all2 (datum_eq X) a b) ([] @ List.map_filter ?vals records)
     then Inr () else Inl (us_error spec))"
  proof (rule unique_loop [where V = ?V and F = ?F])
    show "\<forall>r \<in> set records. tuple_values r m ?skip ?ks = Inr (?vals r)"
      using records tuple_values_valid [OF _ fields] by blast
    show "\<forall>r \<in> set records. \<forall>vs. ?vals r = Some vs \<longrightarrow> vs \<in> ?V"
      using records tuple_of_valid [OF _ _ fields] by (auto split: if_splits)
    show "\<forall>vs \<in> ?V. tuple_fingerprint B X m ?ks vs = Inr (?F vs)"
      using tuple_fingerprint_total [of X m ?ks _ B] by fastforce
    show "\<forall>vs \<in> ?V. \<forall>ws \<in> ?V. list_all2 (datum_eq X) vs ws \<longrightarrow> ?F vs = ?F ws"
      using tuple_fingerprint_equal [OF laws] by auto
  qed (simp_all add: btree_inv_def bucket_def)
  moreover have "List.map_filter ?vals records = filter (tuple_present ?skip) (map (tuple_of m ?ks) records)"
    by (induction records) simp_all
  ultimately show ?thesis by (simp add: validate_unique_tuple_def tuples_distinct_def)
qed

section \<open>Materialized data\<close>

definition dataset_valid :: "digest \<Rightarrow> 'x ext \<Rightarrow> model_def \<Rightarrow> 'x record_view list \<Rightarrow> bool" where
  "dataset_valid B X m records \<longleftrightarrow>
     (\<forall>r \<in> set records. record_valid B X m r) \<and>
     (\<forall>ks. md_identity m = Some ks \<longrightarrow> tuples_distinct X m False ks records) \<and>
     (\<forall>ks \<in> set (md_unique m). tuples_distinct X m True ks records)"

lemma spec_simps [simp]:
  "us_fields (identity_spec ks) = ks" "us_fields (constraint_spec ks) = ks"
  "\<not> us_skip_absent (identity_spec ks)" "us_skip_absent (constraint_spec ks)"
  by (simp_all add: identity_spec_def constraint_spec_def)

lemma validate_dataset_decides:
  assumes laws: "ext_eq_laws X" and m: "model_canonical m" "model_valid limits m"
    and btrees: "\<forall>r \<in> set records. record_btrees m r"
  shows "validate_dataset B X m records = Inr () \<longleftrightarrow> dataset_valid B X m records"
proof (cases "\<forall>r \<in> set records. record_valid B X m r")
  case True
  have unique: "validate_unique_tuple B X m spec records = Inr () \<longleftrightarrow>
      tuples_distinct X m (us_skip_absent spec) (us_fields spec) records"
    if "us_fields spec \<in> set_option (md_identity m) \<union> set (md_unique m)" for spec
    using validate_unique_tuple_decides [OF laws constraint_fields [OF m that]] True btrees by simp
  show ?thesis using True
    by (auto simp: validate_dataset_def dataset_valid_def result_simps validate_record_ok unique split: option.splits)
next
  case False
  then show ?thesis by (auto simp: validate_dataset_def dataset_valid_def result_simps validate_record_ok)
qed

end
