(* ===== verification/Expr_Normal_Form.thy ===== *)
theory Expr_Normal_Form
  imports Expr_Eval "HOL-Library.Multiset"
begin

text \<open>
  Normalisation keeps the meaning of an expression: whatever the expression evaluates to under a
  valuation, its normal form evaluates to.
\<close>

section \<open>Evaluation of the parts\<close>

lemmas eval_node = eval_expr.simps [of S V lift "ExprNode kind ty" for S V lift kind ty, simplified expr_node.sel]
lemmas normalize_simps = normalize_node.simps [of B S Q "ExprNode kind ty" for B S Q kind ty, simplified expr_node.sel]

lemma checked_result_Inr [result_simps]:
  "checked_result X ty exempt v = Inr w \<longleftrightarrow> w = v \<and> (exempt \<or> validate_datum X ty Optional v = Inr ())"
  by (auto simp: checked_result_def result_simps)

lemma plain_Inr [result_simps]: "plain r = Inr p \<longleftrightarrow> (\<exists>v. r = Inr v \<and> p = (v, False))"
  by (auto simp: plain_def result_simps)

lemma eval_literal [simp]:
  "eval_expr S V m (ExprNode (ELiteral d) ty) = checked_result (ops_ext S) ty False d"
  by (simp add: eval_node)

lemma eval_unary_node:
  "eval_expr S V m (ExprNode (EUnary op n) ty) = Inr v \<longleftrightarrow>
     (\<exists>u. eval_expr S V (op = OpNullableLift) n = Inr u \<and> eval_unary S op u ty = Inr v \<and>
       validate_datum (ops_ext S) ty Optional v = Inr ())"
  by (auto simp: eval_node result_simps)

lemma eval_binary_node:
  "eval_expr S V m (ExprNode (EBinary op left right) ty) = Inr v \<longleftrightarrow>
     (\<exists>l. eval_expr S V False left = Inr l \<and>
       (if op = OpCoalesce \<and> \<not> is_absent l then Inr l
        else and_then (eval_expr S V False right) (\<lambda>r. eval_binary S op l r)) = Inr v \<and>
       validate_datum (ops_ext S) ty Optional v = Inr ())"
  unfolding eval_node by (simp add: result_simps) blast

lemma eval_membership_node:
  "eval_expr S V m (ExprNode (EMembership input candidates negate) ty) = Inr v \<longleftrightarrow>
     (\<exists>u vs. eval_expr S V False input = Inr u \<and> list_all2 (\<lambda>c w. eval_expr S V False c = Inr w) candidates vs \<and>
       eval_membership (ops_ext S) u vs negate = Inr v \<and> validate_datum (ops_ext S) ty Optional v = Inr ())"
  unfolding eval_node by (simp add: result_simps try_map_Inr) blast

lemma as_truth_Inr: "as_truth d = Inr b \<longleftrightarrow> d = Value (VTruth b)"
  by (auto simp: as_truth_def split: datum.splits val.splits)

lemma eval_conditional_node:
  "eval_expr S V m (ExprNode (EConditional c t e) ty) = Inr v \<longleftrightarrow>
     (\<exists>b. eval_expr S V False c = Inr (Value (VTruth b)) \<and> eval_expr S V False (if b = TTrue then t else e) = Inr v \<and>
       validate_datum (ops_ext S) ty Optional v = Inr ())"
  unfolding eval_node by (simp add: result_simps as_truth_Inr if_distrib [of "eval_expr S V False"]) blast

lemma eval_call_node:
  "eval_expr S V m (ExprNode (EFunctionCall f arguments) ty) = Inr v \<longleftrightarrow>
     (\<exists>vs. list_all2 (\<lambda>c w. eval_expr S V False c = Inr w) arguments vs \<and>
       function_evaluate f vs ty = Inr v \<and> validate_datum (ops_ext S) ty Optional v = Inr ())"
  unfolding eval_node by (simp add: result_simps try_map_Inr) blast

lemmas eval_node_simps = eval_unary_node eval_binary_node eval_membership_node eval_conditional_node eval_call_node

lemma literal_value_Some: "literal_value n = Some d \<longleftrightarrow> (\<exists>ty. n = ExprNode (ELiteral d) ty)"
  by (cases n) (auto simp: literal_value_def split: expr_kind.splits)

lemma negated_Some: "negated n = Some c \<longleftrightarrow> (\<exists>ty. n = ExprNode (EUnary OpNot c) ty)"
  by (cases n) (auto simp: negated_def split: expr_kind.splits if_splits)

lemma fold_literal_Inr:
  "fold_literal r ty = Inr n \<longleftrightarrow> (\<exists>d. r = Inr d \<and> n = ExprNode (ELiteral d) ty)"
  by (auto simp: fold_literal_def literal_node_def result_simps)

lemma literal_evaluates: "literal_value n = Some d \<Longrightarrow> eval_expr S V m n = Inr v \<Longrightarrow> d = v"
  by (auto simp: literal_value_Some checked_result_Inr)

lemma literal_values_evaluate:
  assumes "literal_values ns = Some ds" and "list_all2 (\<lambda>n v. eval_expr S V False n = Inr v) ns vs"
  shows "ds = vs"
proof -
  have all: "list_all (\<lambda>n. literal_value n \<noteq> None) ns" and ds: "ds = List.map_filter literal_value ns"
    using assms(1) by (auto simp: literal_values_def split: if_splits)
  from assms(2) all have "List.map_filter literal_value ns = vs"
    by (induction rule: list_all2_induct) (auto simp: map_filter_simps dest: literal_evaluates)
  with ds show ?thesis by simp
qed

section \<open>Membership\<close>

text \<open>Membership depends on the set of candidates alone.\<close>

definition equal_truth :: "'x ext \<Rightarrow> 'x datum \<Rightarrow> 'x datum \<Rightarrow> truth" where
  "equal_truth X a b =
     (case (a, b) of (Value v, Value w) \<Rightarrow> if value_eq X v w then TTrue else TFalse | _ \<Rightarrow> TUnknown)"

lemma compare_equality_truth:
  "compare_equality X a b negate =
     Inr (Value (VTruth (if negate then truth_negate (equal_truth X a b) else equal_truth X a b)))"
  by (cases a; cases b) (auto simp: compare_equality_def equal_truth_def truth_datum_def unknown_def Let_def)

lemma membership_loop_eq:
  "membership_loop X input negate saw vs = Inr
     (if \<exists>c \<in> set vs. equal_truth X input c = TTrue then truth_datum (\<not> negate)
      else if saw \<or> (\<exists>c \<in> set vs. equal_truth X input c = TUnknown) then unknown else truth_datum negate)"
  by (induction X input negate saw vs rule: membership_loop.induct)
    (auto simp: compare_equality_truth as_truth_def split: truth.split)

lemma eval_membership_set: "set vs = set ws \<Longrightarrow> eval_membership X v vs negate = eval_membership X v ws negate"
  by (simp add: eval_membership_def membership_loop_eq)

lemma sort_candidates_mset: "sort_candidates B X Q cs = Inr cs' \<Longrightarrow> mset cs' = mset cs"
proof -
  assume "sort_candidates B X Q cs = Inr cs'"
  then obtain pairs where pairs: "list_all2 (\<lambda>c p. and_then (fingerprint_node B X Q c) (\<lambda>f. Inr (f, c)) = Inr p) cs pairs"
    and cs': "cs' = map snd (sort_key fst pairs)"
    by (auto simp: sort_candidates_def result_simps try_map_Inr)
  from pairs have "map snd pairs = cs"
    by (induction rule: list_all2_induct) (auto simp: result_simps)
  then show ?thesis by (metis cs' mset_map mset_sort)
qed

lemma evaluates_perm:
  assumes "mset cs' = mset cs" and "list_all2 (\<lambda>c v. eval c = Inr v) cs vs"
  obtains ws where "list_all2 (\<lambda>c v. eval c = Inr v) cs' ws" and "set ws = set vs"
proof
  from assms(2) have vs: "vs = map (projr \<circ> eval) cs" and ok: "\<forall>c \<in> set cs. \<exists>v. eval c = Inr v"
    by (induction rule: list_all2_induct) auto
  have set: "set cs' = set cs" using assms(1) by (rule mset_eq_setD)
  with ok show "list_all2 (\<lambda>c v. eval c = Inr v) cs' (map (projr \<circ> eval) cs')"
    by (fastforce simp: list_all2_map2 list_all2_same)
  show "set (map (projr \<circ> eval) cs') = set vs" by (simp add: vs set)
qed

section \<open>Normalisation\<close>

text \<open>A valuation reads a field that needs no lift alike in every position.\<close>

definition lifts :: "('x, 'q) valuation \<Rightarrow> bool" where
  "lifts V \<longleftrightarrow> (\<forall>f ty x. val_field V False f ty = Inr x \<longrightarrow> val_field V True f ty = Inr x)"

lemma eval_lift:
  assumes "lifts V" and "eval_expr S V False n = Inr v"
  shows "eval_expr S V m n = Inr v"
proof (cases "\<exists>f. en_kind n = EField f")
  case True
  with assms show ?thesis by (cases m; cases n) (auto simp: eval_node lifts_def result_simps)
next
  case False
  have "eval_expr S V m n = eval_expr S V False n"
    using False by (cases n; cases "en_kind n") (simp_all add: eval_node)
  with assms show ?thesis by simp
qed

lemma eval_not_not:
  assumes "eval_expr S V m (ExprNode (EUnary OpNot n) ty) = Inr v" and "truth_unary v truth_negate = Inr w"
  shows "eval_expr S V False n = Inr w"
proof -
  have "truth_negate (truth_negate t) = t" for t by (cases t) simp_all
  with assms show ?thesis
    by (auto simp: eval_node_simps result_simps eval_unary_def truth_unary_def as_truth_Inr)
qed

lemma normalize_unary_ok:
  assumes V: "lifts V" and n': "normalize_unary S op input ty = Inr n'"
    and u: "eval_expr S V (op = OpNullableLift) input = Inr u" and v: "eval_unary S op u ty = Inr v"
    and ok: "validate_datum (ops_ext S) ty Optional v = Inr ()"
  shows "eval_expr S V m n' = Inr v"
proof (cases "if op = OpNot then negated input else None")
  case (Some nested)
  then have [simp]: "n' = nested" using n' by (simp add: normalize_unary_def)
  from Some obtain ty' where eqs: "op = OpNot" "input = ExprNode (EUnary OpNot nested) ty'"
    by (cases "op = OpNot") (auto simp: negated_Some)
  with u have "eval_expr S V False (ExprNode (EUnary OpNot nested) ty') = Inr u" by simp
  moreover from v eqs have "truth_unary u truth_negate = Inr v" by (simp add: eval_unary_def)
  ultimately have "eval_expr S V False nested = Inr v" by (rule eval_not_not)
  then show ?thesis by (simp add: eval_lift [OF V, of S nested v m])
next
  case None
  show ?thesis
  proof (cases "literal_value input")
    case (Some d)
    with None n' literal_evaluates [OF Some u] v ok show ?thesis
      by (auto simp: normalize_unary_def fold_literal_Inr checked_result_Inr)
  next
    case lit: None
    with None n' have "n' = ExprNode (EUnary op input) ty" by (auto simp: normalize_unary_def)
    with u v ok show ?thesis by (auto simp: eval_unary_node)
  qed
qed

lemma normalize_membership_ok:
  assumes n': "normalize_membership B S Q input candidates negate ty = Inr n'"
    and u: "eval_expr S V False input = Inr u"
    and vs: "list_all2 (\<lambda>c v. eval_expr S V False c = Inr v) candidates vs"
    and v: "eval_membership (ops_ext S) u vs negate = Inr v"
    and ok: "validate_datum (ops_ext S) ty Optional v = Inr ()"
  shows "eval_expr S V m n' = Inr v"
proof -
  from n' obtain cs where cs: "sort_candidates B (ops_ext S) Q candidates = Inr cs"
    and fold: "(case (literal_value input, literal_values cs) of
         (Some v, Some vs) \<Rightarrow> fold_literal (eval_membership (ops_ext S) v vs negate) ty
       | _ \<Rightarrow> Inr (ExprNode (EMembership input cs negate) ty)) = Inr n'"
    by (auto simp: normalize_membership_def result_simps)
  from evaluates_perm [OF sort_candidates_mset [OF cs] vs]
  obtain ws where ws: "list_all2 (\<lambda>c v. eval_expr S V False c = Inr v) cs ws" and "set ws = set vs" .
  then have v': "eval_membership (ops_ext S) u ws negate = Inr v"
    using v eval_membership_set by metis
  show ?thesis
  proof (cases "\<exists>d ds. literal_value input = Some d \<and> literal_values cs = Some ds")
    case True
    with u ws have "literal_value input = Some u" "literal_values cs = Some ws"
      using literal_evaluates literal_values_evaluate by blast+
    with fold v' ok show ?thesis by (auto simp: fold_literal_Inr checked_result_Inr)
  next
    case False
    with fold have "n' = ExprNode (EMembership input cs negate) ty" by (auto split: option.splits)
    with u ws v' ok show ?thesis by (auto simp: eval_node_simps)
  qed
qed

lemma normalize_call_ok:
  assumes n': "normalize_call f arguments ty = Inr n'"
    and vs: "list_all2 (\<lambda>c v. eval_expr S V False c = Inr v) arguments vs"
    and v: "function_evaluate f vs ty = Inr v"
    and ok: "validate_datum (ops_ext S) ty Optional v = Inr ()"
  shows "eval_expr S V m n' = Inr v"
proof (cases "if fn_determinism (fr_definition f) = Deterministic then literal_values arguments else None")
  case None
  with n' have "n' = ExprNode (EFunctionCall f arguments) ty" by (auto simp: normalize_call_def)
  with vs v ok show ?thesis by (auto simp: eval_node_simps)
next
  case (Some ds)
  with vs have "ds = vs" by (auto split: if_splits dest: literal_values_evaluate)
  with Some n' v ok show ?thesis by (auto simp: normalize_call_def fold_literal_Inr checked_result_Inr)
qed

lemma normalized_arguments:
  assumes "list_all2 (\<lambda>c c'. norm c = Inr c') cs cs'" and "list_all2 P cs vs"
    and "\<And>c c' v. c \<in> set cs \<Longrightarrow> norm c = Inr c' \<Longrightarrow> P c v \<Longrightarrow> P c' v"
  shows "list_all2 P cs' vs"
  using assms
proof (induction arbitrary: vs rule: list_all2_induct)
  case Nil
  then show ?case by simp
next
  case (Cons c cs c' cs')
  then show ?case by (cases vs) auto
qed

lemma normalize_coalesce_ok:
  assumes V: "lifts V" and lit: "literal_value left' = Some d" and l: "eval_expr S V False left' = Inr l"
    and n': "(if is_absent d then normalize_node B S Q right else Inr (literal_node d ty)) = Inr n'"
    and v: "(if \<not> is_absent l then Inr l
      else and_then (eval_expr S V False right) (\<lambda>r. eval_binary S OpCoalesce l r)) = Inr v"
    and IH: "\<And>right' r. normalize_node B S Q right = Inr right' \<Longrightarrow> eval_expr S V False right = Inr r \<Longrightarrow>
      eval_expr S V False right' = Inr r"
    and ok: "validate_datum (ops_ext S) ty Optional v = Inr ()"
  shows "eval_expr S V m n' = Inr v"
proof -
  from literal_evaluates [OF lit l] have [simp]: "l = d" by simp
  show ?thesis
  proof (cases "is_absent d")
    case True
    with v have "eval_expr S V False right = Inr v" by (cases d) (auto simp: result_simps eval_binary_def)
    with True n' IH have "eval_expr S V False n' = Inr v" by simp
    then show ?thesis by (rule eval_lift [OF V])
  next
    case False
    with v n' ok show ?thesis by (auto simp: literal_node_def checked_result_Inr)
  qed
qed

lemma normalize_node_ok:
  assumes V: "lifts V"
  shows "normalize_node B S Q n = Inr n' \<Longrightarrow> eval_expr S V m n = Inr v \<Longrightarrow> eval_expr S V m n' = Inr v"
proof (induction n arbitrary: n' m v rule: measure_induct_rule [where f = size])
  case (less n)
  have IH: "eval_expr S V k c' = Inr w"
    if "c \<in> set (children n)" "normalize_node B S Q c = Inr c'" "eval_expr S V k c = Inr w" for c c' k w
    by (rule less.IH [OF size_expr_child [OF that(1)] that(2,3)])
  obtain kind ty where n: "n = ExprNode kind ty" by (cases n)
  note eqs = less.prems [unfolded n]
  show ?case
  proof (cases kind)
    case (EUnary op input)
    from eqs(1) obtain input' where input': "normalize_node B S Q input = Inr input'"
      "normalize_unary S op input' ty = Inr n'" by (auto simp: EUnary normalize_simps result_simps)
    from eqs(2) obtain u where u: "eval_expr S V (op = OpNullableLift) input = Inr u"
      and v: "eval_unary S op u ty = Inr v" "validate_datum (ops_ext S) ty Optional v = Inr ()"
      by (auto simp: EUnary eval_unary_node)
    from normalize_unary_ok [OF V input'(2) IH [OF _ input'(1) u] v] show ?thesis by (simp add: n EUnary)
  next
    case (EBinary op left right)
    from eqs(2) obtain l where l: "eval_expr S V False left = Inr l"
      and v: "(if op = OpCoalesce \<and> \<not> is_absent l then Inr l
        else and_then (eval_expr S V False right) (\<lambda>r. eval_binary S op l r)) = Inr v"
      and ok: "validate_datum (ops_ext S) ty Optional v = Inr ()"
      by (auto simp: EBinary eval_node_simps)
    from eqs(1) obtain left' where left': "normalize_node B S Q left = Inr left'"
      by (auto simp: EBinary normalize_simps result_simps)
    have l': "eval_expr S V False left' = Inr l" using IH [OF _ left' l] by (simp add: n EBinary)
    have right: "eval_expr S V False right' = Inr r"
      if "normalize_node B S Q right = Inr right'" "eval_expr S V False right = Inr r" for right' r
      using IH [OF _ that] by (simp add: n EBinary)
    show ?thesis
    proof (cases "if op = OpCoalesce then literal_value left' else None")
      case (Some d)
      then have op: "op = OpCoalesce" and lit: "literal_value left' = Some d" by (auto split: if_splits)
      from eqs(1) left' lit have "(if is_absent d then normalize_node B S Q right else Inr (literal_node d ty)) = Inr n'"
        by (simp add: EBinary normalize_simps op)
      from normalize_coalesce_ok [OF V lit l' this _ right ok] v show ?thesis unfolding op by simp
    next
      case None
      with eqs(1) left' obtain right' where right': "normalize_node B S Q right = Inr right'"
        and fold: "(case (literal_value left', literal_value right') of
            (Some l, Some r) \<Rightarrow> fold_literal (eval_binary S op l r) ty
          | _ \<Rightarrow> Inr (ExprNode (EBinary op left' right') ty)) = Inr n'"
        by (auto simp: EBinary normalize_simps result_simps)
      show ?thesis
      proof (cases "\<exists>dl dr. literal_value left' = Some dl \<and> literal_value right' = Some dr")
        case True
        with None obtain dl dr where lits: "literal_value left' = Some dl" "literal_value right' = Some dr"
          and op: "op \<noteq> OpCoalesce" by (auto split: if_splits)
        with v obtain r where r: "eval_expr S V False right = Inr r" "eval_binary S op l r = Inr v"
          by (auto simp: result_simps)
        from literal_evaluates [OF lits(1) l'] literal_evaluates [OF lits(2) right [OF right' r(1)]] lits fold r(2) ok
        show ?thesis by (auto simp: fold_literal_Inr checked_result_Inr)
      next
        case False
        with fold have "n' = ExprNode (EBinary op left' right') ty" by (auto split: option.splits)
        with l' v ok right [OF right'] show ?thesis
          by (auto simp: eval_node_simps result_simps split: if_splits)
      qed
    qed
  next
    case (EMembership input candidates negate)
    from eqs(1) obtain input' cs where input': "normalize_node B S Q input = Inr input'"
      and cs: "list_all2 (\<lambda>c c'. normalize_node B S Q c = Inr c') candidates cs"
      and n': "normalize_membership B S Q input' cs negate ty = Inr n'"
      by (auto simp: EMembership normalize_simps result_simps try_map_Inr)
    from eqs(2) obtain u vs where u: "eval_expr S V False input = Inr u"
      and vs: "list_all2 (\<lambda>c v. eval_expr S V False c = Inr v) candidates vs"
      and v: "eval_membership (ops_ext S) u vs negate = Inr v" "validate_datum (ops_ext S) ty Optional v = Inr ()"
      by (auto simp: EMembership eval_node_simps)
    have "list_all2 (\<lambda>c v. eval_expr S V False c = Inr v) cs vs"
      by (rule normalized_arguments [OF cs vs]) (rule IH, simp_all add: n EMembership)
    from normalize_membership_ok [OF n' IH [OF _ input' u] this v] show ?thesis by (simp add: n EMembership)
  next
    case (EConditional c t e)
    from eqs(2) obtain b where b: "eval_expr S V False c = Inr (Value (VTruth b))"
      and v: "eval_expr S V False (if b = TTrue then t else e) = Inr v"
      and ok: "validate_datum (ops_ext S) ty Optional v = Inr ()"
      by (auto simp: EConditional eval_node_simps)
    from eqs(1) obtain c' where c': "normalize_node B S Q c = Inr c'"
      by (auto simp: EConditional normalize_simps result_simps)
    have b': "eval_expr S V False c' = Inr (Value (VTruth b))" using IH [OF _ c' b] by (simp add: n EConditional)
    have branch: "eval_expr S V False x' = Inr v" if "normalize_node B S Q (if b = TTrue then t else e) = Inr x'" for x'
      using IH [OF _ that v] by (simp add: n EConditional)
    show ?thesis
    proof (cases "literal_value c'")
      case (Some d)
      with literal_evaluates [OF Some b'] eqs(1) c' have "normalize_node B S Q (if b = TTrue then t else e) = Inr n'"
        by (auto simp: EConditional normalize_simps split: if_splits)
      then have "eval_expr S V False n' = Inr v" by (rule branch)
      then show ?thesis by (rule eval_lift [OF V])
    next
      case None
      with eqs(1) c' obtain t' e' where "normalize_node B S Q t = Inr t'" "normalize_node B S Q e = Inr e'"
        "n' = ExprNode (EConditional c' t' e') ty"
        by (auto simp: EConditional normalize_simps result_simps)
      with b' branch ok show ?thesis
        by (auto simp: eval_node_simps split: if_splits)
    qed
  next
    case (EFunctionCall f arguments)
    from eqs(1) obtain as where as: "list_all2 (\<lambda>c c'. normalize_node B S Q c = Inr c') arguments as"
      and n': "normalize_call f as ty = Inr n'"
      by (auto simp: EFunctionCall normalize_simps result_simps try_map_Inr)
    from eqs(2) obtain vs where vs: "list_all2 (\<lambda>c v. eval_expr S V False c = Inr v) arguments vs"
      and v: "function_evaluate f vs ty = Inr v" "validate_datum (ops_ext S) ty Optional v = Inr ()"
      by (auto simp: EFunctionCall eval_node_simps)
    have "list_all2 (\<lambda>c v. eval_expr S V False c = Inr v) as vs"
      by (rule normalized_arguments [OF as vs]) (rule IH, simp_all add: n EFunctionCall)
    from normalize_call_ok [OF n' this v] show ?thesis .
  qed (use eqs n in \<open>auto simp: normalize_simps\<close>)
qed

end
