(* ===== verification/Expr_Compile.thy ===== *)
theory Expr_Compile
  imports Expr_Normal_Form
begin

text \<open>
  The array evaluator implements the meaning of the tree: a compiled node, evaluated with rest steps
  than its index, gives what the tree it was compiled from means, error by error.
\<close>

section \<open>The valuation of a context\<close>

definition context_valuation :: "bind_context \<Rightarrow> 'x eval_context \<Rightarrow> ('q \<Rightarrow> truth res) \<Rightarrow> ('x, 'q) valuation" where
  "context_valuation c ctx ex =
     \<lparr>val_field = (\<lambda>lift f ty.
        and_then (compile_field c f ty lift) (\<lambda>kind.
          case kind of
            PField scope slot allow \<Rightarrow>
              and_then (read_field ctx scope slot) (\<lambda>d. Inr (d, null_extended_field ctx kind d))
          | _ \<Rightarrow> Inl eval_107)),
      val_parameter = read_parameter ctx,
      val_exists = ex\<rparr>"

lemma compile_field_kind: "compile_field c f ty lift = Inr k \<Longrightarrow> \<exists>scope slot allow. k = PField scope slot allow"
  by (auto simp: compile_field_def result_simps split: if_splits)

lemma compile_field_lift: "compile_field c f ty False = Inr k \<Longrightarrow> compile_field c f ty True = Inr k"
  by (auto simp: compile_field_def result_simps split: if_splits)

lemma context_lifts: "lifts (context_valuation c ctx ex)"
  by (auto simp: lifts_def context_valuation_def and_then_Inr dest: compile_field_lift)

section \<open>Compilation\<close>

lemma context_valuation_simps [simp]:
  "val_parameter (context_valuation c ctx ex) = read_parameter ctx"
  "val_exists (context_valuation c ctx ex) = ex"
  "compile_field c f ty lift = Inr (PField scope slot allow :: 'x prepared_kind) \<Longrightarrow>
     val_field (context_valuation c (ctx :: 'x eval_context) ex) lift f ty =
       and_then (read_field ctx scope slot) (\<lambda>d. Inr (d, null_extended_field ctx (PField scope slot allow) d))"
  by (simp_all add: context_valuation_def)

text \<open>Node \<open>i\<close> of the array means the expression \<open>n\<close>, whatever is appended to the array.\<close>

definition means :: "'x scalar_ops \<Rightarrow> ('x, 'q) valuation \<Rightarrow> 'x eval_context \<Rightarrow> (nat \<Rightarrow> truth res) \<Rightarrow>
    'x prepared_node list \<Rightarrow> bool \<Rightarrow> ('x, 'q) expr_node \<Rightarrow> nat \<Rightarrow> bool" where
  "means S V ctx rex out lift n i \<longleftrightarrow>
     i < length out \<and>
     (\<forall>fuel rest. i < fuel \<longrightarrow> evaluate_node fuel S (out @ rest) ctx rex i = eval_expr S V lift n)"

lemma means_append: "means S V ctx rex out lift n i \<Longrightarrow> means S V ctx rex (out @ rest) lift n i"
  by (auto simp: means_def)

lemma means_ext: "means S V ctx rex out lift n i \<Longrightarrow> \<exists>ext. out' = out @ ext \<Longrightarrow> means S V ctx rex out' lift n i"
  by (auto intro: means_append)

lemma means_at:
  "means S V ctx rex out lift n i \<Longrightarrow> length out \<le> fuel \<Longrightarrow>
     evaluate_node fuel S (out @ rest) ctx rex i = eval_expr S V lift n"
  by (auto simp: means_def)

lemma means_map:
  assumes "list_all2 (means S V ctx rex out lift) ns js" and "length out \<le> fuel"
  shows "try_map (evaluate_node fuel S (out @ rest) ctx rex) js = try_map (eval_expr S V lift) ns"
  using assms(1) by (induction rule: list_all2_induct) (simp_all add: means_at [OF _ assms(2)])

lemma means_push:
  assumes "push_node kind ty (out, s) = Inr (i, out', s')"
    and step: "\<And>fuel rest. length out \<le> fuel \<Longrightarrow>
      evaluate_node (Suc fuel) S (out @ \<lparr>pn_kind = kind, pn_ty = ty\<rparr> # rest) ctx rex (length out) = eval_expr S V lift n"
  shows "means S V ctx rex out' lift n i \<and> i = length out \<and> out' = out @ [\<lparr>pn_kind = kind, pn_ty = ty\<rparr>]"
proof -
  from assms(1) have i: "i = length out" and out': "out' = out @ [\<lparr>pn_kind = kind, pn_ty = ty\<rparr>]"
    by (auto simp: push_node_def expr_id_from_index_def result_simps split: if_splits)
  have "evaluate_node fuel S (out' @ rest) ctx rex i = eval_expr S V lift n" if "i < fuel" for fuel rest
    using that step [of "fuel - 1" rest] by (cases fuel) (auto simp: i out')
  then show ?thesis by (simp add: means_def i out')
qed

lemma vec_get_middle [simp]: "vec_get (out @ x # rest) (length out) = Some x"
  by (simp add: vec_get_def)

lemma collect_means:
  assumes "collect_state f ns (out, s) = Inr (is, out', s')"
    and "\<And>n out s i out' s'. n \<in> set ns \<Longrightarrow> f n (out, s) = Inr (i, out', s') \<Longrightarrow>
      (\<exists>ext. out' = out @ ext) \<and> means S V ctx rex out' lift n i"
  shows "(\<exists>ext. out' = out @ ext) \<and> list_all2 (means S V ctx rex out' lift) ns is"
  using assms
proof (induction ns arbitrary: out s "is")
  case Nil
  then show ?case by simp
next
  case (Cons n ns)
  from Cons.prems(1) obtain i out1 s1 js where first: "f n (out, s) = Inr (i, out1, s1)"
    and others: "collect_state f ns (out1, s1) = Inr (js, out', s')" and [simp]: "is = i # js"
    by (auto simp: result_simps)
  from Cons.prems(2) [OF _ first] obtain ext where 1: "out1 = out @ ext" "means S V ctx rex out1 lift n i" by auto
  have "(\<exists>ext. out' = out1 @ ext) \<and> list_all2 (means S V ctx rex out' lift) ns js"
    by (rule Cons.IH [OF others]) (rule Cons.prems(2), simp_all)
  with 1 means_append [OF 1(2)] show ?case by auto
qed

lemma conditional_eq:
  "(case v of
      Value (VTruth b) \<Rightarrow> if b = TTrue then x else y
    | _ \<Rightarrow> eval_conditional v Missing Missing) = and_then (as_truth v) (\<lambda>b. if b = TTrue then x else y)"
  by (cases v) (auto simp: eval_conditional_def as_truth_def split: val.split)

lemmas compile_simps =
  compile_node.simps [of R c allow "ExprNode kind ty" for R c allow kind ty, simplified expr_node.sel]

text \<open>Evaluation answers a planned existential as the expression means it.\<close>

definition answers :: "('q, 's) exists_resolver \<Rightarrow> (nat \<Rightarrow> truth res) \<Rightarrow> ('q \<Rightarrow> truth res) \<Rightarrow> bool" where
  "answers R rex ex \<longleftrightarrow> (\<forall>q s p f s'. R q s = Inr ((p, f), s') \<longrightarrow> rex p = ex q)"

lemma compile_means:
  assumes rex: "answers R rex ex"
  shows "compile_node R c lift n (out, s) = Inr (i, out', s') \<Longrightarrow>
    (\<exists>ext. out' = out @ ext) \<and> means S (context_valuation c ctx ex) ctx rex out' lift n i"
proof (induction n arbitrary: lift out s i out' s' rule: measure_induct_rule [where f = size])
  case (less n)
  let ?V = "context_valuation c ctx ex"
  have IH: "(\<exists>ext. out' = out @ ext) \<and> means S ?V ctx rex out' k m i"
    if "m \<in> set (children n)" "compile_node R c k m (out, s) = Inr (i, out', s')" for m k out s i out' s'
    by (rule less.IH [OF size_expr_child [OF that(1)] that(2)])
  obtain kind ty where n: "n = ExprNode kind ty" by (cases n)
  note eq = less.prems [unfolded n]
  have finish: "(\<exists>ext. out' = out @ ext) \<and> means S ?V ctx rex out' lift n i"
    if "push_node k ty (mid, t) = Inr (i, out', s')" "\<exists>ext. mid = out @ ext"
      and "\<And>fuel rest. length mid \<le> fuel \<Longrightarrow>
        evaluate_node (Suc fuel) S (mid @ \<lparr>pn_kind = k, pn_ty = ty\<rparr> # rest) ctx rex (length mid) = eval_expr S ?V lift n"
    for k mid t
    using means_push [OF that(1,3)] that(2) by auto
  note node_simps = n eval_node plain_def and_then_assoc null_extended_field_def
  show ?case
  proof (cases kind)
    case (EField f)
    with eq obtain k where k: "compile_field c f ty lift = Inr k" "push_node k ty (out, s) = Inr (i, out', s')"
      by (auto simp: compile_simps result_simps)
    then obtain scope slot allow where "k = PField scope slot allow" using compile_field_kind by blast
    with k show ?thesis
      by (intro finish [OF k(2)]) (auto simp: n EField eval_node and_then_assoc)
  next
    case (EUnary op input)
    from eq obtain j mid t where j: "compile_node R c (op = OpNullableLift) input (out, s) = Inr (j, mid, t)"
      and push: "push_node (PUnary op j) ty (mid, t) = Inr (i, out', s')"
      by (auto simp: EUnary compile_simps result_simps)
    from IH [OF _ j] have ext: "\<exists>ext. mid = out @ ext" and m: "means S ?V ctx rex mid (op = OpNullableLift) input j"
      by (simp_all add: n EUnary)
    show ?thesis by (rule finish [OF push ext]) (simp add: node_simps EUnary means_at [OF m])
  next
    case (EBinary op left right)
    from eq obtain j mid t k mid' t' where j: "compile_node R c False left (out, s) = Inr (j, mid, t)"
      and k: "compile_node R c False right (mid, t) = Inr (k, mid', t')"
      and push: "push_node (PBinary op j k) ty (mid', t') = Inr (i, out', s')"
      by (auto simp: EBinary compile_simps result_simps)
    have 1: "\<exists>ext. mid = out @ ext" "means S ?V ctx rex mid False left j" using IH [OF _ j] by (simp_all add: n EBinary)
    have 2: "\<exists>ext. mid' = mid @ ext" and r: "means S ?V ctx rex mid' False right k"
      using IH [OF _ k] by (simp_all add: n EBinary)
    from 1(1) 2 have ext: "\<exists>ext. mid' = out @ ext" by auto
    have l: "means S ?V ctx rex mid' False left j" by (rule means_ext [OF 1(2) 2])
    show ?thesis
      by (rule finish [OF push ext]) (simp add: node_simps EBinary means_at [OF l] means_at [OF r] cong: if_cong)
  next
    case (EMembership input candidates negate)
    from eq obtain j mid t js mid' t' where j: "compile_node R c False input (out, s) = Inr (j, mid, t)"
      and js: "collect_state (compile_node R c False) candidates (mid, t) = Inr (js, mid', t')"
      and push: "push_node (PMembership j js negate) ty (mid', t') = Inr (i, out', s')"
      by (auto simp: EMembership compile_simps result_simps)
    have cs: "(\<exists>ext. mid' = mid @ ext) \<and> list_all2 (means S ?V ctx rex mid' False) candidates js"
      by (rule collect_means [OF js]) (rule IH, simp_all add: n EMembership)
    have 1: "\<exists>ext. mid = out @ ext" "means S ?V ctx rex mid False input j"
      using IH [OF _ j] by (simp_all add: n EMembership)
    from 1(1) cs have ext: "\<exists>ext. mid' = out @ ext" by auto
    have m: "means S ?V ctx rex mid' False input j" by (rule means_ext [OF 1(2) conjunct1 [OF cs]])
    show ?thesis
      by (rule finish [OF push ext])
        (simp add: node_simps EMembership means_at [OF m] means_map [OF conjunct2 [OF cs]])
  next
    case (EConditional cond t e)
    from eq obtain j m1 s1 k m2 s2 l m3 s3 where j: "compile_node R c False cond (out, s) = Inr (j, m1, s1)"
      and k: "compile_node R c False t (m1, s1) = Inr (k, m2, s2)"
      and l: "compile_node R c False e (m2, s2) = Inr (l, m3, s3)"
      and push: "push_node (PConditional j k l) ty (m3, s3) = Inr (i, out', s')"
      by (auto simp: EConditional compile_simps result_simps)
    have 1: "\<exists>ext. m1 = out @ ext" "means S ?V ctx rex m1 False cond j"
      and 2: "\<exists>ext. m2 = m1 @ ext" "means S ?V ctx rex m2 False t k"
      and 3: "\<exists>ext. m3 = m2 @ ext" and e: "means S ?V ctx rex m3 False e l"
      using IH [OF _ j] IH [OF _ k] IH [OF _ l] by (simp_all add: n EConditional)
    from 1(1) 2(1) 3 have ext: "\<exists>ext. m3 = out @ ext" and ext': "\<exists>ext. m3 = m1 @ ext" by auto
    have m: "means S ?V ctx rex m3 False cond j" "means S ?V ctx rex m3 False t k"
      by (rule means_ext [OF 1(2) ext'], rule means_ext [OF 2(2) 3])
    show ?thesis
      by (rule finish [OF push ext])
        (simp add: node_simps EConditional means_at [OF m(1)] means_at [OF m(2)] means_at [OF e] conditional_eq
          cong: if_cong)
  next
    case (EFunctionCall f arguments)
    from eq obtain js mid t where js: "collect_state (compile_node R c False) arguments (out, s) = Inr (js, mid, t)"
      and push: "push_node (PFunctionCall f js) ty (mid, t) = Inr (i, out', s')"
      by (auto simp: EFunctionCall compile_simps result_simps)
    have as: "(\<exists>ext. mid = out @ ext) \<and> list_all2 (means S ?V ctx rex mid False) arguments js"
      by (rule collect_means [OF js]) (rule IH, simp_all add: n EFunctionCall)
    show ?thesis
      by (rule finish [OF push conjunct1 [OF as]])
        (simp add: node_simps EFunctionCall means_map [OF conjunct2 [OF as]])
  next
    case (EExists q)
    from eq obtain pl f t where p: "R q s = Inr ((pl, f), t)"
      and push: "push_node (PExists pl f) ty (out, t) = Inr (i, out', s')"
      by (auto simp: EExists compile_simps result_simps)
    from rex p have "rex pl = ex q" unfolding answers_def by blast
    then show ?thesis by (intro finish [OF push]) (simp_all add: node_simps EExists)
  next
    case (ELiteral v)
    with eq have push: "push_node (PLiteral v) ty (out, s) = Inr (i, out', s')" by (simp add: compile_simps)
    show ?thesis by (rule finish [OF push]) (simp_all add: node_simps ELiteral)
  next
    case (EParameter name)
    with eq have push: "push_node (PParameter name) ty (out, s) = Inr (i, out', s')" by (simp add: compile_simps)
    show ?thesis by (rule finish [OF push]) (simp_all add: node_simps EParameter)
  qed
qed

section \<open>Prepared expressions\<close>

lemma prepare_Inr:
  assumes "prepare_with_existentials B S Q R node ty c L outer s = Inr (p, s')"
  obtains normalized where "validate_expression_node (ops_ext S) node L = Inr ()"
    and "normalize_node B S Q node = Inr normalized"
    and "validate_expression_node (ops_ext S) normalized L = Inr ()"
    and "en_ty normalized = ty" and "pe_ty p = ty"
    and "compile_node R c False normalized ([], s) = Inr (pe_root p, pe_nodes p, s')"
    and "pe_scopes p = map md_key (bc_models c)"
  using assms by (auto simp: prepare_with_existentials_def result_simps split: if_splits)

lemma prepared_means:
  assumes "compile_node R c False normalized ([], s) = Inr (pe_root p, pe_nodes p, s')"
    and "answers R rex ex"
    and "validate_evaluation_scopes p ctx = Inr ()"
  shows "evaluate_datum_with_exists S p ctx rex = eval_expr S (context_valuation c ctx ex) False normalized"
proof -
  have m: "means S (context_valuation c ctx ex) ctx rex (pe_nodes p) False normalized (pe_root p)"
    using compile_means [OF assms(2,1)] by blast
  from means_at [OF m order_refl, of "[]"] show ?thesis
    by (simp add: evaluate_datum_with_exists_def assms(3))
qed

end
