(* ===== verification/Big_Magnitude.thy ===== *)
theory Big_Magnitude
  imports Types
begin

text \<open>
  \<open>semantics/mod.rs\<close>, the private type \<open>BigMagnitude\<close>: an unbounded unsigned integer as little-endian
  64-bit limbs, with the carry loops written on 128-bit words as in the code. Every operation is shown
  to compute the corresponding operation on natural numbers and to keep the top limb non-zero.
\<close>

section \<open>The operations\<close>

type_synonym big_magnitude = "u64 list"

definition u64_of_u128 :: "u128 \<Rightarrow> u64" where "u64_of_u128 w = ucast w"
definition u128_of_u64 :: "u64 \<Rightarrow> u128" where "u128_of_u64 w = ucast w"
definition u128_of_u32 :: "u32 \<Rightarrow> u128" where "u128_of_u32 w = ucast w"

function big_normalize :: "big_magnitude \<Rightarrow> big_magnitude" where
  "big_normalize limbs =
     (if limbs \<noteq> [] \<and> last limbs = 0 then big_normalize (butlast limbs) else limbs)"
  by pat_completeness auto
termination
  by (relation "measure length") auto

declare big_normalize.simps [simp del]

definition big_from_u128 :: "u128 \<Rightarrow> big_magnitude" where
  "big_from_u128 val =
     (let low = u64_of_u128 val; high = u64_of_u128 (drop_bit 64 val)
      in big_normalize ([low] @ (if high \<noteq> 0 then [high] else [])))"

text \<open>One traversal of the resized limbs; a missing limb of the other operand reads as zero.\<close>

fun add_limbs :: "u64 list \<Rightarrow> u64 list \<Rightarrow> u128 \<Rightarrow> u64 list \<times> u128" where
  "add_limbs [] other carry = ([], carry)"
| "add_limbs (l # ls) other carry =
     (let left = u128_of_u64 l;
          right = u128_of_u64 (case other of [] \<Rightarrow> 0 | r # _ \<Rightarrow> r);
          total = left + right + carry;
          (rest, carry') = add_limbs ls (tl other) (drop_bit 64 total)
      in (u64_of_u128 total # rest, carry'))"

definition big_add_assign :: "big_magnitude \<Rightarrow> big_magnitude \<Rightarrow> big_magnitude" where
  "big_add_assign self other =
     (let width = max (length self) (length other);
          (limbs, carry) = add_limbs (self @ replicate (width - length self) 0) other 0
      in if carry \<noteq> 0 then limbs @ [u64_of_u128 carry] else limbs)"

fun mul_limbs :: "u64 list \<Rightarrow> u128 \<Rightarrow> u128 \<Rightarrow> u64 list \<times> u128" where
  "mul_limbs [] factor carry = ([], carry)"
| "mul_limbs (l # ls) factor carry =
     (let total = u128_of_u64 l * factor + carry;
          (rest, carry') = mul_limbs ls factor (drop_bit 64 total)
      in (u64_of_u128 total # rest, carry'))"

definition big_is_zero :: "big_magnitude \<Rightarrow> bool" where
  "big_is_zero limbs \<longleftrightarrow> limbs = []"

definition big_mul_small :: "big_magnitude \<Rightarrow> u32 \<Rightarrow> big_magnitude" where
  "big_mul_small self factor =
     (if factor = 0 \<or> big_is_zero self then []
      else let (limbs, carry) = mul_limbs self (u128_of_u32 factor) 0
      in if carry \<noteq> 0 then limbs @ [u64_of_u128 carry] else limbs)"

text \<open>\<open>Ord\<close>: by number of limbs, then lexicographically from the most significant limb.\<close>

fun limbs_cmp :: "u64 list \<Rightarrow> u64 list \<Rightarrow> ordering" where
  "limbs_cmp [] [] = Equal"
| "limbs_cmp [] (_ # _) = Less"
| "limbs_cmp (_ # _) [] = Greater"
| "limbs_cmp (x # xs) (y # ys) = then_with (cmp_of x y) (limbs_cmp xs ys)"

definition big_cmp :: "big_magnitude \<Rightarrow> big_magnitude \<Rightarrow> ordering" where
  "big_cmp a b = then_with (cmp_of (length a) (length b)) (limbs_cmp (rev a) (rev b))"

definition eval_003_underflow :: diagnostic where
  "eval_003_underflow = diagnostic_error ''EXPR-EVAL-003'' ''internal widened-sum magnitude underflow''"

fun sub_limbs :: "u64 list \<Rightarrow> u64 list \<Rightarrow> u128 \<Rightarrow> u64 list" where
  "sub_limbs [] other borrow = []"
| "sub_limbs (l # ls) other borrow =
     (let right = u128_of_u64 (case other of [] \<Rightarrow> 0 | r # _ \<Rightarrow> r) + borrow;
          left = u128_of_u64 l
      in if left \<ge> right
         then u64_of_u128 (left - right) # sub_limbs ls (tl other) 0
         else u64_of_u128 (push_bit 64 1 + left - right) # sub_limbs ls (tl other) 1)"

definition big_sub :: "big_magnitude \<Rightarrow> big_magnitude \<Rightarrow> big_magnitude res" where
  "big_sub self other =
     (if big_cmp self other = Less then Inl eval_003_underflow
      else Inr (big_normalize (sub_limbs self other 0)))"

definition big_to_u128 :: "big_magnitude \<Rightarrow> u128 option" where
  "big_to_u128 limbs =
     (case limbs of
        [] \<Rightarrow> Some 0
      | [low] \<Rightarrow> Some (u128_of_u64 low)
      | [low, high] \<Rightarrow> Some (or (u128_of_u64 low) (push_bit 64 (u128_of_u64 high)))
      | _ \<Rightarrow> None)"

section \<open>Values and the invariant\<close>

fun big_value :: "big_magnitude \<Rightarrow> nat" where
  "big_value [] = 0"
| "big_value (l # ls) = unat l + 2 ^ 64 * big_value ls"

definition big_inv :: "big_magnitude \<Rightarrow> bool" where
  "big_inv limbs \<longleftrightarrow> limbs = [] \<or> last limbs \<noteq> 0"

lemma big_value_append: "big_value (a @ b) = big_value a + 2 ^ (64 * length a) * big_value b"
  by (induction a) (auto simp: algebra_simps power_add)

lemma big_value_replicate_0 [simp]: "big_value (replicate n 0) = 0"
  by (induction n) auto

lemma big_value_bound: "big_value limbs < 2 ^ (64 * length limbs)"
proof (induction limbs)
  case Nil
  then show ?case by simp
next
  case (Cons l ls)
  have "unat l + 2 ^ 64 * big_value ls < 2 ^ 64 + 2 ^ 64 * big_value ls"
    using unat_u64_bound [of l] by simp
  also have "\<dots> = 2 ^ 64 * (big_value ls + 1)" by simp
  also have "\<dots> \<le> 2 ^ 64 * 2 ^ (64 * length ls)"
    using Cons.IH by (intro mult_le_mono2) simp
  finally show ?case by (simp add: power_add)
qed

lemma unat_u128_of_u64 [simp]: "unat (u128_of_u64 w) = unat w"
  using unat_u64_bound [of w] by (simp add: u128_of_u64_def unsigned_ucast_eq take_bit_nat_eq_self)

lemma unat_u128_of_u32 [simp]: "unat (u128_of_u32 w) = unat w"
  using unat_u32_bound [of w] by (simp add: u128_of_u32_def unsigned_ucast_eq take_bit_nat_eq_self)

lemma unat_u64_of_u128: "unat (u64_of_u128 w) = unat w mod 2 ^ 64"
  by (simp add: u64_of_u128_def unsigned_ucast_eq take_bit_eq_mod)

lemma unat_drop_bit_64: "unat (drop_bit 64 (w :: u128)) = unat w div 2 ^ 64"
  by (simp add: drop_bit_eq_div unat_div_distrib)

lemma split_u128: "unat (u64_of_u128 w) + 2 ^ 64 * unat (drop_bit 64 w) = unat w"
  unfolding unat_u64_of_u128 unat_drop_bit_64 by (rule mod_mult_div_eq)

lemmas split_u128_num = split_u128 [simplified]

section \<open>Addition\<close>

lemma unat_total_add:
  assumes "unat carry \<le> 1"
  shows "unat (u128_of_u64 l + u128_of_u64 r + carry) = unat l + unat r + unat carry"
  using assms unat_u64_bound [of l] unat_u64_bound [of r]
  by (simp add: unat_word_ariths)

lemma add_limbs_value:
  "unat carry \<le> 1 \<Longrightarrow> length other \<le> length ls \<Longrightarrow> add_limbs ls other carry = (rest, c) \<Longrightarrow>
    big_value rest + 2 ^ (64 * length ls) * unat c = big_value ls + big_value other + unat carry \<and>
    length rest = length ls \<and> unat c \<le> 1"
proof (induction ls other carry arbitrary: rest c rule: add_limbs.induct)
  case (1 other carry)
  then show ?case by simp
next
  case (2 l ls other carry)
  define r where "r = (case other of [] \<Rightarrow> 0 | r # _ \<Rightarrow> r)"
  define total where "total = u128_of_u64 l + u128_of_u64 r + carry"
  obtain rest' c' where rec: "add_limbs ls (tl other) (drop_bit 64 total) = (rest', c')"
    by fastforce
  have tot: "unat total = unat l + unat r + unat carry"
    unfolding total_def by (rule unat_total_add [OF "2.prems"(1)])
  have c1: "unat (drop_bit 64 total) \<le> 1"
    using tot "2.prems"(1) unat_u64_bound [of l] unat_u64_bound [of r]
    by (simp only: unat_drop_bit_64) simp
  have other: "big_value other = unat r + 2 ^ 64 * big_value (tl other)"
    by (cases other) (auto simp: r_def)
  have len: "length (tl other) \<le> length ls" using "2.prems"(2) by (cases other) auto
  have IH: "big_value rest' + 2 ^ (64 * length ls) * unat c' =
      big_value ls + big_value (tl other) + unat (drop_bit 64 total) \<and>
      length rest' = length ls \<and> unat c' \<le> 1"
    using "2.IH" [OF refl refl total_def [unfolded r_def] c1 len rec] .
  have res: "rest = u64_of_u128 total # rest'" "c = c'"
    using "2.prems"(3) rec by (simp_all add: total_def r_def Let_def)
  have "big_value rest + 2 ^ (64 * length (l # ls)) * unat c =
      unat (u64_of_u128 total) + 2 ^ 64 * (big_value rest' + 2 ^ (64 * length ls) * unat c')"
    by (simp add: res power_add algebra_simps)
  also have "\<dots> = unat total + 2 ^ 64 * (big_value ls + big_value (tl other))"
    using IH split_u128 [of total] by (simp add: algebra_simps)
  also have "\<dots> = big_value (l # ls) + big_value other + unat carry"
    by (simp add: tot other algebra_simps)
  finally show ?case using IH res by simp
qed

lemma big_value_add: "big_value (big_add_assign a b) = big_value a + big_value b"
proof -
  let ?pad = "a @ replicate (max (length a) (length b) - length a) 0"
  obtain rest c where rec: "add_limbs ?pad b 0 = (rest, c)" by fastforce
  have "length b \<le> length ?pad" by simp
  from add_limbs_value [OF _ this rec]
  have v: "big_value rest + 2 ^ (64 * length ?pad) * unat c = big_value a + big_value b"
    and l: "length rest = length ?pad" and c: "unat c \<le> 1"
    by (simp_all add: big_value_append)
  show ?thesis
  proof (cases "c = 0")
    case True
    with v rec show ?thesis by (simp add: big_add_assign_def Let_def)
  next
    case False
    then have "unat c = 1" using c unat_eq_zero [of c] by linarith
    then have "unat (u64_of_u128 c) = unat c" by (simp add: unat_u64_of_u128)
    with v l rec False show ?thesis
      by (simp add: big_add_assign_def Let_def big_value_append)
  qed
qed

section \<open>Normal form and comparison\<close>

lemma big_normalize_value: "big_value (big_normalize limbs) = big_value limbs"
proof (induction limbs rule: big_normalize.induct)
  case (1 limbs)
  show ?case
  proof (cases "limbs \<noteq> [] \<and> last limbs = 0")
    case True
    then have "limbs = butlast limbs @ [0]" using append_butlast_last_id [of limbs] by simp
    then have "big_value limbs = big_value (butlast limbs)"
      by (metis big_value_append big_value.simps mult_0_right add_0_right unsigned_0)
    with True 1 show ?thesis by (subst big_normalize.simps) simp
  next
    case False
    then show ?thesis by (simp only: big_normalize.simps [of limbs] if_False)
  qed
qed

lemma big_normalize_inv: "big_inv (big_normalize limbs)"
proof (induction limbs rule: big_normalize.induct)
  case (1 limbs)
  then show ?case by (subst big_normalize.simps) (auto simp: big_inv_def)
qed

lemma unat_high_u64: "unat (u64_of_u128 (drop_bit 64 w)) = unat (drop_bit 64 w)"
  using unat_u128_bound [of w] unfolding unat_u64_of_u128 unat_drop_bit_64
  by (intro mod_less) (simp add: less_mult_imp_div_less)

lemma big_from_u128_value: "big_value (big_from_u128 w) = unat w"
proof -
  let ?low = "u64_of_u128 w" and ?high = "u64_of_u128 (drop_bit 64 w)"
  have "big_value ([?low] @ (if ?high \<noteq> 0 then [?high] else [])) = unat ?low + 2 ^ 64 * unat ?high"
    by simp
  also have "\<dots> = unat w" unfolding unat_high_u64 by (rule split_u128)
  finally show ?thesis by (simp only: big_from_u128_def Let_def big_normalize_value)
qed

lemma big_from_u128_inv: "big_inv (big_from_u128 w)"
  by (simp add: big_from_u128_def Let_def big_normalize_inv)

lemma big_value_lower:
  assumes "big_inv limbs" and "limbs \<noteq> []"
  shows "2 ^ (64 * (length limbs - 1)) \<le> big_value limbs"
proof -
  have l: "limbs = butlast limbs @ [last limbs]" using assms(2) by simp
  have "0 < unat (last limbs)" using assms by (simp add: big_inv_def unat_gt_0)
  then have "2 ^ (64 * length (butlast limbs)) * 1 \<le> 2 ^ (64 * length (butlast limbs)) * unat (last limbs)"
    by (intro mult_le_mono2) simp
  also have "\<dots> \<le> big_value (butlast limbs @ [last limbs])" by (simp add: big_value_append)
  finally show ?thesis using l by simp
qed

lemma big_inv_iff_value: "big_inv limbs \<Longrightarrow> big_value limbs = 0 \<longleftrightarrow> limbs = []"
  using big_value_lower [of limbs] by fastforce

lemma limbs_cmp_value:
  "length xs = length ys \<Longrightarrow> limbs_cmp xs ys = cmp_of (big_value (rev xs)) (big_value (rev ys))"
proof (induction xs ys rule: list_induct2)
  case Nil
  then show ?case by (simp add: cmp_of_def)
next
  case (Cons x xs y ys)
  let ?B = "2 ^ (64 * length ys) :: nat"
  have b: "big_value (rev xs) < ?B" "big_value (rev ys) < ?B"
    using big_value_bound [of "rev xs"] big_value_bound [of "rev ys"] Cons.hyps by simp_all
  have gap: "a + ?B * m < c + ?B * n" if "a < ?B" "m < n" for a c m n
  proof -
    have "a + ?B * m < ?B * (m + 1)" using that by simp
    also have "\<dots> \<le> ?B * n" using that by (intro mult_le_mono2) simp
    finally show ?thesis by simp
  qed
  show ?case
  proof (cases "x = y")
    case True
    then show ?thesis using Cons by (auto simp: big_value_append cmp_of_def)
  next
    case False
    then consider "x < y" | "y < x" by (meson linorder_neqE)
    then show ?thesis
    proof cases
      case 1
      then have "big_value (rev xs) + ?B * unat x < big_value (rev ys) + ?B * unat y"
        by (intro gap b(1)) (simp add: word_less_nat_alt)
      with 1 False Cons.hyps show ?thesis by (simp add: big_value_append cmp_of_def)
    next
      case 2
      then have "big_value (rev ys) + ?B * unat y < big_value (rev xs) + ?B * unat x"
        by (intro gap b(2)) (simp add: word_less_nat_alt)
      with 2 False Cons.hyps show ?thesis by (simp add: big_value_append cmp_of_def)
    qed
  qed
qed

lemma big_cmp_value:
  assumes "big_inv a" and "big_inv b"
  shows "big_cmp a b = cmp_of (big_value a) (big_value b)"
proof (cases "length a = length b")
  case True
  then show ?thesis
    using limbs_cmp_value [of "rev a" "rev b"] by (simp add: big_cmp_def cmp_of_def)
next
  case False
  have shorter: "big_value s < big_value t" if "length s < length t" "big_inv t" for s t
  proof -
    have "64 * length s \<le> 64 * (length t - 1)" using that by simp
    then have "(2 :: nat) ^ (64 * length s) \<le> 2 ^ (64 * (length t - 1))"
      by (intro power_increasing) auto
    also have "\<dots> \<le> big_value t" using that by (intro big_value_lower) auto
    finally show ?thesis using big_value_bound [of s] by simp
  qed
  from False consider "length a < length b" | "length b < length a" by linarith
  then show ?thesis
    using shorter assms by cases (force simp: big_cmp_def cmp_of_def)+
qed

section \<open>The invariant under addition and scaling\<close>

lemma big_inv_from_value:
  assumes "limbs \<noteq> [] \<Longrightarrow> 2 ^ (64 * (length limbs - 1)) \<le> big_value limbs"
  shows "big_inv limbs"
proof (cases "limbs = []")
  case True
  then show ?thesis by (simp add: big_inv_def)
next
  case False
  have l: "limbs = butlast limbs @ [last limbs]" using False by simp
  have "last limbs \<noteq> 0"
  proof
    assume "last limbs = 0"
    then have "big_value limbs = big_value (butlast limbs)"
      by (metis l big_value_append big_value.simps mult_0_right add_0_right unsigned_0)
    with big_value_bound [of "butlast limbs"] assms [OF False] show False by simp
  qed
  then show ?thesis by (simp add: big_inv_def)
qed

lemma length_add_limbs: "length (fst (add_limbs ls other carry)) = length ls"
  by (induction ls other carry rule: add_limbs.induct) (auto simp: Let_def split: prod.splits)

lemma big_inv_add:
  assumes "big_inv a" and "big_inv b"
  shows "big_inv (big_add_assign a b)"
proof (rule big_inv_from_value)
  let ?w = "max (length a) (length b)" and ?r = "big_add_assign a b"
  assume ne: "?r \<noteq> []"
  obtain rest c where rec: "add_limbs (a @ replicate (?w - length a) 0) b 0 = (rest, c)" by fastforce
  have len: "length rest = ?w"
    using length_add_limbs [of "a @ replicate (?w - length a) 0" b 0] rec by simp
  show "2 ^ (64 * (length ?r - 1)) \<le> big_value ?r"
  proof (cases "c = 0")
    case True
    then have r: "length ?r = ?w" using rec len by (simp add: big_add_assign_def Let_def)
    with ne have "a \<noteq> [] \<or> b \<noteq> []" by auto
    then have "2 ^ (64 * (?w - 1)) \<le> big_value a + big_value b"
    proof (cases "length a \<le> length b")
      case True
      with \<open>a \<noteq> [] \<or> b \<noteq> []\<close> have "b \<noteq> []" by auto
      from big_value_lower [OF assms(2) this] True show ?thesis by (simp add: max_def)
    next
      case False
      then have "a \<noteq> []" by auto
      from big_value_lower [OF assms(1) this] False show ?thesis by (simp add: max_def)
    qed
    then show ?thesis using r by (simp add: big_value_add)
  next
    case False
    have w: "length b \<le> length (a @ replicate (?w - length a) 0)" by simp
    from add_limbs_value [OF _ w rec] have v:
      "big_value rest + 2 ^ (64 * ?w) * unat c = big_value a + big_value b" "unat c \<le> 1"
      by (simp_all add: big_value_append)
    have "unat c = 1" using False v(2) unat_eq_zero [of c] by linarith
    then have "2 ^ (64 * ?w) \<le> big_value a + big_value b" using v(1) by simp
    moreover have "length ?r = Suc ?w" using False rec len by (simp add: big_add_assign_def Let_def)
    ultimately show ?thesis by (simp add: big_value_add)
  qed
qed

lemma unat_total_mul:
  assumes "unat factor < 2 ^ 32" and "unat carry < 2 ^ 32"
  shows "unat (u128_of_u64 l * factor + carry) = unat l * unat factor + unat carry"
    and "(unat l * unat factor + unat carry) div 2 ^ 64 < 2 ^ 32"
proof -
  have "unat l * unat factor + unat carry < 2 ^ 64 * 2 ^ 32"
  proof -
    have "unat l * unat factor + unat carry \<le> unat l * (2 ^ 32 - 1) + (2 ^ 32 - 1)"
      using assms by (intro add_mono mult_le_mono2) simp_all
    also have "\<dots> < 2 ^ 64 * 2 ^ 32" using unat_u64_bound [of l] by simp
    finally show ?thesis .
  qed
  then show "unat (u128_of_u64 l * factor + carry) = unat l * unat factor + unat carry"
    and "(unat l * unat factor + unat carry) div 2 ^ 64 < 2 ^ 32"
    by (simp_all add: unat_word_ariths less_mult_imp_div_less)
qed

lemma mul_limbs_value:
  "unat factor < 2 ^ 32 \<Longrightarrow> unat carry < 2 ^ 32 \<Longrightarrow> mul_limbs ls factor carry = (rest, c) \<Longrightarrow>
    big_value rest + 2 ^ (64 * length ls) * unat c = big_value ls * unat factor + unat carry \<and>
    length rest = length ls \<and> unat c < 2 ^ 32"
proof (induction ls factor carry arbitrary: rest c rule: mul_limbs.induct)
  case (1 factor carry)
  then show ?case by simp
next
  case (2 l ls factor carry)
  define total where "total = u128_of_u64 l * factor + carry"
  obtain rest' c' where rec: "mul_limbs ls factor (drop_bit 64 total) = (rest', c')" by fastforce
  have tot: "unat total = unat l * unat factor + unat carry"
    unfolding total_def by (rule unat_total_mul(1) [OF "2.prems"(1,2)])
  have c1: "unat (drop_bit 64 total) < 2 ^ 32"
    unfolding unat_drop_bit_64 tot by (rule unat_total_mul(2) [OF "2.prems"(1,2)])
  have IH: "big_value rest' + 2 ^ (64 * length ls) * unat c' =
      big_value ls * unat factor + unat (drop_bit 64 total) \<and>
      length rest' = length ls \<and> unat c' < 2 ^ 32"
    using "2.IH" [OF total_def "2.prems"(1) c1 rec] .
  have res: "rest = u64_of_u128 total # rest'" "c = c'"
    using "2.prems"(3) rec by (simp_all add: total_def Let_def)
  have "big_value rest + 2 ^ (64 * length (l # ls)) * unat c =
      unat (u64_of_u128 total) + 2 ^ 64 * (big_value rest' + 2 ^ (64 * length ls) * unat c')"
    by (simp add: res power_add algebra_simps)
  also have "\<dots> = unat total + 2 ^ 64 * (big_value ls * unat factor)"
    using IH split_u128 [of total] by (simp add: algebra_simps)
  also have "\<dots> = big_value (l # ls) * unat factor + unat carry"
    by (simp add: tot algebra_simps)
  finally show ?case using IH res by simp
qed

lemma big_value_mul_small: "big_value (big_mul_small a factor) = big_value a * unat factor"
proof (cases "factor = 0 \<or> big_is_zero a")
  case True
  then show ?thesis by (auto simp: big_mul_small_def big_is_zero_def)
next
  case False
  obtain rest c where rec: "mul_limbs a (u128_of_u32 factor) 0 = (rest, c)" by fastforce
  from mul_limbs_value [OF _ _ rec] unat_u32_bound [of factor]
  have v: "big_value rest + 2 ^ (64 * length a) * unat c = big_value a * unat factor"
    "length rest = length a" "unat c < 2 ^ 32" by simp_all
  from v(3) have "unat (u64_of_u128 c) = unat c" by (simp add: unat_u64_of_u128)
  with v rec False show ?thesis
    by (auto simp: big_mul_small_def Let_def big_value_append)
qed

lemma big_inv_mul_small:
  assumes "big_inv a"
  shows "big_inv (big_mul_small a factor)"
proof (cases "factor = 0 \<or> big_is_zero a")
  case True
  then show ?thesis by (auto simp: big_mul_small_def big_inv_def)
next
  case False
  obtain rest c where rec: "mul_limbs a (u128_of_u32 factor) 0 = (rest, c)" by fastforce
  from mul_limbs_value [OF _ _ rec] unat_u32_bound [of factor]
  have v: "big_value rest + 2 ^ (64 * length a) * unat c = big_value a * unat factor"
    "length rest = length a" by simp_all
  have f: "1 \<le> unat factor" using False unat_gt_0 [of factor] by linarith
  have lower: "2 ^ (64 * (length a - 1)) \<le> big_value a * unat factor"
    using big_value_lower [OF assms] False f
    by (auto simp: big_is_zero_def intro: order_trans [of _ "big_value a * 1", OF _ mult_le_mono2])
  show ?thesis
  proof (cases "c = 0")
    case True
    with v rec False lower show ?thesis
      by (intro big_inv_from_value) (simp add: big_mul_small_def Let_def)
  next
    case c: False
    then have "1 \<le> unat c" using unat_gt_0 [of c] by linarith
    then have "2 ^ (64 * length a) * 1 \<le> 2 ^ (64 * length a) * unat c" by (intro mult_le_mono2)
    then have "2 ^ (64 * length a) \<le> big_value (big_mul_small a factor)"
      using v(1) unfolding big_value_mul_small mult_1_right by linarith
    with v(2) rec False c show ?thesis
      by (intro big_inv_from_value) (simp add: big_mul_small_def Let_def)
  qed
qed

section \<open>Subtraction and narrowing\<close>

lemma u128_two_64: "(push_bit 64 1 :: u128) = 2 ^ 64"
  by (simp add: push_bit_eq_mult)

lemma unat_total_sub:
  assumes "unat borrow \<le> 1"
  shows "unat (u128_of_u64 r + borrow) = unat r + unat borrow"
    and "unat l < unat r + unat borrow \<Longrightarrow>
      unat (push_bit 64 1 + u128_of_u64 l - (u128_of_u64 r + borrow)) =
        2 ^ 64 + unat l - (unat r + unat borrow)"
proof -
  show R: "unat (u128_of_u64 r + borrow) = unat r + unat borrow"
    using assms unat_u64_bound [of r] by (simp add: unat_word_ariths)
  have L: "unat (push_bit 64 1 + u128_of_u64 l) = 2 ^ 64 + unat l"
    using unat_u64_bound [of l] unfolding u128_two_64 by (simp add: unat_word_ariths)
  show "unat (push_bit 64 1 + u128_of_u64 l - (u128_of_u64 r + borrow)) =
      2 ^ 64 + unat l - (unat r + unat borrow)" if "unat l < unat r + unat borrow"
  proof -
    have "u128_of_u64 r + borrow \<le> push_bit 64 1 + u128_of_u64 l"
      unfolding word_le_nat_alt L R using assms unat_u64_bound [of r] by simp
    then show ?thesis by (simp only: unat_sub L R)
  qed
qed

lemma sub_limbs_value:
  "unat borrow \<le> 1 \<Longrightarrow> length other \<le> length ls \<Longrightarrow>
    big_value other + unat borrow \<le> big_value ls \<Longrightarrow>
    big_value (sub_limbs ls other borrow) = big_value ls - (big_value other + unat borrow)"
proof (induction ls other borrow rule: sub_limbs.induct)
  case (1 other borrow)
  then show ?case by simp
next
  case (2 l ls other borrow)
  define r where "r = (case other of [] \<Rightarrow> 0 | r # _ \<Rightarrow> r)"
  have other: "big_value other = unat r + 2 ^ 64 * big_value (tl other)"
    by (cases other) (auto simp: r_def)
  have len: "length (tl other) \<le> length ls" using "2.prems"(2) by (cases other) auto
  note R = unat_total_sub(1) [OF "2.prems"(1), of r]
  have total: "unat r + 2 ^ 64 * big_value (tl other) + unat borrow \<le> unat l + 2 ^ 64 * big_value ls"
    using "2.prems"(3) other by simp
  show ?case
  proof (cases "u128_of_u64 r + borrow \<le> u128_of_u64 l")
    case True
    then have le: "unat r + unat borrow \<le> unat l" by (simp add: word_le_nat_alt R)
    have d: "unat (u64_of_u128 (u128_of_u64 l - (u128_of_u64 r + borrow))) = unat l - (unat r + unat borrow)"
      using unat_u64_bound [of l] by (simp add: unat_u64_of_u128 unat_sub [OF True] R)
    have b: "big_value (tl other) \<le> big_value ls"
      using total [simplified] le unat_u64_bound [of l] by linarith
    then have "big_value (sub_limbs ls (tl other) 0) = big_value ls - big_value (tl other)"
      using "2.IH"(1) [OF refl refl] True len by (simp add: r_def)
    with True d le b show ?thesis
      by (simp add: other r_def [symmetric] Let_def diff_mult_distrib2)
  next
    case False
    then have lt: "unat l < unat r + unat borrow" by (simp add: word_le_nat_alt R)
    have d: "unat (u64_of_u128 (push_bit 64 1 + u128_of_u64 l - (u128_of_u64 r + borrow))) =
        2 ^ 64 + unat l - (unat r + unat borrow)"
      unfolding unat_u64_of_u128 unat_total_sub(2) [OF "2.prems"(1) lt] using lt by simp
    have b: "big_value (tl other) + 1 \<le> big_value ls"
      using total [simplified] lt by linarith
    then have "big_value (sub_limbs ls (tl other) 1) = big_value ls - (big_value (tl other) + 1)"
      using "2.IH"(2) [OF refl refl] False len by (simp add: r_def)
    moreover have "sub_limbs (l # ls) other borrow =
        u64_of_u128 (push_bit 64 1 + u128_of_u64 l - (u128_of_u64 r + borrow)) # sub_limbs ls (tl other) 1"
      using False by (simp add: r_def [symmetric] Let_def)
    ultimately have "big_value (sub_limbs (l # ls) other borrow) =
        2 ^ 64 + unat l - (unat r + unat borrow) + 2 ^ 64 * (big_value ls - (big_value (tl other) + 1))"
      using d by simp
    also have "\<dots> = unat l + 2 ^ 64 * big_value ls - (unat r + 2 ^ 64 * big_value (tl other) + unat borrow)"
      using b lt unat_u64_bound [of r] "2.prems"(1) by (simp add: diff_mult_distrib2 add_mult_distrib2)
    finally show ?thesis by (simp add: other)
  qed
qed

lemma big_sub_value:
  assumes "big_inv a" and "big_inv b"
  shows "big_sub a b = (if big_value a < big_value b then Inl eval_003_underflow
    else Inr (big_normalize (sub_limbs a b 0)))"
    and "big_value b \<le> big_value a \<Longrightarrow>
      big_value (big_normalize (sub_limbs a b 0)) = big_value a - big_value b"
proof -
  show "big_sub a b = (if big_value a < big_value b then Inl eval_003_underflow
    else Inr (big_normalize (sub_limbs a b 0)))"
    by (simp add: big_sub_def big_cmp_value [OF assms])
  assume le: "big_value b \<le> big_value a"
  then have "big_cmp a b \<noteq> Less" by (simp add: big_cmp_value [OF assms])
  then have "length b \<le> length a" by (cases "length a < length b") (auto simp: big_cmp_def cmp_of_def)
  with le show "big_value (big_normalize (sub_limbs a b 0)) = big_value a - big_value b"
    by (simp add: big_normalize_value sub_limbs_value)
qed

lemma unat_or_high:
  "unat (or (u128_of_u64 low) (push_bit 64 (u128_of_u64 high))) = unat low + 2 ^ 64 * unat high"
proof -
  have "and (u128_of_u64 low) (push_bit 64 (u128_of_u64 high)) = 0"
    by (rule bit_word_eqI) (auto simp: u128_of_u64_def bit_simps dest: bit_imp_le_length)
  then have "or (u128_of_u64 low) (push_bit 64 (u128_of_u64 high)) =
      u128_of_u64 low + push_bit 64 (u128_of_u64 high)"
    by (rule disjunctive_add_eq_or [symmetric])
  also have "unat \<dots> = unat low + 2 ^ 64 * unat high"
    using unat_u64_bound [of low] unat_u64_bound [of high]
    by (simp add: push_bit_eq_mult unat_word_ariths)
  finally show ?thesis .
qed

lemma big_to_u128_value:
  assumes "big_inv limbs"
  shows "big_to_u128 limbs = Some w \<longleftrightarrow> big_value limbs = unat w"
    and "big_to_u128 limbs = None \<longleftrightarrow> 2 ^ 128 \<le> big_value limbs"
proof -
  consider "limbs = []" | low where "limbs = [low]" | low high where "limbs = [low, high]"
    | "3 \<le> length limbs"
    by (cases limbs; cases "tl limbs"; cases "tl (tl limbs)") auto
  then have "(big_to_u128 limbs = Some w \<longleftrightarrow> big_value limbs = unat w) \<and>
      (big_to_u128 limbs = None \<longleftrightarrow> 2 ^ 128 \<le> big_value limbs)"
  proof cases
    case 1
    then show ?thesis by (auto simp: big_to_u128_def unat_eq_zero [symmetric])
  next
    case (2 low)
    then show ?thesis using unat_u64_bound [of low]
      by (auto simp: big_to_u128_def word_unat_eq_iff [where ?'a = 128])
  next
    case (3 low high)
    then show ?thesis using unat_u64_bound [of low] unat_u64_bound [of high]
      by (auto simp: big_to_u128_def word_unat_eq_iff [where ?'a = 128] unat_or_high [simplified])
  next
    case 4
    then have "big_to_u128 limbs = None"
      by (auto simp: big_to_u128_def split: list.splits)
    moreover have "2 ^ 128 \<le> big_value limbs"
    proof -
      have "(2 :: nat) ^ 128 \<le> 2 ^ (64 * (length limbs - 1))" using 4 by (intro power_increasing) auto
      also have "\<dots> \<le> big_value limbs" using 4 by (intro big_value_lower [OF assms]) auto
      finally show ?thesis .
    qed
    ultimately show ?thesis using unat_u128_bound [of w] by auto
  qed
  then show "big_to_u128 limbs = Some w \<longleftrightarrow> big_value limbs = unat w"
    and "big_to_u128 limbs = None \<longleftrightarrow> 2 ^ 128 \<le> big_value limbs" by simp_all
qed


lemma big_sub_total:
  assumes "big_inv a" and "big_inv b"
  shows "case big_sub a b of
      Inl err \<Rightarrow> big_value a < big_value b
    | Inr d \<Rightarrow> big_value d + big_value b = big_value a"
  using big_sub_value [OF assms] by simp

end
