(* ===== verification/Exact_Sum.thy ===== *)
theory Exact_Sum
  imports Big_Magnitude Values
begin

text \<open>
  \<open>semantics/mod.rs\<close>, \<open>sum_exact_values\<close>: the sum of exact numeric values through widened positive and
  negative magnitudes. The result is shown to be the mathematical sum exactly when that sum fits the
  canonical representation, for any order of the terms and however large the partial sums get. The last section holds
  the laws of the execution order of datums.
\<close>

section \<open>Definitions\<close>

definition eval_002_non_exact :: diagnostic where
  "eval_002_non_exact = diagnostic_error ''EXPR-EVAL-002''
     ''exact sum received a non-exact-numeric runtime value''"
definition eval_002_incompatible :: diagnostic where
  "eval_002_incompatible = diagnostic_error ''EXPR-EVAL-002''
     ''exact sum received incompatible numeric runtime values''"
definition eval_003_signed :: diagnostic where
  "eval_003_signed = diagnostic_error ''EXPR-EVAL-003'' ''signed integer aggregate sum overflow''"
definition eval_003_unsigned :: diagnostic where
  "eval_003_unsigned = diagnostic_error ''EXPR-EVAL-003'' ''unsigned integer aggregate sum overflow''"
definition eval_003_decimal :: diagnostic where
  "eval_003_decimal = diagnostic_error ''EXPR-EVAL-003'' ''decimal aggregate sum overflow''"

text \<open>\<open>i128::is_negative\<close> and \<open>i128::unsigned_abs\<close>.\<close>

definition i128_is_negative :: "i128 \<Rightarrow> bool" where
  "i128_is_negative w \<longleftrightarrow> sint w < 0"

definition i128_unsigned_abs :: "i128 \<Rightarrow> u128" where
  "i128_unsigned_abs w = (if i128_is_negative w then - w else w)"

text \<open>\<open>i128::try_from(u128)\<close>.\<close>

definition i128_try_from :: "u128 \<Rightarrow> i128 option" where
  "i128_try_from w = (if unat w < 2 ^ 127 then Some w else None)"

definition accumulate :: "big_magnitude \<times> big_magnitude \<Rightarrow> bool \<Rightarrow> big_magnitude \<Rightarrow>
    big_magnitude \<times> big_magnitude" where
  "accumulate pn negative magnitude =
     (if negative then (fst pn, big_add_assign (snd pn) magnitude)
      else (big_add_assign (fst pn) magnitude, snd pn))"

definition signed_magnitudes :: "'x val list \<Rightarrow> (big_magnitude \<times> big_magnitude) res" where
  "signed_magnitudes values =
     try_each (\<lambda>v pn.
       case v of
         VInt w \<Rightarrow> Inr (accumulate pn (i128_is_negative w) (big_from_u128 (i128_unsigned_abs w)))
       | _ \<Rightarrow> Inl eval_002_incompatible) values ([], [])"

definition signed_i128_result :: "big_magnitude \<Rightarrow> big_magnitude \<Rightarrow> i128 res" where
  "signed_i128_result positive negative =
     (if big_cmp positive negative \<noteq> Less
      then and_then (big_sub positive negative) (\<lambda>d.
             and_then (ok_or (big_to_u128 d) eval_003_signed) (\<lambda>magnitude.
               ok_or (i128_try_from magnitude) eval_003_signed))
      else and_then (big_sub negative positive) (\<lambda>d.
             and_then (ok_or (big_to_u128 d) eval_003_signed) (\<lambda>magnitude.
               if magnitude = push_bit 127 1 then Inr (push_bit 127 1)
               else ok_or (map_option uminus (i128_try_from magnitude)) eval_003_signed)))"

definition sum_signed_integers :: "'x val list \<Rightarrow> i128 res" where
  "sum_signed_integers values =
     and_then (signed_magnitudes values) (\<lambda>(positive, negative). signed_i128_result positive negative)"

definition sum_unsigned_integers :: "'x val list \<Rightarrow> u128 res" where
  "sum_unsigned_integers values =
     and_then
       (try_each (\<lambda>v total.
          case v of
            VUInt w \<Rightarrow> Inr (big_add_assign total (big_from_u128 w))
          | _ \<Rightarrow> Inl eval_002_incompatible) values [])
       (\<lambda>total. ok_or (big_to_u128 total) eval_003_unsigned)"

text \<open>\<open>for _ in value.scale()..scale { magnitude.mul_small(10) }\<close>.\<close>

fun scale_up :: "nat \<Rightarrow> big_magnitude \<Rightarrow> big_magnitude" where
  "scale_up 0 m = m"
| "scale_up (Suc n) m = scale_up n (big_mul_small m 10)"

definition sum_decimals :: "'x ext \<Rightarrow> 'x val list \<Rightarrow> 'x res" where
  "sum_decimals X values =
     and_then
       (try_map (\<lambda>v. case v of VDecimal d \<Rightarrow> Inr (dec_scale X d) | _ \<Rightarrow> Inl eval_002_incompatible) values)
       (\<lambda>scales.
          let scale = foldr max scales 0
          in and_then
               (try_each (\<lambda>v pn.
                  case v of
                    VDecimal d \<Rightarrow>
                      Inr (accumulate pn (i128_is_negative (dec_mantissa X d))
                        (scale_up (unat scale - unat (dec_scale X d))
                          (big_from_u128 (i128_unsigned_abs (dec_mantissa X d)))))
                  | _ \<Rightarrow> Inl eval_002_incompatible) values ([], []))
               (\<lambda>(positive, negative).
                  and_then (signed_i128_result positive negative) (\<lambda>signed.
                    ok_or (dec_from_i128_with_scale X signed scale) eval_003_decimal)))"

definition sum_exact_values :: "'x ext \<Rightarrow> 'x val list \<Rightarrow> 'x val option res" where
  "sum_exact_values X values =
     (case values of
        [] \<Rightarrow> Inr None
      | VInt _ # _ \<Rightarrow> and_then (sum_signed_integers values) (\<lambda>v. Inr (Some (VInt v)))
      | VUInt _ # _ \<Rightarrow> and_then (sum_unsigned_integers values) (\<lambda>v. Inr (Some (VUInt v)))
      | VDecimal _ # _ \<Rightarrow> and_then (sum_decimals X values) (\<lambda>v. Inr (Some (VDecimal v)))
      | _ \<Rightarrow> Inl eval_002_non_exact)"

section \<open>Signed readings\<close>

lemma wrap_128:
  fixes k :: int
  assumes "0 \<le> k" and "k < 2 ^ 128"
  shows "(k + 2 ^ 127) mod 2 ^ 128 - 2 ^ 127 = (if k < 2 ^ 127 then k else k - 2 ^ 128)"
proof (cases "k < 2 ^ 127")
  case True
  then have "(k + 2 ^ 127) mod 2 ^ 128 = k + 2 ^ 127"
    using assms by (intro mod_pos_pos_trivial) auto
  with True show ?thesis by simp
next
  case False
  have "(k + 2 ^ 127) mod 2 ^ 128 = (k - 2 ^ 127 + 2 ^ 128) mod 2 ^ 128"
    by (rule arg_cong [where f = "\<lambda>x. x mod 2 ^ 128"]) simp
  also have "\<dots> = (k - 2 ^ 127) mod 2 ^ 128" by (rule mod_add_self2)
  also have "\<dots> = k - 2 ^ 127" using False assms by (intro mod_pos_pos_trivial) auto
  finally show ?thesis using False by simp
qed

lemma sint_i128: "sint (w :: i128) = (if unat w < 2 ^ 127 then int (unat w) else int (unat w) - 2 ^ 128)"
proof -
  define k where "k = uint w"
  have k: "0 \<le> k" "k < 2 ^ 128" using uint_bounded [of w] by (auto simp: k_def)
  have "sint w = take_bit (Suc 127) (k + 2 ^ 127) - 2 ^ 127"
    unfolding sint_uint k_def by (simp add: signed_take_bit_eq_take_bit_shift)
  also have "\<dots> = (k + 2 ^ 127) mod 2 ^ 128 - 2 ^ 127"
    by (simp add: take_bit_eq_mod)
  also have "\<dots> = (if k < 2 ^ 127 then k else k - 2 ^ 128)" by (rule wrap_128 [OF k])
  finally have s: "sint w = (if k < 2 ^ 127 then k else k - 2 ^ 128)" .
  have n: "k = int (unat w)" by (simp add: k_def)
  have "k < 2 ^ 127 \<longleftrightarrow> unat w < 2 ^ 127"
    unfolding n using of_nat_less_iff [where ?'a = int, of "unat w" "2 ^ 127"] by (simp only: of_nat_power of_nat_numeral)
  with s n show ?thesis by (simp only:)
qed

lemma i128_range: "- (2 ^ 127) \<le> sint (w :: i128)" "sint (w :: i128) < 2 ^ 127"
  using sint_greater_eq [of w] sint_less [of w] by simp_all

lemma unat_minus: "(w :: i128) \<noteq> 0 \<Longrightarrow> unat (- w) = 2 ^ 128 - unat w"
proof -
  assume "w \<noteq> 0"
  then have pos: "0 < unat w" by (simp add: unat_gt_0)
  define n where "n = unat w"
  have n: "0 < n" "n < 2 ^ 128" using pos unat_u128_bound [of w] by (auto simp: n_def)
  have "- w = of_nat (2 ^ 128 - n)"
  proof -
    have "(of_nat (2 ^ 128 - n) :: i128) = of_nat (2 ^ 128) - of_nat n"
      using n by (intro of_nat_diff) simp
    also have "(of_nat (2 ^ 128) :: i128) = 0" by simp
    finally show ?thesis by (simp add: n_def)
  qed
  then show ?thesis using n by (simp only: unat_of_nat n_def [symmetric]) simp
qed

lemma i128_unsigned_abs_value: "int (unat (i128_unsigned_abs w)) = \<bar>sint w\<bar>"
proof -
  define n where "n = unat w"
  have s: "sint w = (if n < 2 ^ 127 then int n else int n - 2 ^ 128)"
    unfolding n_def by (rule sint_i128)
  have n: "n < 2 ^ 128" using unat_u128_bound [of w] by (simp add: n_def)
  show ?thesis
  proof (cases "n < 2 ^ 127")
    case True
    with s show ?thesis by (simp add: i128_unsigned_abs_def i128_is_negative_def n_def del: of_nat_unat)
  next
    case False
    then have w: "w \<noteq> 0" by (auto simp: n_def)
    have neg: "sint w < 0" using s False n by simp
    have "unat (i128_unsigned_abs w) = 2 ^ 128 - n"
      using neg unat_minus [OF w] by (simp add: i128_unsigned_abs_def i128_is_negative_def n_def)
    then show ?thesis using s False n by simp
  qed
qed

section \<open>Signed sums\<close>

text \<open>The value of a pair of magnitudes, and the sum the accumulation loop leaves in it.\<close>

definition pair_value :: "big_magnitude \<times> big_magnitude \<Rightarrow> int" where
  "pair_value pn = int (big_value (fst pn)) - int (big_value (snd pn))"

definition pair_inv :: "big_magnitude \<times> big_magnitude \<Rightarrow> bool" where
  "pair_inv pn \<longleftrightarrow> big_inv (fst pn) \<and> big_inv (snd pn)"

lemma accumulate_value:
  assumes "pair_inv pn" and "big_inv m"
  shows "pair_inv (accumulate pn neg m)"
    and "pair_value (accumulate pn neg m) =
      pair_value pn + (if neg then - int (big_value m) else int (big_value m))"
  using assms by (auto simp: accumulate_def pair_inv_def pair_value_def big_value_add big_inv_add)

lemma accumulate_i128:
  assumes "pair_inv pn"
  shows "pair_inv (accumulate pn (i128_is_negative w) (big_from_u128 (i128_unsigned_abs w)))"
    and "pair_value (accumulate pn (i128_is_negative w) (big_from_u128 (i128_unsigned_abs w))) =
      pair_value pn + sint w"
  using accumulate_value [OF assms big_from_u128_inv] i128_unsigned_abs_value [of w]
  by (auto simp: big_from_u128_value i128_is_negative_def)

lemma unat_minus_i128: "unat (m :: i128) \<noteq> 0 \<Longrightarrow> unat m \<le> 2 ^ 127 \<Longrightarrow> sint (- m) = - int (unat m)"
proof -
  assume m: "unat m \<noteq> 0" "unat m \<le> 2 ^ 127"
  then have "m \<noteq> 0" by auto
  then have "unat (- m) = 2 ^ 128 - unat m" by (rule unat_minus)
  with m show ?thesis unfolding sint_i128 [of "- m"] by (auto simp del: of_nat_unat)
qed

lemma signed_i128_result_spec:
  assumes "pair_inv (p, n)"
  shows "signed_i128_result p n =
    (if - (2 ^ 127) \<le> pair_value (p, n) \<and> pair_value (p, n) < 2 ^ 127
     then Inr (word_of_int (pair_value (p, n))) else Inl eval_003_signed)"
proof -
  have inv: "big_inv p" "big_inv n" using assms by (auto simp: pair_inv_def)
  have to128: "big_to_u128 (big_normalize ls) =
      (if big_value ls < 2 ^ 128 then Some (of_nat (big_value ls)) else None)" for ls
  proof (cases "big_value ls < 2 ^ 128")
    case True
    then have "big_value (big_normalize ls) = unat (of_nat (big_value ls) :: u128)"
      by (simp add: big_normalize_value unat_of_nat)
    with True show ?thesis using big_to_u128_value(1) [OF big_normalize_inv] by simp
  next
    case False
    then show ?thesis using big_to_u128_value(2) [OF big_normalize_inv [of ls]]
      by (simp add: big_normalize_value)
  qed
  show ?thesis
  proof (cases "big_value n \<le> big_value p")
    case True
    define d where "d = big_value p - big_value n"
    have d: "pair_value (p, n) = int d" using True by (simp add: pair_value_def d_def)
    have v: "big_value (sub_limbs p n 0) = d"
      using big_sub_value(2) [OF inv True] by (simp add: big_normalize_value d_def)
    have "signed_i128_result p n =
        and_then (ok_or (big_to_u128 (big_normalize (sub_limbs p n 0))) eval_003_signed)
          (\<lambda>m. ok_or (i128_try_from m) eval_003_signed)"
      using True by (simp add: signed_i128_result_def big_cmp_value [OF inv] big_sub_value(1) [OF inv])
    then show ?thesis unfolding d to128 v
      by (auto simp: i128_try_from_def unat_of_nat)
  next
    case False
    define d where "d = big_value n - big_value p"
    have d: "pair_value (p, n) = - int d" using False by (simp add: pair_value_def d_def)
    have pos: "0 < d" using False by (simp add: d_def)
    have v: "big_value (sub_limbs n p 0) = d"
      using big_sub_value(2) [OF inv(2,1)] False by (simp add: big_normalize_value d_def)
    have eq: "signed_i128_result p n =
        and_then (ok_or (big_to_u128 (big_normalize (sub_limbs n p 0))) eval_003_signed)
          (\<lambda>m. if m = push_bit 127 1 then Inr (push_bit 127 1)
            else ok_or (map_option uminus (i128_try_from m)) eval_003_signed)"
      using False by (simp add: signed_i128_result_def big_cmp_value [OF inv] big_sub_value(1) [OF inv(2,1)])
    have top: "(push_bit 127 1 :: u128) = 2 ^ 127" by (simp add: push_bit_eq_mult)
    have is_top: "(of_nat d :: u128) = 2 ^ 127 \<longleftrightarrow> d = 2 ^ 127" if "d < 2 ^ 128"
      using that by (simp add: word_unat_eq_iff unat_of_nat)
    show ?thesis
    proof (cases "d \<le> 2 ^ 127")
      case True
      then show ?thesis unfolding eq d to128 v top
        using is_top by (auto simp: i128_try_from_def unat_of_nat)
    next
      case False
      then show ?thesis unfolding eq d to128 v top
        using is_top by (auto simp: i128_try_from_def unat_of_nat)
    qed
  qed
qed


lemma signed_loop:
  assumes "pair_inv pn" and "vs = map VInt ws"
  shows "\<exists>pn'. try_each (\<lambda>v pn.
       case v of
         VInt w \<Rightarrow> Inr (accumulate pn (i128_is_negative w) (big_from_u128 (i128_unsigned_abs w)))
       | _ \<Rightarrow> Inl eval_002_incompatible) vs pn = Inr pn' \<and>
     pair_inv pn' \<and> pair_value pn' = pair_value pn + sum_list (map sint ws)"
  using assms
proof (induction ws arbitrary: vs pn)
  case Nil
  then show ?case by simp
next
  case (Cons w ws)
  show ?case
    using Cons.IH [OF accumulate_i128(1) [OF Cons.prems(1), of w] refl]
    unfolding Cons.prems(2) by (simp add: accumulate_i128(2) [OF Cons.prems(1)] add.assoc)
qed

lemma sum_signed_integers_spec:
  "sum_signed_integers (map VInt ws :: 'x val list) =
    (let total = sum_list (map sint ws)
     in if - (2 ^ 127) \<le> total \<and> total < 2 ^ 127 then Inr (word_of_int total) else Inl eval_003_signed)"
proof -
  have "pair_inv ([], [])" "pair_value ([], []) = 0"
    by (simp_all add: pair_inv_def pair_value_def big_inv_def)
  with signed_loop [of "([], [])" "map VInt ws :: 'x val list" ws] obtain p n where
    "signed_magnitudes (map VInt ws :: 'x val list) = Inr (p, n)" "pair_inv (p, n)"
    "pair_value (p, n) = sum_list (map sint ws)"
    by (auto simp: signed_magnitudes_def)
  then show ?thesis by (simp add: sum_signed_integers_def signed_i128_result_spec Let_def)
qed

section \<open>Unsigned sums\<close>

lemma unsigned_loop:
  assumes "big_inv acc"
  shows "\<exists>acc'. try_each (\<lambda>v total.
          case v of
            VUInt w \<Rightarrow> Inr (big_add_assign total (big_from_u128 w))
          | _ \<Rightarrow> Inl eval_002_incompatible) (map VUInt ws) acc = Inr acc' \<and>
     big_inv acc' \<and> big_value acc' = big_value acc + sum_list (map unat ws)"
  using assms
proof (induction ws arbitrary: acc)
  case Nil
  then show ?case by simp
next
  case (Cons w ws)
  show ?case
    using Cons.IH [OF big_inv_add [OF Cons.prems big_from_u128_inv]]
    by (auto simp: big_value_add big_from_u128_value add.assoc)
qed

lemma to_u128_spec:
  assumes "big_inv m"
  shows "big_to_u128 m = (if big_value m < 2 ^ 128 then Some (of_nat (big_value m)) else None)"
proof (cases "big_value m < 2 ^ 128")
  case True
  then have "big_value m = unat (of_nat (big_value m) :: u128)" by (simp add: unat_of_nat)
  with True show ?thesis using big_to_u128_value(1) [OF assms] by simp
next
  case False
  then show ?thesis using big_to_u128_value(2) [OF assms] by simp
qed

lemma sum_unsigned_integers_spec:
  "sum_unsigned_integers (map VUInt ws :: 'x val list) =
    (let total = sum_list (map unat ws)
     in if total < 2 ^ 128 then Inr (of_nat total) else Inl eval_003_unsigned)"
proof -
  have "big_inv []" by (simp add: big_inv_def)
  from unsigned_loop [OF this, of ws, where ?'a = 'x] show ?thesis
    by (auto simp: sum_unsigned_integers_def Let_def to_u128_spec)
qed

section \<open>Decimal sums\<close>

lemma scale_up_value:
  assumes "big_inv m"
  shows "big_inv (scale_up n m)" and "big_value (scale_up n m) = big_value m * 10 ^ n"
  using assms
  by (induction n arbitrary: m) (auto simp: big_inv_mul_small big_value_mul_small)

text \<open>The mantissa of a decimal, aligned to a common scale.\<close>

definition aligned_mantissa :: "'x ext \<Rightarrow> nat \<Rightarrow> 'x \<Rightarrow> int" where
  "aligned_mantissa X scale d = sint (dec_mantissa X d) * 10 ^ (scale - unat (dec_scale X d))"

lemma decimal_loop:
  assumes "pair_inv pn"
  shows "\<exists>pn'. try_each (\<lambda>v pn.
                  case v of
                    VDecimal d \<Rightarrow>
                      Inr (accumulate pn (i128_is_negative (dec_mantissa X d))
                        (scale_up (scale - unat (dec_scale X d))
                          (big_from_u128 (i128_unsigned_abs (dec_mantissa X d)))))
                  | _ \<Rightarrow> Inl eval_002_incompatible) (map VDecimal ds) pn = Inr pn' \<and>
     pair_inv pn' \<and> pair_value pn' = pair_value pn + sum_list (map (aligned_mantissa X scale) ds)"
  using assms
proof (induction ds arbitrary: pn)
  case Nil
  then show ?case by simp
next
  case (Cons d ds)
  let ?m = "scale_up (scale - unat (dec_scale X d)) (big_from_u128 (i128_unsigned_abs (dec_mantissa X d)))"
  have "big_inv ?m" by (intro scale_up_value big_from_u128_inv)
  note acc = accumulate_value [OF Cons.prems this, of "i128_is_negative (dec_mantissa X d)"]
  have "(if i128_is_negative (dec_mantissa X d) then - int (big_value ?m) else int (big_value ?m)) =
      aligned_mantissa X scale d"
    using i128_unsigned_abs_value [of "dec_mantissa X d"]
    by (auto simp: scale_up_value(2) [OF big_from_u128_inv] big_from_u128_value aligned_mantissa_def
        i128_is_negative_def)
  with Cons.IH [OF acc(1)] acc(2) show ?case by auto
qed

definition common_scale :: "'x ext \<Rightarrow> 'x list \<Rightarrow> u32" where
  "common_scale X ds = foldr max (map (dec_scale X) ds) 0"

lemma sum_decimals_spec:
  "sum_decimals X (map VDecimal ds) =
    (let scale = common_scale X ds;
         total = sum_list (map (aligned_mantissa X (unat scale)) ds)
     in if - (2 ^ 127) \<le> total \<and> total < 2 ^ 127
        then ok_or (dec_from_i128_with_scale X (word_of_int total) scale) eval_003_decimal
        else Inl eval_003_signed)"
proof -
  have scales: "try_map (\<lambda>v. case v of VDecimal d \<Rightarrow> Inr (dec_scale X d) | _ \<Rightarrow> Inl eval_002_incompatible)
      (map VDecimal ds) = Inr (map (dec_scale X) ds)"
    by (rule try_map_ok) simp
  have "pair_inv ([], [])" "pair_value ([], []) = 0"
    by (simp_all add: pair_inv_def pair_value_def big_inv_def)
  with decimal_loop [of "([], [])" X "unat (common_scale X ds)" ds] show ?thesis
    unfolding sum_decimals_def scales and_then_simps Let_def common_scale_def [symmetric]
    by (auto simp: signed_i128_result_spec)
qed

lemma common_scale_ge: "d \<in> set ds \<Longrightarrow> unat (dec_scale X d) \<le> unat (common_scale X ds)"
  by (induction ds) (auto simp: common_scale_def word_le_nat_alt [symmetric] le_max_iff_disj)

section \<open>The execution order\<close>

text \<open>Under the documented contract of the third-party \<open>Ord\<close> instances, \<open>compare_datums\<close> is a total preorder on the
  datums of one orderable family.\<close>

definition not_after :: "ordering option \<Rightarrow> bool" where
  "not_after c \<longleftrightarrow> c = Some Less \<or> c = Some Equal"

lemma not_after_Some [simp]: "not_after (Some c) \<longleftrightarrow> c \<noteq> Greater"
  by (cases c) (simp_all add: not_after_def)

lemma not_after_None [simp]: "\<not> not_after None"
  by (simp add: not_after_def)

lemma reverse_cmp_of: "reverse_ordering (cmp_of a b) = cmp_of b a"
  by (simp add: cmp_of_swap [of b a])

lemma compare_values_swap:
  assumes "ext_order_laws X ok" and "scalar_ext_ok ok l" and "scalar_ext_ok ok r"
  shows "compare_values X r l = map_option reverse_ordering (compare_values X l r)"
proof -
  have bytes: "reverse_ordering (bytes_cmp a b) = bytes_cmp b a" for a b
    using bytes_cmp_swap [of b a] by simp
  have ext: "reverse_ordering (x_cmp X k a b) = x_cmp X k b a" if "ok k a" "ok k b" for k a b
    using assms(1) that unfolding ext_order_laws_def by metis
  show ?thesis
    using assms(2,3)
    by (cases l; simp add: compare_values_def; cases r; simp add: reverse_cmp_of bytes ext)
qed

lemma compare_values_refl:
  assumes "ext_order_laws X ok" and "scalar_ext_ok ok v" and "compare_values X v v \<noteq> None"
  shows "compare_values X v v = Some Equal"
  using assms unfolding ext_order_laws_def
  by (cases v) (simp_all add: compare_values_def bytes_cmp_refl)

lemma compare_values_trans:
  assumes "ext_order_laws X ok" and "scalar_ext_ok ok l" and "scalar_ext_ok ok r" and "scalar_ext_ok ok s"
    and "not_after (compare_values X l r)" and "not_after (compare_values X r s)"
  shows "not_after (compare_values X l s)"
proof -
  have ext: "x_cmp X k a c \<noteq> Greater"
    if "ok k a" "ok k b" "ok k c" "x_cmp X k a b \<noteq> Greater" "x_cmp X k b c \<noteq> Greater" for k a b c
    using assms(1) that unfolding ext_order_laws_def by blast
  show ?thesis
    using assms(2-6)
    by (cases l; cases r; simp add: compare_values_def; cases s; simp add: compare_values_def)
      (use ext bytes_cmp_trans in blast)+
qed

lemma compare_datums_swap:
  assumes "ext_order_laws X ok" and "datum_ext_ok ok a" and "datum_ext_ok ok b"
  shows "compare_datums X b a = map_option reverse_ordering (compare_datums X a b)"
  using assms(2,3)
  by (cases a; cases b) (simp_all add: datum_ext_ok_def, rule compare_values_swap [OF assms(1)])

lemma compare_datums_refl:
  assumes "ext_order_laws X ok" and "datum_ext_ok ok a" and "compare_datums X a a \<noteq> None"
  shows "compare_datums X a a = Some Equal"
  using assms compare_values_refl [OF assms(1)] by (cases a) (simp_all add: datum_ext_ok_def)

lemma compare_datums_trans:
  assumes "ext_order_laws X ok" and "datum_ext_ok ok a" and "datum_ext_ok ok b" and "datum_ext_ok ok c"
    and "not_after (compare_datums X a b)" and "not_after (compare_datums X b c)"
  shows "not_after (compare_datums X a c)"
  using assms(2-6)
  by (cases a; cases b; cases c) (simp_all add: datum_ext_ok_def, rule compare_values_trans [OF assms(1)])

end
