(* ===== verification/Expr_Typing.thy ===== *)
theory Expr_Typing
  imports Expr_Compile Type_Laws Value_Conformance Exact_Sum
begin

text \<open>
  What the validation of an expression buys: its resource check counts nodes and depth exactly, and a
  validated expression evaluates to a value of its type, or fails for a reason that no static check can
  exclude (overflow, or what the fields, parameters, existentials and functions themselves report).
\<close>

section \<open>Resource limits\<close>

fun max_list :: "nat list \<Rightarrow> nat" where
  "max_list [] = 0"
| "max_list (x # xs) = max x (max_list xs)"

lemma max_list_le: "max_list xs \<le> n \<longleftrightarrow> (\<forall>x \<in> set xs. x \<le> n)"
  by (induction xs) auto

lemma max_list_cong [fundef_cong]: "xs = ys \<Longrightarrow> max_list xs = max_list ys"
  by simp

function expr_depth :: "('x, 'q) expr_node \<Rightarrow> nat" where
  "expr_depth n = Suc (max_list (map expr_depth (children n)))"
  by pat_completeness auto
termination
  by (relation "measure size") (auto intro: size_expr_child)

declare expr_depth.simps [simp del]

lemma length_subnodes: "length (subnodes n) = Suc (sum_list (map (\<lambda>c. length (subnodes c)) (children n)))"
  by (subst subnodes.simps) (simp add: length_concat comp_def)

lemma expr_depth_le: "d + expr_depth n \<le> Suc m \<longleftrightarrow> d \<le> m \<and> (\<forall>c \<in> set (children n). Suc d + expr_depth c \<le> Suc m)"
proof -
  have "d + expr_depth n \<le> Suc m \<longleftrightarrow> d \<le> m \<and> max_list (map expr_depth (children n)) \<le> m - d"
    by (subst expr_depth.simps) auto
  also have "\<dots> \<longleftrightarrow> d \<le> m \<and> (\<forall>c \<in> set (children n). Suc d + expr_depth c \<le> Suc m)"
    unfolding max_list_le by auto
  finally show ?thesis .
qed

lemma limits_loop_ok:
  assumes "el_max_nodes L < usize_max" and "el_max_depth L < usize_max" and "nodes \<le> el_max_nodes L"
  shows "limits_loop L stack nodes = Inr k \<longleftrightarrow>
    k = nodes + sum_list (map (\<lambda>p. length (subnodes (fst p))) stack) \<and> k \<le> el_max_nodes L \<and>
    (\<forall>(n, d) \<in> set stack. d + expr_depth n \<le> Suc (el_max_depth L))"
  using assms
proof (induction L stack nodes rule: limits_loop.induct)
  case (1 L nodes)
  then show ?case by auto
next
  case (2 L current depth stack nodes)
  have sat: "saturating_add_usize nodes 1 = Suc nodes"
    "depth \<le> el_max_depth L \<Longrightarrow> saturating_add_usize depth 1 = Suc depth"
    using "2.prems" by (auto simp: saturating_add_usize_def)
  show ?case
  proof (cases "depth \<le> el_max_depth L \<and> Suc nodes \<le> el_max_nodes L")
    case True
    then have "limits_loop L ((current, depth) # stack) nodes =
      limits_loop L (map (\<lambda>c. (c, Suc depth)) (children current) @ stack) (Suc nodes)"
      using sat by simp
    also have "\<dots> = Inr k \<longleftrightarrow>
      k = Suc nodes + sum_list (map (\<lambda>p. length (subnodes (fst p))) (map (\<lambda>c. (c, Suc depth)) (children current) @ stack)) \<and>
      k \<le> el_max_nodes L \<and>
      (\<forall>(n, d) \<in> set (map (\<lambda>c. (c, Suc depth)) (children current) @ stack). d + expr_depth n \<le> Suc (el_max_depth L))"
      using "2.IH" [OF refl] True sat "2.prems" by simp
    also have "(\<forall>(n, d) \<in> set (map (\<lambda>c. (c, Suc depth)) (children current) @ stack). d + expr_depth n \<le> Suc (el_max_depth L)) \<longleftrightarrow>
      (\<forall>(n, d) \<in> set ((current, depth) # stack). d + expr_depth n \<le> Suc (el_max_depth L))"
      using True by (simp add: ball_Un expr_depth_le [of depth current])
    finally show ?thesis by (simp add: length_subnodes [of current] comp_def add.assoc)
  next
    case False
    then show ?thesis
      using sat expr_depth_le [of depth current "el_max_depth L"] by (auto simp: not_le length_subnodes [of current])
  qed
qed

lemma check_expression_limits_ok:
  assumes "el_max_nodes L < usize_max" and "el_max_depth L < usize_max"
  shows "check_expression_limits n L = Inr k \<longleftrightarrow>
    k = length (subnodes n) \<and> k \<le> el_max_nodes L \<and> expr_depth n \<le> el_max_depth L"
  using limits_loop_ok [OF assms, of 0 "[(n, 1)]"] by (auto simp: check_expression_limits_def)

section \<open>Validated nodes\<close>

text \<open>What \<open>validate_node\<close> leaves true of every node of the tree, without the parameters.\<close>

definition node_ok :: "'x ext \<Rightarrow> ('x, 'q) expr_node \<Rightarrow> bool" where
  "node_ok X n \<longleftrightarrow>
     node_rule (en_ty n) (en_kind n) = Inr () \<and>
     (\<forall>v. en_kind n = ELiteral v \<longrightarrow> validate_datum X (en_ty n) Required v = Inr ()) \<and>
     (\<forall>i cs neg. en_kind n = EMembership i cs neg \<longrightarrow> (\<forall>c \<in> set cs. en_ty c = en_ty i))"

lemma set_subnodes: "set (subnodes n) = insert n (\<Union>c \<in> set (children n). set (subnodes c))"
  by (subst subnodes.simps) simp

lemma try_each_steps: "try_each f xs s = Inr s' \<Longrightarrow> x \<in> set xs \<Longrightarrow> \<exists>t t'. f x t = Inr t'"
  by (induction xs arbitrary: s) (auto simp: and_then_Inr)

lemmas validate_simps =
  validate_node.simps [of X L "ExprNode kind ty" for X L kind ty, simplified expr_node.sel]

lemma validated_candidate:
  assumes "try_each (\<lambda>candidate parameters.
      and_then (validate_node X L candidate parameters) (\<lambda>parameters.
      and_then (require_exact_type (en_ty candidate) (en_ty i) ''membership candidate'')
        (\<lambda>_. Inr parameters))) cs t = Inr t'" and "c \<in> set cs"
  shows "en_ty c = en_ty i" and "\<exists>t t'. validate_node X L c t = Inr t'"
  using try_each_steps [OF assms] by (auto simp: and_then_Inr require_exact_type_def split: if_splits)

lemma validate_node_children:
  assumes "validate_node X L n ps = Inr ps'" and "c \<in> set (children n)"
  shows "\<exists>t t'. validate_node X L c t = Inr t'"
proof -
  obtain kind ty where n: "n = ExprNode kind ty" by (cases n)
  from assms show ?thesis
    unfolding n
    by (cases kind) (auto simp: validate_simps and_then_Inr dest: try_each_steps intro: validated_candidate(2))
qed

lemma validate_node_here: "validate_node X L n ps = Inr ps' \<Longrightarrow> node_ok X n"
proof -
  assume ok: "validate_node X L n ps = Inr ps'"
  obtain kind ty where n: "n = ExprNode kind ty" by (cases n)
  from ok show ?thesis
    unfolding n node_ok_def
    by (cases kind) (auto simp: validate_simps result_simps dest: validated_candidate(1))
qed

lemma validate_node_ok: "validate_node X L n ps = Inr ps' \<Longrightarrow> m \<in> set (subnodes n) \<Longrightarrow> node_ok X m"
proof (induction n arbitrary: ps ps' rule: measure_induct_rule [where f = size])
  case (less n)
  from less.prems(2) consider "m = n" | c where "c \<in> set (children n)" "m \<in> set (subnodes c)"
    unfolding set_subnodes [of n] by blast
  then show ?case
  proof cases
    case 1
    then show ?thesis using validate_node_here [OF less.prems(1)] by simp
  next
    case 2
    with validate_node_children [OF less.prems(1)] less.IH [OF size_expr_child] show ?thesis by blast
  qed
qed

lemma definitions_loop_ok:
  "definitions_loop stack ts fs = Inr ts' \<Longrightarrow>
     ts' = ts @ map en_ty (concat (map subnodes stack)) \<and>
     (\<forall>n \<in> set (concat (map subnodes stack)). validate_type (en_ty n) default_definition_limits = Inr ())"
proof (induction stack ts fs rule: definitions_loop.induct)
  case (1 ts fs)
  then show ?case by simp
next
  case (2 current stack ts fs)
  have sub: "subnodes current = current # concat (map subnodes (children current))" by (rule subnodes.simps)
  from "2.prems" obtain u fs' where steps: "validate_type (en_ty current) default_definition_limits = Inr u"
    "(case en_kind current of EFunctionCall f arguments \<Rightarrow> register_function (fr_definition f) fs | _ \<Rightarrow> Inr fs) = Inr fs'"
    and rest: "definitions_loop (children current @ stack) (ts @ [en_ty current]) fs' = Inr ts'"
    unfolding definitions_loop.simps and_then_Inr by blast
  from "2.IH" [OF steps rest] steps(1) show ?case by (simp add: sub ball_Un)
qed

lemma validate_expression_ok:
  assumes "validate_expression_node X n L = Inr ()" and "m \<in> set (subnodes n)"
  shows "node_ok X m" and "type_wf default_definition_limits (en_ty m)"
proof -
  from assms(1) obtain types ps where t: "definitions_loop [n] [] Map.empty = Inr types"
    and v: "validate_node X L n Map.empty = Inr ps"
    by (auto simp: validate_expression_node_def result_simps)
  from validate_node_ok [OF v assms(2)] show "node_ok X m" .
  from definitions_loop_ok [OF t] assms(2) have "validate_type (en_ty m) default_definition_limits = Inr ()" by simp
  then show "type_wf default_definition_limits (en_ty m)"
    by (subst (asm) validate_type_ok) (simp_all add: default_definition_limits_def usize_max_def)
qed

section \<open>Values of scalar types\<close>

lemma of_type_scalar: "ty_shape ty = ShScalar r \<Longrightarrow> of_type X ty v \<longleftrightarrow> scalar_matches r v"
  by (cases ty) (auto simp: of_type_shape)

lemma of_type_shape_cong: "ty_shape a = ty_shape b \<Longrightarrow> of_type X a v \<longleftrightarrow> of_type X b v"
  by (cases a; cases b) (auto simp: of_type_shape)

lemma shape_nullable [simp]: "ty_shape (nullable t) = ty_shape t" "ty_shape (non_null t) = ty_shape t"
  by (cases t; simp)+

lemma of_nested_cases:
  assumes "of_nested_type X ty d"
  obtains "d = Null" and "is_nullable ty" | v where "d = Value v" and "of_type X ty v"
  using assms by (cases d) (auto simp: of_nested_type_simps)

lemma of_nested_same_type: "ty = ty' \<Longrightarrow> of_nested_type X ty d \<Longrightarrow> of_nested_type X ty' d"
  by simp

lemma truth_types [simp]: "ty_shape truth_type_def = ShScalar RTruth" "\<not> is_nullable truth_type_def"
  by (simp_all add: truth_type_def_def type_scalar_def is_nullable_def)

lemma of_truth [simp]: "of_nested_type X truth_type_def d \<longleftrightarrow> (\<exists>t. d = Value (VTruth t))"
  by (cases d)
    (auto simp: of_nested_type_simps of_type_scalar [of truth_type_def RTruth] scalar_matches_def split: val.splits)

lemma scalar_matches_shapes:
  "scalar_matches (RInt bits) v \<longleftrightarrow> (\<exists>n. v = VInt n \<and> signed_fits bits n)"
  "scalar_matches (RUInt bits) v \<longleftrightarrow> (\<exists>n. v = VUInt n \<and> unsigned_fits bits n)"
  "scalar_matches RFloat32 v \<longleftrightarrow> (\<exists>w. v = VFloat32 w)"
  "scalar_matches RFloat64 v \<longleftrightarrow> (\<exists>w. v = VFloat64 w)"
  "scalar_matches RDecimal v \<longleftrightarrow> (\<exists>x. v = VDecimal x)"
  by (auto simp: scalar_matches_def split: val.splits)

lemma numeric_representation_cases:
  assumes "numeric_representation sh"
  obtains bits where "sh = ShScalar (RInt bits)" | bits where "sh = ShScalar (RUInt bits)"
  | "sh = ShScalar RFloat32" | "sh = ShScalar RFloat64" | "sh = ShScalar RDecimal"
  using assms by (auto simp: numeric_representation_def split: type_shape.splits scalar_repr.splits)

section \<open>The operators on conforming operands\<close>

text \<open>
  A computation is \<open>fine\<close> for a type when it gives a datum of the type that is not missing, or fails
  with one of the admitted codes.
\<close>

definition fine :: "'x ext \<Rightarrow> string set \<Rightarrow> type_def \<Rightarrow> 'x datum res \<Rightarrow> bool" where
  "fine X E ty r \<longleftrightarrow> (case r of Inl e \<Rightarrow> code e \<in> E | Inr d \<Rightarrow> of_nested_type X ty d)"

lemma fine_simps [simp]:
  "fine X E ty (Inr d) \<longleftrightarrow> of_nested_type X ty d" "fine X E ty (Inl e) \<longleftrightarrow> code e \<in> E"
  by (simp_all add: fine_def)

lemma fine_and_then:
  assumes "fine X E ty r" and "\<And>d. of_nested_type X ty d \<Longrightarrow> fine X E ty' (f d)"
  shows "fine X E ty' (and_then r f)"
  using assms by (cases r) auto

definition overflow_codes :: "string set" where
  "overflow_codes = {''EXPR-EVAL-003'', ''EXPR-EVAL-110''}"

text \<open>Arithmetic keeps the representation of its operands, not yet the width of an integer.\<close>

definition same_representation :: "type_shape \<Rightarrow> 'x val \<Rightarrow> bool" where
  "same_representation sh v =
     (case sh of
        ShScalar r \<Rightarrow>
          (case r of
             RInt _ \<Rightarrow> (\<exists>n. v = VInt n) | RUInt _ \<Rightarrow> (\<exists>n. v = VUInt n) | RFloat32 \<Rightarrow> (\<exists>w. v = VFloat32 w)
           | RFloat64 \<Rightarrow> (\<exists>w. v = VFloat64 w) | RDecimal \<Rightarrow> (\<exists>x. v = VDecimal x) | _ \<Rightarrow> False)
      | _ \<Rightarrow> False)"

lemma of_type_representation: "numeric_representation (ty_shape ty) \<Longrightarrow> of_type X ty v \<Longrightarrow> same_representation (ty_shape ty) v"
  by (elim numeric_representation_cases)
    (auto simp: of_type_scalar scalar_matches_shapes same_representation_def)

lemma eval_003_codes [simp]:
  "code eval_003_op_signed = ''EXPR-EVAL-003''" "code eval_003_op_unsigned = ''EXPR-EVAL-003''"
  "code eval_003_op_decimal = ''EXPR-EVAL-003''" "code eval_003_abs = ''EXPR-EVAL-003''"
  "code eval_003_negate = ''EXPR-EVAL-003''"
  by (simp_all add: eval_003_op_signed_def eval_003_op_unsigned_def eval_003_op_decimal_def eval_003_abs_def
      eval_003_negate_def)

lemma checked_errors:
  "op \<in> {OpAdd, OpSub, OpMul, OpDiv, OpRem} \<Longrightarrow> checked_signed op l r = Inl e \<Longrightarrow> code e = ''EXPR-EVAL-003''"
  "op \<in> {OpAdd, OpSub, OpMul, OpDiv, OpRem} \<Longrightarrow> checked_unsigned op a b = Inl e \<Longrightarrow> code e = ''EXPR-EVAL-003''"
  by (auto simp: checked_signed_def checked_unsigned_def ok_or_def split: option.splits if_splits)

lemma checked_results:
  assumes "op \<in> {OpAdd, OpSub, OpMul, OpDiv, OpRem}"
  shows "case and_then (checked_signed op l r) (\<lambda>n. Inr (VInt n :: 'x val)) of
      Inl e \<Rightarrow> code e = ''EXPR-EVAL-003'' | Inr u \<Rightarrow> \<exists>n. u = VInt n"
    and "case and_then (checked_unsigned op a b) (\<lambda>n. Inr (VUInt n :: 'x val)) of
      Inl e \<Rightarrow> code e = ''EXPR-EVAL-003'' | Inr u \<Rightarrow> \<exists>n. u = VUInt n"
    and "case ok_or (map_option VDecimal (d :: 'x option)) eval_003_op_decimal of
      Inl e \<Rightarrow> code e = ''EXPR-EVAL-003'' | Inr u \<Rightarrow> \<exists>x. u = VDecimal x"
proof -
  show "case and_then (checked_signed op l r) (\<lambda>n. Inr (VInt n :: 'x val)) of
      Inl e \<Rightarrow> code e = ''EXPR-EVAL-003'' | Inr u \<Rightarrow> \<exists>n. u = VInt n"
    using checked_errors(1) [OF assms, of l r] by (cases "checked_signed op l r") auto
  show "case and_then (checked_unsigned op a b) (\<lambda>n. Inr (VUInt n :: 'x val)) of
      Inl e \<Rightarrow> code e = ''EXPR-EVAL-003'' | Inr u \<Rightarrow> \<exists>n. u = VUInt n"
    using checked_errors(2) [OF assms, of a b] by (cases "checked_unsigned op a b") auto
  show "case ok_or (map_option VDecimal (d :: 'x option)) eval_003_op_decimal of
      Inl e \<Rightarrow> code e = ''EXPR-EVAL-003'' | Inr u \<Rightarrow> \<exists>x. u = VDecimal x"
    by (cases d) auto
qed

lemma arithmetic_values_sound:
  fixes v :: "'x val"
  assumes v: "same_representation sh v" and w: "same_representation sh w"
    and op: "op \<in> {OpAdd, OpSub, OpMul, OpDiv} \<or>
      op = OpRem \<and> (\<exists>r. sh = ShScalar r \<and> ((\<exists>bits. r = RInt bits) \<or> (\<exists>bits. r = RUInt bits)))"
  shows "case arithmetic_values S op v w of
      Inl e \<Rightarrow> code e = ''EXPR-EVAL-003'' | Inr u \<Rightarrow> same_representation sh u"
proof -
  from op have five: "op \<in> {OpAdd, OpSub, OpMul, OpDiv, OpRem}" by auto
  from v obtain r where sh: "sh = ShScalar r" by (cases sh) (simp_all add: same_representation_def)
  show ?thesis
  proof (cases r)
    case (RInt bits)
    with v w obtain m n where "v = VInt m" "w = VInt n" by (auto simp: same_representation_def sh)
    then show ?thesis using checked_results(1) [OF five, of m n, where ?'x = 'x]
      by (auto simp: arithmetic_values_def same_representation_def sh RInt split: sum.splits)
  next
    case (RUInt bits)
    with v w obtain m n where "v = VUInt m" "w = VUInt n" by (auto simp: same_representation_def sh)
    then show ?thesis using checked_results(2) [OF five, of m n, where ?'x = 'x]
      by (auto simp: arithmetic_values_def same_representation_def sh RUInt split: sum.splits)
  next
    case RFloat32
    with v w op show ?thesis by (auto simp: arithmetic_values_def same_representation_def sh)
  next
    case RFloat64
    with v w op show ?thesis by (auto simp: arithmetic_values_def same_representation_def sh)
  next
    case RDecimal
    with v w obtain m n where eqs: "v = VDecimal m" "w = VDecimal n" by (auto simp: same_representation_def sh)
    from op RDecimal have "op \<in> {OpAdd, OpSub, OpMul, OpDiv}" by (auto simp: sh)
    with eqs show ?thesis using checked_results(3) [OF five, of "dec_checked S op m n"]
      by (auto simp: arithmetic_values_def same_representation_def sh RDecimal split: sum.splits)
  qed (use v in \<open>simp_all add: same_representation_def sh\<close>)
qed

lemma checked_result_representation:
  assumes "same_representation (ty_shape ty) v"
  shows "fine X overflow_codes ty (checked_result X ty False (Value v))"
proof (cases "validate_value X ty v")
  case (Inl e)
  then show ?thesis by (simp add: checked_result_def eval_110_def overflow_codes_def)
next
  case (Inr u)
  then have "of_type X ty v" using validate_value_ok(1) [of X ty v] by simp
  with Inr show ?thesis by (simp add: checked_result_def of_nested_type_simps)
qed

lemma checked_result_fine: "of_nested_type X ty d \<Longrightarrow> checked_result X ty exempt d = Inr d"
  using validate_datum_ok [of X ty Optional d]
  by (cases d) (auto simp: checked_result_def of_nested_type_simps of_field_def is_nullable_def)

section \<open>Unary operators\<close>

lemma signed_fits_mono:
  "signed_fits s n \<Longrightarrow> valid_integer_width s \<Longrightarrow> valid_integer_width t \<Longrightarrow> t \<ge> s \<Longrightarrow> signed_fits t n"
  by (auto simp: signed_fits_def valid_integer_width_def)

lemma unsigned_fits_mono:
  "unsigned_fits s n \<Longrightarrow> valid_integer_width s \<Longrightarrow> valid_integer_width t \<Longrightarrow> t \<ge> s \<Longrightarrow> unsigned_fits t n"
  by (auto simp: unsigned_fits_def valid_integer_width_def)

lemma uint_nat_less: "unat (n :: u128) < 2 ^ k \<Longrightarrow> uint n < 2 ^ k"
  by (simp only: uint_nat of_nat_less_numeral_power_cancel_iff)

lemma i128_checked_value: "i128_checked k = Some w \<Longrightarrow> sint w = k"
  by (auto simp: i128_checked_def signed_of_int signed_take_bit_int_eq_self split: if_splits)

lemma unsigned_into_signed:
  assumes "unsigned_fits s n" and "valid_integer_width s" and "valid_integer_width t" and "t > s"
  shows "\<exists>w. i128_checked (uint n) = Some w \<and> signed_fits t w"
proof -
  have less: "uint n < 2 ^ (unat t - 1)"
    using assms uint_nat_less [of n 8] uint_nat_less [of n 16] uint_nat_less [of n 32] uint_nat_less [of n 64]
    by (auto simp: unsigned_fits_def valid_integer_width_def)
  also have "(2 :: int) ^ (unat t - 1) \<le> 2 ^ 127"
    using assms(3) by (auto simp: valid_integer_width_def)
  finally have "uint n < 2 ^ 127" .
  with uint_ge_0 [of n] have "- (2 ^ 127) \<le> uint n \<and> uint n < 2 ^ 127" by linarith
  then obtain w where w: "i128_checked (uint n) = Some w" by (simp add: i128_checked_def)
  have neg: "- (2 ^ k) \<le> uint n" for k by (rule order_trans [OF _ uint_ge_0]) simp
  from less i128_checked_value [OF w] neg [of 7] neg [of 15] neg [of 31] neg [of 63] assms(3) have "signed_fits t w"
    by (auto simp: signed_fits_def valid_integer_width_def)
  with w show ?thesis by blast
qed

lemma type_wf_scalar: "type_wf L ty \<Longrightarrow> ty_shape ty = ShScalar r \<Longrightarrow> scalar_ok r"
  by (cases ty) auto

lemma cast_value_sound:
  assumes cast: "validate_lossless_cast source target = Inr ()"
    and wf: "type_wf L source" "type_wf L target" and v: "of_type X source v"
  shows "\<exists>w. cast_value_lossless S v target = Inr w \<and> of_type X target w"
proof -
  from cast obtain s t where shapes: "ty_shape source = ShScalar s" "ty_shape target = ShScalar t"
    and st: "lossless_scalar_cast s t"
    by (auto simp: validate_lossless_cast_def split: if_splits type_shape.splits)
  have ok: "scalar_ok s" "scalar_ok t" using type_wf_scalar [OF wf(1) shapes(1)] type_wf_scalar [OF wf(2) shapes(2)] by auto
  from v have m: "scalar_matches s v" by (simp add: of_type_scalar [OF shapes(1)])
  have "\<exists>w. cast_value_lossless S v target = Inr w \<and> scalar_matches t w"
  proof (cases s)
    case (RInt a)
    with st obtain b where "t = RInt b" "b \<ge> a" by (cases t) (auto simp: lossless_scalar_cast_def)
    with RInt m ok signed_fits_mono [of a _ b] show ?thesis
      by (auto simp: cast_value_lossless_def shapes scalar_matches_shapes)
  next
    case (RUInt a)
    with m obtain n where n: "v = VUInt n" "unsigned_fits a n" by (auto simp: scalar_matches_shapes)
    from st RUInt consider b where "t = RUInt b" "b \<ge> a" | b where "t = RInt b" "b > a"
      by (cases t) (auto simp: lossless_scalar_cast_def)
    then show ?thesis
    proof cases
      case (1 b)
      with n ok RUInt unsigned_fits_mono [of a n b] show ?thesis
        by (auto simp: cast_value_lossless_def shapes scalar_matches_shapes)
    next
      case (2 b)
      with ok RUInt unsigned_into_signed [OF n(2), of b] n(1) show ?thesis
        by (auto simp: cast_value_lossless_def shapes scalar_matches_shapes)
    qed
  qed (use st m in \<open>auto simp: lossless_scalar_cast_def cast_value_lossless_def shapes scalar_matches_shapes\<close>)
  then show ?thesis by (simp add: of_type_scalar [OF shapes(2)])
qed

lemma validate_unary_cases:
  assumes "validate_unary op input output = Inr ()"
  shows "op \<in> {OpNot, OpIsNull, OpIsMissing, OpIsPresent} \<Longrightarrow> output = truth_type_def"
    and "op = OpNot \<Longrightarrow> input = truth_type_def"
    and "op = OpNullableLift \<Longrightarrow> output = nullable input"
    and "op = OpLosslessCast \<Longrightarrow> validate_lossless_cast input output = Inr ()"
    and "op \<in> {OpNegate, OpAbs} \<Longrightarrow> output = input \<and> require_negatable input = Inr ()"
  using assms
  by (auto simp: validate_unary_def result_simps require_truth_def require_exact_type_def Let_def split: if_splits)

lemma nullable_nullable [simp]: "is_nullable (nullable t)"
  by (cases t) (simp add: is_nullable_def)

lemma eval_unary_sound:
  assumes valid: "validate_unary op input output = Inr ()" and wf: "type_wf L input" "type_wf L output"
    and op: "op \<notin> {OpNegate, OpAbs}"
    and d: "of_nested_type X input d \<or> op = OpNullableLift \<and> d = Null"
  shows "\<exists>w. eval_unary S op d output = Inr w \<and> of_nested_type X output w"
proof (cases op)
  case OpNot
  with d validate_unary_cases [OF valid] show ?thesis
    by (auto simp: eval_unary_def truth_unary_def as_truth_def)
next
  case OpNullableLift
  with d validate_unary_cases(3) [OF valid] of_type_shape_cong [of "nullable input" input X] show ?thesis
    by (auto simp: eval_unary_def of_nested_type_simps elim!: of_nested_cases)
next
  case OpLosslessCast
  then have cast: "validate_lossless_cast input output = Inr ()" using validate_unary_cases(4) [OF valid] by simp
  then have null: "is_nullable input = is_nullable output"
    by (auto simp: validate_lossless_cast_def is_nullable_def split: if_splits)
  from d OpLosslessCast have "of_nested_type X input d" by simp
  then show ?thesis
  proof (cases rule: of_nested_cases)
    case 1
    with null show ?thesis by (simp add: OpLosslessCast eval_unary_def of_nested_type_simps is_nullable_def)
  next
    case (2 v)
    from cast_value_sound [OF cast wf 2(2), of S] show ?thesis
      by (auto simp: OpLosslessCast eval_unary_def of_nested_type_simps 2(1))
  qed
qed (use op validate_unary_cases [OF valid] in \<open>auto simp: eval_unary_def truth_datum_def\<close>)

lemma eval_negate_sound:
  assumes valid: "validate_unary op input output = Inr ()" and op: "op \<in> {OpNegate, OpAbs}"
    and d: "of_nested_type X input d"
  shows "fine X overflow_codes output (and_then (eval_unary S op d output) (checked_result X output False))"
  using d
proof (cases rule: of_nested_cases)
  case 1
  with op validate_unary_cases(5) [OF valid] show ?thesis
    by (auto simp: eval_unary_def checked_result_fine of_nested_type_simps)
next
  case (2 v)
  from op have eq: "output = input" and neg: "require_negatable input = Inr ()"
    using validate_unary_cases(5) [OF valid] by auto
  from neg have num: "numeric_representation (ty_shape input)" and no: "\<And>bits. ty_shape input \<noteq> ShScalar (RUInt bits)"
    by (auto simp: require_negatable_def split: if_splits)
  have rep: "same_representation (ty_shape input) v" using of_type_representation [OF num 2(2)] .
  have "case eval_unary S op d output of Inl e \<Rightarrow> code e = ''EXPR-EVAL-003''
      | Inr w \<Rightarrow> \<exists>u. w = Value u \<and> same_representation (ty_shape input) u"
    using num no rep op
    by (elim numeric_representation_cases)
      (auto simp: same_representation_def 2(1) eval_unary_def ok_or_def split: option.splits)
  then show ?thesis
    using checked_result_representation [of input _ X]
    by (cases "eval_unary S op d output") (auto simp: overflow_codes_def eq)
qed

section \<open>Binary operators\<close>

definition arithmetic_op :: "binary_op \<Rightarrow> bool" where
  "arithmetic_op op \<longleftrightarrow> op \<in> {OpAdd, OpSub, OpMul, OpDiv, OpRem}"

lemma eval_truth_result:
  assumes "op \<notin> {OpAnd, OpOr, OpCoalesce}" and "\<not> arithmetic_op op"
  shows "\<exists>t. eval_binary S op l r = Inr (Value (VTruth t))"
proof -
  have order: "\<exists>t. compare_order X op' a b = Inr (Value (VTruth t))" for X op' a b
    by (cases a; cases b) (auto simp: compare_order_def truth_datum_def unknown_def split: option.split)
  from assms show ?thesis
    by (cases op)
      (auto simp: arithmetic_op_def eval_binary_def compare_equality_truth order distinct_equality_def truth_datum_def Let_def)
qed

lemma validate_binary_cases:
  assumes "validate_binary op left right output = Inr ()"
  shows "op \<notin> {OpCoalesce} \<Longrightarrow> \<not> arithmetic_op op \<Longrightarrow> output = truth_type_def"
    and "op \<in> {OpAnd, OpOr} \<Longrightarrow> left = truth_type_def \<and> right = truth_type_def"
    and "op = OpCoalesce \<Longrightarrow> left = right \<and> output = left \<or> is_nullable left \<and> non_null left = right \<and> output = right"
    and "arithmetic_op op \<Longrightarrow> left = right \<and> output = left \<and> numeric_representation (ty_shape left)"
    and "op = OpRem \<Longrightarrow> \<exists>r. ty_shape left = ShScalar r \<and> ((\<exists>bits. r = RInt bits) \<or> (\<exists>bits. r = RUInt bits))"
  using assms
  by (cases op; auto simp: validate_binary_def validate_coalesce_def arithmetic_op_def result_simps require_truth_def
      require_exact_type_def require_same_input_types_def require_numeric_representation_def
      require_integral_representation_def numeric_representation_def
      split: if_splits type_shape.splits scalar_repr.splits)+

lemma eval_logical_sound:
  assumes "op \<in> {OpAnd, OpOr}"
  shows "\<exists>t. eval_binary S op (Value (VTruth a)) (Value (VTruth b)) = Inr (Value (VTruth t))"
  using assms by (auto simp: eval_binary_def truth_binary_def as_truth_def)

lemma eval_arithmetic_sound:
  assumes valid: "validate_binary op left right output = Inr ()" and op: "arithmetic_op op"
    and l: "of_nested_type X left l" and r: "of_nested_type X right r"
  shows "fine X overflow_codes output (and_then (eval_binary S op l r) (checked_result X output False))"
proof -
  note facts = validate_binary_cases(4) [OF valid op]
  have eval: "eval_binary S op l r = arithmetic S op l r"
    using op by (cases op) (simp_all add: arithmetic_op_def eval_binary_def)
  show ?thesis
  proof (cases "l = Null \<or> r = Null")
    case True
    with l r facts show ?thesis
      by (auto simp: eval arithmetic_def checked_result_fine of_nested_type_simps elim!: of_nested_cases)
  next
    case False
    with l r obtain v w where vw: "l = Value v" "r = Value w" "of_type X left v" "of_type X left w"
      using facts by (auto elim!: of_nested_cases)
    from facts have num: "numeric_representation (ty_shape left)" by blast
    have side: "op \<in> {OpAdd, OpSub, OpMul, OpDiv} \<or>
        op = OpRem \<and> (\<exists>r. ty_shape left = ShScalar r \<and> ((\<exists>bits. r = RInt bits) \<or> (\<exists>bits. r = RUInt bits)))"
      using op validate_binary_cases(5) [OF valid] by (auto simp: arithmetic_op_def)
    from arithmetic_values_sound [OF of_type_representation [OF num vw(3)] of_type_representation [OF num vw(4)] side, of S]
      facts checked_result_representation [of left _ X]
    show ?thesis
      by (cases "arithmetic_values S op v w") (auto simp: eval [unfolded vw(1,2)] vw(1,2) arithmetic_def overflow_codes_def)
  qed
qed

lemma eval_coalesce_sound:
  assumes valid: "validate_binary OpCoalesce left right output = Inr ()"
  shows "of_nested_type X right r \<Longrightarrow> is_absent l \<Longrightarrow> eval_binary S OpCoalesce l r = Inr r \<and> of_nested_type X output r"
    and "of_nested_type X left l \<Longrightarrow> \<not> is_absent l \<Longrightarrow> of_nested_type X output l"
proof -
  note facts = validate_binary_cases(3) [OF valid refl]
  show "eval_binary S OpCoalesce l r = Inr r \<and> of_nested_type X output r"
    if "of_nested_type X right r" "is_absent l"
    using facts that by (cases l) (auto simp: eval_binary_def)
  show "of_nested_type X output l" if "of_nested_type X left l" "\<not> is_absent l"
    using facts that of_type_shape_cong [of "non_null left" left X] by (cases l) (auto simp: of_nested_type_simps)
qed

section \<open>Expressions\<close>

definition arithmetic_node :: "('x, 'q) expr_node \<Rightarrow> bool" where
  "arithmetic_node n \<longleftrightarrow>
     (case en_kind n of
        EUnary op input \<Rightarrow> op \<in> {OpNegate, OpAbs}
      | EBinary op left right \<Rightarrow> arithmetic_op op
      | _ \<Rightarrow> False)"

text \<open>Without arithmetic, only what the environment reports can fail.\<close>

definition admitted :: "string set \<Rightarrow> ('x, 'q) expr_node \<Rightarrow> string set" where
  "admitted E n = E \<union> (if \<exists>m \<in> set (subnodes n). arithmetic_node m then overflow_codes else {})"

definition function_contract :: "'x ext \<Rightarrow> string set \<Rightarrow> 'x function_ref \<Rightarrow> bool" where
  "function_contract X E f \<longleftrightarrow>
     (\<forall>tys vs ty. function_validate f tys ty = Inr () \<longrightarrow> list_all2 (of_nested_type X) tys vs \<longrightarrow>
        fine X E ty (function_evaluate f vs ty))"

text \<open>The nodes of a tree, each with the mode it is evaluated in: whether it may be a lifted null.\<close>

definition child_lift :: "('x, 'q) expr_node \<Rightarrow> bool" where
  "child_lift n \<longleftrightarrow> (case en_kind n of EUnary op input \<Rightarrow> op = OpNullableLift | _ \<Rightarrow> False)"

function sites :: "bool \<Rightarrow> ('x, 'q) expr_node \<Rightarrow> (bool \<times> ('x, 'q) expr_node) list" where
  "sites lift n = (lift, n) # concat (map (sites (child_lift n)) (children n))"
  by pat_completeness auto
termination
  by (relation "measure (\<lambda>(lift, n). size n)") (auto intro: size_expr_child)

declare sites.simps [simp del]

lemma set_sites: "set (sites lift n) = insert (lift, n) (\<Union>c \<in> set (children n). set (sites (child_lift n) c))"
  by (subst sites.simps) simp

lemma sites_subnodes: "snd ` set (sites lift n) = set (subnodes n)"
proof (induction n arbitrary: lift rule: measure_induct_rule [where f = size])
  case (less n)
  from less.IH [OF size_expr_child] show ?case
    unfolding set_sites [of lift n] set_subnodes [of n] by (simp add: image_UN)
qed

text \<open>What the environment promises at a node, up to failures with a code of \<open>E\<close>.\<close>

definition sound_site :: "'x ext \<Rightarrow> string set \<Rightarrow> ('x, 'q) valuation \<Rightarrow> bool \<Rightarrow> ('x, 'q) expr_node \<Rightarrow> bool" where
  "sound_site X E V lift n \<longleftrightarrow>
     (case en_kind n of
        EField f \<Rightarrow>
          (case val_field V lift f (en_ty n) of
             Inl e \<Rightarrow> code e \<in> E
           | Inr (d, exempt) \<Rightarrow> if exempt then lift \<and> d = Null else of_nested_type X (en_ty n) d)
      | EParameter name \<Rightarrow> fine X E (en_ty n) (val_parameter V name (en_ty n))
      | EExists q \<Rightarrow> (case val_exists V q of Inl e \<Rightarrow> code e \<in> E | Inr _ \<Rightarrow> True)
      | EFunctionCall f arguments \<Rightarrow> function_contract X E f
      | _ \<Rightarrow> True)"

lemma fine_mono: "fine X E ty r \<Longrightarrow> E \<subseteq> E' \<Longrightarrow> fine X E' ty r"
  by (cases r) auto

lemma plain_checked:
  "and_then (plain r) (\<lambda>(v, exempt). checked_result X ty exempt v) = and_then r (checked_result X ty False)"
  by (cases r) (simp_all add: plain_def)

lemma fine_checked: "fine X E ty r \<Longrightarrow> fine X E ty (and_then r (checked_result X ty False))"
  by (cases r) (simp_all add: checked_result_fine)

lemma try_map_fine:
  assumes "\<forall>n \<in> set ns. fine X E (en_ty n) (f n)"
  shows "case try_map f ns of Inl e \<Rightarrow> code e \<in> E | Inr vs \<Rightarrow> list_all2 (of_nested_type X) (map en_ty ns) vs"
  using assms
proof (induction ns)
  case Nil
  then show ?case by simp
next
  case (Cons n ns)
  then show ?case by (cases "f n"; cases "try_map f ns") auto
qed

lemma call_sound:
  assumes "function_contract X E f" and "function_validate f (map en_ty ns) ty = Inr ()"
    and "\<forall>n \<in> set ns. fine X E (en_ty n) (g n)"
  shows "fine X E ty (and_then (try_map g ns) (\<lambda>vs. function_evaluate f vs ty))"
  using try_map_fine [OF assms(3)] assms(1,2)
  by (cases "try_map g ns") (auto simp: function_contract_def)

lemma admitted_child: "c \<in> set (children n) \<Longrightarrow> admitted E c \<subseteq> admitted E n"
  using set_subnodes [of n] by (auto simp: admitted_def)

lemma admitted_arithmetic: "arithmetic_node n \<Longrightarrow> overflow_codes \<subseteq> admitted E n"
  using set_subnodes [of n] by (auto simp: admitted_def)

lemma contract_mono: "function_contract X E f \<Longrightarrow> E \<subseteq> E' \<Longrightarrow> function_contract X E' f"
  using fine_mono by (fastforce simp: function_contract_def)

lemma binary_node_sound:
  assumes valid: "validate_binary op (en_ty left) (en_ty right) ty = Inr ()"
    and l: "fine X E (en_ty left) l" and r: "fine X E (en_ty right) r"
    and arith: "arithmetic_op op \<Longrightarrow> overflow_codes \<subseteq> E"
  shows "fine X E ty (and_then (and_then l (\<lambda>a.
      if op = OpCoalesce \<and> \<not> is_absent a then Inr a else and_then r (\<lambda>b. eval_binary S op a b)))
      (checked_result X ty False))"
proof (cases "arithmetic_op op")
  case True
  then have "op \<noteq> OpCoalesce" by (auto simp: arithmetic_op_def)
  then show ?thesis
    using l r fine_mono [OF eval_arithmetic_sound [OF valid True] arith [OF True]]
    by (cases l; cases r) (auto simp: and_then_assoc)
next
  case False
  have "fine X E ty (and_then l (\<lambda>a.
      if op = OpCoalesce \<and> \<not> is_absent a then Inr a else and_then r (\<lambda>b. eval_binary S op a b)))"
  proof (rule fine_and_then [OF l])
    fix a
    assume a: "of_nested_type X (en_ty left) a"
    show "fine X E ty (if op = OpCoalesce \<and> \<not> is_absent a then Inr a else and_then r (\<lambda>b. eval_binary S op a b))"
    proof (cases "op = OpCoalesce \<and> \<not> is_absent a")
      case True
      with valid have "of_nested_type X ty a" by (intro eval_coalesce_sound(2) [OF _ a]) auto
      with True show ?thesis by simp
    next
      case no: False
      have "fine X E ty (and_then r (\<lambda>b. eval_binary S op a b))"
      proof (rule fine_and_then [OF r])
        fix b
        assume b: "of_nested_type X (en_ty right) b"
        consider "op = OpCoalesce" | "op \<in> {OpAnd, OpOr}" | "op \<notin> {OpAnd, OpOr, OpCoalesce}" by blast
        then show "fine X E ty (eval_binary S op a b)"
        proof cases
          case 1
          with no valid eval_coalesce_sound(1) [OF _ b] show ?thesis by auto
        next
          case 2
          with validate_binary_cases(1,2) [OF valid] False a b obtain s t
            where "a = Value (VTruth s)" "b = Value (VTruth t)" "ty = truth_type_def" by auto
          with eval_logical_sound [OF 2, of S s t] show ?thesis by auto
        next
          case 3
          with validate_binary_cases(1) [OF valid] False eval_truth_result [OF 3 False, of S a b] show ?thesis by auto
        qed
      qed
      with no show ?thesis by auto
    qed
  qed
  then show ?thesis by (rule fine_checked)
qed

theorem validated_sound:
  assumes X: "X = ops_ext S"
  shows "\<forall>(k, m) \<in> set (sites lift n). node_ok X m \<and> type_wf L (en_ty m) \<and> sound_site X E V k m \<Longrightarrow>
    fine X (admitted E n) (en_ty n) (eval_expr S V lift n) \<or> lift \<and> eval_expr S V lift n = Inr Null"
proof (induction n arbitrary: lift rule: measure_induct_rule [where f = size])
  case (less n)
  have IH: "fine X (admitted E n) (en_ty c) (eval_expr S V (child_lift n) c) \<or>
      child_lift n \<and> eval_expr S V (child_lift n) c = Inr Null" if "c \<in> set (children n)" for c
    using less.IH [OF size_expr_child [OF that], of "child_lift n"] less.prems that set_sites [of lift n]
      fine_mono [OF _ admitted_child [OF that]] by blast
  have plain_IH: "fine X (admitted E n) (en_ty c) (eval_expr S V False c)"
    if "c \<in> set (children n)" "\<not> child_lift n" for c
    using IH [OF that(1)] that(2) by simp
  obtain kind ty where n: "n = ExprNode kind ty" by (cases n)
  from less.prems have ok: "node_ok X n" "type_wf L ty" and site: "sound_site X E V lift n"
    by (auto simp: n set_sites [of lift "ExprNode kind ty"])
  have E: "E \<subseteq> admitted E n" by (simp add: admitted_def)
  from ok(1) have rule: "node_rule ty kind = Inr ()" by (simp add: node_ok_def n)
  show ?case
  proof (cases kind)
    case (EField f)
    from site E show ?thesis
      by (cases "val_field V lift f ty")
        (auto simp: n EField sound_site_def eval_node checked_result_fine X checked_result_def [of _ _ True] split: if_splits)
  next
    case (ELiteral v)
    with ok(1) have "validate_datum X ty Required v = Inr ()" by (auto simp: node_ok_def n)
    then have "of_field X ty Required v" unfolding validate_datum_ok .
    then have "of_nested_type X ty v"
      by (cases v) (auto simp: of_field_def of_nested_type_simps is_nullable_def)
    then show ?thesis by (simp add: n ELiteral eval_node checked_result_fine X)
  next
    case (EParameter name)
    from site have "fine X E ty (val_parameter V name ty)" by (simp add: sound_site_def n EParameter)
    then have "fine X (admitted E n) ty (eval_expr S V lift n)"
      using fine_mono [OF fine_checked E] by (simp add: n EParameter eval_node plain_checked X)
    then show ?thesis by (simp add: n)
  next
    case (EUnary op input)
    have child: "input \<in> set (children n)" and lift: "child_lift n \<longleftrightarrow> op = OpNullableLift"
      by (simp_all add: n EUnary child_lift_def)
    from rule have valid: "validate_unary op (en_ty input) ty = Inr ()" by (simp add: EUnary node_rule_def)
    have "(child_lift n, input) \<in> set (sites lift n)"
      using child set_sites [of lift n] set_sites [of "child_lift n" input] by blast
    with less.prems have wf: "type_wf L (en_ty input)" by blast
    have "fine X (admitted E n) ty (and_then (and_then (eval_expr S V (op = OpNullableLift) input)
        (\<lambda>v. eval_unary S op v ty)) (checked_result X ty False))"
    proof (cases "op \<in> {OpNegate, OpAbs}")
      case True
      then have "arithmetic_node n" by (auto simp: arithmetic_node_def n EUnary)
      note result = fine_mono [OF eval_negate_sound [OF valid True] admitted_arithmetic [OF this]]
      from True have "op \<noteq> OpNullableLift" by auto
      with fine_and_then [OF plain_IH [OF child] result] lift show ?thesis by (simp add: and_then_assoc)
    next
      case False
      have "fine X (admitted E n) ty (and_then (eval_expr S V (op = OpNullableLift) input) (\<lambda>v. eval_unary S op v ty))"
        using IH [OF child, unfolded lift] eval_unary_sound [OF valid wf ok(2) False, of X _ S]
        by (cases "eval_expr S V (op = OpNullableLift) input") fastforce+
      then show ?thesis by (rule fine_checked)
    qed
    then show ?thesis by (simp add: n EUnary eval_node plain_checked X)
  next
    case (EBinary op left right)
    from rule have valid: "validate_binary op (en_ty left) (en_ty right) ty = Inr ()"
      by (simp add: EBinary node_rule_def)
    have "arithmetic_op op \<Longrightarrow> overflow_codes \<subseteq> admitted E n"
      by (rule admitted_arithmetic) (simp add: arithmetic_node_def n EBinary)
    from binary_node_sound [OF valid plain_IH plain_IH this, of S] show ?thesis
      by (simp add: n EBinary eval_node plain_checked X child_lift_def)
  next
    case (EMembership input candidates negate)
    from rule have ty: "ty = truth_type_def"
      by (auto simp: EMembership node_rule_def result_simps require_truth_def require_exact_type_def split: if_splits)
    have "\<forall>c \<in> set candidates. fine X (admitted E n) (en_ty c) (eval_expr S V False c)"
      using plain_IH by (simp add: n EMembership child_lift_def)
    from try_map_fine [OF this] plain_IH [of input] have "fine X (admitted E n) ty
        (and_then (eval_expr S V False input) (\<lambda>v. and_then (try_map (eval_expr S V False) candidates) (\<lambda>vs.
           eval_membership X v vs negate)))"
      by (cases "eval_expr S V False input"; cases "try_map (eval_expr S V False) candidates")
        (auto simp: n EMembership ty child_lift_def eval_membership_def membership_loop_eq truth_datum_def unknown_def)
    from fine_checked [OF this] show ?thesis by (simp add: n EMembership eval_node plain_checked X)
  next
    case (EConditional c t e)
    from rule have types: "en_ty c = truth_type_def" "en_ty t = ty" "en_ty e = ty"
      by (auto simp: EConditional node_rule_def result_simps require_truth_def require_exact_type_def split: if_splits)
    have "fine X (admitted E n) ty (and_then (eval_expr S V False c) (\<lambda>v. and_then (as_truth v)
        (\<lambda>b. if b = TTrue then eval_expr S V False t else eval_expr S V False e)))"
      by (rule fine_and_then [OF plain_IH [of c]])
        (use plain_IH [of t] plain_IH [of e] types in \<open>auto simp: n EConditional child_lift_def as_truth_def\<close>)
    from fine_checked [OF this] show ?thesis by (simp add: n EConditional eval_node plain_checked X)
  next
    case (EFunctionCall f arguments)
    from rule have "function_validate f (map en_ty arguments) ty = Inr ()" by (simp add: EFunctionCall node_rule_def)
    moreover from site have "function_contract X E f" by (simp add: sound_site_def n EFunctionCall)
    ultimately have "\<forall>c \<in> set arguments. fine X (admitted E n) (en_ty c) (g c) \<Longrightarrow>
        fine X (admitted E n) ty (and_then (try_map g arguments) (\<lambda>vs. function_evaluate f vs ty))" for g
      using call_sound [OF contract_mono [OF _ E]] by blast
    from this [of "eval_expr S V False"] plain_IH
    have "fine X (admitted E n) ty (and_then (try_map (eval_expr S V False) arguments) (\<lambda>vs. function_evaluate f vs ty))"
      by (simp add: n EFunctionCall child_lift_def)
    from fine_checked [OF this] show ?thesis by (simp add: n EFunctionCall eval_node plain_checked X)
  next
    case (EExists q)
    from rule have ty: "ty = truth_type_def"
      by (auto simp: EExists node_rule_def require_truth_def require_exact_type_def split: if_splits)
    from site have "case val_exists V q of Inl e \<Rightarrow> code e \<in> E | Inr _ \<Rightarrow> True"
      by (simp add: sound_site_def n EExists)
    with E have "fine X (admitted E n) ty (and_then (val_exists V q) (\<lambda>b. Inr (Value (VTruth b))))"
      by (cases "val_exists V q") (auto simp: ty)
    from fine_checked [OF this] show ?thesis by (simp add: n EExists eval_node plain_checked X)
  qed
qed

end
