(* ===== verification/Expr_Builtin.thy ===== *)
theory Expr_Builtin
  imports Expr_Typing
begin

text \<open>
  The built-in functions keep the promise their validation makes: applied to values of the validated
  argument types they return a value of the result type. Only the two length functions can fail, on a
  string too long for 64 bits.
\<close>

definition length_codes :: "builtin_function \<Rightarrow> string set" where
  "length_codes f = (if f \<in> {TextByteLength, TextScalarLength} then {''EXPR-EVAL-006''} else {})"

lemma unary_value_fine:
  assumes "list_all2 (of_nested_type X) [t] vs" and "is_nullable ty = is_nullable t"
    and "\<And>v. of_type X t v \<Longrightarrow> case operation v of Inl e \<Rightarrow> code e \<in> E | Inr w \<Rightarrow> of_type X ty w"
  shows "fine X E ty (unary_value vs operation)"
proof -
  from assms(1) obtain d where vs: "vs = [d]" and d: "of_nested_type X t d"
    by (auto simp: list_all2_Cons1)
  from d show ?thesis
  proof (cases rule: of_nested_cases)
    case 1
    then show ?thesis using assms(2) by (simp add: vs unary_value_def of_nested_type_simps)
  next
    case (2 v)
    with assms(3) [of v] show ?thesis
      by (cases "operation v") (auto simp: vs unary_value_def of_nested_type_simps)
  qed
qed

lemma preserve_nullability_simps [simp]:
  "is_nullable (preserve_nullability (type_scalar k n r) t) = is_nullable t"
  "ty_shape (preserve_nullability ty t) = ty_shape ty"
  by (cases t; simp add: preserve_nullability_def type_scalar_def is_nullable_def)+

lemma string_argument:
  assumes "require_string t = Inr u" and "of_type X t v"
  obtains s where "v = VString s"
  using assms by (auto simp: require_string_def of_type_scalar scalar_matches_def split: if_splits val.splits)

lemma validate_accessor_Inr:
  assumes "validate_accessor input_type name result_type context arguments result = Inr u"
  obtains t where "arguments = [t]" "non_null t = input_type" "result = preserve_nullability result_type t"
  using assms
  by (auto simp: validate_accessor_def unary_type_argument_def require_builtin_def require_exact_type_def and_then_Inr
      split: list.splits if_splits)

lemma validate_text_Inr:
  assumes "and_then (unary_type_argument arguments) (\<lambda>input.
    and_then (require_string input) (\<lambda>_. require_exact_type result (g input) context)) = Inr u"
  obtains t where "arguments = [t]" "require_string t = Inr ()" "result = g t"
  using assms
  by (auto simp: unary_type_argument_def require_exact_type_def and_then_Inr split: list.splits if_splits)

text \<open>The calendar functions: an argument of a built-in scalar type, a total operation on its values.\<close>

lemma accessor_fine:
  assumes valid: "validate_accessor (type_scalar ik 1 ir) name (type_scalar rk 1 rr) context tys result = Inr u"
    and vs: "list_all2 (of_nested_type X) tys vs"
    and total: "\<And>v. scalar_matches ir v \<Longrightarrow> \<exists>w. operation v = Inr w \<and> scalar_matches rr w"
  shows "fine X E result (unary_value vs operation)"
proof -
  from valid obtain t where t: "tys = [t]" "non_null t = type_scalar ik 1 ir"
      "result = preserve_nullability (type_scalar rk 1 rr) t"
    by (rule validate_accessor_Inr)
  from t(2) have "ty_shape (non_null t) = ShScalar ir" by (simp add: type_scalar_def)
  then have shape: "ty_shape t = ShScalar ir" by simp
  have result: "ty_shape result = ShScalar rr" unfolding t(3) by (simp add: type_scalar_def)
  show ?thesis
  proof (rule unary_value_fine [OF vs [unfolded t(1)]])
    show "is_nullable result = is_nullable t" by (simp add: t(3))
    fix v
    assume "of_type X t v"
    with shape total [of v] result show "case operation v of Inl e \<Rightarrow> code e \<in> E | Inr w \<Rightarrow> of_type X result w"
      by (auto simp: of_type_scalar)
  qed
qed

lemma text_unary_fine:
  assumes "and_then (unary_type_argument tys) (\<lambda>input.
      and_then (require_string input) (\<lambda>_. require_exact_type result input context)) = Inr u"
    and vs: "list_all2 (of_nested_type X) tys vs"
  shows "fine X E result (text_unary vs operation)"
proof -
  from assms(1) obtain t where t: "tys = [t]" "require_string t = Inr ()" "result = t"
    by (rule validate_text_Inr)
  from t(2) have shape: "ty_shape t = ShScalar RString" by (auto simp: require_string_def split: if_splits)
  show ?thesis
    unfolding text_unary_def
    by (rule unary_value_fine [OF vs [unfolded t(1)]])
      (auto simp: t(3) shape of_type_scalar scalar_matches_def split: val.splits)
qed

lemma length_fine:
  assumes "and_then (unary_type_argument tys) (\<lambda>input.
      and_then (require_string input) (\<lambda>_. require_exact_type result (preserve_nullability uint64_type input) context)) = Inr u"
    and vs: "list_all2 (of_nested_type X) tys vs"
    and operation: "\<And>s. operation (VString s) = length_value (n s) m"
  shows "fine X {''EXPR-EVAL-006''} result (unary_value vs operation)"
proof -
  from assms(1) obtain t where t: "tys = [t]" "require_string t = Inr ()" "result = preserve_nullability uint64_type t"
    by (rule validate_text_Inr)
  have result: "ty_shape result = ShScalar (RUInt 64)" by (simp add: t(3) uint64_type_def type_scalar_def)
  show ?thesis
  proof (rule unary_value_fine [OF vs [unfolded t(1)]])
    show "is_nullable result = is_nullable t" by (simp add: t(3) uint64_type_def)
    fix v
    assume "of_type X t v"
    with t(2) obtain s where "v = VString s" by (rule string_argument)
    then show "case operation v of Inl e \<Rightarrow> code e \<in> {''EXPR-EVAL-006''} | Inr w \<Rightarrow> of_type X result w"
      by (simp add: operation length_value_def eval_006_def of_type_scalar [OF result] scalar_matches_def
          unsigned_fits_def unsigned_of_nat le_less_trans [OF take_bit_nat_less_eq_self])
  qed
qed

lemma text_predicate_fine:
  assumes "and_then (binary_type_arguments tys) (\<lambda>(left, right).
      and_then (require_exact_type left right c1) (\<lambda>_.
      and_then (require_string left) (\<lambda>_. require_truth result c2))) = Inr u"
    and vs: "list_all2 (of_nested_type X) tys vs"
    and k: "k = ''dol/text/contains'' \<or> k = ''dol/text/starts-with'' \<or> k = ''dol/text/ends-with''"
  shows "fine X E result (text_predicate k vs)"
proof -
  from assms(1) obtain t where t: "tys = [t, t]" "require_string t = Inr ()" "result = truth_type_def"
    by (auto simp: binary_type_arguments_def require_truth_def require_exact_type_def and_then_Inr
        split: list.splits if_splits)
  from vs obtain d d' where vs': "vs = [d, d']" and d: "of_nested_type X t d" "of_nested_type X t d'"
    by (auto simp: t(1) list_all2_Cons1)
  have strings: "\<exists>s. v = VString s" if "of_type X t v" for v
    using string_argument [OF t(2) that] by blast
  show ?thesis
  proof (cases "is_absent d \<or> is_absent d'")
    case True
    then show ?thesis by (simp add: vs' text_predicate_def unknown_def truth_datum_def t(3))
  next
    case False
    with d obtain v v' where "d = Value v" "d' = Value v'" "of_type X t v" "of_type X t v'"
      by (cases d; cases d') (auto simp: of_nested_type_simps)
    with strings obtain l r where "d = Value (VString l)" "d' = Value (VString r)" by blast
    then show ?thesis using k by (auto simp: vs' text_predicate_def truth_datum_def t(3))
  qed
qed

section \<open>All built-in functions\<close>

lemma signed_fits_sint:
  "signed_fits 32 (word_of_int (sint (w :: 32 word)))" "signed_fits 64 (word_of_int (sint (x :: 64 word)))"
proof -
  have range: "- (2 ^ 31) \<le> sint w" "sint w < 2 ^ 31" "- (2 ^ 63) \<le> sint x" "sint x < 2 ^ 63"
    using sint_greater_eq [of w] sint_less [of w] sint_greater_eq [of x] sint_less [of x] by simp_all
  then have "sint (word_of_int (sint w) :: i128) = sint w" "sint (word_of_int (sint x) :: i128) = sint x"
    unfolding sint_sbintrunc' by (simp_all add: signed_take_bit_int_eq_self)
  then have "signed_fits 32 (word_of_int (sint w)) \<longleftrightarrow> - (2 ^ 31) \<le> sint w \<and> sint w < 2 ^ 31"
    "signed_fits 64 (word_of_int (sint x)) \<longleftrightarrow> - (2 ^ 63) \<le> sint x \<and> sint x < 2 ^ 63"
    unfolding signed_fits_def by (simp_all only: if_False if_True refl simp_thms) simp_all
  with range show "signed_fits 32 (word_of_int (sint w))" "signed_fits 64 (word_of_int (sint x))" by blast+
qed

lemma unsigned_fits_unat:
  "unsigned_fits 8 (of_nat (unat (b :: 8 word)))" "unsigned_fits 16 (of_nat (unat (w :: 16 word)))"
proof -
  have "unat b < 2 ^ 8" "unat w < 2 ^ 16" by (rule unsigned_less [THEN less_le_trans], simp)+
  then have "unat (of_nat (unat b) :: u128) < 2 ^ 8" "unat (of_nat (unat w) :: u128) < 2 ^ 16"
    unfolding unat_of_nat by (meson le_less_trans mod_less_eq_dividend)+
  then show "unsigned_fits 8 (of_nat (unat b))" "unsigned_fits 16 (of_nat (unat w))"
    unfolding unsigned_fits_def by (simp_all only: if_False if_True refl simp_thms) simp_all
qed

lemmas builtin_types =
  int32_type_def int64_type_def uint8_type_def uint16_type_def uint64_type_def date_builtin_def time_builtin_def
  local_datetime_builtin_def instant_builtin_def duration_builtin_def month_type_def weekday_type_def

lemmas definition_simps =
  builtin_definition_def unicode_function_def function_new_def with_dependency_def

lemmas function_simps = validate_builtin_function_def eval_builtin_function_def definition_simps length_codes_def

lemmas value_simps = scalar_matches_def date_part_def datetime_part_def
  signed_fits_sint [simplified] unsigned_fits_unat [simplified]

theorem builtin_contract: "function_contract (ops_ext S) (length_codes f) (builtin_ref S unicode f)"
proof -
  let ?d = "builtin_definition unicode f"
  have "fine (ops_ext S) (length_codes f) ty (eval_builtin_function S ?d vs ty)"
    if valid: "validate_builtin_function ?d tys ty = Inr ()" and vs: "list_all2 (of_nested_type (ops_ext S)) tys vs"
    for tys vs ty
  proof -
    consider "f \<in> {TextLowercase, TextUppercase, TextTrim, TextTrimStart, TextTrimEnd}"
      | "f \<in> {TextContains, TextStartsWith, TextEndsWith}" | "f = TextByteLength" | "f = TextScalarLength"
      | "f \<in> {DateYear, DateMonth, DateDay, DateOrdinal, DateWeekday, LocalDateTimeDate, LocalDateTimeTime,
           InstantUnixTimestamp, DurationWholeSeconds}"
      by (cases f) auto
    then show ?thesis
    proof cases
      case 1
      with valid text_unary_fine [OF _ vs] show ?thesis by (auto simp: function_simps)
    next
      case 2
      with valid text_predicate_fine [OF _ vs] show ?thesis by (auto simp: function_simps)
    next
      case 3
      with valid length_fine [OF _ vs, where operation = byte_length and n = length] show ?thesis
        by (simp add: function_simps byte_length_def)
    next
      case 4
      with valid length_fine [OF _ vs, where operation = scalar_length and n = "\<lambda>s. length (chars s)"] show ?thesis
        by (simp add: function_simps scalar_length_def)
    next
      case 5
      with valid show ?thesis
        by (auto simp: function_simps builtin_types value_simps elim!: accessor_fine [OF _ vs] split: val.splits)
    qed
  qed
  then show ?thesis
    by (auto simp: function_contract_def function_validate_def function_evaluate_def builtin_ref_def and_then_Inr)
qed

end
