(* ===== verification/Expr_Safety.thy ===== *)
theory Expr_Safety
  imports Expr_Builtin Model_Laws
begin

text \<open>
  Binding and preparation, put together: a field reference binds to the one source that answers it, and
  a prepared expression, evaluated on records that conform to the bound models, gives a value of its
  type or fails as its arithmetic and its functions may fail.
\<close>

section \<open>Name resolution\<close>

definition nullable_source :: "bind_context \<Rightarrow> nat \<Rightarrow> bool" where
  "nullable_source c i \<longleftrightarrow> vec_get (bc_nullable c) i = Some True"

lemma nullable_source_case:
  "(case vec_get (bc_nullable c) i of Some b \<Rightarrow> b | None \<Rightarrow> False) = nullable_source c i"
  by (auto simp: nullable_source_def split: option.split)

definition answering :: "bind_context \<Rightarrow> field_ref \<Rightarrow> (nat \<times> model_def) list \<Rightarrow> (nat \<times> model_def) list" where
  "answering c f = filter (\<lambda>(i, m). source_matches c f i m)"

lemma resolve_loop_found: "resolve_loop c f xs (Some x) = Inr r \<longleftrightarrow> answering c f xs = [] \<and> r = Some x"
  by (induction xs) (auto simp: answering_def)

lemma resolve_loop_none:
  "resolve_loop c f xs None = Inr r \<longleftrightarrow>
     answering c f xs = [] \<and> r = None \<or>
     (\<exists>i m. answering c f xs = [(i, m)] \<and> i < 2 ^ 32 \<and> r = Some (i, m, nullable_source c i))"
proof (induction xs)
  case Nil
  then show ?case by (auto simp: answering_def)
next
  case (Cons p xs)
  obtain i m where p: "p = (i, m)" by (cases p)
  show ?case
  proof (cases "source_matches c f i m")
    case True
    then show ?thesis
      by (auto simp: p result_simps scope_id_from_index_def resolve_loop_found nullable_source_case answering_def
          split: if_splits)
  next
    case False
    with Cons.IH show ?thesis by (simp add: p answering_def)
  qed
qed

lemma resolve_field_ok:
  "resolve_field c f = Inr (i, m, b) \<longleftrightarrow>
     answering c f (enumerate 0 (bc_models c)) = [(i, m)] \<and> i < 2 ^ 32 \<and> b = nullable_source c i"
  by (auto simp: resolve_field_def result_simps resolve_loop_none)

lemma resolved_source: "resolve_field c f = Inr (i, m, b) \<Longrightarrow> i < length (bc_models c) \<and> m = bc_models c ! i"
proof -
  assume "resolve_field c f = Inr (i, m, b)"
  then have "(i, m) \<in> set (answering c f (enumerate 0 (bc_models c)))" by (simp add: resolve_field_ok)
  then show ?thesis by (auto simp: answering_def in_set_enumerate_eq)
qed

section \<open>Compiled nodes\<close>

definition compiled_site ::
  "('q, 's) exists_resolver \<Rightarrow> bind_context \<Rightarrow> 'x prepared_node set \<Rightarrow> bool \<Rightarrow> ('x, 'q) expr_node \<Rightarrow> bool" where
  "compiled_site R c out lift n \<longleftrightarrow>
     (case en_kind n of
        EField f \<Rightarrow> \<exists>k :: 'x prepared_kind. compile_field c f (en_ty n) lift = Inr k
      | EParameter name \<Rightarrow> \<lparr>pn_kind = PParameter name, pn_ty = en_ty n\<rparr> \<in> out
      | EUnary op input \<Rightarrow> \<exists>i. \<lparr>pn_kind = PUnary op i, pn_ty = en_ty n\<rparr> \<in> out
      | EBinary op left right \<Rightarrow> \<exists>i j. \<lparr>pn_kind = PBinary op i j, pn_ty = en_ty n\<rparr> \<in> out
      | EFunctionCall f arguments \<Rightarrow> \<exists>is. \<lparr>pn_kind = PFunctionCall f is, pn_ty = en_ty n\<rparr> \<in> out
      | EExists q \<Rightarrow> \<exists>s r. R q s = Inr r
      | _ \<Rightarrow> True)"

lemma compiled_site_mono: "compiled_site R c out k m \<Longrightarrow> out \<subseteq> out' \<Longrightarrow> compiled_site R c out' k m"
  by (auto simp: compiled_site_def split: expr_kind.split_asm)

lemma compile_node_step:
  assumes "compile_node R c lift n (out, s) = Inr (i, out', s')"
  shows "\<exists>js mid t k. collect_state (compile_node R c (child_lift n)) (children n) (out, s) = Inr (js, mid, t) \<and>
    set out' = insert \<lparr>pn_kind = k, pn_ty = en_ty n\<rparr> (set mid) \<and> compiled_site R c (set out') lift n"
proof -
  obtain kind ty where n: "n = ExprNode kind ty" by (cases n)
  note simps = n compile_simps result_simps child_lift_def compiled_site_def push_node_def
  from assms show ?thesis
  proof (cases kind)
    case (EUnary op input)
    with assms show ?thesis by (auto simp: simps)
  next
    case (EBinary op left right)
    with assms show ?thesis by (fastforce simp: simps)
  next
    case (EMembership input candidates negate)
    with assms show ?thesis by (auto simp: simps)
  next
    case (EConditional c t e)
    with assms show ?thesis by (auto simp: simps)
  next
    case (EFunctionCall f arguments)
    with assms show ?thesis by (auto simp: simps)
  next
    case (EExists q)
    with assms show ?thesis by (auto simp: simps)
  next
    case (EField f)
    with assms show ?thesis by (auto simp: simps)
  qed (use assms in \<open>auto simp: simps\<close>)
qed

lemma collect_sites:
  assumes "collect_state f ns (out, s) = Inr (is, out', s')"
    and "\<And>n out s i out' s'. n \<in> set ns \<Longrightarrow> f n (out, s) = Inr (i, out', s') \<Longrightarrow> set out \<subseteq> set out' \<and> P (set out') n"
    and "\<And>out out' n. P out n \<Longrightarrow> out \<subseteq> out' \<Longrightarrow> P out' n"
  shows "set out \<subseteq> set out' \<and> (\<forall>n \<in> set ns. P (set out') n)"
  using assms(1,2)
proof (induction ns arbitrary: out s "is")
  case Nil
  then show ?case by simp
next
  case (Cons n ns)
  from Cons.prems(1) obtain i out1 s1 js where first: "f n (out, s) = Inr (i, out1, s1)"
    and others: "collect_state f ns (out1, s1) = Inr (js, out', s')"
    by (auto simp: result_simps)
  from Cons.prems(2) [OF _ first] have 1: "set out \<subseteq> set out1" "P (set out1) n" by simp_all
  have 2: "set out1 \<subseteq> set out' \<and> (\<forall>n \<in> set ns. P (set out') n)"
    by (rule Cons.IH [OF others]) (rule Cons.prems(2), simp_all)
  with 1 assms(3) show ?case by auto
qed

lemma compile_sites:
  "compile_node R c lift n (out, s) = Inr (i, out', s') \<Longrightarrow>
     set out \<subseteq> set out' \<and> (\<forall>(k, m) \<in> set (sites lift n). compiled_site R c (set out') k m)"
proof (induction n arbitrary: lift out s i out' s' rule: measure_induct_rule [where f = size])
  case (less n)
  let ?P = "\<lambda>out n'. \<forall>(k, m) \<in> set (sites (child_lift n) n'). compiled_site R c out k m"
  from compile_node_step [OF less.prems] obtain js mid t k
    where collect: "collect_state (compile_node R c (child_lift n)) (children n) (out, s) = Inr (js, mid, t)"
      and out': "set out' = insert \<lparr>pn_kind = k, pn_ty = en_ty n\<rparr> (set mid)"
      and here: "compiled_site R c (set out') lift n" by blast
  have "set out \<subseteq> set mid \<and> (\<forall>n' \<in> set (children n). ?P (set mid) n')"
  proof (rule collect_sites [OF collect])
    show "set out \<subseteq> set out' \<and> ?P (set out') n'"
      if "n' \<in> set (children n)" "compile_node R c (child_lift n) n' (out, s) = Inr (i, out', s')"
      for n' out s i out' s'
      by (rule less.IH [OF size_expr_child [OF that(1)] that(2)])
    show "?P out' n'" if "?P out n'" "out \<subseteq> out'" for out out' n'
      using that compiled_site_mono by blast
  qed
  moreover have "set mid \<subseteq> set out'" using out' by auto
  ultimately have "set out \<subseteq> set out'" "\<forall>n' \<in> set (children n). ?P (set out') n'"
    using compiled_site_mono by blast+
  with here show ?case by (auto simp: set_sites [of lift n])
qed

section \<open>Conforming records\<close>

definition record_conforms :: "'x ext \<Rightarrow> model_def \<Rightarrow> bool \<Rightarrow> 'x record_view \<Rightarrow> bool" where
  "record_conforms X m null_extended r \<longleftrightarrow>
     (\<forall>f \<in> set (md_fields m). \<exists>d. rv_field r (unat (fd_slot f)) = Inr (Some d) \<and>
        (of_nested_type X (fd_ty f) d \<or> null_extended \<and> d = Null))"

text \<open>Every source has its record; only the record of a nullable source may be null-extended.\<close>

definition context_conforms :: "'x ext \<Rightarrow> bind_context \<Rightarrow> 'x eval_context \<Rightarrow> bool" where
  "context_conforms X c ctx \<longleftrightarrow>
     length (ec_records ctx) = length (bc_models c) \<and> length (ec_null_extended ctx) = length (bc_models c) \<and>
     (\<forall>i < length (bc_models c).
        (ec_null_extended ctx ! i \<longrightarrow> nullable_source c i) \<and>
        record_conforms X (bc_models c ! i) (ec_null_extended ctx ! i) (ec_records ctx ! i))"

lemma conforming_field:
  assumes k: "compile_field c f ty lift = Inr (k :: 'x prepared_kind)" and conforms: "context_conforms X c ctx"
    and models: "\<forall>m \<in> set (bc_models c). model_canonical m"
  shows "sound_site X E (context_valuation c (ctx :: 'x eval_context) ex) lift (ExprNode (EField f) ty)"
proof -
  from k obtain i m b fd where r: "resolve_field c f = Inr (i, m, b)" and fd: "model_field m (fref_key f) = Some fd"
    and ty: "fd_ty fd = ty" and lift: "b \<and> \<not> is_nullable ty \<longrightarrow> lift"
    and kind: "k = PField i (unat (fd_slot fd)) (b \<and> \<not> is_nullable ty \<and> lift)"
    by (auto simp: compile_field_def result_simps split: if_splits)
  from resolved_source [OF r] have i: "i < length (bc_models c)" and m: "m = bc_models c ! i" by simp_all
  from r have b: "b = nullable_source c i" by (simp add: resolve_field_ok)
  from fd models i have "fd \<in> set (md_fields (bc_models c ! i))" by (simp add: model_field_lookup m)
  moreover from conforms i have rec: "record_conforms X (bc_models c ! i) (ec_null_extended ctx ! i) (ec_records ctx ! i)"
    and ne: "ec_null_extended ctx ! i \<longrightarrow> nullable_source c i"
    by (simp_all add: context_conforms_def)
  ultimately obtain d where
    d: "rv_field (ec_records ctx ! i) (unat (fd_slot fd)) = Inr (Some d)"
      "of_nested_type X ty d \<or> ec_null_extended ctx ! i \<and> d = Null"
    unfolding record_conforms_def ty [symmetric] by blast
  have len: "i < length (ec_records ctx)" "i < length (ec_null_extended ctx)"
    using conforms i by (simp_all add: context_conforms_def)
  from k have "val_field (context_valuation c ctx ex) lift f ty =
    Inr (d, null_extended_field ctx (PField i (unat (fd_slot fd)) (b \<and> \<not> is_nullable ty \<and> lift)) d)"
    unfolding kind by (simp add: read_field_def vec_get_def len d)
  with d(2) ne lift b len show ?thesis
    by (auto simp: sound_site_def null_extended_field_def vec_get_def of_nested_type_simps)
qed

section \<open>Prepared expressions do not go wrong\<close>

definition arithmetic_prepared :: "'x prepared_node \<Rightarrow> bool" where
  "arithmetic_prepared n \<longleftrightarrow>
     (case pn_kind n of
        PUnary op i \<Rightarrow> op \<in> {OpNegate, OpAbs} | PBinary op i j \<Rightarrow> arithmetic_op op | _ \<Rightarrow> False)"

definition prepared_codes :: "string set \<Rightarrow> 'x prepared_expression \<Rightarrow> string set" where
  "prepared_codes E p = E \<union> (if \<exists>n \<in> set (pe_nodes p). arithmetic_prepared n then overflow_codes else {})"

text \<open>Every parameter is bound, with a datum of its type; the functions keep their contract.\<close>

definition prepared_site :: "'x ext \<Rightarrow> string set \<Rightarrow> 'x eval_context \<Rightarrow> 'x prepared_node \<Rightarrow> bool" where
  "prepared_site X E ctx n \<longleftrightarrow>
     (case pn_kind n of
        PParameter name \<Rightarrow>
          \<exists>d. map_of (ec_parameters ctx) name = Some \<lparr>bp_ty = pn_ty n, bp_datum = d\<rparr> \<and> of_nested_type X (pn_ty n) d
      | PFunctionCall f is \<Rightarrow> function_contract X E f
      | _ \<Rightarrow> True)"

lemma compiled_sound:
  assumes site: "compiled_site (\<lambda>_ _. Inl e) c (set (pe_nodes p)) k m"
    and conforms: "context_conforms X c ctx" and models: "\<forall>m \<in> set (bc_models c). model_canonical m"
    and sites: "\<forall>n \<in> set (pe_nodes p). prepared_site X E ctx n"
  shows "sound_site X E (context_valuation c (ctx :: 'x eval_context) ex) k m"
proof -
  obtain kind ty where m: "m = ExprNode kind ty" by (cases m)
  show ?thesis
  proof (cases kind)
    case (EField f)
    with site show ?thesis by (auto simp: m compiled_site_def intro: conforming_field [OF _ conforms models])
  next
    case (EParameter name)
    with site have "\<lparr>pn_kind = PParameter name, pn_ty = ty\<rparr> \<in> set (pe_nodes p)" by (simp add: m compiled_site_def)
    with sites have "prepared_site X E ctx \<lparr>pn_kind = PParameter name, pn_ty = ty\<rparr>" by blast
    then show ?thesis by (auto simp: m EParameter sound_site_def prepared_site_def read_parameter_def)
  next
    case (EFunctionCall f as)
    with site obtain js where "\<lparr>pn_kind = PFunctionCall f js, pn_ty = ty\<rparr> \<in> set (pe_nodes p)"
      by (auto simp: m compiled_site_def)
    with sites have "prepared_site X E ctx \<lparr>pn_kind = PFunctionCall f js, pn_ty = ty\<rparr>" by blast
    then show ?thesis by (simp add: m EFunctionCall sound_site_def prepared_site_def)
  qed (use site in \<open>simp_all add: m compiled_site_def sound_site_def\<close>)
qed

lemma compiled_arithmetic:
  assumes "compiled_site R c (set (pe_nodes p)) k m" and "arithmetic_node m"
  shows "\<exists>n \<in> set (pe_nodes p). arithmetic_prepared n"
  using assms
  by (cases "en_kind m") (auto simp: compiled_site_def arithmetic_node_def arithmetic_prepared_def elim!: bexI [rotated])

lemma evaluation_fine:
  assumes valid: "validate_evaluation_scopes p ctx = Inr ()"
    and prepared: "prepare_expression B S Q (node :: ('x, 'q) expr_node) ty c L = Inr p"
    and conforms: "context_conforms (ops_ext S) c ctx" and models: "\<forall>m \<in> set (bc_models c). model_canonical m"
    and sites: "\<forall>n \<in> set (pe_nodes p). prepared_site (ops_ext S) E ctx n"
  shows "fine (ops_ext S) (prepared_codes E p) ty (evaluate_datum S p ctx)"
proof -
  let ?R = "(\<lambda>_ _. Inl exists_001) :: ('q, unit) exists_resolver" and ?ex = "\<lambda>_. Inl eval_112" and ?X = "ops_ext S"
  let ?V = "context_valuation c ctx ?ex"
  from prepared obtain s where "prepare_with_existentials B S Q ?R node ty c L 0 () = Inr (p, s)"
    by (auto simp: prepare_expression_def result_simps)
  then obtain n' :: "('x, 'q) expr_node" where v: "validate_expression_node ?X n' L = Inr ()" and ty: "en_ty n' = ty"
    and compiled: "compile_node ?R c False n' ([], ()) = Inr (pe_root p, pe_nodes p, s)"
    by (rule prepare_Inr)
  have "answers ?R (\<lambda>_. Inl eval_112) ?ex" by (simp add: answers_def)
  from prepared_means [OF compiled this valid] have eval: "evaluate_datum S p ctx = eval_expr S ?V False n'"
    by (simp add: evaluate_datum_def)
  from compile_sites [OF compiled]
  have sites': "\<forall>(k, m) \<in> set (sites False n'). compiled_site ?R c (set (pe_nodes p)) k m" by blast
  have sub: "snd ` set (sites False n') = set (subnodes n')" by (rule sites_subnodes)
  have "\<forall>(k, m) \<in> set (sites False n'). node_ok ?X m \<and> type_wf default_definition_limits (en_ty m) \<and> sound_site ?X E ?V k m"
  proof clarify
    fix k m
    assume km: "(k, m) \<in> set (sites False n')"
    with sub have "m \<in> set (subnodes n')" by (metis image_eqI snd_conv)
    moreover from km sites' have "compiled_site ?R c (set (pe_nodes p)) k m" by blast
    ultimately show "node_ok ?X m \<and> type_wf default_definition_limits (en_ty m) \<and> sound_site ?X E ?V k m"
      using compiled_sound [OF _ conforms models sites] validate_expression_ok [OF v] by blast
  qed
  from validated_sound [OF refl this] have result: "fine ?X (admitted E n') ty (evaluate_datum S p ctx)"
    by (simp add: eval ty)
  have "admitted E n' \<subseteq> prepared_codes E p"
  proof -
    have "\<exists>n \<in> set (pe_nodes p). arithmetic_prepared n" if "m \<in> set (subnodes n')" "arithmetic_node m" for m
    proof -
      from that(1) sub obtain k where "(k, m) \<in> set (sites False n')" by (metis imageE prod.collapse)
      with sites' that(2) compiled_arithmetic show ?thesis by blast
    qed
    then show ?thesis by (auto simp: admitted_def prepared_codes_def)
  qed
  from fine_mono [OF result this] show ?thesis .
qed

section \<open>Membership\<close>

lemma fold_or:
  "foldr (\<lambda>c t. truth_or (g c) t) vs TFalse =
     (if \<exists>c \<in> set vs. g c = TTrue then TTrue else if \<exists>c \<in> set vs. g c = TUnknown then TUnknown else TFalse)"
proof (induction vs)
  case Nil
  then show ?case by simp
next
  case (Cons c vs)
  then show ?case by (cases "g c") auto
qed

lemma membership_kleene:
  "eval_membership X v vs negate = Inr (Value (VTruth
     (let t = foldr (\<lambda>c t. truth_or (equal_truth X v c) t) vs TFalse in if negate then truth_negate t else t)))"
  unfolding fold_or eval_membership_def membership_loop_eq
  by (simp add: truth_datum_def unknown_def Let_def)

end
