(* ===== verification/Write_Laws.thy ===== *)
theory Write_Laws
  imports Write_Op Row_Laws Expr_Safety
begin

text \<open>
  Prepared writes: a canonical conjunction means what the authored one does and is balanced, and a
  prepared update assigns pairwise different slots of its model.
\<close>

section \<open>Conjunctions\<close>

function and_leaves :: "('x, 'q) expr_node \<Rightarrow> ('x, 'q) expr_node list" where
  "and_leaves n =
     (case en_kind n of
        EBinary op l r \<Rightarrow> if op = OpAnd then and_leaves l @ and_leaves r else [n]
      | _ \<Rightarrow> [n])"
  by pat_completeness auto
termination
  by (relation "measure size") (auto dest: size_and)

declare and_leaves.simps [simp del]

definition is_and :: "('x, 'q) expr_node \<Rightarrow> bool" where
  "is_and n \<longleftrightarrow> (\<exists>l r. en_kind n = EBinary OpAnd l r)"

lemma and_leaves_and: "en_kind n = EBinary OpAnd l r \<Longrightarrow> and_leaves n = and_leaves l @ and_leaves r"
  by (simp add: and_leaves.simps [of n])

lemma and_leaves_leaf: "\<not> is_and n \<Longrightarrow> and_leaves n = [n]"
  by (auto simp: and_leaves.simps [of n] is_and_def split: expr_kind.split)

lemma and_node_simps [simp]: "en_kind (and_node l r) = EBinary OpAnd l r" "en_ty (and_node l r) = truth_type_def"
  by (simp_all add: and_node_def)

lemma leaves_loop_leaves: "leaves_loop stack leaves = leaves @ concat (map and_leaves stack)"
proof (induction stack leaves rule: leaves_loop.induct)
  case (1 leaves)
  then show ?case by simp
next
  case (2 n stack leaves)
  show ?case
  proof (cases "is_and n")
    case True
    with 2 show ?thesis by (auto simp: is_and_def and_leaves_and)
  next
    case False
    then have "leaves_loop (n # stack) leaves = leaves_loop stack (leaves @ [n])"
      by (auto simp: is_and_def split: expr_kind.split)
    moreover have "leaves_loop stack (leaves @ [n]) = (leaves @ [n]) @ concat (map and_leaves stack)"
      using 2 False by (cases "en_kind n") (auto simp: is_and_def)
    ultimately show ?thesis by (simp add: and_leaves_leaf [OF False])
  qed
qed

lemma and_leaves_nonempty: "and_leaves n \<noteq> []"
proof (induction n rule: and_leaves.induct)
  case (1 n)
  then show ?case by (cases "is_and n") (auto simp: is_and_def and_leaves_and and_leaves_leaf)
qed

lemma and_leaves_not_and: "leaf \<in> set (and_leaves n) \<Longrightarrow> \<not> is_and leaf"
proof (induction n rule: and_leaves.induct)
  case (1 n)
  then show ?case by (cases "is_and n") (auto simp: is_and_def and_leaves_and and_leaves_leaf)
qed

lemma balance_induct [case_names small pairs]:
  assumes "\<And>ns. length ns \<le> 1 \<Longrightarrow> P ns" and "\<And>ns. 1 < length ns \<Longrightarrow> P (and_pairs ns) \<Longrightarrow> P ns"
  shows "P ns"
  using assms by (induction ns rule: balance.induct) (metis leI)

lemma balance_small: "length ns \<le> 1 \<Longrightarrow> balance ns = ns"
  and balance_pairs: "1 < length ns \<Longrightarrow> balance ns = balance (and_pairs ns)"
  by (simp_all add: balance.simps [of ns])

lemma balance_length: "length (balance ns) = min 1 (length ns)"
proof (induction ns rule: balance_induct)
  case (small ns)
  then show ?case by (simp add: balance_small min_absorb2)
next
  case (pairs ns)
  then show ?case by (simp add: balance_pairs length_and_pairs)
qed

lemma canonical_leaves: "balance (and_leaves (es_node e)) = [es_node (canonical_truth e)]"
proof -
  have "length (balance (and_leaves (es_node e))) = 1"
    using and_leaves_nonempty [of "es_node e"] by (simp add: balance_length Suc_leI min_absorb1)
  then obtain c where "balance (and_leaves (es_node e)) = [c]" by (auto simp: length_Suc_conv)
  then show ?thesis by (simp add: canonical_truth_def leaves_loop_leaves)
qed

text \<open>The canonical form has the same leaves in the same order, and depends on nothing else.\<close>

lemma pairs_leaves: "concat (map and_leaves (and_pairs ns)) = concat (map and_leaves ns)"
  by (induction ns rule: and_pairs.induct) (simp_all add: and_leaves_and)

lemma balance_leaves: "concat (map and_leaves (balance ns)) = concat (map and_leaves ns)"
  by (induction ns rule: balance_induct) (simp_all add: balance_small balance_pairs pairs_leaves)

lemma concat_leaves: "\<forall>n \<in> set ns. \<not> is_and n \<Longrightarrow> concat (map and_leaves ns) = ns"
  by (induction ns) (simp_all add: and_leaves_leaf)

lemma canonical_and_leaves: "and_leaves (es_node (canonical_truth e)) = and_leaves (es_node e)"
proof -
  have "\<forall>m \<in> set (and_leaves (es_node e)). \<not> is_and m" by (simp add: and_leaves_not_and)
  from concat_leaves [OF this] have "concat (map and_leaves (balance (and_leaves (es_node e)))) = and_leaves (es_node e)"
    by (simp only: balance_leaves)
  then show ?thesis by (simp add: canonical_leaves)
qed

lemma canonical_unique:
  assumes "and_leaves (es_node e) = and_leaves (es_node e')"
  shows "canonical_truth e = canonical_truth e'"
proof -
  have "es_node (canonical_truth e) = es_node (canonical_truth e')"
    using canonical_leaves [of e] canonical_leaves [of e'] assms by simp
  moreover have "es_ty (canonical_truth e) = es_ty (canonical_truth e')" by (simp add: canonical_truth_def Let_def)
  ultimately show ?thesis by (rule expression_spec.equality) simp
qed

section \<open>Its meaning\<close>

definition truth_valued :: "'x scalar_ops \<Rightarrow> ('x, 'q) valuation \<Rightarrow> ('x, 'q) expr_node \<Rightarrow> bool" where
  "truth_valued S V n \<longleftrightarrow> (\<forall>d. eval_expr S V False n = Inr d \<longrightarrow> (\<exists>t. d = Value (VTruth t)))"

definition truth_of :: "'x scalar_ops \<Rightarrow> ('x, 'q) valuation \<Rightarrow> ('x, 'q) expr_node \<Rightarrow> truth res" where
  "truth_of S V n = and_then (eval_expr S V False n) as_truth"

text \<open>Conjunctions typed as truth, over leaves that evaluate to truth or fail.\<close>

function conjunction :: "'x scalar_ops \<Rightarrow> ('x, 'q) valuation \<Rightarrow> ('x, 'q) expr_node \<Rightarrow> bool" where
  "conjunction S V n \<longleftrightarrow>
     (case en_kind n of
        EBinary op l r \<Rightarrow>
          if op = OpAnd then en_ty n = truth_type_def \<and> conjunction S V l \<and> conjunction S V r else truth_valued S V n
      | _ \<Rightarrow> truth_valued S V n)"
  by pat_completeness auto
termination
  by (relation "measure (\<lambda>(S, V, n). size n)") (auto dest: size_and)

declare conjunction.simps [simp del]

lemma conjunction_and: "en_kind n = EBinary OpAnd l r \<Longrightarrow>
    conjunction S V n \<longleftrightarrow> en_ty n = truth_type_def \<and> conjunction S V l \<and> conjunction S V r"
  by (simp add: conjunction.simps [of S V n])

lemma conjunction_leaf: "\<not> is_and n \<Longrightarrow> conjunction S V n \<longleftrightarrow> truth_valued S V n"
  by (auto simp: conjunction.simps [of S V n] is_and_def split: expr_kind.split)

definition conjoined :: "'x scalar_ops \<Rightarrow> ('x, 'q) valuation \<Rightarrow> ('x, 'q) expr_node list \<Rightarrow> truth res" where
  "conjoined S V ns = and_then (try_map (truth_of S V) ns) (\<lambda>ts. Inr (foldr truth_and ts TTrue))"

lemma truth_and_TTrue [simp]: "truth_and t TTrue = t" "truth_and TTrue t = t"
  by (cases t; simp)+

lemma conjoined_Cons: "conjoined S V (n # ns) =
    and_then (truth_of S V n) (\<lambda>t. and_then (conjoined S V ns) (\<lambda>u. Inr (truth_and t u)))"
  by (cases "truth_of S V n"; cases "try_map (truth_of S V) ns") (simp_all add: conjoined_def)

lemma conjoined_append: "conjoined S V (ns @ ms) =
    and_then (conjoined S V ns) (\<lambda>t. and_then (conjoined S V ms) (\<lambda>u. Inr (truth_and t u)))"
proof (induction ns)
  case Nil
  then show ?case by (cases "conjoined S V ms") (simp_all add: conjoined_def)
next
  case (Cons n ns)
  then show ?case
    by (cases "truth_of S V n"; cases "conjoined S V ns"; cases "conjoined S V ms")
      (simp_all add: conjoined_Cons truth_lattice(3))
qed

lemma truth_checked: "checked_result X truth_type_def exempt (Value (VTruth t)) = Inr (Value (VTruth t))"
  by (rule checked_result_fine) simp

lemma eval_and:
  assumes "en_kind n = EBinary OpAnd l r" and "en_ty n = truth_type_def" and "truth_valued S V l" and "truth_valued S V r"
  shows "eval_expr S V lift n = and_then (truth_of S V l) (\<lambda>t. and_then (truth_of S V r) (\<lambda>u. Inr (Value (VTruth (truth_and t u)))))"
proof -
  have "eval_expr S V lift n = and_then (eval_expr S V False l) (\<lambda>a. and_then (eval_expr S V False r) (\<lambda>b.
      and_then (truth_binary a b truth_and) (\<lambda>v. checked_result (ops_ext S) truth_type_def False v)))"
    using assms(1,2) by (subst eval_expr.simps) (simp add: plain_def and_then_assoc eval_binary_def)
  then show ?thesis
    using assms(3,4)
    by (cases "eval_expr S V False l"; cases "eval_expr S V False r")
      (auto simp: truth_valued_def truth_of_def truth_binary_def truth_checked as_truth_def)
qed

lemma conjunction_truth_valued: "conjunction S V n \<Longrightarrow> truth_valued S V n"
proof (induction n rule: and_leaves.induct)
  case (1 n)
  show ?case
  proof (cases "is_and n")
    case True
    with 1 show ?thesis
      by (auto simp: is_and_def conjunction_and truth_valued_def [of _ _ n] eval_and result_simps)
  next
    case False
    with 1 show ?thesis by (simp add: conjunction_leaf)
  qed
qed

lemma truth_of_and:
  assumes "en_kind n = EBinary OpAnd l r" and "conjunction S V n"
  shows "truth_of S V n = and_then (truth_of S V l) (\<lambda>t. and_then (truth_of S V r) (\<lambda>u. Inr (truth_and t u)))"
proof -
  have "truth_valued S V l" "truth_valued S V r" "en_ty n = truth_type_def"
    using assms(2) unfolding conjunction_and [OF assms(1)] by (simp_all add: conjunction_truth_valued)
  from eval_and [OF assms(1) this(3,1,2)] show ?thesis
    by (cases "truth_of S V l"; cases "truth_of S V r") (simp_all add: truth_of_def [of S V n] as_truth_def)
qed

lemma truth_of_conjoined: "conjunction S V n \<Longrightarrow> truth_of S V n = conjoined S V (and_leaves n)"
proof (induction n rule: and_leaves.induct)
  case (1 n)
  show ?case
  proof (cases "is_and n")
    case True
    with 1 show ?thesis
      by (auto simp: is_and_def truth_of_and and_leaves_and conjoined_append conjunction_and)
  next
    case False
    then show ?thesis
      by (cases "truth_of S V n") (simp_all add: and_leaves_leaf conjoined_Cons, simp_all add: conjoined_def)
  qed
qed

lemma and_pairs_conjunctions: "\<forall>n \<in> set ns. conjunction S V n \<Longrightarrow> \<forall>n \<in> set (and_pairs ns). conjunction S V n"
  by (induction ns rule: and_pairs.induct) (auto simp: conjunction_and)

lemma balance_conjunctions: "\<forall>n \<in> set ns. conjunction S V n \<Longrightarrow> \<forall>n \<in> set (balance ns). conjunction S V n"
  by (induction ns rule: balance_induct) (simp_all add: balance_small balance_pairs and_pairs_conjunctions)

lemma conjunction_leaves: "conjunction S V n \<Longrightarrow> m \<in> set (and_leaves n) \<Longrightarrow> conjunction S V m"
proof (induction n rule: and_leaves.induct)
  case (1 n)
  show ?case
  proof (cases "is_and n")
    case True
    then obtain l r where n: "en_kind n = EBinary OpAnd l r" by (auto simp: is_and_def)
    from 1(3,4) have "conjunction S V l" "conjunction S V r" "m \<in> set (and_leaves l) \<or> m \<in> set (and_leaves r)"
      unfolding conjunction_and [OF n] and_leaves_and [OF n] by auto
    with 1(1,2) [OF n refl] show ?thesis by blast
  next
    case False
    from 1(4) have "m = n" by (simp add: and_leaves_leaf [OF False])
    with 1(3) show ?thesis by simp
  qed
qed

lemma canonical_conjunction:
  assumes "conjunction S V (es_node e)"
  shows "conjunction S V (es_node (canonical_truth e))"
proof -
  have "\<forall>m \<in> set (and_leaves (es_node e)). conjunction S V m"
    by (intro ballI conjunction_leaves [OF assms])
  from balance_conjunctions [OF this] show ?thesis by (simp add: canonical_leaves)
qed

lemma truth_of_eval:
  assumes "truth_valued S V n"
  shows "eval_expr S V False n = and_then (truth_of S V n) (\<lambda>t. Inr (Value (VTruth t)))"
proof (cases "eval_expr S V False n")
  case (Inl e)
  then show ?thesis by (simp add: truth_of_def)
next
  case (Inr d)
  with assms obtain t where "d = Value (VTruth t)" unfolding truth_valued_def by blast
  with Inr show ?thesis by (simp add: truth_of_def as_truth_def)
qed

lemma canonical_meaning:
  assumes "conjunction S V (es_node e)"
  shows "eval_expr S V False (es_node (canonical_truth e)) = eval_expr S V False (es_node e)"
proof -
  note canonical = canonical_conjunction [OF assms]
  show ?thesis
    unfolding truth_of_eval [OF conjunction_truth_valued [OF assms]] truth_of_eval [OF conjunction_truth_valued [OF canonical]]
      truth_of_conjoined [OF assms] truth_of_conjoined [OF canonical] canonical_and_leaves ..
qed

section \<open>Its depth\<close>

function and_depth :: "('x, 'q) expr_node \<Rightarrow> nat" where
  "and_depth n =
     (case en_kind n of
        EBinary op l r \<Rightarrow> if op = OpAnd then Suc (max (and_depth l) (and_depth r)) else 0
      | _ \<Rightarrow> 0)"
  by pat_completeness auto
termination
  by (relation "measure size") (auto dest: size_and)

declare and_depth.simps [simp del]

lemma and_depth_leaf: "\<not> is_and n \<Longrightarrow> and_depth n = 0"
  by (auto simp: and_depth.simps [of n] is_and_def split: expr_kind.split)

lemma and_pairs_depth: "\<forall>n \<in> set ns. and_depth n \<le> k \<Longrightarrow> \<forall>n \<in> set (and_pairs ns). and_depth n \<le> Suc k"
  by (induction ns rule: and_pairs.induct) (auto simp: and_depth.simps [of "and_node l r" for l r])

lemma balance_depth:
  "\<forall>n \<in> set ns. and_depth n \<le> k \<Longrightarrow> length ns \<le> 2 ^ d \<Longrightarrow> \<forall>n \<in> set (balance ns). and_depth n \<le> k + d"
proof (induction d arbitrary: ns k)
  case 0
  then show ?case by (simp add: balance_small)
next
  case (Suc d)
  show ?case
  proof (cases "1 < length ns")
    case True
    have "length (and_pairs ns) \<le> 2 ^ d" using Suc.prems(2) by (simp add: length_and_pairs)
    from Suc.IH [OF and_pairs_depth [OF Suc.prems(1)] this] True show ?thesis by (simp add: balance_pairs)
  next
    case False
    with Suc.prems show ?thesis by (auto simp: balance_small)
  qed
qed

lemma canonical_depth:
  assumes "length (and_leaves (es_node e)) \<le> 2 ^ d"
  shows "and_depth (es_node (canonical_truth e)) \<le> d"
proof -
  have "\<forall>n \<in> set (and_leaves (es_node e)). and_depth n \<le> 0"
    by (simp add: and_depth_leaf and_leaves_not_and)
  from balance_depth [OF this assms] show ?thesis by (simp add: canonical_leaves)
qed

section \<open>Prepared expressions of writes\<close>

definition is_exists :: "'x prepared_node \<Rightarrow> bool" where
  "is_exists n \<longleftrightarrow> (\<exists>q f. pn_kind n = PExists q f)"

lemma compile_step_no_exists:
  assumes "compile_node (\<lambda>q s. Inl (err q s)) c lift n (out, s) = Inr (i, out', s')"
  shows "\<exists>js mid t. collect_state (compile_node (\<lambda>q s. Inl (err q s)) c (child_lift n)) (children n) (out, s) = Inr (js, mid, t) \<and>
    (\<forall>x \<in> set out'. is_exists x \<longrightarrow> x \<in> set mid)"
proof -
  obtain kind ty where n: "n = ExprNode kind ty" by (cases n)
  note simps = n compile_simps result_simps child_lift_def push_node_def is_exists_def
  from assms show ?thesis
  proof (cases kind)
    case (EBinary op left right)
    with assms show ?thesis by (fastforce simp: simps)
  next
    case (EField f)
    with assms show ?thesis by (auto simp: simps dest!: compile_field_kind)
  qed (auto simp: simps)
qed

lemma collect_no_exists:
  assumes "collect_state f ns (out, s) = Inr (is, out', s')"
    and "\<And>n out s i out' s'. n \<in> set ns \<Longrightarrow> f n (out, s) = Inr (i, out', s') \<Longrightarrow> \<forall>x \<in> set out'. is_exists x \<longrightarrow> x \<in> set out"
  shows "\<forall>x \<in> set out'. is_exists x \<longrightarrow> x \<in> set out"
  using assms
proof (induction ns arbitrary: out s "is")
  case Nil
  then show ?case by simp
next
  case (Cons n ns)
  from Cons.prems(1) obtain i out1 s1 js where first: "f n (out, s) = Inr (i, out1, s1)"
    and others: "collect_state f ns (out1, s1) = Inr (js, out', s')" by (auto simp: result_simps)
  have "\<forall>x \<in> set out'. is_exists x \<longrightarrow> x \<in> set out1"
    by (rule Cons.IH [OF others]) (rule Cons.prems(2), simp_all)
  moreover have "\<forall>x \<in> set out1. is_exists x \<longrightarrow> x \<in> set out" by (rule Cons.prems(2) [OF _ first]) simp
  ultimately show ?case by blast
qed

lemma compile_no_exists:
  "compile_node (\<lambda>q s. Inl (err q s)) c lift n (out, s) = Inr (i, out', s') \<Longrightarrow>
    \<forall>x \<in> set out'. is_exists x \<longrightarrow> x \<in> set out"
proof (induction n arbitrary: lift out s i out' s' rule: measure_induct_rule [where f = size])
  case (less n)
  from compile_step_no_exists [OF less.prems] obtain js mid t
    where collect: "collect_state (compile_node (\<lambda>q s. Inl (err q s)) c (child_lift n)) (children n) (out, s) = Inr (js, mid, t)"
      and out': "\<forall>x \<in> set out'. is_exists x \<longrightarrow> x \<in> set mid" by blast
  have "\<forall>x \<in> set mid. is_exists x \<longrightarrow> x \<in> set out"
    by (rule collect_no_exists [OF collect]) (erule less.IH [OF size_expr_child])
  with out' show ?case by auto
qed

definition local_expression :: "'x prepared_expression \<Rightarrow> bool" where
  "local_expression p \<longleftrightarrow> list_all (\<lambda>n. \<not> is_exists n) (pe_nodes p) \<and> pe_outer_scope_count p = 0"

lemma prepare_expression_local:
  fixes node :: "('x, 'q) expr_node"
  assumes "prepare_expression B S Q node ty c L = Inr p"
  shows "local_expression p \<and> pe_ty p = ty"
proof -
  from assms have prep: "prepare_with_existentials B S Q (\<lambda>_ _. Inl exists_001) node ty c L 0 () = Inr (p, ())"
    by (auto simp: prepare_expression_def result_simps)
  obtain normalized :: "('x, 'q) expr_node"
    where "pe_ty p = ty" and "compile_node (\<lambda>_ _. Inl exists_001) c False normalized ([], ()) = Inr (pe_root p, pe_nodes p, ())"
    by (rule prepare_Inr [OF prep]) (rule that)
  with compile_no_exists [of "\<lambda>_ _. exists_001" c False normalized "[]" "()"]
  have "list_all (\<lambda>n. \<not> is_exists n) (pe_nodes p)" "pe_ty p = ty" by (auto simp: list_all_iff)
  moreover from prep have "pe_outer_scope_count p = 0"
    by (auto simp: prepare_with_existentials_def result_simps split: if_splits)
  ultimately show ?thesis by (simp add: local_expression_def)
qed

section \<open>Prepared updates\<close>

lemma assignments_loop_ok:
  assumes "assignments_loop B S Q m previous as = Inr ps" and "sorted (map as_field as)"
    and "\<forall>f \<in> set_option previous. \<forall>a \<in> set as. f \<le> as_field a"
  shows "list_all2 (\<lambda>a p. prepare_assignment B S Q m a = Inr p) as ps \<and> distinct (map as_field as) \<and>
    (\<forall>f \<in> set_option previous. f \<notin> set (map as_field as))"
  using assms
proof (induction as arbitrary: previous ps)
  case Nil
  then show ?case by simp
next
  case (Cons a as)
  from Cons.prems(1) obtain p ps' where p: "prepare_assignment B S Q m a = Inr p"
    and ps': "assignments_loop B S Q m (Some (as_field a)) as = Inr ps'" "ps = p # ps'" and new: "previous \<noteq> Some (as_field a)"
    by (auto simp: result_simps split: if_splits)
  have "list_all2 (\<lambda>a p. prepare_assignment B S Q m a = Inr p) as ps' \<and> distinct (map as_field as) \<and>
    (\<forall>f \<in> set_option (Some (as_field a)). f \<notin> set (map as_field as))"
    by (rule Cons.IH [OF ps'(1)]) (use Cons.prems(2) in auto)
  moreover have "f \<notin> set (map as_field (a # as))" if "previous = Some f" for f
  proof
    assume "f \<in> set (map as_field (a # as))"
    with Cons.prems(2) have "as_field a \<le> f" by auto
    moreover have "f \<le> as_field a" using Cons.prems(3) that by simp
    ultimately have "f = as_field a" by simp
    with new that show False by simp
  qed
  ultimately show ?case using p ps'(2) by auto
qed

text \<open>What preparation makes of an assignment.\<close>

definition assignment_ok :: "model_def \<Rightarrow> 'x prepared_assignment \<Rightarrow> bool" where
  "assignment_ok m p \<longleftrightarrow>
     pa_field p < length (md_fields m) \<and> pa_key p = fd_key (md_fields m ! pa_field p) \<and>
     pe_ty (pa_expression p) = fd_ty (md_fields m ! pa_field p) \<and> local_expression (pa_expression p)"

lemma prepare_assignment_ok:
  assumes "model_canonical m" and "prepare_assignment B S Q m a = Inr p"
  shows "assignment_ok m p \<and> pa_key p = as_field a"
proof -
  from assms(2) obtain f e where f: "model_field m (as_field a) = Some f" and e: "prepare_spec B S Q (bind_single m) (as_value a) = Inr e"
    and ty: "fd_ty f = as_ty a" "pe_ty e = as_ty a" and p: "p = \<lparr>pa_field = slot_index f, pa_key = fd_key f, pa_expression = e\<rparr>"
    by (auto simp: prepare_assignment_def result_simps split: if_splits)
  from f have "f \<in> set (md_fields m)" "fd_key f = as_field a" by (simp_all add: model_field_lookup [OF assms(1)])
  with canonical_field [OF assms(1)] prepare_expression_local [OF e [unfolded prepare_spec_def]] ty
  show ?thesis by (simp add: assignment_ok_def p)
qed

definition update_prepared :: "model_def \<Rightarrow> bool \<Rightarrow> 'x prepared_update \<Rightarrow> bool" where
  "update_prepared m all p \<longleftrightarrow>
     pu_assignments p \<noteq> [] \<and> distinct (map pa_field (pu_assignments p)) \<and>
     (\<forall>a \<in> set (pu_assignments p). assignment_ok m a) \<and>
     (pu_condition p = None \<longleftrightarrow> all) \<and> (\<forall>c. pu_condition p = Some c \<longrightarrow> local_expression c)"

lemma prepare_condition_ok:
  "prepare_condition B S Q c condition all = Inr r \<Longrightarrow>
    (r = None \<longleftrightarrow> all) \<and> (condition = None \<longleftrightarrow> all) \<and> (\<forall>p. r = Some p \<longrightarrow> local_expression p)"
  by (auto simp: prepare_condition_def result_simps prepare_spec_def dest: prepare_expression_local
      split: option.splits if_splits)

lemma prepare_update_ok:
  assumes "prepare_update B S Q (Inr m) u all = Inr p" and "model_canonical m"
  shows "update_prepared m all p"
proof -
  from assms(1) obtain ps where ps: "assignments_loop B S Q m None (sort_key as_field (up_assignments u)) = Inr ps"
    and nonempty: "up_assignments u \<noteq> []" and c: "prepare_condition B S Q (bind_single m) (up_condition u) all = Inr (pu_condition p)"
    and p: "pu_assignments p = ps"
    by (auto simp: prepare_update_def result_simps split: if_splits)
  let ?as = "sort_key as_field (up_assignments u)"
  from assignments_loop_ok [OF ps] have all2: "list_all2 (\<lambda>a p. prepare_assignment B S Q m a = Inr p) ?as ps"
    and fields: "distinct (map as_field ?as)" by auto
  have each: "list_all2 (\<lambda>a p. assignment_ok m p \<and> pa_key p = as_field a) ?as ps"
    by (rule list_all2_mono [OF all2]) (rule prepare_assignment_ok [OF assms(2)])
  then have keys: "map pa_key ps = map as_field ?as" and ok: "\<forall>a \<in> set ps. assignment_ok m a"
    by (auto simp: list_all2_conv_all_nth list_eq_iff_nth_eq in_set_conv_nth)
  have "ps \<noteq> []"
  proof
    assume "ps = []"
    with each have "length ?as = 0" by simp
    with nonempty show False by (simp only: length_sort length_0_conv)
  qed
  moreover have "distinct (map pa_field ps)"
  proof -
    have "map pa_key ps = map (\<lambda>i. fd_key (md_fields m ! i)) (map pa_field ps)"
      using ok by (auto simp: assignment_ok_def)
    with keys fields show ?thesis by (metis distinct_map)
  qed
  ultimately show ?thesis
    using prepare_condition_ok [OF c] ok by (auto simp: update_prepared_def p)
qed

text \<open>The order in which different fields are assigned does not matter.\<close>

lemma prepare_update_order:
  assumes "mset (up_assignments u) = mset (up_assignments v)" and "up_condition u = up_condition v"
    and "distinct (map as_field (up_assignments u))"
  shows "prepare_update B S Q model u all = prepare_update B S Q model v all"
proof -
  have "sort_key as_field (up_assignments u) = sort_key as_field (up_assignments v)"
    using assms by (intro sort_key_inj_key_eq) (simp_all add: distinct_map)
  moreover have "up_assignments u = [] \<longleftrightarrow> up_assignments v = []" using assms(1) by (metis mset_zero_iff)
  ultimately show ?thesis using assms(2) by (simp add: prepare_update_def)
qed

end
