(* ===== verification/Memory_Store.thy ===== *)
theory Memory_Store
  imports Row Model_Laws
begin

text \<open>
  \<open>store.rs\<close> of the memory engine: registered models with their rows, and the validation of a whole
  store, local constraints of every table and references between them.
\<close>

section \<open>Tables\<close>

record 'x memory_table =
  mt_model :: model_def
  mt_rows :: "'x dyn_row list"

type_synonym 'x tables = "(string, 'x memory_table) btree"

definition memory_store_001 :: "string \<Rightarrow> diagnostic" where
  "memory_store_001 key = diagnostic_error ''MEMORY-STORE-001'' (''model `'' @ key @ ''` is already registered'')"
definition memory_store_002 :: "string \<Rightarrow> diagnostic" where
  "memory_store_002 key = diagnostic_error ''MEMORY-STORE-002''
     (''model `'' @ key @ ''` is already registered with different semantics'')"
definition memory_reference_001 :: "string \<Rightarrow> diagnostic" where
  "memory_reference_001 key = diagnostic_error ''MEMORY-REFERENCE-001''
     (''reference target model `'' @ key @ ''` is not registered'')"
definition memory_reference_002 :: "string \<Rightarrow> string \<Rightarrow> diagnostic" where
  "memory_reference_002 source tgt = diagnostic_error ''MEMORY-REFERENCE-002''
     (''model `'' @ source @ ''` contains a reference with no matching `'' @ tgt @ ''` row'')"
definition memory_reference_003 :: diagnostic where
  "memory_reference_003 = diagnostic_error ''MEMORY-REFERENCE-003''
     ''reference constraint contains an unavailable field''"
definition memory_reference_004 :: diagnostic where
  "memory_reference_004 = diagnostic_error ''MEMORY-REFERENCE-004''
     ''runtime row does not expose a referenced field slot''"

definition load_dynamic :: "digest \<Rightarrow> 'x ext \<Rightarrow> model_def \<Rightarrow> 'x dyn_row list \<Rightarrow> 'x tables \<Rightarrow> 'x tables res" where
  "load_dynamic B X m rows tables =
     and_then (validate_dynamic_dataset B X m rows) (\<lambda>_.
       if map_of tables (md_key m) \<noteq> None then Inl (memory_store_001 (md_key m))
       else Inr (btree_insert (md_key m) \<lparr>mt_model = m, mt_rows = rows\<rparr> tables))"

definition load_dataset :: "digest \<Rightarrow> 'x ext \<Rightarrow> model_def res \<Rightarrow> 'x record_view list \<Rightarrow> 'x tables \<Rightarrow> 'x tables res" where
  "load_dataset B X model records tables =
     and_then model (\<lambda>m.
     and_then (validate_dataset B X m records) (\<lambda>_.
     and_then (try_map (row_from_record X) records) (\<lambda>rows. load_dynamic B X m rows tables)))"

definition register_definition :: "digest \<Rightarrow> model_def \<Rightarrow> 'x tables \<Rightarrow> 'x tables res" where
  "register_definition B m tables =
     (case map_of tables (md_key m) of
        Some existing \<Rightarrow>
          if fingerprint_model B (mt_model existing) = fingerprint_model B m then Inr tables
          else Inl (memory_store_002 (md_key m))
      | None \<Rightarrow> Inr (btree_insert (md_key m) \<lparr>mt_model = m, mt_rows = []\<rparr> tables))"

definition register_model :: "digest \<Rightarrow> model_def res \<Rightarrow> 'x tables \<Rightarrow> 'x tables res" where
  "register_model B model tables = and_then model (\<lambda>m. register_definition B m tables)"

section \<open>References\<close>

fun reference_values :: "'x record_view \<Rightarrow> model_def \<Rightarrow> bool \<Rightarrow> string list \<Rightarrow> 'x datum list option res" where
  "reference_values record m skip_absent [] = Inr (Some [])"
| "reference_values record m skip_absent (k # ks) =
     and_then (ok_or (model_field m k) memory_reference_003) (\<lambda>f.
     and_then (and_then (rv_field record (slot_index f)) (\<lambda>d. ok_or d memory_reference_004)) (\<lambda>d.
       if skip_absent \<and> is_absent d then Inr None
       else and_then (reference_values record m skip_absent ks) (\<lambda>vs. Inr (map_option ((#) d) vs))))"

fun find_target :: "'x ext \<Rightarrow> model_def \<Rightarrow> string list \<Rightarrow> 'x datum list \<Rightarrow> 'x dyn_row list \<Rightarrow> bool res" where
  "find_target X m ks source_values [] = Inr False"
| "find_target X m ks source_values (row # rows) =
     and_then (reference_values (row_view row) m False ks) (\<lambda>vs.
       case vs of
         None \<Rightarrow> find_target X m ks source_values rows
       | Some target_values \<Rightarrow>
           if vec_equal (map (datum_eq X) source_values) target_values then Inr True
           else find_target X m ks source_values rows)"

definition validate_reference_row :: "'x ext \<Rightarrow> 'x memory_table \<Rightarrow> 'x memory_table \<Rightarrow> reference_def \<Rightarrow> 'x dyn_row \<Rightarrow>
    unit res" where
  "validate_reference_row X source tgt r row =
     and_then (reference_values (row_view row) (mt_model source) True (ref_source_fields r)) (\<lambda>vs.
       case vs of
         None \<Rightarrow> Inr ()
       | Some source_values \<Rightarrow>
           and_then (find_target X (mt_model tgt) (ref_target_fields r) source_values (mt_rows tgt)) (\<lambda>found.
             if found then Inr ()
             else Inl (memory_reference_002 (md_key (mt_model source)) (md_key (mt_model tgt)))))"

definition validate_reference_rows :: "'x ext \<Rightarrow> 'x tables \<Rightarrow> 'x memory_table \<Rightarrow> reference_def \<Rightarrow> unit res" where
  "validate_reference_rows X tables source r =
     and_then (ok_or (map_of tables (ref_target_model r)) (memory_reference_001 (ref_target_model r))) (\<lambda>tgt.
       try_all (validate_reference_row X source tgt r) (mt_rows source))"

definition validate_store_references :: "'x ext \<Rightarrow> 'x tables \<Rightarrow> unit res" where
  "validate_store_references X tables =
     try_all (\<lambda>source. try_all (validate_reference_rows X tables source) (md_references (mt_model source)))
       (map snd tables)"

definition validate_tables :: "digest \<Rightarrow> 'x ext \<Rightarrow> 'x tables \<Rightarrow> unit res" where
  "validate_tables B X tables =
     and_then (model_set_new (map (\<lambda>t. mt_model (snd t)) tables)) (\<lambda>_.
     and_then (try_all (\<lambda>t. validate_dynamic_dataset B X (mt_model t) (mt_rows t)) (map snd tables)) (\<lambda>_.
       validate_store_references X tables))"

end
