(* ===== verification/Memory_Write.thy ===== *)
theory Memory_Write
  imports Memory_Store Write_Op
begin

text \<open>
  \<open>write.rs\<close> of the memory engine: a logical write is applied in place and undone when it, or the check
  that follows it, fails. Every operation returns the tables it leaves behind beside its result, on
  errors too. The clock is an argument: what \<open>elapsed()\<close> gives at the first, second, \<dots> check.
\<close>

section \<open>Limits\<close>

record write_limits =
  wl_max_affected_rows :: "nat option"
  wl_max_concurrency :: nat
  wl_timeout :: "nat option"

definition default_write_limits :: write_limits where
  "default_write_limits = \<lparr>wl_max_affected_rows = Some 100000, wl_max_concurrency = 8, wl_timeout = None\<rparr>"

definition engine_limit_003 :: diagnostic where
  "engine_limit_003 = diagnostic_error ''ENGINE-LIMIT-003'' ''write concurrency limit must be greater than zero''"
definition engine_limit_004 :: diagnostic where
  "engine_limit_004 = diagnostic_error ''ENGINE-LIMIT-004''
     ''memory write exceeded the configured affected-row limit''"
definition engine_limit_006 :: diagnostic where
  "engine_limit_006 = diagnostic_error ''ENGINE-LIMIT-006'' ''memory write exceeded the configured timeout''"
definition memory_write_001 :: "string \<Rightarrow> diagnostic" where
  "memory_write_001 key = diagnostic_error ''MEMORY-WRITE-001'' (''model `'' @ key @ ''` is not registered'')"
definition memory_write_002 :: diagnostic where
  "memory_write_002 = diagnostic_error ''MEMORY-WRITE-002''
     ''logical write model differs from the registered memory model''"
definition memory_write_003 :: diagnostic where
  "memory_write_003 = diagnostic_error ''MEMORY-WRITE-003''
     ''write filters cannot contain pipeline existential/correlation dependencies''"
definition memory_write_004 :: diagnostic where
  "memory_write_004 = diagnostic_error ''MEMORY-WRITE-004'' ''logical write filter did not evaluate to DOL truth''"

definition write_limits_validate :: "write_limits \<Rightarrow> unit res" where
  "write_limits_validate L = (if wl_max_concurrency L = 0 then Inl engine_limit_003 else Inr ())"

type_synonym clock = "nat \<Rightarrow> nat"

definition check_timeout :: "write_limits \<Rightarrow> clock \<Rightarrow> nat \<Rightarrow> unit res" where
  "check_timeout L clock k =
     (case wl_timeout L of
        Some timeout \<Rightarrow> if clock k > timeout then Inl engine_limit_006 else Inr ()
      | None \<Rightarrow> Inr ())"

definition enforce_affected_limit :: "write_limits \<Rightarrow> nat \<Rightarrow> unit res" where
  "enforce_affected_limit L affected =
     (case wl_max_affected_rows L of
        Some max_rows \<Rightarrow> if affected > max_rows then Inl engine_limit_004 else Inr ()
      | None \<Rightarrow> Inr ())"

section \<open>Selection\<close>

definition row_context :: "'x parameters \<Rightarrow> 'x dyn_row \<Rightarrow> 'x eval_context" where
  "row_context ps row = (eval_context_single (row_view row))\<lparr>ec_parameters := ps\<rparr>"

definition existential_dependencies :: "'x prepared_expression \<Rightarrow> nat list" where
  "existential_dependencies p =
     List.map_filter (\<lambda>n. case pn_kind n of PExists subquery f \<Rightarrow> Some subquery | _ \<Rightarrow> None) (pe_nodes p)"

definition selected :: "'x scalar_ops \<Rightarrow> 'x prepared_expression option \<Rightarrow> 'x parameters \<Rightarrow> 'x dyn_row \<Rightarrow> bool res" where
  "selected S condition ps row =
     (case condition of
        None \<Rightarrow> Inr True
      | Some c \<Rightarrow>
          if existential_dependencies c \<noteq> [] \<or> pe_outer_scope_count c \<noteq> 0 then Inl memory_write_003
          else and_then (evaluate_datum S c (row_context ps row)) (\<lambda>d.
            case d of Value (VTruth t) \<Rightarrow> Inr (t = TTrue) | _ \<Rightarrow> Inl memory_write_004))"

section \<open>Updates in place\<close>

text \<open>\<open>row.set_field(...)?\<close> for each assignment and value; the row keeps what was set before an error.\<close>

fun assign_fields :: "'x ext \<Rightarrow> (nat \<times> 'x datum) list \<Rightarrow> 'x dyn_row \<Rightarrow> 'x dyn_row \<times> unit res" where
  "assign_fields X [] row = (row, Inr ())"
| "assign_fields X ((slot, d) # as) row =
     (case row_set_field X slot d row of
        Inl e \<Rightarrow> (row, Inl e)
      | Inr row' \<Rightarrow> assign_fields X as row')"

definition assigned_values :: "'x scalar_ops \<Rightarrow> 'x prepared_assignment list \<Rightarrow> 'x parameters \<Rightarrow> 'x dyn_row \<Rightarrow>
    'x datum list res" where
  "assigned_values S as ps row = try_map (\<lambda>a. evaluate_datum S (pa_expression a) (row_context ps row)) as"

text \<open>One iteration of the loop, with the number \<open>k\<close> of its check of the clock.\<close>

definition update_row :: "'x scalar_ops \<Rightarrow> write_limits \<Rightarrow> clock \<Rightarrow> 'x logical_update \<Rightarrow> 'x parameters \<Rightarrow> nat \<Rightarrow> nat \<Rightarrow>
    'x dyn_row \<Rightarrow> 'x dyn_row \<times> nat res" where
  "update_row S L clock w ps k affected row =
     (case and_then (check_timeout L clock k) (\<lambda>_. selected S (lu_condition w) ps row) of
        Inl e \<Rightarrow> (row, Inl e)
      | Inr False \<Rightarrow> (row, Inr affected)
      | Inr True \<Rightarrow>
          (let affected' = saturating_add_usize affected 1 in
           case and_then (enforce_affected_limit L affected') (\<lambda>_. assigned_values S (lu_assignments w) ps row) of
             Inl e \<Rightarrow> (row, Inl e)
           | Inr vs \<Rightarrow>
               (case assign_fields (ops_ext S) (zip (map pa_field (lu_assignments w)) vs) row of
                  (row', Inl e) \<Rightarrow> (row', Inl e)
                | (row', Inr _) \<Rightarrow> (row', Inr affected'))))"

fun update_rows :: "'x scalar_ops \<Rightarrow> write_limits \<Rightarrow> clock \<Rightarrow> 'x logical_update \<Rightarrow> 'x parameters \<Rightarrow> nat \<Rightarrow> nat \<Rightarrow>
    'x dyn_row list \<Rightarrow> 'x dyn_row list \<times> nat res" where
  "update_rows S L clock w ps k affected [] = ([], Inr affected)"
| "update_rows S L clock w ps k affected (row # rows) =
     (case update_row S L clock w ps k affected row of
        (row', Inl e) \<Rightarrow> (row' # rows, Inl e)
      | (row', Inr affected') \<Rightarrow>
          (case update_rows S L clock w ps (Suc k) affected' rows of (rows', r) \<Rightarrow> (row' # rows', r)))"

section \<open>Deletes\<close>

fun selected_rows :: "'x scalar_ops \<Rightarrow> write_limits \<Rightarrow> clock \<Rightarrow> 'x logical_delete \<Rightarrow> 'x parameters \<Rightarrow> nat \<Rightarrow>
    'x dyn_row list \<Rightarrow> bool list res" where
  "selected_rows S L clock w ps k [] = Inr []"
| "selected_rows S L clock w ps k (row # rows) =
     and_then (check_timeout L clock k) (\<lambda>_.
     and_then (selected S (ld_condition w) ps row) (\<lambda>b.
     and_then (selected_rows S L clock w ps (Suc k) rows) (\<lambda>bs. Inr (b # bs))))"

text \<open>\<open>retain(|_| !selected.next().unwrap_or(false))\<close>.\<close>

fun retain_unselected :: "bool list \<Rightarrow> 'a list \<Rightarrow> 'a list" where
  "retain_unselected bs [] = []"
| "retain_unselected [] (x # xs) = x # retain_unselected [] xs"
| "retain_unselected (b # bs) (x # xs) = (if b then retain_unselected bs xs else x # retain_unselected bs xs)"

section \<open>Writes\<close>

definition table_mut :: "digest \<Rightarrow> 'x tables \<Rightarrow> model_def \<Rightarrow> 'x memory_table res" where
  "table_mut B tables m =
     and_then (ok_or (map_of tables (md_key m)) (memory_write_001 (md_key m))) (\<lambda>t.
       if fingerprint_model B (mt_model t) \<noteq> fingerprint_model B m then Inl memory_write_002 else Inr t)"

text \<open>What a write to the rows behind \<open>table_mut\<close> does to the tables.\<close>

definition put_rows :: "model_def \<Rightarrow> 'x memory_table \<Rightarrow> 'x dyn_row list \<Rightarrow> 'x tables \<Rightarrow> 'x tables" where
  "put_rows m t rows tables = btree_insert (md_key m) (t\<lparr>mt_rows := rows\<rparr>) tables"

text \<open>The checks after the rows have changed.\<close>

definition finish_write :: "digest \<Rightarrow> 'x ext \<Rightarrow> write_limits \<Rightarrow> clock \<Rightarrow> nat \<Rightarrow> 'x memory_table \<Rightarrow> 'x dyn_row list \<Rightarrow> nat \<Rightarrow>
    nat res" where
  "finish_write B X L clock k t rows affected =
     and_then (validate_dynamic_dataset B X (mt_model t) rows) (\<lambda>_.
     and_then (check_timeout L clock k) (\<lambda>_. Inr affected))"

definition apply_insert :: "digest \<Rightarrow> 'x ext \<Rightarrow> write_limits \<Rightarrow> clock \<Rightarrow> model_def \<Rightarrow> 'x dyn_row list \<Rightarrow> 'x tables \<Rightarrow>
    'x tables \<times> nat res" where
  "apply_insert B X L clock m rows tables =
     (case enforce_affected_limit L (length rows) of
        Inl e \<Rightarrow> (tables, Inl e)
      | Inr _ \<Rightarrow>
          (case register_definition B m tables of
             Inl e \<Rightarrow> (tables, Inl e)
           | Inr tables' \<Rightarrow>
               (case table_mut B tables' m of
                  Inl e \<Rightarrow> (tables', Inl e)
                | Inr t \<Rightarrow>
                    (put_rows m t (mt_rows t @ rows) tables',
                     finish_write B X L clock 1 t (mt_rows t @ rows) (length rows)))))"

definition apply_update :: "digest \<Rightarrow> 'x scalar_ops \<Rightarrow> write_limits \<Rightarrow> clock \<Rightarrow> 'x logical_update \<Rightarrow> 'x parameters \<Rightarrow>
    'x tables \<Rightarrow> 'x tables \<times> nat res" where
  "apply_update B S L clock w ps tables =
     (case table_mut B tables (lu_model w) of
        Inl e \<Rightarrow> (tables, Inl e)
      | Inr t \<Rightarrow>
          (case update_rows S L clock w ps 1 0 (mt_rows t) of
             (rows, Inl e) \<Rightarrow> (put_rows (lu_model w) t rows tables, Inl e)
           | (rows, Inr affected) \<Rightarrow>
               (put_rows (lu_model w) t rows tables,
                finish_write B (ops_ext S) L clock (Suc (length (mt_rows t))) t rows affected)))"

definition apply_delete :: "digest \<Rightarrow> 'x scalar_ops \<Rightarrow> write_limits \<Rightarrow> clock \<Rightarrow> 'x logical_delete \<Rightarrow> 'x parameters \<Rightarrow>
    'x tables \<Rightarrow> 'x tables \<times> nat res" where
  "apply_delete B S L clock w ps tables =
     (case table_mut B tables (ld_model w) of
        Inl e \<Rightarrow> (tables, Inl e)
      | Inr t \<Rightarrow>
          (case and_then (selected_rows S L clock w ps 1 (mt_rows t)) (\<lambda>bs.
                  and_then (enforce_affected_limit L (length (filter id bs))) (\<lambda>_. Inr bs)) of
             Inl e \<Rightarrow> (tables, Inl e)
           | Inr bs \<Rightarrow>
               (let rows = retain_unselected bs (mt_rows t) in
                (put_rows (ld_model w) t rows tables,
                 finish_write B (ops_ext S) L clock (Suc (length (mt_rows t))) t rows (length (filter id bs))))))"

definition apply_write :: "digest \<Rightarrow> 'x scalar_ops \<Rightarrow> write_limits \<Rightarrow> clock \<Rightarrow> 'x parameters \<Rightarrow> 'x logical_write \<Rightarrow>
    'x tables \<Rightarrow> 'x tables \<times> nat res" where
  "apply_write B S L clock ps w tables =
     (case check_timeout L clock 0 of
        Inl e \<Rightarrow> (tables, Inl e)
      | Inr _ \<Rightarrow>
          (case w of
             LInsert w \<Rightarrow> apply_insert B (ops_ext S) L clock (li_model w) [li_row w] tables
           | LInsertMany w \<Rightarrow> apply_insert B (ops_ext S) L clock (lm_model w) (lm_rows w) tables
           | LUpdate w \<Rightarrow> apply_update B S L clock w ps tables
           | LDelete w \<Rightarrow> apply_delete B S L clock w ps tables))"

section \<open>Atomicity\<close>

definition btree_remove :: "'k \<Rightarrow> ('k, 'v) btree \<Rightarrow> ('k, 'v) btree" where
  "btree_remove k m = filter (\<lambda>e. fst e \<noteq> k) m"

definition restore_table :: "string \<Rightarrow> 'x memory_table option \<Rightarrow> 'x tables \<Rightarrow> 'x tables" where
  "restore_table key previous tables =
     (case previous of Some t \<Rightarrow> btree_insert key t tables | None \<Rightarrow> btree_remove key tables)"

definition apply_atomic_write :: "digest \<Rightarrow> 'x scalar_ops \<Rightarrow> write_limits \<Rightarrow> clock \<Rightarrow> 'x parameters \<Rightarrow>
    ('x tables \<Rightarrow> unit res) \<Rightarrow> 'x logical_write \<Rightarrow> 'x tables \<Rightarrow> 'x tables \<times> nat res" where
  "apply_atomic_write B S L clock ps validate w tables =
     (let key = md_key (write_model w); previous = map_of tables key in
      case apply_write B S L clock ps w tables of
        (tables', Inl e) \<Rightarrow> (restore_table key previous tables', Inl e)
      | (tables', Inr outcome) \<Rightarrow>
          (case validate tables' of
             Inl e \<Rightarrow> (restore_table key previous tables', Inl e)
           | Inr _ \<Rightarrow> (tables', Inr outcome)))"

end
