(* ===== verification/Engine_Capability.thy ===== *)
theory Engine_Capability
  imports Types
begin

text \<open>
  \<open>capability/mod.rs\<close> of \<open>dol-engine\<close>: what an engine declares it executes exactly; and its caches.
\<close>

datatype support = ExactNative | ExactEmulated | Unsupported string

fun is_supported :: "support \<Rightarrow> bool" where
  "is_supported (Unsupported reason) = False"
| "is_supported s = True"

fun is_native :: "support \<Rightarrow> bool" where
  "is_native ExactNative = True"
| "is_native s = False"

fun support_reason :: "support \<Rightarrow> string option" where
  "support_reason (Unsupported reason) = Some reason"
| "support_reason s = None"

record pipeline_capabilities =
  pc_source :: support
  pc_filter :: support
  pc_project :: support
  pc_aggregate :: support
  pc_unnest :: support
  pc_window :: support
  pc_sort :: support
  pc_distinct :: support
  pc_slice :: support
  pc_join :: support
  pc_set :: support
  pc_exists :: support

definition uniform_pipeline :: "support \<Rightarrow> pipeline_capabilities" where
  "uniform_pipeline s =
     \<lparr>pc_source = s, pc_filter = s, pc_project = s, pc_aggregate = s, pc_unnest = s, pc_window = s, pc_sort = s,
      pc_distinct = s, pc_slice = s, pc_join = s, pc_set = s, pc_exists = s\<rparr>"

definition default_pipeline_capabilities :: pipeline_capabilities where
  "default_pipeline_capabilities = uniform_pipeline (Unsupported ''pipeline capability is not implemented'')"

record write_capabilities =
  wc_insert :: support
  wc_insert_many :: support
  wc_update :: support
  wc_delete :: support

definition default_write_capabilities :: write_capabilities where
  "default_write_capabilities =
     (let s = Unsupported ''write capability is not implemented''
      in \<lparr>wc_insert = s, wc_insert_many = s, wc_update = s, wc_delete = s\<rparr>)"

record transaction_capabilities =
  tc_transactions :: support
  tc_atomic_writes :: support
  tc_referential_integrity :: support

definition default_transaction_capabilities :: transaction_capabilities where
  "default_transaction_capabilities =
     (let s = Unsupported ''transaction capability is not implemented''
      in \<lparr>tc_transactions = s, tc_atomic_writes = s, tc_referential_integrity = s\<rparr>)"

record capabilities =
  ca_pipeline :: pipeline_capabilities
  ca_writes :: write_capabilities
  ca_transaction :: transaction_capabilities

definition default_capabilities :: capabilities where
  "default_capabilities =
     \<lparr>ca_pipeline = default_pipeline_capabilities, ca_writes = default_write_capabilities,
      ca_transaction = default_transaction_capabilities\<rparr>"

section \<open>Caches\<close>

text \<open>
  \<open>dol-engine/cache.rs\<close>: the admission policy a plan or artifact cache consults before it retains an
  entry. Entry counts are \<open>usize\<close> and byte counts \<open>u64\<close>.
\<close>

datatype artifact_cacheability = Never | RequestScoped | PlanReusable

datatype cache_lifetime = Request | Shared

record cache_policy =
  cache_logical_plans :: bool
  cache_compiled_artifacts :: bool
  max_entries :: nat
  max_cache_bytes :: u64
  max_entry_bytes :: u64

definition cache_001 :: diagnostic where
  "cache_001 = diagnostic_error ''ENGINE-CACHE-001''
     ''enabled caches require non-zero entry, total-byte, and per-entry bounds''"
definition cache_002 :: diagnostic where
  "cache_002 = diagnostic_error ''ENGINE-CACHE-002''
     ''per-entry cache limit cannot exceed the total cache byte limit''"

definition policy_validate :: "cache_policy \<Rightarrow> unit res" where
  "policy_validate p =
     (if (cache_logical_plans p \<or> cache_compiled_artifacts p) \<and>
         (max_entries p = 0 \<or> max_cache_bytes p = 0 \<or> max_entry_bytes p = 0)
      then Inl cache_001
      else if max_entry_bytes p > max_cache_bytes p then Inl cache_002
      else Inr ())"

definition admits_size :: "cache_policy \<Rightarrow> u64 \<Rightarrow> bool" where
  "admits_size p entry_bytes \<longleftrightarrow> entry_bytes \<le> max_entry_bytes p \<and> entry_bytes \<le> max_cache_bytes p"

definition logical_plan_lifetime :: "cache_policy \<Rightarrow> u64 \<Rightarrow> cache_lifetime option" where
  "logical_plan_lifetime p entry_bytes =
     (if cache_logical_plans p \<and> admits_size p entry_bytes then Some Shared else None)"

definition artifact_lifetime :: "cache_policy \<Rightarrow> artifact_cacheability \<Rightarrow> u64 \<Rightarrow> cache_lifetime option" where
  "artifact_lifetime p cacheability entry_bytes =
     (if \<not> cache_compiled_artifacts p \<or> \<not> admits_size p entry_bytes then None
      else case cacheability of
        Never \<Rightarrow> None
      | RequestScoped \<Rightarrow> Some Request
      | PlanReusable \<Rightarrow> Some Shared)"

definition default_cache_policy :: cache_policy where
  "default_cache_policy =
     \<lparr>cache_logical_plans = True, cache_compiled_artifacts = False, max_entries = 1024,
      max_cache_bytes = 64 * 1024 * 1024, max_entry_bytes = 4 * 1024 * 1024\<rparr>"

subsection \<open>Sharing\<close>

text \<open>Under a validated policy the per-entry bound alone decides the size.\<close>

lemma validated_admits:
  "policy_validate p = Inr () \<Longrightarrow> admits_size p n \<longleftrightarrow> n \<le> max_entry_bytes p"
  by (auto simp: policy_validate_def admits_size_def split: if_splits)

lemma artifact_shared_iff:
  "artifact_lifetime p c n = Some Shared \<longleftrightarrow>
     cache_compiled_artifacts p \<and> c = PlanReusable \<and> admits_size p n"
  by (cases c) (auto simp: artifact_lifetime_def)

lemma artifact_request_iff:
  "artifact_lifetime p c n = Some Request \<longleftrightarrow>
     cache_compiled_artifacts p \<and> c = RequestScoped \<and> admits_size p n"
  by (cases c) (auto simp: artifact_lifetime_def)

end
