(* ===== verification/Memory_Engine.thy ===== *)
theory Memory_Engine
  imports Memory_Write Engine_Capability
begin

text \<open>
  The memory engine (\<open>lib.rs\<close>) and its transactions (\<open>transaction.rs\<close>, with the limits of
  \<open>dol-engine\<close>): the store, the flag that remembers a successful validation, writes checked against the
  whole store, and transactions over a private copy of the tables. Operations return the state they leave
  beside their result.
\<close>

section \<open>The engine\<close>

record 'x memory_engine =
  me_capabilities :: capabilities
  me_tables :: "'x tables"
  me_validated :: bool

definition memory_capabilities :: capabilities where
  "memory_capabilities =
     \<lparr>ca_pipeline = uniform_pipeline ExactNative,
      ca_writes = \<lparr>wc_insert = ExactNative, wc_insert_many = ExactNative, wc_update = ExactNative,
                   wc_delete = ExactNative\<rparr>,
      ca_transaction = \<lparr>tc_transactions = ExactNative, tc_atomic_writes = ExactNative,
                        tc_referential_integrity = ExactNative\<rparr>\<rparr>"

definition engine_new :: "'x memory_engine" where
  "engine_new = \<lparr>me_capabilities = memory_capabilities, me_tables = [], me_validated = True\<rparr>"

definition engine_clear :: "'x memory_engine \<Rightarrow> 'x memory_engine" where
  "engine_clear e = e\<lparr>me_tables := [], me_validated := True\<rparr>"

text \<open>\<open>f(&mut self.tables)?; self.invalidate(); Ok(())\<close>\<close>

definition change_tables :: "'x tables res \<Rightarrow> 'x memory_engine \<Rightarrow> 'x memory_engine \<times> unit res" where
  "change_tables r e =
     (case r of
        Inl err \<Rightarrow> (e, Inl err)
      | Inr tables \<Rightarrow> (e\<lparr>me_tables := tables, me_validated := False\<rparr>, Inr ()))"

definition engine_register :: "digest \<Rightarrow> model_def res \<Rightarrow> 'x memory_engine \<Rightarrow> 'x memory_engine \<times> unit res" where
  "engine_register B model e = change_tables (register_model B model (me_tables e)) e"

definition engine_load :: "digest \<Rightarrow> 'x ext \<Rightarrow> model_def res \<Rightarrow> 'x record_view list \<Rightarrow> 'x memory_engine \<Rightarrow>
    'x memory_engine \<times> unit res" where
  "engine_load B X model records e = change_tables (load_dataset B X model records (me_tables e)) e"

definition engine_load_dynamic :: "digest \<Rightarrow> 'x ext \<Rightarrow> model_def \<Rightarrow> 'x dyn_row list \<Rightarrow> 'x memory_engine \<Rightarrow>
    'x memory_engine \<times> unit res" where
  "engine_load_dynamic B X m rows e = change_tables (load_dynamic B X m rows (me_tables e)) e"

definition engine_validate :: "digest \<Rightarrow> 'x ext \<Rightarrow> 'x memory_engine \<Rightarrow> 'x memory_engine \<times> unit res" where
  "engine_validate B X e =
     (if me_validated e then (e, Inr ())
      else case validate_tables B X (me_tables e) of
             Inl err \<Rightarrow> (e, Inl err)
           | Inr _ \<Rightarrow> (e\<lparr>me_validated := True\<rparr>, Inr ()))"

definition memory_store_003 :: "string \<Rightarrow> diagnostic" where
  "memory_store_003 key = diagnostic_error ''MEMORY-STORE-003'' (''model `'' @ key @ ''` is not registered'')"
definition memory_store_004 :: diagnostic where
  "memory_store_004 = diagnostic_error ''MEMORY-STORE-004''
     ''requested Rust model differs from the registered memory model semantics''"
definition memory_write_006 :: "string \<Rightarrow> diagnostic" where
  "memory_write_006 reason = diagnostic_error ''MEMORY-WRITE-006''
     (''memory engine cannot execute this write exactly: '' @ reason)"

definition engine_rows :: "digest \<Rightarrow> model_def res \<Rightarrow> 'x memory_engine \<Rightarrow> 'x dyn_row list res" where
  "engine_rows B model e =
     and_then model (\<lambda>m.
     and_then (ok_or (map_of (me_tables e) (md_key m)) (memory_store_003 (md_key m))) (\<lambda>t.
       if fingerprint_model B (mt_model t) \<noteq> fingerprint_model B m then Inl memory_store_004
       else Inr (mt_rows t)))"

definition write_support :: "capabilities \<Rightarrow> write_kind \<Rightarrow> support" where
  "write_support c k =
     (case k of
        KindInsert \<Rightarrow> wc_insert (ca_writes c)
      | KindInsertMany \<Rightarrow> wc_insert_many (ca_writes c)
      | KindUpdate \<Rightarrow> wc_update (ca_writes c)
      | KindDelete \<Rightarrow> wc_delete (ca_writes c))"

definition validate_write_request :: "capabilities \<Rightarrow> write_limits \<Rightarrow> 'x logical_write \<Rightarrow> unit res" where
  "validate_write_request c L w =
     and_then (write_limits_validate L) (\<lambda>_.
       let s = write_support c (write_kind_of w) in
       if is_supported s then Inr ()
       else Inl (memory_write_006 (case support_reason s of Some r \<Rightarrow> r | None \<Rightarrow> ''no exact support'')))"

definition execute_write :: "digest \<Rightarrow> 'x scalar_ops \<Rightarrow> write_limits \<Rightarrow> clock \<Rightarrow> 'x parameters \<Rightarrow> 'x logical_write \<Rightarrow>
    'x memory_engine \<Rightarrow> 'x memory_engine \<times> nat res" where
  "execute_write B S L clock ps w e =
     (case validate_write_request (me_capabilities e) L w of
        Inl err \<Rightarrow> (e, Inl err)
      | Inr _ \<Rightarrow>
          (case engine_validate B (ops_ext S) e of
             (e, Inl err) \<Rightarrow> (e, Inl err)
           | (e, Inr _) \<Rightarrow>
               (case apply_atomic_write B S L clock ps (validate_tables B (ops_ext S)) w (me_tables e) of
                  (tables, Inl err) \<Rightarrow> (e\<lparr>me_tables := tables\<rparr>, Inl err)
                | (tables, Inr n) \<Rightarrow> (e\<lparr>me_tables := tables, me_validated := True\<rparr>, Inr n))))"

text \<open>\<open>apply\<close> lowers a typed write first.\<close>

definition engine_apply :: "digest \<Rightarrow> 'x scalar_ops \<Rightarrow> write_limits \<Rightarrow> clock \<Rightarrow> 'x parameters \<Rightarrow> 'x logical_write res \<Rightarrow>
    'x memory_engine \<Rightarrow> 'x memory_engine \<times> nat res" where
  "engine_apply B S L clock ps logical e =
     (case logical of
        Inl err \<Rightarrow> (e, Inl err)
      | Inr w \<Rightarrow> execute_write B S L clock ps w e)"

section \<open>Transactions\<close>

datatype isolation_level = Serializable

record transaction_limits =
  tl_max_snapshot_rows :: nat
  tl_max_snapshot_bytes :: nat
  tl_max_writes :: nat

definition default_transaction_limits :: transaction_limits where
  "default_transaction_limits =
     \<lparr>tl_max_snapshot_rows = 100000, tl_max_snapshot_bytes = 64 * 1024 * 1024, tl_max_writes = 1024\<rparr>"

record 'x memory_transaction =
  tx_working :: "'x tables"
  tx_limits :: transaction_limits
  tx_writes :: nat

definition memory_tx_001 :: diagnostic where
  "memory_tx_001 = diagnostic_error ''MEMORY-TX-001'' ''memory engine only exposes DOL serializable transactions''"
definition memory_tx_002 :: diagnostic where
  "memory_tx_002 = diagnostic_error ''MEMORY-TX-002'' ''transaction exceeds the configured successful-write limit''"
definition memory_tx_002_limits :: diagnostic where
  "memory_tx_002_limits = diagnostic_error ''MEMORY-TX-002'' ''transaction snapshot and write limits must be non-zero''"
definition memory_tx_003 :: diagnostic where
  "memory_tx_003 = diagnostic_error ''MEMORY-TX-003'' ''transaction snapshot exceeds the configured row limit''"
definition memory_tx_004 :: diagnostic where
  "memory_tx_004 = diagnostic_error ''MEMORY-TX-004''
     ''transaction snapshot exceeds the configured logical-byte limit''"

definition snapshot_row :: "transaction_limits \<Rightarrow> 'x dyn_row \<Rightarrow> nat \<Rightarrow> nat res" where
  "snapshot_row L row n =
     (let n = saturating_add_u64 n (row_bytes row)
      in if n > tl_max_snapshot_bytes L then Inl memory_tx_004 else Inr n)"

definition snapshot_table :: "transaction_limits \<Rightarrow> 'x memory_table \<Rightarrow> nat \<times> nat \<Rightarrow> (nat \<times> nat) res" where
  "snapshot_table L t st =
     (let rows = saturating_add_u64 (fst st) (length (mt_rows t))
      in if rows > tl_max_snapshot_rows L then Inl memory_tx_003
         else and_then (try_each (snapshot_row L) (mt_rows t) (snd st)) (\<lambda>n. Inr (rows, n)))"

definition validate_snapshot_limits :: "transaction_limits \<Rightarrow> 'x tables \<Rightarrow> unit res" where
  "validate_snapshot_limits L tables =
     and_then (try_each (snapshot_table L) (map snd tables) (0, 0)) (\<lambda>_. Inr ())"

definition begin_transaction :: "digest \<Rightarrow> 'x ext \<Rightarrow> isolation_level \<Rightarrow> transaction_limits \<Rightarrow> 'x memory_engine \<Rightarrow>
    'x memory_engine \<times> 'x memory_transaction res" where
  "begin_transaction B X isolation L e =
     (if isolation \<noteq> Serializable then (e, Inl memory_tx_001)
      else case engine_validate B X e of
             (e, Inl err) \<Rightarrow> (e, Inl err)
           | (e, Inr _) \<Rightarrow>
               (e, if tl_max_snapshot_rows L = 0 \<or> tl_max_snapshot_bytes L = 0 \<or> tl_max_writes L = 0
                   then Inl memory_tx_002_limits
                   else and_then (validate_snapshot_limits L (me_tables e)) (\<lambda>_.
                          Inr \<lparr>tx_working = me_tables e, tx_limits = L, tx_writes = 0\<rparr>)))"

definition transaction_write :: "digest \<Rightarrow> 'x scalar_ops \<Rightarrow> capabilities \<Rightarrow> write_limits \<Rightarrow> clock \<Rightarrow> 'x parameters \<Rightarrow>
    'x logical_write \<Rightarrow> 'x memory_transaction \<Rightarrow> 'x memory_transaction \<times> nat res" where
  "transaction_write B S c L clock ps w tx =
     (if tx_writes tx \<ge> tl_max_writes (tx_limits tx) then (tx, Inl memory_tx_002)
      else case validate_write_request c L w of
             Inl err \<Rightarrow> (tx, Inl err)
           | Inr _ \<Rightarrow>
               (case apply_atomic_write B S L clock ps (validate_snapshot_limits (tx_limits tx)) w (tx_working tx) of
                  (tables, Inl err) \<Rightarrow> (tx\<lparr>tx_working := tables\<rparr>, Inl err)
                | (tables, Inr n) \<Rightarrow> (tx\<lparr>tx_working := tables, tx_writes := tx_writes tx + 1\<rparr>, Inr n)))"

definition transaction_commit :: "digest \<Rightarrow> 'x ext \<Rightarrow> 'x memory_transaction \<Rightarrow> 'x memory_engine \<Rightarrow>
    'x memory_engine \<times> unit res" where
  "transaction_commit B X tx e =
     (case and_then (validate_snapshot_limits (tx_limits tx) (tx_working tx)) (\<lambda>_. validate_tables B X (tx_working tx)) of
        Inl err \<Rightarrow> (e, Inl err)
      | Inr _ \<Rightarrow> (e\<lparr>me_tables := tx_working tx, me_validated := True\<rparr>, Inr ()))"

definition transaction_rollback :: "'x memory_transaction \<Rightarrow> 'x memory_engine \<Rightarrow> 'x memory_engine \<times> unit res" where
  "transaction_rollback tx e = (e, Inr ())"

end
