(* ===== verification/Memory_Laws.thy ===== *)
theory Memory_Laws
  imports Memory_Engine Row_Laws
begin

text \<open>
  What a write to the memory store does: nothing when it fails, and otherwise exactly what the abstract
  write does to the rows of its table, which then satisfy the table's constraints. The interface
  \<open>atomic_writes\<close> captures this for sequences of writes; the store is its instance.
\<close>

section \<open>Tables touched by a write\<close>

lemma btree_eqI: "btree_inv m \<Longrightarrow> btree_inv m' \<Longrightarrow> map_of m = map_of m' \<Longrightarrow> m = m'"
  using btree.entries_unique [of m m'] by (simp add: btree_inv_def)

lemma btree_inv_remove: "btree_inv m \<Longrightarrow> btree_inv (btree_remove k m)"
  unfolding btree_inv_def btree_remove_def by (induction m) auto

lemma map_of_remove: "map_of (btree_remove k m) = (map_of m)(k := None)"
  unfolding btree_remove_def by (induction m) auto

definition touches :: "string \<Rightarrow> 'x tables \<Rightarrow> 'x tables \<Rightarrow> bool" where
  "touches key tables tables' \<longleftrightarrow>
     btree_inv tables' \<and> (\<forall>k. k \<noteq> key \<longrightarrow> map_of tables' k = map_of tables k)"

lemma touches_refl: "btree_inv tables \<Longrightarrow> touches key tables tables"
  by (simp add: touches_def)

lemma touches_insert: "touches key tables tables' \<Longrightarrow> touches key tables (btree_insert key t tables')"
  by (simp add: touches_def btree_inv_insert map_of_btree_insert)

lemma restore_undoes:
  assumes "btree_inv tables" and "touches key tables tables'"
  shows "restore_table key (map_of tables key) tables' = tables"
proof (rule btree_eqI)
  from assms(2) have inv: "btree_inv tables'" and other: "\<And>k. k \<noteq> key \<Longrightarrow> map_of tables' k = map_of tables k"
    by (simp_all add: touches_def)
  show "btree_inv (restore_table key (map_of tables key) tables')"
    using inv by (simp add: restore_table_def btree_inv_insert btree_inv_remove split: option.split)
  show "map_of (restore_table key (map_of tables key) tables') = map_of tables"
    using other by (auto simp: restore_table_def fun_eq_iff map_of_btree_insert [OF inv] map_of_remove split: option.split)
qed (rule assms(1))

lemma register_touches:
  "btree_inv tables \<Longrightarrow> register_definition B m tables = Inr tables' \<Longrightarrow> touches (md_key m) tables tables'"
  by (auto simp: register_definition_def touches_refl touches_insert split: option.splits if_splits)

lemma apply_write_touches:
  assumes "btree_inv tables" and "apply_write B S L clock ps w tables = (tables', r)"
  shows "touches (md_key (write_model w)) tables tables'"
proof -
  have "touches (md_key m) tables tables'" if "apply_insert B (ops_ext S) L clock m rows tables = (tables', r)" for m rows
    using that assms(1) register_touches
    by (auto simp: apply_insert_def put_rows_def touches_refl intro!: touches_insert split: sum.splits)
  moreover have "touches (md_key (lu_model u)) tables tables'" if "apply_update B S L clock u ps tables = (tables', r)" for u
    using that assms(1)
    by (auto simp: apply_update_def put_rows_def touches_refl intro!: touches_insert split: sum.splits prod.splits)
  moreover have "touches (md_key (ld_model d)) tables tables'" if "apply_delete B S L clock d ps tables = (tables', r)" for d
    using that assms(1)
    by (auto simp: apply_delete_def Let_def put_rows_def touches_refl intro!: touches_insert split: sum.splits)
  ultimately show ?thesis
    using assms by (cases w) (auto simp: apply_write_def touches_refl split: sum.splits)
qed

lemma atomic_inv: "btree_inv tables \<Longrightarrow> btree_inv (fst (apply_atomic_write B S L clock ps validate w tables))"
  using apply_write_touches [of tables B S L clock ps w] restore_undoes [of tables]
  by (auto simp: apply_atomic_write_def Let_def touches_def split: prod.splits sum.splits)

lemma atomic_error:
  assumes "btree_inv tables" and "apply_atomic_write B S L clock ps validate w tables = (tables', Inl e)"
  shows "tables' = tables"
  using assms(2) apply_write_touches [OF assms(1), of B S L clock ps w] restore_undoes [OF assms(1)]
  by (auto simp: apply_atomic_write_def Let_def split: prod.splits sum.splits)

section \<open>The abstract write\<close>

text \<open>All assignments read the row from before the update.\<close>

definition simultaneous :: "'x scalar_ops \<Rightarrow> 'x prepared_assignment list \<Rightarrow> 'x parameters \<Rightarrow> 'x dyn_row \<Rightarrow> 'x dyn_row" where
  "simultaneous S as ps row =
     row\<lparr>dr_values := map (\<lambda>i.
       case find (\<lambda>a. pa_field a = i) as of
         None \<Rightarrow> dr_values row ! i
       | Some a \<Rightarrow> (case evaluate_datum S (pa_expression a) (row_context ps row) of Inr d \<Rightarrow> d | Inl _ \<Rightarrow> Missing))
       [0..<length (dr_values row)]\<rparr>"

definition is_selected :: "'x scalar_ops \<Rightarrow> 'x prepared_expression option \<Rightarrow> 'x parameters \<Rightarrow> 'x dyn_row \<Rightarrow> bool" where
  "is_selected S condition ps row \<longleftrightarrow> selected S condition ps row = Inr True"

fun write_effect :: "'x scalar_ops \<Rightarrow> 'x parameters \<Rightarrow> 'x logical_write \<Rightarrow> 'x dyn_row list \<Rightarrow> 'x dyn_row list" where
  "write_effect S ps (LInsert w) rows = rows @ [li_row w]"
| "write_effect S ps (LInsertMany w) rows = rows @ lm_rows w"
| "write_effect S ps (LUpdate w) rows =
     map (\<lambda>row. if is_selected S (lu_condition w) ps row then simultaneous S (lu_assignments w) ps row else row) rows"
| "write_effect S ps (LDelete w) rows = filter (\<lambda>row. \<not> is_selected S (ld_condition w) ps row) rows"

fun write_affected :: "'x scalar_ops \<Rightarrow> 'x parameters \<Rightarrow> 'x logical_write \<Rightarrow> 'x dyn_row list \<Rightarrow> nat" where
  "write_affected S ps (LInsert w) rows = 1"
| "write_affected S ps (LInsertMany w) rows = length (lm_rows w)"
| "write_affected S ps (LUpdate w) rows = min (length (filter (is_selected S (lu_condition w) ps) rows)) usize_max"
| "write_affected S ps (LDelete w) rows = length (filter (is_selected S (ld_condition w) ps) rows)"

text \<open>The table a write finds: only inserts register a model.\<close>

definition target_table :: "'x logical_write \<Rightarrow> 'x tables \<Rightarrow> 'x memory_table" where
  "target_table w tables =
     (case map_of tables (md_key (write_model w)) of
        Some t \<Rightarrow> t | None \<Rightarrow> \<lparr>mt_model = write_model w, mt_rows = []\<rparr>)"

fun write_ok :: "'x logical_write \<Rightarrow> bool" where
  "write_ok (LUpdate w) = distinct (map pa_field (lu_assignments w))"
| "write_ok w = True"

lemma assign_fields_ok:
  assumes "assign_fields X as row = (row', Inr u)" and "distinct (map fst as)"
  shows "dr_model row' = dr_model row \<and> length (dr_values row') = length (dr_values row) \<and>
    (\<forall>i < length (dr_values row). dr_values row' ! i = (case map_of as i of Some d \<Rightarrow> d | None \<Rightarrow> dr_values row ! i))"
  using assms
proof (induction as arbitrary: row)
  case Nil
  then show ?case by simp
next
  case (Cons a as)
  obtain slot d where a: "a = (slot, d)" by (cases a)
  with Cons.prems obtain row1 where row1: "row_set_field X slot d row = Inr row1" "assign_fields X as row1 = (row', Inr u)"
    by (auto split: sum.splits)
  then have "row1 = row\<lparr>dr_values := (dr_values row)[slot := d]\<rparr>" by (auto simp: row_set_field_def result_simps)
  moreover have "map_of as slot = None" using Cons.prems(2) by (simp add: a map_of_eq_None_iff)
  ultimately show ?case using Cons.IH [OF row1(2)] Cons.prems(2) by (auto simp: a nth_list_update split: option.split)
qed

lemma map_of_zip_find:
  "length as = length vs \<Longrightarrow>
    map_of (zip (map f as) vs) i = map_option (\<lambda>a. snd a) (find (\<lambda>a. f (fst a) = i) (zip as vs))"
  by (induction as vs rule: list_induct2) auto

lemma find_zip:
  "list_all2 (\<lambda>a v. g a = Inr v) as vs \<Longrightarrow>
    map_option snd (find (\<lambda>p. P (fst p)) (zip as vs)) =
    map_option (\<lambda>a. case g a of Inr d \<Rightarrow> d | Inl _ \<Rightarrow> z) (find P as)"
  by (induction as vs rule: list_all2_induct) auto

lemma assign_simultaneous:
  assumes "assigned_values S as ps row = Inr vs" and "distinct (map pa_field as)"
    and "assign_fields (ops_ext S) (zip (map pa_field as) vs) row = (row', Inr u)"
  shows "row' = simultaneous S as ps row"
proof -
  from assms(1) have vs: "list_all2 (\<lambda>a v. evaluate_datum S (pa_expression a) (row_context ps row) = Inr v) as vs"
    by (simp add: assigned_values_def try_map_Inr)
  then have len: "length as = length vs" by (rule list_all2_lengthD)
  then have "map fst (zip (map pa_field as) vs) = map pa_field as" by simp
  with assign_fields_ok [OF assms(3)] assms(2) have row': "dr_model row' = dr_model row"
    "length (dr_values row') = length (dr_values row)"
    "\<forall>i < length (dr_values row). dr_values row' ! i =
      (case map_of (zip (map pa_field as) vs) i of Some d \<Rightarrow> d | None \<Rightarrow> dr_values row ! i)" by auto
  have look: "map_of (zip (map pa_field as) vs) i =
      map_option (\<lambda>a. case evaluate_datum S (pa_expression a) (row_context ps row) of Inr d \<Rightarrow> d | Inl _ \<Rightarrow> Missing)
        (find (\<lambda>a. pa_field a = i) as)" for i
    using map_of_zip_find [OF len, of pa_field i] find_zip [OF vs, of "\<lambda>a. pa_field a = i" Missing] by simp
  have "dr_values row' = dr_values (simultaneous S as ps row)"
    by (rule nth_equalityI) (auto simp: row' look simultaneous_def split: option.split)
  with row'(1) show ?thesis by (simp add: simultaneous_def)
qed

lemma update_row_ok:
  assumes "update_row S L clock w ps k affected row = (row', Inr affected')"
    and "distinct (map pa_field (lu_assignments w))"
  shows "row' = (if is_selected S (lu_condition w) ps row then simultaneous S (lu_assignments w) ps row else row)"
    and "affected' = (if is_selected S (lu_condition w) ps row then saturating_add_usize affected 1 else affected)"
  using assms assign_simultaneous
  by (auto simp: update_row_def Let_def is_selected_def result_simps split: sum.splits bool.splits prod.splits)

lemma update_rows_ok:
  assumes "update_rows S L clock w ps k affected rows = (rows', Inr n)"
    and "distinct (map pa_field (lu_assignments w))" and "affected \<le> usize_max"
  shows "rows' = write_effect S ps (LUpdate w) rows \<and>
    n = min (affected + length (filter (is_selected S (lu_condition w) ps) rows)) usize_max"
  using assms
proof (induction rows arbitrary: k affected rows')
  case Nil
  then show ?case by simp
next
  case (Cons row rows)
  from Cons.prems(1) obtain row1 affected1 rows1 where
    first: "update_row S L clock w ps k affected row = (row1, Inr affected1)"
    and rest: "update_rows S L clock w ps (Suc k) affected1 rows = (rows1, Inr n)" and rows': "rows' = row1 # rows1"
    by (auto split: prod.splits sum.splits)
  note row1 = update_row_ok [OF first Cons.prems(2)]
  from row1(2) Cons.prems(3) have "affected1 \<le> usize_max" by (auto simp: saturating_add_usize_def)
  from Cons.IH [OF rest Cons.prems(2) this] row1 Cons.prems(3) show ?case
    by (auto simp: rows' saturating_add_usize_def min_def)
qed

lemma selected_rows_ok:
  "selected_rows S L clock w ps k rows = Inr bs \<Longrightarrow> bs = map (is_selected S (ld_condition w) ps) rows"
  by (induction rows arbitrary: k bs) (auto simp: result_simps is_selected_def)

lemma retain_filter: "retain_unselected (map P xs) xs = filter (\<lambda>x. \<not> P x) xs"
  by (induction xs) auto

lemma length_filter_id: "length (filter id (map P xs)) = length (filter P xs)"
  by (simp add: filter_map comp_def)

lemma map_of_put_rows [simp]:
  "btree_inv tables \<Longrightarrow> map_of (put_rows m t rows tables) = (map_of tables)(md_key m \<mapsto> t\<lparr>mt_rows := rows\<rparr>)"
  by (simp add: put_rows_def map_of_btree_insert)

lemma table_mut_ok [result_simps]:
  "table_mut B tables m = Inr t \<longleftrightarrow>
     map_of tables (md_key m) = Some t \<and> fingerprint_model B (mt_model t) = fingerprint_model B m"
  by (auto simp: table_mut_def result_simps)

lemma finish_write_ok [result_simps]:
  "finish_write B X L clock k t rows n = Inr n' \<longleftrightarrow>
     validate_dynamic_dataset B X (mt_model t) rows = Inr () \<and> check_timeout L clock k = Inr () \<and> n' = n"
  by (auto simp: finish_write_def result_simps)

definition write_result :: "digest \<Rightarrow> 'x scalar_ops \<Rightarrow> 'x parameters \<Rightarrow> 'x logical_write \<Rightarrow> 'x tables \<Rightarrow> 'x tables \<Rightarrow> nat \<Rightarrow> bool" where
  "write_result B S ps w tables tables' n \<longleftrightarrow>
     (let t = target_table w tables; rows = write_effect S ps w (mt_rows t)
      in fingerprint_model B (mt_model t) = fingerprint_model B (write_model w) \<and>
         map_of tables' = (map_of tables)(md_key (write_model w) \<mapsto> t\<lparr>mt_rows := rows\<rparr>) \<and>
         validate_dynamic_dataset B (ops_ext S) (mt_model t) rows = Inr () \<and>
         n = write_affected S ps w (mt_rows t))"

lemma apply_insert_ok:
  assumes inv: "btree_inv tables" and "apply_insert B X L clock m rows tables = (tables', Inr n)"
  defines "t \<equiv> (case map_of tables (md_key m) of Some t \<Rightarrow> t | None \<Rightarrow> \<lparr>mt_model = m, mt_rows = []\<rparr>)"
  shows "fingerprint_model B (mt_model t) = fingerprint_model B m \<and>
    map_of tables' = (map_of tables)(md_key m \<mapsto> t\<lparr>mt_rows := mt_rows t @ rows\<rparr>) \<and>
    validate_dynamic_dataset B X (mt_model t) (mt_rows t @ rows) = Inr () \<and> n = length rows"
proof -
  from assms(2) obtain tables1 t1 where reg: "register_definition B m tables = Inr tables1"
    and t1: "table_mut B tables1 m = Inr t1" and tables': "tables' = put_rows m t1 (mt_rows t1 @ rows) tables1"
    and fin: "finish_write B X L clock 1 t1 (mt_rows t1 @ rows) (length rows) = Inr n"
    by (auto simp: apply_insert_def split: sum.splits)
  have inv1: "btree_inv tables1" using register_touches [OF inv reg] by (simp add: touches_def)
  have "t1 = t" and "(map_of tables1)(md_key m \<mapsto> x) = (map_of tables)(md_key m \<mapsto> x)" for x
    using reg t1 inv
    by (auto simp: register_definition_def t_def result_simps map_of_btree_insert split: option.splits if_splits)
  with t1 fin inv1 show ?thesis by (auto simp: tables' result_simps)
qed

lemma apply_write_ok:
  assumes "btree_inv tables" and "apply_write B S L clock ps w tables = (tables', Inr n)" and "write_ok w"
  shows "write_result B S ps w tables tables' n"
proof (cases w)
  case (LInsert i)
  with assms(2) apply_insert_ok [OF assms(1), of B "ops_ext S" L clock "li_model i" "[li_row i]" tables' n]
  show ?thesis by (auto simp: apply_write_def write_result_def target_table_def Let_def split: sum.splits option.splits)
next
  case (LInsertMany i)
  with assms(2) apply_insert_ok [OF assms(1), of B "ops_ext S" L clock "lm_model i" "lm_rows i" tables' n]
  show ?thesis by (auto simp: apply_write_def write_result_def target_table_def Let_def split: sum.splits option.splits)
next
  case (LUpdate u)
  with assms(2) obtain t rows where t: "table_mut B tables (lu_model u) = Inr t"
    and rows: "update_rows S L clock u ps 1 0 (mt_rows t) = (rows, Inr n)"
    and rest: "tables' = put_rows (lu_model u) t rows tables"
      "validate_dynamic_dataset B (ops_ext S) (mt_model t) rows = Inr ()"
    by (auto simp: apply_write_def apply_update_def result_simps split: sum.splits prod.splits)
  with update_rows_ok [OF rows] assms(1,3) show ?thesis
    by (simp add: LUpdate write_result_def target_table_def result_simps Let_def)
next
  case (LDelete d)
  with assms(2) obtain t bs where t: "table_mut B tables (ld_model d) = Inr t"
    and bs: "selected_rows S L clock d ps 1 (mt_rows t) = Inr bs"
    and rest: "tables' = put_rows (ld_model d) t (retain_unselected bs (mt_rows t)) tables"
      "validate_dynamic_dataset B (ops_ext S) (mt_model t) (retain_unselected bs (mt_rows t)) = Inr ()"
      "n = length (filter id bs)"
    by (auto simp: apply_write_def apply_delete_def Let_def result_simps split: sum.splits)
  with selected_rows_ok [OF bs] assms(1) show ?thesis
    by (simp add: LDelete write_result_def target_table_def result_simps Let_def retain_filter length_filter_id)
qed

lemma atomic_ok:
  assumes "btree_inv tables" and "apply_atomic_write B S L clock ps validate w tables = (tables', Inr n)" and "write_ok w"
  shows "write_result B S ps w tables tables' n" and "validate tables' = Inr ()"
  using assms(2) apply_write_ok [OF assms(1) _ assms(3), of B S L clock ps]
  by (auto simp: apply_atomic_write_def Let_def split: prod.splits sum.splits)

end
