(* ===== verification/Data_Laws.thy ===== *)
theory Data_Laws
  imports Data_Write Write_Laws Memory_Laws
begin

text \<open>
  The contract of mutable records and what simultaneous assignment does to one (locale
  \<open>mutable_record\<close>), and the agreement of the two implementations of writes: the local data set and the
  memory engine make the same changes and succeed on the same inputs.
\<close>

section \<open>Mutable records\<close>

locale mutable_record =
  fixes view :: "'r \<Rightarrow> 'x record_view" and set_field :: "nat \<Rightarrow> 'x datum \<Rightarrow> 'r \<Rightarrow> 'r res"
  assumes set_model: "set_field slot d r = Inr r' \<Longrightarrow> rv_model (view r') = rv_model (view r)"
    and set_same: "set_field slot d r = Inr r' \<Longrightarrow> rv_field (view r') slot = Inr (Some d)"
    and set_other: "set_field slot d r = Inr r' \<Longrightarrow> i \<noteq> slot \<Longrightarrow> rv_field (view r') i = rv_field (view r) i"
begin

lemma set_fields:
  assumes "try_each (\<lambda>(slot, d). set_field slot d) as r = Inr r'" and "distinct (map fst as)"
  shows "rv_model (view r') = rv_model (view r) \<and>
    rv_field (view r') i = (case map_of as i of Some d \<Rightarrow> Inr (Some d) | None \<Rightarrow> rv_field (view r) i)"
  using assms
proof (induction as arbitrary: r)
  case Nil
  then show ?case by simp
next
  case (Cons a as)
  obtain slot d where a: "a = (slot, d)" by (cases a)
  with Cons.prems obtain r1 where r1: "set_field slot d r = Inr r1" "try_each (\<lambda>(slot, d). set_field slot d) as r1 = Inr r'"
    by (auto simp: result_simps)
  have "map_of as slot = None" using Cons.prems(2) by (simp add: a map_of_eq_None_iff)
  with Cons.IH [OF r1(2)] Cons.prems(2) set_model [OF r1(1)] set_same [OF r1(1)] set_other [OF r1(1), of i]
  show ?case by (auto simp: a split: option.split)
qed

end

interpretation dynamic: mutable_record row_view "row_set_field X" for X
  by unfold_locales (auto simp: row_set_field_def row_view_def row_get_def result_simps, auto simp: vec_get_def split: if_splits)

text \<open>The records of a model represented as runtime rows.\<close>

definition row_ops :: "'x ext \<Rightarrow> model_def \<Rightarrow> ('x, 'x dyn_row) record_ops" where
  "row_ops X m = \<lparr>ro_model = Inr m, ro_view = row_view, ro_set_field = row_set_field X\<rparr>"

lemma row_ops_simps [simp]:
  "ro_model (row_ops X m) = Inr m" "ro_view (row_ops X m) = row_view" "ro_set_field (row_ops X m) = row_set_field X"
  by (simp_all add: row_ops_def)

section \<open>Rows and their fingerprints\<close>

definition dense :: "model_def \<Rightarrow> 'x dyn_row \<Rightarrow> bool" where
  "dense m r \<longleftrightarrow> dr_model r = m \<and> length (dr_values r) = length (md_fields m)"

lemma row_from_row:
  assumes "model_canonical m" and "dense m r" and "record_valid B X m (row_view r)"
  shows "row_from_record X (row_view r) = Inr r"
proof -
  have "rv_field (row_view r) (slot_index f) = Inr (Some (dr_values r ! slot_index f)) \<and>
      validate_datum X (fd_ty f) (fd_presence f) (dr_values r ! slot_index f) = Inr ()" if "f \<in> set (md_fields m)" for f
    using assms(3) that by (auto simp: record_valid_def validate_datum_ok row_view_def row_get_def vec_get_def split: if_splits)
  from this [OF nth_mem] have "try_map (\<lambda>f. and_then (rv_field (row_view r) (slot_index f)) (\<lambda>d.
      and_then (ok_or d (runtime_009 (fd_key f))) (\<lambda>d.
      and_then (validate_datum X (fd_ty f) (fd_presence f) d) (\<lambda>_. Inr d)))) (md_fields m) = Inr (dr_values r)"
    unfolding try_map_Inr list_all2_conv_all_nth
    using assms(2) by (simp add: dense_def canonical_slot [OF assms(1)])
  then show ?thesis using assms(2) by (simp add: row_from_record_def row_view_def dense_def)
qed

lemma fingerprint_record_total:
  assumes "record_valid B X m record"
  shows "\<exists>fp. fingerprint_record B X m record = Inr fp"
proof -
  have "\<exists>h'. try_each (\<lambda>f h. and_then (record_datum record f) (\<lambda>d.
      and_then (fingerprint_datum B X (fd_ty f) d) (\<lambda>fp. Inr (h_bytes fp (h_str (fd_key f) h))))) fs h = Inr h'"
    if "set fs \<subseteq> set (md_fields m)" for fs h
    using that
  proof (induction fs arbitrary: h)
    case Nil
    then show ?case by simp
  next
    case (Cons f fs)
    then obtain d where "rv_field record (slot_index f) = Inr (Some d)" "of_field X (fd_ty f) (fd_presence f) d"
      using assms by (auto simp: record_valid_def)
    then have "record_datum record f = Inr d" "validate_datum X (fd_ty f) Optional d = Inr ()"
      by (auto simp: result_simps validate_datum_ok intro: of_field_optional)
    with Cons show ?case by (simp add: fingerprint_datum_def)
  qed
  from this [of "md_fields m"] show ?thesis
    using assms by (auto simp: fingerprint_record_def result_simps validate_record_ok)
qed

lemma logical_insert_Inr:
  assumes "model_canonical m" and "dense m r"
  shows "(\<exists>fp. logical_insert_of B X (Inr m) (row_view r) = Inr (LInsert \<lparr>li_model = m, li_row = r, li_fingerprint = fp\<rparr>)) \<longleftrightarrow>
      record_valid B X m (row_view r)"
    and "logical_insert_of B X (Inr m) (row_view r) = Inr w \<Longrightarrow>
      \<exists>fp. w = LInsert \<lparr>li_model = m, li_row = r, li_fingerprint = fp\<rparr>"
proof -
  have valid: "record_valid B X m (row_view r)" if "logical_insert_of B X (Inr m) (row_view r) = Inr w" for w
    using that by (auto simp: logical_insert_of_def fingerprint_insert_def result_simps validate_record_ok)
  moreover have "\<exists>fp. logical_insert_of B X (Inr m) (row_view r) = Inr (LInsert \<lparr>li_model = m, li_row = r, li_fingerprint = fp\<rparr>)"
    if "record_valid B X m (row_view r)"
    using row_from_row [OF assms that] fingerprint_record_total [OF that] that
    by (auto simp: logical_insert_of_def fingerprint_insert_def write_hasher_def result_simps validate_record_ok)
  ultimately show "(\<exists>fp. logical_insert_of B X (Inr m) (row_view r) = Inr (LInsert \<lparr>li_model = m, li_row = r, li_fingerprint = fp\<rparr>)) \<longleftrightarrow>
      record_valid B X m (row_view r)" by blast
  show "\<exists>fp. w = LInsert \<lparr>li_model = m, li_row = r, li_fingerprint = fp\<rparr>" if w: "logical_insert_of B X (Inr m) (row_view r) = Inr w"
    using row_from_row [OF assms valid [OF w]] w by (auto simp: logical_insert_of_def result_simps)
qed

lemma logical_insert_many_Inr:
  fixes B :: digest and X :: "'x ext" and n :: "nat option" and rows :: "'x dyn_row list"
  assumes "model_canonical m" and "\<forall>r \<in> set rows. dense m r"
  defines "write \<equiv> logical_insert_many_of B X (Inr m) \<lparr>im_values = map row_view rows, im_batch_rows = n\<rparr>"
  shows "(\<exists>fp. write = Inr (LInsertMany \<lparr>lm_model = m, lm_rows = rows, lm_batch_rows = n, lm_fingerprint = fp\<rparr>)) \<longleftrightarrow>
      validate_batch_size n = Inr () \<and> validate_dataset B X m (map row_view rows) = Inr ()"
    and "write = Inr w \<Longrightarrow> \<exists>fp. w = LInsertMany \<lparr>lm_model = m, lm_rows = rows, lm_batch_rows = n, lm_fingerprint = fp\<rparr>"
proof -
  have checks: "validate_batch_size n = Inr () \<and> validate_dataset B X m (map row_view rows) = Inr ()" if "write = Inr w" for w
    using that by (auto simp: write_def logical_insert_many_of_def fingerprint_insert_many_def result_simps)
  have records: "\<forall>r \<in> set rows. record_valid B X m (row_view r)" if "validate_dataset B X m (map row_view rows) = Inr ()"
    using that by (auto simp: validate_dataset_def result_simps validate_record_ok)
  have rows: "try_map (row_from_record X) (map row_view rows) = Inr rows" if "\<forall>r \<in> set rows. record_valid B X m (row_view r)"
  proof -
    have "try_map (row_from_record X) (map row_view rows) = Inr (map (\<lambda>r. r) rows)"
      by (rule try_map_ok) (use row_from_row [OF assms(1)] assms(2) that in blast)
    then show ?thesis by simp
  qed
  have hash: "\<exists>h'. try_each (\<lambda>record h. and_then (fingerprint_record B X m record) (\<lambda>fp. Inr (h_bytes fp h))) vs h = Inr h'"
    if "\<forall>v \<in> set vs. record_valid B X m v" for vs h
    using that
  proof (induction vs arbitrary: h)
    case Nil
    then show ?case by simp
  next
    case (Cons v vs)
    with fingerprint_record_total [of B X m v] show ?case by auto
  qed
  have "\<exists>fp. write = Inr (LInsertMany \<lparr>lm_model = m, lm_rows = rows, lm_batch_rows = n, lm_fingerprint = fp\<rparr>)"
    if "validate_batch_size n = Inr ()" "validate_dataset B X m (map row_view rows) = Inr ()"
    using that rows [OF records [OF that(2)]] records [OF that(2)] hash [of "map row_view rows"]
    by (auto simp: write_def logical_insert_many_of_def fingerprint_insert_many_def write_hasher_def result_simps)
  with checks show "(\<exists>fp. write = Inr (LInsertMany \<lparr>lm_model = m, lm_rows = rows, lm_batch_rows = n, lm_fingerprint = fp\<rparr>)) \<longleftrightarrow>
      validate_batch_size n = Inr () \<and> validate_dataset B X m (map row_view rows) = Inr ()" by blast
  show "\<exists>fp. w = LInsertMany \<lparr>lm_model = m, lm_rows = rows, lm_batch_rows = n, lm_fingerprint = fp\<rparr>" if w: "write = Inr w"
    using rows [OF records [OF checks [OF w, THEN conjunct2]]] w
    by (auto simp: write_def logical_insert_many_of_def result_simps)
qed

section \<open>Updates\<close>

definition unlimited :: "write_limits \<Rightarrow> bool" where
  "unlimited L \<longleftrightarrow> wl_max_affected_rows L = None \<and> wl_timeout L = None \<and> wl_max_concurrency L \<noteq> 0"

lemma unlimited_checks [simp]:
  assumes "unlimited L"
  shows "check_timeout L clock k = Inr ()" and "enforce_affected_limit L n = Inr ()" and "write_limits_validate L = Inr ()"
  using assms by (simp_all add: unlimited_def check_timeout_def enforce_affected_limit_def write_limits_validate_def)

lemma local_condition:
  assumes "\<forall>c. condition = Some c \<longrightarrow> local_expression c"
  shows "selected S condition [] row = Inr b \<longleftrightarrow> local_selected S condition (row_view row) = Inr b"
proof -
  have "existential_dependencies c = []" if "local_expression c" for c :: "'a prepared_expression"
  proof -
    have "List.map_filter (\<lambda>n. case pn_kind n of PExists q f \<Rightarrow> Some q | _ \<Rightarrow> None) ns = []"
      if "list_all (\<lambda>n. \<not> is_exists n) ns" for ns :: "'a prepared_node list"
      using that by (induction ns) (auto simp: is_exists_def split: prepared_kind.split)
    with that show ?thesis by (simp add: local_expression_def existential_dependencies_def)
  qed
  moreover have "row_context [] row = eval_context_single (row_view row)" for row :: "'a dyn_row"
    by (simp add: row_context_def eval_context_single_def)
  ultimately show ?thesis
    using assms
    by (auto simp: selected_def local_selected_def local_expression_def result_simps split: option.splits datum.splits val.splits)
qed

lemma assign_fields_try:
  "assign_fields X as row = (row', Inr u) \<longleftrightarrow> try_each (\<lambda>(slot, d). row_set_field X slot d) as row = Inr row'"
  by (induction as arbitrary: row) (auto split: sum.splits)

definition local_row :: "'x scalar_ops \<Rightarrow> 'x prepared_update \<Rightarrow> 'x dyn_row \<Rightarrow> bool \<Rightarrow> 'x dyn_row \<Rightarrow> bool" where
  "local_row S p row b row' \<longleftrightarrow>
     local_selected S (pu_condition p) (row_view row) = Inr b \<and>
     (if b
      then \<exists>vs. assigned_values S (pu_assignments p) [] row = Inr vs \<and>
        try_each (\<lambda>(slot, d). row_set_field (ops_ext S) slot d) (zip (map pa_field (pu_assignments p)) vs) row = Inr row'
      else row' = row)"

lemma local_update_rows_Cons:
  "local_update_rows S (row_ops (ops_ext S) m) p (row # rows) = Inr (rows', n) \<longleftrightarrow>
     (\<exists>b row' rest k. local_row S p row b row' \<and> local_update_rows S (row_ops (ops_ext S) m) p rows = Inr (rest, k) \<and>
        rows' = row' # rest \<and> n = of_bool b + k)"
proof -
  have "row_context [] r = eval_context_single (row_view r)" for r :: "'a dyn_row"
    by (simp add: row_context_def eval_context_single_def)
  then show ?thesis
    by (fastforce simp: local_row_def assigned_values_def local_set_fields_def result_simps of_bool_def split: if_splits)
qed

lemma update_row_local:
  assumes "unlimited L" and "\<forall>c. pu_condition p = Some c \<longrightarrow> local_expression c" and "a < usize_max"
  shows "update_row S L clock \<lparr>lu_model = m, lu_assignments = pu_assignments p, lu_condition = pu_condition p,
      lu_scope = sc, lu_fingerprint = fp\<rparr> [] k a row = (row', Inr a') \<longleftrightarrow>
    (\<exists>b. local_row S p row b row' \<and> a' = of_bool b + a)"
proof -
  have add: "saturating_add_usize a (Suc 0) = Suc a" using assms(3) by (simp add: saturating_add_usize_def)
  note checks = unlimited_checks [OF assms(1)]
  note sel = local_condition [OF assms(2), of S row, symmetric]
  note simps = update_row_def local_row_def checks sel add
  show ?thesis
  proof (cases "selected S (pu_condition p) [] row")
    case (Inl e)
    then show ?thesis by (simp add: simps)
  next
    case (Inr b)
    show ?thesis
    proof (cases b)
      case True
      show ?thesis
      proof (cases "assigned_values S (pu_assignments p) [] row")
        case (Inl e)
        then show ?thesis using Inr True by (simp add: simps)
      next
        case (Inr vs)
        obtain r u where "assign_fields (ops_ext S) (zip (map pa_field (pu_assignments p)) vs) row = (r, u)" by fastforce
        then show ?thesis using Inr \<open>selected S (pu_condition p) [] row = Inr b\<close> True
          by (cases u) (auto simp: simps assign_fields_try [symmetric, where u = "()"])
      qed
    next
      case False
      then show ?thesis using Inr by (auto simp: simps)
    qed
  qed
qed

lemma regroup:
  fixes w :: "bool \<Rightarrow> nat"
  shows "(\<exists>row1 a1 rows1. (\<exists>b. L b row1 \<and> a1 = w b + a) \<and> (\<exists>c. U rows1 c \<and> n = c + a1) \<and> rows' = row1 # rows1) \<longleftrightarrow>
    (\<exists>c. (\<exists>b row' rest k. L b row' \<and> U rest k \<and> rows' = row' # rest \<and> c = w b + k) \<and> n = c + a)" (is "?l \<longleftrightarrow> ?r")
proof
  assume ?l
  then obtain row1 rows1 b c where *: "L b row1" "U rows1 c" "n = c + (w b + a)" "rows' = row1 # rows1" by blast
  then have "n = (w b + c) + a" by simp
  with * show ?r by blast
next
  assume ?r
  then obtain row1 rows1 b c where *: "L b row1" "U rows1 c" "n = (w b + c) + a" "rows' = row1 # rows1" by blast
  then have "n = c + (w b + a)" by simp
  with * show ?l by blast
qed

lemma update_rows_local:
  assumes "unlimited L" and "\<forall>c. pu_condition p = Some c \<longrightarrow> local_expression c" and "a + length rows \<le> usize_max"
  shows "update_rows S L clock \<lparr>lu_model = m, lu_assignments = pu_assignments p, lu_condition = pu_condition p,
      lu_scope = sc, lu_fingerprint = fp\<rparr> [] k a rows = (rows', Inr n) \<longleftrightarrow>
    (\<exists>c. local_update_rows S (row_ops (ops_ext S) m') p rows = Inr (rows', c) \<and> n = c + a)"
  using assms(3)
proof (induction rows arbitrary: k a rows')
  case Nil
  then show ?case by auto
next
  case (Cons row rows)
  let ?w = "\<lparr>lu_model = m, lu_assignments = pu_assignments p, lu_condition = pu_condition p, lu_scope = sc, lu_fingerprint = fp\<rparr>"
  let ?L = "\<lambda>b row1. local_row S p row b row1"
  let ?U = "\<lambda>rows1 c. local_update_rows S (row_ops (ops_ext S) m') p rows = Inr (rows1, c)"
  have a: "a < usize_max" using Cons.prems by simp
  have "update_rows S L clock ?w [] k a (row # rows) = (rows', Inr n) \<longleftrightarrow>
      (\<exists>row1 a1 rows1. update_row S L clock ?w [] k a row = (row1, Inr a1) \<and>
        update_rows S L clock ?w [] (Suc k) a1 rows = (rows1, Inr n) \<and> rows' = row1 # rows1)"
    by (auto split: prod.splits sum.splits)
  also have "\<dots> \<longleftrightarrow> (\<exists>row1 a1 rows1. (\<exists>b. ?L b row1 \<and> a1 = of_bool b + a) \<and> (\<exists>c. ?U rows1 c \<and> n = c + a1) \<and>
      rows' = row1 # rows1)"
  proof -
    have "update_rows S L clock ?w [] (Suc k) (of_bool b + a) rows = (rows1, Inr n) \<longleftrightarrow>
        (\<exists>c. ?U rows1 c \<and> n = c + (of_bool b + a))" for b rows1
      by (rule Cons.IH) (use Cons.prems in \<open>auto simp: of_bool_def\<close>)
    then show ?thesis unfolding update_row_local [OF assms(1,2) a] by blast
  qed
  also have "\<dots> \<longleftrightarrow> (\<exists>c. local_update_rows S (row_ops (ops_ext S) m') p (row # rows) = Inr (rows', c) \<and> n = c + a)"
    unfolding local_update_rows_Cons by (rule regroup)
  finally show ?case .
qed

section \<open>Deletes\<close>

lemma selected_rows_local:
  assumes "unlimited L" and "\<forall>c. ld_condition w = Some c \<longrightarrow> local_expression c"
  shows "selected_rows S L clock w [] k rows = Inr bs \<longleftrightarrow>
    try_map (\<lambda>row. local_selected S (ld_condition w) (row_view row)) rows = Inr bs"
  using assms(1) local_condition [OF assms(2)]
  by (induction rows arbitrary: k bs) (auto simp: result_simps)

lemma retain_enumerate:
  "length bs = length xs \<Longrightarrow> map snd (filter (\<lambda>(i, x). \<not> (ds @ bs) ! i) (enumerate (length ds) xs)) = retain_unselected bs xs"
proof (induction bs xs arbitrary: ds rule: list_induct2)
  case Nil
  then show ?case by simp
next
  case (Cons b bs x xs)
  from Cons.IH [of "ds @ [b]"] show ?case by (cases b) (simp_all add: nth_append)
qed

lemma retain_subset: "set (retain_unselected bs xs) \<subseteq> set xs"
  by (induction bs xs rule: retain_unselected.induct) auto

lemma retain_map: "map f (retain_unselected bs xs) = retain_unselected bs (map f xs)"
  by (induction bs xs rule: retain_unselected.induct) auto

lemma retain_filter_sorted: "sorted_wrt P (filter Q xs) \<Longrightarrow> sorted_wrt P (filter Q (retain_unselected bs xs))"
  by (induction bs xs rule: retain_unselected.induct) (auto dest: retain_subset [THEN subsetD] split: if_splits)

lemma retain_valid: "dataset_valid B X m records \<Longrightarrow> dataset_valid B X m (retain_unselected bs records)"
  using retain_subset [of bs records]
  by (auto simp: dataset_valid_def tuples_distinct_def retain_map intro: retain_filter_sorted)

section \<open>One table\<close>

definition store_of :: "model_def \<Rightarrow> 'x dyn_row list \<Rightarrow> 'x tables" where
  "store_of m rows = [(md_key m, \<lparr>mt_model = m, mt_rows = rows\<rparr>)]"

lemma store_of_simps [simp]:
  "map_of (store_of m rows) (md_key m) = Some \<lparr>mt_model = m, mt_rows = rows\<rparr>"
  "put_rows m \<lparr>mt_model = m, mt_rows = rows0\<rparr> rows' (store_of m rows) = store_of m rows'"
  "table_mut B (store_of m rows) m = Inr \<lparr>mt_model = m, mt_rows = rows\<rparr>"
  "register_definition B m (store_of m rows) = Inr (store_of m rows)"
  "btree_inv (store_of m rows)"
  by (simp_all add: store_of_def put_rows_def table_mut_def register_definition_def btree_inv_def)

text \<open>The engine holds exactly this table, without references, and is validated.\<close>

definition holds :: "digest \<Rightarrow> 'x ext \<Rightarrow> model_def \<Rightarrow> 'x dyn_row list \<Rightarrow> 'x memory_engine \<Rightarrow> bool" where
  "holds B X m rows e \<longleftrightarrow>
     me_tables e = store_of m rows \<and> me_capabilities e = memory_capabilities \<and> me_validated e \<and>
     validate_tables B X (me_tables e) = Inr () \<and> md_references m = []"

lemma single_validate:
  "md_references m = [] \<Longrightarrow> validate_tables B X (store_of m rows) = Inr () \<longleftrightarrow>
    (\<exists>st. model_set_new [m] = Inr st) \<and> validate_dynamic_dataset B X m rows = Inr ()"
  by (auto simp: validate_tables_def store_of_def validate_store_references_def result_simps)

definition same_outcome :: "model_def \<Rightarrow> 'x dyn_row list \<times> nat res \<Rightarrow> 'x memory_engine \<times> nat res \<Rightarrow> bool" where
  "same_outcome m l r \<longleftrightarrow> me_tables (fst r) = store_of m (fst l) \<and> (\<forall>n. snd l = Inr n \<longleftrightarrow> snd r = Inr n)"

lemma request_allowed:
  "unlimited L \<Longrightarrow> validate_write_request memory_capabilities L w = Inr ()"
  by (simp add: validate_write_request_def write_support_def memory_capabilities_def split: write_kind.split)

lemma execute_single:
  assumes "holds B (ops_ext S) m rows e" and "unlimited L" and "write_model w = m"
    and "apply_write B S L clock ps w (store_of m rows) = (store_of m rows', r)"
  shows "r = Inr n \<Longrightarrow> validate_dynamic_dataset B (ops_ext S) m rows' = Inr () \<Longrightarrow>
      same_outcome m (rows', Inr n) (execute_write B S L clock ps w e)"
    and "r = Inl err \<Longrightarrow> same_outcome m (rows, Inl err') (execute_write B S L clock ps w e)"
proof -
  have restore: "restore_table (md_key m) (Some \<lparr>mt_model = m, mt_rows = rows\<rparr>) (store_of m rows') = store_of m rows"
    by (simp add: restore_table_def store_of_def)
  note simps = holds_def execute_write_def engine_validate_def request_allowed apply_atomic_write_def Let_def same_outcome_def
  show "same_outcome m (rows', Inr n) (execute_write B S L clock ps w e)"
    if "r = Inr n" "validate_dynamic_dataset B (ops_ext S) m rows' = Inr ()"
  proof -
    have "validate_tables B (ops_ext S) (store_of m rows') = Inr ()"
      using assms(1) that(2) by (auto simp: holds_def single_validate)
    with assms that(1) show ?thesis by (auto simp: simps)
  qed
  show "same_outcome m (rows, Inl err') (execute_write B S L clock ps w e)" if "r = Inl err"
    using assms that restore by (auto simp: simps)
qed

section \<open>Agreement\<close>

lemma data_validate_rows [simp]:
  "data_validate B X (row_ops X m) rows = validate_dynamic_dataset B X m rows"
  by (simp add: data_validate_def validate_dynamic_dataset_def)

lemma insert_single:
  assumes "unlimited L"
  shows "apply_insert B X L clock m new (store_of m rows) =
    (store_of m (rows @ new), and_then (validate_dynamic_dataset B X m (rows @ new)) (\<lambda>_. Inr (length new)))"
  using assms by (simp add: apply_insert_def finish_write_def)

lemma prefix_records:
  "validate_dynamic_dataset B X m (rows @ new) = Inr () \<Longrightarrow> r \<in> set new \<Longrightarrow> record_valid B X m (row_view r)"
  by (auto simp: validate_dynamic_dataset_def validate_dataset_def result_simps validate_record_ok)

lemma insert_agrees:
  assumes e: "holds B (ops_ext S) m rows e" and L: "unlimited L" and m: "model_canonical m" "dense m r"
  shows "same_outcome m (local_insert B (ops_ext S) (row_ops (ops_ext S) m) r rows)
    (engine_apply B S L clock [] (logical_insert_of B (ops_ext S) (Inr m) (row_view r)) e)"
proof (cases "record_valid B (ops_ext S) m (row_view r)")
  case True
  with logical_insert_Inr(1) [OF m, of B "ops_ext S"] obtain fp
    where w: "logical_insert_of B (ops_ext S) (Inr m) (row_view r) = Inr (LInsert \<lparr>li_model = m, li_row = r, li_fingerprint = fp\<rparr>)"
    by blast
  let ?v = "validate_dynamic_dataset B (ops_ext S) m (rows @ [r])"
  have "apply_write B S L clock [] (LInsert \<lparr>li_model = m, li_row = r, li_fingerprint = fp\<rparr>) (store_of m rows) =
      (store_of m (rows @ [r]), and_then ?v (\<lambda>_. Inr 1))"
    using L by (simp add: apply_write_def insert_single)
  from execute_single [OF e L _ this] show ?thesis
    using True
    by (cases ?v) (auto simp: w engine_apply_def local_insert_def validate_record_def validate_record_ok [THEN iffD2])
next
  case False
  have "\<nexists>w. logical_insert_of B (ops_ext S) (Inr m) (row_view r) = Inr w"
    using logical_insert_Inr [OF m, of B "ops_ext S"] False by blast
  then obtain err where "logical_insert_of B (ops_ext S) (Inr m) (row_view r) = Inl err"
    by (cases "logical_insert_of B (ops_ext S) (Inr m) (row_view r)") auto
  moreover obtain err' where "validate_record_against B (ops_ext S) m (row_view r) = Inl err'"
    using False validate_record_ok [of B "ops_ext S" m "row_view r"]
    by (cases "validate_record_against B (ops_ext S) m (row_view r)") auto
  ultimately show ?thesis
    using e by (simp add: engine_apply_def local_insert_def validate_record_def same_outcome_def holds_def)
qed

lemma insert_many_agrees:
  assumes e: "holds B (ops_ext S) m rows e" and L: "unlimited L" and m: "model_canonical m" "\<forall>r \<in> set new. dense m r"
  shows "same_outcome m (local_insert_many B (ops_ext S) (row_ops (ops_ext S) m) \<lparr>im_values = new, im_batch_rows = k\<rparr> rows)
    (engine_apply B S L clock []
       (logical_insert_many_of B (ops_ext S) (Inr m) \<lparr>im_values = map row_view new, im_batch_rows = k\<rparr>) e)"
proof (cases "validate_batch_size k = Inr () \<and> validate_dataset B (ops_ext S) m (map row_view new) = Inr ()")
  case True
  with logical_insert_many_Inr(1) [OF m, of B "ops_ext S" k] obtain fp
    where w: "logical_insert_many_of B (ops_ext S) (Inr m) \<lparr>im_values = map row_view new, im_batch_rows = k\<rparr> =
      Inr (LInsertMany \<lparr>lm_model = m, lm_rows = new, lm_batch_rows = k, lm_fingerprint = fp\<rparr>)"
    by blast
  let ?v = "validate_dynamic_dataset B (ops_ext S) m (rows @ new)"
  have "apply_write B S L clock [] (LInsertMany \<lparr>lm_model = m, lm_rows = new, lm_batch_rows = k, lm_fingerprint = fp\<rparr>)
      (store_of m rows) = (store_of m (rows @ new), and_then ?v (\<lambda>_. Inr (length new)))"
    using L by (simp add: apply_write_def insert_single)
  from execute_single [OF e L _ this] show ?thesis
    using True
    by (cases ?v) (auto simp: w engine_apply_def local_insert_many_def validate_dynamic_dataset_def [of B "ops_ext S" m new])
next
  case False
  let ?w = "logical_insert_many_of B (ops_ext S) (Inr m) \<lparr>im_values = map row_view new, im_batch_rows = k\<rparr>"
  have "\<nexists>w. ?w = Inr w"
    using logical_insert_many_Inr [OF m, of B "ops_ext S" k] False by blast
  then obtain err where w: "?w = Inl err" by (cases ?w) auto
  let ?c = "and_then (validate_batch_size k) (\<lambda>_. validate_dynamic_dataset B (ops_ext S) m new)"
  from False have "?c \<noteq> Inr ()" by (auto simp: result_simps validate_dynamic_dataset_def)
  then obtain err' where "?c = Inl err'" by (cases ?c) auto
  with w show ?thesis
    using e by (simp add: engine_apply_def local_insert_many_def same_outcome_def holds_def)
qed

lemma holds_records: "holds B X m rows e \<Longrightarrow> try_all (validate_record B X (row_ops X m)) rows = Inr ()"
  by (auto simp: holds_def single_validate validate_dynamic_dataset_def validate_dataset_def validate_record_def result_simps)

lemma update_agrees:
  fixes Q :: "'q \<Rightarrow> byte list res"
  assumes e: "holds B (ops_ext S) m rows e" and L: "unlimited L" and m: "model_canonical m" and len: "length rows \<le> usize_max"
  shows "same_outcome m (local_update B S Q (row_ops (ops_ext S) m) u all rows)
    (engine_apply B S L clock [] (logical_update_of B S Q (Inr m) u all) e)"
proof (cases "prepare_update B S Q (Inr m) u all")
  case (Inl err)
  then show ?thesis
    using e by (simp add: local_update_def logical_update_of_def engine_apply_def same_outcome_def holds_def)
next
  case (Inr p)
  let ?R = "row_ops (ops_ext S) m"
  obtain fp where w: "logical_update_of B S Q (Inr m) u all = Inr (LUpdate \<lparr>lu_model = m, lu_assignments = pu_assignments p,
      lu_condition = pu_condition p, lu_scope = scope_of all, lu_fingerprint = fp\<rparr>)"
    using Inr by (auto simp: logical_update_of_def fingerprint_update_def write_hasher_def)
  let ?w = "\<lparr>lu_model = m, lu_assignments = pu_assignments p, lu_condition = pu_condition p, lu_scope = scope_of all, lu_fingerprint = fp\<rparr>"
  have c: "\<forall>c. pu_condition p = Some c \<longrightarrow> local_expression c"
    using prepare_update_ok [OF Inr m] by (simp add: update_prepared_def)
  obtain rows1 r where rows: "update_rows S L clock ?w [] 1 0 rows = (rows1, r)" by fastforce
  let ?v = "validate_dynamic_dataset B (ops_ext S) m rows1"
  let ?r = "case r of Inl err \<Rightarrow> Inl err | Inr n \<Rightarrow> and_then ?v (\<lambda>_. Inr n)"
  have applied: "apply_write B S L clock [] (LUpdate ?w) (store_of m rows) = (store_of m rows1, ?r)"
    using L rows by (cases r) (simp_all add: apply_write_def apply_update_def finish_write_def)
  have same: "update_rows S L clock ?w [] 1 0 rows = (rows', Inr n) \<longleftrightarrow> local_update_rows S ?R p rows = Inr (rows', n)" for rows' n
    using update_rows_local [OF L c, of 0 rows S clock m "scope_of all" fp 1 rows' n m] len by simp
  have engine: "engine_apply B S L clock [] (logical_update_of B S Q (Inr m) u all) e = execute_write B S L clock [] (LUpdate ?w) e"
    by (simp add: engine_apply_def w)
  have "local_update B S Q ?R u all rows = (case and_then (local_update_rows S ?R p rows) (\<lambda>(rows', n).
      and_then (validate_dynamic_dataset B (ops_ext S) m rows') (\<lambda>_. Inr (rows', n))) of
      Inl err \<Rightarrow> (rows, Inl err) | Inr (rows', n) \<Rightarrow> (rows', Inr n))"
    using holds_records [OF e] by (simp add: local_update_def Inr local_apply_update_def)
  note outcome = this execute_single [OF e L _ applied]
  show ?thesis
  proof (cases r)
    case (Inl err)
    have "local_update_rows S ?R p rows \<noteq> Inr (rows', n)" for rows' n
      using same [of rows' n] rows Inl by simp
    then obtain err' where "local_update_rows S ?R p rows = Inl err'"
      by (cases "local_update_rows S ?R p rows") auto
    with outcome Inl show ?thesis unfolding engine by simp
  next
    case (Inr n)
    with rows have "local_update_rows S ?R p rows = Inr (rows1, n)" by (intro iffD1 [OF same]) simp
    with outcome Inr show ?thesis unfolding engine by (cases ?v) simp_all
  qed
qed

lemma delete_agrees:
  fixes Q :: "'q \<Rightarrow> byte list res"
  assumes e: "holds B (ops_ext S) m rows e" and L: "unlimited L"
    and m: "model_canonical m" "model_valid limits m" and laws: "ext_eq_laws (ops_ext S)"
    and btrees: "\<forall>r \<in> set rows. record_btrees m (row_view r)"
  shows "same_outcome m (local_delete B S Q (row_ops (ops_ext S) m) condition all rows)
    (engine_apply B S L clock [] (logical_delete_of B S Q (Inr m) condition all) e)"
proof (cases "prepare_delete B S Q (Inr m) condition all")
  case (Inl err)
  then show ?thesis
    using e by (simp add: local_delete_def logical_delete_of_def engine_apply_def same_outcome_def holds_def)
next
  case (Inr c)
  let ?R = "row_ops (ops_ext S) m"
  obtain fp where w: "logical_delete_of B S Q (Inr m) condition all =
      Inr (LDelete \<lparr>ld_model = m, ld_condition = c, ld_scope = scope_of all, ld_fingerprint = fp\<rparr>)"
    using Inr by (auto simp: logical_delete_of_def fingerprint_delete_def write_hasher_def)
  let ?w = "\<lparr>ld_model = m, ld_condition = c, ld_scope = scope_of all, ld_fingerprint = fp\<rparr>"
  have c: "\<forall>p. ld_condition ?w = Some p \<longrightarrow> local_expression p"
    using prepare_condition_ok [of B S Q "bind_single m" condition all c] Inr by (simp add: prepare_delete_def)
  have engine: "engine_apply B S L clock [] (logical_delete_of B S Q (Inr m) condition all) e = execute_write B S L clock [] (LDelete ?w) e"
    by (simp add: engine_apply_def w)
  have same: "selected_rows S L clock ?w [] 1 rows = Inr bs \<longleftrightarrow>
      try_map (\<lambda>row. local_selected S c (row_view row)) rows = Inr bs" for bs
    using selected_rows_local [OF L c] by simp
  have local_eq: "local_delete B S Q ?R condition all rows = (case try_map (\<lambda>row. local_selected S c (row_view row)) rows of
      Inl err \<Rightarrow> (rows, Inl err)
    | Inr flags \<Rightarrow> (map snd (filter (\<lambda>(i, row). \<not> flags ! i) (enumerate 0 rows)), Inr (length (filter id flags))))"
    using holds_records [OF e] by (simp add: local_delete_def Inr local_apply_delete_def)
  show ?thesis
  proof (cases "selected_rows S L clock ?w [] 1 rows")
    case (Inl err)
    then obtain err' where failed: "try_map (\<lambda>row. local_selected S c (row_view row)) rows = Inl err'"
      using same by (cases "try_map (\<lambda>row. local_selected S c (row_view row)) rows") auto
    have "apply_write B S L clock [] (LDelete ?w) (store_of m rows) = (store_of m rows, Inl err)"
      using L Inl by (simp add: apply_write_def apply_delete_def)
    from execute_single [OF e L _ this] failed show ?thesis unfolding engine local_eq by simp
  next
    case (Inr bs)
    have flags: "try_map (\<lambda>row. local_selected S c (row_view row)) rows = Inr bs" by (rule iffD1 [OF same Inr])
    then have len: "length bs = length rows" by (auto simp: try_map_Inr dest: list_all2_lengthD)
    have kept: "map snd (filter (\<lambda>(i, row). \<not> bs ! i) (enumerate 0 rows)) = retain_unselected bs rows"
      using retain_enumerate [OF len, of "[]"] by simp
    let ?v = "validate_dynamic_dataset B (ops_ext S) m (retain_unselected bs rows)"
    have valid: "?v = Inr ()"
    proof -
      have "dataset_valid B (ops_ext S) m (map row_view rows)"
        using e validate_dataset_decides [OF laws m, of "map row_view rows" B] btrees
        by (auto simp: holds_def single_validate validate_dynamic_dataset_def)
      from retain_valid [OF this, of bs] have "dataset_valid B (ops_ext S) m (map row_view (retain_unselected bs rows))"
        by (simp add: retain_map)
      then show ?thesis
        using validate_dataset_decides [OF laws m, of "map row_view (retain_unselected bs rows)" B] btrees retain_subset [of bs rows]
        by (auto simp: validate_dynamic_dataset_def)
    qed
    have "apply_write B S L clock [] (LDelete ?w) (store_of m rows) =
        (store_of m (retain_unselected bs rows), Inr (length (filter id bs)))"
      using L Inr valid by (simp add: apply_write_def apply_delete_def finish_write_def Let_def)
    from execute_single [OF e L _ this] valid show ?thesis unfolding engine local_eq flags by (simp add: kept)
  qed
qed

fun rows_of :: "('x, 'q, 'x dyn_row) authored \<Rightarrow> 'x dyn_row list" where
  "rows_of (AInsert r) = [r]"
| "rows_of (AInsertMany w) = im_values w"
| "rows_of _ = []"

lemma writes_agree:
  assumes "holds B (ops_ext S) m rows e" and "unlimited L"
    and "model_canonical m" and "model_valid limits m" and "ext_eq_laws (ops_ext S)"
    and "\<forall>r \<in> set rows. record_btrees m (row_view r)" and "length rows \<le> usize_max"
    and "\<forall>r \<in> set (rows_of a). dense m r"
  shows "same_outcome m (data_apply B S Q (row_ops (ops_ext S) m) a rows)
    (engine_apply B S L clock [] (logical_write_of B S Q (row_ops (ops_ext S) m) a) e)"
proof (cases a)
  case (AInsert r)
  with assms insert_agrees [OF assms(1-3), of r] show ?thesis by simp
next
  case (AInsertMany w)
  obtain new k where "w = \<lparr>im_values = new, im_batch_rows = k\<rparr>" by (cases w)
  with assms AInsertMany insert_many_agrees [OF assms(1-3), of new] show ?thesis by simp
next
  case (AUpdate u all)
  with update_agrees [OF assms(1-3,7)] show ?thesis by simp
next
  case (ADelete c all)
  with delete_agrees [OF assms(1-6)] show ?thesis by simp
qed

end
