(* ===== verification/Memory_Session.thy ===== *)
theory Memory_Session
  imports Memory_Laws
begin

text \<open>
  The memory engine as a state machine: sessions of engine operations and transactions, the invariant of
  every reachable state, and transactions as sequences of atomic writes (locale \<open>effective_writes\<close>).
\<close>

section \<open>Sequences of atomic writes\<close>

primrec run_writes :: "('w \<Rightarrow> 's \<Rightarrow> 's \<times> ('e + 'o)) \<Rightarrow> 'w list \<Rightarrow> 's \<Rightarrow> 's" where
  "run_writes exec [] s = s"
| "run_writes exec (w # ws) s = run_writes exec ws (fst (exec w s))"

text \<open>The writes of a sequence that succeed.\<close>

primrec accepted :: "('w \<Rightarrow> 's \<Rightarrow> 's \<times> ('e + 'o)) \<Rightarrow> 'w list \<Rightarrow> 's \<Rightarrow> 'w list" where
  "accepted exec [] s = []"
| "accepted exec (w # ws) s =
     (case exec w s of
        (s', Inl _) \<Rightarrow> accepted exec ws s'
      | (s', Inr _) \<Rightarrow> w # accepted exec ws s')"

locale atomic_writes =
  fixes exec :: "'w \<Rightarrow> 's \<Rightarrow> 's \<times> ('e + 'o)" and inv :: "'s \<Rightarrow> bool"
  assumes inv_exec: "inv s \<Longrightarrow> inv (fst (exec w s))"
    and atomic: "inv s \<Longrightarrow> exec w s = (s', Inl e) \<Longrightarrow> s' = s"
begin

lemma inv_run: "inv s \<Longrightarrow> inv (run_writes exec ws s)"
  by (induction ws arbitrary: s) (simp_all add: inv_exec)

text \<open>Failed writes leave no trace.\<close>

lemma run_accepted: "inv s \<Longrightarrow> run_writes exec (accepted exec ws s) s = run_writes exec ws s"
proof (induction ws arbitrary: s)
  case Nil
  then show ?case by simp
next
  case (Cons w ws)
  obtain s' r where e: "exec w s = (s', r)" by fastforce
  with Cons.prems inv_exec [of s w] have "inv s'" by simp
  with Cons e atomic [OF Cons.prems] show ?case by (cases r) auto
qed

lemma set_accepted: "set (accepted exec ws s) \<subseteq> set ws"
proof (induction ws arbitrary: s)
  case Nil
  then show ?case by simp
next
  case (Cons w ws)
  obtain s' r where "exec w s = (s', r)" by fastforce
  with Cons [of s'] show ?case by (auto split: sum.splits)
qed

end

locale effective_writes = atomic_writes +
  fixes eff :: "'a \<Rightarrow> 'b \<Rightarrow> 'b" and ok :: "'a \<Rightarrow> bool"
  assumes effective: "inv s \<Longrightarrow> ok w \<Longrightarrow> exec w s = (s', Inr n) \<Longrightarrow> s' = eff w s"
begin

lemma run_effects: "inv s \<Longrightarrow> list_all ok ws \<Longrightarrow> run_writes exec ws s = fold eff (accepted exec ws s) s"
proof (induction ws arbitrary: s)
  case Nil
  then show ?case by simp
next
  case (Cons w ws)
  obtain s' r where e: "exec w s = (s', r)" by fastforce
  with Cons.prems inv_exec [of s w] have "inv s'" by simp
  with Cons e show ?case
    by (cases r) (auto dest: atomic [OF Cons.prems(1)] effective [OF Cons.prems(1), of w])
qed

end

section \<open>The store as an instance\<close>

text \<open>A request: the write, its parameters and limits, and the clock while it runs.\<close>

record 'x write_request =
  wr_write :: "'x logical_write"
  wr_parameters :: "'x parameters"
  wr_limits :: write_limits
  wr_clock :: clock

definition store_effect :: "'x scalar_ops \<Rightarrow> 'x write_request \<Rightarrow> 'x tables \<Rightarrow> 'x tables" where
  "store_effect S r tables =
     (let t = target_table (wr_write r) tables
      in btree_insert (md_key (write_model (wr_write r)))
           (t\<lparr>mt_rows := write_effect S (wr_parameters r) (wr_write r) (mt_rows t)\<rparr>) tables)"

lemma store_effect_unique:
  assumes "btree_inv tables" and "btree_inv tables'" and "write_result B S (wr_parameters r) (wr_write r) tables tables' n"
  shows "tables' = store_effect S r tables"
  using assms by (intro btree_eqI)
    (simp_all add: store_effect_def write_result_def Let_def btree_inv_insert map_of_btree_insert)

interpretation stored: effective_writes
  "\<lambda>r. apply_atomic_write B S (wr_limits r) (wr_clock r) (wr_parameters r) validate (wr_write r)" btree_inv
  "store_effect S" "\<lambda>r. write_ok (wr_write r)" for B S validate
proof
  fix s :: "'a tables" and w :: "'a write_request" and s' e n
  let ?exec = "apply_atomic_write B S (wr_limits w) (wr_clock w) (wr_parameters w) validate (wr_write w)"
  assume inv: "btree_inv s"
  show inv': "btree_inv (fst (?exec s))" using inv by (rule atomic_inv)
  show "s' = s" if "?exec s = (s', Inl e)" using inv that by (rule atomic_error)
  show "s' = store_effect S w s" if "write_ok (wr_write w)" "?exec s = (s', Inr n)"
    using store_effect_unique [OF inv _ atomic_ok(1) [OF inv that(2,1)]] inv' that(2) by simp
qed

definition transaction_request :: "digest \<Rightarrow> 'x scalar_ops \<Rightarrow> capabilities \<Rightarrow> 'x write_request \<Rightarrow>
    'x memory_transaction \<Rightarrow> 'x memory_transaction \<times> nat res" where
  "transaction_request B S c r = transaction_write B S c (wr_limits r) (wr_clock r) (wr_parameters r) (wr_write r)"

definition transaction_effect :: "'x scalar_ops \<Rightarrow> 'x write_request \<Rightarrow> 'x memory_transaction \<Rightarrow> 'x memory_transaction" where
  "transaction_effect S r tx = tx\<lparr>tx_working := store_effect S r (tx_working tx), tx_writes := tx_writes tx + 1\<rparr>"

interpretation transacted: effective_writes
  "transaction_request B S c" "\<lambda>tx. btree_inv (tx_working tx)" "transaction_effect S" "\<lambda>r. write_ok (wr_write r)"
  for B S c
proof
  fix tx :: "'a memory_transaction" and r :: "'a write_request" and tx' e n
  assume inv: "btree_inv (tx_working tx)"
  obtain tables m where w: "apply_atomic_write B S (wr_limits r) (wr_clock r) (wr_parameters r)
      (validate_snapshot_limits (tx_limits tx)) (wr_write r) (tx_working tx) = (tables, m)" by fastforce
  have "btree_inv tables" using stored.inv_exec [OF inv] w by (metis fst_conv)
  then show "btree_inv (tx_working (fst (transaction_request B S c r tx)))"
    using inv w by (auto simp: transaction_request_def transaction_write_def split: sum.splits)
  show "tx' = tx" if "transaction_request B S c r tx = (tx', Inl e)"
    using that w stored.atomic [OF inv]
    by (cases m) (auto simp: transaction_request_def transaction_write_def split: sum.splits if_splits)
  show "tx' = transaction_effect S r tx"
    if "write_ok (wr_write r)" "transaction_request B S c r tx = (tx', Inr n)"
    using that w stored.effective [OF inv]
    by (cases m) (auto simp: transaction_request_def transaction_write_def transaction_effect_def
        split: sum.splits if_splits)
qed

section \<open>Sessions\<close>

text \<open>A transaction borrows its engine: while it is open, nothing else reaches the engine.\<close>

record 'x session =
  ss_engine :: "'x memory_engine"
  ss_tx :: "'x memory_transaction option"

inductive session_step :: "digest \<Rightarrow> 'x scalar_ops \<Rightarrow> 'x session \<Rightarrow> 'x session \<Rightarrow> bool"
  for B :: digest and S :: "'x scalar_ops" where
  step_clear: "session_step B S \<lparr>ss_engine = e, ss_tx = None\<rparr> \<lparr>ss_engine = engine_clear e, ss_tx = None\<rparr>"
| step_register: "engine_register B model e = (e', r) \<Longrightarrow>
    session_step B S \<lparr>ss_engine = e, ss_tx = None\<rparr> \<lparr>ss_engine = e', ss_tx = None\<rparr>"
| step_load: "engine_load B (ops_ext S) model records e = (e', r) \<Longrightarrow>
    session_step B S \<lparr>ss_engine = e, ss_tx = None\<rparr> \<lparr>ss_engine = e', ss_tx = None\<rparr>"
| step_load_dynamic: "engine_load_dynamic B (ops_ext S) m rows e = (e', r) \<Longrightarrow>
    session_step B S \<lparr>ss_engine = e, ss_tx = None\<rparr> \<lparr>ss_engine = e', ss_tx = None\<rparr>"
| step_validate: "engine_validate B (ops_ext S) e = (e', r) \<Longrightarrow>
    session_step B S \<lparr>ss_engine = e, ss_tx = None\<rparr> \<lparr>ss_engine = e', ss_tx = None\<rparr>"
| step_write: "write_ok w \<Longrightarrow> execute_write B S L clock ps w e = (e', n) \<Longrightarrow>
    session_step B S \<lparr>ss_engine = e, ss_tx = None\<rparr> \<lparr>ss_engine = e', ss_tx = None\<rparr>"
| step_begin: "begin_transaction B (ops_ext S) isolation TL e = (e', Inr tx) \<Longrightarrow>
    session_step B S \<lparr>ss_engine = e, ss_tx = None\<rparr> \<lparr>ss_engine = e', ss_tx = Some tx\<rparr>"
| step_begin_refused: "begin_transaction B (ops_ext S) isolation TL e = (e', Inl err) \<Longrightarrow>
    session_step B S \<lparr>ss_engine = e, ss_tx = None\<rparr> \<lparr>ss_engine = e', ss_tx = None\<rparr>"
| step_transaction_write: "write_ok w \<Longrightarrow> transaction_write B S (me_capabilities e) L clock ps w tx = (tx', n) \<Longrightarrow>
    session_step B S \<lparr>ss_engine = e, ss_tx = Some tx\<rparr> \<lparr>ss_engine = e, ss_tx = Some tx'\<rparr>"
| step_commit: "transaction_commit B (ops_ext S) tx e = (e', r) \<Longrightarrow>
    session_step B S \<lparr>ss_engine = e, ss_tx = Some tx\<rparr> \<lparr>ss_engine = e', ss_tx = None\<rparr>"
| step_rollback: "transaction_rollback tx e = (e', r) \<Longrightarrow>
    session_step B S \<lparr>ss_engine = e, ss_tx = Some tx\<rparr> \<lparr>ss_engine = e', ss_tx = None\<rparr>"

inductive reachable :: "digest \<Rightarrow> 'x scalar_ops \<Rightarrow> 'x session \<Rightarrow> bool" for B :: digest and S :: "'x scalar_ops" where
  reachable_new: "reachable B S \<lparr>ss_engine = engine_new, ss_tx = None\<rparr>"
| reachable_step: "reachable B S s \<Longrightarrow> session_step B S s s' \<Longrightarrow> reachable B S s'"

section \<open>The invariant\<close>

text \<open>Every table is filed under the key of its model and its rows satisfy the model.\<close>

definition store_inv :: "digest \<Rightarrow> 'x ext \<Rightarrow> 'x tables \<Rightarrow> bool" where
  "store_inv B X tables \<longleftrightarrow>
     btree_inv tables \<and>
     (\<forall>k t. map_of tables k = Some t \<longrightarrow>
        md_key (mt_model t) = k \<and> validate_dynamic_dataset B X (mt_model t) (mt_rows t) = Inr ())"

definition engine_inv :: "digest \<Rightarrow> 'x ext \<Rightarrow> 'x memory_engine \<Rightarrow> bool" where
  "engine_inv B X e \<longleftrightarrow>
     me_capabilities e = memory_capabilities \<and> store_inv B X (me_tables e) \<and>
     (me_validated e \<longrightarrow> validate_tables B X (me_tables e) = Inr ())"

definition transaction_inv :: "digest \<Rightarrow> 'x ext \<Rightarrow> 'x memory_transaction \<Rightarrow> bool" where
  "transaction_inv B X tx \<longleftrightarrow>
     store_inv B X (tx_working tx) \<and> validate_snapshot_limits (tx_limits tx) (tx_working tx) = Inr () \<and>
     tx_writes tx \<le> tl_max_writes (tx_limits tx)"

definition session_inv :: "digest \<Rightarrow> 'x ext \<Rightarrow> 'x session \<Rightarrow> bool" where
  "session_inv B X s \<longleftrightarrow> engine_inv B X (ss_engine s) \<and>
     (\<forall>tx. ss_tx s = Some tx \<longrightarrow> me_validated (ss_engine s) \<and> transaction_inv B X tx)"

lemma validate_empty: "validate_dynamic_dataset B X m [] = Inr ()"
  by (auto simp: validate_dynamic_dataset_def validate_dataset_def validate_unique_tuple_def try_all_ok
      split: option.split)

lemma store_inv_insert:
  "store_inv B X tables \<Longrightarrow> validate_dynamic_dataset B X (mt_model t) (mt_rows t) = Inr () \<Longrightarrow>
    md_key (mt_model t) = k \<Longrightarrow> store_inv B X (btree_insert k t tables)"
  by (auto simp: store_inv_def btree_inv_insert map_of_btree_insert)

lemma load_dynamic_inv: "store_inv B X tables \<Longrightarrow> load_dynamic B X m rows tables = Inr tables' \<Longrightarrow> store_inv B X tables'"
  by (auto simp: load_dynamic_def result_simps intro!: store_inv_insert split: if_splits)

lemma load_dataset_inv: "store_inv B X tables \<Longrightarrow> load_dataset B X model records tables = Inr tables' \<Longrightarrow> store_inv B X tables'"
  by (auto simp: load_dataset_def result_simps intro: load_dynamic_inv)

lemma register_inv: "store_inv B X tables \<Longrightarrow> register_model B model tables = Inr tables' \<Longrightarrow> store_inv B X tables'"
  by (auto simp: register_model_def register_definition_def result_simps validate_empty intro!: store_inv_insert
      split: option.splits if_splits)

lemma atomic_store_inv:
  assumes "store_inv B (ops_ext S) tables" and "apply_atomic_write B S L clock ps validate w tables = (tables', r)" and "write_ok w"
  shows "store_inv B (ops_ext S) tables'"
proof (cases r)
  case (Inl e)
  from assms(1) have "btree_inv tables" by (simp add: store_inv_def)
  from atomic_error [OF this] assms(2) Inl have "tables' = tables" by blast
  with assms(1) show ?thesis by simp
next
  case (Inr n)
  have inv: "btree_inv tables" "btree_inv tables'"
    using assms(1,2) atomic_inv [of tables B S L clock ps validate w] by (simp_all add: store_inv_def)
  from atomic_ok(1) [OF inv(1) _ assms(3)] assms(2) Inr have res: "write_result B S ps w tables tables' n" by simp
  have "md_key (mt_model (target_table w tables)) = md_key (write_model w)"
    using assms(1) by (auto simp: target_table_def store_inv_def split: option.split)
  with res assms(1) inv(2) show ?thesis by (auto simp: store_inv_def write_result_def Let_def)
qed

lemma change_tables_inv:
  "engine_inv B X e \<Longrightarrow> (\<And>tables. r = Inr tables \<Longrightarrow> store_inv B X tables) \<Longrightarrow> change_tables r e = (e', u) \<Longrightarrow> engine_inv B X e'"
  by (auto simp: change_tables_def engine_inv_def split: sum.splits)

lemma engine_change_inv:
  "engine_register B model e = (e', u) \<Longrightarrow> engine_inv B X e \<Longrightarrow> engine_inv B X e'"
  "engine_load B X model records e = (e', u) \<Longrightarrow> engine_inv B X e \<Longrightarrow> engine_inv B X e'"
  "engine_load_dynamic B X m rows e = (e', u) \<Longrightarrow> engine_inv B X e \<Longrightarrow> engine_inv B X e'"
  unfolding engine_register_def engine_load_def engine_load_dynamic_def
  by (erule change_tables_inv [rotated 2]; auto simp: engine_inv_def intro: register_inv load_dataset_inv load_dynamic_inv)+

lemma engine_validate_inv:
  "engine_inv B X e \<Longrightarrow> engine_validate B X e = (e', r) \<Longrightarrow>
    engine_inv B X e' \<and> me_tables e' = me_tables e \<and> (r = Inr () \<longrightarrow> me_validated e')"
  by (auto simp: engine_validate_def engine_inv_def split: sum.splits if_splits)

lemma execute_write_inv:
  assumes "engine_inv B (ops_ext S) e" and "write_ok w" and "execute_write B S L clock ps w e = (e', r)"
  shows "engine_inv B (ops_ext S) e'"
proof -
  obtain e1 u where v: "engine_validate B (ops_ext S) e = (e1, u)" by fastforce
  note e1 = engine_validate_inv [OF assms(1) v]
  obtain tables n where w: "apply_atomic_write B S L clock ps (validate_tables B (ops_ext S)) w (me_tables e1) = (tables, n)"
    by fastforce
  from e1 have inv: "store_inv B (ops_ext S) (me_tables e1)" "btree_inv (me_tables e1)"
    unfolding engine_inv_def store_inv_def by blast+
  have tables: "store_inv B (ops_ext S) tables" by (rule atomic_store_inv [OF inv(1) w assms(2)])
  have "tables = me_tables e1" if "n = Inl err" for err using atomic_error [OF inv(2)] w that by auto
  moreover have "validate_tables B (ops_ext S) tables = Inr ()" if "n = Inr m" for m
    using atomic_ok(2) [OF inv(2) _ assms(2)] w that by auto
  ultimately show ?thesis
    using assms(1,3) e1 v w tables
    by (cases n; cases u) (auto simp: execute_write_def engine_inv_def split: sum.splits)
qed

lemma execute_write_effect:
  assumes "engine_inv B (ops_ext S) e" and "write_ok w" and "execute_write B S L clock ps w e = (e', r)"
  shows "case r of
      Inl err \<Rightarrow> me_tables e' = me_tables e
    | Inr n \<Rightarrow> write_result B S ps w (me_tables e) (me_tables e') n \<and>
        validate_tables B (ops_ext S) (me_tables e') = Inr ()"
proof -
  obtain e1 u where v: "engine_validate B (ops_ext S) e = (e1, u)" by fastforce
  note e1 = engine_validate_inv [OF assms(1) v]
  obtain tables n where w: "apply_atomic_write B S L clock ps (validate_tables B (ops_ext S)) w (me_tables e1) = (tables, n)"
    by fastforce
  from e1 have inv: "btree_inv (me_tables e1)" unfolding engine_inv_def store_inv_def by blast
  have "tables = me_tables e1" if "n = Inl err" for err using atomic_error [OF inv] w that by auto
  moreover have "write_result B S ps w (me_tables e1) tables m \<and> validate_tables B (ops_ext S) tables = Inr ()"
    if "n = Inr m" for m using atomic_ok [OF inv _ assms(2)] w that by auto
  ultimately show ?thesis
    using assms(3) e1 v w by (cases n; cases u) (auto simp: execute_write_def split: sum.splits)
qed

lemma transaction_write_inv:
  assumes "transaction_inv B (ops_ext S) tx" and "write_ok w" and "transaction_write B S c L clock ps w tx = (tx', r)"
  shows "transaction_inv B (ops_ext S) tx'"
proof -
  obtain tables n where w: "apply_atomic_write B S L clock ps (validate_snapshot_limits (tx_limits tx)) w (tx_working tx) = (tables, n)"
    by fastforce
  from assms(1) have inv: "store_inv B (ops_ext S) (tx_working tx)" "btree_inv (tx_working tx)"
    by (simp_all add: transaction_inv_def store_inv_def)
  have tables: "store_inv B (ops_ext S) tables" by (rule atomic_store_inv [OF inv(1) w assms(2)])
  have "tables = tx_working tx" if "n = Inl err" for err using atomic_error [OF inv(2)] w that by auto
  moreover have "validate_snapshot_limits (tx_limits tx) tables = Inr ()" if "n = Inr m" for m
    using atomic_ok(2) [OF inv(2) _ assms(2)] w that by auto
  ultimately show ?thesis
    using assms(1,3) w tables
    by (cases n) (auto simp: transaction_write_def transaction_inv_def split: sum.splits if_splits)
qed

lemma engine_new_inv: "engine_inv B X engine_new"
  by (simp add: engine_inv_def engine_new_def store_inv_def btree_inv_def validate_tables_def model_set_new_def
      validate_store_references_def validate_cross_model_def validate_type_universe_def)

lemma session_step_inv: "session_step B S s s' \<Longrightarrow> session_inv B (ops_ext S) s \<Longrightarrow> session_inv B (ops_ext S) s'"
proof (induction rule: session_step.induct)
  case (step_clear e)
  then show ?case using engine_new_inv [of B "ops_ext S"]
    by (simp add: session_inv_def engine_inv_def engine_clear_def engine_new_def)
next
  case (step_begin isolation TL e e' tx)
  obtain e1 u where v: "engine_validate B (ops_ext S) e = (e1, u)" by fastforce
  with step_begin engine_validate_inv [OF _ v] show ?case
    by (auto simp: session_inv_def begin_transaction_def transaction_inv_def engine_inv_def result_simps
        split: sum.splits if_splits)
next
  case (step_begin_refused isolation TL e e' err)
  obtain e1 u where v: "engine_validate B (ops_ext S) e = (e1, u)" by fastforce
  with step_begin_refused engine_validate_inv [OF _ v] show ?case
    by (auto simp: session_inv_def begin_transaction_def split: sum.splits if_splits)
next
  case (step_commit tx e e' r)
  then show ?case
    by (auto simp: session_inv_def transaction_commit_def transaction_inv_def engine_inv_def result_simps split: sum.splits)
qed (auto simp: session_inv_def transaction_rollback_def
    intro: engine_change_inv execute_write_inv transaction_write_inv dest: engine_validate_inv)

lemma reachable_inv: "reachable B S s \<Longrightarrow> session_inv B (ops_ext S) s"
proof (induction rule: reachable.induct)
  case reachable_new
  show ?case by (simp add: session_inv_def engine_new_inv)
next
  case (reachable_step s s')
  then show ?case by (blast intro: session_step_inv)
qed

section \<open>Transactions as sequences of writes\<close>

lemma transaction_effects:
  "fold (transaction_effect S) rs tx =
    tx\<lparr>tx_working := fold (store_effect S) rs (tx_working tx), tx_writes := tx_writes tx + length rs\<rparr>"
  by (induction rs arbitrary: tx) (simp_all add: transaction_effect_def)

lemma transaction_bounded:
  "tx_writes tx \<le> tl_max_writes (tx_limits tx) \<Longrightarrow>
    tx_writes (run_writes (transaction_request B S c) rs tx) \<le> tl_max_writes (tx_limits tx) \<and>
    tx_limits (run_writes (transaction_request B S c) rs tx) = tx_limits tx"
proof (induction rs arbitrary: tx)
  case Nil
  then show ?case by simp
next
  case (Cons r rs)
  have "tx_writes (fst (transaction_request B S c r tx)) \<le> tl_max_writes (tx_limits tx) \<and>
      tx_limits (fst (transaction_request B S c r tx)) = tx_limits tx"
    using Cons.prems by (auto simp: transaction_request_def transaction_write_def split: sum.splits prod.splits)
  with Cons.IH [of "fst (transaction_request B S c r tx)"] show ?case by simp
qed

lemma begin_ok:
  assumes "begin_transaction B X isolation TL e = (e', Inr tx)" and "engine_inv B X e"
  shows "tx = \<lparr>tx_working = me_tables e, tx_limits = TL, tx_writes = 0\<rparr>" and "me_tables e' = me_tables e"
    and "engine_inv B X e'" and "btree_inv (me_tables e)" and "0 < tl_max_writes TL"
proof -
  obtain e1 u where v: "engine_validate B X e = (e1, u)" by fastforce
  note e1 = engine_validate_inv [OF assms(2) v]
  from assms(1) v have "e' = e1" "tx = \<lparr>tx_working = me_tables e1, tx_limits = TL, tx_writes = 0\<rparr>"
    "0 < tl_max_writes TL"
    by (auto simp: begin_transaction_def result_simps split: sum.splits if_splits)
  with e1 show "tx = \<lparr>tx_working = me_tables e, tx_limits = TL, tx_writes = 0\<rparr>" "me_tables e' = me_tables e"
    "engine_inv B X e'" "0 < tl_max_writes TL" by simp_all
  from assms(2) show "btree_inv (me_tables e)" by (simp add: engine_inv_def store_inv_def)
qed

lemma transaction_serial:
  assumes inv: "engine_inv B (ops_ext S) e" and "begin_transaction B (ops_ext S) isolation TL e = (e0, Inr tx0)"
    and ok: "list_all (\<lambda>r. write_ok (wr_write r)) rs"
    and "transaction_commit B (ops_ext S) (run_writes (transaction_request B S c) rs tx0) e0 = (e1, r)"
  defines "done_writes \<equiv> accepted (transaction_request B S c) rs tx0"
  shows "length done_writes \<le> tl_max_writes TL \<and>
    (case r of
       Inl err \<Rightarrow> me_tables e1 = me_tables e
     | Inr _ \<Rightarrow> me_tables e1 = fold (store_effect S) done_writes (me_tables e) \<and>
         validate_tables B (ops_ext S) (me_tables e1) = Inr ())"
proof -
  note start = begin_ok [OF assms(2) inv]
  have "run_writes (transaction_request B S c) rs tx0 = fold (transaction_effect S) done_writes tx0"
    unfolding done_writes_def using transacted.run_effects [OF _ ok, of tx0] start(1,4) by simp
  then have run: "run_writes (transaction_request B S c) rs tx0 =
      tx0\<lparr>tx_working := fold (store_effect S) done_writes (me_tables e), tx_writes := length done_writes\<rparr>"
    using start(1) by (simp add: transaction_effects)
  have "length done_writes \<le> tl_max_writes TL"
    using transaction_bounded [of tx0 B S c rs, unfolded run] by (simp add: start(1))
  then show ?thesis
    using assms(4) start(2) unfolding run by (auto simp: transaction_commit_def result_simps split: sum.splits)
qed

text \<open>Progress: writes that succeed one by one on the engine also succeed inside a transaction.\<close>

definition engine_request :: "digest \<Rightarrow> 'x scalar_ops \<Rightarrow> 'x write_request \<Rightarrow> 'x memory_engine \<Rightarrow>
    'x memory_engine \<times> nat res" where
  "engine_request B S r = execute_write B S (wr_limits r) (wr_clock r) (wr_parameters r) (wr_write r)"

definition snapshots_fit :: "digest \<Rightarrow> 'x scalar_ops \<Rightarrow> transaction_limits \<Rightarrow> 'x write_request list \<Rightarrow> 'x memory_engine \<Rightarrow> bool" where
  "snapshots_fit B S L rs e \<longleftrightarrow>
     (\<forall>k \<le> length rs. validate_snapshot_limits L (me_tables (run_writes (engine_request B S) (take k rs) e)) = Inr ())"

lemma snapshots_fit_Cons:
  "snapshots_fit B S L (r # rs) e \<longleftrightarrow>
    validate_snapshot_limits L (me_tables e) = Inr () \<and> snapshots_fit B S L rs (fst (engine_request B S r e))"
  by (simp add: snapshots_fit_def less_Suc_eq_le [symmetric] All_less_Suc2 del: less_Suc_eq_le)

lemma atomic_validator:
  "apply_atomic_write B S L clock ps validate w tables = (tables', Inr n) \<Longrightarrow> validate' tables' = Inr () \<Longrightarrow>
    apply_atomic_write B S L clock ps validate' w tables = (tables', Inr n)"
  by (auto simp: apply_atomic_write_def Let_def split: prod.splits sum.splits)

lemma execute_write_success:
  assumes "me_validated e" and "execute_write B S L clock ps w e = (e', Inr n)"
  shows "validate_write_request (me_capabilities e) L w = Inr ()"
    and "apply_atomic_write B S L clock ps (validate_tables B (ops_ext S)) w (me_tables e) = (me_tables e', Inr n)"
    and "me_validated e'" and "me_capabilities e' = me_capabilities e"
  using assms by (auto simp: execute_write_def engine_validate_def split: sum.splits prod.splits)

lemma transaction_follows:
  assumes "me_validated e" and "tx_working tx = me_tables e" and "tx_writes tx + length rs \<le> tl_max_writes (tx_limits tx)"
    and "accepted (engine_request B S) rs e = rs" and "snapshots_fit B S (tx_limits tx) rs e"
  shows "run_writes (transaction_request B S (me_capabilities e)) rs tx =
      tx\<lparr>tx_working := me_tables (run_writes (engine_request B S) rs e), tx_writes := tx_writes tx + length rs\<rparr> \<and>
    accepted (transaction_request B S (me_capabilities e)) rs tx = rs"
  using assms
proof (induction rs arbitrary: e tx)
  case Nil
  then show ?case by simp
next
  case (Cons r rs)
  obtain e' x where step: "engine_request B S r e = (e', x)" by fastforce
  have "length (accepted (engine_request B S) rs e') \<le> length rs"
    by (induction rs arbitrary: e') (auto split: prod.split sum.split intro: le_SucI)
  with Cons.prems(4) step obtain n where x: "x = Inr n" and rest: "accepted (engine_request B S) rs e' = rs"
    by (cases x) auto
  note ok = execute_write_success [OF Cons.prems(1) step [unfolded engine_request_def x]]
  let ?tx = "tx\<lparr>tx_working := me_tables e', tx_writes := tx_writes tx + 1\<rparr>"
  have fit: "snapshots_fit B S (tx_limits tx) rs e'" using Cons.prems(5) step by (simp add: snapshots_fit_Cons)
  then have "validate_snapshot_limits (tx_limits tx) (me_tables e') = Inr ()"
    by (auto simp: snapshots_fit_def dest: spec [where x = 0])
  from atomic_validator [OF ok(2), of "validate_snapshot_limits (tx_limits tx)", OF this] ok(1) Cons.prems(2,3)
  have "transaction_request B S (me_capabilities e) r tx = (?tx, Inr n)"
    by (simp add: transaction_request_def transaction_write_def)
  moreover have "run_writes (transaction_request B S (me_capabilities e')) rs ?tx =
      ?tx\<lparr>tx_working := me_tables (run_writes (engine_request B S) rs e'), tx_writes := tx_writes ?tx + length rs\<rparr> \<and>
    accepted (transaction_request B S (me_capabilities e')) rs ?tx = rs"
    by (rule Cons.IH) (use ok(3) rest fit Cons.prems(3) in simp_all)
  ultimately show ?case using step ok(4) by simp
qed

lemma engine_run_validated:
  assumes "me_validated e" and "engine_inv B (ops_ext S) e" and "list_all (\<lambda>r. write_ok (wr_write r)) rs"
  shows "engine_inv B (ops_ext S) (run_writes (engine_request B S) rs e) \<and> me_validated (run_writes (engine_request B S) rs e)"
  using assms
proof (induction rs arbitrary: e)
  case Nil
  then show ?case by simp
next
  case (Cons r rs)
  obtain e' x where step: "engine_request B S r e = (e', x)" by fastforce
  with execute_write_inv [OF Cons.prems(2), of "wr_write r"] Cons.prems(3) have "engine_inv B (ops_ext S) e'"
    by (simp add: engine_request_def)
  moreover have "me_validated e'"
    using step Cons.prems(1) by (auto simp: engine_request_def execute_write_def engine_validate_def split: sum.splits prod.splits)
  ultimately show ?case using Cons.IH [of e'] Cons.prems(3) step by simp
qed

lemma transaction_commits:
  assumes "engine_inv B (ops_ext S) e" and "me_validated e" and "list_all (\<lambda>r. write_ok (wr_write r)) rs"
    and "accepted (engine_request B S) rs e = rs" and "snapshots_fit B S TL rs e"
    and "length rs \<le> tl_max_writes TL" and "0 < tl_max_writes TL" "0 < tl_max_snapshot_rows TL" "0 < tl_max_snapshot_bytes TL"
  shows "\<exists>tx. begin_transaction B (ops_ext S) isolation TL e = (e, Inr tx) \<and>
    transaction_commit B (ops_ext S) (run_writes (transaction_request B S (me_capabilities e)) rs tx) e =
      (e\<lparr>me_tables := me_tables (run_writes (engine_request B S) rs e)\<rparr>, Inr ())"
proof -
  let ?tx = "\<lparr>tx_working = me_tables e, tx_limits = TL, tx_writes = 0\<rparr>"
  let ?e = "run_writes (engine_request B S) rs e"
  have "validate_snapshot_limits TL (me_tables e) = Inr ()" and last: "validate_snapshot_limits TL (me_tables ?e) = Inr ()"
    using assms(5) by (auto simp: snapshots_fit_def dest: spec [where x = 0])
  then have start: "begin_transaction B (ops_ext S) isolation TL e = (e, Inr ?tx)"
    using assms(2,7-9) by (cases isolation) (simp add: begin_transaction_def engine_validate_def)
  have run: "run_writes (transaction_request B S (me_capabilities e)) rs ?tx =
      \<lparr>tx_working = me_tables ?e, tx_limits = TL, tx_writes = length rs\<rparr>"
    using transaction_follows [of e ?tx rs B S] assms(2,4-6) by simp
  have "validate_tables B (ops_ext S) (me_tables ?e) = Inr ()"
    using engine_run_validated [OF assms(2,1,3)] by (simp add: engine_inv_def)
  then show ?thesis
    using start last assms(2) unfolding run by (intro exI [of _ ?tx]) (simp add: run transaction_commit_def)
qed

end
