(* ===== verification/Wire_Envelope.thy ===== *)
theory Wire_Envelope
  imports Type_Validate
begin

text \<open>
  \<open>dol-wire\<close>: decode limits (\<open>budget/mod.rs\<close>), wire errors (\<open>error.rs\<close>), the mapping of core
  diagnostics to wire errors (\<open>validate/mod.rs\<close>), and the fixed frame header (\<open>envelope/mod.rs\<close>,
  \<open>encode_envelope\<close>, \<open>decode_envelope\<close>), with the proof that frame encoding and decoding are inverse.
\<close>

section \<open>Limits\<close>

record decode_limits =
  max_total_bytes :: nat
  max_nodes :: nat
  max_depth :: nat
  max_string_bytes :: nat
  max_literal_bytes :: nat
  max_list_items :: nat

definition default_decode_limits :: decode_limits where
  "default_decode_limits =
     \<lparr>max_total_bytes = 8 * 1024 * 1024, max_nodes = 65536, max_depth = 128,
      max_string_bytes = 1024 * 1024, max_literal_bytes = 4 * 1024 * 1024, max_list_items = 65536\<rparr>"

definition deny_all :: decode_limits where
  "deny_all =
     \<lparr>max_total_bytes = 0, max_nodes = 0, max_depth = 0, max_string_bytes = 0,
      max_literal_bytes = 0, max_list_items = 0\<rparr>"

definition definition_limits :: "decode_limits \<Rightarrow> definition_limits" where
  "definition_limits L =
     \<lparr>max_fields = max_list_items L, max_relations = max_list_items L,
      max_constraints = max_list_items L, max_type_depth = max_depth L,
      max_type_nodes = max_nodes L, max_name_bytes = max_string_bytes L\<rparr>"

section \<open>Errors\<close>

datatype wire_error_kind =
    LimitExceeded | InvalidMagic | UnsupportedVersion | UnsupportedPayload | InvalidHeader
  | LengthMismatch | UnexpectedEof | InvalidTag | InvalidUtf8 | InvalidValue | NonCanonical
  | UnsupportedValue

record wire_error =
  we_kind :: wire_error_kind
  we_offset :: "nat option"
  we_message :: string

type_synonym 'a wres = "wire_error + 'a"

definition wire_new :: "wire_error_kind \<Rightarrow> string \<Rightarrow> wire_error" where
  "wire_new k m = \<lparr>we_kind = k, we_offset = None, we_message = m\<rparr>"

definition wire_at :: "wire_error_kind \<Rightarrow> nat \<Rightarrow> string \<Rightarrow> wire_error" where
  "wire_at k off m = \<lparr>we_kind = k, we_offset = Some off, we_message = m\<rparr>"

definition limit_error :: "string \<Rightarrow> wire_error" where
  "limit_error m = wire_new LimitExceeded m"

definition limit_at :: "nat \<Rightarrow> string \<Rightarrow> wire_error" where
  "limit_at off m = wire_at LimitExceeded off m"

definition invalid_tag :: "nat \<Rightarrow> string \<Rightarrow> byte \<Rightarrow> wire_error" where
  "invalid_tag off kind t =
     wire_at InvalidTag off (''invalid '' @ kind @ '' tag '' @ show_nat (unat t))"

lemma wire_error_offsets [simp]:
  "we_offset (wire_new k m) = None" "we_offset (limit_error m) = None"
  "we_offset (wire_at k off m) = Some off" "we_offset (limit_at off m) = Some off"
  "we_offset (invalid_tag off m t) = Some off"
  by (simp_all add: wire_new_def wire_at_def limit_error_def limit_at_def invalid_tag_def)

text \<open>\<open>core_error\<close>: the category is read off the text of the diagnostic.\<close>

definition core_error :: "diagnostic \<Rightarrow> wire_error" where
  "core_error d =
     (let kind = if str_contains ''limit'' (message d) \<or> str_contains ''exceeds '' (message d)
                 then LimitExceeded else InvalidValue
      in wire_new kind (code d @ '': '' @ message d))"

section \<open>The envelope\<close>

definition MAGIC :: "byte list" where "MAGIC = [68, 79, 76, 87]"
definition MAJOR_VERSION :: u16 where "MAJOR_VERSION = 1"
definition MINOR_VERSION :: u16 where "MINOR_VERSION = 0"
definition HEADER_LEN :: nat where "HEADER_LEN = 20"

datatype payload_kind = PKTypeDef | PKTypedDatum | PKModelDef | PKModelSet

fun payload_tag :: "payload_kind \<Rightarrow> byte" where
  "payload_tag PKTypeDef = 1"
| "payload_tag PKTypedDatum = 2"
| "payload_tag PKModelDef = 3"
| "payload_tag PKModelSet = 4"

definition payload_from_tag :: "byte \<Rightarrow> nat \<Rightarrow> payload_kind wres" where
  "payload_from_tag t off =
     (if t = 1 then Inr PKTypeDef
      else if t = 2 then Inr PKTypedDatum
      else if t = 3 then Inr PKModelDef
      else if t = 4 then Inr PKModelSet
      else Inl (wire_at UnsupportedPayload off (''unknown payload kind '' @ show_nat (unat t))))"

fun payload_debug :: "payload_kind \<Rightarrow> string" where
  "payload_debug PKTypeDef = ''TypeDef''"
| "payload_debug PKTypedDatum = ''TypedDatum''"
| "payload_debug PKModelDef = ''ModelDef''"
| "payload_debug PKModelSet = ''ModelSet''"

record envelope =
  env_major :: u16
  env_minor :: u16
  env_kind :: payload_kind
  env_payload :: "byte list"

definition envelope_new :: "payload_kind \<Rightarrow> byte list \<Rightarrow> envelope" where
  "envelope_new k p =
     \<lparr>env_major = MAJOR_VERSION, env_minor = MINOR_VERSION, env_kind = k, env_payload = p\<rparr>"

definition envelope_decoded :: "u16 \<Rightarrow> u16 \<Rightarrow> payload_kind \<Rightarrow> byte list \<Rightarrow> envelope" where
  "envelope_decoded major minor k p =
     \<lparr>env_major = major, env_minor = minor, env_kind = k, env_payload = p\<rparr>"

text \<open>\<open>u64::try_from(usize)\<close> and \<open>usize::try_from(u64)\<close>.\<close>

definition u64_try_from_usize :: "nat \<Rightarrow> u64 option" where
  "u64_try_from_usize n = (if n < 2 ^ 64 then Some (of_nat n) else None)"

definition usize_try_from_u64 :: "u64 \<Rightarrow> nat option" where
  "usize_try_from_u64 w = (if unat w \<le> usize_max then Some (unat w) else None)"

definition frame_header :: "envelope \<Rightarrow> u64 \<Rightarrow> byte list" where
  "frame_header env payload_len =
     MAGIC @ u16_be (env_major env) @ u16_be (env_minor env) @ [payload_tag (env_kind env)] @ [0] @
     u16_be 0 @ u64_be payload_len"

definition encode_envelope :: "envelope \<Rightarrow> decode_limits \<Rightarrow> byte list wres" where
  "encode_envelope env L =
     (if env_major env \<noteq> MAJOR_VERSION \<or> env_minor env > MINOR_VERSION
      then Inl (wire_new UnsupportedVersion ''only DOL wire version 1.0 can be encoded'')
      else and_then
        (ok_or (checked_add_usize HEADER_LEN (length (env_payload env)))
          (limit_error ''frame length overflow'')) (\<lambda>sum.
        if sum > max_total_bytes L then Inl (limit_error ''frame exceeds max_total_bytes'')
        else and_then
          (ok_or (u64_try_from_usize (length (env_payload env)))
            (limit_error ''payload length exceeds the wire address space'')) (\<lambda>payload_len.
          Inr (frame_header env payload_len @ env_payload env))))"

definition decode_envelope :: "byte list \<Rightarrow> decode_limits \<Rightarrow> envelope wres" where
  "decode_envelope input L =
     (if length input > max_total_bytes L then Inl (limit_at 0 ''frame exceeds max_total_bytes'')
      else if length input < HEADER_LEN
      then Inl (wire_at UnexpectedEof (length input) ''frame is shorter than the fixed header'')
      else if take 4 input \<noteq> MAGIC then Inl (wire_at InvalidMagic 0 ''invalid DOL wire magic'')
      else let major = u16_from_be [input ! 4, input ! 5];
               minor = u16_from_be [input ! 6, input ! 7]
      in if major \<noteq> MAJOR_VERSION \<or> minor > MINOR_VERSION
      then Inl (wire_at UnsupportedVersion 4
             (''unsupported DOL wire version '' @ show_nat (unat major) @ ''.'' @ show_nat (unat minor)))
      else and_then (payload_from_tag (input ! 8) 8) (\<lambda>kind.
        if input ! 9 \<noteq> 0 \<or> input ! 10 \<noteq> 0 \<or> input ! 11 \<noteq> 0
        then Inl (wire_at InvalidHeader 9 ''flags and reserved header bytes must be zero'')
        else and_then
          (ok_or (usize_try_from_u64 (u64_from_be (take 8 (drop 12 input))))
            (wire_at LengthMismatch 12 ''payload length exceeds this platform's address space'')) (\<lambda>len.
        and_then
          (ok_or (checked_add_usize HEADER_LEN len)
            (wire_at LengthMismatch 12 ''declared frame length overflow'')) (\<lambda>expected.
        if expected \<noteq> length input
        then Inl (wire_at LengthMismatch 12
               (''declared payload is '' @ show_nat len @ '' bytes but frame contains '' @
                show_nat (length input - HEADER_LEN)))
        else Inr (envelope_decoded major minor kind (drop HEADER_LEN input))))))"

definition expected_envelope :: "byte list \<Rightarrow> decode_limits \<Rightarrow> payload_kind \<Rightarrow> envelope wres" where
  "expected_envelope input L expected =
     and_then (decode_envelope input L) (\<lambda>env.
       if env_kind env \<noteq> expected
       then Inl (wire_at UnsupportedPayload 8
              (''expected '' @ payload_debug expected @ '' payload, found '' @ payload_debug (env_kind env)))
       else Inr env)"

definition require_canonical :: "byte list \<Rightarrow> byte list \<Rightarrow> unit wres" where
  "require_canonical input canonical =
     (if input = canonical then Inr ()
      else Inl (wire_new NonCanonical
        ''wire value is valid but is not in canonical encoding order or form''))"

lemma require_canonical_ok [result_simps]: "require_canonical a b = Inr u \<longleftrightarrow> a = b"
  by (simp add: require_canonical_def)


section \<open>Frames: encoding and decoding are inverse\<close>

lemma length_frame_header [simp]: "length (frame_header env n) = HEADER_LEN"
  by (simp add: frame_header_def MAGIC_def HEADER_LEN_def)

lemma payload_from_tag_ok [simp]: "payload_from_tag t off = Inr k \<longleftrightarrow> t = payload_tag k"
  by (cases k) (auto simp: payload_from_tag_def)

lemma version_words: "u16_be 1 = [0, 1]" "u16_be 0 = [0, 0]"
  by (simp_all add: u16_be_def numeral_2_eq_2)

lemma version_ok: "\<not> (major \<noteq> MAJOR_VERSION \<or> minor > MINOR_VERSION) \<longleftrightarrow> major = 1 \<and> minor = 0"
  by (auto simp: MAJOR_VERSION_def MINOR_VERSION_def word_gt_0)

lemma encode_envelope_Inr:
  "encode_envelope env L = Inr frame \<longleftrightarrow>
     env_major env = 1 \<and> env_minor env = 0 \<and> HEADER_LEN + length (env_payload env) \<le> usize_max \<and>
     HEADER_LEN + length (env_payload env) \<le> max_total_bytes L \<and>
     frame = frame_header env (of_nat (length (env_payload env))) @ env_payload env"
  unfolding encode_envelope_def
  by (auto simp: MAJOR_VERSION_def MINOR_VERSION_def result_simps
      u64_try_from_usize_def usize_max_def word_gt_0 split: if_splits)

lemma frame_header_bytes:
  assumes "env_major env = 1" and "env_minor env = 0"
  shows "frame_header env n = [68, 79, 76, 87, 0, 1, 0, 0, payload_tag (env_kind env), 0, 0, 0] @ u64_be n"
  using assms by (simp add: frame_header_def MAGIC_def version_words)

lemma split_header:
  assumes "20 \<le> length (xs :: byte list)"
  shows "xs = take 4 xs @ [xs ! 4, xs ! 5, xs ! 6, xs ! 7, xs ! 8, xs ! 9, xs ! 10, xs ! 11] @
    take 8 (drop 12 xs) @ drop 20 xs"
proof -
  have "drop 4 xs = xs ! 4 # drop 5 xs" "drop 5 xs = xs ! 5 # drop 6 xs" "drop 6 xs = xs ! 6 # drop 7 xs"
    "drop 7 xs = xs ! 7 # drop 8 xs" "drop 8 xs = xs ! 8 # drop 9 xs" "drop 9 xs = xs ! 9 # drop 10 xs"
    "drop 10 xs = xs ! 10 # drop 11 xs" "drop 11 xs = xs ! 11 # drop 12 xs"
    using assms by (simp_all add: Cons_nth_drop_Suc [symmetric])
  moreover have "drop 12 xs = take 8 (drop 12 xs) @ drop 20 xs"
    using append_take_drop_id [of 8 "drop 12 xs"] by simp
  ultimately show ?thesis by (metis append_Cons append_Nil append_take_drop_id)
qed

lemma decode_envelope_Inr:
  "decode_envelope input L = Inr env \<longleftrightarrow>
     length input \<le> max_total_bytes L \<and> HEADER_LEN \<le> length input \<and> length input \<le> usize_max \<and>
     env_major env = 1 \<and> env_minor env = 0 \<and> env_payload env = drop HEADER_LEN input \<and>
     input = frame_header env (of_nat (length input - HEADER_LEN)) @ drop HEADER_LEN input"
  (is "?l \<longleftrightarrow> ?r")
proof
  assume ?l
  then have len: "20 \<le> length input" "length input \<le> max_total_bytes L" "take 4 input = MAGIC"
    and ver: "u16_from_be [input ! 4, input ! 5] = 1" "u16_from_be [input ! 6, input ! 7] = 0"
    and tag: "input ! 8 = payload_tag (env_kind env)"
    and zero: "input ! 9 = 0" "input ! 10 = 0" "input ! 11 = 0"
    and total: "length input = HEADER_LEN + unat (u64_from_be (take 8 (drop 12 input)))" "length input \<le> usize_max"
    and env: "env_major env = 1" "env_minor env = 0" "env_payload env = drop HEADER_LEN input"
    unfolding decode_envelope_def Let_def
    by (auto simp: result_simps version_ok envelope_decoded_def HEADER_LEN_def usize_try_from_u64_def
        MAJOR_VERSION_def MINOR_VERSION_def word_gt_0 split: if_splits)
  have "[input ! 4, input ! 5] = [0, 1]" "[input ! 6, input ! 7] = [0, 0]"
    using to_be_from_be(1) [of "[input ! 4, input ! 5]"] to_be_from_be(1) [of "[input ! 6, input ! 7]"]
    by (simp_all add: ver version_words)
  note ver = this
  have "take 8 (drop 12 input) = u64_be (of_nat (length input - HEADER_LEN))"
  proof -
    define t where "t = take 8 (drop 12 input)"
    have "length t = 8" using len(1) by (simp add: t_def)
    moreover have "of_nat (length input - HEADER_LEN) = u64_from_be t"
      using total(1) unfolding t_def [symmetric] by simp
    ultimately show ?thesis by (simp only: to_be_from_be(3) t_def [symmetric])
  qed
  note tail = this
  have "length input \<le> usize_max" by (rule total(2))
  moreover from ver tail have "input = frame_header env (of_nat (length input - HEADER_LEN)) @ drop HEADER_LEN input"
    using split_header [OF len(1)] len(3) tag zero env
    by (simp add: frame_header_bytes MAGIC_def HEADER_LEN_def)
  ultimately show ?r using len env by (simp add: HEADER_LEN_def)
next
  assume r: ?r
  define n where "n = length input - 20"
  define rest where "rest = drop 20 input"
  from r have env: "env_major env = 1" "env_minor env = 0" "env_payload env = rest"
    by (simp_all add: HEADER_LEN_def rest_def)
  have "input = frame_header env (of_nat n) @ rest"
    using r unfolding n_def rest_def HEADER_LEN_def by blast
  then have input: "input = [68, 79, 76, 87, 0, 1, 0, 0, payload_tag (env_kind env), 0, 0, 0] @
      u64_be (of_nat n) @ rest"
    by (simp only: frame_header_bytes [OF env(1,2)] append_assoc)
  have len: "length input = 20 + n" and n: "n < 2 ^ 64" "20 + n \<le> usize_max"
    using r by (auto simp: n_def HEADER_LEN_def usize_max_def)
  have rest: "length rest = n" using len by (simp add: rest_def)
  have ver: "u16_from_be [0, 1] = 1" "u16_from_be [0, 0] = 0"
    by (simp_all add: u16_from_be_def be_nat_def)
  have dec: "usize_try_from_u64 (of_nat n) = Some n"
    using n by (simp add: usize_try_from_u64_def unat_of_nat)
  have pk: "payload_from_tag (payload_tag (env_kind env)) 8 = Inr (env_kind env)" by simp
  have "env = envelope_decoded 1 0 (env_kind env) rest"
    using env by (simp add: envelope_decoded_def)
  then show ?l
    using r n unfolding decode_envelope_def Let_def len input
    by (simp add: ver MAGIC_def HEADER_LEN_def MAJOR_VERSION_def MINOR_VERSION_def dec rest pk
        checked_add_usize_def)
qed

lemma envelope_inverse: "decode_envelope input L = Inr env \<longleftrightarrow> encode_envelope env L = Inr input"
proof
  assume "decode_envelope input L = Inr env"
  then show "encode_envelope env L = Inr input"
    unfolding decode_envelope_Inr encode_envelope_Inr by auto
next
  assume "encode_envelope env L = Inr input"
  then show "decode_envelope input L = Inr env"
    unfolding decode_envelope_Inr encode_envelope_Inr by auto
qed

end
