(* ===== verification/Wire_Encode.thy ===== *)
theory Wire_Encode
  imports Wire_Envelope Value_Validate
begin

text \<open>
  \<open>dol-wire/encode/mod.rs\<close>: the bounded encoder, its primitive writers, the canonical encoding of type
  definitions and of datums (map entries in the order of their encoded keys), and the entry points
  \<open>encode_type_def_with_limits\<close> and \<open>encode_typed_datum_with_limits\<close>.
\<close>

section \<open>The encoder\<close>

record encoder =
  e_limits :: decode_limits
  e_max_payload_bytes :: nat
  e_nodes :: nat
  e_output :: "byte list"

type_synonym writer = "encoder \<Rightarrow> encoder wres"

definition encoder_new :: "decode_limits \<Rightarrow> encoder wres" where
  "encoder_new L =
     and_then
       (ok_or (checked_sub_usize (max_total_bytes L) HEADER_LEN)
         (limit_error ''max_total_bytes is smaller than the frame header''))
       (\<lambda>m. Inr \<lparr>e_limits = L, e_max_payload_bytes = m, e_nodes = 0, e_output = []\<rparr>)"

text \<open>Statements run in order, each with \<open>?\<close>.\<close>

fun in_order :: "('s \<Rightarrow> 'e + 's) list \<Rightarrow> 's \<Rightarrow> 'e + 's" where
  "in_order [] s = Inr s"
| "in_order (w # ws) s = and_then (w s) (in_order ws)"

definition enc_fail :: "wire_error \<Rightarrow> writer" where
  "enc_fail err e = Inl err"

definition enc_write :: "byte list \<Rightarrow> writer" where
  "enc_write bs e =
     and_then
       (ok_or (checked_add_usize (length (e_output e)) (length bs))
         (limit_error ''encoded payload length overflow''))
       (\<lambda>n. if n > e_max_payload_bytes e
            then Inl (limit_error ''encoded frame exceeds max_total_bytes'')
            else Inr (e\<lparr>e_output := e_output e @ bs\<rparr>))"

definition enc_u8 :: "byte \<Rightarrow> writer" where "enc_u8 v = enc_write [v]"
definition enc_bool :: "bool \<Rightarrow> writer" where "enc_bool v = enc_u8 (if v then 1 else 0)"
definition enc_u32 :: "u32 \<Rightarrow> writer" where "enc_u32 v = enc_write (u32_be v)"
definition enc_u64 :: "u64 \<Rightarrow> writer" where "enc_u64 v = enc_write (u64_be v)"
definition enc_i64 :: "i64 \<Rightarrow> writer" where "enc_i64 v = enc_write (u64_be v)"
definition enc_u128 :: "u128 \<Rightarrow> writer" where "enc_u128 v = enc_write (u128_be v)"
definition enc_i128 :: "i128 \<Rightarrow> writer" where "enc_i128 v = enc_write (u128_be v)"

text \<open>\<open>u32::try_from(usize)\<close>.\<close>

definition u32_try_from_usize :: "nat \<Rightarrow> u32 option" where
  "u32_try_from_usize n = (if n < 2 ^ 32 then Some (of_nat n) else None)"

definition enc_count :: "nat \<Rightarrow> writer" where
  "enc_count n e =
     (if n > max_list_items (e_limits e)
      then Inl (limit_error ''item count exceeds max_list_items'')
      else and_then
        (ok_or (u32_try_from_usize n) (limit_error ''item count exceeds the wire address space''))
        (\<lambda>v. enc_u32 v e))"

definition enc_string :: "string \<Rightarrow> writer" where
  "enc_string s e =
     (if length s > max_string_bytes (e_limits e)
      then Inl (limit_error ''string exceeds max_string_bytes'')
      else and_then
        (ok_or (u32_try_from_usize (length s)) (limit_error ''string length exceeds the wire address space''))
        (\<lambda>len. in_order [enc_u32 len, enc_write (as_bytes s)] e))"

definition enc_literal :: "byte list \<Rightarrow> writer" where
  "enc_literal bs e =
     (if length bs > max_literal_bytes (e_limits e)
      then Inl (limit_error ''literal exceeds max_literal_bytes'')
      else and_then
        (ok_or (u32_try_from_usize (length bs)) (limit_error ''literal length exceeds the wire address space''))
        (\<lambda>len. in_order [enc_u32 len, enc_write bs] e))"

definition enc_node :: "nat \<Rightarrow> writer" where
  "enc_node depth e =
     (if depth > max_depth (e_limits e) then Inl (limit_error ''structure exceeds max_depth'')
      else and_then
        (ok_or (checked_add_usize (e_nodes e) 1) (limit_error ''node count overflow''))
        (\<lambda>n. if n > max_nodes (e_limits e) then Inl (limit_error ''structure exceeds max_nodes'')
             else Inr (e\<lparr>e_nodes := n\<rparr>)))"

definition enc_ensure_node_capacity :: "nat \<Rightarrow> writer" where
  "enc_ensure_node_capacity additional e =
     and_then
       (ok_or (checked_add_usize (e_nodes e) additional) (limit_error ''node count overflow''))
       (\<lambda>required. if required > max_nodes (e_limits e)
                   then Inl (limit_error ''structure exceeds max_nodes'') else Inr e)"

text \<open>A count, the node capacity check and the items, as every collection is written.\<close>

definition enc_items :: "writer list \<Rightarrow> writer" where
  "enc_items ws = in_order (enc_count (length ws) # enc_ensure_node_capacity (length ws) # ws)"

section \<open>Types\<close>

definition properties_to_bits :: "type_properties \<Rightarrow> byte" where
  "properties_to_bits p =
     or (of_bool (equality p)) (or (push_bit 1 (of_bool (ordering_p p)))
       (or (push_bit 2 (of_bool (keyable p))) (or (push_bit 3 (of_bool (numeric p)))
         (or (push_bit 4 (of_bool (integral p))) (or (push_bit 5 (of_bool (exact_numeric p)))
           (or (push_bit 6 (of_bool (temporal p))) (push_bit 7 (of_bool (collection p)))))))))"

definition enc_scalar :: "scalar_repr \<Rightarrow> writer" where
  "enc_scalar repr =
     (case repr of
        RBool \<Rightarrow> enc_u8 0
      | RTruth \<Rightarrow> enc_u8 1
      | RInt bits \<Rightarrow> in_order [enc_u8 2, enc_u8 bits]
      | RUInt bits \<Rightarrow> in_order [enc_u8 3, enc_u8 bits]
      | RFloat32 \<Rightarrow> enc_u8 4
      | RFloat64 \<Rightarrow> enc_u8 5
      | RDecimal \<Rightarrow> enc_u8 6
      | RChar \<Rightarrow> enc_u8 7
      | RString \<Rightarrow> enc_u8 8
      | RBytes \<Rightarrow> enc_u8 9
      | RUuid \<Rightarrow> enc_u8 10
      | RDate \<Rightarrow> enc_u8 11
      | RTime \<Rightarrow> enc_u8 12
      | RLocalDateTime \<Rightarrow> enc_u8 13
      | RInstant \<Rightarrow> enc_u8 14
      | RDuration \<Rightarrow> enc_u8 15)"

fun enc_parameter_value :: "type_parameter \<Rightarrow> writer" where
  "enc_parameter_value (TPBool v) = in_order [enc_u8 0, enc_bool v]"
| "enc_parameter_value (TPInt v) = in_order [enc_u8 1, enc_i64 v]"
| "enc_parameter_value (TPUInt v) = in_order [enc_u8 2, enc_u64 v]"
| "enc_parameter_value (TPString v) = in_order [enc_u8 3, enc_string v]"

definition enc_parameter :: "nat \<Rightarrow> string \<times> type_parameter \<Rightarrow> writer" where
  "enc_parameter depth np =
     in_order [enc_node (saturating_add_usize depth 1), enc_string (fst np), enc_parameter_value (snd np)]"

fun enc_ty :: "type_def \<Rightarrow> nat \<Rightarrow> writer"
and enc_shape :: "type_shape \<Rightarrow> nat \<Rightarrow> writer"
and enc_field :: "record_field \<Rightarrow> nat \<Rightarrow> writer" where
  "enc_ty (TypeDef k v sh n p ps) depth =
     in_order [enc_node depth, enc_string k, enc_u32 v, enc_bool (n = Nullable),
       enc_u8 (properties_to_bits p), enc_items (map (enc_parameter depth) ps), enc_shape sh depth]"
| "enc_shape (ShScalar repr) depth = in_order [enc_u8 0, enc_scalar repr]"
| "enc_shape (ShList element) depth =
     in_order [enc_u8 1, enc_ty element (saturating_add_usize depth 1)]"
| "enc_shape (ShMap key val) depth =
     in_order [enc_u8 2, enc_ty key (saturating_add_usize depth 1), enc_ty val (saturating_add_usize depth 1)]"
| "enc_shape (ShTuple elements) depth =
     in_order [enc_u8 3, enc_items (map (\<lambda>t. enc_ty t (saturating_add_usize depth 1)) elements)]"
| "enc_shape (ShRecord fs) depth =
     in_order [enc_u8 4, enc_items (map (\<lambda>f. enc_field f (saturating_add_usize depth 1)) fs)]"
| "enc_field (RecordField nm ty pr) child_depth =
     in_order [enc_node child_depth, enc_string nm, enc_bool (pr = Optional), enc_ty ty child_depth]"

section \<open>Datums\<close>

definition truth_tag :: "truth \<Rightarrow> byte" where
  "truth_tag t = (case t of TFalse \<Rightarrow> 0 | TTrue \<Rightarrow> 1 | TUnknown \<Rightarrow> 2)"

text \<open>\<open>i64::from(i32)\<close> of the Julian day.\<close>

definition julian_i64 :: "'x ext \<Rightarrow> 'x \<Rightarrow> i64" where
  "julian_i64 X d = scast (date_to_julian_day X d)"

definition enc_clock :: "'x ext \<Rightarrow> 'x \<Rightarrow> writer" where
  "enc_clock X t =
     in_order [enc_u8 (time_hour X t), enc_u8 (time_minute X t), enc_u8 (time_second X t),
       enc_u32 (time_nanosecond X t)]"

text \<open>
  Map entries are given as the writers of their keys and values. Each key is first written by an
  encoder of its own; the entries are then written in the order of these key bytes.
\<close>

definition map_key_step :: "decode_limits \<Rightarrow> nat \<Rightarrow> writer \<times> writer \<Rightarrow>
    nat \<times> (byte list \<times> writer \<times> writer) list \<Rightarrow> (nat \<times> (byte list \<times> writer \<times> writer) list) wres" where
  "map_key_step L max_payload entry state =
     and_then (encoder_new L) (\<lambda>ke.
     and_then (fst entry ke) (\<lambda>ke.
     and_then
       (ok_or (checked_add_usize (fst state) (length (e_output ke)))
         (limit_error ''canonical map key size overflow'')) (\<lambda>temporary_bytes.
     if temporary_bytes > max_payload
     then Inl (limit_error ''canonical map keys exceed max_total_bytes'')
     else Inr (temporary_bytes, snd state @ [(e_output ke, entry)]))))"

definition enc_map_keys :: "decode_limits \<Rightarrow> nat \<Rightarrow> (writer \<times> writer) list \<Rightarrow>
    (nat \<times> (byte list \<times> writer \<times> writer) list) wres" where
  "enc_map_keys L max_payload entries = try_each (map_key_step L max_payload) entries (0, [])"

definition enc_map :: "(writer \<times> writer) list \<Rightarrow> writer" where
  "enc_map entries e =
     and_then (enc_count (length entries) e) (\<lambda>e.
     and_then
       (ok_or (checked_mul_usize (length entries) 2) (limit_error ''map node count overflow'')) (\<lambda>datum_count.
     and_then (enc_ensure_node_capacity datum_count e) (\<lambda>e.
     and_then (enc_map_keys (e_limits e) (e_max_payload_bytes e) entries) (\<lambda>(_, ordered).
       in_order (map (\<lambda>(_, kw, vw). in_order [kw, vw]) (sort_key fst ordered)) e))))"

primrec enc_value :: "'x ext \<Rightarrow> 'x val \<Rightarrow> nat \<Rightarrow> writer"
and enc_datum :: "'x ext \<Rightarrow> 'x datum \<Rightarrow> nat \<Rightarrow> writer" where
  "enc_value X (VBool v) = (\<lambda>depth. in_order [enc_u8 0, enc_bool v])"
| "enc_value X (VTruth v) = (\<lambda>depth. in_order [enc_u8 1, enc_u8 (truth_tag v)])"
| "enc_value X (VInt v) = (\<lambda>depth. in_order [enc_u8 2, enc_i128 v])"
| "enc_value X (VUInt v) = (\<lambda>depth. in_order [enc_u8 3, enc_u128 v])"
| "enc_value X (VFloat32 v) = (\<lambda>depth. in_order [enc_u8 4, enc_u32 v])"
| "enc_value X (VFloat64 v) = (\<lambda>depth. in_order [enc_u8 5, enc_u64 v])"
| "enc_value X (VDecimal v) = (\<lambda>depth.
     in_order [enc_u8 6, enc_i128 (dec_mantissa X (dec_normalize X v)),
       enc_u32 (dec_scale X (dec_normalize X v))])"
| "enc_value X (VChar v) = (\<lambda>depth. in_order [enc_u8 7, enc_u32 v])"
| "enc_value X (VString v) = (\<lambda>depth. in_order [enc_u8 8, enc_string v])"
| "enc_value X (VBytes v) = (\<lambda>depth. in_order [enc_u8 9, enc_literal v])"
| "enc_value X (VUuid v) = (\<lambda>depth. in_order [enc_u8 10, enc_write (uuid_as_bytes X v)])"
| "enc_value X (VDate v) = (\<lambda>depth. in_order [enc_u8 15, enc_i64 (julian_i64 X v)])"
| "enc_value X (VTime v) = (\<lambda>depth. in_order [enc_u8 16, enc_clock X v])"
| "enc_value X (VLocalDateTime v) = (\<lambda>depth.
     in_order [enc_u8 17, enc_i64 (julian_i64 X (datetime_date X v)), enc_clock X (datetime_time X v)])"
| "enc_value X (VInstant v) = (\<lambda>depth. in_order [enc_u8 18, enc_i128 (instant_unix_nanos X v)])"
| "enc_value X (VDuration v) = (\<lambda>depth. in_order [enc_u8 19, enc_i128 (duration_whole_nanos X v)])"
| "enc_value X (VList ds) = (\<lambda>depth.
     in_order [enc_u8 11, enc_items (map (\<lambda>w. w (saturating_add_usize depth 1)) (map (enc_datum X) ds))])"
| "enc_value X (VMap es) = (\<lambda>depth.
     in_order [enc_u8 12,
       enc_map (map (\<lambda>(kw, vw). (kw (saturating_add_usize depth 1), vw (saturating_add_usize depth 1)))
         (map (map_prod (enc_datum X) (enc_datum X)) es))])"
| "enc_value X (VTuple ds) = (\<lambda>depth.
     in_order [enc_u8 13, enc_items (map (\<lambda>w. w (saturating_add_usize depth 1)) (map (enc_datum X) ds))])"
| "enc_value X (VRecord fs) = (\<lambda>depth.
     in_order [enc_u8 14,
       enc_items (map (\<lambda>(nm, w). in_order [enc_string nm, w (saturating_add_usize depth 1)])
         (map (map_prod id (enc_datum X)) fs))])"
| "enc_datum X Missing = (\<lambda>depth. in_order [enc_node depth, enc_u8 0])"
| "enc_datum X Null = (\<lambda>depth. in_order [enc_node depth, enc_u8 1])"
| "enc_datum X (Value v) = (\<lambda>depth. in_order [enc_node depth, enc_u8 2, enc_value X v depth])"

section \<open>Entry points\<close>

definition validate_type_for_encode :: "type_def \<Rightarrow> decode_limits \<Rightarrow> unit wres" where
  "validate_type_for_encode ty L = map_err core_error (validate_type ty (definition_limits L))"

definition validate_datum_for_encode :: "'x ext \<Rightarrow> type_def \<Rightarrow> presence \<Rightarrow> 'x datum \<Rightarrow> unit wres" where
  "validate_datum_for_encode X ty presence d = map_err core_error (validate_datum X ty presence d)"

definition enc_finish :: "payload_kind \<Rightarrow> encoder \<Rightarrow> decode_limits \<Rightarrow> byte list wres" where
  "enc_finish kind e L = encode_envelope (envelope_new kind (e_output e)) L"

definition encode_type_def :: "type_def \<Rightarrow> decode_limits \<Rightarrow> byte list wres" where
  "encode_type_def ty L =
     and_then (validate_type_for_encode ty L) (\<lambda>_.
     and_then (encoder_new L) (\<lambda>e.
     and_then (enc_ty ty 0 e) (\<lambda>e.
       enc_finish PKTypeDef e L)))"

definition encode_typed_datum ::
    "'x ext \<Rightarrow> type_def \<Rightarrow> presence \<Rightarrow> 'x datum \<Rightarrow> decode_limits \<Rightarrow> byte list wres" where
  "encode_typed_datum X ty presence d L =
     and_then (validate_type_for_encode ty L) (\<lambda>_.
     and_then (validate_datum_for_encode X ty presence d) (\<lambda>_.
     and_then (encoder_new L) (\<lambda>e.
     and_then (in_order [enc_ty ty 0, enc_bool (presence = Optional), enc_datum X d 0] e) (\<lambda>e.
       enc_finish PKTypedDatum e L))))"

end
