(* ===== verification/Wire_Decode.thy ===== *)
theory Wire_Decode
  imports Wire_Envelope
begin

text \<open>
  \<open>dol-wire/dto.rs\<close> and the \<open>Decoder\<close> of \<open>decode/mod.rs\<close>: the private DTOs and the bounded readers that
  fill them from untrusted payload bytes. The mutual recursion of \<open>ty\<close>/\<open>shape\<close> and of
  \<open>datum\<close>/\<open>value\<close> runs on fuel; one more unit than there are payload bytes is always enough (lemma
  \<open>safe_dec_ty\<close>), because every level consumes at least one byte.
\<close>

section \<open>DTOs\<close>

datatype scalar_dto =
    DBool | DTruth | DInt byte | DUInt byte | DFloat32 | DFloat64 | DDecimal | DChar | DString
  | DBytes | DUuid | DDate | DTime | DLocalDateTime | DInstant | DDuration

datatype parameter_dto = PDBool bool | PDInt i64 | PDUInt u64 | PDString string

datatype type_dto =
    TypeDto (td_key: string) (td_version: u32) (td_nullable: bool) (td_property_bits: byte)
      (td_parameters: "(string \<times> parameter_dto) list") (td_shape: shape_dto)
and shape_dto =
    SDScalar scalar_dto
  | SDList type_dto
  | SDMap type_dto type_dto
  | SDTuple "type_dto list"
  | SDRecord "record_field_dto list"
and record_field_dto =
    RecordFieldDto (rfd_name: string) (rfd_optional: bool) (rfd_ty: type_dto)

datatype value_dto =
    VDBool bool
  | VDTruth byte
  | VDInt i128
  | VDUInt u128
  | VDFloat32 u32
  | VDFloat64 u64
  | VDDecimal i128 u32
  | VDChar u32
  | VDString string
  | VDBytes "byte list"
  | VDUuid "byte list"
  | VDDate i64
  | VDTime byte byte byte u32
  | VDLocalDateTime i64 byte byte byte u32
  | VDInstant i128
  | VDDuration i128
  | VDList "datum_dto list"
  | VDMap "(datum_dto \<times> datum_dto) list"
  | VDTuple "datum_dto list"
  | VDRecord "(string \<times> datum_dto) list"
and datum_dto = DDMissing | DDNull | DDValue value_dto

record typed_datum_dto =
  tdd_ty :: type_dto
  tdd_optional :: bool
  tdd_datum :: datum_dto

section \<open>The decoder and its readers\<close>

record decoder =
  d_input :: "byte list"
  d_offset :: nat
  d_limits :: decode_limits
  d_nodes :: nat

type_synonym 'a reader = "decoder \<Rightarrow> ('a \<times> decoder) wres"

definition decoder_new :: "byte list \<Rightarrow> decode_limits \<Rightarrow> decoder" where
  "decoder_new input L = \<lparr>d_input = input, d_offset = 0, d_limits = L, d_nodes = 0\<rparr>"

definition rd_return :: "'a \<Rightarrow> 'a reader" where
  "rd_return x d = Inr (x, d)"

definition rd_fail :: "wire_error \<Rightarrow> 'a reader" where
  "rd_fail err d = Inl err"

definition rd_bind :: "'a reader \<Rightarrow> ('a \<Rightarrow> 'b reader) \<Rightarrow> 'b reader" where
  "rd_bind r f d = and_then (r d) (\<lambda>(x, d'). f x d')"

definition rd_map :: "('a \<Rightarrow> 'b) \<Rightarrow> 'a reader \<Rightarrow> 'b reader" where
  "rd_map f r = rd_bind r (\<lambda>x. rd_return (f x))"

definition rd_offset :: "nat reader" where
  "rd_offset d = Inr (d_offset d, d)"

text \<open>\<open>for _ in 0..n { items.push(r()?) }\<close>.\<close>

fun rd_repeat :: "nat \<Rightarrow> 'a reader \<Rightarrow> 'a list reader" where
  "rd_repeat 0 r = rd_return []"
| "rd_repeat (Suc n) r = rd_bind r (\<lambda>x. rd_bind (rd_repeat n r) (\<lambda>xs. rd_return (x # xs)))"

definition dec_remaining :: "decoder \<Rightarrow> nat" where
  "dec_remaining d = length (d_input d) - d_offset d"

definition dec_finish :: "decoder \<Rightarrow> unit wres" where
  "dec_finish d =
     (if d_offset d = length (d_input d) then Inr ()
      else Inl (wire_at InvalidValue (d_offset d) ''payload contains trailing bytes''))"

definition dec_take :: "nat \<Rightarrow> byte list reader" where
  "dec_take n d =
     and_then
       (ok_or (checked_add_usize (d_offset d) n)
         (wire_at UnexpectedEof (d_offset d) ''field length overflow'')) (\<lambda>stop.
       if stop > length (d_input d)
       then Inl (wire_at UnexpectedEof (d_offset d)
              (''field needs '' @ show_nat n @ '' bytes but only '' @ show_nat (dec_remaining d) @ '' remain''))
       else Inr (take n (drop (d_offset d) (d_input d)), d\<lparr>d_offset := stop\<rparr>))"

definition dec_u8 :: "byte reader" where "dec_u8 = rd_map (\<lambda>bs. bs ! 0) (dec_take 1)"

definition dec_bool :: "bool reader" where
  "dec_bool =
     rd_bind rd_offset (\<lambda>off.
     rd_bind dec_u8 (\<lambda>t.
       if t = 0 then rd_return False
       else if t = 1 then rd_return True
       else rd_fail (invalid_tag off ''boolean'' t)))"

definition dec_u32 :: "u32 reader" where "dec_u32 = rd_map u32_from_be (dec_take 4)"
definition dec_u64 :: "u64 reader" where "dec_u64 = rd_map u64_from_be (dec_take 8)"
definition dec_i64 :: "i64 reader" where "dec_i64 = rd_map u64_from_be (dec_take 8)"
definition dec_u128 :: "u128 reader" where "dec_u128 = rd_map u128_from_be (dec_take 16)"
definition dec_i128 :: "i128 reader" where "dec_i128 = rd_map u128_from_be (dec_take 16)"

definition dec_count :: "nat \<Rightarrow> nat reader" where
  "dec_count minimum_item_bytes d =
     (let off = d_offset d
      in and_then (dec_u32 d) (\<lambda>(w, d).
         if unat w > max_list_items (d_limits d)
         then Inl (limit_at off ''item count exceeds max_list_items'')
         else and_then
           (ok_or (checked_mul_usize (unat w) minimum_item_bytes)
             (limit_at off ''minimum collection representation length overflow'')) (\<lambda>minimum.
           if minimum > dec_remaining d
           then Inl (wire_at UnexpectedEof off ''declared item count cannot fit in the remaining payload'')
           else Inr (unat w, d))))"

definition dec_string :: "string reader" where
  "dec_string d =
     (let off = d_offset d
      in and_then (dec_u32 d) (\<lambda>(w, d).
         if unat w > max_string_bytes (d_limits d)
         then Inl (limit_at off ''string exceeds max_string_bytes'')
         else and_then (dec_take (unat w) d) (\<lambda>(bs, d).
           and_then (ok_or (from_utf8 bs) (wire_at InvalidUtf8 (off + 4) ''invalid UTF-8 string''))
             (\<lambda>text. Inr (text, d)))))"

definition dec_literal :: "byte list reader" where
  "dec_literal d =
     (let off = d_offset d
      in and_then (dec_u32 d) (\<lambda>(w, d).
         if unat w > max_literal_bytes (d_limits d)
         then Inl (limit_at off ''literal exceeds max_literal_bytes'')
         else dec_take (unat w) d))"

definition dec_node :: "nat \<Rightarrow> unit reader" where
  "dec_node depth d =
     (if depth > max_depth (d_limits d) then Inl (limit_at (d_offset d) ''structure exceeds max_depth'')
      else and_then
        (ok_or (checked_add_usize (d_nodes d) 1) (limit_at (d_offset d) ''node count overflow'')) (\<lambda>n.
        if n > max_nodes (d_limits d) then Inl (limit_at (d_offset d) ''structure exceeds max_nodes'')
        else Inr ((), d\<lparr>d_nodes := n\<rparr>)))"

definition dec_ensure_node_capacity :: "nat \<Rightarrow> unit reader" where
  "dec_ensure_node_capacity additional d =
     and_then
       (ok_or (checked_add_usize (d_nodes d) additional) (limit_at (d_offset d) ''node count overflow''))
       (\<lambda>required.
         if required > max_nodes (d_limits d)
         then Inl (limit_at (d_offset d) ''structure exceeds max_nodes'') else Inr ((), d))"

text \<open>A count with its minimum item size, the node capacity check and the items.\<close>

definition dec_items :: "nat \<Rightarrow> 'a reader \<Rightarrow> 'a list reader" where
  "dec_items minimum_item_bytes r =
     rd_bind (dec_count minimum_item_bytes) (\<lambda>n.
     rd_bind (dec_ensure_node_capacity n) (\<lambda>_. rd_repeat n r))"

section \<open>Types\<close>

definition dec_scalar :: "scalar_dto reader" where
  "dec_scalar =
     rd_bind rd_offset (\<lambda>off.
     rd_bind dec_u8 (\<lambda>t.
       if t = 0 then rd_return DBool
       else if t = 1 then rd_return DTruth
       else if t = 2 then rd_map DInt dec_u8
       else if t = 3 then rd_map DUInt dec_u8
       else if t = 4 then rd_return DFloat32
       else if t = 5 then rd_return DFloat64
       else if t = 6 then rd_return DDecimal
       else if t = 7 then rd_return DChar
       else if t = 8 then rd_return DString
       else if t = 9 then rd_return DBytes
       else if t = 10 then rd_return DUuid
       else if t = 11 then rd_return DDate
       else if t = 12 then rd_return DTime
       else if t = 13 then rd_return DLocalDateTime
       else if t = 14 then rd_return DInstant
       else if t = 15 then rd_return DDuration
       else rd_fail (invalid_tag off ''scalar representation'' t)))"

definition dec_parameter :: "nat \<Rightarrow> (string \<times> parameter_dto) reader" where
  "dec_parameter depth =
     rd_bind (dec_node (saturating_add_usize depth 1)) (\<lambda>_.
     rd_bind dec_string (\<lambda>name.
     rd_bind rd_offset (\<lambda>off.
     rd_bind dec_u8 (\<lambda>t.
     rd_bind
       (if t = 0 then rd_map PDBool dec_bool
        else if t = 1 then rd_map PDInt dec_i64
        else if t = 2 then rd_map PDUInt dec_u64
        else if t = 3 then rd_map PDString dec_string
        else rd_fail (invalid_tag off ''type parameter'' t)) (\<lambda>p.
       rd_return (name, p))))))"

text \<open>\<open>shape\<close> and the record fields, given the reader of nested types.\<close>

definition dec_field :: "(nat \<Rightarrow> type_dto reader) \<Rightarrow> nat \<Rightarrow> record_field_dto reader" where
  "dec_field ty child_depth =
     rd_bind (dec_node child_depth) (\<lambda>_.
     rd_bind dec_string (\<lambda>name.
     rd_bind dec_bool (\<lambda>optional.
     rd_bind (ty child_depth) (\<lambda>t.
       rd_return (RecordFieldDto name optional t)))))"

definition dec_shape_body :: "(nat \<Rightarrow> type_dto reader) \<Rightarrow> nat \<Rightarrow> nat \<Rightarrow> byte \<Rightarrow> shape_dto reader" where
  "dec_shape_body ty child_depth off t =
     (if t = 0 then rd_map SDScalar dec_scalar
      else if t = 1 then rd_map SDList (ty child_depth)
      else if t = 2 then
        rd_bind (ty child_depth) (\<lambda>k. rd_bind (ty child_depth) (\<lambda>v. rd_return (SDMap k v)))
      else if t = 3 then rd_map SDTuple (dec_items 1 (ty child_depth))
      else if t = 4 then rd_map SDRecord (dec_items 6 (dec_field ty child_depth))
      else rd_fail (invalid_tag off ''type shape'' t))"

definition dec_shape :: "(nat \<Rightarrow> type_dto reader) \<Rightarrow> nat \<Rightarrow> shape_dto reader" where
  "dec_shape ty depth =
     (let child_depth = saturating_add_usize depth 1
      in rd_bind rd_offset (\<lambda>off. rd_bind dec_u8 (dec_shape_body ty child_depth off)))"

text \<open>The value returned without fuel; \<open>safe_dec_ty\<close> and \<open>safe_dec_datum\<close> show that it is never met.\<close>

definition out_of_fuel :: wire_error where
  "out_of_fuel = limit_error ''out of fuel''"

primrec dec_ty :: "nat \<Rightarrow> nat \<Rightarrow> type_dto reader" where
  "dec_ty 0 = (\<lambda>depth. rd_fail out_of_fuel)"
| "dec_ty (Suc fuel) = (\<lambda>depth.
     rd_bind (dec_node depth) (\<lambda>_.
     rd_bind dec_string (\<lambda>key.
     rd_bind dec_u32 (\<lambda>version.
     rd_bind dec_bool (\<lambda>nullable.
     rd_bind dec_u8 (\<lambda>property_bits.
     rd_bind (dec_items 6 (dec_parameter depth)) (\<lambda>parameters.
     rd_bind (dec_shape (dec_ty fuel) depth) (\<lambda>shape.
       rd_return (TypeDto key version nullable property_bits parameters shape)))))))))"

section \<open>Datums\<close>

definition dec_map :: "(nat \<Rightarrow> datum_dto reader) \<Rightarrow> nat \<Rightarrow> (datum_dto \<times> datum_dto) list reader" where
  "dec_map datum depth =
     rd_bind (dec_count 2) (\<lambda>n.
     rd_bind (\<lambda>d. and_then
         (ok_or (checked_mul_usize n 2) (limit_at (d_offset d) ''map node count overflow''))
         (\<lambda>nodes. Inr (nodes, d))) (\<lambda>nodes.
     rd_bind (dec_ensure_node_capacity nodes) (\<lambda>_.
       rd_repeat n (rd_bind (datum depth) (\<lambda>k. rd_bind (datum depth) (\<lambda>v. rd_return (k, v)))))))"

definition dec_clock :: "(byte \<Rightarrow> byte \<Rightarrow> byte \<Rightarrow> u32 \<Rightarrow> value_dto) \<Rightarrow> value_dto reader" where
  "dec_clock mk =
     rd_bind dec_u8 (\<lambda>h. rd_bind dec_u8 (\<lambda>m. rd_bind dec_u8 (\<lambda>s. rd_bind dec_u32 (\<lambda>n.
       rd_return (mk h m s n)))))"

definition dec_value_body :: "(nat \<Rightarrow> datum_dto reader) \<Rightarrow> nat \<Rightarrow> nat \<Rightarrow> byte \<Rightarrow> value_dto reader" where
  "dec_value_body datum child_depth off t =
     (if t = 0 then rd_map VDBool dec_bool
      else if t = 1 then rd_map VDTruth dec_u8
      else if t = 2 then rd_map VDInt dec_i128
      else if t = 3 then rd_map VDUInt dec_u128
      else if t = 4 then rd_map VDFloat32 dec_u32
      else if t = 5 then rd_map VDFloat64 dec_u64
      else if t = 6 then
        rd_bind dec_i128 (\<lambda>m. rd_bind dec_u32 (\<lambda>s. rd_return (VDDecimal m s)))
      else if t = 7 then rd_map VDChar dec_u32
      else if t = 8 then rd_map VDString dec_string
      else if t = 9 then rd_map VDBytes dec_literal
      else if t = 10 then rd_map VDUuid (dec_take 16)
      else if t = 15 then rd_map VDDate dec_i64
      else if t = 16 then dec_clock VDTime
      else if t = 17 then rd_bind dec_i64 (\<lambda>j. dec_clock (VDLocalDateTime j))
      else if t = 18 then rd_map VDInstant dec_i128
      else if t = 19 then rd_map VDDuration dec_i128
      else if t = 11 then rd_map VDList (dec_items 1 (datum child_depth))
      else if t = 12 then rd_map VDMap (dec_map datum child_depth)
      else if t = 13 then rd_map VDTuple (dec_items 1 (datum child_depth))
      else if t = 14 then
        rd_map VDRecord (dec_items 5
          (rd_bind dec_string (\<lambda>nm. rd_bind (datum child_depth) (\<lambda>v. rd_return (nm, v)))))
      else rd_fail (invalid_tag off ''logical value'' t))"

definition dec_value :: "(nat \<Rightarrow> datum_dto reader) \<Rightarrow> nat \<Rightarrow> value_dto reader" where
  "dec_value datum depth =
     (let child_depth = saturating_add_usize depth 1
      in rd_bind rd_offset (\<lambda>off. rd_bind dec_u8 (dec_value_body datum child_depth off)))"

definition dec_datum_body :: "(nat \<Rightarrow> datum_dto reader) \<Rightarrow> nat \<Rightarrow> nat \<Rightarrow> byte \<Rightarrow> datum_dto reader" where
  "dec_datum_body datum depth off t =
     (if t = 0 then rd_return DDMissing
      else if t = 1 then rd_return DDNull
      else if t = 2 then rd_map DDValue (dec_value datum depth)
      else rd_fail (invalid_tag off ''datum state'' t))"

primrec dec_datum :: "nat \<Rightarrow> nat \<Rightarrow> datum_dto reader" where
  "dec_datum 0 = (\<lambda>depth. rd_fail out_of_fuel)"
| "dec_datum (Suc fuel) = (\<lambda>depth.
     rd_bind (dec_node depth) (\<lambda>_.
     rd_bind rd_offset (\<lambda>off. rd_bind dec_u8 (dec_datum_body (dec_datum fuel) depth off))))"

definition payload_fuel :: "decoder \<Rightarrow> nat" where
  "payload_fuel d = Suc (length (d_input d))"

definition dec_typed_datum :: "nat \<Rightarrow> typed_datum_dto reader" where
  "dec_typed_datum fuel =
     rd_bind (dec_ty fuel 0) (\<lambda>t.
     rd_bind dec_bool (\<lambda>optional.
     rd_bind (dec_datum fuel 0) (\<lambda>v.
       rd_return \<lparr>tdd_ty = t, tdd_optional = optional, tdd_datum = v\<rparr>)))"

section \<open>Every reader stays inside the payload and the limits\<close>

text \<open>
  \<open>safe k m r\<close>: on a decoder whose offset lies in its input and with at most \<open>m\<close> bytes left, \<open>r\<close> either
  fails at a byte offset inside the input, or consumes at least \<open>k\<close> bytes, stays inside the input,
  keeps input and limits, never lowers the node count and never lifts it above \<open>max_nodes\<close>.
\<close>

definition decoder_ok :: "decoder \<Rightarrow> bool" where
  "decoder_ok d \<longleftrightarrow> d_offset d \<le> length (d_input d)"

definition reads_on :: "nat \<Rightarrow> decoder \<Rightarrow> decoder \<Rightarrow> bool" where
  "reads_on k d d' \<longleftrightarrow>
     d_input d' = d_input d \<and> d_limits d' = d_limits d \<and> d_offset d + k \<le> d_offset d' \<and>
     decoder_ok d' \<and> d_nodes d \<le> d_nodes d' \<and> d_nodes d' \<le> max (d_nodes d) (max_nodes (d_limits d))"

definition safe :: "nat \<Rightarrow> nat \<Rightarrow> nat \<Rightarrow> 'a reader \<Rightarrow> bool" where
  "safe lo k m r \<longleftrightarrow>
     (\<forall>d. decoder_ok d \<and> lo \<le> d_offset d \<and> dec_remaining d \<le> m \<longrightarrow>
        (case r d of
           Inl err \<Rightarrow> \<exists>off. we_offset err = Some off \<and> off \<le> length (d_input d)
         | Inr (x, d') \<Rightarrow> reads_on k d d'))"

lemma safeI:
  assumes "\<And>d err. decoder_ok d \<Longrightarrow> lo \<le> d_offset d \<Longrightarrow> dec_remaining d \<le> m \<Longrightarrow> r d = Inl err \<Longrightarrow>
      \<exists>off. we_offset err = Some off \<and> off \<le> length (d_input d)"
    and "\<And>d x d'. decoder_ok d \<Longrightarrow> lo \<le> d_offset d \<Longrightarrow> dec_remaining d \<le> m \<Longrightarrow> r d = Inr (x, d') \<Longrightarrow>
      reads_on k d d'"
  shows "safe lo k m r"
  using assms by (auto simp: safe_def split: sum.splits)

lemma safeD_err:
  "safe lo k m r \<Longrightarrow> decoder_ok d \<Longrightarrow> lo \<le> d_offset d \<Longrightarrow> dec_remaining d \<le> m \<Longrightarrow> r d = Inl err \<Longrightarrow>
    \<exists>off. we_offset err = Some off \<and> off \<le> length (d_input d)"
  by (auto simp: safe_def split: sum.splits)

lemma safeD_ok:
  "safe lo k m r \<Longrightarrow> decoder_ok d \<Longrightarrow> lo \<le> d_offset d \<Longrightarrow> dec_remaining d \<le> m \<Longrightarrow> r d = Inr (x, d') \<Longrightarrow>
    reads_on k d d'"
  by (auto simp: safe_def split: sum.splits)

lemma reads_on_mono: "reads_on k d d' \<Longrightarrow> k' \<le> k \<Longrightarrow> reads_on k' d d'"
  by (auto simp: reads_on_def)

lemma safe_mono: "safe lo k m r \<Longrightarrow> k' \<le> k \<Longrightarrow> m' \<le> m \<Longrightarrow> safe lo k' m' r"
  by (rule safeI) (blast intro: safeD_err safeD_ok reads_on_mono le_trans)+

lemma reads_on_trans: "reads_on k d d' \<Longrightarrow> reads_on k' d' d'' \<Longrightarrow> reads_on (k + k') d d''"
  by (auto simp: reads_on_def)

lemma reads_on_remaining: "reads_on k d d' \<Longrightarrow> dec_remaining d' + k \<le> dec_remaining d"
  by (auto simp: reads_on_def dec_remaining_def decoder_ok_def)

lemma reads_on_next:
  "reads_on k d d' \<Longrightarrow> lo \<le> d_offset d \<Longrightarrow> dec_remaining d \<le> m \<Longrightarrow>
    k \<le> m \<and> decoder_ok d' \<and> lo \<le> d_offset d' \<and> dec_remaining d' \<le> m - k \<and> d_input d' = d_input d"
  using reads_on_remaining [of k d d'] by (auto simp: reads_on_def)

lemma safe_bind:
  assumes r: "safe lo k m r" and f: "\<And>x. k \<le> m \<Longrightarrow> safe lo k' (m - k) (f x)"
  shows "safe lo (k + k') m (rd_bind r f)"
proof (rule safeI)
  fix d err
  assume d: "decoder_ok d" "lo \<le> d_offset d" "dec_remaining d \<le> m" and e: "rd_bind r f d = Inl err"
  show "\<exists>off. we_offset err = Some off \<and> off \<le> length (d_input d)"
  proof (cases "r d")
    case (Inl e1)
    with e show ?thesis using safeD_err [OF r d] by (auto simp: rd_bind_def)
  next
    case (Inr p)
    obtain x d1 where p: "p = (x, d1)" by (cases p)
    note on = reads_on_next [OF safeD_ok [OF r d Inr [unfolded p]] d(2,3)]
    then show ?thesis using safeD_err [OF f [of x], of d1 err] e Inr p by (auto simp: rd_bind_def)
  qed
next
  fix d y d'
  assume d: "decoder_ok d" "lo \<le> d_offset d" "dec_remaining d \<le> m" and e: "rd_bind r f d = Inr (y, d')"
  then obtain x d1 where 1: "r d = Inr (x, d1)" "f x d1 = Inr (y, d')"
    by (auto simp: rd_bind_def and_then_Inr)
  have on: "reads_on k d d1" using safeD_ok [OF r d 1(1)] .
  then show "reads_on (k + k') d d'"
    using reads_on_next [OF on d(2,3)] safeD_ok [OF f _ _ _ 1(2)] reads_on_trans [OF on] by blast
qed

text \<open>The form in which the rules are chained: what is left to consume is computed by subtraction.\<close>

lemma safe_seq:
  assumes "safe lo k m r" and "\<And>x. k \<le> m \<Longrightarrow> safe lo (n - k) (m - k) (f x)"
  shows "safe lo n m (rd_bind r f)"
  by (rule safe_mono [OF safe_bind [OF assms]]) auto

lemma safe_return: "safe lo 0 m (rd_return x)"
  by (rule safeI) (auto simp: rd_return_def reads_on_def decoder_ok_def)

lemma safe_rd_map: "safe lo k m r \<Longrightarrow> safe lo k m (rd_map f r)"
  unfolding rd_map_def by (rule safe_seq) (auto intro: safe_return)

text \<open>A tag that is read and rejected is reported at the offset it was read from.\<close>

lemma safe_offset:
  assumes "\<And>off. safe (max lo off) k m (f off)"
  shows "safe lo k m (rd_bind rd_offset f)"
proof (rule safeI)
  fix d err
  assume d: "decoder_ok d" "lo \<le> d_offset d" "dec_remaining d \<le> m" "rd_bind rd_offset f d = Inl err"
  then show "\<exists>off. we_offset err = Some off \<and> off \<le> length (d_input d)"
    using safeD_err [OF assms [of "d_offset d"], of d err] by (simp add: rd_bind_def rd_offset_def)
next
  fix d x d'
  assume d: "decoder_ok d" "lo \<le> d_offset d" "dec_remaining d \<le> m" "rd_bind rd_offset f d = Inr (x, d')"
  then show "reads_on k d d'"
    using safeD_ok [OF assms [of "d_offset d"], of d x d'] by (simp add: rd_bind_def rd_offset_def)
qed

lemma safe_invalid_tag: "off \<le> lo \<Longrightarrow> safe lo k m (rd_fail (invalid_tag off kind t))"
  by (rule safeI) (auto simp: rd_fail_def decoder_ok_def)

lemma safe_take: "safe lo n m (dec_take n)"
  by (rule safeI)
    (auto simp: dec_take_def and_then_Inl ok_or_def decoder_ok_def reads_on_def result_simps
      split: option.splits if_splits)

lemma safe_node: "safe lo 0 m (dec_node depth)"
  by (rule safeI)
    (auto simp: dec_node_def and_then_Inl ok_or_def decoder_ok_def reads_on_def result_simps
      split: option.splits if_splits)

lemma safe_capacity: "safe lo 0 m (dec_ensure_node_capacity n)"
  by (rule safeI)
    (auto simp: dec_ensure_node_capacity_def and_then_Inl ok_or_def decoder_ok_def reads_on_def
      result_simps split: option.splits if_splits)

lemma safe_u8: "safe lo 1 m dec_u8"
  unfolding dec_u8_def by (intro safe_rd_map safe_take)

lemma safe_words: "safe lo 4 m dec_u32" "safe lo 8 m dec_u64" "safe lo 8 m dec_i64"
  "safe lo 16 m dec_u128" "safe lo 16 m dec_i128"
  unfolding dec_u32_def dec_u64_def dec_i64_def dec_u128_def dec_i128_def
  by (intro safe_rd_map safe_take)+


lemmas safe_steps = safe_offset safe_seq safe_rd_map safe_return safe_u8 safe_words safe_node
  safe_capacity safe_take

lemma safe_bool: "safe lo 1 m dec_bool"
  unfolding dec_bool_def
  by (rule safe_offset, rule safe_seq [OF safe_u8]) (auto intro: safe_return safe_invalid_tag)

lemma dec_u32_offset: "dec_u32 d = Inr (w, d') \<Longrightarrow> d_offset d' = d_offset d + 4"
  by (auto simp: dec_u32_def rd_map_def rd_bind_def rd_return_def dec_take_def result_simps split: if_splits)

text \<open>A length prefix, and a continuation that reports errors at the offset of the prefix.\<close>

lemma safe_u32_then:
  assumes "\<And>d w d'. decoder_ok d' \<Longrightarrow> d_offset d' = d_offset d + 4 \<Longrightarrow>
      (case f d w d' of
         Inl err \<Rightarrow> \<exists>off. we_offset err = Some off \<and> off \<le> length (d_input d')
       | Inr (x, d'') \<Rightarrow> reads_on k d' d'')"
  shows "safe lo (4 + k) m (\<lambda>d. and_then (dec_u32 d) (\<lambda>(w, d'). f d w d'))"
proof (rule safeI)
  fix d err
  assume d: "decoder_ok d" "lo \<le> d_offset d" "dec_remaining d \<le> m"
    and e: "and_then (dec_u32 d) (\<lambda>(w, d'). f d w d') = Inl err"
  show "\<exists>off. we_offset err = Some off \<and> off \<le> length (d_input d)"
  proof (cases "dec_u32 d")
    case (Inl e1)
    with e show ?thesis using safeD_err [OF safe_words(1) d] by simp
  next
    case (Inr p)
    obtain w d1 where p: "p = (w, d1)" by (cases p)
    have "decoder_ok d1" "d_input d1 = d_input d"
      using reads_on_next [OF safeD_ok [OF safe_words(1) d Inr [unfolded p]] d(2,3)] by auto
    with assms [of d1 d w] dec_u32_offset [OF Inr [unfolded p]] e Inr p show ?thesis by auto
  qed
next
  fix d x d'
  assume d: "decoder_ok d" "lo \<le> d_offset d" "dec_remaining d \<le> m"
    and e: "and_then (dec_u32 d) (\<lambda>(w, d'). f d w d') = Inr (x, d')"
  then obtain w d1 where 1: "dec_u32 d = Inr (w, d1)" "f d w d1 = Inr (x, d')"
    by (auto simp: and_then_Inr)
  have on: "reads_on 4 d d1" by (rule safeD_ok [OF safe_words(1) d 1(1)])
  then have "decoder_ok d1" using reads_on_next [OF on d(2,3)] by auto
  with assms [of d1 d w] dec_u32_offset [OF 1(1)] 1(2) have "reads_on k d1 d'" by simp
  with on show "reads_on (4 + k) d d'" by (rule reads_on_trans)
qed

lemma take_cases:
  assumes "decoder_ok d"
  shows "case dec_take n d of
      Inl err \<Rightarrow> \<exists>off. we_offset err = Some off \<and> off \<le> length (d_input d)
    | Inr (x, d') \<Rightarrow> reads_on n d d'"
  using safe_take [of 0 n "dec_remaining d", unfolded safe_def] assms by simp

lemma safe_string: "safe lo 4 m dec_string"
  unfolding dec_string_def Let_def
proof (rule safe_u32_then [where k = 0, simplified])
  fix d w d'
  assume d': "decoder_ok d'" "d_offset d' = d_offset d + 4"
  then show "case if max_string_bytes (d_limits d') < unat w
          then Inl (limit_at (d_offset d) ''string exceeds max_string_bytes'')
          else and_then (dec_take (unat w) d') (\<lambda>(bs, d'').
            and_then (ok_or (from_utf8 bs) (wire_at InvalidUtf8 (d_offset d + 4) ''invalid UTF-8 string''))
              (\<lambda>text. Inr (text, d''))) of
      Inl err \<Rightarrow> \<exists>off. we_offset err = Some off \<and> off \<le> length (d_input d')
    | Inr (x, d'') \<Rightarrow> reads_on 0 d' d''"
    using take_cases [OF d'(1), of "unat w"]
    by (auto simp: decoder_ok_def ok_or_def reads_on_def split: sum.splits option.splits)
qed

lemma safe_literal: "safe lo 4 m dec_literal"
  unfolding dec_literal_def Let_def
proof (rule safe_u32_then [where k = 0, simplified])
  fix d w d'
  assume d': "decoder_ok d'" "d_offset d' = d_offset d + 4"
  then show "case if max_literal_bytes (d_limits d') < unat w
          then Inl (limit_at (d_offset d) ''literal exceeds max_literal_bytes'')
          else dec_take (unat w) d' of
      Inl err \<Rightarrow> \<exists>off. we_offset err = Some off \<and> off \<le> length (d_input d')
    | Inr (x, d'') \<Rightarrow> reads_on 0 d' d''"
    using take_cases [OF d'(1), of "unat w"]
    by (auto simp: decoder_ok_def reads_on_def split: sum.splits)
qed

lemma safe_count: "safe lo 4 m (dec_count k)"
  unfolding dec_count_def Let_def
  by (rule safe_u32_then [where k = 0, simplified])
    (auto simp: decoder_ok_def ok_or_def reads_on_def split: option.splits)

lemma count_bounds:
  "dec_count k d = Inr (n, d') \<Longrightarrow> n * k \<le> dec_remaining d' \<and> n \<le> max_list_items (d_limits d')"
  by (auto simp: dec_count_def result_simps Let_def split: if_splits)

section \<open>Collections, types and datums stay inside the payload\<close>

lemma safe_repeat:
  assumes "\<And>m'. m' \<le> m \<Longrightarrow> safe lo 0 m' r"
  shows "safe lo 0 m (rd_repeat n r)"
  using assms
proof (induction n arbitrary: m)
  case 0
  then show ?case by (simp add: safe_return)
next
  case (Suc n)
  have "safe lo 0 m r" using Suc.prems by simp
  moreover have "safe lo 0 m (rd_repeat n r)" using Suc by simp
  ultimately show ?case
    by (auto intro!: safe_seq [where k = 0] intro: safe_return)
qed

lemma safe_items:
  assumes "\<And>m'. m' \<le> m - 4 \<Longrightarrow> safe lo 0 m' r"
  shows "safe lo 4 m (dec_items k r)"
  unfolding dec_items_def
  by (rule safe_seq [OF safe_count], rule safe_seq [OF safe_capacity])
    (auto intro!: safe_repeat assms)

lemma safe_zero: "safe lo k m r \<Longrightarrow> safe lo 0 m r"
  by (erule safe_mono) auto

lemma safe_scalar: "safe lo 1 m dec_scalar"
  unfolding dec_scalar_def
  by (rule safe_offset, rule safe_seq [OF safe_u8])
    (auto intro: safe_return safe_invalid_tag safe_rd_map safe_zero [OF safe_u8])

lemma safe_parameter: "safe lo 5 m (dec_parameter depth)"
  unfolding dec_parameter_def
  apply (rule safe_seq [OF safe_node], rule safe_seq [OF safe_string], rule safe_offset,
      rule safe_seq [OF safe_u8], rule safe_seq [where k = 0])
   apply (auto intro: safe_return safe_invalid_tag safe_rd_map safe_zero [OF safe_bool]
      safe_zero [OF safe_words(3)] safe_zero [OF safe_words(2)] safe_zero [OF safe_string])
  done

lemma safe_field:
  assumes "\<And>lo m' depth. m' \<le> m - 5 \<Longrightarrow> safe lo 0 m' (ty depth)"
  shows "safe lo 5 m (dec_field ty depth)"
  unfolding dec_field_def
  by (rule safe_seq [OF safe_node], rule safe_seq [OF safe_string], rule safe_seq [OF safe_bool],
      rule safe_seq [OF assms]) (auto intro: safe_return)

lemma safe_shape:
  assumes ty: "\<And>lo m' depth. m' < m \<Longrightarrow> safe lo 0 m' (ty depth)"
  shows "safe lo 1 m (dec_shape ty depth)"
  unfolding dec_shape_def Let_def
proof (rule safe_offset, rule safe_seq [OF safe_u8])
  fix off t
  assume "1 \<le> m"
  then have m: "0 < m" by simp
  let ?c = "saturating_add_usize depth 1"
  let ?lo = "max lo off"
  have "safe ?lo 0 (m - 1) (rd_bind (ty ?c) (\<lambda>k. rd_bind (ty ?c) (\<lambda>v. rd_return (SDMap k v))))"
    using m by (auto intro!: safe_seq [where k = 0] ty intro: safe_return)
  moreover have "safe ?lo 0 (m - 1) (dec_items 1 (ty ?c))"
    using m by (auto intro!: safe_zero [OF safe_items] ty)
  moreover have "safe ?lo 0 (m - 1) (dec_items 6 (dec_field ty ?c))"
    using m by (auto intro!: safe_zero [OF safe_items] safe_zero [OF safe_field] ty)
  ultimately show "safe ?lo (1 - 1) (m - 1) (dec_shape_body ty ?c off t)"
    unfolding dec_shape_body_def
    using m by (auto intro!: safe_rd_map ty safe_zero [OF safe_scalar] safe_invalid_tag)
qed


lemma safe_dec_ty: "m < fuel \<Longrightarrow> safe lo 14 m (dec_ty fuel depth)"
proof (induction fuel arbitrary: lo m depth)
  case 0
  then show ?case by simp
next
  case (Suc fuel)
  have shape: "safe lo 0 (m - 14) (dec_shape (dec_ty fuel) depth)" for lo
    using Suc by (intro safe_zero [OF safe_shape] safe_zero [OF Suc.IH]) auto
  have params: "safe lo 4 (m - 10) (dec_items 6 (dec_parameter depth))" for lo
    by (intro safe_items safe_zero [OF safe_parameter])
  have "safe lo 14 m (rd_bind (dec_node depth) (\<lambda>_. rd_bind dec_string (\<lambda>key.
     rd_bind dec_u32 (\<lambda>version. rd_bind dec_bool (\<lambda>nullable. rd_bind dec_u8 (\<lambda>property_bits.
     rd_bind (dec_items 6 (dec_parameter depth)) (\<lambda>parameters.
     rd_bind (dec_shape (dec_ty fuel) depth) (\<lambda>shape.
       rd_return (TypeDto key version nullable property_bits parameters shape)))))))))"
    by (rule safe_seq [OF safe_node], rule safe_seq [OF safe_string], rule safe_seq [OF safe_words(1)],
        rule safe_seq [OF safe_bool], rule safe_seq [OF safe_u8], rule safe_seq [where k = 4])
      (use params in simp, rule safe_seq [where k = 0], use shape in simp, simp add: safe_return)
  then show ?case by simp
qed

lemma safe_map:
  assumes "\<And>lo m' depth. m' < m \<Longrightarrow> safe lo 0 m' (datum depth)"
  shows "safe lo 4 m (dec_map datum depth)"
proof -
  have nodes: "safe lo 0 m' (\<lambda>d. and_then
      (ok_or (checked_mul_usize n 2) (limit_at (d_offset d) ''map node count overflow''))
      (\<lambda>nodes. Inr (nodes, d)))" for m' n
    by (rule safeI) (auto simp: and_then_Inl ok_or_def decoder_ok_def reads_on_def result_simps
        split: option.splits)
  show ?thesis
    unfolding dec_map_def
    by (rule safe_seq [OF safe_count], rule safe_seq [OF nodes],
        rule safe_seq [OF safe_capacity])
      (auto intro!: safe_repeat safe_seq [where k = 0] assms intro: safe_return)
qed

lemma safe_clock: "safe lo 7 m (dec_clock mk)"
  unfolding dec_clock_def
  by (rule safe_seq [OF safe_u8], rule safe_seq [OF safe_u8],
      rule safe_seq [OF safe_u8], rule safe_seq [OF safe_words(1)]) (auto intro: safe_return)

lemma safe_value:
  assumes datum: "\<And>lo m' depth. m' < m \<Longrightarrow> safe lo 0 m' (datum depth)"
  shows "safe lo 1 m (dec_value datum depth)"
  unfolding dec_value_def Let_def
proof (rule safe_offset, rule safe_seq [OF safe_u8])
  fix off t
  assume "1 \<le> m"
  then have m: "0 < m" by simp
  let ?c = "saturating_add_usize depth 1"
  let ?lo = "max lo off"
  have list: "safe ?lo 0 (m - 1) (dec_items 1 (datum ?c))"
    using m by (auto intro!: safe_zero [OF safe_items] datum)
  have rec: "safe ?lo 0 (m - 1) (dec_items 5
      (rd_bind dec_string (\<lambda>nm. rd_bind (datum ?c) (\<lambda>v. rd_return (nm, v)))))"
  proof (rule safe_zero [OF safe_items], rule safe_zero [where k = 4])
    fix m' assume "m' \<le> m - 1 - 4"
    then show "safe ?lo 4 m' (rd_bind dec_string (\<lambda>nm. rd_bind (datum ?c) (\<lambda>v. rd_return (nm, v))))"
      using m by (intro safe_seq [OF safe_string] safe_seq [where k = 0] datum) (auto intro: safe_return)
  qed
  have map: "safe ?lo 0 (m - 1) (dec_map datum ?c)"
    using m by (auto intro!: safe_zero [OF safe_map] datum)
  have dec: "safe ?lo 0 (m - 1) (rd_bind dec_i128 (\<lambda>m. rd_bind dec_u32 (\<lambda>s. rd_return (VDDecimal m s))))"
    by (rule safe_zero [where k = 20], rule safe_seq [OF safe_words(5)], rule safe_seq [OF safe_words(1)])
      (auto intro: safe_return)
  have dt: "safe ?lo 0 (m - 1) (rd_bind dec_i64 (\<lambda>j. dec_clock (VDLocalDateTime j)))"
    by (rule safe_zero [where k = 8], rule safe_seq [OF safe_words(3)]) (auto intro: safe_zero [OF safe_clock])
  note words = safe_words [THEN safe_zero]
  show "safe ?lo (1 - 1) (m - 1) (dec_value_body datum ?c off t)"
    unfolding dec_value_body_def
    by (simp add: list rec map dec dt safe_zero [OF safe_clock] safe_rd_map words safe_zero [OF safe_bool]
        safe_zero [OF safe_u8] safe_zero [OF safe_string] safe_zero [OF safe_literal]
        safe_zero [OF safe_take] safe_invalid_tag del: One_nat_def)
qed

lemma safe_dec_datum: "m < fuel \<Longrightarrow> safe lo 1 m (dec_datum fuel depth)"
proof (induction fuel arbitrary: lo m depth)
  case 0
  then show ?case by simp
next
  case (Suc fuel)
  have "safe lo 1 m (rd_bind (dec_node depth) (\<lambda>_. rd_bind rd_offset (\<lambda>off.
      rd_bind dec_u8 (dec_datum_body (dec_datum fuel) depth off))))"
  proof (rule safe_seq [OF safe_node], rule safe_offset, rule safe_seq [where k = 1])
    fix off
    show "safe (max lo off) 1 (m - 0) dec_u8" by (rule safe_u8)
    fix t
    have "safe lo 0 (m - 1) (dec_value (dec_datum fuel) depth)" for lo
      using Suc by (intro safe_zero [OF safe_value] safe_zero [OF Suc.IH]) auto
    then show "safe (max lo off) (1 - 0 - 1) (m - 0 - 1) (dec_datum_body (dec_datum fuel) depth off t)"
      by (simp add: safe_return safe_rd_map safe_invalid_tag dec_datum_body_def)
  qed
  then show ?case by simp
qed

lemma safe_typed_datum: "m < fuel \<Longrightarrow> safe lo 16 m (dec_typed_datum fuel)"
  unfolding dec_typed_datum_def
  by (rule safe_seq [OF safe_dec_ty], simp, rule safe_seq [OF safe_bool], rule safe_seq [OF safe_dec_datum])
    (auto intro: safe_return)

end
