(* ===== verification/Wire_Lower.thy ===== *)
theory Wire_Lower
  imports Wire_Encode Wire_Decode Exact_Sum
begin

text \<open>
  \<open>dol-wire/validate/mod.rs\<close>: lowering of parsed DTOs to core types and datums, and the entry points
  \<open>decode_type_def\<close> and \<open>decode_typed_datum\<close> of \<open>decode/mod.rs\<close>, which parse, lower, validate and then
  require that re-encoding gives the input back.
\<close>

section \<open>Types\<close>

fun lower_scalar :: "scalar_dto \<Rightarrow> scalar_repr" where
  "lower_scalar DBool = RBool"
| "lower_scalar DTruth = RTruth"
| "lower_scalar (DInt bits) = RInt bits"
| "lower_scalar (DUInt bits) = RUInt bits"
| "lower_scalar DFloat32 = RFloat32"
| "lower_scalar DFloat64 = RFloat64"
| "lower_scalar DDecimal = RDecimal"
| "lower_scalar DChar = RChar"
| "lower_scalar DString = RString"
| "lower_scalar DBytes = RBytes"
| "lower_scalar DUuid = RUuid"
| "lower_scalar DDate = RDate"
| "lower_scalar DTime = RTime"
| "lower_scalar DLocalDateTime = RLocalDateTime"
| "lower_scalar DInstant = RInstant"
| "lower_scalar DDuration = RDuration"

fun lower_parameter :: "parameter_dto \<Rightarrow> type_parameter" where
  "lower_parameter (PDBool v) = TPBool v"
| "lower_parameter (PDInt v) = TPInt v"
| "lower_parameter (PDUInt v) = TPUInt v"
| "lower_parameter (PDString v) = TPString v"

definition properties_from_bits :: "byte \<Rightarrow> type_properties" where
  "properties_from_bits bits =
     \<lparr>equality = (and bits (push_bit 0 1) \<noteq> 0),
      ordering_p = (and bits (push_bit 1 1) \<noteq> 0),
      keyable = (and bits (push_bit 2 1) \<noteq> 0),
      numeric = (and bits (push_bit 3 1) \<noteq> 0),
      integral = (and bits (push_bit 4 1) \<noteq> 0),
      exact_numeric = (and bits (push_bit 5 1) \<noteq> 0),
      temporal = (and bits (push_bit 6 1) \<noteq> 0),
      collection = (and bits (push_bit 7 1) \<noteq> 0)\<rparr>"

fun lower_type_unchecked :: "type_dto \<Rightarrow> type_def wres"
and lower_shape :: "shape_dto \<Rightarrow> type_shape wres"
and lower_field :: "record_field_dto \<Rightarrow> record_field wres" where
  "lower_type_unchecked (TypeDto key version is_null bits ps sh) =
     and_then (lower_shape sh) (\<lambda>shape.
       let ty = with_properties (type_shaped key version shape) (properties_from_bits bits);
           ty = (if is_null then nullable ty else ty)
       in Inr (foldl (\<lambda>ty np. parameter ty (fst np) (lower_parameter (snd np))) ty ps))"
| "lower_shape (SDScalar repr) = Inr (ShScalar (lower_scalar repr))"
| "lower_shape (SDList element) = and_then (lower_type_unchecked element) (\<lambda>t. Inr (ShList t))"
| "lower_shape (SDMap key val) =
     and_then (lower_type_unchecked key) (\<lambda>k. and_then (lower_type_unchecked val) (\<lambda>v. Inr (ShMap k v)))"
| "lower_shape (SDTuple elements) =
     and_then (try_map lower_type_unchecked elements) (\<lambda>ts. Inr (ShTuple ts))"
| "lower_shape (SDRecord fs) = and_then (try_map lower_field fs) (\<lambda>fs. Inr (ShRecord fs))"
| "lower_field (RecordFieldDto name optional ty) =
     and_then (lower_type_unchecked ty) (\<lambda>t.
       Inr (if optional then record_field_optional name t else record_field_required name t))"

definition lower_type :: "type_dto \<Rightarrow> decode_limits \<Rightarrow> type_def wres" where
  "lower_type dto L =
     and_then (lower_type_unchecked dto) (\<lambda>ty.
     and_then (map_err core_error (validate_type ty (definition_limits L))) (\<lambda>_. Inr ty))"

section \<open>Datums\<close>

definition invalid_temporal :: wire_error where
  "invalid_temporal = wire_new InvalidValue ''temporal value is outside the supported canonical range''"

definition i32_try_from_i64 :: "i64 \<Rightarrow> 32 word option" where
  "i32_try_from_i64 w =
     (if - (2 ^ 31) \<le> sint w \<and> sint w < 2 ^ 31 then Some (word_of_int (sint w)) else None)"

definition i64_try_from_i128 :: "int \<Rightarrow> i64 option" where
  "i64_try_from_i128 n = (if - (2 ^ 63) \<le> n \<and> n < 2 ^ 63 then Some (word_of_int n) else None)"

definition i32_try_from_i128 :: "int \<Rightarrow> 32 word option" where
  "i32_try_from_i128 n = (if - (2 ^ 31) \<le> n \<and> n < 2 ^ 31 then Some (word_of_int n) else None)"

text \<open>Rust's \<open>/\<close> and \<open>%\<close> on signed integers truncate towards zero.\<close>

definition trunc_div :: "int \<Rightarrow> int \<Rightarrow> int" where
  "trunc_div a b = sgn a * (\<bar>a\<bar> div b)"

definition trunc_rem :: "int \<Rightarrow> int \<Rightarrow> int" where
  "trunc_rem a b = sgn a * (\<bar>a\<bar> mod b)"

definition decimal_digits :: "i128 \<Rightarrow> u32 \<Rightarrow> string" where
  "decimal_digits mantissa scale =
     (let digits = show_nat (unat (i128_unsigned_abs mantissa));
          digits =
            (if scale > 0 then
               let s = unat scale;
                   digits = (if length digits \<le> s then replicate (s + 1 - length digits) (CHR ''0'') @ digits
                             else digits)
               in take (length digits - s) digits @ CHR ''.'' # drop (length digits - s) digits
             else digits)
      in if i128_is_negative mantissa then CHR ''-'' # digits else digits)"

definition lower_decimal :: "'x ext \<Rightarrow> i128 \<Rightarrow> u32 \<Rightarrow> 'x val wres" where
  "lower_decimal X mantissa scale =
     (if scale > 28 then Inl (wire_new InvalidValue ''decimal scale exceeds 28'')
      else and_then
        (ok_or (dec_parse X (decimal_digits mantissa scale))
          (wire_new InvalidValue ''invalid decimal representation''))
        (\<lambda>v. Inr (VDecimal v)))"

definition HEX :: string where "HEX = ''0123456789abcdef''"

definition uuid_text :: "byte list \<Rightarrow> string" where
  "uuid_text bytes =
     concat (map (\<lambda>(index, b).
       (if index \<in> {4, 6, 8, 10} then ''-'' else []) @
       [HEX ! unat (drop_bit 4 b), HEX ! unat (and b 15)]) (enumerate 0 bytes))"

definition lower_uuid :: "'x ext \<Rightarrow> byte list \<Rightarrow> 'x val wres" where
  "lower_uuid X bytes =
     and_then
       (ok_or (uuid_parse X (uuid_text bytes)) (wire_new InvalidValue ''invalid UUID representation''))
       (\<lambda>v. Inr (VUuid v))"

definition char_from_u32 :: "u32 \<Rightarrow> u32 option" where
  "char_from_u32 w =
     (if unat w < 55296 \<or> 57344 \<le> unat w \<and> unat w \<le> 1114111 then Some w else None)"

definition lower_date :: "'x ext \<Rightarrow> i64 \<Rightarrow> 'x wres" where
  "lower_date X julian_day =
     and_then (ok_or (i32_try_from_i64 julian_day) invalid_temporal) (\<lambda>j.
       ok_or (date_from_julian_day X j) invalid_temporal)"

definition lower_duration :: "'x ext \<Rightarrow> i128 \<Rightarrow> 'x val wres" where
  "lower_duration X nanoseconds =
     and_then (ok_or (i64_try_from_i128 (trunc_div (sint nanoseconds) 1000000000)) invalid_temporal) (\<lambda>seconds.
     and_then (ok_or (i32_try_from_i128 (trunc_rem (sint nanoseconds) 1000000000)) invalid_temporal) (\<lambda>subsecond.
       Inr (VDuration (duration_new X seconds subsecond))))"

definition lower_truth :: "byte \<Rightarrow> 'x val wres" where
  "lower_truth t =
     (if t = 0 then Inr (VTruth TFalse)
      else if t = 1 then Inr (VTruth TTrue)
      else if t = 2 then Inr (VTruth TUnknown)
      else Inl (wire_new InvalidTag ''truth value has an invalid tag''))"

definition record_insert_all :: "(string \<times> 'x datum wres) list \<Rightarrow> (string, 'x datum) btree wres" where
  "record_insert_all fs =
     try_each (\<lambda>(name, r) m.
       and_then r (\<lambda>d.
         if map_of m name \<noteq> None
         then Inl (wire_new InvalidValue ''record contains a duplicate field name'')
         else Inr (btree_insert name d m))) fs []"

primrec lower_value :: "'x ext \<Rightarrow> value_dto \<Rightarrow> 'x val wres"
and lower_datum :: "'x ext \<Rightarrow> datum_dto \<Rightarrow> 'x datum wres" where
  "lower_value X (VDBool v) = Inr (VBool v)"
| "lower_value X (VDTruth t) = lower_truth t"
| "lower_value X (VDInt v) = Inr (VInt v)"
| "lower_value X (VDUInt v) = Inr (VUInt v)"
| "lower_value X (VDFloat32 bits) = Inr (VFloat32 bits)"
| "lower_value X (VDFloat64 bits) = Inr (VFloat64 bits)"
| "lower_value X (VDDecimal mantissa scale) = lower_decimal X mantissa scale"
| "lower_value X (VDChar v) =
     and_then (ok_or (char_from_u32 v) (wire_new InvalidValue ''invalid Unicode scalar value''))
       (\<lambda>c. Inr (VChar c))"
| "lower_value X (VDString v) = Inr (VString v)"
| "lower_value X (VDBytes v) = Inr (VBytes v)"
| "lower_value X (VDUuid bytes) = lower_uuid X bytes"
| "lower_value X (VDDate j) = and_then (lower_date X j) (\<lambda>d. Inr (VDate d))"
| "lower_value X (VDTime h m s n) =
     and_then (ok_or (time_from_hms_nano X h m s n) invalid_temporal) (\<lambda>t. Inr (VTime t))"
| "lower_value X (VDLocalDateTime j h m s n) =
     and_then (lower_date X j) (\<lambda>d.
     and_then (ok_or (time_from_hms_nano X h m s n) invalid_temporal) (\<lambda>t.
       Inr (VLocalDateTime (datetime_new X d t))))"
| "lower_value X (VDInstant n) =
     and_then (ok_or (instant_from_unix_nanos X n) invalid_temporal) (\<lambda>i. Inr (VInstant i))"
| "lower_value X (VDDuration n) = lower_duration X n"
| "lower_value X (VDList ds) = and_then (try_map id (map (lower_datum X) ds)) (\<lambda>vs. Inr (VList vs))"
| "lower_value X (VDMap es) =
     and_then
       (try_map (\<lambda>(k, v). and_then k (\<lambda>k. and_then v (\<lambda>v. Inr (k, v))))
         (map (map_prod (lower_datum X) (lower_datum X)) es))
       (\<lambda>es. Inr (VMap es))"
| "lower_value X (VDTuple ds) = and_then (try_map id (map (lower_datum X) ds)) (\<lambda>vs. Inr (VTuple vs))"
| "lower_value X (VDRecord fs) =
     and_then (record_insert_all (map (map_prod id (lower_datum X)) fs)) (\<lambda>m. Inr (VRecord m))"
| "lower_datum X DDMissing = Inr Missing"
| "lower_datum X DDNull = Inr Null"
| "lower_datum X (DDValue v) = and_then (lower_value X v) (\<lambda>v. Inr (Value v))"

definition lower_typed_datum ::
    "'x ext \<Rightarrow> typed_datum_dto \<Rightarrow> decode_limits \<Rightarrow> (type_def \<times> presence \<times> 'x datum) wres" where
  "lower_typed_datum X dto L =
     and_then (lower_type (tdd_ty dto) L) (\<lambda>ty.
       let presence = (if tdd_optional dto then Optional else Required)
       in and_then (lower_datum X (tdd_datum dto)) (\<lambda>d.
          and_then (map_err core_error (validate_datum X ty presence d)) (\<lambda>_.
            Inr (ty, presence, d))))"

section \<open>Entry points\<close>

definition decode_type_def :: "byte list \<Rightarrow> decode_limits \<Rightarrow> type_def wres" where
  "decode_type_def input L =
     and_then (expected_envelope input L PKTypeDef) (\<lambda>env.
       let d = decoder_new (env_payload env) L
       in and_then (dec_ty (payload_fuel d) 0 d) (\<lambda>(dto, d).
          and_then (dec_finish d) (\<lambda>_.
          and_then (lower_type dto L) (\<lambda>ty.
          and_then (encode_type_def ty L) (\<lambda>canonical.
          and_then (require_canonical input canonical) (\<lambda>_.
            Inr ty))))))"

definition decode_typed_datum ::
    "'x ext \<Rightarrow> byte list \<Rightarrow> decode_limits \<Rightarrow> (type_def \<times> presence \<times> 'x datum) wres" where
  "decode_typed_datum X input L =
     and_then (expected_envelope input L PKTypedDatum) (\<lambda>env.
       let d = decoder_new (env_payload env) L
       in and_then (dec_typed_datum (payload_fuel d) d) (\<lambda>(dto, d).
          and_then (dec_finish d) (\<lambda>_.
          and_then (lower_typed_datum X dto L) (\<lambda>(ty, presence, v).
          and_then (encode_typed_datum X ty presence v L) (\<lambda>canonical.
          and_then (require_canonical input canonical) (\<lambda>_.
            Inr (ty, presence, v)))))))"

end
