(* ===== verification/Wire_Roundtrip.thy ===== *)
theory Wire_Roundtrip
  imports Wire_Lower Type_Laws
begin

text \<open>
  The abstract wire format and the refinement of the codec to it. \<open>ty_bytes\<close> and \<open>datum_wire\<close> give the
  byte sequence of a type and of a datum without limits, counters or buffers. The relation \<open>sim\<close>
  states that a writer of the encoder emits exactly the specified bytes and that the matching reader
  of the decoder, run in lockstep with the same limits and node count, accepts them and returns the
  expected DTO; lowering that DTO gives the value back. The locale \<open>frame_codec\<close> derives from this what
  the users of a frame format rely on.
\<close>

section \<open>The abstract format\<close>

definition str_bytes :: "string \<Rightarrow> byte list" where
  "str_bytes s = u32_be (of_nat (length s)) @ as_bytes s"

definition literal_bytes :: "byte list \<Rightarrow> byte list" where
  "literal_bytes bs = u32_be (of_nat (length bs)) @ bs"

definition items_bytes :: "byte list list \<Rightarrow> byte list" where
  "items_bytes bss = u32_be (of_nat (length bss)) @ concat bss"

definition bool_byte :: "bool \<Rightarrow> byte" where
  "bool_byte b = (if b then 1 else 0)"

fun scalar_bytes :: "scalar_repr \<Rightarrow> byte list" where
  "scalar_bytes RBool = [0]"
| "scalar_bytes RTruth = [1]"
| "scalar_bytes (RInt bits) = [2, bits]"
| "scalar_bytes (RUInt bits) = [3, bits]"
| "scalar_bytes RFloat32 = [4]"
| "scalar_bytes RFloat64 = [5]"
| "scalar_bytes RDecimal = [6]"
| "scalar_bytes RChar = [7]"
| "scalar_bytes RString = [8]"
| "scalar_bytes RBytes = [9]"
| "scalar_bytes RUuid = [10]"
| "scalar_bytes RDate = [11]"
| "scalar_bytes RTime = [12]"
| "scalar_bytes RLocalDateTime = [13]"
| "scalar_bytes RInstant = [14]"
| "scalar_bytes RDuration = [15]"

fun parameter_bytes :: "type_parameter \<Rightarrow> byte list" where
  "parameter_bytes (TPBool v) = [0, bool_byte v]"
| "parameter_bytes (TPInt v) = 1 # u64_be v"
| "parameter_bytes (TPUInt v) = 2 # u64_be v"
| "parameter_bytes (TPString v) = 3 # str_bytes v"

fun ty_bytes :: "type_def \<Rightarrow> byte list"
and shape_bytes :: "type_shape \<Rightarrow> byte list"
and field_bytes :: "record_field \<Rightarrow> byte list" where
  "ty_bytes (TypeDef k v sh n p ps) =
     str_bytes k @ u32_be v @ [bool_byte (n = Nullable)] @ [properties_to_bits p] @
     items_bytes (map (\<lambda>np. str_bytes (fst np) @ parameter_bytes (snd np)) ps) @ shape_bytes sh"
| "shape_bytes (ShScalar repr) = 0 # scalar_bytes repr"
| "shape_bytes (ShList element) = 1 # ty_bytes element"
| "shape_bytes (ShMap key val) = 2 # ty_bytes key @ ty_bytes val"
| "shape_bytes (ShTuple elements) = 3 # items_bytes (map ty_bytes elements)"
| "shape_bytes (ShRecord fs) = 4 # items_bytes (map field_bytes fs)"
| "field_bytes (RecordField nm ty pr) = str_bytes nm @ [bool_byte (pr = Optional)] @ ty_bytes ty"

text \<open>The DTO that the decoder builds for a type.\<close>

fun dto_of_scalar :: "scalar_repr \<Rightarrow> scalar_dto" where
  "dto_of_scalar RBool = DBool"
| "dto_of_scalar RTruth = DTruth"
| "dto_of_scalar (RInt bits) = DInt bits"
| "dto_of_scalar (RUInt bits) = DUInt bits"
| "dto_of_scalar RFloat32 = DFloat32"
| "dto_of_scalar RFloat64 = DFloat64"
| "dto_of_scalar RDecimal = DDecimal"
| "dto_of_scalar RChar = DChar"
| "dto_of_scalar RString = DString"
| "dto_of_scalar RBytes = DBytes"
| "dto_of_scalar RUuid = DUuid"
| "dto_of_scalar RDate = DDate"
| "dto_of_scalar RTime = DTime"
| "dto_of_scalar RLocalDateTime = DLocalDateTime"
| "dto_of_scalar RInstant = DInstant"
| "dto_of_scalar RDuration = DDuration"

fun dto_of_parameter :: "type_parameter \<Rightarrow> parameter_dto" where
  "dto_of_parameter (TPBool v) = PDBool v"
| "dto_of_parameter (TPInt v) = PDInt v"
| "dto_of_parameter (TPUInt v) = PDUInt v"
| "dto_of_parameter (TPString v) = PDString v"

fun dto_of_type :: "type_def \<Rightarrow> type_dto"
and dto_of_shape :: "type_shape \<Rightarrow> shape_dto"
and dto_of_field :: "record_field \<Rightarrow> record_field_dto" where
  "dto_of_type (TypeDef k v sh n p ps) =
     TypeDto k v (n = Nullable) (properties_to_bits p)
       (map (\<lambda>np. (fst np, dto_of_parameter (snd np))) ps) (dto_of_shape sh)"
| "dto_of_shape (ShScalar repr) = SDScalar (dto_of_scalar repr)"
| "dto_of_shape (ShList element) = SDList (dto_of_type element)"
| "dto_of_shape (ShMap key val) = SDMap (dto_of_type key) (dto_of_type val)"
| "dto_of_shape (ShTuple elements) = SDTuple (map dto_of_type elements)"
| "dto_of_shape (ShRecord fs) = SDRecord (map dto_of_field fs)"
| "dto_of_field (RecordField nm ty pr) = RecordFieldDto nm (pr = Optional) (dto_of_type ty)"

section \<open>Lockstep of writers and readers\<close>

definition in_step :: "encoder \<Rightarrow> decoder \<Rightarrow> byte list \<Rightarrow> bool" where
  "in_step e d bs \<longleftrightarrow>
     d_limits d = e_limits e \<and> d_nodes d = e_nodes e \<and> length (d_input d) \<le> usize_max \<and>
     d_offset d \<le> length (d_input d) \<and> prefix bs (drop (d_offset d) (d_input d))"

definition sim :: "writer \<Rightarrow> byte list \<Rightarrow> 'a reader \<Rightarrow> 'a \<Rightarrow> bool" where
  "sim w bs r x \<longleftrightarrow>
     (\<forall>e e'. w e = Inr e' \<longrightarrow>
        e' = e\<lparr>e_output := e_output e @ bs, e_nodes := e_nodes e'\<rparr> \<and>
        (\<forall>d. in_step e d bs \<longrightarrow>
           r d = Inr (x, d\<lparr>d_offset := d_offset d + length bs, d_nodes := e_nodes e'\<rparr>)))"

named_theorems sim_intros \<open>lockstep facts about primitive writers and readers\<close>

lemma sim_emits: "sim w bs r x \<Longrightarrow> w e = Inr e' \<Longrightarrow>
    e' = e\<lparr>e_output := e_output e @ bs, e_nodes := e_nodes e'\<rparr>"
  by (simp add: sim_def)

lemma sim_reads: "sim w bs r x \<Longrightarrow> w e = Inr e' \<Longrightarrow> in_step e d bs \<Longrightarrow>
    r d = Inr (x, d\<lparr>d_offset := d_offset d + length bs, d_nodes := e_nodes e'\<rparr>)"
  by (simp add: sim_def)

lemma in_step_append:
  assumes "in_step e d (bs @ bs')"
  shows "in_step e d bs"
    and "e1 = e\<lparr>e_output := out, e_nodes := n\<rparr> \<Longrightarrow>
      in_step e1 (d\<lparr>d_offset := d_offset d + length bs, d_nodes := n\<rparr>) bs'"
proof -
  from assms have p: "prefix (bs @ bs') (drop (d_offset d) (d_input d))" and
    le: "d_offset d \<le> length (d_input d)"
    by (simp_all add: in_step_def)
  then obtain zs where zs: "drop (d_offset d) (d_input d) = bs @ bs' @ zs" by (auto simp: prefix_def)
  then have "drop (length bs + d_offset d) (d_input d) = bs' @ zs"
    by (simp flip: drop_drop)
  moreover have "length (d_input d) - d_offset d = length (bs @ bs' @ zs)"
    using arg_cong [OF zs, of length] by simp
  ultimately show "in_step e d bs" "e1 = e\<lparr>e_output := out, e_nodes := n\<rparr> \<Longrightarrow>
      in_step e1 (d\<lparr>d_offset := d_offset d + length bs, d_nodes := n\<rparr>) bs'"
    using assms zs le by (auto simp: in_step_def add.commute)
qed

lemma sim_seq:
  assumes w: "sim w bs r x" and ws: "sim (in_order ws) bs' (f x) y"
  shows "sim (in_order (w # ws)) (bs @ bs') (rd_bind r f) y"
  unfolding sim_def
proof (intro allI impI conjI)
  fix e e'
  assume "in_order (w # ws) e = Inr e'"
  then obtain e1 where 1: "w e = Inr e1" "in_order ws e1 = Inr e'" by (auto simp: and_then_Inr)
  note e1 = sim_emits [OF w 1(1)] and e' = sim_emits [OF ws 1(2)]
  show "e' = e\<lparr>e_output := e_output e @ bs @ bs', e_nodes := e_nodes e'\<rparr>"
    using e1 e' by (cases e; cases e1; cases e') auto
  fix d
  assume step: "in_step e d (bs @ bs')"
  let ?d1 = "d\<lparr>d_offset := d_offset d + length bs, d_nodes := e_nodes e1\<rparr>"
  have "r d = Inr (x, ?d1)"
    by (rule sim_reads [OF w 1(1) in_step_append(1) [OF step]])
  moreover have "f x ?d1 = Inr (y, ?d1\<lparr>d_offset := d_offset ?d1 + length bs', d_nodes := e_nodes e'\<rparr>)"
    by (rule sim_reads [OF ws 1(2) in_step_append(2) [OF step e1]])
  ultimately show "rd_bind r f d = Inr (y, d\<lparr>d_offset := d_offset d + length (bs @ bs'), d_nodes := e_nodes e'\<rparr>)"
    by (simp add: rd_bind_def add.assoc)
qed

lemma sim_nil: "sim (in_order []) [] (rd_return x) x"
  by (simp add: sim_def rd_return_def in_step_def)

lemma sim_one: "sim w bs r x \<Longrightarrow> sim (in_order [w]) bs r x"
  by (auto simp: sim_def and_then_Inr)

lemma sim_rd_map: "sim w bs r x \<Longrightarrow> sim w bs (rd_map f r) (f x)"
  by (auto simp: sim_def rd_map_def rd_bind_def rd_return_def)

lemma sim_last: "sim w bs r x \<Longrightarrow> sim (in_order [w]) bs (rd_bind r (\<lambda>x. rd_return (f x))) (f x)"
  using sim_one [OF sim_rd_map] by (simp add: rd_map_def)

lemma sim_offset: "(\<And>off. sim w bs (f off) x) \<Longrightarrow> sim w bs (rd_bind rd_offset f) x"
  by (auto simp: sim_def rd_bind_def rd_offset_def)


subsection \<open>Primitives\<close>

lemma enc_write_Inr:
  "enc_write bs e = Inr e' \<longleftrightarrow>
     length (e_output e) + length bs \<le> usize_max \<and>
     length (e_output e) + length bs \<le> e_max_payload_bytes e \<and> e' = e\<lparr>e_output := e_output e @ bs\<rparr>"
  by (auto simp: enc_write_def result_simps split: if_splits)

lemma take_in_step:
  assumes "in_step e d bs"
  shows "dec_take (length bs) d = Inr (bs, d\<lparr>d_offset := d_offset d + length bs\<rparr>)"
proof -
  from assms obtain zs where zs: "drop (d_offset d) (d_input d) = bs @ zs" by (auto simp: in_step_def prefix_def)
  have "length (d_input d) - d_offset d = length (bs @ zs)"
    using arg_cong [OF zs, of length] by simp
  then have "d_offset d + length bs \<le> length (d_input d)"
    using assms by (auto simp: in_step_def)
  then show ?thesis
    using assms zs by (simp add: dec_take_def checked_add_usize_def in_step_def)
qed

lemma sim_write: "n = length bs \<Longrightarrow> sim (enc_write bs) bs (dec_take n) bs"
  by (auto simp: sim_def enc_write_Inr take_in_step) (simp add: in_step_def)

lemma sim_u8: "sim (enc_u8 v) [v] dec_u8 v"
  using sim_rd_map [OF sim_write [of 1 "[v]"], of "\<lambda>bs. bs ! 0"] by (simp add: enc_u8_def dec_u8_def)

lemma sim_words:
  "sim (enc_u32 a) (u32_be a) dec_u32 a"
  "sim (enc_u64 b) (u64_be b) dec_u64 b"
  "sim (enc_i64 b) (u64_be b) dec_i64 b"
  "sim (enc_u128 c) (u128_be c) dec_u128 c"
  "sim (enc_i128 c) (u128_be c) dec_i128 c"
  using sim_rd_map [OF sim_write [of 4 "u32_be a"], of u32_from_be]
    sim_rd_map [OF sim_write [of 8 "u64_be b"], of u64_from_be]
    sim_rd_map [OF sim_write [of 16 "u128_be c"], of u128_from_be]
  by (simp_all add: enc_u32_def enc_u64_def enc_i64_def enc_u128_def enc_i128_def
      dec_u32_def dec_u64_def dec_i64_def dec_u128_def dec_i128_def)

lemma sim_tag:
  assumes "sim w bs (f t) x"
  shows "sim (in_order [enc_u8 t, w]) (t # bs) (rd_bind dec_u8 f) x"
  using sim_seq [OF sim_u8, where f = f, OF sim_one, OF assms] by simp

lemma sim_tag_only:
  assumes "f t = rd_return x"
  shows "sim (enc_u8 t) [t] (rd_bind dec_u8 f) x"
  using sim_u8 [of t] assms by (auto simp: sim_def rd_bind_def rd_return_def)

text \<open>A tag dispatched by a body that also gets the offset of the tag.\<close>

lemma sim_dispatch:
  assumes "\<And>off. sim (in_order ws) bs (f off t) x"
  shows "sim (in_order (enc_u8 t # ws)) (t # bs) (rd_bind rd_offset (\<lambda>off. rd_bind dec_u8 (f off))) x"
proof (rule sim_offset)
  fix off
  have "sim (in_order (enc_u8 t # ws)) ([t] @ bs) (rd_bind dec_u8 (f off)) x"
    by (rule sim_seq [OF sim_u8]) (rule assms)
  then show "sim (in_order (enc_u8 t # ws)) (t # bs) (rd_bind dec_u8 (f off)) x" by simp
qed

lemma sim_bool: "sim (enc_bool v) [bool_byte v] dec_bool v"
  unfolding enc_bool_def dec_bool_def bool_byte_def
  by (rule sim_offset, rule sim_tag_only) simp

lemma sim_node: "sim (enc_node depth) [] (dec_node depth) ()"
  by (auto simp: sim_def enc_node_def dec_node_def in_step_def result_simps checked_add_usize_def
      split: if_splits)

lemma sim_capacity: "sim (enc_ensure_node_capacity n) [] (dec_ensure_node_capacity n) ()"
  by (auto simp: sim_def enc_ensure_node_capacity_def dec_ensure_node_capacity_def in_step_def
      result_simps checked_add_usize_def split: if_splits)

lemma u32_len_Some: "u32_try_from_usize n = Some w \<longleftrightarrow> n < 2 ^ 32 \<and> w = of_nat n"
  by (auto simp: u32_try_from_usize_def)

lemma sim_string: "rust_str s \<Longrightarrow> sim (enc_string s) (str_bytes s) dec_string s"
  unfolding sim_def
proof (intro allI impI)
  fix e e'
  assume s: "rust_str s" and e: "enc_string s e = Inr e'"
  then have max: "length s \<le> max_string_bytes (e_limits e)" and len: "length s < 2 ^ 32"
    and w: "in_order [enc_u32 (of_nat (length s)), enc_write (as_bytes s)] e = Inr e'"
    by (auto simp: enc_string_def result_simps u32_len_Some split: if_splits)
  have un: "unat (of_nat (length s) :: u32) = length s" using len by (simp add: unat_of_nat)
  have sm: "sim (in_order [enc_u32 (of_nat (length s)), enc_write (as_bytes s)]) (str_bytes s)
      (rd_bind dec_u32 (\<lambda>w. dec_take (length s))) (as_bytes s)"
    unfolding str_bytes_def by (rule sim_seq [OF sim_words(1)], rule sim_one, rule sim_write) simp
  have "dec_string d = Inr (s, d\<lparr>d_offset := d_offset d + length (str_bytes s), d_nodes := e_nodes e'\<rparr>)"
    if d: "in_step e d (str_bytes s)" for d
  proof -
    have "in_step e d (u32_be (of_nat (length s)))"
      using in_step_append(1) [OF d [unfolded str_bytes_def]] .
    then obtain d1 where d1: "dec_u32 d = Inr (of_nat (length s), d1)" "d_limits d1 = d_limits d"
      by (auto simp: dec_u32_def rd_map_def rd_bind_def rd_return_def dest!: take_in_step)
    then show ?thesis
      using sim_reads [OF sm w d] max s un d
      by (auto simp: dec_string_def rd_bind_def Let_def in_step_def result_simps)
  qed
  then show "e' = e\<lparr>e_output := e_output e @ str_bytes s, e_nodes := e_nodes e'\<rparr> \<and>
      (\<forall>d. in_step e d (str_bytes s) \<longrightarrow>
        dec_string d = Inr (s, d\<lparr>d_offset := d_offset d + length (str_bytes s), d_nodes := e_nodes e'\<rparr>))"
    using sim_emits [OF sm w] by blast
qed

lemma sim_literal: "sim (enc_literal s) (literal_bytes s) dec_literal s"
  unfolding sim_def
proof (intro allI impI)
  fix e e'
  assume e: "enc_literal s e = Inr e'"
  then have max: "length s \<le> max_literal_bytes (e_limits e)" and len: "length s < 2 ^ 32"
    and w: "in_order [enc_u32 (of_nat (length s)), enc_write s] e = Inr e'"
    by (auto simp: enc_literal_def result_simps u32_len_Some split: if_splits)
  have un: "unat (of_nat (length s) :: u32) = length s" using len by (simp add: unat_of_nat)
  have sm: "sim (in_order [enc_u32 (of_nat (length s)), enc_write s]) (literal_bytes s)
      (rd_bind dec_u32 (\<lambda>w. dec_take (length s))) s"
    unfolding literal_bytes_def by (rule sim_seq [OF sim_words(1)], rule sim_one, rule sim_write) simp
  have "dec_literal d = Inr (s, d\<lparr>d_offset := d_offset d + length (literal_bytes s), d_nodes := e_nodes e'\<rparr>)"
    if d: "in_step e d (literal_bytes s)" for d
  proof -
    have "in_step e d (u32_be (of_nat (length s)))"
      using in_step_append(1) [OF d [unfolded literal_bytes_def]] .
    then obtain d1 where d1: "dec_u32 d = Inr (of_nat (length s), d1)" "d_limits d1 = d_limits d"
      by (auto simp: dec_u32_def rd_map_def rd_bind_def rd_return_def dest!: take_in_step)
    then show ?thesis
      using sim_reads [OF sm w d] max un d
      by (auto simp: dec_literal_def rd_bind_def Let_def in_step_def)
  qed
  then show "e' = e\<lparr>e_output := e_output e @ literal_bytes s, e_nodes := e_nodes e'\<rparr> \<and>
      (\<forall>d. in_step e d (literal_bytes s) \<longrightarrow>
        dec_literal d = Inr (s, d\<lparr>d_offset := d_offset d + length (literal_bytes s), d_nodes := e_nodes e'\<rparr>))"
    using sim_emits [OF sm w] by blast
qed

subsection \<open>Collections\<close>

definition sim_each :: "nat \<Rightarrow> writer list \<Rightarrow> byte list list \<Rightarrow> 'a reader \<Rightarrow> 'a list \<Rightarrow> bool" where
  "sim_each k ws bss r xs \<longleftrightarrow>
     length ws = length bss \<and> length xs = length bss \<and>
     (\<forall>i < length bss. sim (ws ! i) (bss ! i) r (xs ! i) \<and> k \<le> length (bss ! i))"

lemma sim_each_map:
  assumes "\<And>a. a \<in> set as \<Longrightarrow> sim (w a) (b a) r (x a) \<and> k \<le> length (b a)"
  shows "sim_each k (map w as) (map b as) r (map x as)"
  using assms by (auto simp: sim_each_def)

lemma sim_each_Cons:
  "sim_each k (w # ws) bss r xs \<longleftrightarrow>
     (\<exists>b bss' x xs'. bss = b # bss' \<and> xs = x # xs' \<and> sim w b r x \<and> k \<le> length b \<and> sim_each k ws bss' r xs')"
  (is "?l \<longleftrightarrow> ?r")
proof
  assume l: ?l
  then obtain b bss' x xs' where eq: "bss = b # bss'" "xs = x # xs'"
    by (cases bss; cases xs) (auto simp: sim_each_def)
  from l have all: "\<forall>i < Suc (length bss'). sim ((w # ws) ! i) ((b # bss') ! i) r ((x # xs') ! i) \<and>
      k \<le> length ((b # bss') ! i)"
    by (simp add: sim_each_def eq)
  have "sim w b r x \<and> k \<le> length b" using all [rule_format, of 0] by simp
  moreover have "\<forall>i < length bss'. sim (ws ! i) (bss' ! i) r (xs' ! i) \<and> k \<le> length (bss' ! i)"
    using all by auto
  ultimately show ?r using l eq by (auto simp: sim_each_def)
next
  assume ?r
  then show ?l by (auto simp: sim_each_def nth_Cons split: nat.splits)
qed

lemma sim_repeat:
  "sim_each k ws bss r xs \<Longrightarrow> sim (in_order ws) (concat bss) (rd_repeat (length bss) r) xs"
proof (induction ws arbitrary: bss xs)
  case Nil
  then have "bss = []" "xs = []" by (auto simp: sim_each_def)
  then show ?case using sim_nil [of "[]"] by (simp del: in_order.simps)
next
  case (Cons w ws)
  then obtain b bss' x xs' where eq: "bss = b # bss'" "xs = x # xs'" "sim w b r x" "sim_each k ws bss' r xs'"
    by (auto simp: sim_each_Cons)
  have "sim (in_order ws) (concat bss') (rd_bind (rd_repeat (length bss') r) (\<lambda>ys. rd_return (x # ys))) (x # xs')"
    using sim_rd_map [OF Cons.IH [OF eq(4)], of "(#) x"] by (simp add: rd_map_def)
  from sim_seq [OF eq(3), where f = "\<lambda>x. rd_bind (rd_repeat (length bss') r) (\<lambda>ys. rd_return (x # ys))",
      OF this]
  show ?case by (simp add: eq(1,2) del: in_order.simps)
qed

lemma concat_min_length: "(\<And>i. i < length bss \<Longrightarrow> k \<le> length (bss ! i)) \<Longrightarrow> length bss * k \<le> length (concat bss)"
proof (induction bss)
  case Nil
  then show ?case by simp
next
  case (Cons b bss)
  have "k \<le> length b" using Cons.prems [of 0] by simp
  moreover have "length bss * k \<le> length (concat bss)"
    using Cons.IH Cons.prems by (metis Suc_less_eq length_Cons nth_Cons_Suc)
  ultimately show ?case by simp
qed


lemma enc_count_Inr:
  "enc_count n e = Inr e' \<longleftrightarrow> n \<le> max_list_items (e_limits e) \<and> n < 2 ^ 32 \<and> enc_u32 (of_nat n) e = Inr e'"
  by (auto simp: enc_count_def result_simps u32_len_Some split: if_splits)

text \<open>The count prefix is accepted when the items that follow are long enough for its minimum.\<close>

lemma count_reads:
  assumes "enc_count n e = Inr e1" and "in_step e d (u32_be (of_nat n) @ body)" and "n * k \<le> length body"
  shows "dec_count k d = Inr (n, d\<lparr>d_offset := d_offset d + 4, d_nodes := e_nodes e1\<rparr>)"
proof -
  have n: "n \<le> max_list_items (e_limits e)" "n < 2 ^ 32" "enc_u32 (of_nat n) e = Inr e1"
    using assms(1) by (auto simp: enc_count_Inr)
  let ?d1 = "d\<lparr>d_offset := d_offset d + 4, d_nodes := e_nodes e1\<rparr>"
  have r: "dec_u32 d = Inr (of_nat n, ?d1)"
    using sim_reads [OF sim_words(1) n(3) in_step_append(1) [OF assms(2)]] by simp
  have "in_step e1 ?d1 body"
    using in_step_append(2) [OF assms(2) sim_emits [OF sim_words(1) n(3)]] by simp
  then have "length body \<le> dec_remaining ?d1" "length (d_input d) \<le> usize_max"
    by (auto simp: in_step_def dec_remaining_def dest!: prefix_length_le)
  moreover from this have "n * k \<le> usize_max" using assms(3) by (simp add: dec_remaining_def)
  ultimately show ?thesis
    using r n assms(2,3) by (auto simp: dec_count_def Let_def unat_of_nat checked_mul_usize_def in_step_def)
qed

lemma count_emits:
  "enc_count n e = Inr e1 \<Longrightarrow> e1 = e\<lparr>e_output := e_output e @ u32_be (of_nat n), e_nodes := e_nodes e1\<rparr>"
  using sim_emits [OF sim_words(1)] by (auto simp: enc_count_Inr)

lemma sim_items:
  assumes each: "sim_each k ws bss r xs"
  shows "sim (enc_items ws) (items_bytes bss) (dec_items k r) xs"
  unfolding sim_def
proof (intro allI impI)
  fix e e'
  have len: "length ws = length bss" using each by (simp add: sim_each_def)
  assume "enc_items ws e = Inr e'"
  then obtain e1 where c: "enc_count (length bss) e = Inr e1"
    and b: "in_order (enc_ensure_node_capacity (length bss) # ws) e1 = Inr e'"
    by (auto simp: enc_items_def len and_then_Inr)
  have body: "sim (in_order (enc_ensure_node_capacity (length bss) # ws)) (concat bss)
      (rd_bind (dec_ensure_node_capacity (length bss)) (\<lambda>_. rd_repeat (length bss) r)) xs"
    using sim_seq [OF sim_capacity sim_repeat [OF each]] by simp
  have min: "length bss * k \<le> length (concat bss)"
    using each by (intro concat_min_length) (simp add: sim_each_def)
  show "e' = e\<lparr>e_output := e_output e @ items_bytes bss, e_nodes := e_nodes e'\<rparr> \<and>
      (\<forall>d. in_step e d (items_bytes bss) \<longrightarrow>
        dec_items k r d = Inr (xs, d\<lparr>d_offset := d_offset d + length (items_bytes bss), d_nodes := e_nodes e'\<rparr>))"
  proof (intro conjI allI impI)
    show "e' = e\<lparr>e_output := e_output e @ items_bytes bss, e_nodes := e_nodes e'\<rparr>"
      using count_emits [OF c] sim_emits [OF body b]
      by (cases e; cases e1; cases e') (auto simp: items_bytes_def)
    fix d
    assume d: "in_step e d (items_bytes bss)"
    let ?d1 = "d\<lparr>d_offset := d_offset d + 4, d_nodes := e_nodes e1\<rparr>"
    have "in_step e1 ?d1 (concat bss)"
      using in_step_append(2) [OF d [unfolded items_bytes_def] count_emits [OF c]] by simp
    from sim_reads [OF body b this] count_reads [OF c d [unfolded items_bytes_def] min]
    show "dec_items k r d = Inr (xs, d\<lparr>d_offset := d_offset d + length (items_bytes bss), d_nodes := e_nodes e'\<rparr>)"
      by (simp add: dec_items_def rd_bind_def items_bytes_def add.assoc)
  qed
qed

section \<open>Types\<close>

lemma length_str_bytes: "4 \<le> length (str_bytes s)"
  by (simp add: str_bytes_def)

lemma length_items_bytes: "4 \<le> length (items_bytes bss)"
  by (simp add: items_bytes_def)

lemma sim_scalar: "sim (enc_scalar repr) (scalar_bytes repr) dec_scalar (dto_of_scalar repr)"
  unfolding dec_scalar_def
  by (rule sim_offset, cases repr)
    (auto simp: enc_scalar_def simp del: in_order.simps
      intro!: sim_tag_only sim_tag [where bs = "[_]"] sim_rd_map sim_u8)

lemma sim_parameter_value:
  assumes "type_parameter_ok p"
  shows "sim (enc_parameter_value p) (parameter_bytes p)
    (rd_bind dec_u8 (\<lambda>t.
       if t = 0 then rd_map PDBool dec_bool
       else if t = 1 then rd_map PDInt dec_i64
       else if t = 2 then rd_map PDUInt dec_u64
       else if t = 3 then rd_map PDString dec_string
       else rd_fail (invalid_tag off ''type parameter'' t))) (dto_of_parameter p)"
  using assms
  by (cases p) (auto simp del: in_order.simps intro!: sim_tag sim_rd_map sim_bool sim_words sim_string)

lemma rd_bind_assoc: "rd_bind (rd_bind r f) g = rd_bind r (\<lambda>x. rd_bind (f x) g)"
  by (auto simp: rd_bind_def fun_eq_iff and_then_assoc split_def cong: and_then_cong)

lemma sim_parameter:
  assumes "rust_str (fst np)" and "type_parameter_ok (snd np)"
  shows "sim (enc_parameter depth np) (str_bytes (fst np) @ parameter_bytes (snd np))
    (dec_parameter depth) (fst np, dto_of_parameter (snd np))"
proof -
  have "sim (in_order [enc_node (saturating_add_usize depth 1), enc_string (fst np), enc_parameter_value (snd np)])
      ([] @ str_bytes (fst np) @ parameter_bytes (snd np))
      (rd_bind (dec_node (saturating_add_usize depth 1)) (\<lambda>_. rd_bind dec_string (\<lambda>name.
        rd_bind rd_offset (\<lambda>off. rd_bind (rd_bind dec_u8 (\<lambda>t.
         if t = 0 then rd_map PDBool dec_bool
         else if t = 1 then rd_map PDInt dec_i64
         else if t = 2 then rd_map PDUInt dec_u64
         else if t = 3 then rd_map PDString dec_string
         else rd_fail (invalid_tag off ''type parameter'' t))) (\<lambda>p. rd_return (name, p))))))
      (fst np, dto_of_parameter (snd np))"
    by (rule sim_seq [OF sim_node], rule sim_seq [OF sim_string [OF assms(1)]], rule sim_offset,
        rule sim_last, rule sim_parameter_value [OF assms(2)])
  then show ?thesis by (simp add: enc_parameter_def dec_parameter_def rd_bind_assoc del: in_order.simps)
qed

lemma length_parameter_bytes: "2 \<le> length (parameter_bytes p)"
  by (cases p) (auto simp: str_bytes_def)


lemma length_concat_member: "b \<in> set bss \<Longrightarrow> length b \<le> length (concat bss)"
  by (induction bss) auto

lemma length_item: "b \<in> set bss \<Longrightarrow> length b + 4 \<le> length (items_bytes bss)"
  using length_concat_member [of b bss] by (simp add: items_bytes_def)

lemma length_field_bytes: "length (ty_bytes (rf_ty f)) + 5 \<le> length (field_bytes f)"
  by (cases f) (auto simp: str_bytes_def)

lemma length_ty_bytes: "15 \<le> length (ty_bytes t)"
proof -
  have "1 \<le> length (shape_bytes sh)" for sh by (cases sh) auto
  from this [of "ty_shape t"] show ?thesis by (cases t) (auto simp: str_bytes_def items_bytes_def)
qed

lemma length_parameter_item: "6 \<le> length (str_bytes (fst np) @ parameter_bytes (snd np))"
  using add_le_mono [OF length_str_bytes length_parameter_bytes, of "fst np" "snd np"] by simp

lemma dec_shape_body_tags:
  "dec_shape_body ty c off 0 = rd_map SDScalar dec_scalar"
  "dec_shape_body ty c off 1 = rd_map SDList (ty c)"
  "dec_shape_body ty c off 2 = rd_bind (ty c) (\<lambda>k. rd_bind (ty c) (\<lambda>v. rd_return (SDMap k v)))"
  "dec_shape_body ty c off 3 = rd_map SDTuple (dec_items 1 (ty c))"
  "dec_shape_body ty c off 4 = rd_map SDRecord (dec_items 6 (dec_field ty c))"
  by (simp_all add: dec_shape_body_def)

lemma sim_field:
  assumes "rust_str nm" and "sim (enc_ty ty cd) (ty_bytes ty) (dty cd) (dto_of_type ty)"
  shows "sim (enc_field (RecordField nm ty pr) cd) (field_bytes (RecordField nm ty pr)) (dec_field dty cd)
    (dto_of_field (RecordField nm ty pr))"
proof -
  have "sim (in_order [enc_node cd, enc_string nm, enc_bool (pr = Optional), enc_ty ty cd])
      ([] @ str_bytes nm @ [bool_byte (pr = Optional)] @ ty_bytes ty)
      (dec_field dty cd) (RecordFieldDto nm (pr = Optional) (dto_of_type ty))"
    unfolding dec_field_def
    by (rule sim_seq [OF sim_node], rule sim_seq [OF sim_string [OF assms(1)]], rule sim_seq [OF sim_bool],
        rule sim_last, rule assms(2))
  then show ?thesis by (simp del: in_order.simps)
qed

lemma sim_ty:
  "type_ok t \<Longrightarrow> length (ty_bytes t) < fuel \<Longrightarrow>
    sim (enc_ty t depth) (ty_bytes t) (dec_ty fuel depth) (dto_of_type t)"
  "shape_ok sh \<Longrightarrow> length (shape_bytes sh) \<le> fuel \<Longrightarrow>
    sim (enc_shape sh depth) (shape_bytes sh) (dec_shape (dec_ty fuel) depth) (dto_of_shape sh)"
  "field_ok f \<Longrightarrow> length (field_bytes f) \<le> fuel \<Longrightarrow>
    sim (enc_field f depth) (field_bytes f) (dec_field (dec_ty fuel) depth) (dto_of_field f)"
proof (induction t and sh and f arbitrary: fuel depth and fuel depth and fuel depth
    rule: dto_of_type_dto_of_shape_dto_of_field.induct)
  case (1 k v sh n p ps)
  from "1.prems"(2) obtain f where fuel: "fuel = Suc f" by (cases fuel) auto
  have shape: "sim (enc_shape sh depth) (shape_bytes sh) (dec_shape (dec_ty f) depth) (dto_of_shape sh)"
    using 1 fuel by auto
  have k: "rust_str k" and ps: "\<And>np. np \<in> set ps \<Longrightarrow> rust_str (fst np) \<and> type_parameter_ok (snd np)"
    using "1.prems"(1) by auto
  have params: "sim_each 6 (map (enc_parameter depth) ps)
      (map (\<lambda>np. str_bytes (fst np) @ parameter_bytes (snd np)) ps)
      (dec_parameter depth) (map (\<lambda>np. (fst np, dto_of_parameter (snd np))) ps)"
    using ps by (intro sim_each_map conjI sim_parameter length_parameter_item) auto
  have "sim (in_order [enc_node depth, enc_string k, enc_u32 v, enc_bool (n = Nullable),
       enc_u8 (properties_to_bits p), enc_items (map (enc_parameter depth) ps), enc_shape sh depth])
      ([] @ str_bytes k @ u32_be v @ [bool_byte (n = Nullable)] @ [properties_to_bits p] @
       items_bytes (map (\<lambda>np. str_bytes (fst np) @ parameter_bytes (snd np)) ps) @ shape_bytes sh)
      (dec_ty fuel depth) (dto_of_type (TypeDef k v sh n p ps))"
    unfolding fuel dec_ty.simps dto_of_type.simps
    by (rule sim_seq [OF sim_node], rule sim_seq [OF sim_string [OF k]], rule sim_seq [OF sim_words(1)],
        rule sim_seq [OF sim_bool], rule sim_seq [OF sim_u8], rule sim_seq [OF sim_items [OF params]],
        rule sim_last, rule shape)
  then show ?case by (simp del: in_order.simps)
next
  case (2 r)
  show ?case
    unfolding dec_shape_def Let_def enc_shape.simps shape_bytes.simps dto_of_shape.simps
    by (rule sim_dispatch) (simp only: dec_shape_body_tags sim_one sim_rd_map sim_scalar)
next
  case (3 element)
  have "sim (enc_ty element (saturating_add_usize depth 1)) (ty_bytes element)
      (dec_ty fuel (saturating_add_usize depth 1)) (dto_of_type element)"
    using 3 by simp
  then show ?case
    unfolding dec_shape_def Let_def enc_shape.simps shape_bytes.simps dto_of_shape.simps
    by (intro sim_dispatch) (simp only: dec_shape_body_tags sim_one sim_rd_map)
next
  case (4 key val)
  let ?c = "saturating_add_usize depth 1"
  have k: "sim (enc_ty key ?c) (ty_bytes key) (dec_ty fuel ?c) (dto_of_type key)"
    and v: "sim (enc_ty val ?c) (ty_bytes val) (dec_ty fuel ?c) (dto_of_type val)"
    using 4 by simp_all
  show ?case
    unfolding dec_shape_def Let_def enc_shape.simps shape_bytes.simps dto_of_shape.simps
    by (rule sim_dispatch, unfold dec_shape_body_tags) (rule sim_seq [OF k], rule sim_last, rule v)
next
  case (5 elements)
  let ?c = "saturating_add_usize depth 1"
  have "sim (enc_ty e ?c) (ty_bytes e) (dec_ty fuel ?c) (dto_of_type e) \<and> 1 \<le> length (ty_bytes e)"
    if e: "e \<in> set elements" for e
    using 5 e length_item [of "ty_bytes e" "map ty_bytes elements"] length_ty_bytes [of e]
    by (auto simp: list_all_iff)
  then have "sim_each 1 (map (\<lambda>t. enc_ty t ?c) elements) (map ty_bytes elements) (dec_ty fuel ?c)
      (map dto_of_type elements)"
    by (rule sim_each_map)
  from sim_items [OF this] show ?case
    unfolding dec_shape_def Let_def enc_shape.simps shape_bytes.simps dto_of_shape.simps
    by (intro sim_dispatch) (simp only: dec_shape_body_tags sim_one sim_rd_map)
next
  case (6 fs)
  let ?c = "saturating_add_usize depth 1"
  have "sim (enc_field f ?c) (field_bytes f) (dec_field (dec_ty fuel) ?c) (dto_of_field f) \<and>
      6 \<le> length (field_bytes f)"
    if f: "f \<in> set fs" for f
    using 6 f length_item [of "field_bytes f" "map field_bytes fs"] length_ty_bytes [of "rf_ty f"]
      length_field_bytes [of f] by (auto simp: list_all_iff)
  then have "sim_each 6 (map (\<lambda>f. enc_field f ?c) fs) (map field_bytes fs)
      (dec_field (dec_ty fuel) ?c) (map dto_of_field fs)"
    by (rule sim_each_map)
  from sim_items [OF this] show ?case
    unfolding dec_shape_def Let_def enc_shape.simps shape_bytes.simps dto_of_shape.simps
    by (intro sim_dispatch) (simp only: dec_shape_body_tags sim_one sim_rd_map)
next
  case (7 nm ty pr)
  have "length (ty_bytes ty) < fuel"
    using 7 length_field_bytes [of "RecordField nm ty pr"] by simp
  then show ?case using 7 by (intro sim_field) auto
qed


section \<open>Lowering gives the type back\<close>

lemma properties_round: "properties_from_bits (properties_to_bits p) = p"
proof -
  have b: "and w (push_bit n 1) \<noteq> 0 \<longleftrightarrow> bit w n" for w :: byte and n
    by (simp add: bit_iff_and_push_bit_not_eq_0)
  show ?thesis
    unfolding properties_from_bits_def b properties_to_bits_def bit_or_iff bit_push_bit_iff bit_of_bool_iff
    by (cases p) simp
qed

lemma lower_scalar_dto [simp]: "lower_scalar (dto_of_scalar r) = r"
  by (cases r) auto

lemma lower_parameter_dto [simp]: "lower_parameter (dto_of_parameter p) = p"
  by (cases p) auto

lemma foldl_parameter:
  "foldl (\<lambda>ty np. parameter ty (fst np) (snd np)) (TypeDef k v sh n p qs) ps =
    TypeDef k v sh n p (foldl (\<lambda>m kv. btree_insert (fst kv) (snd kv) m) qs ps)"
  by (induction ps arbitrary: qs) auto

lemma foldl_map: "foldl f s (map g xs) = foldl (\<lambda>s x. f s (g x)) s xs"
  by (induction xs arbitrary: s) auto

lemma lower_dto_of_type:
  "type_ok t \<Longrightarrow> lower_type_unchecked (dto_of_type t) = Inr t"
  "shape_ok sh \<Longrightarrow> lower_shape (dto_of_shape sh) = Inr sh"
  "field_ok f \<Longrightarrow> lower_field (dto_of_field f) = Inr f"
proof (induction t and sh and f rule: dto_of_type_dto_of_shape_dto_of_field.induct)
  case (1 k v sh n p ps)
  then have sh: "lower_shape (dto_of_shape sh) = Inr sh" "canonicalize_shape sh = sh"
    and ps: "btree_inv ps" by (auto intro: canonicalize_id)
  show ?case
    using btree_of_list_sorted [OF ps]
    by (cases n) (simp_all add: sh type_shaped_def properties_round foldl_map foldl_parameter btree_of_list_def)
next
  case (5 elements)
  then have "try_map lower_type_unchecked (map dto_of_type elements) = Inr (map id elements)"
    by (intro try_map_ok) (auto simp: list_all_iff)
  then show ?case by simp
next
  case (6 fs)
  then have "try_map lower_field (map dto_of_field fs) = Inr (map id fs)"
    by (intro try_map_ok) (auto simp: list_all_iff)
  then show ?case by simp
next
  case (7 nm ty pr)
  then show ?case by (cases pr) (auto simp: record_field_optional_def record_field_required_def)
qed auto

section \<open>Type definition frames\<close>

lemma finish_Inr:
  "enc_finish kind e L = Inr frame \<longleftrightarrow> encode_envelope (envelope_new kind (e_output e)) L = Inr frame"
  by (simp add: enc_finish_def)

lemma encode_type_def_Inr:
  "encode_type_def ty L = Inr frame \<longleftrightarrow>
     validate_type ty (definition_limits L) = Inr () \<and>
     (\<exists>e e'. encoder_new L = Inr e \<and> enc_ty ty 0 e = Inr e' \<and>
        encode_envelope (envelope_new PKTypeDef (e_output e')) L = Inr frame)"
  by (auto simp: encode_type_def_def validate_type_for_encode_def result_simps enc_finish_def)

lemma encoder_new_Inr:
  "encoder_new L = Inr e \<longleftrightarrow> HEADER_LEN \<le> max_total_bytes L \<and>
     e = \<lparr>e_limits = L, e_max_payload_bytes = max_total_bytes L - HEADER_LEN, e_nodes = 0, e_output = []\<rparr>"
  by (auto simp: encoder_new_def result_simps)

lemma expected_envelope_encoded:
  "encode_envelope (envelope_new kind payload) L = Inr frame \<Longrightarrow>
    expected_envelope frame L kind = Inr (envelope_new kind payload)"
  by (simp add: expected_envelope_def envelope_inverse [THEN iffD2] envelope_new_def)

lemma payload_bound:
  "encode_envelope (envelope_new kind payload) L = Inr frame \<Longrightarrow> length payload \<le> usize_max"
  by (auto simp: encode_envelope_Inr envelope_new_def)

lemma in_step_new:
  "encoder_new L = Inr e \<Longrightarrow> length bs \<le> usize_max \<Longrightarrow> in_step e (decoder_new bs L) bs"
  by (auto simp: in_step_def decoder_new_def encoder_new_Inr)

lemma type_frame_bytes:
  assumes "type_ok ty" and "encode_type_def ty L = Inr frame"
  shows "encode_envelope (envelope_new PKTypeDef (ty_bytes ty)) L = Inr frame"
proof -
  from assms(2) obtain e e' where e: "encoder_new L = Inr e" "enc_ty ty 0 e = Inr e'"
    and f: "encode_envelope (envelope_new PKTypeDef (e_output e')) L = Inr frame"
    by (auto simp: encode_type_def_Inr)
  have "e_output e' = ty_bytes ty"
    using sim_emits [OF sim_ty(1) [OF assms(1) lessI] e(2)] e(1)
    by (cases e') (auto simp: encoder_new_Inr)
  with f show ?thesis by simp
qed

lemma decode_encoded_type:
  assumes ok: "type_ok ty" and enc: "encode_type_def ty L = Inr frame"
  shows "decode_type_def frame L = Inr ty"
proof -
  note f = type_frame_bytes [OF ok enc]
  from enc obtain e e' where val: "validate_type ty (definition_limits L) = Inr ()"
    and e: "encoder_new L = Inr e" "enc_ty ty 0 e = Inr e'"
    by (auto simp: encode_type_def_Inr)
  let ?d = "decoder_new (ty_bytes ty) L"
  have "sim (enc_ty ty 0) (ty_bytes ty) (dec_ty (payload_fuel ?d) 0) (dto_of_type ty)"
    by (rule sim_ty(1) [OF ok]) (simp add: payload_fuel_def decoder_new_def)
  from sim_reads [OF this e(2) in_step_new [OF e(1) payload_bound [OF f]]]
  obtain d' where "dec_ty (payload_fuel ?d) 0 ?d = Inr (dto_of_type ty, d')" "dec_finish d' = Inr ()"
    by (auto simp: dec_finish_def decoder_new_def)
  then show ?thesis
    using expected_envelope_encoded [OF f] lower_dto_of_type(1) [OF ok] val enc
    by (simp add: decode_type_def_def envelope_new_def lower_type_def require_canonical_def)
qed

end
