(* ===== verification/Wire_Datum_Roundtrip.thy ===== *)
theory Wire_Datum_Roundtrip
  imports Wire_Roundtrip
begin

text \<open>
  The refinement of the datum codec to its abstract format, the inverse of lowering on canonical
  datums, and the contract of a frame codec (locale \<open>frame_codec\<close>) with its two instances, type
  definition frames and typed datum frames.
\<close>

section \<open>The abstract format of datums\<close>

definition clock_bytes :: "'x ext \<Rightarrow> 'x \<Rightarrow> byte list" where
  "clock_bytes X t = [time_hour X t, time_minute X t, time_second X t] @ u32_be (time_nanosecond X t)"

primrec value_wire :: "'x ext \<Rightarrow> 'x val \<Rightarrow> byte list"
and datum_wire :: "'x ext \<Rightarrow> 'x datum \<Rightarrow> byte list" where
  "value_wire X (VBool v) = [0, bool_byte v]"
| "value_wire X (VTruth v) = [1, truth_tag v]"
| "value_wire X (VInt v) = 2 # u128_be v"
| "value_wire X (VUInt v) = 3 # u128_be v"
| "value_wire X (VFloat32 v) = 4 # u32_be v"
| "value_wire X (VFloat64 v) = 5 # u64_be v"
| "value_wire X (VDecimal v) =
     6 # u128_be (dec_mantissa X (dec_normalize X v)) @ u32_be (dec_scale X (dec_normalize X v))"
| "value_wire X (VChar v) = 7 # u32_be v"
| "value_wire X (VString v) = 8 # str_bytes v"
| "value_wire X (VBytes v) = 9 # literal_bytes v"
| "value_wire X (VUuid v) = 10 # uuid_as_bytes X v"
| "value_wire X (VDate v) = 15 # u64_be (julian_i64 X v)"
| "value_wire X (VTime v) = 16 # clock_bytes X v"
| "value_wire X (VLocalDateTime v) =
     17 # u64_be (julian_i64 X (datetime_date X v)) @ clock_bytes X (datetime_time X v)"
| "value_wire X (VInstant v) = 18 # u128_be (instant_unix_nanos X v)"
| "value_wire X (VDuration v) = 19 # u128_be (duration_whole_nanos X v)"
| "value_wire X (VList ds) = 11 # items_bytes (map (datum_wire X) ds)"
| "value_wire X (VMap es) =
     12 # items_bytes (map (\<lambda>kv. fst kv @ snd kv)
       (sort_key fst (map (map_prod (datum_wire X) (datum_wire X)) es)))"
| "value_wire X (VTuple ds) = 13 # items_bytes (map (datum_wire X) ds)"
| "value_wire X (VRecord fs) =
     14 # items_bytes (map (\<lambda>nv. str_bytes (fst nv) @ snd nv) (map (map_prod id (datum_wire X)) fs))"
| "datum_wire X Missing = [0]"
| "datum_wire X Null = [1]"
| "datum_wire X (Value v) = 2 # value_wire X v"

text \<open>
  Canonical datums: strings and characters are valid, records are in name order, map entries are in
  the order of their encoded keys, and third-party scalars satisfy \<open>ok\<close>.
\<close>

primrec value_canonical :: "'x ext \<Rightarrow> (ext_kind \<Rightarrow> 'x \<Rightarrow> bool) \<Rightarrow> 'x val \<Rightarrow> bool"
and datum_canonical :: "'x ext \<Rightarrow> (ext_kind \<Rightarrow> 'x \<Rightarrow> bool) \<Rightarrow> 'x datum \<Rightarrow> bool" where
  "value_canonical X ok (VBool v) = True"
| "value_canonical X ok (VTruth v) = True"
| "value_canonical X ok (VInt v) = True"
| "value_canonical X ok (VUInt v) = True"
| "value_canonical X ok (VFloat32 v) = True"
| "value_canonical X ok (VFloat64 v) = True"
| "value_canonical X ok (VDecimal v) = ok KDecimal v"
| "value_canonical X ok (VChar v) = (char_from_u32 v = Some v)"
| "value_canonical X ok (VString v) = rust_str v"
| "value_canonical X ok (VBytes v) = True"
| "value_canonical X ok (VUuid v) = ok KUuid v"
| "value_canonical X ok (VDate v) = ok KDate v"
| "value_canonical X ok (VTime v) = ok KTime v"
| "value_canonical X ok (VLocalDateTime v) = ok KLocalDateTime v"
| "value_canonical X ok (VInstant v) = ok KInstant v"
| "value_canonical X ok (VDuration v) = ok KDuration v"
| "value_canonical X ok (VList ds) = list_all id (map (datum_canonical X ok) ds)"
| "value_canonical X ok (VMap es) =
     (sorted (map (\<lambda>kv. datum_wire X (fst kv)) es) \<and>
      list_all (\<lambda>(k, v). k \<and> v) (map (map_prod (datum_canonical X ok) (datum_canonical X ok)) es))"
| "value_canonical X ok (VTuple ds) = list_all id (map (datum_canonical X ok) ds)"
| "value_canonical X ok (VRecord fs) =
     (btree_inv fs \<and> list_all (\<lambda>(nm, c). rust_str nm \<and> c) (map (map_prod id (datum_canonical X ok)) fs))"
| "datum_canonical X ok Missing = True"
| "datum_canonical X ok Null = True"
| "datum_canonical X ok (Value v) = value_canonical X ok v"

text \<open>
  The documented behaviour of the scalar crates on the values \<open>ok\<close>: parsing the written form of a
  normalized decimal or of a UUID gives it back, and dates, times, instants and durations are rebuilt
  from their components.
\<close>

definition ext_wire_laws :: "'x ext \<Rightarrow> (ext_kind \<Rightarrow> 'x \<Rightarrow> bool) \<Rightarrow> bool" where
  "ext_wire_laws X ok \<longleftrightarrow>
     (\<forall>x. ok KDecimal x \<longrightarrow> dec_scale X (dec_normalize X x) \<le> 28 \<and>
        dec_parse X (decimal_digits (dec_mantissa X (dec_normalize X x)) (dec_scale X (dec_normalize X x))) = Some x) \<and>
     (\<forall>x. ok KUuid x \<longrightarrow> length (uuid_as_bytes X x) = 16 \<and> uuid_parse X (uuid_text (uuid_as_bytes X x)) = Some x) \<and>
     (\<forall>x. ok KDate x \<longrightarrow> date_from_julian_day X (date_to_julian_day X x) = Some x) \<and>
     (\<forall>x. ok KTime x \<longrightarrow>
        time_from_hms_nano X (time_hour X x) (time_minute X x) (time_second X x) (time_nanosecond X x) = Some x) \<and>
     (\<forall>x. ok KLocalDateTime x \<longrightarrow> ok KDate (datetime_date X x) \<and> ok KTime (datetime_time X x) \<and>
        datetime_new X (datetime_date X x) (datetime_time X x) = x) \<and>
     (\<forall>x. ok KInstant x \<longrightarrow> instant_from_unix_nanos X (instant_unix_nanos X x) = Some x) \<and>
     (\<forall>x. ok KDuration x \<longrightarrow> lower_duration X (duration_whole_nanos X x) = Inr (VDuration x))"

primrec dto_of_value :: "'x ext \<Rightarrow> 'x val \<Rightarrow> value_dto"
and dto_of_datum :: "'x ext \<Rightarrow> 'x datum \<Rightarrow> datum_dto" where
  "dto_of_value X (VBool v) = VDBool v"
| "dto_of_value X (VTruth v) = VDTruth (truth_tag v)"
| "dto_of_value X (VInt v) = VDInt v"
| "dto_of_value X (VUInt v) = VDUInt v"
| "dto_of_value X (VFloat32 v) = VDFloat32 v"
| "dto_of_value X (VFloat64 v) = VDFloat64 v"
| "dto_of_value X (VDecimal v) =
     VDDecimal (dec_mantissa X (dec_normalize X v)) (dec_scale X (dec_normalize X v))"
| "dto_of_value X (VChar v) = VDChar v"
| "dto_of_value X (VString v) = VDString v"
| "dto_of_value X (VBytes v) = VDBytes v"
| "dto_of_value X (VUuid v) = VDUuid (uuid_as_bytes X v)"
| "dto_of_value X (VDate v) = VDDate (julian_i64 X v)"
| "dto_of_value X (VTime v) =
     VDTime (time_hour X v) (time_minute X v) (time_second X v) (time_nanosecond X v)"
| "dto_of_value X (VLocalDateTime v) =
     (let t = datetime_time X v
      in VDLocalDateTime (julian_i64 X (datetime_date X v))
           (time_hour X t) (time_minute X t) (time_second X t) (time_nanosecond X t))"
| "dto_of_value X (VInstant v) = VDInstant (instant_unix_nanos X v)"
| "dto_of_value X (VDuration v) = VDDuration (duration_whole_nanos X v)"
| "dto_of_value X (VList ds) = VDList (map (dto_of_datum X) ds)"
| "dto_of_value X (VMap es) = VDMap (map (map_prod (dto_of_datum X) (dto_of_datum X)) es)"
| "dto_of_value X (VTuple ds) = VDTuple (map (dto_of_datum X) ds)"
| "dto_of_value X (VRecord fs) = VDRecord (map (map_prod id (dto_of_datum X)) fs)"
| "dto_of_datum X Missing = DDMissing"
| "dto_of_datum X Null = DDNull"
| "dto_of_datum X (Value v) = DDValue (dto_of_value X v)"

section \<open>Map entries\<close>

lemma map_key_step_Inr:
  "map_key_step L m (kw, vw) (t0, acc) = Inr st \<Longrightarrow>
    \<exists>ke0 ke t1. encoder_new L = Inr ke0 \<and> kw ke0 = Inr ke \<and> st = (t1, acc @ [(e_output ke, kw, vw)])"
  by (auto simp: result_simps map_key_step_def split: if_splits)

lemma map_keys_ordered:
  assumes "\<And>a. a \<in> set as \<Longrightarrow> sim (kw a) (kb a) r (kx a)"
    and "enc_map_keys L m (map (\<lambda>a. (kw a, vw a)) as) = Inr (t, ordered)"
  shows "ordered = map (\<lambda>a. (kb a, kw a, vw a)) as"
proof -
  have "ordered = acc @ map (\<lambda>a. (kb a, kw a, vw a)) as"
    if "try_each (map_key_step L m) (map (\<lambda>a. (kw a, vw a)) as) (t0, acc) = Inr (t, ordered)" for t0 acc
    using assms(1) that
  proof (induction as arbitrary: t0 acc)
    case Nil
    then show ?case by simp
  next
    case (Cons a as)
    then obtain ke0 ke t1 where ke: "encoder_new L = Inr ke0" "kw a ke0 = Inr ke"
      and rest: "try_each (map_key_step L m) (map (\<lambda>a. (kw a, vw a)) as)
        (t1, acc @ [(e_output ke, kw a, vw a)]) = Inr (t, ordered)"
      by (auto simp: and_then_Inr dest!: map_key_step_Inr)
    have "e_output ke = kb a"
      using sim_emits [OF Cons.prems(1) ke(2)] ke(1) by (cases ke) (auto simp: encoder_new_Inr)
    then show ?case using Cons.IH [OF Cons.prems(1) rest] by simp
  qed
  from this [of 0 "[]"] assms(2) show ?thesis by (simp add: enc_map_keys_def)
qed

lemma sim_map:
  assumes each: "\<And>a. a \<in> set as \<Longrightarrow> sim (kw a) (kb a) r (kx a) \<and> sim (vw a) (vb a) r (vx a) \<and>
      1 \<le> length (kb a) \<and> 1 \<le> length (vb a)"
    and sorted: "sorted (map kb as)" and r: "r = datum depth"
  shows "sim (enc_map (map (\<lambda>a. (kw a, vw a)) as)) (items_bytes (map (\<lambda>a. kb a @ vb a) as))
    (dec_map datum depth) (map (\<lambda>a. (kx a, vx a)) as)"
  unfolding sim_def
proof (intro allI impI)
  fix e e'
  let ?n = "length as" and ?bss = "map (\<lambda>a. kb a @ vb a) as"
  let ?pair = "rd_bind r (\<lambda>k. rd_bind r (\<lambda>v. rd_return (k, v)))"
  let ?ws = "map (\<lambda>a. in_order [kw a, vw a]) as"
  assume "enc_map (map (\<lambda>a. (kw a, vw a)) as) e = Inr e'"
  then obtain e1 t ordered where c: "enc_count ?n e = Inr e1" and mul: "?n * 2 \<le> usize_max"
    and cap: "enc_ensure_node_capacity (?n * 2) e1 = Inr e1"
    and keys: "enc_map_keys (e_limits e1) (e_max_payload_bytes e1) (map (\<lambda>a. (kw a, vw a)) as) = Inr (t, ordered)"
    and run: "in_order (map (\<lambda>(_, kw, vw). in_order [kw, vw]) (sort_key fst ordered)) e1 = Inr e'"
    by (auto simp: enc_map_def result_simps enc_ensure_node_capacity_def split: if_splits)
  have "ordered = map (\<lambda>a. (kb a, kw a, vw a)) as"
    by (rule map_keys_ordered [OF _ keys]) (use each in blast)
  then have "sort_key fst ordered = map (\<lambda>a. (kb a, kw a, vw a)) as"
    using sorted by (simp add: sort_key_id_if_sorted comp_def)
  with run have run: "in_order ?ws e1 = Inr e'" by (simp add: comp_def)
  have pair: "sim (in_order [kw a, vw a]) (kb a @ vb a) ?pair (kx a, vx a)" if "a \<in> set as" for a
    using each [OF that] by (intro sim_seq [where x = "kx a"] sim_last) auto
  have each2: "sim_each 2 ?ws ?bss ?pair (map (\<lambda>a. (kx a, vx a)) as)"
    by (rule sim_each_map) (use each pair in fastforce)
  have "sim (in_order (enc_ensure_node_capacity (?n * 2) # ?ws)) ([] @ concat ?bss)
      (rd_bind (dec_ensure_node_capacity (?n * 2)) (\<lambda>_. rd_repeat (length ?bss) ?pair)) (map (\<lambda>a. (kx a, vx a)) as)"
    by (rule sim_seq [OF sim_capacity sim_repeat [OF each2]])
  then have body: "sim (in_order (enc_ensure_node_capacity (?n * 2) # ?ws)) (concat ?bss)
      (rd_bind (dec_ensure_node_capacity (?n * 2)) (\<lambda>_. rd_repeat ?n ?pair)) (map (\<lambda>a. (kx a, vx a)) as)"
    by simp
  have b: "in_order (enc_ensure_node_capacity (?n * 2) # ?ws) e1 = Inr e'" using cap run by simp
  have min: "?n * 2 \<le> length (concat ?bss)"
    using concat_min_length [of ?bss 2] each2 by (simp add: sim_each_def)
  show "e' = e\<lparr>e_output := e_output e @ items_bytes ?bss, e_nodes := e_nodes e'\<rparr> \<and>
      (\<forall>d. in_step e d (items_bytes ?bss) \<longrightarrow> dec_map datum depth d =
        Inr (map (\<lambda>a. (kx a, vx a)) as, d\<lparr>d_offset := d_offset d + length (items_bytes ?bss), d_nodes := e_nodes e'\<rparr>))"
  proof (intro conjI allI impI)
    show "e' = e\<lparr>e_output := e_output e @ items_bytes ?bss, e_nodes := e_nodes e'\<rparr>"
      using count_emits [OF c] sim_emits [OF body b]
      by (cases e; cases e1; cases e') (auto simp: items_bytes_def)
    fix d
    assume d: "in_step e d (items_bytes ?bss)"
    let ?d1 = "d\<lparr>d_offset := d_offset d + 4, d_nodes := e_nodes e1\<rparr>"
    have d': "in_step e d (u32_be (of_nat ?n) @ concat ?bss)" using d by (simp add: items_bytes_def)
    have "in_step e1 ?d1 (concat ?bss)"
      using in_step_append(2) [OF d' count_emits [OF c]] by simp
    from sim_reads [OF body b this] count_reads [OF c d' min] mul
    show "dec_map datum depth d =
        Inr (map (\<lambda>a. (kx a, vx a)) as, d\<lparr>d_offset := d_offset d + length (items_bytes ?bss), d_nodes := e_nodes e'\<rparr>)"
      by (simp add: dec_map_def rd_bind_def items_bytes_def add.assoc checked_mul_usize_def r)
  qed
qed


section \<open>Datums in lockstep\<close>

lemma sim_clock:
  "sim (enc_clock X t) (clock_bytes X t) (dec_clock mk)
    (mk (time_hour X t) (time_minute X t) (time_second X t) (time_nanosecond X t))"
proof -
  have "sim (in_order [enc_u8 (time_hour X t), enc_u8 (time_minute X t), enc_u8 (time_second X t),
       enc_u32 (time_nanosecond X t)])
      ([time_hour X t] @ [time_minute X t] @ [time_second X t] @ u32_be (time_nanosecond X t))
      (dec_clock mk) (mk (time_hour X t) (time_minute X t) (time_second X t) (time_nanosecond X t))"
    unfolding dec_clock_def
    by (rule sim_seq [OF sim_u8], rule sim_seq [OF sim_u8], rule sim_seq [OF sim_u8],
        rule sim_last, rule sim_words)
  then show ?thesis by (simp add: enc_clock_def clock_bytes_def del: in_order.simps)
qed

lemma length_datum_wire: "1 \<le> length (datum_wire X d)"
  by (cases d) auto

lemma length_items_member: "x \<in> set xs \<Longrightarrow> length (f x) + 4 \<le> length (items_bytes (map f xs))"
  using length_item [of "f x" "map f xs"] by simp

lemma sim_list:
  assumes "\<And>d. d \<in> set ds \<Longrightarrow> sim (enc_datum X d c) (datum_wire X d) (dd c) (dto_of_datum X d)"
  shows "sim (enc_items (map (\<lambda>w. w c) (map (enc_datum X) ds))) (items_bytes (map (datum_wire X) ds))
    (dec_items 1 (dd c)) (map (dto_of_datum X) ds)"
proof -
  have "sim_each 1 (map (\<lambda>d. enc_datum X d c) ds) (map (datum_wire X) ds) (dd c) (map (dto_of_datum X) ds)"
    by (rule sim_each_map) (use assms length_datum_wire in blast)
  from sim_items [OF this] show ?thesis by (simp add: comp_def)
qed

lemma sim_record:
  assumes "\<And>nd. nd \<in> set fs \<Longrightarrow> rust_str (fst nd) \<and>
      sim (enc_datum X (snd nd) c) (datum_wire X (snd nd)) (dd c) (dto_of_datum X (snd nd))"
  shows "sim (enc_items (map (\<lambda>(nm, w). in_order [enc_string nm, w c]) (map (map_prod id (enc_datum X)) fs)))
    (items_bytes (map (\<lambda>nv. str_bytes (fst nv) @ snd nv) (map (map_prod id (datum_wire X)) fs)))
    (dec_items 5 (rd_bind dec_string (\<lambda>nm. rd_bind (dd c) (\<lambda>v. rd_return (nm, v)))))
    (map (map_prod id (dto_of_datum X)) fs)"
proof -
  have "sim (in_order [enc_string (fst nd), enc_datum X (snd nd) c]) (str_bytes (fst nd) @ datum_wire X (snd nd))
      (rd_bind dec_string (\<lambda>nm. rd_bind (dd c) (\<lambda>v. rd_return (nm, v)))) (map_prod id (dto_of_datum X) nd) \<and>
      5 \<le> length (str_bytes (fst nd) @ datum_wire X (snd nd))" if nd: "nd \<in> set fs" for nd
  proof
    show "5 \<le> length (str_bytes (fst nd) @ datum_wire X (snd nd))"
      using add_le_mono [OF length_str_bytes length_datum_wire, of "fst nd" X "snd nd"] by simp
    have "map_prod id (dto_of_datum X) nd = (fst nd, dto_of_datum X (snd nd))" by (cases nd) simp
    moreover have "sim (in_order [enc_string (fst nd), enc_datum X (snd nd) c])
      (str_bytes (fst nd) @ datum_wire X (snd nd))
      (rd_bind dec_string (\<lambda>nm. rd_bind (dd c) (\<lambda>v. rd_return (nm, v)))) (fst nd, dto_of_datum X (snd nd))"
      using assms [OF nd] by (intro sim_seq [where x = "fst nd"] sim_string sim_last) auto
    ultimately show "sim (in_order [enc_string (fst nd), enc_datum X (snd nd) c])
      (str_bytes (fst nd) @ datum_wire X (snd nd))
      (rd_bind dec_string (\<lambda>nm. rd_bind (dd c) (\<lambda>v. rd_return (nm, v)))) (map_prod id (dto_of_datum X) nd)"
      by (simp only:)
  qed
  then have "sim_each 5 (map (\<lambda>nd. in_order [enc_string (fst nd), enc_datum X (snd nd) c]) fs)
      (map (\<lambda>nd. str_bytes (fst nd) @ datum_wire X (snd nd)) fs)
      (rd_bind dec_string (\<lambda>nm. rd_bind (dd c) (\<lambda>v. rd_return (nm, v))))
      (map (map_prod id (dto_of_datum X)) fs)"
    by (rule sim_each_map)
  from sim_items [OF this] show ?thesis
    by (simp add: comp_def split_def map_prod_def del: in_order.simps)
qed

lemma sort_key_map_wire:
  assumes "sorted (map (\<lambda>kv. datum_wire X (fst kv)) es)"
  shows "sort_key fst (map (map_prod (datum_wire X) (datum_wire X)) es) = map (map_prod (datum_wire X) (datum_wire X)) es"
  using assms by (intro sort_key_id_if_sorted) (simp add: comp_def split_def)

lemma sim_map_entries:
  assumes "\<And>kv. kv \<in> set es \<Longrightarrow>
      sim (enc_datum X (fst kv) c) (datum_wire X (fst kv)) (dd c) (dto_of_datum X (fst kv)) \<and>
      sim (enc_datum X (snd kv) c) (datum_wire X (snd kv)) (dd c) (dto_of_datum X (snd kv))"
    and "sorted (map (\<lambda>kv. datum_wire X (fst kv)) es)"
  shows "sim (enc_map (map (\<lambda>(kw, vw). (kw c, vw c)) (map (map_prod (enc_datum X) (enc_datum X)) es)))
    (items_bytes (map (\<lambda>kv. fst kv @ snd kv)
      (sort_key fst (map (map_prod (datum_wire X) (datum_wire X)) es))))
    (dec_map dd c) (map (map_prod (dto_of_datum X) (dto_of_datum X)) es)"
proof -
  have "sim (enc_map (map (\<lambda>kv. (enc_datum X (fst kv) c, enc_datum X (snd kv) c)) es))
      (items_bytes (map (\<lambda>kv. datum_wire X (fst kv) @ datum_wire X (snd kv)) es))
      (dec_map dd c) (map (\<lambda>kv. (dto_of_datum X (fst kv), dto_of_datum X (snd kv))) es)"
    by (rule sim_map [where r = "dd c"]) (use assms length_datum_wire in auto)
  then show ?thesis
    unfolding sort_key_map_wire [OF assms(2)] by (simp add: comp_def split_def map_prod_def)
qed


lemma dec_value_body_tags:
  "dec_value_body dd c off 0 = rd_map VDBool dec_bool"
  "dec_value_body dd c off 1 = rd_map VDTruth dec_u8"
  "dec_value_body dd c off 2 = rd_map VDInt dec_i128"
  "dec_value_body dd c off 3 = rd_map VDUInt dec_u128"
  "dec_value_body dd c off 4 = rd_map VDFloat32 dec_u32"
  "dec_value_body dd c off 5 = rd_map VDFloat64 dec_u64"
  "dec_value_body dd c off 6 = rd_bind dec_i128 (\<lambda>m. rd_bind dec_u32 (\<lambda>s. rd_return (VDDecimal m s)))"
  "dec_value_body dd c off 7 = rd_map VDChar dec_u32"
  "dec_value_body dd c off 8 = rd_map VDString dec_string"
  "dec_value_body dd c off 9 = rd_map VDBytes dec_literal"
  "dec_value_body dd c off 10 = rd_map VDUuid (dec_take 16)"
  "dec_value_body dd c off 11 = rd_map VDList (dec_items 1 (dd c))"
  "dec_value_body dd c off 12 = rd_map VDMap (dec_map dd c)"
  "dec_value_body dd c off 13 = rd_map VDTuple (dec_items 1 (dd c))"
  "dec_value_body dd c off 14 = rd_map VDRecord (dec_items 5
     (rd_bind dec_string (\<lambda>nm. rd_bind (dd c) (\<lambda>v. rd_return (nm, v)))))"
  "dec_value_body dd c off 15 = rd_map VDDate dec_i64"
  "dec_value_body dd c off 16 = dec_clock VDTime"
  "dec_value_body dd c off 17 = rd_bind dec_i64 (\<lambda>j. dec_clock (VDLocalDateTime j))"
  "dec_value_body dd c off 18 = rd_map VDInstant dec_i128"
  "dec_value_body dd c off 19 = rd_map VDDuration dec_i128"
  by (simp_all add: dec_value_body_def)

lemma dec_datum_body_tags:
  "dec_datum_body dd depth off 0 = rd_return DDMissing"
  "dec_datum_body dd depth off 1 = rd_return DDNull"
  "dec_datum_body dd depth off 2 = rd_map DDValue (dec_value dd depth)"
  by (simp_all add: dec_datum_body_def)

lemmas value_unfolds = dec_value_def Let_def value_wire.simps enc_value.simps dto_of_value.simps

lemma sim_leaf:
  assumes "\<And>off. dec_value_body dd (saturating_add_usize depth 1) off t = r" and "sim w bs r x"
  shows "sim (in_order [enc_u8 t, w]) (t # bs) (dec_value dd depth) x"
  unfolding dec_value_def Let_def
  by (rule sim_dispatch, rule sim_one) (simp only: assms)

lemma sim_value_leaf:
  assumes "value_canonical X ok v"
    and "case v of VList _ \<Rightarrow> False | VTuple _ \<Rightarrow> False | VMap _ \<Rightarrow> False | VRecord _ \<Rightarrow> False | _ \<Rightarrow> True"
    and laws: "ext_wire_laws X ok"
  shows "sim (enc_value X v depth) (value_wire X v) (dec_value dd depth) (dto_of_value X v)"
proof (cases v)
  case (VDecimal x)
  show ?thesis
    unfolding value_unfolds VDecimal
    by (rule sim_dispatch, unfold dec_value_body_tags)
      (rule sim_seq [OF sim_words(5)], rule sim_last, rule sim_words)
next
  case (VLocalDateTime x)
  show ?thesis
    unfolding value_unfolds VLocalDateTime
    by (rule sim_dispatch, unfold dec_value_body_tags)
      (rule sim_seq [OF sim_words(3)], rule sim_one, rule sim_clock)
next
  case (VUuid x)
  then have "length (uuid_as_bytes X x) = 16" using laws assms(1) by (simp add: ext_wire_laws_def)
  then have "sim (enc_write (uuid_as_bytes X x)) (uuid_as_bytes X x) (dec_take 16) (uuid_as_bytes X x)"
    by (intro sim_write) simp
  then show ?thesis unfolding value_wire.simps enc_value.simps dto_of_value.simps VUuid
    by (intro sim_leaf [OF dec_value_body_tags(11)] sim_rd_map)
next
  case (VString x)
  then have "rust_str x" using assms(1) by simp
  then show ?thesis unfolding value_wire.simps enc_value.simps dto_of_value.simps VString
    by (intro sim_leaf [OF dec_value_body_tags(9)] sim_rd_map sim_string)
qed (use assms(2) in \<open>simp_all only: val.case value_wire.simps enc_value.simps dto_of_value.simps\<close>,
  auto simp del: in_order.simps
    intro!: sim_leaf [OF dec_value_body_tags(1)] sim_leaf [OF dec_value_body_tags(2)]
      sim_leaf [OF dec_value_body_tags(3)] sim_leaf [OF dec_value_body_tags(4)]
      sim_leaf [OF dec_value_body_tags(5)] sim_leaf [OF dec_value_body_tags(6)]
      sim_leaf [OF dec_value_body_tags(8)] sim_leaf [OF dec_value_body_tags(10)]
      sim_leaf [OF dec_value_body_tags(16)] sim_leaf [OF dec_value_body_tags(17)]
      sim_leaf [OF dec_value_body_tags(19)] sim_leaf [OF dec_value_body_tags(20)]
      sim_rd_map sim_bool sim_u8 sim_words sim_literal sim_clock)


lemma canonical_record:
  "value_canonical X ok (VRecord fs) \<longleftrightarrow>
    btree_inv fs \<and> (\<forall>nd \<in> set fs. rust_str (fst nd) \<and> datum_canonical X ok (snd nd))"
  by (auto simp: list_all_iff split: prod.splits)

lemma canonical_map:
  "value_canonical X ok (VMap es) \<longleftrightarrow> sorted (map (\<lambda>kv. datum_wire X (fst kv)) es) \<and>
    (\<forall>kv \<in> set es. datum_canonical X ok (fst kv) \<and> datum_canonical X ok (snd kv))"
  by (auto simp: list_all_iff split: prod.splits)

lemma length_items_pair:
  assumes "kv \<in> set es"
  shows "length (f (fst kv)) + length (g (snd kv)) + 4 \<le> length (items_bytes (map (\<lambda>kv. f (fst kv) @ g (snd kv)) es))"
  using length_item [of "f (fst kv) @ g (snd kv)" "map (\<lambda>kv. f (fst kv) @ g (snd kv)) es"] assms by auto

lemma value_wire_record:
  "value_wire X (VRecord fs) = 14 # items_bytes (map (\<lambda>nd. str_bytes (fst nd) @ datum_wire X (snd nd)) fs)"
  by (simp add: comp_def split_def)

lemma value_wire_map:
  "sorted (map (\<lambda>kv. datum_wire X (fst kv)) es) \<Longrightarrow> value_wire X (VMap es) =
    12 # items_bytes (map (\<lambda>kv. datum_wire X (fst kv) @ datum_wire X (snd kv)) es)"
  by (simp add: sort_key_map_wire) (simp add: comp_def split_def)

lemma sim_datum:
  assumes laws: "ext_wire_laws X ok"
  shows
  "value_canonical X ok v \<Longrightarrow> length (value_wire X v) \<le> fuel \<Longrightarrow>
    sim (enc_value X v depth) (value_wire X v) (dec_value (dec_datum fuel) depth) (dto_of_value X v)"
  "datum_canonical X ok d \<Longrightarrow> length (datum_wire X d) < fuel \<Longrightarrow>
    sim (enc_datum X d depth) (datum_wire X d) (dec_datum fuel depth) (dto_of_datum X d)"
proof (induction v and d arbitrary: fuel depth and fuel depth)
  case (VList ds)
  let ?c = "saturating_add_usize depth 1"
  have "sim (enc_datum X d ?c) (datum_wire X d) (dec_datum fuel ?c) (dto_of_datum X d)" if "d \<in> set ds" for d
    using VList that length_items_member [OF that, of "datum_wire X"] by (auto simp: list_all_iff)
  note l = sim_list [where ds = ds and c = ?c and dd = "dec_datum fuel", OF this]
  show ?case
    unfolding value_wire.simps enc_value.simps dto_of_value.simps
    by (intro sim_leaf [OF dec_value_body_tags(12)] sim_rd_map l)
next
  case (VTuple ds)
  let ?c = "saturating_add_usize depth 1"
  have "sim (enc_datum X d ?c) (datum_wire X d) (dec_datum fuel ?c) (dto_of_datum X d)" if "d \<in> set ds" for d
    using VTuple that length_items_member [OF that, of "datum_wire X"] by (auto simp: list_all_iff)
  note l = sim_list [where ds = ds and c = ?c and dd = "dec_datum fuel", OF this]
  show ?case
    unfolding value_wire.simps enc_value.simps dto_of_value.simps
    by (intro sim_leaf [OF dec_value_body_tags(14)] sim_rd_map l)
next
  case (VRecord fs)
  let ?c = "saturating_add_usize depth 1"
  have "rust_str (fst nd) \<and>
      sim (enc_datum X (snd nd) ?c) (datum_wire X (snd nd)) (dec_datum fuel ?c) (dto_of_datum X (snd nd))"
    if nd: "nd \<in> set fs" for nd
  proof -
    have "length (datum_wire X (snd nd)) < fuel"
      using VRecord.prems(2) length_items_pair [OF nd, of str_bytes "datum_wire X"]
      unfolding value_wire_record by simp
    moreover have "rust_str (fst nd) \<and> datum_canonical X ok (snd nd)"
      using VRecord.prems(1) nd unfolding canonical_record by blast
    ultimately show ?thesis using VRecord.IH [OF nd, of "snd nd"] by (simp add: snds.simps)
  qed
  note l = sim_record [where fs = fs and c = ?c and dd = "dec_datum fuel", OF this]
  show ?case
    unfolding value_wire.simps enc_value.simps dto_of_value.simps
    by (intro sim_leaf [OF dec_value_body_tags(15)] sim_rd_map l)
next
  case (VMap es)
  let ?c = "saturating_add_usize depth 1"
  have sorted: "sorted (map (\<lambda>kv. datum_wire X (fst kv)) es)" using VMap.prems(1) by simp
  have "sim (enc_datum X (fst kv) ?c) (datum_wire X (fst kv)) (dec_datum fuel ?c) (dto_of_datum X (fst kv)) \<and>
      sim (enc_datum X (snd kv) ?c) (datum_wire X (snd kv)) (dec_datum fuel ?c) (dto_of_datum X (snd kv))"
    if kv: "kv \<in> set es" for kv
  proof -
    have "length (datum_wire X (fst kv)) < fuel \<and> length (datum_wire X (snd kv)) < fuel"
      using VMap.prems(2) length_items_pair [OF kv, of "datum_wire X" "datum_wire X"]
      unfolding value_wire_map [OF sorted] by simp
    moreover have "datum_canonical X ok (fst kv) \<and> datum_canonical X ok (snd kv)"
      using VMap.prems(1) kv unfolding canonical_map by blast
    ultimately show ?thesis using VMap.IH(1) [OF kv, of "fst kv"] VMap.IH(2) [OF kv, of "snd kv"]
      by (simp add: fsts.simps snds.simps)
  qed
  note l = sim_map_entries [where es = es and c = ?c and dd = "dec_datum fuel", OF this sorted]
  show ?case
    unfolding value_wire.simps enc_value.simps dto_of_value.simps
    by (intro sim_leaf [OF dec_value_body_tags(13)] sim_rd_map l)
next
  case Missing
  then obtain f where fuel: "fuel = Suc f" by (cases fuel) auto
  have "sim (in_order [enc_node depth, enc_u8 0]) ([] @ [0]) (dec_datum (Suc f) depth) DDMissing"
    unfolding dec_datum.simps
    by (rule sim_seq [OF sim_node], rule sim_one, rule sim_offset, rule sim_tag_only)
      (simp add: dec_datum_body_tags)
  then show ?case by (simp add: fuel del: in_order.simps)
next
  case Null
  then obtain f where fuel: "fuel = Suc f" by (cases fuel) auto
  have "sim (in_order [enc_node depth, enc_u8 1]) ([] @ [1]) (dec_datum (Suc f) depth) DDNull"
    unfolding dec_datum.simps
    by (rule sim_seq [OF sim_node], rule sim_one, rule sim_offset, rule sim_tag_only)
      (simp add: dec_datum_body_tags [unfolded One_nat_def])
  then show ?case by (simp add: fuel del: in_order.simps)
next
  case (Value v)
  then obtain f where fuel: "fuel = Suc f" by (cases fuel) auto
  have v: "sim (enc_value X v depth) (value_wire X v) (dec_value (dec_datum f) depth) (dto_of_value X v)"
    using Value fuel by simp
  have "sim (in_order [enc_node depth, enc_u8 2, enc_value X v depth]) ([] @ 2 # value_wire X v)
      (dec_datum (Suc f) depth) (DDValue (dto_of_value X v))"
    unfolding dec_datum.simps
    by (rule sim_seq [OF sim_node], rule sim_dispatch, rule sim_one)
      (simp only: dec_datum_body_tags sim_rd_map v)
  then show ?case by (simp add: fuel del: in_order.simps)
qed (rule sim_value_leaf [OF _ _ laws], assumption, simp)+


section \<open>Lowering gives the datum back\<close>

lemma lower_truth_tag [simp]: "lower_truth (truth_tag t) = Inr (VTruth t)"
  by (cases t) (auto simp: lower_truth_def truth_tag_def)

lemma i32_of_julian: "i32_try_from_i64 (julian_i64 X x) = Some (date_to_julian_day X x)"
proof -
  let ?j = "date_to_julian_day X x"
  have s: "sint (julian_i64 X x) = sint ?j"
    unfolding julian_i64_def by (rule sint_up_scast) (simp add: is_up)
  show ?thesis
    using sint_greater_eq [of ?j] sint_less [of ?j] by (simp add: i32_try_from_i64_def s)
qed

lemma lower_date_julian:
  "date_from_julian_day X (date_to_julian_day X x) = Some x \<Longrightarrow> lower_date X (julian_i64 X x) = Inr x"
  by (simp add: lower_date_def i32_of_julian)

lemma record_loop:
  assumes "btree_inv m" and "distinct (map fst fs)" and "\<And>nd. nd \<in> set fs \<Longrightarrow> map_of m (fst nd) = None"
  shows "try_each (\<lambda>(name, r) m. and_then r (\<lambda>d.
      if map_of m name \<noteq> None
      then Inl (wire_new InvalidValue ''record contains a duplicate field name'')
      else Inr (btree_insert name d m))) (map (\<lambda>nd. (fst nd, Inr (snd nd))) fs) m =
    Inr (foldl (\<lambda>m kv. btree_insert (fst kv) (snd kv) m) m fs)"
  using assms
proof (induction fs arbitrary: m)
  case Nil
  then show ?case by simp
next
  case (Cons nd fs)
  have inv: "btree_inv (btree_insert (fst nd) (snd nd) m)" by (rule btree_inv_insert [OF Cons.prems(1)])
  have none: "map_of (btree_insert (fst nd) (snd nd) m) (fst x) = None" if "x \<in> set fs" for x
  proof -
    have "fst x \<in> fst ` set fs" using that by (rule imageI)
    moreover have "fst nd \<notin> fst ` set fs" using Cons.prems(2) by simp
    ultimately have "fst x \<noteq> fst nd" by metis
    then show ?thesis using Cons.prems(3) [of x] that by (simp add: map_of_btree_insert [OF Cons.prems(1)])
  qed
  show ?case
    using Cons.IH [OF inv _ none] Cons.prems(2) Cons.prems(3) [of nd] by simp
qed

lemma record_insert_all_sorted:
  assumes "btree_inv fs"
  shows "record_insert_all (map (\<lambda>nd. (fst nd, Inr (snd nd))) fs) = Inr fs"
proof -
  have "distinct (map fst fs)" using assms strict_sorted_iff by (auto simp: btree_inv_def)
  then show ?thesis
    using record_loop [of "[]" fs] btree_of_list_sorted [OF assms]
    by (simp add: record_insert_all_def btree_of_list_def btree_inv_def)
qed

lemma lower_dto_of_datum:
  assumes laws: "ext_wire_laws X ok"
  shows "value_canonical X ok v \<Longrightarrow> lower_value X (dto_of_value X v) = Inr v"
    and "datum_canonical X ok d \<Longrightarrow> lower_datum X (dto_of_datum X d) = Inr d"
proof (induction v and d)
  case (VDecimal x)
  then show ?case using laws by (auto simp: ext_wire_laws_def lower_decimal_def not_less)
next
  case (VList ds)
  then have "try_map id (map (lower_datum X) (map (dto_of_datum X) ds)) = Inr (map id ds)"
    unfolding list.map_comp by (intro try_map_ok) (auto simp: list_all_iff)
  then show ?case by simp
next
  case (VTuple ds)
  then have "try_map id (map (lower_datum X) (map (dto_of_datum X) ds)) = Inr (map id ds)"
    unfolding list.map_comp by (intro try_map_ok) (auto simp: list_all_iff)
  then show ?case by simp
next
  case (VMap es)
  have "lower_datum X (dto_of_datum X (fst kv)) = Inr (fst kv) \<and> lower_datum X (dto_of_datum X (snd kv)) = Inr (snd kv)"
    if kv: "kv \<in> set es" for kv
    using VMap.IH(1) [OF kv, of "fst kv"] VMap.IH(2) [OF kv, of "snd kv"] VMap.prems kv
    unfolding canonical_map by (auto simp: fsts.simps snds.simps)
  then have "try_map (\<lambda>(k, v). and_then k (\<lambda>k. and_then v (\<lambda>v. Inr (k, v))))
      (map (\<lambda>kv. (lower_datum X (dto_of_datum X (fst kv)), lower_datum X (dto_of_datum X (snd kv)))) es) =
      Inr (map id es)"
    by (intro try_map_ok) auto
  then show ?case by (simp add: comp_def split_def map_prod_def)
next
  case (VRecord fs)
  have "lower_datum X (dto_of_datum X (snd nd)) = Inr (snd nd)" if nd: "nd \<in> set fs" for nd
    using VRecord.IH [OF nd, of "snd nd"] VRecord.prems nd unfolding canonical_record
    by (auto simp: snds.simps)
  then have "map (map_prod id (lower_datum X)) (map (map_prod id (dto_of_datum X)) fs) =
      map (\<lambda>nd. (fst nd, Inr (snd nd))) fs"
    by (auto simp: map_prod_def split_def)
  moreover have "btree_inv fs" using VRecord.prems unfolding canonical_record by blast
  ultimately show ?case by (simp add: record_insert_all_sorted del: map_map)
qed (use laws in \<open>auto simp: ext_wire_laws_def lower_uuid_def lower_date_julian Let_def\<close>)

section \<open>Typed datum frames\<close>

lemma encode_typed_datum_Inr:
  "encode_typed_datum X ty pr v L = Inr frame \<longleftrightarrow>
     validate_type ty (definition_limits L) = Inr () \<and> validate_datum X ty pr v = Inr () \<and>
     (\<exists>e e'. encoder_new L = Inr e \<and>
        in_order [enc_ty ty 0, enc_bool (pr = Optional), enc_datum X v 0] e = Inr e' \<and>
        encode_envelope (envelope_new PKTypedDatum (e_output e')) L = Inr frame)"
  unfolding encode_typed_datum_def validate_type_for_encode_def validate_datum_for_encode_def enc_finish_def
    and_then_Inr map_err_Inr by auto

definition typed_datum_bytes :: "'x ext \<Rightarrow> type_def \<Rightarrow> presence \<Rightarrow> 'x datum \<Rightarrow> byte list" where
  "typed_datum_bytes X ty pr v = ty_bytes ty @ [bool_byte (pr = Optional)] @ datum_wire X v"

lemma sim_typed_datum:
  assumes "ext_wire_laws X ok" and "type_ok ty" and "datum_canonical X ok v"
    and "length (typed_datum_bytes X ty pr v) < fuel"
  shows "sim (in_order [enc_ty ty 0, enc_bool (pr = Optional), enc_datum X v 0])
    (typed_datum_bytes X ty pr v) (dec_typed_datum fuel)
    \<lparr>tdd_ty = dto_of_type ty, tdd_optional = (pr = Optional), tdd_datum = dto_of_datum X v\<rparr>"
proof -
  have "length (ty_bytes ty) < fuel" "length (datum_wire X v) < fuel"
    using assms(4) by (auto simp: typed_datum_bytes_def)
  then show ?thesis
    unfolding typed_datum_bytes_def dec_typed_datum_def
    by (intro sim_seq [where x = "dto_of_type ty"] sim_ty(1) sim_seq [OF sim_bool]
        sim_last [where f = "\<lambda>v. \<lparr>tdd_ty = dto_of_type ty, tdd_optional = (pr = Optional), tdd_datum = v\<rparr>"]
        sim_datum(2) [OF assms(1)] assms(2,3))
qed

lemma typed_datum_frame_bytes:
  assumes "ext_wire_laws X ok" and "type_ok ty" and "datum_canonical X ok v"
    and "encode_typed_datum X ty pr v L = Inr frame"
  shows "encode_envelope (envelope_new PKTypedDatum (typed_datum_bytes X ty pr v)) L = Inr frame"
proof -
  from assms(4) obtain e e' where e: "encoder_new L = Inr e"
      "in_order [enc_ty ty 0, enc_bool (pr = Optional), enc_datum X v 0] e = Inr e'"
    and f: "encode_envelope (envelope_new PKTypedDatum (e_output e')) L = Inr frame"
    by (auto simp: encode_typed_datum_Inr simp del: in_order.simps)
  have "e_output e' = typed_datum_bytes X ty pr v"
    using sim_emits [OF sim_typed_datum [OF assms(1-3) lessI] e(2)] e(1)
    by (cases e') (auto simp: encoder_new_Inr)
  with f show ?thesis by simp
qed

lemma decode_encoded_datum:
  assumes laws: "ext_wire_laws X ok" and ok: "type_ok ty" "datum_canonical X ok v"
    and enc: "encode_typed_datum X ty pr v L = Inr frame"
  shows "decode_typed_datum X frame L = Inr (ty, pr, v)"
proof -
  note f = typed_datum_frame_bytes [OF laws ok enc]
  from enc obtain e e' where val: "validate_type ty (definition_limits L) = Inr ()" "validate_datum X ty pr v = Inr ()"
    and e: "encoder_new L = Inr e" "in_order [enc_ty ty 0, enc_bool (pr = Optional), enc_datum X v 0] e = Inr e'"
    unfolding encode_typed_datum_Inr by blast
  let ?bs = "typed_datum_bytes X ty pr v"
  let ?d = "decoder_new ?bs L"
  let ?dto = "\<lparr>tdd_ty = dto_of_type ty, tdd_optional = (pr = Optional), tdd_datum = dto_of_datum X v\<rparr>"
  have "sim (in_order [enc_ty ty 0, enc_bool (pr = Optional), enc_datum X v 0]) ?bs
      (dec_typed_datum (payload_fuel ?d)) ?dto"
    by (rule sim_typed_datum [OF laws ok]) (simp add: payload_fuel_def decoder_new_def)
  from sim_reads [OF this e(2) in_step_new [OF e(1) payload_bound [OF f]]]
  obtain d' where "dec_typed_datum (payload_fuel ?d) ?d = Inr (?dto, d')" "dec_finish d' = Inr ()"
    by (auto simp: dec_finish_def decoder_new_def)
  moreover have "lower_typed_datum X ?dto L = Inr (ty, pr, v)"
    using lower_dto_of_type(1) [OF ok(1)] lower_dto_of_datum(2) [OF laws ok(2)] val
    by (cases pr) (simp_all add: lower_typed_datum_def lower_type_def)
  ultimately show ?thesis
    using expected_envelope_encoded [OF f] enc
    by (simp add: decode_typed_datum_def envelope_new_def require_canonical_def)
qed


section \<open>The contract of a frame codec\<close>

text \<open>
  What the users of a frame format rely on: what is encoded from a valid value decodes to it, and a
  frame is accepted only in the form in which its value is encoded.
\<close>

locale frame_codec =
  fixes encode :: "'v \<Rightarrow> 'l \<Rightarrow> byte list wres"
    and decode :: "byte list \<Rightarrow> 'l \<Rightarrow> 'v wres"
    and valid :: "'l \<Rightarrow> 'v \<Rightarrow> bool"
  assumes decode_encode: "valid L v \<Longrightarrow> encode v L = Inr frame \<Longrightarrow> decode frame L = Inr v"
    and decode_canonical: "decode frame L = Inr v \<Longrightarrow> encode v L = Inr frame"
begin

lemma decode_iff: "valid L v \<Longrightarrow> decode frame L = Inr v \<longleftrightarrow> encode v L = Inr frame"
  using decode_encode decode_canonical by blast

lemma encode_injective:
  "valid L v \<Longrightarrow> valid L w \<Longrightarrow> encode v L = Inr frame \<Longrightarrow> encode w L = Inr frame \<Longrightarrow> v = w"
  using decode_encode by (metis sum.inject(2))

lemma frame_unique: "decode frame L = Inr v \<Longrightarrow> decode frame' L = Inr v \<Longrightarrow> frame = frame'"
  using decode_canonical by (metis sum.inject(2))

lemma other_frames_rejected:
  "valid L v \<Longrightarrow> encode v L = Inr frame \<Longrightarrow> frame' \<noteq> frame \<Longrightarrow> decode frame' L \<noteq> Inr v"
  using decode_canonical by fastforce

end

text \<open>A codec whose frames declare one payload kind; frames of different kinds never collide.\<close>

locale kinded_frame_codec = frame_codec encode decode valid
  for encode :: "'v \<Rightarrow> decode_limits \<Rightarrow> byte list wres"
    and decode :: "byte list \<Rightarrow> decode_limits \<Rightarrow> 'v wres"
    and valid :: "decode_limits \<Rightarrow> 'v \<Rightarrow> bool" +
  fixes kind :: payload_kind
  assumes encode_kind: "encode v L = Inr frame \<Longrightarrow>
    \<exists>payload. encode_envelope (envelope_new kind payload) L = Inr frame"
begin

lemma frame_kind: "encode v L = Inr frame \<Longrightarrow> \<exists>env. decode_envelope frame L = Inr env \<and> env_kind env = kind"
  using encode_kind envelope_inverse by (fastforce simp: envelope_new_def)

lemma frame_within_limits:
  "encode v L = Inr frame \<Longrightarrow> HEADER_LEN \<le> length frame \<and> length frame \<le> max_total_bytes L"
  using encode_kind by (fastforce simp: encode_envelope_Inr envelope_new_def)

lemma accepted_within_limits:
  "decode frame L = Inr v \<Longrightarrow> HEADER_LEN \<le> length frame \<and> length frame \<le> max_total_bytes L"
  using decode_canonical frame_within_limits by blast

end

lemma decode_type_def_canonical: "decode_type_def frame L = Inr ty \<Longrightarrow> encode_type_def ty L = Inr frame"
  by (auto simp: decode_type_def_def Let_def result_simps)

lemma decode_typed_datum_canonical:
  "decode_typed_datum X frame L = Inr (ty, pr, v) \<Longrightarrow> encode_typed_datum X ty pr v L = Inr frame"
  by (auto simp: decode_typed_datum_def Let_def result_simps)

interpretation type_codec: kinded_frame_codec encode_type_def decode_type_def "\<lambda>_. type_ok" PKTypeDef
proof unfold_locales
  fix ty L frame
  show "type_ok ty \<Longrightarrow> encode_type_def ty L = Inr frame \<Longrightarrow> decode_type_def frame L = Inr ty"
    by (rule decode_encoded_type)
  show "decode_type_def frame L = Inr ty \<Longrightarrow> encode_type_def ty L = Inr frame"
    by (rule decode_type_def_canonical)
  show "encode_type_def ty L = Inr frame \<Longrightarrow> \<exists>payload. encode_envelope (envelope_new PKTypeDef payload) L = Inr frame"
    by (auto simp: encode_type_def_Inr)
qed

text \<open>The datum codec depends on the third-party scalars; \<open>datum_ok\<close> collects its validity.\<close>

definition typed_datum_ok ::
    "'x ext \<Rightarrow> (ext_kind \<Rightarrow> 'x \<Rightarrow> bool) \<Rightarrow> type_def \<times> presence \<times> 'x datum \<Rightarrow> bool" where
  "typed_datum_ok X ok p \<longleftrightarrow>
     ext_wire_laws X ok \<and> type_ok (fst p) \<and> datum_canonical X ok (snd (snd p))"

definition encode_typed_datum_tuple ::
    "'x ext \<Rightarrow> type_def \<times> presence \<times> 'x datum \<Rightarrow> decode_limits \<Rightarrow> byte list wres" where
  "encode_typed_datum_tuple X p L = encode_typed_datum X (fst p) (fst (snd p)) (snd (snd p)) L"

interpretation datum_codec:
  kinded_frame_codec "encode_typed_datum_tuple X" "decode_typed_datum X" "\<lambda>_. typed_datum_ok X ok" PKTypedDatum
  for X :: "'x ext" and ok
proof unfold_locales
  fix p L frame
  show "typed_datum_ok X ok p \<Longrightarrow> encode_typed_datum_tuple X p L = Inr frame \<Longrightarrow> decode_typed_datum X frame L = Inr p"
    using decode_encoded_datum [of X ok "fst p" "snd (snd p)" "fst (snd p)" L frame]
    by (simp add: typed_datum_ok_def encode_typed_datum_tuple_def)
  show "decode_typed_datum X frame L = Inr p \<Longrightarrow> encode_typed_datum_tuple X p L = Inr frame"
    by (cases p) (auto simp: encode_typed_datum_tuple_def intro: decode_typed_datum_canonical)
  show "encode_typed_datum_tuple X p L = Inr frame \<Longrightarrow>
      \<exists>payload. encode_envelope (envelope_new PKTypedDatum payload) L = Inr frame"
    unfolding encode_typed_datum_tuple_def encode_typed_datum_Inr by blast
qed

end
