(* ===== verification/Sample_Scalars.thy ===== *)
theory Sample_Scalars
  imports Wire_Datum_Roundtrip
begin

text \<open>
  A concrete instance of the third-party scalar operations, on which the documented laws that the
  theorems about values assume are evaluated: one decimal (1.5), one UUID, every Julian day and
  instant, one time of day, one local date-time and one duration.
\<close>

datatype sample =
    SDecimal | SUuid | SDate "32 word" | STime | SLocal "32 word" | SInstant i128 | SDuration

fun sample_rank :: "sample \<Rightarrow> int" where
  "sample_rank (SDate d) = sint d"
| "sample_rank (SLocal d) = sint d"
| "sample_rank (SInstant n) = sint n"
| "sample_rank _ = 0"

definition sample_cmp :: "ext_kind \<Rightarrow> sample \<Rightarrow> sample \<Rightarrow> ordering" where
  "sample_cmp k a b = cmp_of (sample_rank a) (sample_rank b)"

definition sample_uuid :: "byte list" where
  "sample_uuid = [1, 2, 3, 4, 5, 6, 7, 8, 9, 10, 11, 12, 13, 14, 15, 255]"

definition sample_ext :: "sample ext" where
  "sample_ext =
     \<lparr>x_eq = (\<lambda>_ a b. a = b), x_cmp = sample_cmp, dec_normalize = (\<lambda>x. x),
      dec_mantissa = (\<lambda>_. 15), dec_scale = (\<lambda>_. 1),
      dec_parse = (\<lambda>s. if s = ''1.5'' then Some SDecimal else None),
      dec_from_i128_with_scale = (\<lambda>m s. if m = 15 \<and> s = 1 then Some SDecimal else None),
      uuid_as_bytes = (\<lambda>_. sample_uuid),
      uuid_parse = (\<lambda>s. if s = ''01020304-0506-0708-090a-0b0c0d0e0fff'' then Some SUuid else None),
      date_to_julian_day = (\<lambda>x. case x of SDate d \<Rightarrow> d | SLocal d \<Rightarrow> d | _ \<Rightarrow> 0),
      date_from_julian_day = (\<lambda>d. Some (SDate d)),
      time_hour = (\<lambda>_. 12), time_minute = (\<lambda>_. 30), time_second = (\<lambda>_. 0), time_nanosecond = (\<lambda>_. 7),
      time_from_hms_nano = (\<lambda>h m s n. if h = 12 \<and> m = 30 \<and> s = 0 \<and> n = 7 then Some STime else None),
      datetime_new = (\<lambda>d t. case d of SDate j \<Rightarrow> SLocal j | _ \<Rightarrow> d),
      datetime_date = (\<lambda>x. case x of SLocal j \<Rightarrow> SDate j | _ \<Rightarrow> x),
      datetime_time = (\<lambda>_. STime),
      instant_unix_nanos = (\<lambda>x. case x of SInstant n \<Rightarrow> n | _ \<Rightarrow> 0),
      instant_from_unix_nanos = (\<lambda>n. Some (SInstant n)),
      duration_whole_nanos = (\<lambda>_. - 1500000000),
      duration_new = (\<lambda>s n. SDuration)\<rparr>"

fun sample_ok :: "ext_kind \<Rightarrow> sample \<Rightarrow> bool" where
  "sample_ok KDecimal x \<longleftrightarrow> x = SDecimal"
| "sample_ok KUuid x \<longleftrightarrow> x = SUuid"
| "sample_ok KDate x \<longleftrightarrow> (\<exists>d. x = SDate d)"
| "sample_ok KTime x \<longleftrightarrow> x = STime"
| "sample_ok KLocalDateTime x \<longleftrightarrow> (\<exists>d. x = SLocal d)"
| "sample_ok KInstant x \<longleftrightarrow> (\<exists>n. x = SInstant n)"
| "sample_ok KDuration x \<longleftrightarrow> x = SDuration"

lemma sample_order_laws: "ext_order_laws sample_ext sample_ok"
  by (auto simp: ext_order_laws_def sample_ext_def sample_cmp_def cmp_of_def)

lemma sample_wire_laws: "ext_wire_laws sample_ext sample_ok"
proof -
  have decimal: "decimal_digits 15 1 = ''1.5''" by code_simp
  have uuid: "uuid_text sample_uuid = ''01020304-0506-0708-090a-0b0c0d0e0fff''" by code_simp
  have duration: "lower_duration sample_ext (- 1500000000) = Inr (VDuration SDuration)"
    by (simp add: lower_duration_def sample_ext_def trunc_div_def trunc_rem_def i64_try_from_i128_def
        i32_try_from_i128_def ok_or_def)
  show ?thesis
    unfolding ext_wire_laws_def
    using duration by (auto simp: sample_ext_def decimal uuid sample_uuid_def [THEN arg_cong [where f = length]])
qed

end
