(* ===== verification/Wire_Model.thy ===== *)
theory Wire_Model
  imports Wire_Datum_Roundtrip Model_Laws
begin

text \<open>
  The model part of \<open>dol-wire\<close>: the encoding of \<open>ModelDef\<close> and \<open>ModelSet\<close> (\<open>encode/mod.rs\<close>), their DTOs
  (\<open>dto.rs\<close>) and readers (\<open>decode/mod.rs\<close>), the lowering through \<open>ModelBuilder\<close> (\<open>validate/mod.rs\<close>)
  and the round trip of model frames.
\<close>

section \<open>Encoding\<close>

definition enc_check :: "unit wres \<Rightarrow> writer" where
  "enc_check r e = and_then r (\<lambda>_. Inr e)"

definition enc_string_keys :: "string list \<Rightarrow> nat \<Rightarrow> writer" where
  "enc_string_keys ks depth =
     enc_items (map (\<lambda>k. in_order [enc_node (saturating_add_usize depth 2), enc_string k]) ks)"

definition enc_model_field :: "decode_limits \<Rightarrow> nat \<Rightarrow> field_def \<Rightarrow> writer" where
  "enc_model_field L depth f =
     in_order [enc_node (saturating_add_usize depth 1), enc_string (fd_key f), enc_string (fd_name f),
       enc_bool (fd_presence f = Optional), enc_check (validate_type_for_encode (fd_ty f) L),
       enc_ty (fd_ty f) (saturating_add_usize depth 1)]"

definition enc_identity :: "string list option \<Rightarrow> nat \<Rightarrow> writer" where
  "enc_identity identity depth =
     (case identity of
        None \<Rightarrow> enc_u8 0
      | Some ks \<Rightarrow> in_order [enc_u8 1, enc_string_keys ks depth])"

definition enc_unique :: "nat \<Rightarrow> string list \<Rightarrow> writer" where
  "enc_unique depth ks = in_order [enc_node (saturating_add_usize depth 1), enc_string_keys ks depth]"

definition cardinality_tag :: "cardinality \<Rightarrow> byte" where
  "cardinality_tag c = (case c of One \<Rightarrow> 0 | OptionalOne \<Rightarrow> 1 | Many \<Rightarrow> 2)"

definition enc_relation_pair :: "nat \<Rightarrow> relation_field \<Rightarrow> writer" where
  "enc_relation_pair depth p =
     in_order [enc_node (saturating_add_usize depth 2), enc_string (rel_source p), enc_string (rel_target p)]"

definition enc_relation :: "nat \<Rightarrow> relation_def \<Rightarrow> writer" where
  "enc_relation depth r =
     in_order [enc_node (saturating_add_usize depth 1), enc_string (rel_key r), enc_string (rel_name r),
       enc_string (rel_target_model r), enc_u8 (cardinality_tag (rel_cardinality r)),
       enc_items (map (enc_relation_pair depth) (rel_fields r))]"

definition enc_reference :: "nat \<Rightarrow> reference_def \<Rightarrow> writer" where
  "enc_reference depth r =
     in_order [enc_node (saturating_add_usize depth 1), enc_string_keys (ref_source_fields r) depth,
       enc_string (ref_target_model r), enc_string_keys (ref_target_fields r) depth]"

definition enc_model :: "decode_limits \<Rightarrow> model_def \<Rightarrow> nat \<Rightarrow> writer" where
  "enc_model L m depth =
     in_order [enc_node depth, enc_string (md_key m), enc_string (md_name m),
       enc_items (map (enc_model_field L depth) (md_fields m)),
       enc_identity (md_identity m) depth,
       enc_items (map (enc_unique depth) (md_unique m)),
       enc_items (map (enc_relation depth) (md_relations m)),
       enc_items (map (enc_reference depth) (md_references m))]"

definition encode_model_def :: "model_def \<Rightarrow> decode_limits \<Rightarrow> byte list wres" where
  "encode_model_def m L =
     and_then (encoder_new L) (\<lambda>e.
     and_then (enc_model L m 0 e) (\<lambda>e. enc_finish PKModelDef e L))"

definition encode_model_set :: "model_set \<Rightarrow> decode_limits \<Rightarrow> byte list wres" where
  "encode_model_set models L =
     and_then (encoder_new L) (\<lambda>e.
     and_then (enc_items (map (\<lambda>m. enc_model L m 0) (map snd models)) e) (\<lambda>e. enc_finish PKModelSet e L))"

section \<open>DTOs and readers\<close>

record field_dto =
  fdto_key :: string
  fdto_name :: string
  fdto_optional :: bool
  fdto_ty :: type_dto

record relation_dto =
  rdto_key :: string
  rdto_name :: string
  rdto_target_model :: string
  rdto_cardinality :: byte
  rdto_fields :: "(string \<times> string) list"

record reference_dto =
  refdto_source_fields :: "string list"
  refdto_target_model :: string
  refdto_target_fields :: "string list"

record model_dto =
  mdto_key :: string
  mdto_name :: string
  mdto_fields :: "field_dto list"
  mdto_identity :: "string list option"
  mdto_unique :: "string list list"
  mdto_relations :: "relation_dto list"
  mdto_references :: "reference_dto list"

definition dec_string_keys :: "nat \<Rightarrow> string list reader" where
  "dec_string_keys depth =
     dec_items 4 (rd_bind (dec_node (saturating_add_usize depth 2)) (\<lambda>_. dec_string))"

definition dec_model_field :: "nat \<Rightarrow> nat \<Rightarrow> field_dto reader" where
  "dec_model_field fuel depth =
     rd_bind (dec_node (saturating_add_usize depth 1)) (\<lambda>_.
     rd_bind dec_string (\<lambda>key.
     rd_bind dec_string (\<lambda>name.
     rd_bind dec_bool (\<lambda>optional.
     rd_bind (dec_ty fuel (saturating_add_usize depth 1)) (\<lambda>ty.
       rd_return \<lparr>fdto_key = key, fdto_name = name, fdto_optional = optional, fdto_ty = ty\<rparr>)))))"

definition dec_identity_body :: "nat \<Rightarrow> nat \<Rightarrow> byte \<Rightarrow> string list option reader" where
  "dec_identity_body depth off t =
     (if t = 0 then rd_return None
      else if t = 1 then rd_map Some (dec_string_keys depth)
      else rd_fail (invalid_tag off ''model identity option'' t))"

definition dec_identity :: "nat \<Rightarrow> string list option reader" where
  "dec_identity depth = rd_bind rd_offset (\<lambda>off. rd_bind dec_u8 (dec_identity_body depth off))"

definition dec_unique :: "nat \<Rightarrow> string list reader" where
  "dec_unique depth = rd_bind (dec_node (saturating_add_usize depth 1)) (\<lambda>_. dec_string_keys depth)"

definition dec_relation_pair :: "nat \<Rightarrow> (string \<times> string) reader" where
  "dec_relation_pair depth =
     rd_bind (dec_node (saturating_add_usize depth 2)) (\<lambda>_.
     rd_bind dec_string (\<lambda>s. rd_bind dec_string (\<lambda>t. rd_return (s, t))))"

definition dec_relation :: "nat \<Rightarrow> relation_dto reader" where
  "dec_relation depth =
     rd_bind (dec_node (saturating_add_usize depth 1)) (\<lambda>_.
     rd_bind dec_string (\<lambda>key.
     rd_bind dec_string (\<lambda>name.
     rd_bind dec_string (\<lambda>target_model.
     rd_bind dec_u8 (\<lambda>c.
     rd_bind (dec_items 8 (dec_relation_pair depth)) (\<lambda>pairs.
       rd_return \<lparr>rdto_key = key, rdto_name = name, rdto_target_model = target_model,
         rdto_cardinality = c, rdto_fields = pairs\<rparr>))))))"

definition dec_reference :: "nat \<Rightarrow> reference_dto reader" where
  "dec_reference depth =
     rd_bind (dec_node (saturating_add_usize depth 1)) (\<lambda>_.
     rd_bind (dec_string_keys depth) (\<lambda>source_fields.
     rd_bind dec_string (\<lambda>target_model.
     rd_bind (dec_string_keys depth) (\<lambda>target_fields.
       rd_return \<lparr>refdto_source_fields = source_fields, refdto_target_model = target_model,
         refdto_target_fields = target_fields\<rparr>))))"

definition dec_model :: "nat \<Rightarrow> nat \<Rightarrow> model_dto reader" where
  "dec_model fuel depth =
     rd_bind (dec_node depth) (\<lambda>_.
     rd_bind dec_string (\<lambda>key.
     rd_bind dec_string (\<lambda>name.
     rd_bind (dec_items 11 (dec_model_field fuel depth)) (\<lambda>fds.
     rd_bind (dec_identity depth) (\<lambda>identity.
     rd_bind (dec_items 4 (dec_unique depth)) (\<lambda>unique.
     rd_bind (dec_items 16 (dec_relation depth)) (\<lambda>relations.
     rd_bind (dec_items 12 (dec_reference depth)) (\<lambda>references.
       rd_return \<lparr>mdto_key = key, mdto_name = name, mdto_fields = fds, mdto_identity = identity,
         mdto_unique = unique, mdto_relations = relations, mdto_references = references\<rparr>))))))))"

definition dec_model_set :: "nat \<Rightarrow> model_dto list reader" where
  "dec_model_set fuel = dec_items 1 (dec_model fuel 0)"

section \<open>Lowering\<close>

definition lower_model_field :: "decode_limits \<Rightarrow> field_dto \<Rightarrow> model_builder \<Rightarrow> model_builder wres" where
  "lower_model_field L f b =
     and_then (lower_type (fdto_ty f) L) (\<lambda>ty.
       let presence = (if fdto_optional f then Optional else Required)
       in Inr (builder_field_def (fdto_key f) (fdto_name f) ty presence b))"

definition lower_cardinality :: "byte \<Rightarrow> cardinality wres" where
  "lower_cardinality t =
     (if t = 0 then Inr One else if t = 1 then Inr OptionalOne else if t = 2 then Inr Many
      else Inl (wire_new InvalidTag ''relation cardinality has an invalid tag''))"

definition lower_relation :: "relation_dto \<Rightarrow> model_builder \<Rightarrow> model_builder wres" where
  "lower_relation r b =
     and_then (lower_cardinality (rdto_cardinality r)) (\<lambda>c.
       Inr (builder_relation (relation_new (rdto_key r) (rdto_name r) (rdto_target_model r) c (rdto_fields r)) b))"

definition lower_reference :: "reference_dto \<Rightarrow> model_builder \<Rightarrow> model_builder" where
  "lower_reference r b =
     builder_reference (refdto_source_fields r) (refdto_target_model r) (refdto_target_fields r) b"

definition lower_model :: "model_dto \<Rightarrow> decode_limits \<Rightarrow> model_def wres" where
  "lower_model dto L =
     (let b = builder_limits (definition_limits L) (builder_with_key (mdto_key dto) (mdto_name dto))
      in and_then (try_each (lower_model_field L) (mdto_fields dto) b) (\<lambda>b.
         let b = (case mdto_identity dto of Some ks \<Rightarrow> builder_identity ks b | None \<Rightarrow> b);
             b = foldl (\<lambda>b ks. builder_unique ks b) b (mdto_unique dto)
         in and_then (try_each lower_relation (mdto_relations dto) b) (\<lambda>b.
            let b = foldl (\<lambda>b r. lower_reference r b) b (mdto_references dto)
            in map_err core_error (model_freeze b))))"

definition lower_model_set :: "model_dto list \<Rightarrow> decode_limits \<Rightarrow> model_set wres" where
  "lower_model_set dtos L =
     and_then (try_map (\<lambda>m. lower_model m L) dtos) (\<lambda>models. map_err core_error (model_set_new models))"

definition decode_model_def :: "byte list \<Rightarrow> decode_limits \<Rightarrow> model_def wres" where
  "decode_model_def input L =
     and_then (expected_envelope input L PKModelDef) (\<lambda>env.
       let d = decoder_new (env_payload env) L
       in and_then (dec_model (payload_fuel d) 0 d) (\<lambda>(dto, d).
          and_then (dec_finish d) (\<lambda>_.
          and_then (lower_model dto L) (\<lambda>m.
          and_then (encode_model_def m L) (\<lambda>canonical.
          and_then (require_canonical input canonical) (\<lambda>_.
            Inr m))))))"

definition decode_model_set :: "byte list \<Rightarrow> decode_limits \<Rightarrow> model_set wres" where
  "decode_model_set input L =
     and_then (expected_envelope input L PKModelSet) (\<lambda>env.
       let d = decoder_new (env_payload env) L
       in and_then (dec_model_set (payload_fuel d) d) (\<lambda>(dtos, d).
          and_then (dec_finish d) (\<lambda>_.
          and_then (lower_model_set dtos L) (\<lambda>models.
          and_then (encode_model_set models L) (\<lambda>canonical.
          and_then (require_canonical input canonical) (\<lambda>_.
            Inr models))))))"

section \<open>The abstract format\<close>

definition keys_bytes :: "string list \<Rightarrow> byte list" where
  "keys_bytes ks = items_bytes (map str_bytes ks)"

definition model_field_bytes :: "field_def \<Rightarrow> byte list" where
  "model_field_bytes f =
     str_bytes (fd_key f) @ str_bytes (fd_name f) @ [bool_byte (fd_presence f = Optional)] @ ty_bytes (fd_ty f)"

definition identity_bytes :: "string list option \<Rightarrow> byte list" where
  "identity_bytes identity = (case identity of None \<Rightarrow> [0] | Some ks \<Rightarrow> 1 # keys_bytes ks)"

definition relation_bytes :: "relation_def \<Rightarrow> byte list" where
  "relation_bytes r =
     str_bytes (rel_key r) @ str_bytes (rel_name r) @ str_bytes (rel_target_model r) @
     [cardinality_tag (rel_cardinality r)] @
     items_bytes (map (\<lambda>p. str_bytes (rel_source p) @ str_bytes (rel_target p)) (rel_fields r))"

definition reference_bytes :: "reference_def \<Rightarrow> byte list" where
  "reference_bytes r =
     keys_bytes (ref_source_fields r) @ str_bytes (ref_target_model r) @ keys_bytes (ref_target_fields r)"

definition model_bytes :: "model_def \<Rightarrow> byte list" where
  "model_bytes m =
     str_bytes (md_key m) @ str_bytes (md_name m) @ items_bytes (map model_field_bytes (md_fields m)) @
     identity_bytes (md_identity m) @ items_bytes (map keys_bytes (md_unique m)) @
     items_bytes (map relation_bytes (md_relations m)) @ items_bytes (map reference_bytes (md_references m))"

definition dto_of_field_def :: "field_def \<Rightarrow> field_dto" where
  "dto_of_field_def f =
     \<lparr>fdto_key = fd_key f, fdto_name = fd_name f, fdto_optional = (fd_presence f = Optional),
      fdto_ty = dto_of_type (fd_ty f)\<rparr>"

definition dto_of_relation :: "relation_def \<Rightarrow> relation_dto" where
  "dto_of_relation r =
     \<lparr>rdto_key = rel_key r, rdto_name = rel_name r, rdto_target_model = rel_target_model r,
      rdto_cardinality = cardinality_tag (rel_cardinality r),
      rdto_fields = map (\<lambda>p. (rel_source p, rel_target p)) (rel_fields r)\<rparr>"

definition dto_of_reference :: "reference_def \<Rightarrow> reference_dto" where
  "dto_of_reference r =
     \<lparr>refdto_source_fields = ref_source_fields r, refdto_target_model = ref_target_model r,
      refdto_target_fields = ref_target_fields r\<rparr>"

definition dto_of_model :: "model_def \<Rightarrow> model_dto" where
  "dto_of_model m =
     \<lparr>mdto_key = md_key m, mdto_name = md_name m, mdto_fields = map dto_of_field_def (md_fields m),
      mdto_identity = md_identity m, mdto_unique = md_unique m,
      mdto_relations = map dto_of_relation (md_relations m),
      mdto_references = map dto_of_reference (md_references m)\<rparr>"

end
