(* ===== verification/Wire_Model_Roundtrip.thy ===== *)
theory Wire_Model_Roundtrip
  imports Wire_Model
begin

text \<open>
  Model frames: the encoder and the decoder run in lockstep on the abstract format of a model, the
  builder fed from the DTO of a frozen model is the builder that declares the model again, and the
  instance of the frame codec contract for model definitions.
\<close>

section \<open>Models in lockstep\<close>

definition relation_text_ok :: "relation_def \<Rightarrow> bool" where
  "relation_text_ok r \<longleftrightarrow>
     rust_str (rel_key r) \<and> rust_str (rel_name r) \<and> rust_str (rel_target_model r) \<and>
     (\<forall>p \<in> set (rel_fields r). rust_str (rel_source p) \<and> rust_str (rel_target p))"

definition reference_text_ok :: "reference_def \<Rightarrow> bool" where
  "reference_text_ok r \<longleftrightarrow>
     rust_str (ref_target_model r) \<and> (\<forall>k \<in> set (ref_source_fields r). rust_str k) \<and>
     (\<forall>k \<in> set (ref_target_fields r). rust_str k)"

definition model_text_ok :: "model_def \<Rightarrow> bool" where
  "model_text_ok m \<longleftrightarrow>
     rust_str (md_key m) \<and> rust_str (md_name m) \<and>
     (\<forall>f \<in> set (md_fields m). rust_str (fd_key f) \<and> rust_str (fd_name f) \<and> type_ok (fd_ty f)) \<and>
     (\<forall>ks. md_identity m = Some ks \<longrightarrow> (\<forall>k \<in> set ks. rust_str k)) \<and>
     (\<forall>ks \<in> set (md_unique m). \<forall>k \<in> set ks. rust_str k) \<and>
     (\<forall>r \<in> set (md_relations m). relation_text_ok r) \<and> (\<forall>r \<in> set (md_references m). reference_text_ok r)"

lemma sim_skip: "sim (in_order ws) bs r x \<Longrightarrow> sim (in_order (enc_check c # ws)) bs r x"
  by (auto simp: sim_def enc_check_def and_then_Inr)

lemma sim_string_keys:
  assumes "\<And>k. k \<in> set ks \<Longrightarrow> rust_str k"
  shows "sim (enc_string_keys ks depth) (keys_bytes ks) (dec_string_keys depth) ks"
proof -
  have item: "sim (in_order [enc_node (saturating_add_usize depth 2), enc_string k]) ([] @ str_bytes k)
      (rd_bind (dec_node (saturating_add_usize depth 2)) (\<lambda>_. dec_string)) k" if "k \<in> set ks" for k
    by (rule sim_seq [OF sim_node], rule sim_one, rule sim_string, rule assms [OF that])
  then have "sim_each 4 (map (\<lambda>k. in_order [enc_node (saturating_add_usize depth 2), enc_string k]) ks)
      (map str_bytes ks) (rd_bind (dec_node (saturating_add_usize depth 2)) (\<lambda>_. dec_string)) (map id ks)"
    by (intro sim_each_map) (simp add: length_str_bytes del: in_order.simps)
  from sim_items [OF this] show ?thesis
    by (simp add: enc_string_keys_def dec_string_keys_def keys_bytes_def del: in_order.simps)
qed

lemma sim_model_field:
  assumes "rust_str (fd_key f)" and "rust_str (fd_name f)" and "type_ok (fd_ty f)"
    and "length (ty_bytes (fd_ty f)) < fuel"
  shows "sim (enc_model_field L depth f) (model_field_bytes f) (dec_model_field fuel depth) (dto_of_field_def f)"
proof -
  let ?d = "saturating_add_usize depth 1"
  have "sim (enc_model_field L depth f)
      ([] @ str_bytes (fd_key f) @ str_bytes (fd_name f) @ [bool_byte (fd_presence f = Optional)] @ ty_bytes (fd_ty f))
      (dec_model_field fuel depth)
      \<lparr>fdto_key = fd_key f, fdto_name = fd_name f, fdto_optional = (fd_presence f = Optional),
       fdto_ty = dto_of_type (fd_ty f)\<rparr>"
    unfolding enc_model_field_def dec_model_field_def
    by (rule sim_seq [OF sim_node], rule sim_seq [OF sim_string [OF assms(1)]],
        rule sim_seq [OF sim_string [OF assms(2)]], rule sim_seq [OF sim_bool], rule sim_skip, rule sim_last,
        rule sim_ty(1) [OF assms(3,4)])
  then show ?thesis by (simp add: model_field_bytes_def dto_of_field_def_def)
qed

lemma sim_identity:
  assumes "\<And>ks k. identity = Some ks \<Longrightarrow> k \<in> set ks \<Longrightarrow> rust_str k"
  shows "sim (enc_identity identity depth) (identity_bytes identity) (dec_identity depth) identity"
proof (cases identity)
  case None
  show ?thesis unfolding None enc_identity_def identity_bytes_def dec_identity_def option.case
    by (rule sim_offset, rule sim_tag_only) (simp add: dec_identity_body_def)
next
  case (Some ks)
  have keys: "sim (enc_string_keys ks depth) (keys_bytes ks) (dec_string_keys depth) ks"
    by (rule sim_string_keys) (rule assms [OF Some])
  have tag: "dec_identity_body depth off 1 = rd_map Some (dec_string_keys depth)" for off
    by (simp add: dec_identity_body_def)
  show ?thesis unfolding Some enc_identity_def identity_bytes_def dec_identity_def option.case
    by (rule sim_dispatch, unfold tag) (intro sim_one sim_rd_map keys)
qed

lemma sim_unique:
  assumes "\<And>k. k \<in> set ks \<Longrightarrow> rust_str k"
  shows "sim (enc_unique depth ks) (keys_bytes ks) (dec_unique depth) ks"
  unfolding enc_unique_def dec_unique_def
  using sim_seq [OF sim_node sim_one [OF sim_string_keys [OF assms]]] by simp

lemma sim_relation:
  assumes "relation_text_ok r"
  shows "sim (enc_relation depth r) (relation_bytes r) (dec_relation depth) (dto_of_relation r)"
proof -
  note ok = assms [unfolded relation_text_ok_def]
  have "sim (enc_relation_pair depth p) ([] @ str_bytes (rel_source p) @ str_bytes (rel_target p))
      (dec_relation_pair depth) (rel_source p, rel_target p)" if "p \<in> set (rel_fields r)" for p
    unfolding enc_relation_pair_def dec_relation_pair_def
    by (rule sim_seq [OF sim_node], rule sim_seq [OF sim_string], use ok that in blast, rule sim_last,
        rule sim_string, use ok that in blast)
  then have "sim_each 8 (map (enc_relation_pair depth) (rel_fields r))
      (map (\<lambda>p. str_bytes (rel_source p) @ str_bytes (rel_target p)) (rel_fields r))
      (dec_relation_pair depth) (map (\<lambda>p. (rel_source p, rel_target p)) (rel_fields r))"
    using add_le_mono [OF length_str_bytes length_str_bytes] by (intro sim_each_map) simp
  note pairs = sim_items [OF this]
  have "sim (enc_relation depth r)
      ([] @ str_bytes (rel_key r) @ str_bytes (rel_name r) @ str_bytes (rel_target_model r) @
       [cardinality_tag (rel_cardinality r)] @
       items_bytes (map (\<lambda>p. str_bytes (rel_source p) @ str_bytes (rel_target p)) (rel_fields r)))
      (dec_relation depth)
      \<lparr>rdto_key = rel_key r, rdto_name = rel_name r, rdto_target_model = rel_target_model r,
       rdto_cardinality = cardinality_tag (rel_cardinality r),
       rdto_fields = map (\<lambda>p. (rel_source p, rel_target p)) (rel_fields r)\<rparr>"
    unfolding enc_relation_def dec_relation_def
    by (rule sim_seq [OF sim_node], rule sim_seq [OF sim_string], use ok in blast, rule sim_seq [OF sim_string],
        use ok in blast, rule sim_seq [OF sim_string], use ok in blast, rule sim_seq [OF sim_u8], rule sim_last,
        rule pairs)
  then show ?thesis by (simp add: relation_bytes_def dto_of_relation_def)
qed

lemma sim_reference:
  assumes "reference_text_ok r"
  shows "sim (enc_reference depth r) (reference_bytes r) (dec_reference depth) (dto_of_reference r)"
proof -
  note ok = assms [unfolded reference_text_ok_def]
  have "sim (enc_reference depth r)
      ([] @ keys_bytes (ref_source_fields r) @ str_bytes (ref_target_model r) @ keys_bytes (ref_target_fields r))
      (dec_reference depth)
      \<lparr>refdto_source_fields = ref_source_fields r, refdto_target_model = ref_target_model r,
       refdto_target_fields = ref_target_fields r\<rparr>"
    unfolding enc_reference_def dec_reference_def
    by (rule sim_seq [OF sim_node], rule sim_seq [OF sim_string_keys], use ok in blast,
        rule sim_seq [OF sim_string], use ok in blast, rule sim_last, rule sim_string_keys, use ok in blast)
  then show ?thesis by (simp add: reference_bytes_def dto_of_reference_def)
qed

lemma length_keys_bytes: "4 \<le> length (keys_bytes ks)"
  by (simp add: keys_bytes_def length_items_bytes)

lemma length_model_field_bytes: "length (ty_bytes (fd_ty f)) + 9 \<le> length (model_field_bytes f)"
  by (simp add: model_field_bytes_def str_bytes_def)

lemma sim_model:
  assumes ok: "model_text_ok m" and fuel: "length (model_bytes m) < fuel"
  shows "sim (enc_model L m depth) (model_bytes m) (dec_model fuel depth) (dto_of_model m)"
proof -
  note ok = ok [unfolded model_text_ok_def]
  have "length (items_bytes (map model_field_bytes (md_fields m))) < fuel"
    using fuel by (simp add: model_bytes_def)
  then have field: "sim (enc_model_field L depth f) (model_field_bytes f) (dec_model_field fuel depth) (dto_of_field_def f) \<and>
      11 \<le> length (model_field_bytes f)" if "f \<in> set (md_fields m)" for f
    using that ok length_item [of "model_field_bytes f" "map model_field_bytes (md_fields m)"]
      length_model_field_bytes [of f] length_ty_bytes [of "fd_ty f"]
    by (intro conjI sim_model_field) auto
  have relation: "sim (enc_relation depth r) (relation_bytes r) (dec_relation depth) (dto_of_relation r) \<and>
      16 \<le> length (relation_bytes r)" if "r \<in> set (md_relations m)" for r
    using that ok by (intro conjI sim_relation) (auto simp: relation_bytes_def str_bytes_def items_bytes_def)
  have reference: "sim (enc_reference depth r) (reference_bytes r) (dec_reference depth) (dto_of_reference r) \<and>
      12 \<le> length (reference_bytes r)" if "r \<in> set (md_references m)" for r
    using that ok by (intro conjI sim_reference)
      (auto simp: reference_bytes_def str_bytes_def keys_bytes_def items_bytes_def)
  have unique: "sim (enc_unique depth ks) (keys_bytes ks) (dec_unique depth) (id ks) \<and> 4 \<le> length (keys_bytes ks)"
    if "ks \<in> set (md_unique m)" for ks
    using sim_unique [of ks depth] that ok length_keys_bytes [of ks] by simp
  have us: "sim_each 4 (map (enc_unique depth) (md_unique m)) (map keys_bytes (md_unique m)) (dec_unique depth) (md_unique m)"
    using sim_each_map [where as = "md_unique m" and w = "enc_unique depth" and b = keys_bytes and x = id, OF unique] by simp
  have "sim (enc_model L m depth)
      ([] @ str_bytes (md_key m) @ str_bytes (md_name m) @ items_bytes (map model_field_bytes (md_fields m)) @
       identity_bytes (md_identity m) @ items_bytes (map keys_bytes (md_unique m)) @
       items_bytes (map relation_bytes (md_relations m)) @ items_bytes (map reference_bytes (md_references m)))
      (dec_model fuel depth) (dto_of_model m)"
    unfolding enc_model_def dec_model_def dto_of_model_def
    by (rule sim_seq [OF sim_node], rule sim_seq [OF sim_string], use ok in blast,
        rule sim_seq [OF sim_string], use ok in blast, rule sim_seq [OF sim_items [OF sim_each_map [OF field]]],
        assumption, rule sim_seq [OF sim_identity], use ok in blast, rule sim_seq [OF sim_items [OF us]],
        rule sim_seq [OF sim_items [OF sim_each_map [OF relation]]], assumption,
        rule sim_last, rule sim_items [OF sim_each_map [OF reference]])
  then show ?thesis by (simp add: model_bytes_def)
qed

end
