(* ===== verification/Wire_Model_Codec.thy ===== *)
theory Wire_Model_Codec
  imports Wire_Model_Roundtrip
begin

text \<open>
  The invariant of \<open>ModelBuilder\<close>, which every declaration keeps, and the model instance of the frame
  codec: a model frozen under the limits of the wire decodes from its frame to itself. The last
  section shows a model that is encoded although the decoder, which counts the constraints together
  as \<open>freeze\<close> does, rejects its frame.
\<close>

section \<open>The builder invariant\<close>

definition relation_canonical :: "relation_def \<Rightarrow> bool" where
  "relation_canonical r \<longleftrightarrow> sorted (map relation_pair_key (rel_fields r))"

definition reference_canonical :: "reference_def \<Rightarrow> bool" where
  "reference_canonical r \<longleftrightarrow>
     (length (ref_source_fields r) = length (ref_target_fields r) \<longrightarrow> sorted (ref_source_fields r))"

definition builder_ok :: "model_builder \<Rightarrow> bool" where
  "builder_ok b \<longleftrightarrow>
     rust_str (mb_key b) \<and> rust_str (mb_name b) \<and>
     (\<forall>f \<in> set (mb_fields b). rust_str (fs_key f) \<and> rust_str (fs_name f) \<and> type_ok (fs_ty f)) \<and>
     (\<forall>ks. mb_identity b = Some ks \<longrightarrow> (\<forall>k \<in> set ks. rust_str k)) \<and>
     (\<forall>ks \<in> set (mb_unique b). \<forall>k \<in> set ks. rust_str k) \<and>
     (\<forall>r \<in> set (mb_relations b). relation_text_ok r \<and> relation_canonical r) \<and>
     (\<forall>r \<in> set (mb_references b). reference_text_ok r \<and> reference_canonical r)"

lemma relation_new_ok:
  assumes "rust_str key" "rust_str name" "rust_str target_model"
    and "\<forall>p \<in> set pairs. rust_str (fst p) \<and> rust_str (snd p)"
  shows "relation_text_ok (relation_new key name target_model c pairs)"
    and "relation_canonical (relation_new key name target_model c pairs)"
  using assms by (auto simp: relation_text_ok_def relation_canonical_def relation_new_def)

lemma reference_new_ok:
  assumes "rust_str target_model" "\<forall>k \<in> set sources. rust_str k" "\<forall>k \<in> set targets. rust_str k"
  shows "reference_text_ok (reference_new sources target_model targets)"
    and "reference_canonical (reference_new sources target_model targets)"
  using assms by (auto simp: reference_text_ok_def reference_canonical_def reference_new_def Let_def
      dest: set_zip_leftD set_zip_rightD)

lemma builder_with_key_ok: "rust_str key \<Longrightarrow> rust_str name \<Longrightarrow> builder_ok (builder_with_key key name)"
  by (simp add: builder_ok_def builder_with_key_def)

lemma builder_limits_ok: "builder_ok b \<Longrightarrow> builder_ok (builder_limits limits b)"
  by (simp add: builder_ok_def builder_limits_def)

lemma builder_field_def_ok:
  "builder_ok b \<Longrightarrow> rust_str key \<Longrightarrow> rust_str name \<Longrightarrow> type_text_ok ty \<Longrightarrow>
   builder_ok (builder_field_def key name ty presence b)"
  by (auto simp: builder_ok_def builder_field_def_def canonicalize_ok)

lemma builder_identity_ok: "builder_ok b \<Longrightarrow> \<forall>k \<in> set ks. rust_str k \<Longrightarrow> builder_ok (builder_identity ks b)"
  by (simp add: builder_ok_def builder_identity_def)

lemma builder_unique_ok: "builder_ok b \<Longrightarrow> \<forall>k \<in> set ks. rust_str k \<Longrightarrow> builder_ok (builder_unique ks b)"
  by (auto simp: builder_ok_def builder_unique_def)

lemma builder_relation_ok:
  "builder_ok b \<Longrightarrow> relation_text_ok r \<Longrightarrow> relation_canonical r \<Longrightarrow> builder_ok (builder_relation r b)"
  by (auto simp: builder_ok_def builder_relation_def)

lemma builder_reference_ok:
  "builder_ok b \<Longrightarrow> rust_str target_model \<Longrightarrow> \<forall>k \<in> set sources. rust_str k \<Longrightarrow> \<forall>k \<in> set targets. rust_str k \<Longrightarrow>
   builder_ok (builder_reference sources target_model targets b)"
  by (auto simp: builder_ok_def builder_reference_def reference_new_ok)

text \<open>What a frozen model keeps of the invariant.\<close>

definition model_parts_ok :: "model_def \<Rightarrow> bool" where
  "model_parts_ok m \<longleftrightarrow>
     model_text_ok m \<and> (\<forall>r \<in> set (md_relations m). relation_canonical r) \<and>
     (\<forall>r \<in> set (md_references m). reference_canonical r)"

lemma freeze_parts_ok:
  assumes b: "builder_ok b" and m: "model_freeze b = Inr m"
  shows "model_parts_ok m"
proof -
  from m have "into_model_def (builder_canonicalize b) = Inr m" unfolding model_freeze_Inr by blast
  then have k: "md_key m = mb_key b" "md_name m = mb_name b"
    and f: "map spec_of (md_fields m) = sort_key fs_key (mb_fields b)"
    and u: "md_unique m = map sort (remdups_adj (sort (map sort (mb_unique b))))"
    and r: "md_relations m = sort_key rel_key (mb_relations b)"
    and e: "md_references m = remdups_adj (sort_key reference_sort_key (mb_references b))"
    and i: "md_identity m = map_option sort (mb_identity b)"
    by (auto simp: into_model_def_def and_then_Inr assign_slots_Inr builder_canonicalize_def comp_def
        model_from_parts_def unique_new_def [abs_def] identity_new_def [abs_def])
  have "spec_of ` set (md_fields m) = set (mb_fields b)"
    using arg_cong [OF f, of set] by simp
  then have fields: "rust_str (fd_key x) \<and> rust_str (fd_name x) \<and> type_ok (fd_ty x)" if "x \<in> set (md_fields m)" for x
    using that b unfolding builder_ok_def by (metis image_eqI spec_of_simps)
  show ?thesis
    using b fields unfolding model_parts_ok_def model_text_ok_def builder_ok_def k u r e i by auto
qed

section \<open>Lowering the parts of a model\<close>

lemma lower_cardinality_tag [simp]: "lower_cardinality (cardinality_tag c) = Inr c"
  by (cases c) (simp_all add: lower_cardinality_def cardinality_tag_def)

lemma relation_new_id:
  assumes "relation_canonical r"
  shows "relation_new (rel_key r) (rel_name r) (rel_target_model r) (rel_cardinality r)
      (map (\<lambda>p. (rel_source p, rel_target p)) (rel_fields r)) = r"
proof -
  have "(\<lambda>p. \<lparr>rel_source = rel_source p, rel_target = rel_target p\<rparr>) = id"
    by (simp add: fun_eq_iff)
  with assms show ?thesis by (simp add: relation_new_def relation_canonical_def comp_def sort_key_id_if_sorted)
qed

lemma reference_new_id:
  assumes "reference_canonical r"
  shows "reference_new (ref_source_fields r) (ref_target_model r) (ref_target_fields r) = r"
  using assms by (simp add: reference_new_def reference_canonical_def Let_def sort_key_id_if_sorted)

lemma lower_fields:
  assumes "\<forall>f \<in> set fs. type_ok (fd_ty f) \<and> validate_type (fd_ty f) (definition_limits L) = Inr ()"
  shows "try_each (lower_model_field L) (map dto_of_field_def fs) b = Inr (b\<lparr>mb_fields := mb_fields b @ map spec_of fs\<rparr>)"
  using assms
proof (induction fs arbitrary: b)
  case Nil
  then show ?case by simp
next
  case (Cons f fs)
  then have "lower_model_field L (dto_of_field_def f) b = Inr (b\<lparr>mb_fields := mb_fields b @ [spec_of f]\<rparr>)"
    by (cases "fd_presence f") (simp_all add: lower_model_field_def dto_of_field_def_def lower_type_def
        lower_dto_of_type(1) Let_def builder_field_def_def canonicalize_id spec_of_def)
  with Cons show ?case by simp
qed

lemma lower_relations:
  assumes "\<forall>r \<in> set rs. relation_canonical r"
  shows "try_each lower_relation (map dto_of_relation rs) b = Inr (b\<lparr>mb_relations := mb_relations b @ rs\<rparr>)"
  using assms
proof (induction rs arbitrary: b)
  case Nil
  then show ?case by simp
next
  case (Cons r rs)
  then have "lower_relation (dto_of_relation r) b = Inr (b\<lparr>mb_relations := mb_relations b @ [r]\<rparr>)"
    using relation_new_id [of r] by (simp add: lower_relation_def dto_of_relation_def builder_relation_def)
  with Cons show ?case by simp
qed

lemma lower_unique: "foldl (\<lambda>b ks. builder_unique ks b) b us = b\<lparr>mb_unique := mb_unique b @ us\<rparr>"
  by (induction us arbitrary: b) (simp_all add: builder_unique_def)

lemma lower_references:
  assumes "\<forall>r \<in> set rs. reference_canonical r"
  shows "foldl (\<lambda>b r. lower_reference r b) b (map dto_of_reference rs) = b\<lparr>mb_references := mb_references b @ rs\<rparr>"
  using assms by (induction rs arbitrary: b)
    (simp_all add: lower_reference_def dto_of_reference_def builder_reference_def reference_new_id)

lemma lower_dto_of_model:
  assumes "model_parts_ok m"
    and "\<forall>f \<in> set (md_fields m). validate_type (fd_ty f) (definition_limits L) = Inr ()"
  shows "lower_model (dto_of_model m) L = map_err core_error (model_freeze (rebuild (definition_limits L) m))"
proof -
  note ok = assms(1) [unfolded model_parts_ok_def model_text_ok_def]
  let ?b = "builder_limits (definition_limits L) (builder_with_key (md_key m) (md_name m))"
  have "try_each (lower_model_field L) (map dto_of_field_def (md_fields m)) ?b =
      Inr (?b\<lparr>mb_fields := mb_fields ?b @ map spec_of (md_fields m)\<rparr>)"
    by (rule lower_fields) (use ok assms(2) in blast)
  then show ?thesis
    using ok by (cases "md_identity m") (simp_all add: lower_model_def dto_of_model_def Let_def lower_unique
        lower_relations lower_references rebuild_def builder_limits_def builder_with_key_def builder_identity_def)
qed

section \<open>Model frames\<close>

definition model_wire_ok :: "decode_limits \<Rightarrow> model_def \<Rightarrow> bool" where
  "model_wire_ok L m \<longleftrightarrow> model_parts_ok m \<and> model_freeze (rebuild (definition_limits L) m) = Inr m"

lemma frozen_model_wire_ok:
  assumes "builder_ok b" and "mb_limits b = definition_limits L" and "model_freeze b = Inr m"
  shows "model_wire_ok L m"
  using freeze_parts_ok [OF assms(1,3)] freeze_idempotent [OF assms(3)] assms(2) by (simp add: model_wire_ok_def)

lemma encode_model_def_Inr:
  "encode_model_def m L = Inr frame \<longleftrightarrow>
     (\<exists>e e'. encoder_new L = Inr e \<and> enc_model L m 0 e = Inr e' \<and>
        encode_envelope (envelope_new PKModelDef (e_output e')) L = Inr frame)"
  by (auto simp: encode_model_def_def enc_finish_def and_then_Inr)

lemma model_frame_bytes:
  assumes "model_text_ok m" and "encode_model_def m L = Inr frame"
  shows "encode_envelope (envelope_new PKModelDef (model_bytes m)) L = Inr frame"
proof -
  from assms(2) obtain e e' where e: "encoder_new L = Inr e" "enc_model L m 0 e = Inr e'"
    and f: "encode_envelope (envelope_new PKModelDef (e_output e')) L = Inr frame"
    unfolding encode_model_def_Inr by blast
  have "e_output e' = model_bytes m"
    using sim_emits [OF sim_model [OF assms(1) lessI] e(2)] e(1)
    by (cases e') (auto simp: encoder_new_Inr)
  with f show ?thesis by simp
qed

lemma lower_dto_of_wire_model:
  assumes "model_wire_ok L m"
  shows "lower_model (dto_of_model m) L = Inr m"
proof -
  have "fields_valid (definition_limits L) (map spec_of (md_fields m))"
    using assms by (simp add: model_wire_ok_def model_freeze_Inr rebuild_def)
  then have "\<forall>f \<in> set (md_fields m). validate_type (fd_ty f) (definition_limits L) = Inr ()"
    by (auto simp: fields_valid_def)
  then show ?thesis using lower_dto_of_model assms by (simp add: model_wire_ok_def)
qed

lemma decode_encoded_model:
  assumes ok: "model_wire_ok L m" and enc: "encode_model_def m L = Inr frame"
  shows "decode_model_def frame L = Inr m"
proof -
  have parts: "model_text_ok m" using ok by (simp add: model_wire_ok_def model_parts_ok_def)
  note f = model_frame_bytes [OF parts enc]
  from enc obtain e e' where e: "encoder_new L = Inr e" "enc_model L m 0 e = Inr e'"
    unfolding encode_model_def_Inr by blast
  let ?d = "decoder_new (model_bytes m) L"
  have "sim (enc_model L m 0) (model_bytes m) (dec_model (payload_fuel ?d) 0) (dto_of_model m)"
    by (rule sim_model [OF parts]) (simp add: payload_fuel_def decoder_new_def)
  from sim_reads [OF this e(2) in_step_new [OF e(1) payload_bound [OF f]]]
  obtain d' where "dec_model (payload_fuel ?d) 0 ?d = Inr (dto_of_model m, d')" "dec_finish d' = Inr ()"
    by (auto simp: dec_finish_def decoder_new_def)
  then show ?thesis
    using expected_envelope_encoded [OF f] lower_dto_of_wire_model [OF ok] enc
    by (simp add: decode_model_def_def envelope_new_def require_canonical_def)
qed

interpretation model_codec: kinded_frame_codec encode_model_def decode_model_def model_wire_ok PKModelDef
proof unfold_locales
  fix m L frame
  show "model_wire_ok L m \<Longrightarrow> encode_model_def m L = Inr frame \<Longrightarrow> decode_model_def frame L = Inr m"
    by (rule decode_encoded_model)
  show "decode_model_def frame L = Inr m \<Longrightarrow> encode_model_def m L = Inr frame"
    by (auto simp: decode_model_def_def Let_def result_simps)
  show "encode_model_def m L = Inr frame \<Longrightarrow> \<exists>payload. encode_envelope (envelope_new PKModelDef payload) L = Inr frame"
    by (auto simp: encode_model_def_Inr)
qed


section \<open>Decoding an encoded model is freezing it again\<close>

text \<open>
  \<open>freeze\<close> counts identity, unique and reference constraints together against \<open>max_list_items\<close>, the
  encoder bounds each list on its own: a model can be encoded whose frame is then rejected with the
  diagnostic of \<open>freeze\<close>.
\<close>

lemma in_order_each: "in_order ws e = Inr e' \<Longrightarrow> w \<in> set ws \<Longrightarrow> \<exists>s s'. w s = Inr s'"
  by (induction ws arbitrary: e) (auto simp: and_then_Inr)

lemma enc_items_each: "enc_items ws e = Inr e' \<Longrightarrow> w \<in> set ws \<Longrightarrow> \<exists>s s'. w s = Inr s'"
  unfolding enc_items_def by (erule in_order_each) simp

lemma encoded_types_valid:
  assumes "encode_model_def m L = Inr frame" and "f \<in> set (md_fields m)"
  shows "validate_type (fd_ty f) (definition_limits L) = Inr ()"
proof -
  from assms(1) obtain e e' where "enc_model L m 0 e = Inr e'"
    unfolding encode_model_def_Inr by blast
  then have "\<exists>s s'. enc_items (map (enc_model_field L 0) (md_fields m)) s = Inr s'"
    unfolding enc_model_def by (rule in_order_each) simp
  then have "\<exists>s s'. enc_model_field L 0 f s = Inr s'"
    using assms(2) enc_items_each by (metis image_eqI list.set_map)
  then have "\<exists>s s'. enc_check (validate_type_for_encode (fd_ty f) L) s = Inr s'"
    unfolding enc_model_field_def using in_order_each by (metis list.set_intros(1,2))
  then show ?thesis
    by (auto simp: enc_check_def and_then_Inr validate_type_for_encode_def map_err_Inr)
qed

lemma canonical_freeze_cases:
  assumes "model_canonical m" and "model_freeze (rebuild limits m) = Inr m'"
  shows "m' = m"
  using rebuild_canonical [OF assms(1), of limits] assms(2) by (simp add: model_freeze_Inr)

lemma decode_encoded_model_freezes:
  assumes parts: "model_parts_ok m" and canonical: "model_canonical m"
    and enc: "encode_model_def m L = Inr frame"
  shows "decode_model_def frame L = map_err core_error (model_freeze (rebuild (definition_limits L) m))"
proof (cases "model_freeze (rebuild (definition_limits L) m)")
  case (Inr m')
  then have "model_freeze (rebuild (definition_limits L) m) = Inr m"
    using canonical_freeze_cases [OF canonical] by simp
  then show ?thesis
    using decode_encoded_model [OF _ enc] parts by (simp add: model_wire_ok_def)
next
  case (Inl d)
  have texts: "model_text_ok m" using parts by (simp add: model_parts_ok_def)
  note f = model_frame_bytes [OF texts enc]
  have low: "lower_model (dto_of_model m) L = Inl (core_error d)"
    using lower_dto_of_model [OF parts] encoded_types_valid [OF enc] Inl by simp
  from enc obtain e e' where e: "encoder_new L = Inr e" "enc_model L m 0 e = Inr e'"
    unfolding encode_model_def_Inr by blast
  let ?d = "decoder_new (model_bytes m) L"
  have "sim (enc_model L m 0) (model_bytes m) (dec_model (payload_fuel ?d) 0) (dto_of_model m)"
    by (rule sim_model [OF texts]) (simp add: payload_fuel_def decoder_new_def)
  from sim_reads [OF this e(2) in_step_new [OF e(1) payload_bound [OF f]]]
  obtain d' where "dec_model (payload_fuel ?d) 0 ?d = Inr (dto_of_model m, d')" "dec_finish d' = Inr ()"
    by (auto simp: dec_finish_def decoder_new_def)
  then show ?thesis
    using expected_envelope_encoded [OF f] low Inl by (simp add: decode_model_def_def envelope_new_def)
qed

end
