(* ===== verification/Wire_Soundness.thy ===== *)
theory Wire_Soundness
  imports Wire_Model_Codec Value_Conformance
begin

text \<open>
  What an accepted frame guarantees: the decoders build only validated types, conforming datums and
  models in canonical form, whatever the bytes of the frame are.
\<close>

section \<open>Model readers\<close>

text \<open>
  The model readers of \<open>decode/mod.rs\<close> stay inside the payload: every error names an offset of the
  payload, so the fuel, one more than the payload, never runs out, and a model takes at least 25 bytes.
\<close>

lemma safe_string_keys: "safe lo 4 m (dec_string_keys depth)"
  unfolding dec_string_keys_def
  by (rule safe_items, rule safe_seq [OF safe_node]) (simp add: safe_zero [OF safe_string])

lemma safe_model_field:
  assumes "m < fuel"
  shows "safe lo 23 m (dec_model_field fuel depth)"
  unfolding dec_model_field_def
  by (rule safe_seq [OF safe_node], rule safe_seq [OF safe_string], rule safe_seq [OF safe_string],
      rule safe_seq [OF safe_bool], rule safe_seq [OF safe_dec_ty])
    (use assms in \<open>auto intro: safe_return\<close>)

lemma safe_identity: "safe lo 1 m (dec_identity depth)"
  unfolding dec_identity_def dec_identity_body_def
  by (rule safe_offset, rule safe_seq [OF safe_u8])
    (auto intro: safe_return safe_invalid_tag safe_rd_map safe_zero [OF safe_string_keys])

lemma safe_unique: "safe lo 4 m (dec_unique depth)"
  unfolding dec_unique_def by (rule safe_seq [OF safe_node]) (simp add: safe_string_keys)

lemma safe_relation_pair: "safe lo 8 m (dec_relation_pair depth)"
  unfolding dec_relation_pair_def
  by (rule safe_seq [OF safe_node], rule safe_seq [OF safe_string], rule safe_seq [OF safe_string])
    (auto intro: safe_return)

lemma safe_relation: "safe lo 17 m (dec_relation depth)"
  unfolding dec_relation_def
  by (rule safe_seq [OF safe_node], rule safe_seq [OF safe_string], rule safe_seq [OF safe_string],
      rule safe_seq [OF safe_string], rule safe_seq [OF safe_u8],
      rule safe_seq [OF safe_items [OF safe_zero [OF safe_relation_pair]]])
    (auto intro: safe_return)

lemma safe_reference: "safe lo 12 m (dec_reference depth)"
  unfolding dec_reference_def
  by (rule safe_seq [OF safe_node], rule safe_seq [OF safe_string_keys], rule safe_seq [OF safe_string],
      rule safe_seq [OF safe_string_keys])
    (auto intro: safe_return)

lemma safe_model:
  assumes "m < fuel"
  shows "safe lo 25 m (dec_model fuel depth)"
  unfolding dec_model_def
  by (rule safe_seq [OF safe_node], rule safe_seq [OF safe_string], rule safe_seq [OF safe_string],
      rule safe_seq [OF safe_items [OF safe_zero [OF safe_model_field]]], use assms in simp,
      rule safe_seq [OF safe_identity], rule safe_seq [OF safe_items [OF safe_zero [OF safe_unique]]],
      rule safe_seq [OF safe_items [OF safe_zero [OF safe_relation]]],
      rule safe_seq [OF safe_items [OF safe_zero [OF safe_reference]]])
    (auto intro: safe_return)

lemma safe_model_set:
  assumes "m < fuel"
  shows "safe lo 4 m (dec_model_set fuel)"
  unfolding dec_model_set_def by (rule safe_items [OF safe_zero [OF safe_model]]) (use assms in simp)

section \<open>Whole payloads\<close>

text \<open>A reader that is safe on its payload fails only at an offset of the payload.\<close>

lemma payload_errors:
  assumes "\<And>m. m < payload_fuel (decoder_new bs L) \<Longrightarrow> safe 0 k m r"
    and "r (decoder_new bs L) = Inl err"
  shows "\<exists>off. we_offset err = Some off \<and> off \<le> length bs"
  using safeD_err [OF assms(1) [of "length bs"] _ _ _ assms(2)]
  by (simp add: payload_fuel_def decoder_new_def decoder_ok_def dec_remaining_def)

lemma payload_reads:
  assumes "\<And>m. m < payload_fuel (decoder_new bs L) \<Longrightarrow> safe 0 k m r"
    and "r (decoder_new bs L) = Inr (x, d)"
  shows "k \<le> d_offset d \<and> d_offset d \<le> length bs \<and> d_nodes d \<le> max_nodes L"
  using safeD_ok [OF assms(1) [of "length bs"] _ _ _ assms(2)]
  by (auto simp: payload_fuel_def decoder_new_def decoder_ok_def dec_remaining_def reads_on_def)

section \<open>Accepted frames\<close>

lemma lower_type_valid: "lower_type dto L = Inr ty \<Longrightarrow> validate_type ty (definition_limits L) = Inr ()"
  by (auto simp: lower_type_def and_then_Inr map_err_Inr)

lemma decoded_type_valid: "decode_type_def frame L = Inr ty \<Longrightarrow> validate_type ty (definition_limits L) = Inr ()"
  by (auto simp: decode_type_def_def Let_def result_simps dest: lower_type_valid)

lemma decoded_datum_valid:
  "decode_typed_datum X frame L = Inr (ty, pr, d) \<Longrightarrow>
     validate_type ty (definition_limits L) = Inr () \<and> of_field X ty pr d"
  by (auto simp: decode_typed_datum_def lower_typed_datum_def Let_def result_simps validate_datum_ok
      dest!: lower_type_valid)

text \<open>The limits of the lowering builder are those of the wire.\<close>

lemma try_each_keeps:
  assumes "\<And>x s s'. f x s = Inr s' \<Longrightarrow> g s' = g s"
  shows "try_each f xs s = Inr s' \<Longrightarrow> g s' = g s"
  by (induction xs arbitrary: s) (auto simp: and_then_Inr dest: assms)

lemma foldl_keeps: "(\<And>x s. g (f s x) = g s) \<Longrightarrow> g (foldl f s xs) = g s"
  by (induction xs arbitrary: s) auto

lemma lowering_keeps_limits:
  "lower_model_field L f b = Inr b' \<Longrightarrow> mb_limits b' = mb_limits b"
  "lower_relation r b = Inr b' \<Longrightarrow> mb_limits b' = mb_limits b"
  "mb_limits (lower_reference e b) = mb_limits b"
  "mb_limits (builder_unique ks b) = mb_limits b" "mb_limits (builder_identity ks b) = mb_limits b"
  by (auto simp: lower_model_field_def lower_relation_def lower_reference_def builder_reference_def
      builder_field_def_def builder_relation_def builder_unique_def builder_identity_def Let_def and_then_Inr)

lemma lower_model_freezes:
  assumes "lower_model dto L = Inr m"
  shows "\<exists>b. mb_limits b = definition_limits L \<and> model_freeze b = Inr m"
proof -
  let ?b = "builder_limits (definition_limits L) (builder_with_key (mdto_key dto) (mdto_name dto))"
  from assms obtain b1 b2 where
    1: "try_each (lower_model_field L) (mdto_fields dto) ?b = Inr b1" and
    2: "try_each lower_relation (mdto_relations dto)
        (foldl (\<lambda>b ks. builder_unique ks b)
          (case mdto_identity dto of Some ks \<Rightarrow> builder_identity ks b1 | None \<Rightarrow> b1) (mdto_unique dto)) = Inr b2" and
    3: "model_freeze (foldl (\<lambda>b r. lower_reference r b) b2 (mdto_references dto)) = Inr m"
    by (auto simp: lower_model_def Let_def and_then_Inr map_err_Inr)
  have "mb_limits b1 = mb_limits ?b"
    using try_each_keeps [where f = "lower_model_field L" and g = mb_limits, OF _ 1] lowering_keeps_limits(1) by blast
  moreover have "mb_limits b2 = mb_limits b1"
    using try_each_keeps [where f = lower_relation and g = mb_limits, OF _ 2] lowering_keeps_limits(2)
      foldl_keeps [where g = mb_limits and f = "\<lambda>b ks. builder_unique ks b"] lowering_keeps_limits(4,5)
    by (auto split: option.splits)
  moreover have "mb_limits (foldl (\<lambda>b r. lower_reference r b) b2 (mdto_references dto)) = mb_limits b2"
    by (rule foldl_keeps) (rule lowering_keeps_limits)
  ultimately show ?thesis using 3 by (metis builder_limits_def model_builder.select_convs(9) model_builder.surjective model_builder.update_convs(9))
qed

lemma decoded_model_valid:
  assumes "decode_model_def frame L = Inr m"
  shows "model_canonical m \<and> model_valid (definition_limits L) m"
proof -
  from assms obtain dto where "lower_model dto L = Inr m"
    by (auto simp: decode_model_def_def Let_def result_simps)
  from lower_model_freezes [OF this] freeze_establishes show ?thesis by metis
qed

section \<open>Frames of different kinds\<close>

text \<open>Every decoder accepts only envelopes of its own kind.\<close>

lemma expected_kind:
  "expected_envelope frame L kind = Inr env \<longleftrightarrow> decode_envelope frame L = Inr env \<and> env_kind env = kind"
  by (auto simp: expected_envelope_def and_then_Inr)

lemma decoded_kinds:
  "decode_type_def frame L = Inr ty \<Longrightarrow> \<exists>env. decode_envelope frame L = Inr env \<and> env_kind env = PKTypeDef"
  "decode_typed_datum X frame L = Inr p \<Longrightarrow> \<exists>env. decode_envelope frame L = Inr env \<and> env_kind env = PKTypedDatum"
  "decode_model_def frame L = Inr m \<Longrightarrow> \<exists>env. decode_envelope frame L = Inr env \<and> env_kind env = PKModelDef"
  "decode_model_set frame L = Inr ms \<Longrightarrow> \<exists>env. decode_envelope frame L = Inr env \<and> env_kind env = PKModelSet"
  by (auto simp: decode_type_def_def decode_typed_datum_def decode_model_def_def decode_model_set_def
      Let_def result_simps expected_kind)

end
