(* ===== verification/Samples.thy ===== *)
theory Samples
  imports Sample_Scalars Wire_Soundness Fingerprint "HOL-Library.Code_Target_Nat"
begin

text \<open>
  Concrete inputs on which the theorems are applied: a scalar and a list type, a datum, a model with an
  identity and a unique constraint, and their frames, each evaluated by rewriting with the executable
  definitions.
\<close>

definition date_type :: type_def where
  "date_type = type_scalar ''dol/date'' 1 RDate"

definition dates_type :: type_def where
  "dates_type = type_shaped ''app/dates'' 2 (ShList date_type)"

definition dates :: "sample datum" where
  "dates = Value (VList [Value (VDate (SDate 7)), Value (VDate (SDate 2))])"

definition date_frame :: "byte list" where
  "date_frame =
     [68, 79, 76, 87, 0, 1, 0, 0, 1, 0, 0, 0, 0, 0, 0, 0, 0, 0, 0, 24,
      0, 0, 0, 8, 100, 111, 108, 47, 100, 97, 116, 101, 0, 0, 0, 1, 0, 71, 0, 0, 0, 0, 0, 11]"

definition dates_frame :: "byte list" where
  "dates_frame = (case encode_typed_datum sample_ext dates_type Required dates default_decode_limits of Inr f \<Rightarrow> f | _ \<Rightarrow> [])"

lemma date_type_ok: "type_ok date_type" by code_simp

lemma dates_type_ok: "type_ok dates_type" by code_simp

lemma dates_canonical: "datum_canonical sample_ext sample_ok dates"
  by (simp add: dates_def)

lemma date_frame: "encode_type_def date_type default_decode_limits = Inr date_frame"
  by code_simp

lemma dates_encoded: "isl (encode_typed_datum sample_ext dates_type Required dates default_decode_limits) = False"
  by code_simp

lemma dates_frame: "encode_typed_datum sample_ext dates_type Required dates default_decode_limits = Inr dates_frame"
  using dates_encoded by (auto simp: dates_frame_def isl_def split: sum.splits)

section \<open>A model\<close>

definition user_builder :: model_builder where
  "user_builder =
     builder_unique [''b'', ''a''] (builder_identity [''a'']
       (builder_field_def ''b'' ''B'' date_type Optional
         (builder_field_def ''a'' ''A'' date_type Required
           (builder_limits (Wire_Envelope.definition_limits default_decode_limits) (builder_with_key ''u'' ''User'')))))"

definition user_model :: model_def where
  "user_model = (case model_freeze user_builder of Inr m \<Rightarrow> m | _ \<Rightarrow> undefined)"

lemma user_freezes: "isl (model_freeze user_builder) = False"
  by code_simp

lemma user_model: "model_freeze user_builder = Inr user_model"
  using user_freezes by (auto simp: user_model_def isl_def split: sum.splits)

lemma sample_names: "rust_str ''u''" "rust_str ''User''" "rust_str ''a''" "rust_str ''A''" "rust_str ''b''" "rust_str ''B''"
  by code_simp+

lemma user_builder_ok: "builder_ok user_builder"
proof -
  have "type_text_ok date_type" by code_simp
  then show ?thesis
    unfolding user_builder_def
    by (intro builder_unique_ok builder_identity_ok builder_field_def_ok builder_limits_ok builder_with_key_ok)
      (simp_all add: sample_names)
qed

lemma user_limits: "mb_limits user_builder = Wire_Envelope.definition_limits default_decode_limits"
  by (simp add: user_builder_def builder_unique_def builder_identity_def builder_field_def_def
      builder_limits_def builder_with_key_def)


lemma user_encodes: "isl (encode_model_def user_model default_decode_limits) = False"
  by code_simp

definition user_frame :: "byte list" where
  "user_frame = (case encode_model_def user_model default_decode_limits of Inr f \<Rightarrow> f | _ \<Rightarrow> [])"

lemma user_frame: "encode_model_def user_model default_decode_limits = Inr user_frame"
  using user_encodes by (auto simp: user_frame_def isl_def split: sum.splits)

text \<open>Under a list bound of one, a model with an identity and a unique constraint is encoded, and not accepted.\<close>

definition narrow_limits :: decode_limits where
  "narrow_limits = default_decode_limits\<lparr>max_list_items := 1\<rparr>"

definition narrow_builder :: model_builder where
  "narrow_builder =
     builder_unique [''a''] (builder_identity [''a'']
       (builder_field_def ''a'' ''A'' date_type Required (builder_with_key ''u'' ''User'')))"

definition narrow_model :: model_def where
  "narrow_model = (case model_freeze narrow_builder of Inr m \<Rightarrow> m | _ \<Rightarrow> undefined)"

lemma narrow_freezes: "isl (model_freeze narrow_builder) = False"
  by code_simp

lemma narrow_model: "model_freeze narrow_builder = Inr narrow_model"
  using narrow_freezes by (auto simp: narrow_model_def isl_def split: sum.splits)

lemma narrow_builder_ok: "builder_ok narrow_builder"
proof -
  have "type_text_ok date_type" by code_simp
  then show ?thesis
    unfolding narrow_builder_def
    by (intro builder_unique_ok builder_identity_ok builder_field_def_ok builder_with_key_ok)
      (simp_all add: sample_names)
qed

lemma narrow_encodes: "isl (encode_model_def narrow_model narrow_limits) = False"
  by code_simp

definition narrow_frame :: "byte list" where
  "narrow_frame = (case encode_model_def narrow_model narrow_limits of Inr f \<Rightarrow> f | _ \<Rightarrow> [])"

lemma narrow_frame: "encode_model_def narrow_model narrow_limits = Inr narrow_frame"
  using narrow_encodes by (auto simp: narrow_frame_def isl_def split: sum.splits)

lemma narrow_refrozen:
  "model_freeze (rebuild (Wire_Envelope.definition_limits narrow_limits) narrow_model) = Inl limit_003"
  by code_simp


section \<open>Derived facts\<close>

lemma dates_decodes:
  "decode_typed_datum sample_ext dates_frame default_decode_limits = Inr (dates_type, Required, dates)"
  by (rule decode_encoded_datum [OF sample_wire_laws dates_type_ok dates_canonical dates_frame])

lemma user_decodes: "decode_model_def user_frame default_decode_limits = Inr user_model"
  by (rule decode_encoded_model [OF frozen_model_wire_ok [OF user_builder_ok user_limits user_model] user_frame])

lemma model_sized_of_identity:
  "md_identity m = Some ks \<Longrightarrow> keys_sized ks \<Longrightarrow>
   sized (md_key m) \<and> sized (md_name m) \<and> sized (md_fields m) \<and> (\<forall>f \<in> set (md_fields m). field_def_sized f) \<and>
   sized (md_unique m) \<and> (\<forall>ks \<in> set (md_unique m). keys_sized ks) \<and>
   sized (md_relations m) \<and> (\<forall>r \<in> set (md_relations m). relation_sized r) \<and>
   sized (md_references m) \<and> (\<forall>r \<in> set (md_references m). reference_sized r) \<Longrightarrow> model_sized m"
  by (simp add: model_sized_def)

lemma user_sized: "model_sized user_model"
proof (rule model_sized_of_identity)
  show "md_identity user_model = Some [''a'']" by code_simp
  show "keys_sized [''a'']" by code_simp
qed code_simp

lemma narrow_sized: "model_sized narrow_model"
proof (rule model_sized_of_identity)
  show "md_identity narrow_model = Some [''a'']" by code_simp
  show "keys_sized [''a'']" by code_simp
qed code_simp

end
