(* ===== verification/Expr_Samples.thy ===== *)
theory Expr_Samples
  imports Expr_Safety Samples
begin

text \<open>
  A concrete expression over the model of \<open>Samples\<close>, with the operations its third-party scalars need: the
  expression is prepared and evaluated by rewriting with the executable definitions.
\<close>

definition sample_ops :: "sample scalar_ops" where
  "sample_ops =
     \<lparr>ops_ext = sample_ext, f32_arith = (\<lambda>_ a _. a), f64_arith = (\<lambda>_ a _. a), f64_from_f32 = ucast,
      dec_checked = (\<lambda>_ _ _. None), dec_neg = (\<lambda>x. x), dec_abs = (\<lambda>x. x),
      to_lowercase = (\<lambda>s. s), to_uppercase = (\<lambda>s. s),
      date_year = (\<lambda>_. 2024), date_month = (\<lambda>_. March), date_day = (\<lambda>x. case x of SDate d \<Rightarrow> ucast d | _ \<Rightarrow> 1),
      date_ordinal = (\<lambda>_. 61), date_weekday = (\<lambda>_. Friday),
      instant_unix_timestamp = (\<lambda>_. 0), duration_whole_seconds = (\<lambda>_. -1)\<rparr>"

lemma sample_ops_ext [simp]: "ops_ext sample_ops = sample_ext"
  by (simp add: sample_ops_def)

text \<open>\<open>if a = b then 1 + 2 else day(a)\<close>.\<close>

definition user_field :: "string \<Rightarrow> string \<Rightarrow> (sample, unit) expr_node" where
  "user_field k n =
     ExprNode (EField \<lparr>fref_model = ''u'', fref_key = k, fref_name = n, fref_scope = None\<rparr>) date_type"

definition small :: "nat \<Rightarrow> (sample, unit) expr_node" where
  "small n = ExprNode (ELiteral (Value (VUInt (of_nat n)))) uint8_type"

text \<open>Over any evaluator, so that what preparation does with it can be computed.\<close>

type_synonym evaluator = "function_def \<Rightarrow> sample datum list \<Rightarrow> type_def \<Rightarrow> sample datum res"

definition day_ref :: "evaluator \<Rightarrow> sample function_ref" where
  "day_ref ev =
     \<lparr>fr_definition = builtin_definition ''16'' DateDay, fr_validate = validate_builtin_function, fr_evaluate = ev\<rparr>"

definition sample_expr_at :: "evaluator \<Rightarrow> (sample, unit) expr_node" where
  "sample_expr_at ev =
     ExprNode (EConditional
       (ExprNode (EBinary OpEq (user_field ''a'' ''A'') (user_field ''b'' ''B'')) truth_type_def)
       (ExprNode (EBinary OpAdd (small 1) (small 2)) uint8_type)
       (ExprNode (EFunctionCall (day_ref ev) [user_field ''a'' ''A'']) uint8_type)) uint8_type"

definition sample_expr :: "(sample, unit) expr_node" where
  "sample_expr = sample_expr_at (eval_builtin_function sample_ops)"

definition user_view :: "sample record_view" where
  "user_view =
     \<lparr>rv_model = Inr user_model,
      rv_field = (\<lambda>i. Inr (if i = 0 then Some (Value (VDate (SDate 7)))
        else if i = 1 then Some (Value (VDate (SDate 9))) else None))\<rparr>"

definition sample_ctx :: "sample eval_context" where
  "sample_ctx = eval_context_single user_view"

definition sample_prepared_at :: "evaluator \<Rightarrow> sample prepared_expression" where
  "sample_prepared_at ev =
     (case prepare_expression (\<lambda>_. []) sample_ops (\<lambda>_. Inr []) (sample_expr_at ev) uint8_type (bind_single user_model)
        default_expression_limits of Inr p \<Rightarrow> p | _ \<Rightarrow> undefined)"

definition sample_prepared :: "sample prepared_expression" where
  "sample_prepared = sample_prepared_at (eval_builtin_function sample_ops)"

lemma sample_prepares: "isl (prepare_expression (\<lambda>_. []) sample_ops (\<lambda>_. Inr []) sample_expr uint8_type
    (bind_single user_model) default_expression_limits) = False"
  by code_simp

lemma sample_prepared: "prepare_expression (\<lambda>_. []) sample_ops (\<lambda>_. Inr []) sample_expr uint8_type
    (bind_single user_model) default_expression_limits = Inr sample_prepared"
  using sample_prepares by (auto simp: sample_prepared_def sample_prepared_at_def sample_expr_def isl_def split: sum.splits)

lemma sample_scopes: "validate_evaluation_scopes sample_prepared sample_ctx = Inr ()"
  by code_simp

lemma sample_means:
  "eval_expr sample_ops (context_valuation (bind_single user_model) sample_ctx (\<lambda>_. Inl eval_112)) False sample_expr =
     Inr (Value (VUInt 7))"
  by code_simp

lemma sample_normalized: "isl (normalize_node (\<lambda>_. []) sample_ops (\<lambda>_. Inr []) sample_expr) = False"
  by code_simp

lemma sample_normalizes: "\<exists>n'. normalize_node (\<lambda>_. []) sample_ops (\<lambda>_. Inr []) sample_expr = Inr n'"
  using sample_normalized unfolding isl_def by (metis sum.exhaust)

lemma sample_prepared_with: "prepare_with_existentials (\<lambda>_. []) sample_ops (\<lambda>_. Inr []) (\<lambda>_ _. Inl exists_001) sample_expr
    uint8_type (bind_single user_model) default_expression_limits 0 () = Inr (sample_prepared, ())"
  using sample_prepared by (auto simp: prepare_expression_def result_simps)

lemma sample_canonical: "\<forall>m \<in> set (bc_models (bind_single user_model)). model_canonical m"
  using freeze_establishes(1) [OF user_model] by (simp add: bind_single_def)

text \<open>Function references have no executable equality, hence the predicate.\<close>

lemma sample_nodes_at: "list_all Q (pe_nodes (sample_prepared_at ev)) \<longleftrightarrow> list_all Q
  [\<lparr>pn_kind = PField 0 0 False, pn_ty = date_type\<rparr>, \<lparr>pn_kind = PField 0 1 False, pn_ty = date_type\<rparr>,
   \<lparr>pn_kind = PBinary OpEq 0 1, pn_ty = truth_type_def\<rparr>,
   \<lparr>pn_kind = PLiteral (Value (VUInt 3)), pn_ty = uint8_type\<rparr>,
   \<lparr>pn_kind = PField 0 0 False, pn_ty = date_type\<rparr>,
   \<lparr>pn_kind = PFunctionCall (day_ref ev) [4], pn_ty = uint8_type\<rparr>,
   \<lparr>pn_kind = PConditional 2 3 5, pn_ty = uint8_type\<rparr>]"
  by (code_simp, simp add: eval_nat_numeral)

lemmas sample_nodes = sample_nodes_at [of _ "eval_builtin_function sample_ops", folded sample_prepared_def]

lemma date_value: "of_nested_type X date_type (Value (VDate d))"
  by (simp add: of_nested_type_simps of_type_scalar [of _ RDate] date_type_def type_scalar_def scalar_matches_def)

lemma user_fields: "map (\<lambda>f. (unat (fd_slot f), fd_ty f)) (md_fields user_model) = [(0, date_type), (1, date_type)]"
  by code_simp

lemma sample_conforms: "context_conforms (ops_ext sample_ops) (bind_single user_model) sample_ctx"
proof -
  have "record_conforms sample_ext user_model False user_view"
  proof (unfold record_conforms_def, intro ballI)
    fix f
    assume "f \<in> set (md_fields user_model)"
    then have "(unat (fd_slot f), fd_ty f) \<in> {(0, date_type), (1, date_type)}"
      using arg_cong [OF user_fields, of set] by (auto simp: image_iff)
    then show "\<exists>d. rv_field user_view (unat (fd_slot f)) = Inr (Some d) \<and>
        (of_nested_type sample_ext (fd_ty f) d \<or> False \<and> d = Null)"
      by (auto simp: user_view_def date_value)
  qed
  then show ?thesis
    by (simp add: context_conforms_def bind_single_def sample_ctx_def eval_context_single_def)
qed

lemma sample_sites: "\<forall>n \<in> set (pe_nodes sample_prepared). prepared_site (ops_ext sample_ops) {} sample_ctx n"
  using builtin_contract [of sample_ops DateDay "''16''"]
  unfolding list_all_iff [symmetric] sample_nodes by (simp add: prepared_site_def length_codes_def day_ref_def builtin_ref_def)

lemma sample_not_arithmetic: "\<forall>n \<in> set (pe_nodes sample_prepared). \<not> arithmetic_prepared n"
  unfolding list_all_iff [symmetric] sample_nodes by (simp add: arithmetic_prepared_def arithmetic_op_def)

lemma sample_too_deep: "check_expression_limits sample_expr (default_expression_limits\<lparr>el_max_depth := 2\<rparr>) =
    Inl (expr_limit_002 (default_expression_limits\<lparr>el_max_depth := 2\<rparr>))"
  by code_simp

end
