(* ===== verification/Write_Samples.thy ===== *)
theory Write_Samples
  imports Data_Laws Memory_Session Expr_Samples
begin

text \<open>
  Concrete rows of the model of \<open>Samples\<close>, an engine that holds them, an update, an insert and a delete, evaluated by
  rewriting with the executable definitions.
\<close>

lemma sample_eq_laws: "ext_eq_laws sample_ext"
  by (simp add: ext_eq_laws_def sample_ext_def same_clock_def)

text \<open>The model of \<open>Samples\<close>, written out.\<close>

definition stored_model :: model_def where
  "stored_model =
     \<lparr>md_key = ''u'', md_name = ''User'',
      md_fields =
        [\<lparr>fd_key = ''a'', fd_name = ''A'', fd_slot = 0, fd_ty = date_type, fd_presence = Required\<rparr>,
         \<lparr>fd_key = ''b'', fd_name = ''B'', fd_slot = 1, fd_ty = date_type, fd_presence = Optional\<rparr>],
      md_fields_by_key = [(''a'', 0), (''b'', 1)], md_fields_by_name = [(''A'', 0), (''B'', 1)],
      md_identity = Some [''a''], md_unique = [[''a'', ''b'']], md_relations = [], md_references = []\<rparr>"

lemma stored_model: "user_model = stored_model" by code_simp

definition user_row :: "32 word \<Rightarrow> sample datum \<Rightarrow> sample dyn_row" where
  "user_row a b = \<lparr>dr_model = stored_model, dr_values = [Value (VDate (SDate a)), b]\<rparr>"

definition user_rows :: "sample dyn_row list" where
  "user_rows = [user_row 7 (Value (VDate (SDate 9))), user_row 2 Missing]"

definition user_engine :: "sample memory_engine" where
  "user_engine = \<lparr>me_capabilities = memory_capabilities, me_tables = store_of stored_model user_rows, me_validated = True\<rparr>"

definition same_day :: "(sample, unit) expression_spec" where
  "same_day = \<lparr>es_node = ExprNode (EBinary OpEq (user_field ''a'' ''A'')
     (ExprNode (ELiteral (Value (VDate (SDate 2)))) date_type)) truth_type_def, es_ty = truth_type_def\<rparr>"

text \<open>\<open>set b = a where a = 2\<close>.\<close>

definition user_update :: "(sample, unit) update_op" where
  "user_update =
     update_set \<lparr>as_model = ''u'', as_field = ''b'', as_ty = date_type,
                 as_value = \<lparr>es_node = user_field ''a'' ''A'', es_ty = date_type\<rparr>\<rparr>
       (update_filter same_day update_new)"

lemma user_prepares: "\<exists>p. prepare_update (\<lambda>_. []) sample_ops (\<lambda>_. Inr []) (Inr stored_model) user_update False = Inr p"
proof -
  have "\<not> isl (prepare_update (\<lambda>_. []) sample_ops (\<lambda>_. Inr []) (Inr stored_model) user_update False)" by code_simp
  then show ?thesis
    by (cases "prepare_update (\<lambda>_. []) sample_ops (\<lambda>_. Inr []) (Inr stored_model) user_update False") simp_all
qed

definition truth_leaf :: "(sample, unit) expr_node" where
  "truth_leaf = ExprNode (ELiteral (Value (VTruth TUnknown))) truth_type_def"

text \<open>The same update as the engine receives it.\<close>

definition user_write :: "sample logical_write" where
  "user_write =
     LUpdate
       \<lparr>lu_model = stored_model,
        lu_assignments =
          [\<lparr>pa_field = 1, pa_key = ''b'', pa_expression =
             \<lparr>pe_nodes = [\<lparr>pn_kind = PField 0 0 False, pn_ty = date_type\<rparr>], pe_root = 0, pe_ty = date_type,
              pe_fingerprint = [], pe_bound_fingerprint = [], pe_scopes = [''u''], pe_outer_scope_count = 0\<rparr>\<rparr>],
        lu_condition =
          Some \<lparr>pe_nodes =
             [\<lparr>pn_kind = PField 0 0 False, pn_ty = date_type\<rparr>,
              \<lparr>pn_kind = PLiteral (Value (VDate (SDate 2))), pn_ty = date_type\<rparr>,
              \<lparr>pn_kind = PBinary OpEq 0 1, pn_ty = truth_type_def\<rparr>],
             pe_root = 2, pe_ty = truth_type_def, pe_fingerprint = [], pe_bound_fingerprint = [],
             pe_scopes = [''u''], pe_outer_scope_count = 0\<rparr>,
        lu_scope = ScopeFiltered, lu_fingerprint = []\<rparr>"

definition user_request :: "sample write_request" where
  "user_request = \<lparr>wr_write = user_write, wr_parameters = [], wr_limits = default_write_limits, wr_clock = (\<lambda>_. 0)\<rparr>"

definition updated_rows :: "sample dyn_row list" where
  "updated_rows = [user_row 7 (Value (VDate (SDate 9))), user_row 2 (Value (VDate (SDate 2)))]"

definition updated_engine :: "sample memory_engine" where
  "updated_engine = user_engine\<lparr>me_tables := store_of stored_model updated_rows\<rparr>"

text \<open>The loop of the update over the rows.\<close>

fun update_at :: "sample logical_write \<Rightarrow> sample dyn_row list \<Rightarrow> sample dyn_row list \<times> nat res" where
  "update_at (LUpdate u) rows = update_rows sample_ops default_write_limits (\<lambda>_. 0) u [] 1 0 rows"
| "update_at _ rows = (rows, Inr 0)"

lemma user_update_rows: "update_at user_write user_rows = (updated_rows, Inr 1)"
  by code_simp

lemma stored_model_ok: "model_canonical stored_model" "\<exists>limits. model_valid limits stored_model"
  using freeze_establishes [OF user_model] by (auto simp: stored_model)

definition field_a :: field_def where
  "field_a = \<lparr>fd_key = ''a'', fd_name = ''A'', fd_slot = 0, fd_ty = date_type, fd_presence = Required\<rparr>"

definition field_b :: field_def where
  "field_b = \<lparr>fd_key = ''b'', fd_name = ''B'', fd_slot = 1, fd_ty = date_type, fd_presence = Optional\<rparr>"

lemma stored_fields:
  "model_field stored_model ''a'' = Some field_a" "model_field stored_model ''b'' = Some field_b"
  "md_fields stored_model = [field_a, field_b]" "md_identity stored_model = Some [''a'']"
  "md_unique stored_model = [[''a'', ''b'']]"
  "slot_index field_a = 0" "slot_index field_b = 1" "fd_ty field_a = date_type" "fd_ty field_b = date_type"
  "fd_presence field_a = Required" "fd_presence field_b = Optional"
  by code_simp+

lemma user_row_field:
  "record_datum (row_view (user_row n b)) field_a = Inr (Value (VDate (SDate n)))"
  "record_datum (row_view (user_row n b)) field_b = Inr b"
  by (simp_all add: record_datum_def ok_or_def row_view_def row_get_def vec_get_def user_row_def stored_fields)

lemma user_record:
  assumes "validate_datum sample_ext date_type Optional b = Inr ()"
  shows "validate_record_against B sample_ext stored_model (row_view (user_row n b)) = Inr ()"
proof -
  have "validate_datum sample_ext date_type Required (Value (VDate (SDate n))) = Inr ()"
    by (simp add: date_type_def type_scalar_def scalar_matches_def)
  with assms show ?thesis
    by (simp add: validate_record_against_def stored_fields user_row_field result_simps row_view_def row_get_def
        vec_get_def user_row_def)
qed

lemma two_rows_valid:
  assumes "validate_datum sample_ext date_type Optional b = Inr ()" and "validate_datum sample_ext date_type Optional c = Inr ()"
    and "datum_btrees b" and "datum_btrees c"
  shows "validate_dynamic_dataset B sample_ext stored_model [user_row 7 b, user_row 2 c] = Inr ()"
proof -
  let ?rows = "map row_view [user_row 7 b, user_row 2 c]"
  have "\<forall>r \<in> set ?rows. record_btrees stored_model r"
    using assms by (simp add: record_btrees_def field_datum_def stored_fields user_row_field)
  moreover have "dataset_valid B sample_ext stored_model ?rows"
    using user_record assms(1,2)
    by (simp add: dataset_valid_def validate_record_ok tuples_distinct_def tuple_of_def field_datum_def stored_fields
        user_row_field sample_ext_def)
  ultimately show ?thesis
    using validate_dataset_decides [OF sample_eq_laws stored_model_ok(1)] stored_model_ok(2)
    by (auto simp: validate_dynamic_dataset_def)
qed

lemma user_rows_valid: "validate_dynamic_dataset B sample_ext stored_model user_rows = Inr ()"
  unfolding user_rows_def by (rule two_rows_valid) (simp_all add: date_type_def type_scalar_def scalar_matches_def)

lemma updated_rows_valid: "validate_dynamic_dataset B sample_ext stored_model updated_rows = Inr ()"
  unfolding updated_rows_def by (rule two_rows_valid) (simp_all add: date_type_def type_scalar_def scalar_matches_def)

lemma user_model_set: "\<exists>st. model_set_new [stored_model] = Inr st"
proof -
  have "\<not> isl (model_set_new [stored_model])" by code_simp
  then show ?thesis by (cases "model_set_new [stored_model]") simp_all
qed

lemma user_keys: "md_key stored_model = ''u''" "md_references stored_model = []"
  by (simp_all add: stored_model_def)

lemma user_tables_valid:
  "validate_tables B sample_ext (store_of stored_model user_rows) = Inr ()"
  "validate_tables B sample_ext (store_of stored_model updated_rows) = Inr ()"
  using user_model_set by (simp_all add: single_validate user_keys user_rows_valid updated_rows_valid)

lemma user_allowed: "validate_write_request memory_capabilities default_write_limits user_write = Inr ()"
  by code_simp

lemma user_updates:
  "apply_write B sample_ops default_write_limits (\<lambda>_. 0) [] user_write (store_of stored_model user_rows) =
    (store_of stored_model updated_rows, Inr 1)"
proof -
  obtain u where u: "user_write = LUpdate u" "lu_model u = stored_model" by (simp add: user_write_def)
  have "check_timeout default_write_limits (\<lambda>_. 0) k = Inr ()" for k
    by (simp add: check_timeout_def default_write_limits_def)
  moreover have "update_rows sample_ops default_write_limits (\<lambda>_. 0) u [] (Suc 0) 0 user_rows = (updated_rows, Inr 1)"
    using user_update_rows by (simp add: u)
  ultimately show ?thesis
    using updated_rows_valid by (simp add: u apply_write_def apply_update_def finish_write_def)
qed

lemma user_writes:
  assumes "validate (store_of stored_model updated_rows) = Inr ()"
  shows "apply_atomic_write B sample_ops default_write_limits (\<lambda>_. 0) [] validate user_write
    (store_of stored_model user_rows) = (store_of stored_model updated_rows, Inr 1)"
  using user_updates assms by (simp add: apply_atomic_write_def Let_def)

lemma user_executes:
  "execute_write B sample_ops default_write_limits (\<lambda>_. 0) [] user_write user_engine = (updated_engine, Inr 1)"
  using user_allowed user_writes [of "validate_tables B sample_ext"] user_tables_valid
  by (simp add: execute_write_def user_engine_def updated_engine_def engine_validate_def)

lemma user_write_ok: "write_ok user_write"
  by (simp add: user_write_def)

lemma user_engine_inv: "engine_inv B sample_ext user_engine"
  using user_rows_valid user_tables_valid
  by (auto simp: engine_inv_def user_engine_def store_inv_def store_of_def btree_inv_def split: if_splits)

section \<open>A transaction\<close>

definition user_transaction :: "sample memory_transaction" where
  "user_transaction = \<lparr>tx_working = store_of stored_model user_rows, tx_limits = default_transaction_limits, tx_writes = 0\<rparr>"

lemma user_snapshots:
  "validate_snapshot_limits default_transaction_limits (store_of stored_model user_rows) = Inr ()"
  "validate_snapshot_limits default_transaction_limits (store_of stored_model updated_rows) = Inr ()"
  by code_simp+

lemma user_begins:
  "begin_transaction B sample_ext Serializable default_transaction_limits user_engine = (user_engine, Inr user_transaction)"
  using user_snapshots
  by (simp add: begin_transaction_def engine_validate_def user_engine_def user_transaction_def default_transaction_limits_def)

lemma user_accepts:
  "transaction_request B sample_ops memory_capabilities user_request user_transaction =
    (user_transaction\<lparr>tx_working := store_of stored_model updated_rows, tx_writes := 1\<rparr>, Inr 1)"
  using user_allowed user_writes [of "validate_snapshot_limits default_transaction_limits"] user_snapshots
  by (simp add: transaction_request_def transaction_write_def user_request_def user_transaction_def)
    (simp add: default_transaction_limits_def)

lemma user_commits:
  "transaction_commit B sample_ext (run_writes (transaction_request B sample_ops memory_capabilities) [user_request] user_transaction)
    user_engine = (updated_engine, Inr ())"
  using user_snapshots user_tables_valid
  by (simp add: user_accepts transaction_commit_def)
    (simp add: user_transaction_def user_engine_def updated_engine_def)

lemma user_runs:
  "engine_request B sample_ops user_request user_engine = (updated_engine, Inr 1)"
  using user_executes by (simp add: engine_request_def user_request_def)

end
