(* ===== verification/Plan.thy ===== *)
theory Plan
  imports Expr_Eval
begin

text \<open>
  \<open>plan/mod.rs\<close> of \<open>dol-core\<close>: the logical plan that pipelines are compiled to and engines execute, its
  builder, the references between its nodes, its fingerprints and its optimization. A \<open>PlanId\<close> is its index; a \<open>LogicalExpr\<close> is the prepared
  expression it wraps.
\<close>

section \<open>Identifiers and expressions\<close>

type_synonym plan_id = nat

definition pipeline_limit_001 :: diagnostic where
  "pipeline_limit_001 = diagnostic_error ''PIPELINE-LIMIT-001'' ''logical plan exceeds u32 node capacity''"
definition pipeline_plan_001 :: diagnostic where
  "pipeline_plan_001 = diagnostic_error ''PIPELINE-PLAN-001''
     ''logical plan references an invalid local node identifier''"
definition pipeline_opt_001 :: diagnostic where
  "pipeline_opt_001 = diagnostic_error ''PIPELINE-OPT-001''
     ''optimizer encountered a non-topological logical-plan reference''"
definition pipeline_opt_001_exists :: diagnostic where
  "pipeline_opt_001_exists = diagnostic_error ''PIPELINE-OPT-001''
     ''optimizer encountered a non-topological existential plan reference''"

definition plan_id_from_index :: "nat \<Rightarrow> plan_id res" where
  "plan_id_from_index i = (if i < 2 ^ 32 then Inr i else Inl pipeline_limit_001)"

type_synonym 'x logical_expr = "'x prepared_expression"

fun existential_target :: "'x prepared_kind \<Rightarrow> plan_id option" where
  "existential_target (PExists subquery fingerprint) = Some subquery"
| "existential_target _ = None"

definition collect_existential_dependencies :: "'x logical_expr \<Rightarrow> plan_id list" where
  "collect_existential_dependencies e = List.map_filter (\<lambda>n. existential_target (pn_kind n)) (pe_nodes e)"

fun remap_kind :: "plan_id list \<Rightarrow> 'x prepared_kind \<Rightarrow> 'x prepared_kind res" where
  "remap_kind remap (PExists subquery fingerprint) =
     and_then (ok_or (vec_get remap subquery) pipeline_opt_001_exists) (\<lambda>q. Inr (PExists q fingerprint))"
| "remap_kind remap k = Inr k"

definition remap_plan_ids :: "plan_id list \<Rightarrow> 'x logical_expr \<Rightarrow> 'x logical_expr res" where
  "remap_plan_ids remap e =
     and_then (try_map (\<lambda>n. and_then (remap_kind remap (pn_kind n)) (\<lambda>k. Inr (n\<lparr>pn_kind := k\<rparr>))) (pe_nodes e)) (\<lambda>nodes.
       Inr (e\<lparr>pe_nodes := nodes\<rparr>))"

definition direct_field :: "'x logical_expr \<Rightarrow> (nat \<times> nat) option" where
  "direct_field e =
     (case vec_get (pe_nodes e) (pe_root e) of
        None \<Rightarrow> None
      | Some n \<Rightarrow> (case pn_kind n of PField scope slot _ \<Rightarrow> Some (scope, slot) | _ \<Rightarrow> None))"

section \<open>Projections, aggregates, orders and windows\<close>

datatype projection_kind = ProjectValue | ProjectTuple | ProjectRecord

record 'x logical_projection =
  lp_kind :: projection_kind
  lp_expressions :: "'x logical_expr list"
  lp_names :: "string list"
  lp_ty :: type_def

datatype aggregate_kind = CountRows | CountPresent | AggregateSum | AggregateMin | AggregateMax

datatype aggregate_selection_kind = SelectValue | SelectTuple

record 'x logical_aggregate =
  la_kind :: aggregate_kind
  la_input :: "'x logical_expr option"
  la_ty :: type_def

record 'x aggregate_selection =
  ag_kind :: aggregate_selection_kind
  ag_aggregates :: "'x logical_aggregate list"
  ag_ty :: type_def

datatype sort_direction = Ascending | Descending

record 'x sort_expr =
  se_expression :: "'x logical_expr"
  se_direction :: sort_direction

datatype join_kind = JoinInner | JoinLeft | JoinRight | JoinFull | JoinCross

datatype set_operator = SetUnion | SetUnionAll | SetIntersect | SetExcept

definition requires_equality :: "set_operator \<Rightarrow> bool" where
  "requires_equality s \<longleftrightarrow> s \<noteq> SetUnionAll"

datatype window_function = RowNumber | Rank | DenseRank | WindowSum

datatype frame_bound = UnboundedPreceding | Preceding u64 | CurrentRow | Following u64 | UnboundedFollowing

record rows_frame =
  rf_start :: frame_bound
  rf_end :: frame_bound

definition canonical_frame_bound :: "frame_bound \<Rightarrow> frame_bound" where
  "canonical_frame_bound b = (if b = Preceding 0 \<or> b = Following 0 then CurrentRow else b)"

definition rows_frame_new :: "frame_bound \<Rightarrow> frame_bound \<Rightarrow> rows_frame" where
  "rows_frame_new a b = \<lparr>rf_start = canonical_frame_bound a, rf_end = canonical_frame_bound b\<rparr>"

definition frame_all :: rows_frame where
  "frame_all = rows_frame_new UnboundedPreceding UnboundedFollowing"
definition frame_to_current :: rows_frame where
  "frame_to_current = rows_frame_new UnboundedPreceding CurrentRow"
definition frame_around :: "u64 \<Rightarrow> rows_frame" where
  "frame_around radius = rows_frame_new (Preceding radius) (Following radius)"

record 'x logical_window =
  lw_kind :: window_function
  lw_input :: "'x logical_expr option"
  lw_partition :: "'x logical_projection option"
  lw_order :: "'x sort_expr list"
  lw_frame :: "rows_frame option"
  lw_ty :: type_def

section \<open>Plans\<close>

datatype plan_output =
    OutModel model_def
  | OutValue type_def
  | OutProduct "plan_output list"
  | OutNullable plan_output

datatype 'x logical_node =
    NSource model_def "string option"
  | NFilter plan_id "'x logical_expr"
  | NProject plan_id "'x logical_projection"
  | NAggregate plan_id "'x logical_projection option" "'x aggregate_selection"
  | NUnnest plan_id type_def
  | NWindow plan_id "'x logical_window"
  | NSort plan_id "'x sort_expr list"
  | NDistinct plan_id
  | NSlice plan_id nat "nat option"
  | NJoin plan_id plan_id join_kind "'x logical_expr option"
  | NSet plan_id plan_id set_operator

record 'x logical_plan =
  pl_nodes :: "'x logical_node list"
  pl_root :: plan_id
  pl_output :: plan_output
  pl_fingerprint :: "byte list"

text \<open>The inputs of a node, and its expressions in the order of their fields.\<close>

fun node_inputs :: "'x logical_node \<Rightarrow> plan_id list" where
  "node_inputs (NSource m alias) = []"
| "node_inputs (NFilter i c) = [i]"
| "node_inputs (NProject i p) = [i]"
| "node_inputs (NAggregate i g a) = [i]"
| "node_inputs (NUnnest i ty) = [i]"
| "node_inputs (NWindow i w) = [i]"
| "node_inputs (NSort i ks) = [i]"
| "node_inputs (NDistinct i) = [i]"
| "node_inputs (NSlice i offset limit) = [i]"
| "node_inputs (NJoin l r k c) = [l, r]"
| "node_inputs (NSet l r s) = [l, r]"

definition projection_expressions :: "'x logical_projection option \<Rightarrow> 'x logical_expr list" where
  "projection_expressions p = (case p of None \<Rightarrow> [] | Some p \<Rightarrow> lp_expressions p)"

fun node_expressions :: "'x logical_node \<Rightarrow> 'x logical_expr list" where
  "node_expressions (NFilter i c) = [c]"
| "node_expressions (NProject i p) = lp_expressions p"
| "node_expressions (NAggregate i g a) =
     projection_expressions g @ List.map_filter la_input (ag_aggregates a)"
| "node_expressions (NWindow i w) =
     (case lw_input w of None \<Rightarrow> [] | Some e \<Rightarrow> [e]) @ projection_expressions (lw_partition w) @
     map se_expression (lw_order w)"
| "node_expressions (NSort i ks) = map se_expression ks"
| "node_expressions (NJoin l r k c) = (case c of None \<Rightarrow> [] | Some c \<Rightarrow> [c])"
| "node_expressions _ = []"

section \<open>The builder\<close>

record 'x plan_builder =
  pb_nodes :: "'x logical_node list"
  pb_fingerprints :: "byte list list"

definition plan_builder_new :: "'x plan_builder" where
  "plan_builder_new = \<lparr>pb_nodes = [], pb_fingerprints = []\<rparr>"

definition plan_push :: "'x logical_node \<Rightarrow> byte list \<Rightarrow> 'x plan_builder \<Rightarrow> (plan_id \<times> 'x plan_builder) res" where
  "plan_push node fp b =
     and_then (plan_id_from_index (length (pb_nodes b))) (\<lambda>i.
       Inr (i, \<lparr>pb_nodes = pb_nodes b @ [node], pb_fingerprints = pb_fingerprints b @ [fp]\<rparr>))"

definition plan_fingerprint_of :: "plan_id \<Rightarrow> 'x plan_builder \<Rightarrow> byte list res" where
  "plan_fingerprint_of i b = ok_or (vec_get (pb_fingerprints b) i) pipeline_plan_001"

section \<open>Fingerprints of stages and plans\<close>

text \<open>
  \<open>plan/identity.rs\<close>: the canonical fingerprints of pipeline stages and of complete plans, and what a
  builder finishes to.
\<close>

subsection \<open>Stages\<close>

definition fingerprint_source :: "digest \<Rightarrow> model_def \<Rightarrow> byte list" where
  "fingerprint_source B m = hasher_finish B (updates
     [h_str (md_key m), h_bytes (fingerprint_model B m)] (hasher_new ''pipeline/source/v1''))"

definition fingerprint_unary_stage :: "digest \<Rightarrow> string \<Rightarrow> byte list \<Rightarrow> byte list" where
  "fingerprint_unary_stage B domain input = hasher_finish B (h_bytes input (hasher_new domain))"

definition fingerprint_expression_stage :: "digest \<Rightarrow> string \<Rightarrow> byte list \<Rightarrow> 'x logical_expr \<Rightarrow> byte list" where
  "fingerprint_expression_stage B domain input e = hasher_finish B (updates
     [h_bytes input, h_bytes (pe_bound_fingerprint e)] (hasher_new domain))"

definition hash_projection :: "'x logical_projection \<Rightarrow> hasher \<Rightarrow> hasher" where
  "hash_projection p = updates
     [h_u8 (case lp_kind p of ProjectValue \<Rightarrow> 0 | ProjectTuple \<Rightarrow> 1 | ProjectRecord \<Rightarrow> 2),
      h_each (map (\<lambda>(i, e). updates
        [case vec_get (lp_names p) i of
           Some name \<Rightarrow> if lp_kind p = ProjectRecord then h_str name else (\<lambda>h. h)
         | None \<Rightarrow> (\<lambda>h. h),
         h_bytes (pe_bound_fingerprint e)]) (enumerate 0 (lp_expressions p))),
      hash_type_def (lp_ty p)]"

definition fingerprint_projection_stage :: "digest \<Rightarrow> byte list \<Rightarrow> 'x logical_projection \<Rightarrow> byte list" where
  "fingerprint_projection_stage B input p = hasher_finish B (updates
     [h_bytes input, hash_projection p] (hasher_new ''pipeline/project/v3''))"

definition hash_optional :: "('a \<Rightarrow> hasher \<Rightarrow> hasher) \<Rightarrow> 'a option \<Rightarrow> hasher \<Rightarrow> hasher" where
  "hash_optional f v = (case v of Some x \<Rightarrow> updates [h_u8 1, f x] | None \<Rightarrow> h_u8 0)"

definition hash_aggregate :: "'x logical_aggregate \<Rightarrow> hasher \<Rightarrow> hasher" where
  "hash_aggregate a = updates
     [h_u8 (case la_kind a of CountRows \<Rightarrow> 0 | CountPresent \<Rightarrow> 1 | AggregateSum \<Rightarrow> 2 | AggregateMin \<Rightarrow> 3 | AggregateMax \<Rightarrow> 4),
      hash_optional (\<lambda>e. h_bytes (pe_bound_fingerprint e)) (la_input a), hash_type_def (la_ty a)]"

definition fingerprint_aggregate_stage :: "digest \<Rightarrow> byte list \<Rightarrow> 'x logical_projection option \<Rightarrow>
    'x aggregate_selection \<Rightarrow> byte list" where
  "fingerprint_aggregate_stage B input groups s = hasher_finish B (updates
     [h_bytes input, hash_optional hash_projection groups,
      h_u8 (case ag_kind s of SelectValue \<Rightarrow> 0 | SelectTuple \<Rightarrow> 1),
      h_each (map hash_aggregate (ag_aggregates s)), hash_type_def (ag_ty s)] (hasher_new ''pipeline/aggregate/v1''))"

definition hash_sort_key :: "'x sort_expr \<Rightarrow> hasher \<Rightarrow> hasher" where
  "hash_sort_key k = updates
     [h_u8 (case se_direction k of Ascending \<Rightarrow> 0 | Descending \<Rightarrow> 1),
      h_bytes (pe_bound_fingerprint (se_expression k))]"

definition fingerprint_sort_stage :: "digest \<Rightarrow> byte list \<Rightarrow> 'x sort_expr list \<Rightarrow> byte list" where
  "fingerprint_sort_stage B input ks = hasher_finish B (updates
     [h_bytes input, h_each (map hash_sort_key ks)] (hasher_new ''pipeline/sort/v2''))"

definition fingerprint_unnest_stage :: "digest \<Rightarrow> byte list \<Rightarrow> type_def \<Rightarrow> byte list" where
  "fingerprint_unnest_stage B input element = hasher_finish B (updates
     [h_bytes input, hash_type_def element] (hasher_new ''pipeline/unnest/v1''))"

fun hash_window_bound :: "frame_bound \<Rightarrow> hasher \<Rightarrow> hasher" where
  "hash_window_bound UnboundedPreceding = h_u8 0"
| "hash_window_bound (Preceding d) = updates [h_u8 1, h_u64 d]"
| "hash_window_bound CurrentRow = h_u8 2"
| "hash_window_bound (Following d) = updates [h_u8 3, h_u64 d]"
| "hash_window_bound UnboundedFollowing = h_u8 4"

definition fingerprint_window_stage :: "digest \<Rightarrow> byte list \<Rightarrow> 'x logical_window \<Rightarrow> byte list" where
  "fingerprint_window_stage B input w = hasher_finish B (updates
     [h_bytes input, h_u8 (case lw_kind w of RowNumber \<Rightarrow> 0 | Rank \<Rightarrow> 1 | DenseRank \<Rightarrow> 2 | WindowSum \<Rightarrow> 3),
      hash_optional (\<lambda>e. h_bytes (pe_bound_fingerprint e)) (lw_input w),
      hash_optional hash_projection (lw_partition w), h_each (map hash_sort_key (lw_order w)),
      hash_optional (\<lambda>f. updates [hash_window_bound (rf_start f), hash_window_bound (rf_end f)]) (lw_frame w),
      hash_type_def (lw_ty w)] (hasher_new ''pipeline/window/v1''))"

definition fingerprint_slice_stage :: "digest \<Rightarrow> byte list \<Rightarrow> nat \<Rightarrow> nat option \<Rightarrow> byte list" where
  "fingerprint_slice_stage B input offset limit = hasher_finish B (updates
     [h_bytes input, h_u64 (of_nat offset), hash_optional (\<lambda>n. h_u64 (of_nat n)) limit] (hasher_new ''pipeline/slice/v1''))"

definition fingerprint_join_stage :: "digest \<Rightarrow> byte list \<Rightarrow> byte list \<Rightarrow> join_kind \<Rightarrow> 'x logical_expr option \<Rightarrow> byte list" where
  "fingerprint_join_stage B l r kind condition = hasher_finish B (updates
     [h_bytes l, h_bytes r,
      h_u8 (case kind of JoinInner \<Rightarrow> 0 | JoinCross \<Rightarrow> 1 | JoinLeft \<Rightarrow> 2 | JoinRight \<Rightarrow> 3 | JoinFull \<Rightarrow> 4),
      hash_optional (\<lambda>e. h_bytes (pe_bound_fingerprint e)) condition] (hasher_new ''pipeline/join/v1''))"

text \<open>The comparison of fingerprints is that of byte arrays.\<close>

definition fingerprint_set_stage :: "digest \<Rightarrow> byte list \<Rightarrow> byte list \<Rightarrow> set_operator \<Rightarrow> byte list" where
  "fingerprint_set_stage B l r operator =
     (let (l, r) = (if operator = SetExcept \<or> l \<le> r then (l, r) else (r, l))
      in hasher_finish B (updates
        [h_bytes l, h_bytes r,
         h_u8 (case operator of SetUnion \<Rightarrow> 0 | SetUnionAll \<Rightarrow> 1 | SetIntersect \<Rightarrow> 2 | SetExcept \<Rightarrow> 3)]
        (hasher_new ''pipeline/set/v1'')))"

subsection \<open>Plans\<close>

primrec hash_plan_output :: "digest \<Rightarrow> plan_output \<Rightarrow> hasher \<Rightarrow> hasher" where
  "hash_plan_output B (OutModel m) = updates [h_u8 0, h_str (md_key m), h_bytes (fingerprint_model B m)]"
| "hash_plan_output B (OutValue ty) = updates [h_u8 1, hash_type_def ty]"
| "hash_plan_output B (OutProduct outputs) = updates [h_u8 2, h_each (map (hash_plan_output B) outputs)]"
| "hash_plan_output B (OutNullable out) = updates [h_u8 3, hash_plan_output B out]"

definition fingerprint_plan :: "digest \<Rightarrow> byte list \<Rightarrow> plan_output \<Rightarrow> byte list" where
  "fingerprint_plan B root out = hasher_finish B (updates
     [h_bytes root, hash_plan_output B out] (hasher_new ''pipeline/plan/v2''))"

definition logical_plan_new :: "digest \<Rightarrow> 'x logical_node list \<Rightarrow> plan_id \<Rightarrow> plan_output \<Rightarrow> byte list \<Rightarrow> 'x logical_plan" where
  "logical_plan_new B nodes root out root_fingerprint =
     \<lparr>pl_nodes = nodes, pl_root = root, pl_output = out, pl_fingerprint = fingerprint_plan B root_fingerprint out\<rparr>"

definition plan_finish :: "digest \<Rightarrow> plan_id \<Rightarrow> plan_output \<Rightarrow> 'x plan_builder \<Rightarrow> 'x logical_plan res" where
  "plan_finish B root out b =
     and_then (plan_fingerprint_of root b) (\<lambda>fp. Inr (logical_plan_new B (pb_nodes b) root out fp))"

section \<open>Optimization\<close>

text \<open>
  \<open>plan/optimize.rs\<close>: one pass over the nodes that drops slices without effect and repeated duplicate
  eliminations, and renumbers the references to what is kept.
\<close>

definition mapped :: "plan_id \<Rightarrow> plan_id list \<Rightarrow> plan_id res" where
  "mapped i remap = ok_or (vec_get remap i) pipeline_opt_001"

definition redundant_target :: "'x logical_node \<Rightarrow> 'x logical_node list \<Rightarrow> plan_id option" where
  "redundant_target node nodes =
     (case node of
        NSlice i offset limit \<Rightarrow> if offset = 0 \<and> limit = None then Some i else None
      | NDistinct i \<Rightarrow> (case vec_get nodes i of Some (NDistinct j) \<Rightarrow> Some i | _ \<Rightarrow> None)
      | _ \<Rightarrow> None)"

text \<open>Only filters carry existential references that are renumbered.\<close>

fun remap_node :: "plan_id list \<Rightarrow> 'x logical_node \<Rightarrow> 'x logical_node res" where
  "remap_node remap (NSource m alias) = Inr (NSource m alias)"
| "remap_node remap (NFilter i c) =
     and_then (remap_plan_ids remap c) (\<lambda>c. and_then (mapped i remap) (\<lambda>i. Inr (NFilter i c)))"
| "remap_node remap (NProject i p) = and_then (mapped i remap) (\<lambda>i. Inr (NProject i p))"
| "remap_node remap (NAggregate i g a) = and_then (mapped i remap) (\<lambda>i. Inr (NAggregate i g a))"
| "remap_node remap (NUnnest i ty) = and_then (mapped i remap) (\<lambda>i. Inr (NUnnest i ty))"
| "remap_node remap (NWindow i w) = and_then (mapped i remap) (\<lambda>i. Inr (NWindow i w))"
| "remap_node remap (NSort i ks) = and_then (mapped i remap) (\<lambda>i. Inr (NSort i ks))"
| "remap_node remap (NDistinct i) = and_then (mapped i remap) (\<lambda>i. Inr (NDistinct i))"
| "remap_node remap (NSlice i offset limit) = and_then (mapped i remap) (\<lambda>i. Inr (NSlice i offset limit))"
| "remap_node remap (NJoin l r k c) =
     and_then (mapped l remap) (\<lambda>l. and_then (mapped r remap) (\<lambda>r. Inr (NJoin l r k c)))"
| "remap_node remap (NSet l r s) =
     and_then (mapped l remap) (\<lambda>l. and_then (mapped r remap) (\<lambda>r. Inr (NSet l r s)))"

definition optimize_step :: "'x logical_node \<Rightarrow> 'x logical_node list \<times> plan_id list \<Rightarrow>
    ('x logical_node list \<times> plan_id list) res" where
  "optimize_step node st =
     (case st of (nodes, remap) \<Rightarrow>
        and_then (remap_node remap node) (\<lambda>node.
          case redundant_target node nodes of
            Some existing \<Rightarrow> Inr (nodes, remap @ [existing])
          | None \<Rightarrow> and_then (plan_id_from_index (length nodes)) (\<lambda>i. Inr (nodes @ [node], remap @ [i]))))"

definition optimize :: "'x logical_plan \<Rightarrow> 'x logical_plan res" where
  "optimize p =
     and_then (try_each optimize_step (pl_nodes p) ([], [])) (\<lambda>(nodes, remap).
     and_then (mapped (pl_root p) remap) (\<lambda>root.
       Inr \<lparr>pl_nodes = nodes, pl_root = root, pl_output = pl_output p, pl_fingerprint = pl_fingerprint p\<rparr>))"

end
