(* ===== verification/Engine_Placement.thy ===== *)
theory Engine_Placement
  imports Plan Engine_Capability
begin

text \<open>
  \<open>placement/mod.rs\<close> and \<open>explain/mod.rs\<close> of \<open>dol-engine\<close>: which nodes of a plan an engine executes and which
  are left to local residual execution, decided in one pass over the nodes.
\<close>

section \<open>Policies and decisions\<close>

record transfer_budget =
  tb_max_rows :: nat
  tb_max_bytes :: nat
  tb_max_batches :: "nat option"

datatype placement_policy = RemoteOnly | Hybrid transfer_budget

datatype placement_site = SiteEngine | SiteLocal

record node_placement =
  np_id :: plan_id
  np_site :: placement_site
  np_support :: support

record placement_plan =
  pp_nodes :: "node_placement list"
  pp_transfer :: "transfer_budget option"

definition engine_placement_001 :: "nat \<Rightarrow> string \<Rightarrow> diagnostic" where
  "engine_placement_001 i reason = diagnostic_error ''ENGINE-PLACEMENT-001''
     (''logical node '' @ show_nat i @ '' cannot execute remotely: '' @ reason)"
definition engine_placement_003 :: diagnostic where
  "engine_placement_003 = diagnostic_error ''ENGINE-PLACEMENT-003''
     ''hybrid transfer budgets must have non-zero row/byte/batch limits''"
definition engine_placement_004 :: diagnostic where
  "engine_placement_004 = diagnostic_error ''ENGINE-PLACEMENT-004''
     ''logical node references an input outside the placement prefix''"

definition transfer_validate :: "transfer_budget \<Rightarrow> unit res" where
  "transfer_validate b =
     (if tb_max_rows b = 0 \<or> tb_max_bytes b = 0 \<or> tb_max_batches b = Some 0 then Inl engine_placement_003 else Inr ())"

definition is_fully_engine :: "placement_plan \<Rightarrow> bool" where
  "is_fully_engine p \<longleftrightarrow> list_all (\<lambda>n. np_site n = SiteEngine) (pp_nodes p)"

section \<open>Support of a node\<close>

fun combine_support :: "support \<Rightarrow> support \<Rightarrow> support" where
  "combine_support (Unsupported reason) _ = Unsupported reason"
| "combine_support _ (Unsupported reason) = Unsupported reason"
| "combine_support ExactNative ExactNative = ExactNative"
| "combine_support _ _ = ExactEmulated"

definition expression_requires :: "'x logical_expr \<Rightarrow> bool" where
  "expression_requires e \<longleftrightarrow> pe_outer_scope_count e \<noteq> 0 \<or> collect_existential_dependencies e \<noteq> []"

definition node_requires_existential_support :: "'x logical_node \<Rightarrow> bool" where
  "node_requires_existential_support node \<longleftrightarrow> list_ex expression_requires (node_expressions node)"

fun base_support :: "'x logical_node \<Rightarrow> capabilities \<Rightarrow> support" where
  "base_support (NSource m alias) c = pc_source (ca_pipeline c)"
| "base_support (NFilter i e) c = pc_filter (ca_pipeline c)"
| "base_support (NProject i p) c = pc_project (ca_pipeline c)"
| "base_support (NAggregate i g a) c = pc_aggregate (ca_pipeline c)"
| "base_support (NUnnest i ty) c = pc_unnest (ca_pipeline c)"
| "base_support (NWindow i w) c = pc_window (ca_pipeline c)"
| "base_support (NSort i ks) c = pc_sort (ca_pipeline c)"
| "base_support (NDistinct i) c = pc_distinct (ca_pipeline c)"
| "base_support (NSlice i offset limit) c = pc_slice (ca_pipeline c)"
| "base_support (NJoin l r k e) c = pc_join (ca_pipeline c)"
| "base_support (NSet l r s) c = pc_set (ca_pipeline c)"

definition capability_support_for_node :: "'x logical_node \<Rightarrow> capabilities \<Rightarrow> support" where
  "capability_support_for_node node c =
     (if node_requires_existential_support node
      then combine_support (base_support node c) (pc_exists (ca_pipeline c)) else base_support node c)"

section \<open>Dependencies\<close>

definition node_existential_dependencies :: "'x logical_node \<Rightarrow> plan_id list" where
  "node_existential_dependencies node =
     remdups_adj (sort (concat (map collect_existential_dependencies (node_expressions node))))"

definition is_local :: "node_placement list \<Rightarrow> plan_id \<Rightarrow> bool res" where
  "is_local placements i =
     (case vec_get placements i of
        Some p \<Rightarrow> Inr (np_site p = SiteLocal)
      | None \<Rightarrow> Inl engine_placement_004)"

text \<open>\<open>is_local(a)? || is_local(b)? \<dots>\<close>: the first local dependency ends the search.\<close>

fun any_local :: "node_placement list \<Rightarrow> plan_id list \<Rightarrow> bool res" where
  "any_local placements [] = Inr False"
| "any_local placements (i # is) =
     and_then (is_local placements i) (\<lambda>b. if b then Inr True else any_local placements is)"

definition has_local_dependency :: "'x logical_node \<Rightarrow> node_placement list \<Rightarrow> bool res" where
  "has_local_dependency node placements =
     and_then (any_local placements (node_inputs node)) (\<lambda>b.
       if b then Inr True else any_local placements (node_existential_dependencies node))"

section \<open>Analysis\<close>

definition place_node :: "placement_policy \<Rightarrow> ('x logical_node \<Rightarrow> support) \<Rightarrow> nat \<times> 'x logical_node \<Rightarrow>
    node_placement list \<Rightarrow> node_placement list res" where
  "place_node policy support_for node placements =
     (let s = support_for (snd node) in
      and_then (has_local_dependency (snd node) placements) (\<lambda>upstream_local.
      and_then
        (if is_supported s \<and> \<not> upstream_local then Inr SiteEngine
         else case policy of
                RemoteOnly \<Rightarrow> Inl (engine_placement_001 (fst node)
                  (if upstream_local then ''an input already requires local residual execution''
                   else case support_reason s of Some r \<Rightarrow> r | None \<Rightarrow> ''no exact support''))
              | Hybrid _ \<Rightarrow> Inr SiteLocal) (\<lambda>site.
      and_then (plan_id_from_index (fst node)) (\<lambda>i.
        Inr (placements @ [\<lparr>np_id = i, np_site = site, np_support = s\<rparr>])))))"

definition analyze_placement_with :: "'x logical_plan \<Rightarrow> placement_policy \<Rightarrow> ('x logical_node \<Rightarrow> support) \<Rightarrow>
    placement_plan res" where
  "analyze_placement_with plan policy support_for =
     and_then (case policy of
         RemoteOnly \<Rightarrow> Inr None
       | Hybrid transfer \<Rightarrow> and_then (transfer_validate transfer) (\<lambda>_. Inr (Some transfer))) (\<lambda>transfer.
     and_then (try_each (place_node policy support_for) (enumerate 0 (pl_nodes plan)) []) (\<lambda>placements.
       Inr \<lparr>pp_nodes = placements, pp_transfer = transfer\<rparr>))"

definition analyze_placement :: "'x logical_plan \<Rightarrow> capabilities \<Rightarrow> placement_policy \<Rightarrow> placement_plan res" where
  "analyze_placement plan c policy =
     analyze_placement_with plan policy (\<lambda>node. capability_support_for_node node c)"

section \<open>Explanations\<close>

record explain_step =
  xp_node :: plan_id
  xp_operation :: string
  xp_site :: placement_site
  xp_detail :: string

record explain_plan =
  xl_engine_kind :: string
  xl_engine_version :: string
  xl_fingerprint :: "byte list"
  xl_steps :: "explain_step list"

fun operation_name :: "'x logical_node \<Rightarrow> string" where
  "operation_name (NSource m alias) = ''source''"
| "operation_name (NFilter i e) = ''filter''"
| "operation_name (NProject i p) = ''project''"
| "operation_name (NAggregate i g a) = ''aggregate''"
| "operation_name (NUnnest i ty) = ''unnest''"
| "operation_name (NWindow i w) = ''window''"
| "operation_name (NSort i ks) = ''sort''"
| "operation_name (NDistinct i) = ''distinct''"
| "operation_name (NSlice i offset limit) = ''slice''"
| "operation_name (NJoin l r k e) = ''join''"
| "operation_name (NSet l r s) = ''set''"

definition placement_detail :: "node_placement \<Rightarrow> string" where
  "placement_detail p =
     (if np_site p = SiteLocal \<and> is_supported (np_support p)
      then ''local residual because an upstream input already requires local execution''
      else case np_support p of
             ExactNative \<Rightarrow> ''exact native''
           | ExactEmulated \<Rightarrow> ''exact emulated''
           | Unsupported reason \<Rightarrow> reason)"

definition explain_new :: "string \<Rightarrow> string \<Rightarrow> 'x logical_plan \<Rightarrow> placement_plan \<Rightarrow> explain_plan" where
  "explain_new kind version plan placement =
     \<lparr>xl_engine_kind = kind, xl_engine_version = version, xl_fingerprint = pl_fingerprint plan,
      xl_steps = map (\<lambda>(node, p). \<lparr>xp_node = np_id p, xp_operation = operation_name node,
                                   xp_site = np_site p, xp_detail = placement_detail p\<rparr>)
        (zip (pl_nodes plan) (pp_nodes placement))\<rparr>"

section \<open>What the analysis decides\<close>

text \<open>A node is local when it is not supported or depends on a local one; the specification follows the
  dependencies of the plan.\<close>

definition node_dependencies :: "'x logical_node \<Rightarrow> plan_id list" where
  "node_dependencies node = node_inputs node @ node_existential_dependencies node"

inductive needs_local :: "'x logical_node list \<Rightarrow> ('x logical_node \<Rightarrow> support) \<Rightarrow> nat \<Rightarrow> bool"
  for nodes :: "'x logical_node list" and support_for :: "'x logical_node \<Rightarrow> support" where
  unsupported: "i < length nodes \<Longrightarrow> \<not> is_supported (support_for (nodes ! i)) \<Longrightarrow> needs_local nodes support_for i"
| upstream: "i < length nodes \<Longrightarrow> j \<in> set (node_dependencies (nodes ! i)) \<Longrightarrow> needs_local nodes support_for j \<Longrightarrow>
    needs_local nodes support_for i"

inductive_simps needs_local_iff: "needs_local nodes support_for i"

text \<open>Dependencies come before the node.\<close>

definition topological :: "'x logical_node list \<Rightarrow> bool" where
  "topological nodes \<longleftrightarrow> (\<forall>i < length nodes. \<forall>j \<in> set (node_dependencies (nodes ! i)). j < i)"

lemma any_local_ok:
  assumes "\<forall>j \<in> set is. j < length placements"
  shows "any_local placements is = Inr (\<exists>j \<in> set is. np_site (placements ! j) = SiteLocal)"
  using assms by (induction "is") (auto simp: is_local_def vec_get_def)

lemma has_local_dependency_ok:
  assumes "\<forall>j \<in> set (node_dependencies node). j < length placements"
  shows "has_local_dependency node placements = Inr (\<exists>j \<in> set (node_dependencies node). np_site (placements ! j) = SiteLocal)"
  using assms by (auto simp: has_local_dependency_def node_dependencies_def any_local_ok)

definition placed :: "'x logical_node list \<Rightarrow> ('x logical_node \<Rightarrow> support) \<Rightarrow> node_placement list" where
  "placed nodes support_for =
     map (\<lambda>i. \<lparr>np_id = i, np_site = (if needs_local nodes support_for i then SiteLocal else SiteEngine),
               np_support = support_for (nodes ! i)\<rparr>) [0..<length nodes]"

lemma upstream_local:
  assumes "topological nodes" and "i < length nodes"
  shows "has_local_dependency (nodes ! i) (take i (placed nodes support_for)) =
    Inr (\<exists>j \<in> set (node_dependencies (nodes ! i)). needs_local nodes support_for j)"
proof -
  have before: "j < i" if "j \<in> set (node_dependencies (nodes ! i))" for j
    using assms that by (simp add: topological_def)
  then have "\<forall>j \<in> set (node_dependencies (nodes ! i)). j < length (take i (placed nodes support_for))"
    using assms(2) by (simp add: placed_def)
  moreover have "np_site (take i (placed nodes support_for) ! j) = SiteLocal \<longleftrightarrow> needs_local nodes support_for j"
    if "j \<in> set (node_dependencies (nodes ! i))" for j
    using before [OF that] assms(2) by (simp add: placed_def)
  ultimately show ?thesis by (auto simp: has_local_dependency_ok)
qed

lemma place_node_ok:
  assumes "topological nodes" and "n < length nodes" and "length nodes \<le> 2 ^ 32"
  shows "place_node policy support_for (n, nodes ! n) (take n (placed nodes support_for)) = Inr ps \<longleftrightarrow>
    ps = take (Suc n) (placed nodes support_for) \<and> (policy = RemoteOnly \<longrightarrow> \<not> needs_local nodes support_for n)"
proof -
  have "needs_local nodes support_for n \<longleftrightarrow> \<not> is_supported (support_for (nodes ! n)) \<or>
      (\<exists>j \<in> set (node_dependencies (nodes ! n)). needs_local nodes support_for j)"
    using assms(2) by (subst needs_local_iff) auto
  moreover have "take (Suc n) (placed nodes support_for) = take n (placed nodes support_for) @ [placed nodes support_for ! n]"
    using assms(2) by (simp add: take_Suc_conv_app_nth placed_def)
  moreover have "n < 2 ^ 32" using assms(2,3) by simp
  ultimately show ?thesis
    using assms(2) upstream_local [OF assms(1,2), of support_for]
    by (auto simp: place_node_def plan_id_from_index_def placed_def Let_def split: placement_policy.split)
qed

lemma place_prefix:
  assumes "topological nodes" and "length nodes \<le> 2 ^ 32" and "n \<le> length nodes"
  shows "try_each (place_node policy support_for) (take n (enumerate 0 nodes)) [] = Inr ps \<longleftrightarrow>
    ps = take n (placed nodes support_for) \<and> (policy = RemoteOnly \<longrightarrow> (\<forall>i < n. \<not> needs_local nodes support_for i))"
  using assms(3)
proof (induction n arbitrary: ps)
  case 0
  then show ?case by auto
next
  case (Suc n)
  then have "n < length nodes" by simp
  then have "take (Suc n) (enumerate 0 nodes) = take n (enumerate 0 nodes) @ [(n, nodes ! n)]"
    by (simp add: take_Suc_conv_app_nth nth_enumerate_eq)
  then have "try_each (place_node policy support_for) (take (Suc n) (enumerate 0 nodes)) [] = Inr ps \<longleftrightarrow>
      (\<exists>qs. try_each (place_node policy support_for) (take n (enumerate 0 nodes)) [] = Inr qs \<and>
        place_node policy support_for (n, nodes ! n) qs = Inr ps)"
    by (auto simp: try_each_append and_then_Inr)
  with Suc \<open>n < length nodes\<close> place_node_ok [OF assms(1) _ assms(2), of n policy support_for ps]
  show ?case by (auto simp: less_Suc_eq)
qed

lemma placement_decides:
  assumes "topological (pl_nodes plan)" and "length (pl_nodes plan) \<le> 2 ^ 32"
  shows "analyze_placement_with plan policy support_for = Inr p \<longleftrightarrow>
    pp_nodes p = placed (pl_nodes plan) support_for \<and>
    (case policy of
       RemoteOnly \<Rightarrow> pp_transfer p = None \<and> (\<forall>i < length (pl_nodes plan). \<not> needs_local (pl_nodes plan) support_for i)
     | Hybrid b \<Rightarrow> transfer_validate b = Inr () \<and> pp_transfer p = Some b)"
  using place_prefix [OF assms order_refl, of policy support_for]
  by (cases p) (auto simp: analyze_placement_with_def result_simps placed_def split: placement_policy.split)

end
