(* ===== verification/Engine_Execute.thy ===== *)
theory Engine_Execute
  imports Engine_Placement Row
begin

text \<open>
  \<open>execute/mod.rs\<close> and \<open>stream/mod.rs\<close> of \<open>dol-engine\<close>: limits and options of one plan execution, the rows
  that executions produce, and the bounded collection of a pull stream.
\<close>

section \<open>Limits and options\<close>

record execution_limits =
  el_max_rows :: "nat option"
  el_max_bytes :: "nat option"
  el_max_plan_nodes :: nat
  el_max_expression_nodes :: nat
  el_max_concurrency :: nat
  el_timeout :: "nat option"

definition default_execution_limits :: execution_limits where
  "default_execution_limits =
     \<lparr>el_max_rows = Some 100000, el_max_bytes = Some (64 * 1024 * 1024), el_max_plan_nodes = 16384,
      el_max_expression_nodes = 65536, el_max_concurrency = 8, el_timeout = None\<rparr>"

record execution_options =
  eo_limits :: execution_limits
  eo_placement :: placement_policy
  eo_batch_rows :: nat

definition default_execution_options :: execution_options where
  "default_execution_options =
     \<lparr>eo_limits = default_execution_limits, eo_placement = RemoteOnly, eo_batch_rows = 1024\<rparr>"

definition engine_limit_001 :: diagnostic where
  "engine_limit_001 = diagnostic_error ''ENGINE-LIMIT-001'' ''logical plan exceeds the configured execution node limit''"
definition engine_limit_002 :: diagnostic where
  "engine_limit_002 = diagnostic_error ''ENGINE-LIMIT-002''
     ''logical plan exceeds the configured execution expression limit''"
definition engine_limit_003_execution :: diagnostic where
  "engine_limit_003_execution = diagnostic_error ''ENGINE-LIMIT-003''
     ''execution concurrency limit must be greater than zero''"

definition logical_node_expression_count :: "'x logical_node \<Rightarrow> nat" where
  "logical_node_expression_count node = sum_list (map (\<lambda>e. length (pe_nodes e)) (node_expressions node))"

definition validate_plan :: "execution_limits \<Rightarrow> 'x logical_plan \<Rightarrow> unit res" where
  "validate_plan L plan =
     (if length (pl_nodes plan) > el_max_plan_nodes L then Inl engine_limit_001
      else if sum_list (map logical_node_expression_count (pl_nodes plan)) > el_max_expression_nodes L
           then Inl engine_limit_002
      else if el_max_concurrency L = 0 then Inl engine_limit_003_execution
      else Inr ())"

section \<open>Rows of an execution\<close>

datatype 'x execution_row =
    RowModel "'x dyn_row"
  | RowValue "'x datum"
  | RowProduct "'x execution_row list"
  | RowNullable "'x execution_row option"

primrec execution_row_bytes :: "'x execution_row \<Rightarrow> nat" where
  "execution_row_bytes (RowModel row) = row_bytes row"
| "execution_row_bytes (RowValue d) = datum_bytes d"
| "execution_row_bytes (RowProduct rs) = foldl saturating_add_u64 8 (map execution_row_bytes rs)"
| "execution_row_bytes (RowNullable r) =
     (case map_option execution_row_bytes r of None \<Rightarrow> 1 | Some n \<Rightarrow> saturating_add_u64 1 n)"

text \<open>The derived equality.\<close>

primrec execution_row_eq :: "digest \<Rightarrow> 'x ext \<Rightarrow> 'x execution_row \<Rightarrow> 'x execution_row \<Rightarrow> bool" where
  "execution_row_eq B X (RowModel a) = (\<lambda>w. case w of RowModel b \<Rightarrow> dyn_row_eq B X a b | _ \<Rightarrow> False)"
| "execution_row_eq B X (RowValue a) = (\<lambda>w. case w of RowValue b \<Rightarrow> datum_eq X a b | _ \<Rightarrow> False)"
| "execution_row_eq B X (RowProduct as) =
     (\<lambda>w. case w of RowProduct bs \<Rightarrow> vec_equal (map (execution_row_eq B X) as) bs | _ \<Rightarrow> False)"
| "execution_row_eq B X (RowNullable a) =
     (\<lambda>w. case w of
        RowNullable b \<Rightarrow> (case (map_option (execution_row_eq B X) a, b) of
          (None, None) \<Rightarrow> True | (Some eq, Some b) \<Rightarrow> eq b | _ \<Rightarrow> False)
      | _ \<Rightarrow> False)"

record 'x execution_batch =
  eb_output :: plan_output
  eb_rows :: "'x execution_row list"

section \<open>Pull streams\<close>

text \<open>A stream is its state with the operations \<open>next_batch\<close> and \<open>cancel\<close>.\<close>

record ('x, 's) data_stream =
  ds_next :: "'s \<Rightarrow> ('x execution_batch option) res \<times> 's"
  ds_cancel :: "'s \<Rightarrow> 's"

record collect_limits =
  cl_max_rows :: nat
  cl_max_bytes :: nat

definition default_collect_limits :: collect_limits where
  "default_collect_limits = \<lparr>cl_max_rows = 100000, cl_max_bytes = 64 * 1024 * 1024\<rparr>"

definition engine_collect_001_domain :: diagnostic where
  "engine_collect_001_domain = diagnostic_error ''ENGINE-COLLECT-001''
     ''stream batch row count exceeds the portable u64 domain''"
definition engine_collect_001_overflow :: diagnostic where
  "engine_collect_001_overflow = diagnostic_error ''ENGINE-COLLECT-001'' ''collected stream row count overflow''"
definition engine_collect_001 :: diagnostic where
  "engine_collect_001 = diagnostic_error ''ENGINE-COLLECT-001''
     ''stream exceeds the configured eager collection row limit''"
definition engine_collect_002 :: diagnostic where
  "engine_collect_002 = diagnostic_error ''ENGINE-COLLECT-002''
     ''stream exceeds the configured eager collection byte limit''"

definition collect_bytes :: "collect_limits \<Rightarrow> 'x execution_row \<Rightarrow> nat \<Rightarrow> nat res" where
  "collect_bytes L row n =
     (let n = saturating_add_u64 n (execution_row_bytes row)
      in if n > cl_max_bytes L then Inl engine_collect_002 else Inr n)"

text \<open>The loop runs until the stream ends; for a stream that never ends it does not return.\<close>

partial_function (option) collect_loop :: "('x, 's) data_stream \<Rightarrow> collect_limits \<Rightarrow> 'x execution_row list \<Rightarrow> nat \<Rightarrow> nat \<Rightarrow>
    's \<Rightarrow> ('x execution_row list res \<times> 's) option" where
  "collect_loop D L rows k n s =
     (case ds_next D s of
        (Inl e, s) \<Rightarrow> Some (Inl e, s)
      | (Inr None, s) \<Rightarrow> Some (Inr rows, s)
      | (Inr (Some batch), s) \<Rightarrow>
          (if length (eb_rows batch) \<ge> 2 ^ 64 then Some (Inl engine_collect_001_domain, s)
           else if k + length (eb_rows batch) \<ge> 2 ^ 64 then Some (Inl engine_collect_001_overflow, s)
           else if k + length (eb_rows batch) > cl_max_rows L then Some (Inl engine_collect_001, ds_cancel D s)
           else case try_each (collect_bytes L) (eb_rows batch) n of
                  Inl e \<Rightarrow> Some (Inl e, ds_cancel D s)
                | Inr n \<Rightarrow> collect_loop D L (rows @ eb_rows batch) (k + length (eb_rows batch)) n s))"

definition collect_stream_with_limits :: "('x, 's) data_stream \<Rightarrow> collect_limits \<Rightarrow> 's \<Rightarrow>
    ('x execution_row list res \<times> 's) option" where
  "collect_stream_with_limits D L s = collect_loop D L [] 0 0 s"

definition collect_stream :: "('x, 's) data_stream \<Rightarrow> 's \<Rightarrow> ('x execution_row list res \<times> 's) option" where
  "collect_stream D s = collect_stream_with_limits D default_collect_limits s"

end
