(* ===== verification/Stable_Sort.thy ===== *)
theory Stable_Sort
  imports Rust_Std "HOL-Library.Multiset"
begin

text \<open>
  \<open>slice::sort_by\<close> of the Rust standard library: a stable sort by a comparison function. For comparisons that
  are total preorders its result is determined; the model inserts each element after those that are smaller.
\<close>

fun insert_by :: "('a \<Rightarrow> 'a \<Rightarrow> ordering) \<Rightarrow> 'a \<Rightarrow> 'a list \<Rightarrow> 'a list" where
  "insert_by cmp x [] = [x]"
| "insert_by cmp x (y # ys) = (if cmp x y = Greater then y # insert_by cmp x ys else x # y # ys)"

definition sort_by :: "('a \<Rightarrow> 'a \<Rightarrow> ordering) \<Rightarrow> 'a list \<Rightarrow> 'a list" where
  "sort_by cmp xs = foldr (insert_by cmp) xs []"

lemma mset_insert_by: "mset (insert_by cmp x ys) = add_mset x (mset ys)"
  by (induction ys) auto

lemma mset_sort_by [simp]: "mset (sort_by cmp xs) = mset xs"
  unfolding sort_by_def by (induction xs) (simp_all add: mset_insert_by)

lemma set_sort_by [simp]: "set (sort_by cmp xs) = set xs"
  using mset_sort_by [of cmp xs] by (metis set_mset_mset)

lemma length_sort_by [simp]: "length (sort_by cmp xs) = length xs"
  using mset_sort_by [of cmp xs] by (metis size_mset)

text \<open>What a comparison owes: a total preorder on the elements that are sorted.\<close>

locale total_comparison =
  fixes cmp :: "'a \<Rightarrow> 'a \<Rightarrow> ordering" and A :: "'a set"
  assumes swap: "a \<in> A \<Longrightarrow> b \<in> A \<Longrightarrow> cmp b a = reverse_ordering (cmp a b)"
    and trans: "a \<in> A \<Longrightarrow> b \<in> A \<Longrightarrow> c \<in> A \<Longrightarrow> cmp a b \<noteq> Greater \<Longrightarrow> cmp b c \<noteq> Greater \<Longrightarrow> cmp a c \<noteq> Greater"
begin

lemma not_greater: "a \<in> A \<Longrightarrow> b \<in> A \<Longrightarrow> cmp a b = Greater \<Longrightarrow> cmp b a \<noteq> Greater"
  by (simp add: swap [of a b])

lemma sorted_insert:
  assumes "x \<in> A" and "set ys \<subseteq> A" and "sorted_wrt (\<lambda>a b. cmp a b \<noteq> Greater) ys"
  shows "sorted_wrt (\<lambda>a b. cmp a b \<noteq> Greater) (insert_by cmp x ys)"
  using assms
proof (induction ys)
  case Nil
  then show ?case by simp
next
  case (Cons y ys)
  have set: "set (insert_by cmp x ys) = insert x (set ys)" using mset_insert_by [of cmp x ys]
    by (metis set_mset_add_mset_insert set_mset_mset)
  show ?case
  proof (cases "cmp x y = Greater")
    case True
    with Cons not_greater [of x y] show ?thesis by (auto simp: set)
  next
    case False
    with Cons trans [of x y] show ?thesis by (auto; blast)
  qed
qed

lemma sorted_sort: "set xs \<subseteq> A \<Longrightarrow> sorted_wrt (\<lambda>a b. cmp a b \<noteq> Greater) (sort_by cmp xs)"
  unfolding sort_by_def
proof (induction xs)
  case Nil
  then show ?case by simp
next
  case (Cons x xs)
  moreover have "set (foldr (insert_by cmp) xs []) = set xs" using set_sort_by [of cmp xs] by (simp add: sort_by_def)
  ultimately show ?case by (auto intro!: sorted_insert)
qed

text \<open>Elements that compare equal keep their order.\<close>

lemma stable_insert:
  assumes "x \<in> A" and "set ys \<subseteq> A" and "z \<in> A"
  shows "filter (\<lambda>y. cmp z y = Equal) (insert_by cmp x ys) = filter (\<lambda>y. cmp z y = Equal) (x # ys)"
  using assms
proof (induction ys)
  case Nil
  then show ?case by simp
next
  case (Cons y ys)
  show ?case
  proof (cases "cmp x y = Greater \<and> cmp z x = Equal \<and> cmp z y = Equal")
    case True
    then have "cmp x z \<noteq> Greater" using swap [of z x] Cons.prems by simp
    with True have "cmp x y \<noteq> Greater" using trans [of x z y] Cons.prems by simp
    with True show ?thesis by simp
  next
    case False
    with Cons show ?thesis by auto
  qed
qed

lemma stable_sort:
  assumes "set xs \<subseteq> A" and "z \<in> A"
  shows "filter (\<lambda>y. cmp z y = Equal) (sort_by cmp xs) = filter (\<lambda>y. cmp z y = Equal) xs"
  using assms(1) unfolding sort_by_def
proof (induction xs)
  case Nil
  then show ?case by simp
next
  case (Cons x xs)
  moreover have "set (foldr (insert_by cmp) xs []) = set xs" using set_sort_by [of cmp xs] by (simp add: sort_by_def)
  ultimately show ?case using stable_insert [of x "foldr (insert_by cmp) xs []" z] assms(2) by simp
qed

end

end
