(* ===== verification/Exec_Session.thy ===== *)
theory Exec_Session
  imports Engine_Execute Memory_Store Stable_Sort Exact_Sum
begin

text \<open>
  The memory engine's executor (\<open>executor/row.rs\<close> and the \<open>Session\<close> of \<open>executor.rs\<close>): rows with their
  source scopes, the evaluation of expressions and projections against them, and the limits on what a stage
  may hold.

  Every \<open>check_timeout\<close> of one execution returns the same error and execution changes nothing, so whether
  the deadline passes is one flag of the session: an execution either ends with that error or as if its
  deadline had not passed.
\<close>

section \<open>Working rows (\<open>executor/row.rs\<close>)\<close>

datatype 'x scope_record = ScopePresent "'x dyn_row" | ScopeNull model_def

fun is_null_extended :: "'x scope_record \<Rightarrow> bool" where
  "is_null_extended (ScopePresent row) = False"
| "is_null_extended (ScopeNull m) = True"

fun scope_view :: "'x scope_record \<Rightarrow> 'x record_view" where
  "scope_view (ScopePresent row) = row_view row"
| "scope_view (ScopeNull m) =
     \<lparr>rv_model = Inr m, rv_field = (\<lambda>slot. Inr (map_option (\<lambda>_. Null) (vec_get (md_fields m) slot)))\<rparr>"

record 'x working_row =
  wk_output :: "'x execution_row"
  wk_scopes :: "'x scope_record list"

definition bind_scope :: "'x eval_context \<Rightarrow> 'x scope_record \<Rightarrow> 'x eval_context" where
  "bind_scope ctx scope =
     (if is_null_extended scope then with_null_extended_record (scope_view scope) ctx
      else with_record (scope_view scope) ctx)"

definition evaluation_context :: "'x scope_record list \<Rightarrow> 'x working_row \<Rightarrow> nat \<Rightarrow> 'x parameters \<Rightarrow> 'x eval_context" where
  "evaluation_context outer row outer_scope_count ps =
     foldl bind_scope (foldl bind_scope (eval_context_new\<lparr>ec_parameters := ps\<rparr>) (take outer_scope_count outer))
       (wk_scopes row)"

definition combined_scopes :: "'x scope_record list \<Rightarrow> 'x working_row \<Rightarrow> 'x scope_record list" where
  "combined_scopes outer row = outer @ wk_scopes row"

section \<open>Errors\<close>

definition memory_exec_001 :: diagnostic where
  "memory_exec_001 = diagnostic_error ''MEMORY-EXEC-001'' ''memory execution batch size must be greater than zero''"
definition memory_exec_002 :: diagnostic where
  "memory_exec_002 = diagnostic_error ''MEMORY-EXEC-002'' ''logical plan root was not executed''"
definition memory_exec_003 :: diagnostic where
  "memory_exec_003 = diagnostic_error ''MEMORY-EXEC-003'' ''logical node references an input that has not been executed''"
definition memory_exec_004 :: diagnostic where
  "memory_exec_004 = diagnostic_error ''MEMORY-EXEC-004'' ''logical node is outside the plan''"
definition memory_exec_004_slot :: diagnostic where
  "memory_exec_004_slot = diagnostic_error ''MEMORY-EXEC-004'' ''logical execution result slot is outside the plan''"
definition memory_exec_005 :: diagnostic where
  "memory_exec_005 = diagnostic_error ''MEMORY-EXEC-005'' ''logical plan contains an invalid structural dependency''"
definition memory_exec_005_shape :: diagnostic where
  "memory_exec_005_shape = diagnostic_error ''MEMORY-EXEC-005''
     ''logical plan scope shape references a non-topological input''"
definition memory_exec_007 :: diagnostic where
  "memory_exec_007 = diagnostic_error ''MEMORY-EXEC-007'' ''logical node has no computed source-scope shape''"
definition memory_exists_001 :: diagnostic where
  "memory_exists_001 = diagnostic_error ''MEMORY-EXISTS-001''
     ''correlated existential nesting exceeds the memory execution safety limit''"
definition memory_project_001 :: diagnostic where
  "memory_project_001 = diagnostic_error ''MEMORY-PROJECT-001'' ''scalar projection has no expression''"
definition memory_project_002 :: diagnostic where
  "memory_project_002 = diagnostic_error ''MEMORY-PROJECT-002'' ''record projection names do not match expression width''"
definition execution_limit_004 :: diagnostic where
  "execution_limit_004 = diagnostic_error ''ENGINE-LIMIT-004'' ''memory execution exceeded the configured row limit''"
definition execution_limit_004_overflow :: diagnostic where
  "execution_limit_004_overflow = diagnostic_error ''ENGINE-LIMIT-004'' ''memory stage row count overflowed''"
definition execution_limit_004_product :: diagnostic where
  "execution_limit_004_product = diagnostic_error ''ENGINE-LIMIT-004''
     ''memory join cardinality overflowed before materialization''"
definition execution_limit_005 :: diagnostic where
  "execution_limit_005 = diagnostic_error ''ENGINE-LIMIT-005''
     ''memory execution exceeded the configured materialized-byte limit''"
definition execution_limit_005_result :: diagnostic where
  "execution_limit_005_result = diagnostic_error ''ENGINE-LIMIT-005''
     ''memory execution exceeded the configured result-byte limit''"
definition execution_limit_006 :: diagnostic where
  "execution_limit_006 = diagnostic_error ''ENGINE-LIMIT-006'' ''memory execution exceeded the configured timeout''"

section \<open>Sessions\<close>

text \<open>\<open>xs_exists\<close> is \<open>evaluate_exists\<close> at the current nesting depth.\<close>

record 'x exec_session =
  xs_tables :: "'x tables"
  xs_plan :: "'x logical_plan"
  xs_parameters :: "'x parameters"
  xs_limits :: execution_limits
  xs_late :: bool
  xs_shapes :: "model_def list list"
  xs_exists :: "plan_id \<Rightarrow> 'x scope_record list \<Rightarrow> truth res"

definition session_timeout :: "'x exec_session \<Rightarrow> unit res" where
  "session_timeout E =
     (case el_timeout (xs_limits E) of
        Some timeout \<Rightarrow> if xs_late E then Inl execution_limit_006 else Inr ()
      | None \<Rightarrow> Inr ())"

definition enforce_row_limit :: "execution_limits \<Rightarrow> nat \<Rightarrow> unit res" where
  "enforce_row_limit L rows =
     (case el_max_rows L of
        Some n \<Rightarrow> if rows > n then Inl execution_limit_004 else Inr ()
      | None \<Rightarrow> Inr ())"

definition total_bytes :: "('a \<Rightarrow> nat) \<Rightarrow> 'a list \<Rightarrow> nat" where
  "total_bytes weight rows = foldl (\<lambda>total row. saturating_add_u64 total (weight row)) 0 rows"

definition enforce_bytes :: "execution_limits \<Rightarrow> nat \<Rightarrow> diagnostic \<Rightarrow> unit res" where
  "enforce_bytes L bytes e =
     (case el_max_bytes L of
        Some n \<Rightarrow> if bytes > n then Inl e else Inr ()
      | None \<Rightarrow> Inr ())"

definition enforce_dyn_row_byte_limit :: "execution_limits \<Rightarrow> 'x dyn_row list \<Rightarrow> unit res" where
  "enforce_dyn_row_byte_limit L rows = enforce_bytes L (total_bytes row_bytes rows) execution_limit_005"

definition enforce_working_byte_limit :: "execution_limits \<Rightarrow> 'x working_row list \<Rightarrow> unit res" where
  "enforce_working_byte_limit L rows =
     enforce_bytes L (total_bytes (\<lambda>r. execution_row_bytes (wk_output r)) rows) execution_limit_005"

definition enforce_byte_limit :: "execution_limits \<Rightarrow> 'x execution_row list \<Rightarrow> unit res" where
  "enforce_byte_limit L rows = enforce_bytes L (total_bytes execution_row_bytes rows) execution_limit_005_result"

text \<open>The rows a stage has produced, with their bytes.\<close>

type_synonym 'x stage = "'x working_row list \<times> nat"

definition push_stage_row :: "'x exec_session \<Rightarrow> 'x working_row \<Rightarrow> 'x stage \<Rightarrow> 'x stage res" where
  "push_stage_row E row st =
     and_then (session_timeout E) (\<lambda>_.
     and_then (ok_or (checked_add_usize (length (fst st)) 1) execution_limit_004_overflow) (\<lambda>next_len.
     and_then (enforce_row_limit (xs_limits E) next_len) (\<lambda>_.
       let next_bytes = saturating_add_u64 (snd st) (execution_row_bytes (wk_output row)) in
       and_then (enforce_bytes (xs_limits E) next_bytes execution_limit_005) (\<lambda>_.
         Inr (fst st @ [row], next_bytes)))))"

definition stage_rows :: "'x stage res \<Rightarrow> 'x working_row list res" where
  "stage_rows st = and_then st (\<lambda>st. Inr (fst st))"

definition preflight_product :: "'x exec_session \<Rightarrow> nat \<Rightarrow> nat \<Rightarrow> unit res" where
  "preflight_product E left right =
     and_then (session_timeout E) (\<lambda>_.
     and_then (ok_or (checked_mul_usize left right) execution_limit_004_product) (enforce_row_limit (xs_limits E)))"

section \<open>Evaluation\<close>

definition evaluate_expr :: "'x scalar_ops \<Rightarrow> 'x exec_session \<Rightarrow> 'x logical_expr \<Rightarrow> 'x working_row \<Rightarrow>
    'x scope_record list \<Rightarrow> 'x datum res" where
  "evaluate_expr S E e row outer =
     evaluate_datum_with_exists S e
       (evaluation_context outer row (pe_outer_scope_count e) (xs_parameters E))
       (\<lambda>subquery. xs_exists E subquery (combined_scopes (take (pe_outer_scope_count e) outer) row))"

definition evaluate_projection :: "'x scalar_ops \<Rightarrow> 'x exec_session \<Rightarrow> 'x logical_projection \<Rightarrow> 'x working_row \<Rightarrow>
    'x scope_record list \<Rightarrow> 'x datum res" where
  "evaluate_projection S E p row outer =
     and_then (try_map (\<lambda>e. evaluate_expr S E e row outer) (lp_expressions p)) (\<lambda>values.
     and_then
       (case lp_kind p of
          ProjectValue \<Rightarrow> (case values of v # _ \<Rightarrow> Inr v | [] \<Rightarrow> Inl memory_project_001)
        | ProjectTuple \<Rightarrow> Inr (Value (VTuple values))
        | ProjectRecord \<Rightarrow>
            if length (lp_names p) \<noteq> length values then Inl memory_project_002
            else Inr (Value (VRecord (btree_of_list (zip (lp_names p) values))))) (\<lambda>d.
     and_then (validate_datum (ops_ext S) (lp_ty p) Required d) (\<lambda>_. Inr d)))"

end
