(* ===== verification/Exec_Ops.thy ===== *)
theory Exec_Ops
  imports Exec_Session
begin

text \<open>
  Sorting, duplicate elimination, set operations and joins of the memory executor (\<open>executor/ops.rs\<close>), and the
  operators that \<open>executor.rs\<close> has inline: sources, filters, projections, unnesting and slices.
\<close>

definition memory_filter_001 :: diagnostic where
  "memory_filter_001 = diagnostic_error ''MEMORY-FILTER-001'' ''logical filter did not evaluate to DOL truth''"
definition memory_source_001 :: "string \<Rightarrow> diagnostic" where
  "memory_source_001 key = diagnostic_error ''MEMORY-SOURCE-001''
     (''model `'' @ key @ ''` has no registered memory data'')"
definition memory_source_002 :: diagnostic where
  "memory_source_002 = diagnostic_error ''MEMORY-SOURCE-002''
     ''registered memory model does not match logical source semantics''"
definition memory_unnest_001 :: diagnostic where
  "memory_unnest_001 = diagnostic_error ''MEMORY-UNNEST-001'' ''unnest input is not a logical value row''"
definition memory_unnest_002 :: diagnostic where
  "memory_unnest_002 = diagnostic_error ''MEMORY-UNNEST-002'' ''unnest input did not contain a list value''"
definition memory_sort_001 :: diagnostic where
  "memory_sort_001 = diagnostic_error ''MEMORY-SORT-001'' ''sort key did not provide DOL ordering semantics''"
definition memory_join_001 :: diagnostic where
  "memory_join_001 = diagnostic_error ''MEMORY-JOIN-001'' ''cross join unexpectedly retained a join condition''"
definition memory_join_002 :: diagnostic where
  "memory_join_002 = diagnostic_error ''MEMORY-JOIN-002'' ''conditional join is missing its truth condition''"
definition memory_join_002_pair :: diagnostic where
  "memory_join_002_pair = diagnostic_error ''MEMORY-JOIN-002'' ''conditional join has no condition''"
definition memory_join_003 :: diagnostic where
  "memory_join_003 = diagnostic_error ''MEMORY-JOIN-003'' ''join condition did not evaluate to DOL truth''"

section \<open>Inline operators\<close>

definition execute_source :: "digest \<Rightarrow> 'x exec_session \<Rightarrow> model_def \<Rightarrow> 'x working_row list res" where
  "execute_source B E m =
     and_then (ok_or (map_of (xs_tables E) (md_key m)) (memory_source_001 (md_key m))) (\<lambda>t.
       if fingerprint_model B (mt_model t) \<noteq> fingerprint_model B m then Inl memory_source_002
       else and_then (enforce_row_limit (xs_limits E) (length (mt_rows t))) (\<lambda>_.
            and_then (enforce_dyn_row_byte_limit (xs_limits E) (mt_rows t)) (\<lambda>_.
              Inr (map (\<lambda>row. \<lparr>wk_output = RowModel row, wk_scopes = [ScopePresent row]\<rparr>) (mt_rows t)))))"

definition filter_step :: "'x scalar_ops \<Rightarrow> 'x exec_session \<Rightarrow> 'x logical_expr \<Rightarrow> 'x scope_record list \<Rightarrow>
    'x working_row \<Rightarrow> 'x stage \<Rightarrow> 'x stage res" where
  "filter_step S E condition outer row st =
     and_then (session_timeout E) (\<lambda>_.
     and_then (evaluate_expr S E condition row outer) (\<lambda>d.
       case d of
         Value (VTruth t) \<Rightarrow> if t = TTrue then push_stage_row E row st else Inr st
       | _ \<Rightarrow> Inl memory_filter_001))"

definition execute_filter :: "'x scalar_ops \<Rightarrow> 'x exec_session \<Rightarrow> 'x working_row list \<Rightarrow> 'x scope_record list \<Rightarrow>
    'x logical_expr \<Rightarrow> 'x working_row list res" where
  "execute_filter S E input outer condition =
     stage_rows (try_each (filter_step S E condition outer) input ([], 0))"

definition value_row :: "'x datum \<Rightarrow> 'x working_row" where
  "value_row d = \<lparr>wk_output = RowValue d, wk_scopes = []\<rparr>"

definition execute_project :: "'x scalar_ops \<Rightarrow> 'x exec_session \<Rightarrow> 'x working_row list \<Rightarrow> 'x scope_record list \<Rightarrow>
    'x logical_projection \<Rightarrow> 'x working_row list res" where
  "execute_project S E input outer p =
     stage_rows (try_each (\<lambda>row st.
       and_then (session_timeout E) (\<lambda>_.
       and_then (evaluate_projection S E p row outer) (\<lambda>d. push_stage_row E (value_row d) st))) input ([], 0))"

definition unnest_row :: "'x ext \<Rightarrow> 'x exec_session \<Rightarrow> type_def \<Rightarrow> 'x working_row \<Rightarrow> 'x stage \<Rightarrow> 'x stage res" where
  "unnest_row X E element row st =
     and_then (session_timeout E) (\<lambda>_.
       case wk_output row of
         RowValue (Value (VList ds)) \<Rightarrow>
           try_each (\<lambda>d st. and_then (validate_datum X element Required d) (\<lambda>_. push_stage_row E (value_row d) st)) ds st
       | RowValue (Value _) \<Rightarrow> Inl memory_unnest_002
       | RowValue _ \<Rightarrow> Inr st
       | _ \<Rightarrow> Inl memory_unnest_001)"

definition execute_unnest :: "'x ext \<Rightarrow> 'x exec_session \<Rightarrow> 'x working_row list \<Rightarrow> type_def \<Rightarrow> 'x working_row list res" where
  "execute_unnest X E input element = stage_rows (try_each (unnest_row X E element) input ([], 0))"

text \<open>\<open>usize::try_from(u64)\<close> succeeds on a 64-bit target.\<close>

definition execute_slice :: "'x working_row list \<Rightarrow> nat \<Rightarrow> nat option \<Rightarrow> 'x working_row list" where
  "execute_slice input offset limit =
     take (case limit of Some n \<Rightarrow> n | None \<Rightarrow> usize_max) (drop offset input)"

section \<open>Sorting\<close>

record 'x keyed_row =
  kr_position :: nat
  kr_values :: "'x datum list"
  kr_row :: "'x working_row"

definition directed :: "sort_direction \<Rightarrow> ordering \<Rightarrow> ordering" where
  "directed d c = (case d of Ascending \<Rightarrow> c | Descending \<Rightarrow> reverse_ordering c)"

fun compare_key_values :: "'x ext \<Rightarrow> 'x datum list \<Rightarrow> 'x datum list \<Rightarrow> 'x sort_expr list \<Rightarrow> ordering" where
  "compare_key_values X (l # ls) (r # rs) (k # ks) =
     (let c = directed (se_direction k) (case compare_datums X l r of Some c \<Rightarrow> c | None \<Rightarrow> Equal)
      in if c \<noteq> Equal then c else compare_key_values X ls rs ks)"
| "compare_key_values X _ _ _ = Equal"

definition compare_keys :: "'x ext \<Rightarrow> 'x sort_expr list \<Rightarrow> 'x keyed_row \<Rightarrow> 'x keyed_row \<Rightarrow> ordering" where
  "compare_keys X ks l r =
     (let c = compare_key_values X (kr_values l) (kr_values r) ks
      in if c \<noteq> Equal then c else cmp_of (kr_position l) (kr_position r))"

definition sort_keys :: "'x scalar_ops \<Rightarrow> 'x exec_session \<Rightarrow> 'x scope_record list \<Rightarrow> 'x sort_expr list \<Rightarrow> diagnostic \<Rightarrow>
    'x working_row \<Rightarrow> 'x datum list res" where
  "sort_keys S E outer ks err row =
     and_then (try_map (\<lambda>k. evaluate_expr S E (se_expression k) row outer) ks) (\<lambda>vs.
     and_then (try_all (\<lambda>v. if compare_datums (ops_ext S) v v = None then Inl err else Inr ()) vs) (\<lambda>_. Inr vs))"

definition execute_sort :: "'x scalar_ops \<Rightarrow> 'x exec_session \<Rightarrow> 'x working_row list \<Rightarrow> 'x scope_record list \<Rightarrow>
    'x sort_expr list \<Rightarrow> 'x working_row list res" where
  "execute_sort S E input outer ks =
     and_then (try_map (\<lambda>(position, row).
         and_then (session_timeout E) (\<lambda>_.
         and_then (sort_keys S E outer ks memory_sort_001 row) (\<lambda>vs.
           Inr \<lparr>kr_position = position, kr_values = vs, kr_row = row\<rparr>))) (enumerate 0 input)) (\<lambda>keyed.
     and_then (session_timeout E) (\<lambda>_.
       Inr (map kr_row (sort_by (compare_keys (ops_ext S) ks) keyed))))"

section \<open>Distinct rows and set operations\<close>

definition contains_output :: "digest \<Rightarrow> 'x ext \<Rightarrow> 'x working_row list \<Rightarrow> 'x working_row \<Rightarrow> bool" where
  "contains_output B X rows row \<longleftrightarrow> list_ex (\<lambda>existing. execution_row_eq B X (wk_output existing) (wk_output row)) rows"

definition push_unique :: "digest \<Rightarrow> 'x ext \<Rightarrow> 'x exec_session \<Rightarrow> 'x working_row \<Rightarrow> 'x stage \<Rightarrow> 'x stage res" where
  "push_unique B X E row st =
     and_then (session_timeout E) (\<lambda>_.
       if contains_output B X (fst st) row then Inr st else push_stage_row E row st)"

definition execute_distinct :: "digest \<Rightarrow> 'x ext \<Rightarrow> 'x exec_session \<Rightarrow> 'x working_row list \<Rightarrow> 'x working_row list res" where
  "execute_distinct B X E input = stage_rows (try_each (push_unique B X E) input ([], 0))"

definition execute_set :: "digest \<Rightarrow> 'x ext \<Rightarrow> 'x exec_session \<Rightarrow> 'x working_row list \<Rightarrow> 'x working_row list \<Rightarrow>
    set_operator \<Rightarrow> 'x working_row list res" where
  "execute_set B X E left right operator =
     stage_rows (case operator of
       SetUnionAll \<Rightarrow> try_each (push_stage_row E) (left @ right) ([], 0)
     | SetUnion \<Rightarrow> try_each (push_unique B X E) (left @ right) ([], 0)
     | SetIntersect \<Rightarrow> try_each (\<lambda>row st. and_then (session_timeout E) (\<lambda>_.
         if contains_output B X right row then push_unique B X E row st else Inr st)) left ([], 0)
     | SetExcept \<Rightarrow> try_each (\<lambda>row st. and_then (session_timeout E) (\<lambda>_.
         if \<not> contains_output B X right row then push_unique B X E row st else Inr st)) left ([], 0))"

section \<open>Joins\<close>

definition left_nullable :: "join_kind \<Rightarrow> bool" where
  "left_nullable k \<longleftrightarrow> k = JoinRight \<or> k = JoinFull"
definition right_nullable :: "join_kind \<Rightarrow> bool" where
  "right_nullable k \<longleftrightarrow> k = JoinLeft \<or> k = JoinFull"

definition wrap_present :: "'x execution_row \<Rightarrow> bool \<Rightarrow> 'x execution_row" where
  "wrap_present r b = (if b then RowNullable (Some r) else r)"

definition combined_row :: "'x working_row \<Rightarrow> 'x working_row \<Rightarrow> join_kind \<Rightarrow> 'x working_row" where
  "combined_row l r k =
     \<lparr>wk_output = RowProduct [wrap_present (wk_output l) (left_nullable k), wrap_present (wk_output r) (right_nullable k)],
      wk_scopes = wk_scopes l @ wk_scopes r\<rparr>"

definition unmatched_left :: "'x working_row \<Rightarrow> model_def list \<Rightarrow> join_kind \<Rightarrow> 'x working_row" where
  "unmatched_left l right_shape k =
     \<lparr>wk_output = RowProduct [wrap_present (wk_output l) (left_nullable k), RowNullable None],
      wk_scopes = wk_scopes l @ map ScopeNull right_shape\<rparr>"

definition unmatched_right :: "'x working_row \<Rightarrow> model_def list \<Rightarrow> join_kind \<Rightarrow> 'x working_row" where
  "unmatched_right r left_shape k =
     \<lparr>wk_output = RowProduct [RowNullable None, wrap_present (wk_output r) (right_nullable k)],
      wk_scopes = map ScopeNull left_shape @ wk_scopes r\<rparr>"

record 'x join_request =
  jr_left :: "'x working_row list"
  jr_right :: "'x working_row list"
  jr_left_shape :: "model_def list"
  jr_right_shape :: "model_def list"
  jr_outer :: "'x scope_record list"
  jr_kind :: join_kind
  jr_condition :: "'x logical_expr option"

definition pair_matches :: "'x scalar_ops \<Rightarrow> 'x exec_session \<Rightarrow> 'x join_request \<Rightarrow> 'x working_row \<Rightarrow> 'x working_row \<Rightarrow>
    bool res" where
  "pair_matches S E q l r =
     (if jr_kind q = JoinCross then Inr True
      else and_then (ok_or (jr_condition q) memory_join_002_pair) (\<lambda>condition.
           and_then (evaluate_expr S E condition (combined_row l r JoinInner) (jr_outer q)) (\<lambda>d.
             case d of Value (VTruth t) \<Rightarrow> Inr (t = TTrue) | _ \<Rightarrow> Inl memory_join_003)))"

text \<open>The matches of one left row: the flags of the right rows and the stage are carried along.\<close>

fun join_right :: "'x scalar_ops \<Rightarrow> 'x exec_session \<Rightarrow> 'x join_request \<Rightarrow> 'x working_row \<Rightarrow> (nat \<times> 'x working_row) list \<Rightarrow>
    bool \<times> bool list \<times> 'x stage \<Rightarrow> (bool \<times> bool list \<times> 'x stage) res" where
  "join_right S E q l [] st = Inr st"
| "join_right S E q l ((i, r) # rs) (left_matched, right_matched, st) =
     and_then (session_timeout E) (\<lambda>_.
     and_then (pair_matches S E q l r) (\<lambda>b.
       if b then and_then (push_stage_row E (combined_row l r (jr_kind q)) st) (\<lambda>st.
                   join_right S E q l rs (True, right_matched[i := True], st))
       else join_right S E q l rs (left_matched, right_matched, st)))"

definition join_left :: "'x scalar_ops \<Rightarrow> 'x exec_session \<Rightarrow> 'x join_request \<Rightarrow> 'x working_row \<Rightarrow>
    bool list \<times> 'x stage \<Rightarrow> (bool list \<times> 'x stage) res" where
  "join_left S E q l st =
     and_then (join_right S E q l (enumerate 0 (jr_right q)) (False, fst st, snd st)) (\<lambda>(left_matched, right_matched, st).
       if \<not> left_matched \<and> (jr_kind q = JoinLeft \<or> jr_kind q = JoinFull)
       then and_then (push_stage_row E (unmatched_left l (jr_right_shape q) (jr_kind q)) st) (\<lambda>st. Inr (right_matched, st))
       else Inr (right_matched, st))"

definition join_rest :: "'x exec_session \<Rightarrow> 'x join_request \<Rightarrow> bool list \<Rightarrow> nat \<times> 'x working_row \<Rightarrow> 'x stage \<Rightarrow> 'x stage res" where
  "join_rest E q right_matched e st =
     and_then (session_timeout E) (\<lambda>_.
       if vec_get right_matched (fst e) = Some True then Inr st
       else push_stage_row E (unmatched_right (snd e) (jr_left_shape q) (jr_kind q)) st)"

definition execute_join :: "'x scalar_ops \<Rightarrow> 'x exec_session \<Rightarrow> 'x join_request \<Rightarrow> 'x working_row list res" where
  "execute_join S E q =
     (if jr_kind q = JoinCross \<and> \<not> Option.is_none (jr_condition q) then Inl memory_join_001
      else if jr_kind q \<noteq> JoinCross \<and> Option.is_none (jr_condition q) then Inl memory_join_002
      else and_then (if jr_kind q = JoinCross then preflight_product E (length (jr_left q)) (length (jr_right q)) else Inr ()) (\<lambda>_.
        and_then (try_each (join_left S E q) (jr_left q) (replicate (length (jr_right q)) False, [], 0)) (\<lambda>(right_matched, st).
        stage_rows
          (if jr_kind q = JoinRight \<or> jr_kind q = JoinFull
           then try_each (join_rest E q right_matched) (enumerate 0 (jr_right q)) st else Inr st))))"

end
