(* ===== verification/Exec_Aggregate.thy ===== *)
theory Exec_Aggregate
  imports Exec_Ops
begin

text \<open>
  Aggregation and windows of the memory executor (\<open>executor/aggregate.rs\<close>, \<open>executor/window.rs\<close>): groups
  and partitions in order of first appearance, aggregates over their rows, ranks, and sums over row frames.
\<close>

definition memory_agg_001 :: diagnostic where
  "memory_agg_001 = diagnostic_error ''MEMORY-AGG-001'' ''aggregate selection has no result''"
definition memory_agg_002 :: diagnostic where
  "memory_agg_002 = diagnostic_error ''MEMORY-AGG-002'' ''aggregate row count overflowed''"
definition memory_agg_003 :: diagnostic where
  "memory_agg_003 = diagnostic_error ''MEMORY-AGG-003'' ''aggregate input did not provide DOL ordering semantics''"
definition memory_agg_004 :: diagnostic where
  "memory_agg_004 = diagnostic_error ''MEMORY-AGG-004'' ''aggregate operation requires an input expression''"
definition memory_window_001 :: diagnostic where
  "memory_window_001 = diagnostic_error ''MEMORY-WINDOW-001''
     ''window execution did not produce one value per input row''"
definition memory_window_002 :: diagnostic where
  "memory_window_002 = diagnostic_error ''MEMORY-WINDOW-002'' ''window partition references an invalid row''"
definition memory_window_003 :: diagnostic where
  "memory_window_003 = diagnostic_error ''MEMORY-WINDOW-003'' ''window order key did not provide DOL ordering semantics''"
definition memory_window_004 :: diagnostic where
  "memory_window_004 = diagnostic_error ''MEMORY-WINDOW-004'' ''window rank lost its previous peer''"
definition memory_window_006 :: diagnostic where
  "memory_window_006 = diagnostic_error ''MEMORY-WINDOW-006'' ''window result index is outside the input''"
definition memory_window_007 :: diagnostic where
  "memory_window_007 = diagnostic_error ''MEMORY-WINDOW-007'' ''window sum is missing its input expression''"
definition memory_window_008 :: diagnostic where
  "memory_window_008 = diagnostic_error ''MEMORY-WINDOW-008'' ''window sum is missing its explicit rows frame''"
definition memory_window_009 :: diagnostic where
  "memory_window_009 = diagnostic_error ''MEMORY-WINDOW-009'' ''window frame references an invalid ordered row''"
definition memory_window_010 :: diagnostic where
  "memory_window_010 = diagnostic_error ''MEMORY-WINDOW-010'' ''window frame references an invalid input row''"

definition memory_window_011 :: diagnostic where
  "memory_window_011 = diagnostic_error ''MEMORY-WINDOW-011'' ''window position is outside partition''"

section \<open>Grouping\<close>

text \<open>Groups in order of the first row of each key; the same loop collects the rows of a group and the
  indices of a partition.\<close>

fun add_to_group :: "'x ext \<Rightarrow> 'x datum \<Rightarrow> 'a \<Rightarrow> ('x datum option \<times> 'a list) list \<Rightarrow> ('x datum option \<times> 'a list) list" where
  "add_to_group X key a [] = [(Some key, [a])]"
| "add_to_group X key a ((k, as) # groups) =
     (if (case k of Some k \<Rightarrow> datum_eq X k key | None \<Rightarrow> False) then (k, as @ [a]) # groups
      else (k, as) # add_to_group X key a groups)"

definition group_step :: "'x scalar_ops \<Rightarrow> 'x exec_session \<Rightarrow> 'x scope_record list \<Rightarrow> 'x logical_projection \<Rightarrow>
    'x working_row \<times> 'a \<Rightarrow> ('x datum option \<times> 'a list) list \<Rightarrow> ('x datum option \<times> 'a list) list res" where
  "group_step S E outer p e groups =
     and_then (session_timeout E) (\<lambda>_.
     and_then (evaluate_projection S E p (fst e) outer) (\<lambda>key. Inr (add_to_group (ops_ext S) key (snd e) groups)))"

definition build_groups :: "'x scalar_ops \<Rightarrow> 'x exec_session \<Rightarrow> 'x working_row list \<Rightarrow> 'x scope_record list \<Rightarrow>
    'x logical_projection option \<Rightarrow> ('x datum option \<times> 'x working_row list) list res" where
  "build_groups S E input outer groups =
     (case groups of
        None \<Rightarrow> Inr [(None, input)]
      | Some p \<Rightarrow> try_each (group_step S E outer p) (zip input input) [])"

definition build_partitions :: "'x scalar_ops \<Rightarrow> 'x exec_session \<Rightarrow> 'x working_row list \<Rightarrow> 'x scope_record list \<Rightarrow>
    'x logical_projection option \<Rightarrow> ('x datum option \<times> nat list) list res" where
  "build_partitions S E input outer groups =
     (case groups of
        None \<Rightarrow> Inr [(None, [0..<length input])]
      | Some p \<Rightarrow> try_each (group_step S E outer p) (zip input [0..<length input]) [])"

section \<open>Aggregates\<close>

definition required_input :: "'x logical_aggregate \<Rightarrow> 'x logical_expr res" where
  "required_input a = ok_or (la_input a) memory_agg_004"

definition count_step :: "'x scalar_ops \<Rightarrow> 'x exec_session \<Rightarrow> 'x scope_record list \<Rightarrow> 'x logical_expr \<Rightarrow>
    'x working_row \<Rightarrow> nat \<Rightarrow> nat res" where
  "count_step S E outer input row n =
     and_then (session_timeout E) (\<lambda>_.
     and_then (evaluate_expr S E input row outer) (\<lambda>d.
       case d of
         Value _ \<Rightarrow> if n + 1 < 2 ^ 128 then Inr (n + 1) else Inl memory_agg_002
       | _ \<Rightarrow> Inr n))"

definition concrete_step :: "'x scalar_ops \<Rightarrow> 'x exec_session \<Rightarrow> 'x scope_record list \<Rightarrow> 'x logical_expr \<Rightarrow>
    'x working_row \<Rightarrow> 'x val list \<Rightarrow> 'x val list res" where
  "concrete_step S E outer input row vs =
     and_then (session_timeout E) (\<lambda>_.
     and_then (evaluate_expr S E input row outer) (\<lambda>d.
       Inr (case d of Value v \<Rightarrow> vs @ [v] | _ \<Rightarrow> vs)))"

definition evaluate_sum_for_rows :: "'x scalar_ops \<Rightarrow> 'x exec_session \<Rightarrow> 'x working_row list \<Rightarrow> 'x scope_record list \<Rightarrow>
    'x logical_expr \<Rightarrow> 'x datum res" where
  "evaluate_sum_for_rows S E rows outer input =
     and_then (try_each (concrete_step S E outer input) rows []) (\<lambda>concrete.
       if concrete = [] then Inr Null
       else and_then (sum_exact_values (ops_ext S) concrete) (\<lambda>sum.
            case sum of
              None \<Rightarrow> Inr Null
            | Some v \<Rightarrow> and_then (validate_datum (ops_ext S) (pe_ty input) Optional (Value v)) (\<lambda>_. Inr (Value v))))"

definition extreme_step :: "'x scalar_ops \<Rightarrow> 'x exec_session \<Rightarrow> 'x scope_record list \<Rightarrow> 'x logical_expr \<Rightarrow> bool \<Rightarrow>
    'x working_row \<Rightarrow> 'x datum option \<Rightarrow> 'x datum option res" where
  "extreme_step S E outer input maximum row sel =
     and_then (session_timeout E) (\<lambda>_.
     and_then (evaluate_expr S E input row outer) (\<lambda>candidate.
       if is_absent candidate then Inr sel
       else and_then
         (case sel of
            None \<Rightarrow> Inr True
          | Some current \<Rightarrow>
              and_then (ok_or (compare_datums (ops_ext S) candidate current) memory_agg_003) (\<lambda>c.
                Inr (if maximum then c = Greater else c = Less))) (\<lambda>replace.
         Inr (if replace then Some candidate else sel))))"

definition evaluate_extreme :: "'x scalar_ops \<Rightarrow> 'x exec_session \<Rightarrow> 'x working_row list \<Rightarrow> 'x scope_record list \<Rightarrow>
    'x logical_expr \<Rightarrow> bool \<Rightarrow> 'x datum res" where
  "evaluate_extreme S E rows outer input maximum =
     and_then (try_each (extreme_step S E outer input maximum) rows None) (\<lambda>sel.
       Inr (case sel of Some d \<Rightarrow> d | None \<Rightarrow> Null))"

definition evaluate_one :: "'x scalar_ops \<Rightarrow> 'x exec_session \<Rightarrow> 'x working_row list \<Rightarrow> 'x scope_record list \<Rightarrow>
    'x logical_aggregate \<Rightarrow> 'x datum res" where
  "evaluate_one S E rows outer a =
     and_then
       (case la_kind a of
          CountRows \<Rightarrow> Inr (Value (VUInt (of_nat (length rows))))
        | CountPresent \<Rightarrow>
            and_then (required_input a) (\<lambda>input.
            and_then (try_each (count_step S E outer input) rows 0) (\<lambda>n. Inr (Value (VUInt (of_nat n)))))
        | AggregateSum \<Rightarrow> and_then (required_input a) (evaluate_sum_for_rows S E rows outer)
        | AggregateMin \<Rightarrow> and_then (required_input a) (\<lambda>input. evaluate_extreme S E rows outer input False)
        | AggregateMax \<Rightarrow> and_then (required_input a) (\<lambda>input. evaluate_extreme S E rows outer input True)) (\<lambda>d.
     and_then (validate_datum (ops_ext S) (la_ty a) Required d) (\<lambda>_. Inr d))"

definition evaluate_selection :: "'x scalar_ops \<Rightarrow> 'x exec_session \<Rightarrow> 'x working_row list \<Rightarrow> 'x scope_record list \<Rightarrow>
    'x aggregate_selection \<Rightarrow> 'x datum res" where
  "evaluate_selection S E rows outer s =
     and_then (try_map (evaluate_one S E rows outer) (ag_aggregates s)) (\<lambda>values.
     and_then
       (case ag_kind s of
          SelectValue \<Rightarrow> (case values of v # _ \<Rightarrow> Inr v | [] \<Rightarrow> Inl memory_agg_001)
        | SelectTuple \<Rightarrow> Inr (Value (VTuple values))) (\<lambda>d.
     and_then (validate_datum (ops_ext S) (ag_ty s) Required d) (\<lambda>_. Inr d)))"

definition execute_aggregate :: "'x scalar_ops \<Rightarrow> 'x exec_session \<Rightarrow> 'x working_row list \<Rightarrow> 'x scope_record list \<Rightarrow>
    'x logical_projection option \<Rightarrow> 'x aggregate_selection \<Rightarrow> 'x working_row list res" where
  "execute_aggregate S E input outer groups s =
     and_then (build_groups S E input outer groups) (\<lambda>grouped.
       stage_rows (try_each (\<lambda>(key, rows) st.
         and_then (session_timeout E) (\<lambda>_.
         and_then (evaluate_selection S E rows outer s) (\<lambda>aggregate.
           push_stage_row E
             (value_row (case key of Some k \<Rightarrow> Value (VTuple [k, aggregate]) | None \<Rightarrow> aggregate)) st))) grouped ([], 0)))"

section \<open>Windows\<close>

record 'x ordered_row =
  or_input_index :: nat
  or_original_position :: nat
  or_keys :: "'x datum list"

definition compare_ordered_rows :: "'x ext \<Rightarrow> 'x sort_expr list \<Rightarrow> 'x ordered_row \<Rightarrow> 'x ordered_row \<Rightarrow> ordering" where
  "compare_ordered_rows X order l r =
     (let c = compare_key_values X (or_keys l) (or_keys r) order
      in if c \<noteq> Equal then c else cmp_of (or_original_position l) (or_original_position r))"

definition order_partition :: "'x scalar_ops \<Rightarrow> 'x exec_session \<Rightarrow> 'x working_row list \<Rightarrow> 'x scope_record list \<Rightarrow>
    nat list \<Rightarrow> 'x sort_expr list \<Rightarrow> 'x ordered_row list res" where
  "order_partition S E input outer indices order =
     and_then (try_map (\<lambda>(position, i).
         and_then (session_timeout E) (\<lambda>_.
         and_then (ok_or (vec_get input i) memory_window_002) (\<lambda>row.
         and_then (sort_keys S E outer order memory_window_003 row) (\<lambda>keys.
           Inr \<lparr>or_input_index = i, or_original_position = position, or_keys = keys\<rparr>)))) (enumerate 0 indices)) (\<lambda>rows.
       case order of
         [] \<Rightarrow> Inr rows
       | _ \<Rightarrow> and_then (session_timeout E) (\<lambda>_. Inr (sort_by (compare_ordered_rows (ops_ext S) order) rows)))"

definition store_value :: "nat \<Rightarrow> 'x datum \<Rightarrow> 'x datum option list \<Rightarrow> 'x datum option list res" where
  "store_value i d out = (if i < length out then Inr (out[i := Some d]) else Inl memory_window_006)"

definition store_rank :: "nat \<Rightarrow> nat \<Rightarrow> 'x datum option list \<Rightarrow> 'x datum option list res" where
  "store_rank i rank = store_value i (Value (VUInt (of_nat rank)))"

definition assign_row_number :: "'x ordered_row list \<Rightarrow> 'x datum option list \<Rightarrow> 'x datum option list res" where
  "assign_row_number ordered out =
     try_each (\<lambda>(position, row). store_rank (or_input_index row) (saturating_add_usize position 1)) (enumerate 0 ordered) out"

text \<open>The ranks so far and the keys of the previous row.\<close>

fun rank_loop :: "'x ext \<Rightarrow> bool \<Rightarrow> (nat \<times> 'x ordered_row) list \<Rightarrow> nat \<Rightarrow> nat \<Rightarrow> 'x datum list option \<Rightarrow>
    'x datum option list \<Rightarrow> 'x datum option list res" where
  "rank_loop X dense [] rank dense_rank previous out = Inr out"
| "rank_loop X dense ((position, row) # rows) rank dense_rank previous out =
     (let peer = (case previous of None \<Rightarrow> True | Some keys \<Rightarrow> vec_equal (map (datum_eq X) keys) (or_keys row));
          rank = (if peer then rank else saturating_add_usize position 1);
          dense_rank = (if peer then dense_rank else saturating_add_usize dense_rank 1)
      in and_then (store_rank (or_input_index row) (if dense then dense_rank else rank) out)
           (rank_loop X dense rows rank dense_rank (Some (or_keys row))))"

definition assign_rank :: "'x ext \<Rightarrow> 'x ordered_row list \<Rightarrow> bool \<Rightarrow> 'x datum option list \<Rightarrow> 'x datum option list res" where
  "assign_rank X ordered dense out = rank_loop X dense (enumerate 0 ordered) 1 1 None out"

fun frame_start :: "frame_bound \<Rightarrow> nat \<Rightarrow> nat \<Rightarrow> nat" where
  "frame_start UnboundedPreceding position len = 0"
| "frame_start (Preceding d) position len = position - unat d"
| "frame_start CurrentRow position len = min position len"
| "frame_start (Following d) position len = min (saturating_add_usize position (unat d)) len"
| "frame_start UnboundedFollowing position len = len"

fun frame_end_exclusive :: "frame_bound \<Rightarrow> nat \<Rightarrow> nat \<Rightarrow> nat" where
  "frame_end_exclusive UnboundedPreceding position len = 0"
| "frame_end_exclusive (Preceding d) position len =
     (if unat d > position then 0 else min (saturating_add_usize (position - unat d) 1) len)"
| "frame_end_exclusive CurrentRow position len = min (saturating_add_usize position 1) len"
| "frame_end_exclusive (Following d) position len =
     min (saturating_add_usize (saturating_add_usize position (unat d)) 1) len"
| "frame_end_exclusive UnboundedFollowing position len = len"

definition frame_range :: "rows_frame \<Rightarrow> nat \<Rightarrow> nat \<Rightarrow> nat list" where
  "frame_range f position len =
     (let e = frame_end_exclusive (rf_end f) position len
      in [min (frame_start (rf_start f) position len) e..<e])"

definition sum_step :: "'x scalar_ops \<Rightarrow> 'x exec_session \<Rightarrow> 'x working_row list \<Rightarrow> 'x scope_record list \<Rightarrow>
    'x ordered_row list \<Rightarrow> 'x logical_expr \<Rightarrow> rows_frame \<Rightarrow> nat \<Rightarrow> 'x datum option list \<Rightarrow> 'x datum option list res" where
  "sum_step S E input outer ordered e f position out =
     and_then (session_timeout E) (\<lambda>_.
     and_then (try_map (\<lambda>i.
         and_then (ok_or (vec_get ordered i) memory_window_009) (\<lambda>row.
           ok_or (vec_get input (or_input_index row)) memory_window_010)) (frame_range f position (length ordered))) (\<lambda>rows.
     and_then (evaluate_sum_for_rows S E rows outer e) (\<lambda>d.
     and_then (ok_or (vec_get ordered position) memory_window_011) (\<lambda>row.
       store_value (or_input_index row) d out))))"

definition assign_sum :: "'x scalar_ops \<Rightarrow> 'x exec_session \<Rightarrow> 'x working_row list \<Rightarrow> 'x scope_record list \<Rightarrow>
    'x ordered_row list \<Rightarrow> 'x logical_window \<Rightarrow> 'x datum option list \<Rightarrow> 'x datum option list res" where
  "assign_sum S E input outer ordered w out =
     and_then (ok_or (lw_input w) memory_window_007) (\<lambda>e.
     and_then (ok_or (lw_frame w) memory_window_008) (\<lambda>f.
       try_each (sum_step S E input outer ordered e f) [0..<length ordered] out))"

definition window_partition :: "'x scalar_ops \<Rightarrow> 'x exec_session \<Rightarrow> 'x working_row list \<Rightarrow> 'x scope_record list \<Rightarrow>
    'x logical_window \<Rightarrow> 'x datum option \<times> nat list \<Rightarrow> 'x datum option list \<Rightarrow> 'x datum option list res" where
  "window_partition S E input outer w p out =
     and_then (session_timeout E) (\<lambda>_.
     and_then (order_partition S E input outer (snd p) (lw_order w)) (\<lambda>ordered.
       case lw_kind w of
         RowNumber \<Rightarrow> assign_row_number ordered out
       | Rank \<Rightarrow> assign_rank (ops_ext S) ordered False out
       | DenseRank \<Rightarrow> assign_rank (ops_ext S) ordered True out
       | WindowSum \<Rightarrow> assign_sum S E input outer ordered w out))"

definition window_row :: "'x ext \<Rightarrow> 'x exec_session \<Rightarrow> 'x logical_window \<Rightarrow> 'x working_row \<times> 'x datum option \<Rightarrow> 'x stage \<Rightarrow>
    'x stage res" where
  "window_row X E w e st =
     and_then (session_timeout E) (\<lambda>_.
     and_then (ok_or (snd e) memory_window_001) (\<lambda>d.
     and_then (validate_datum X (lw_ty w) Required d) (\<lambda>_.
       push_stage_row E \<lparr>wk_output = RowProduct [wk_output (fst e), RowValue d], wk_scopes = wk_scopes (fst e)\<rparr> st)))"

definition execute_window :: "'x scalar_ops \<Rightarrow> 'x exec_session \<Rightarrow> 'x working_row list \<Rightarrow> 'x scope_record list \<Rightarrow>
    'x logical_window \<Rightarrow> 'x working_row list res" where
  "execute_window S E input outer w =
     and_then (build_partitions S E input outer (lw_partition w)) (\<lambda>partitions.
     and_then (try_each (window_partition S E input outer w) partitions (replicate (length input) None)) (\<lambda>values.
       stage_rows (try_each (window_row (ops_ext S) E w) (zip input values) ([], 0))))"

end
