(* ===== verification/Executor.thy ===== *)
theory Executor
  imports Exec_Aggregate
begin

text \<open>
  \<open>executor.rs\<close> of the memory engine: the stages a plan needs, executed in the order of its nodes, existential
  subqueries by execution of their plan for each row, and the stream of the result. The recursion through
  subqueries is bounded by \<open>MAX_EXISTENTIAL_DEPTH\<close>: the resolver at a depth is defined from the one below.
\<close>

definition MAX_EXISTENTIAL_DEPTH :: nat where
  "MAX_EXISTENTIAL_DEPTH = 256"

section \<open>Which nodes, and their scopes\<close>

lemma flag_decreases: "vec_get ns i = Some False \<Longrightarrow> length (filter Not (ns[i := True])) < length (filter Not ns)"
proof (induction ns arbitrary: i)
  case Nil
  then show ?case by (simp add: vec_get_def)
next
  case (Cons n ns)
  then show ?case by (cases i) (auto simp: vec_get_def split: if_splits)
qed

text \<open>The search of \<open>structural_closure\<close>: flags and a stack, its top first. Ids outside the plan are an error.\<close>

function closure_loop :: "'x logical_node list \<Rightarrow> bool list \<Rightarrow> plan_id list \<Rightarrow> bool list res" where
  "closure_loop nodes needed [] = Inr needed"
| "closure_loop nodes needed (i # stack) =
     (case vec_get needed i of
        None \<Rightarrow> Inl memory_exec_005
      | Some True \<Rightarrow> closure_loop nodes needed stack
      | Some False \<Rightarrow>
          (case vec_get nodes i of
             None \<Rightarrow> Inl memory_exec_004
           | Some node \<Rightarrow> closure_loop nodes (needed[i := True]) (rev (node_inputs node) @ stack)))"
  by pat_completeness auto
termination
  by (relation "measures [\<lambda>(nodes, needed, stack). length (filter Not needed), \<lambda>(nodes, needed, stack). length stack]")
    (auto simp: flag_decreases)

definition structural_closure :: "'x logical_plan \<Rightarrow> plan_id \<Rightarrow> bool list res" where
  "structural_closure plan root = closure_loop (pl_nodes plan) (replicate (length (pl_nodes plan)) False) [root]"

definition shape_for :: "model_def list list \<Rightarrow> plan_id \<Rightarrow> model_def list res" where
  "shape_for shapes i = ok_or (vec_get shapes i) memory_exec_005_shape"

fun node_shape :: "model_def list list \<Rightarrow> 'x logical_node \<Rightarrow> model_def list res" where
  "node_shape shapes (NSource m alias) = Inr [m]"
| "node_shape shapes (NFilter i c) = shape_for shapes i"
| "node_shape shapes (NWindow i w) = shape_for shapes i"
| "node_shape shapes (NSort i ks) = shape_for shapes i"
| "node_shape shapes (NDistinct i) = shape_for shapes i"
| "node_shape shapes (NSlice i offset limit) = shape_for shapes i"
| "node_shape shapes (NProject i p) = Inr []"
| "node_shape shapes (NAggregate i g a) = Inr []"
| "node_shape shapes (NUnnest i ty) = Inr []"
| "node_shape shapes (NJoin l r k c) =
     and_then (shape_for shapes l) (\<lambda>ls. and_then (shape_for shapes r) (\<lambda>rs. Inr (ls @ rs)))"
| "node_shape shapes (NSet l r s) = shape_for shapes l"

definition scope_shapes :: "'x logical_plan \<Rightarrow> model_def list list res" where
  "scope_shapes plan =
     try_each (\<lambda>node shapes. and_then (node_shape shapes node) (\<lambda>s. Inr (shapes @ [s]))) (pl_nodes plan) []"

section \<open>Stages\<close>

type_synonym 'x stage_results = "'x working_row list option list"

definition input_rows :: "'x stage_results \<Rightarrow> plan_id \<Rightarrow> 'x working_row list res" where
  "input_rows results i = ok_or (case vec_get results i of Some r \<Rightarrow> r | None \<Rightarrow> None) memory_exec_003"

definition scope_shape :: "'x exec_session \<Rightarrow> plan_id \<Rightarrow> model_def list res" where
  "scope_shape E i = ok_or (vec_get (xs_shapes E) i) memory_exec_007"

fun execute_stage :: "digest \<Rightarrow> 'x scalar_ops \<Rightarrow> 'x exec_session \<Rightarrow> 'x scope_record list \<Rightarrow> 'x stage_results \<Rightarrow>
    'x logical_node \<Rightarrow> 'x working_row list res" where
  "execute_stage B S E outer results (NSource m alias) = execute_source B E m"
| "execute_stage B S E outer results (NFilter i c) =
     and_then (input_rows results i) (\<lambda>input. execute_filter S E input outer c)"
| "execute_stage B S E outer results (NProject i p) =
     and_then (input_rows results i) (\<lambda>input. execute_project S E input outer p)"
| "execute_stage B S E outer results (NAggregate i g a) =
     and_then (input_rows results i) (\<lambda>input. execute_aggregate S E input outer g a)"
| "execute_stage B S E outer results (NUnnest i element) =
     and_then (input_rows results i) (\<lambda>input. execute_unnest (ops_ext S) E input element)"
| "execute_stage B S E outer results (NWindow i w) =
     and_then (input_rows results i) (\<lambda>input. execute_window S E input outer w)"
| "execute_stage B S E outer results (NSort i ks) =
     and_then (input_rows results i) (\<lambda>input. execute_sort S E input outer ks)"
| "execute_stage B S E outer results (NDistinct i) =
     and_then (input_rows results i) (\<lambda>input. execute_distinct B (ops_ext S) E input)"
| "execute_stage B S E outer results (NSlice i offset limit) =
     and_then (input_rows results i) (\<lambda>input. Inr (execute_slice input offset limit))"
| "execute_stage B S E outer results (NJoin l r k c) =
     and_then (input_rows results l) (\<lambda>left_rows.
     and_then (input_rows results r) (\<lambda>right_rows.
     and_then (scope_shape E l) (\<lambda>left_shape.
     and_then (scope_shape E r) (\<lambda>right_shape.
       execute_join S E \<lparr>jr_left = left_rows, jr_right = right_rows, jr_left_shape = left_shape,
         jr_right_shape = right_shape, jr_outer = outer, jr_kind = k, jr_condition = c\<rparr>))))"
| "execute_stage B S E outer results (NSet l r operator) =
     and_then (input_rows results l) (\<lambda>left.
     and_then (input_rows results r) (\<lambda>right. execute_set B (ops_ext S) E left right operator))"

definition execute_index :: "digest \<Rightarrow> 'x scalar_ops \<Rightarrow> 'x exec_session \<Rightarrow> 'x scope_record list \<Rightarrow> bool list \<Rightarrow>
    nat \<Rightarrow> 'x stage_results \<Rightarrow> 'x stage_results res" where
  "execute_index B S E outer needed i results =
     (if vec_get needed i \<noteq> Some True then Inr results
      else and_then (session_timeout E) (\<lambda>_.
           and_then (ok_or (vec_get (pl_nodes (xs_plan E)) i) memory_exec_004) (\<lambda>node.
           and_then (execute_stage B S E outer results node) (\<lambda>rows.
           and_then (enforce_row_limit (xs_limits E) (length rows)) (\<lambda>_.
           and_then (enforce_working_byte_limit (xs_limits E) rows) (\<lambda>_.
             if i < length results then Inr (results[i := Some rows]) else Inl memory_exec_004_slot))))))"

definition execute_subplan :: "digest \<Rightarrow> 'x scalar_ops \<Rightarrow> 'x exec_session \<Rightarrow> plan_id \<Rightarrow> 'x scope_record list \<Rightarrow>
    'x working_row list res" where
  "execute_subplan B S E root outer =
     and_then (session_timeout E) (\<lambda>_.
     and_then (structural_closure (xs_plan E) root) (\<lambda>needed.
     and_then (try_each (execute_index B S E outer needed) [0..<Suc root]
         (replicate (length (pl_nodes (xs_plan E))) None)) (\<lambda>results.
       ok_or (case vec_get results root of Some r \<Rightarrow> r | None \<Rightarrow> None) memory_exec_002)))"

text \<open>\<open>evaluate_exists\<close> with so many nested subqueries still allowed.\<close>

primrec evaluate_exists :: "nat \<Rightarrow> digest \<Rightarrow> 'x scalar_ops \<Rightarrow> 'x exec_session \<Rightarrow> plan_id \<Rightarrow> 'x scope_record list \<Rightarrow> truth res" where
  "evaluate_exists 0 B S E = (\<lambda>subquery outer. Inl memory_exists_001)"
| "evaluate_exists (Suc n) B S E =
     (\<lambda>subquery outer.
        and_then (execute_subplan B S (E\<lparr>xs_exists := evaluate_exists n B S E\<rparr>) subquery outer) (\<lambda>rows.
          Inr (if rows = [] then TFalse else TTrue)))"

definition session_at :: "nat \<Rightarrow> digest \<Rightarrow> 'x scalar_ops \<Rightarrow> 'x exec_session \<Rightarrow> 'x exec_session" where
  "session_at n B S E = E\<lparr>xs_exists := evaluate_exists n B S E\<rparr>"

section \<open>Streams\<close>

record 'x memory_stream =
  ms_output :: plan_output
  ms_rows :: "'x execution_row list"
  ms_batch_rows :: nat
  ms_cancelled :: bool

definition memory_stream_new :: "plan_output \<Rightarrow> 'x execution_row list \<Rightarrow> nat \<Rightarrow> 'x memory_stream" where
  "memory_stream_new out rows n = \<lparr>ms_output = out, ms_rows = rows, ms_batch_rows = n, ms_cancelled = False\<rparr>"

definition memory_next_batch :: "'x memory_stream \<Rightarrow> ('x execution_batch option) res \<times> 'x memory_stream" where
  "memory_next_batch s =
     (case ms_rows s of
        [] \<Rightarrow> (Inr None, s)
      | _ \<Rightarrow>
          (if ms_cancelled s then (Inr None, s)
           else let n = min (ms_batch_rows s) (length (ms_rows s))
                in (Inr (Some \<lparr>eb_output = ms_output s, eb_rows = take n (ms_rows s)\<rparr>),
                    s\<lparr>ms_rows := drop n (ms_rows s)\<rparr>)))"

definition memory_cancel :: "'x memory_stream \<Rightarrow> 'x memory_stream" where
  "memory_cancel s = s\<lparr>ms_cancelled := True, ms_rows := []\<rparr>"

definition memory_stream_ops :: "('x, 'x memory_stream) data_stream" where
  "memory_stream_ops = \<lparr>ds_next = memory_next_batch, ds_cancel = memory_cancel\<rparr>"

section \<open>Execution\<close>

definition session_new :: "'x tables \<Rightarrow> 'x logical_plan \<Rightarrow> 'x parameters \<Rightarrow> execution_options \<Rightarrow> bool \<Rightarrow>
    'x exec_session res" where
  "session_new tables plan ps options late =
     and_then (scope_shapes plan) (\<lambda>shapes.
       Inr \<lparr>xs_tables = tables, xs_plan = plan, xs_parameters = ps, xs_limits = eo_limits options, xs_late = late,
            xs_shapes = shapes, xs_exists = (\<lambda>_ _. Inl memory_exists_001)\<rparr>)"

definition execute :: "digest \<Rightarrow> 'x scalar_ops \<Rightarrow> bool \<Rightarrow> 'x tables \<Rightarrow> 'x logical_plan \<Rightarrow> 'x parameters \<Rightarrow>
    execution_options \<Rightarrow> 'x memory_stream res" where
  "execute B S late tables plan ps options =
     and_then (validate_plan (eo_limits options) plan) (\<lambda>_.
       if eo_batch_rows options = 0 then Inl memory_exec_001
       else and_then (session_new tables plan ps options late) (\<lambda>E.
            and_then (execute_subplan B S (session_at MAX_EXISTENTIAL_DEPTH B S E) (pl_root plan) []) (\<lambda>root.
              let rows = map wk_output root in
              and_then (enforce_byte_limit (eo_limits options) rows) (\<lambda>_.
              and_then (session_timeout E) (\<lambda>_.
                Inr (memory_stream_new (pl_output plan) rows (eo_batch_rows options)))))))"

end
