(* ===== verification/Exec_Algebra.thy ===== *)
theory Exec_Algebra
  imports Executor
begin

text \<open>
  The relational algebra that the memory executor implements: what each operator computes, without the
  stages, limits and deadlines of the executor, and that every execution that succeeds computes it.
\<close>

section \<open>The algebra\<close>

fun holds_true :: "'x datum res \<Rightarrow> bool" where
  "holds_true (Inr (Value (VTruth TTrue))) = True"
| "holds_true _ = False"

definition filter_rows :: "'x scalar_ops \<Rightarrow> 'x exec_session \<Rightarrow> 'x working_row list \<Rightarrow> 'x scope_record list \<Rightarrow>
    'x logical_expr \<Rightarrow> 'x working_row list" where
  "filter_rows S E input outer c = filter (\<lambda>row. holds_true (evaluate_expr S E c row outer)) input"

definition project_rows :: "'x scalar_ops \<Rightarrow> 'x exec_session \<Rightarrow> 'x working_row list \<Rightarrow> 'x scope_record list \<Rightarrow>
    'x logical_projection \<Rightarrow> 'x working_row list" where
  "project_rows S E input outer p = map (\<lambda>row. value_row (projr (evaluate_projection S E p row outer))) input"

definition unnest_rows :: "'x working_row list \<Rightarrow> 'x working_row list" where
  "unnest_rows input =
     concat (map (\<lambda>row. case wk_output row of RowValue (Value (VList ds)) \<Rightarrow> map value_row ds | _ \<Rightarrow> []) input)"

definition sort_rows :: "'x scalar_ops \<Rightarrow> 'x exec_session \<Rightarrow> 'x working_row list \<Rightarrow> 'x scope_record list \<Rightarrow>
    'x sort_expr list \<Rightarrow> 'x working_row list" where
  "sort_rows S E input outer ks =
     map kr_row (sort_by (compare_keys (ops_ext S) ks)
       (map (\<lambda>(position, row). \<lparr>kr_position = position,
          kr_values = map (\<lambda>k. projr (evaluate_expr S E (se_expression k) row outer)) ks, kr_row = row\<rparr>) (enumerate 0 input)))"

definition distinct_rows :: "digest \<Rightarrow> 'x ext \<Rightarrow> 'x working_row list \<Rightarrow> 'x working_row list" where
  "distinct_rows B X input = fold (\<lambda>row rows. if contains_output B X rows row then rows else rows @ [row]) input []"

fun set_rows :: "digest \<Rightarrow> 'x ext \<Rightarrow> 'x working_row list \<Rightarrow> 'x working_row list \<Rightarrow> set_operator \<Rightarrow>
    'x working_row list" where
  "set_rows B X left right SetUnionAll = left @ right"
| "set_rows B X left right SetUnion = distinct_rows B X (left @ right)"
| "set_rows B X left right SetIntersect = distinct_rows B X (filter (contains_output B X right) left)"
| "set_rows B X left right SetExcept = distinct_rows B X (filter (\<lambda>row. \<not> contains_output B X right row) left)"

definition pair_joins :: "'x scalar_ops \<Rightarrow> 'x exec_session \<Rightarrow> 'x join_request \<Rightarrow> 'x working_row \<Rightarrow> 'x working_row \<Rightarrow> bool" where
  "pair_joins S E q l r \<longleftrightarrow>
     (case jr_condition q of
        None \<Rightarrow> True
      | Some c \<Rightarrow> holds_true (evaluate_expr S E c (combined_row l r JoinInner) (jr_outer q)))"

definition left_row_joins :: "'x scalar_ops \<Rightarrow> 'x exec_session \<Rightarrow> 'x join_request \<Rightarrow> 'x working_row \<Rightarrow> 'x working_row list" where
  "left_row_joins S E q l =
     (let partners = filter (pair_joins S E q l) (jr_right q)
      in map (\<lambda>r. combined_row l r (jr_kind q)) partners @
         (if partners = [] \<and> (jr_kind q = JoinLeft \<or> jr_kind q = JoinFull)
          then [unmatched_left l (jr_right_shape q) (jr_kind q)] else []))"

definition join_rows :: "'x scalar_ops \<Rightarrow> 'x exec_session \<Rightarrow> 'x join_request \<Rightarrow> 'x working_row list" where
  "join_rows S E q =
     concat (map (left_row_joins S E q) (jr_left q)) @
     (if jr_kind q = JoinRight \<or> jr_kind q = JoinFull
      then map (\<lambda>r. unmatched_right r (jr_left_shape q) (jr_kind q))
             (filter (\<lambda>r. \<not> list_ex (\<lambda>l. pair_joins S E q l r) (jr_left q)) (jr_right q))
      else [])"

section \<open>Loops over stages\<close>

lemma try_each_fold:
  assumes "\<And>x s t. x \<in> set xs \<Longrightarrow> g x s = Inr t \<Longrightarrow> proj t = h x (proj s)" and "try_each g xs s = Inr t"
  shows "proj t = fold h xs (proj s)"
  using assms
proof (induction xs arbitrary: s)
  case Nil
  then show ?case by simp
next
  case (Cons x xs)
  from Cons.prems(2) obtain u where u: "g x s = Inr u" and rest: "try_each g xs u = Inr t"
    by (auto simp: and_then_Inr)
  from Cons.IH [OF Cons.prems(1) rest] Cons.prems(1) [OF _ u] show ?case by simp
qed

lemma fold_append: "fold (\<lambda>x acc. acc @ f x) xs acc = acc @ concat (map f xs)"
  by (induction xs arbitrary: acc) simp_all

lemma stage_loop:
  assumes "stage_rows (try_each g xs ([], 0)) = Inr rows"
    and "\<And>x st st'. x \<in> set xs \<Longrightarrow> g x st = Inr st' \<Longrightarrow> fst st' = fst st @ f x"
  shows "rows = concat (map f xs)"
proof -
  from assms(1) obtain st where st: "try_each g xs ([], 0) = Inr st" and rows: "rows = fst st"
    by (auto simp: stage_rows_def and_then_Inr)
  from try_each_fold [where proj = fst and h = "\<lambda>x acc. acc @ f x", OF _ st] assms(2) rows
  show ?thesis by (simp add: fold_append)
qed

lemma push_stage_row_rows: "push_stage_row E row st = Inr st' \<Longrightarrow> fst st' = fst st @ [row]"
  by (auto simp: push_stage_row_def result_simps Let_def)

lemma concat_singletons: "concat (map (\<lambda>x. if P x then [x] else []) xs) = filter P xs"
  by (induction xs) simp_all

lemma map_concat_singleton: "concat (map (\<lambda>x. [f x]) xs) = map f xs"
  by (induction xs) simp_all

section \<open>The operators\<close>

lemma filter_step_rows:
  assumes "filter_step S E c outer row st = Inr st'"
  shows "fst st' = fst st @ (if holds_true (evaluate_expr S E c row outer) then [row] else [])"
proof -
  from assms obtain d where d: "evaluate_expr S E c row outer = Inr d"
    and step: "(case d of Value (VTruth t) \<Rightarrow> if t = TTrue then push_stage_row E row st else Inr st
       | _ \<Rightarrow> Inl memory_filter_001) = Inr st'"
    by (auto simp: filter_step_def and_then_Inr)
  from step obtain t where "d = Value (VTruth t)" by (auto split: datum.splits val.splits)
  with step d show ?thesis by (cases t) (auto dest: push_stage_row_rows)
qed

lemma execute_filter_rows: "execute_filter S E input outer c = Inr rows \<Longrightarrow> rows = filter_rows S E input outer c"
  unfolding execute_filter_def filter_rows_def
  by (subst concat_singletons [symmetric], rule stage_loop) (auto dest: filter_step_rows)

lemma execute_project_rows: "execute_project S E input outer p = Inr rows \<Longrightarrow> rows = project_rows S E input outer p"
  unfolding execute_project_def project_rows_def
  by (subst map_concat_singleton [symmetric], rule stage_loop, assumption)
    (auto simp: and_then_Inr dest!: push_stage_row_rows)

lemma unnest_row_rows:
  assumes "unnest_row X E element row st = Inr st'"
  shows "fst st' = fst st @ (case wk_output row of RowValue (Value (VList ds)) \<Rightarrow> map value_row ds | _ \<Rightarrow> [])"
proof (cases "\<exists>ds. wk_output row = RowValue (Value (VList ds))")
  case True
  then obtain ds where ds: "wk_output row = RowValue (Value (VList ds))" by blast
  with assms have loop: "try_each (\<lambda>d st. and_then (validate_datum X element Required d) (\<lambda>_.
       push_stage_row E (value_row d) st)) ds st = Inr st'"
    by (auto simp: unnest_row_def and_then_Inr)
  have "fst st' = fold (\<lambda>d acc. acc @ [value_row d]) ds (fst st)"
    by (rule try_each_fold [where proj = fst, OF _ loop]) (auto simp: and_then_Inr dest!: push_stage_row_rows)
  with ds show ?thesis by (simp add: fold_append map_concat_singleton)
next
  case False
  with assms show ?thesis
    by (auto simp: unnest_row_def and_then_Inr split: execution_row.splits datum.splits val.splits)
qed

lemma execute_unnest_rows: "execute_unnest X E input element = Inr rows \<Longrightarrow> rows = unnest_rows input"
  unfolding execute_unnest_def unnest_rows_def by (rule stage_loop) (auto dest: unnest_row_rows)

lemma sort_keys_values:
  "sort_keys S E outer ks err row = Inr vs \<Longrightarrow> vs = map (\<lambda>k. projr (evaluate_expr S E (se_expression k) row outer)) ks"
  by (auto simp: sort_keys_def and_then_Inr try_map_Inr list_all2_conv_all_nth intro!: nth_equalityI)

lemma try_map_values: "try_map f xs = Inr ys \<Longrightarrow> (\<And>x y. x \<in> set xs \<Longrightarrow> f x = Inr y \<Longrightarrow> y = g x) \<Longrightarrow> ys = map g xs"
  by (induction xs arbitrary: ys) (auto simp: and_then_Inr)

lemma execute_sort_rows:
  assumes "execute_sort S E input outer ks = Inr rows"
  shows "rows = sort_rows S E input outer ks"
proof -
  from assms obtain keyed where keyed: "try_map (\<lambda>(position, row).
         and_then (session_timeout E) (\<lambda>_.
         and_then (sort_keys S E outer ks memory_sort_001 row) (\<lambda>vs.
           Inr \<lparr>kr_position = position, kr_values = vs, kr_row = row\<rparr>))) (enumerate 0 input) = Inr keyed"
    and rows: "rows = map kr_row (sort_by (compare_keys (ops_ext S) ks) keyed)"
    by (auto simp: execute_sort_def and_then_Inr)
  show ?thesis unfolding rows sort_rows_def
    by (rule arg_cong [where f = "\<lambda>k. map kr_row (sort_by (compare_keys (ops_ext S) ks) k)"],
        rule try_map_values [OF keyed])
      (auto simp: and_then_Inr dest!: sort_keys_values)
qed

definition add_unique :: "digest \<Rightarrow> 'x ext \<Rightarrow> 'x working_row \<Rightarrow> 'x working_row list \<Rightarrow> 'x working_row list" where
  "add_unique B X row rows = (if contains_output B X rows row then rows else rows @ [row])"

lemma distinct_rows_fold: "distinct_rows B X input = fold (add_unique B X) input []"
  unfolding distinct_rows_def add_unique_def ..

lemma push_unique_rows: "push_unique B X E row st = Inr st' \<Longrightarrow> fst st' = add_unique B X row (fst st)"
  by (auto simp: push_unique_def and_then_Inr add_unique_def split: if_splits dest: push_stage_row_rows)

lemma fold_stage:
  assumes "stage_rows (try_each g xs ([], 0)) = Inr rows"
    and "\<And>x st st'. x \<in> set xs \<Longrightarrow> g x st = Inr st' \<Longrightarrow> fst st' = h x (fst st)"
  shows "rows = fold h xs []"
proof -
  from assms(1) obtain st where st: "try_each g xs ([], 0) = Inr st" and rows: "rows = fst st"
    by (auto simp: stage_rows_def and_then_Inr)
  from try_each_fold [where proj = fst and h = h, OF _ st] assms(2) rows show ?thesis by simp
qed

lemma fold_filter: "fold (\<lambda>x acc. if P x then f x acc else acc) xs acc = fold f (filter P xs) acc"
  by (induction xs arbitrary: acc) simp_all

lemma execute_distinct_rows: "execute_distinct B X E input = Inr rows \<Longrightarrow> rows = distinct_rows B X input"
  unfolding execute_distinct_def distinct_rows_fold by (erule fold_stage) (rule push_unique_rows)

lemma execute_set_rows:
  assumes "execute_set B X E left right operator = Inr rows"
  shows "rows = set_rows B X left right operator"
proof (cases operator)
  case SetUnion
  with assms have "stage_rows (try_each (push_unique B X E) (left @ right) ([], 0)) = Inr rows" by (simp add: execute_set_def)
  then have "rows = fold (add_unique B X) (left @ right) []" by (rule fold_stage) (rule push_unique_rows)
  with SetUnion show ?thesis by (simp add: distinct_rows_fold)
next
  case SetUnionAll
  with assms have "stage_rows (try_each (push_stage_row E) (left @ right) ([], 0)) = Inr rows" by (simp add: execute_set_def)
  then have "rows = concat (map (\<lambda>r. [r]) (left @ right))" by (rule stage_loop) (rule push_stage_row_rows)
  with SetUnionAll show ?thesis by simp
next
  case SetIntersect
  with assms show ?thesis
    by (auto simp: execute_set_def distinct_rows_fold fold_filter [symmetric] and_then_Inr elim!: fold_stage
        dest!: push_unique_rows)
next
  case SetExcept
  with assms show ?thesis
    by (auto simp: execute_set_def distinct_rows_fold fold_filter [symmetric] and_then_Inr elim!: fold_stage
        dest!: push_unique_rows)
qed

section \<open>Joins\<close>

lemma pair_matches_joins:
  assumes "pair_matches S E q l r = Inr b" and "jr_kind q = JoinCross \<longleftrightarrow> jr_condition q = None"
  shows "b = pair_joins S E q l r"
proof (cases "jr_condition q")
  case None
  with assms show ?thesis by (simp add: pair_matches_def pair_joins_def)
next
  case (Some c)
  with assms obtain d where d: "evaluate_expr S E c (combined_row l r JoinInner) (jr_outer q) = Inr d"
    and b: "(case d of Value (VTruth t) \<Rightarrow> Inr (t = TTrue) | _ \<Rightarrow> Inl memory_join_003) = Inr b"
    by (auto simp: pair_matches_def and_then_Inr)
  from b obtain t where "d = Value (VTruth t)" by (auto split: datum.splits val.splits)
  with b d Some show ?thesis by (cases t) (auto simp: pair_joins_def)
qed

definition joins_on :: "'x scalar_ops \<Rightarrow> 'x exec_session \<Rightarrow> 'x join_request \<Rightarrow> 'x working_row \<Rightarrow> bool list \<Rightarrow> bool list" where
  "joins_on S E q l flags = map (\<lambda>(r, m). m \<or> pair_joins S E q l r) (zip (jr_right q) flags)"

lemma join_right_rows:
  assumes "join_right S E q l (enumerate k rs) (lm, rm, st) = Inr (lm', rm', st')"
    and "jr_kind q = JoinCross \<longleftrightarrow> jr_condition q = None" and "length rm = k + length rs"
  shows "lm' = (lm \<or> filter (pair_joins S E q l) rs \<noteq> []) \<and>
    rm' = take k rm @ map (\<lambda>(r, m). m \<or> pair_joins S E q l r) (zip rs (drop k rm)) \<and>
    fst st' = fst st @ map (\<lambda>r. combined_row l r (jr_kind q)) (filter (pair_joins S E q l) rs)"
  using assms
proof (induction rs arbitrary: k lm rm st)
  case Nil
  then show ?case by simp
next
  case (Cons r rs)
  from Cons.prems obtain b where b: "pair_matches S E q l r = Inr b" by (auto simp: and_then_Inr)
  from pair_matches_joins [OF this Cons.prems(2)] have joins: "b = pair_joins S E q l r" .
  have k: "k < length rm" using Cons.prems(3) by simp
  then have drop: "drop k rm = rm ! k # drop (Suc k) rm" by (simp add: Cons_nth_drop_Suc)
  show ?case
  proof (cases b)
    case True
    with Cons.prems(1) b obtain st1 where push: "push_stage_row E (combined_row l r (jr_kind q)) st = Inr st1"
      and rest: "join_right S E q l (enumerate (Suc k) rs) (True, rm[k := True], st1) = Inr (lm', rm', st')"
      by (auto simp: and_then_Inr)
    from Cons.IH [OF rest Cons.prems(2)] Cons.prems(3) push_stage_row_rows [OF push] True joins k
    show ?thesis by (simp add: drop take_Suc_conv_app_nth)
  next
    case False
    with Cons.prems(1) b have rest: "join_right S E q l (enumerate (Suc k) rs) (lm, rm, st) = Inr (lm', rm', st')"
      by (auto simp: and_then_Inr)
    from Cons.IH [OF rest Cons.prems(2)] Cons.prems(3) False joins k
    show ?thesis by (simp add: drop take_Suc_conv_app_nth)
  qed
qed

lemma join_left_rows:
  assumes "join_left S E q l (rm, st) = Inr (rm', st')"
    and "jr_kind q = JoinCross \<longleftrightarrow> jr_condition q = None" and "length rm = length (jr_right q)"
  shows "rm' = joins_on S E q l rm \<and> fst st' = fst st @ left_row_joins S E q l"
proof -
  from assms(1) obtain lm st1 rm1
    where loop: "join_right S E q l (enumerate 0 (jr_right q)) (False, rm, st) = Inr (lm, rm1, st1)"
      and post: "(if \<not> lm \<and> (jr_kind q = JoinLeft \<or> jr_kind q = JoinFull)
       then and_then (push_stage_row E (unmatched_left l (jr_right_shape q) (jr_kind q)) st1) (\<lambda>st. Inr (rm1, st))
       else Inr (rm1, st1)) = Inr (rm', st')"
    by (auto simp: join_left_def and_then_Inr)
  from join_right_rows [OF loop assms(2)] assms(3) post show ?thesis
    by (auto simp: left_row_joins_def joins_on_def Let_def and_then_Inr split: if_splits dest: push_stage_row_rows)
qed

lemma joins_on_length [simp]: "length rm = length (jr_right q) \<Longrightarrow> length (joins_on S E q l rm) = length (jr_right q)"
  by (simp add: joins_on_def)

lemma join_loop_rows:
  assumes "try_each (join_left S E q) ls (rm, st) = Inr (rm', st')"
    and "jr_kind q = JoinCross \<longleftrightarrow> jr_condition q = None" and "length rm = length (jr_right q)"
  shows "rm' = map (\<lambda>(r, m). m \<or> list_ex (\<lambda>l. pair_joins S E q l r) ls) (zip (jr_right q) rm) \<and>
    fst st' = fst st @ concat (map (left_row_joins S E q) ls)"
  using assms
proof (induction ls arbitrary: rm st)
  case Nil
  then show ?case by (auto intro!: nth_equalityI)
next
  case (Cons l ls)
  from Cons.prems(1) obtain rm1 st1 where one: "join_left S E q l (rm, st) = Inr (rm1, st1)"
    and rest: "try_each (join_left S E q) ls (rm1, st1) = Inr (rm', st')"
    by (auto simp: and_then_Inr)
  from join_left_rows [OF one Cons.prems(2,3)] Cons.IH [OF rest Cons.prems(2)] Cons.prems(3) show ?case
    by (auto simp: joins_on_def intro!: nth_equalityI)
qed

lemma filter_enumerate_flags:
  assumes "length flags = k + length rs" and "\<And>i. i < length rs \<Longrightarrow> flags ! (k + i) = P (rs ! i)"
  shows "concat (map (\<lambda>(i, r). if vec_get flags i = Some True then [] else [f r]) (enumerate k rs)) =
    map f (filter (\<lambda>r. \<not> P r) rs)"
  using assms
proof (induction rs arbitrary: k)
  case Nil
  then show ?case by simp
next
  case (Cons r rs)
  from Cons.IH [of "Suc k"] Cons.prems(1) Cons.prems(2) [of "Suc i" for i] Cons.prems(2) [of 0]
  show ?case by (simp add: vec_get_def)
qed

lemma execute_join_rows:
  assumes "execute_join S E q = Inr rows"
  shows "rows = join_rows S E q"
proof -
  from assms have guard: "jr_kind q = JoinCross \<longleftrightarrow> jr_condition q = None"
    by (cases "jr_condition q") (auto simp: execute_join_def split: if_splits)
  from assms obtain rm st where loop: "try_each (join_left S E q) (jr_left q)
      (replicate (length (jr_right q)) False, [], 0) = Inr (rm, st)"
    and rest: "stage_rows (if jr_kind q = JoinRight \<or> jr_kind q = JoinFull
           then try_each (join_rest E q rm) (enumerate 0 (jr_right q)) st else Inr st) = Inr rows"
    by (auto simp: execute_join_def and_then_Inr split: if_splits)
  from join_loop_rows [OF loop guard]
  have rm: "length rm = length (jr_right q)"
      "\<And>i. i < length (jr_right q) \<Longrightarrow> rm ! i = list_ex (\<lambda>l. pair_joins S E q l (jr_right q ! i)) (jr_left q)"
    and st: "fst st = concat (map (left_row_joins S E q) (jr_left q))"
    by auto
  show ?thesis
  proof (cases "jr_kind q = JoinRight \<or> jr_kind q = JoinFull")
    case True
    with rest obtain st' where st': "try_each (join_rest E q rm) (enumerate 0 (jr_right q)) st = Inr st'"
      and rows: "rows = fst st'" by (auto simp: stage_rows_def and_then_Inr)
    have "fst st' = fold (\<lambda>e acc. acc @ (if vec_get rm (fst e) = Some True then []
        else [unmatched_right (snd e) (jr_left_shape q) (jr_kind q)])) (enumerate 0 (jr_right q)) (fst st)"
      by (rule try_each_fold [where proj = fst, OF _ st']) (auto simp: join_rest_def and_then_Inr split: if_splits dest: push_stage_row_rows)
    also have "\<dots> = fst st @ concat (map (\<lambda>(i, r). if vec_get rm i = Some True then []
        else [unmatched_right r (jr_left_shape q) (jr_kind q)]) (enumerate 0 (jr_right q)))"
      by (simp add: fold_append case_prod_unfold)
    finally have "fst st' = fst st @ concat (map (\<lambda>(i, r). if vec_get rm i = Some True then []
        else [unmatched_right r (jr_left_shape q) (jr_kind q)]) (enumerate 0 (jr_right q)))" .
    then show ?thesis
      using rows True st rm filter_enumerate_flags [of rm 0 "jr_right q" "\<lambda>r. list_ex (\<lambda>l. pair_joins S E q l r) (jr_left q)"]
      by (simp add: join_rows_def)
  next
    case False
    with rest st show ?thesis by (auto simp: join_rows_def stage_rows_def)
  qed
qed

end
