(* ===== verification/Exec_Window_Laws.thy ===== *)
theory Exec_Window_Laws
  imports Exec_Algebra
begin

text \<open>
  Groups, aggregates and windows as the algebra computes them: groups by key in order of first appearance, one
  row per group; a window gives every row its number, rank or framed sum within its ordered partition.
\<close>

section \<open>Groups and aggregates\<close>

definition group_rows :: "'x scalar_ops \<Rightarrow> 'x exec_session \<Rightarrow> 'x scope_record list \<Rightarrow> 'x logical_projection \<Rightarrow>
    ('x working_row \<times> 'a) list \<Rightarrow> ('x datum option \<times> 'a list) list" where
  "group_rows S E outer p xs =
     fold (\<lambda>(row, a). add_to_group (ops_ext S) (projr (evaluate_projection S E p row outer)) a) xs []"

definition aggregate_rows :: "'x scalar_ops \<Rightarrow> 'x exec_session \<Rightarrow> 'x working_row list \<Rightarrow> 'x scope_record list \<Rightarrow>
    'x logical_projection option \<Rightarrow> 'x aggregate_selection \<Rightarrow> 'x working_row list" where
  "aggregate_rows S E input outer groups s =
     map (\<lambda>(key, rows).
         let aggregate = projr (evaluate_selection S E rows outer s)
         in value_row (case key of Some k \<Rightarrow> Value (VTuple [k, aggregate]) | None \<Rightarrow> aggregate))
       (case groups of None \<Rightarrow> [(None, input)] | Some p \<Rightarrow> group_rows S E outer p (zip input input))"

lemma group_loop:
  assumes "try_each (group_step S E outer p) xs [] = Inr groups"
  shows "groups = group_rows S E outer p xs"
proof -
  have "groups = fold (\<lambda>(row, a). add_to_group (ops_ext S) (projr (evaluate_projection S E p row outer)) a) xs []"
    by (rule try_each_fold [where proj = id, OF _ assms, simplified])
      (auto simp: group_step_def and_then_Inr)
  then show ?thesis by (simp add: group_rows_def)
qed

lemma execute_aggregate_rows:
  assumes "execute_aggregate S E input outer groups s = Inr rows"
  shows "rows = aggregate_rows S E input outer groups s"
proof -
  let ?groups = "case groups of None \<Rightarrow> [(None, input)] | Some p \<Rightarrow> group_rows S E outer p (zip input input)"
  let ?row = "\<lambda>(key, rows).
         let aggregate = projr (evaluate_selection S E rows outer s)
         in value_row (case key of Some k \<Rightarrow> Value (VTuple [k, aggregate]) | None \<Rightarrow> aggregate)"
  from assms obtain grouped where "build_groups S E input outer groups = Inr grouped"
    and loop: "stage_rows (try_each (\<lambda>(key, rows) st.
         and_then (session_timeout E) (\<lambda>_.
         and_then (evaluate_selection S E rows outer s) (\<lambda>aggregate.
           push_stage_row E
             (value_row (case key of Some k \<Rightarrow> Value (VTuple [k, aggregate]) | None \<Rightarrow> aggregate)) st))) grouped ([], 0)) = Inr rows"
    by (auto simp: execute_aggregate_def and_then_Inr)
  then have "grouped = ?groups" by (auto simp: build_groups_def dest: group_loop split: option.splits)
  moreover have "rows = concat (map (\<lambda>g. [?row g]) grouped)"
    using loop by (rule stage_loop) (auto simp: and_then_Inr dest!: push_stage_row_rows)
  ultimately show ?thesis by (simp add: aggregate_rows_def map_concat_singleton)
qed

section \<open>Windows\<close>

definition ordered_rows :: "'x scalar_ops \<Rightarrow> 'x exec_session \<Rightarrow> 'x working_row list \<Rightarrow> 'x scope_record list \<Rightarrow>
    'x sort_expr list \<Rightarrow> nat list \<Rightarrow> 'x ordered_row list" where
  "ordered_rows S E input outer order indices =
     (let rows = map (\<lambda>(position, i). \<lparr>or_input_index = i, or_original_position = position,
         or_keys = map (\<lambda>k. projr (evaluate_expr S E (se_expression k) (input ! i) outer)) order\<rparr>) (enumerate 0 indices)
      in if order = [] then rows else sort_by (compare_ordered_rows (ops_ext S) order) rows)"

text \<open>Whether the row at a position begins a new run of peers, and the position where its run begins.\<close>

definition peers :: "'x ext \<Rightarrow> 'x ordered_row list \<Rightarrow> nat \<Rightarrow> bool" where
  "peers X ordered p \<longleftrightarrow> vec_equal (map (datum_eq X) (or_keys (ordered ! p))) (or_keys (ordered ! Suc p))"

primrec run_start :: "'x ext \<Rightarrow> 'x ordered_row list \<Rightarrow> nat \<Rightarrow> nat" where
  "run_start X ordered 0 = 0"
| "run_start X ordered (Suc p) = (if peers X ordered p then run_start X ordered p else Suc p)"

definition run_count :: "'x ext \<Rightarrow> 'x ordered_row list \<Rightarrow> nat \<Rightarrow> nat" where
  "run_count X ordered p = length (filter (\<lambda>q. \<not> peers X ordered q) [0..<p])"

definition frame_rows :: "'x working_row list \<Rightarrow> 'x ordered_row list \<Rightarrow> rows_frame \<Rightarrow> nat \<Rightarrow> 'x working_row list" where
  "frame_rows input ordered f p = map (\<lambda>i. input ! or_input_index (ordered ! i)) (frame_range f p (length ordered))"

definition window_value :: "'x scalar_ops \<Rightarrow> 'x exec_session \<Rightarrow> 'x working_row list \<Rightarrow> 'x scope_record list \<Rightarrow>
    'x logical_window \<Rightarrow> 'x ordered_row list \<Rightarrow> nat \<Rightarrow> 'x datum" where
  "window_value S E input outer w ordered p =
     (case lw_kind w of
        RowNumber \<Rightarrow> Value (VUInt (of_nat (p + 1)))
      | Rank \<Rightarrow> Value (VUInt (of_nat (run_start (ops_ext S) ordered p + 1)))
      | DenseRank \<Rightarrow> Value (VUInt (of_nat (run_count (ops_ext S) ordered p + 1)))
      | WindowSum \<Rightarrow> projr (evaluate_sum_for_rows S E (frame_rows input ordered (the (lw_frame w)) p) outer (the (lw_input w))))"

definition window_values :: "'x scalar_ops \<Rightarrow> 'x exec_session \<Rightarrow> 'x working_row list \<Rightarrow> 'x scope_record list \<Rightarrow>
    'x logical_window \<Rightarrow> nat list \<Rightarrow> 'x datum option list \<Rightarrow> 'x datum option list" where
  "window_values S E input outer w indices out =
     (let ordered = ordered_rows S E input outer (lw_order w) indices
      in fold (\<lambda>(p, row) out. out[or_input_index row := Some (window_value S E input outer w ordered p)])
           (enumerate 0 ordered) out)"

definition window_partitions :: "'x scalar_ops \<Rightarrow> 'x exec_session \<Rightarrow> 'x working_row list \<Rightarrow> 'x scope_record list \<Rightarrow>
    'x logical_projection option \<Rightarrow> nat list list" where
  "window_partitions S E input outer p =
     (case p of
        None \<Rightarrow> [[0..<length input]]
      | Some p \<Rightarrow> map snd (group_rows S E outer p (zip input [0..<length input])))"

definition window_rows :: "'x scalar_ops \<Rightarrow> 'x exec_session \<Rightarrow> 'x working_row list \<Rightarrow> 'x scope_record list \<Rightarrow>
    'x logical_window \<Rightarrow> 'x working_row list" where
  "window_rows S E input outer w =
     map (\<lambda>(row, d). \<lparr>wk_output = RowProduct [wk_output row, RowValue (the d)], wk_scopes = wk_scopes row\<rparr>)
       (zip input (fold (window_values S E input outer w) (window_partitions S E input outer (lw_partition w))
          (replicate (length input) None)))"

lemma order_partition_rows:
  assumes "order_partition S E input outer indices order = Inr ordered"
  shows "ordered = ordered_rows S E input outer order indices"
proof -
  let ?row = "\<lambda>(position, i). \<lparr>or_input_index = i, or_original_position = position,
         or_keys = map (\<lambda>k. projr (evaluate_expr S E (se_expression k) (input ! i) outer)) order\<rparr>"
  from assms obtain rows where rows: "try_map (\<lambda>(position, i).
         and_then (session_timeout E) (\<lambda>_.
         and_then (ok_or (vec_get input i) memory_window_002) (\<lambda>row.
         and_then (sort_keys S E outer order memory_window_003 row) (\<lambda>keys.
           Inr \<lparr>or_input_index = i, or_original_position = position, or_keys = keys\<rparr>)))) (enumerate 0 indices) = Inr rows"
    and ordered: "(case order of [] \<Rightarrow> Inr rows
       | _ \<Rightarrow> and_then (session_timeout E) (\<lambda>_. Inr (sort_by (compare_ordered_rows (ops_ext S) order) rows))) = Inr ordered"
    by (auto simp: order_partition_def and_then_Inr)
  have "rows = map ?row (enumerate 0 indices)"
    by (rule try_map_values [OF rows])
      (auto simp: and_then_Inr ok_or_Inr vec_get_def split: if_splits dest!: sort_keys_values)
  with ordered show ?thesis by (auto simp: ordered_rows_def and_then_Inr split: list.splits)
qed

lemma store_value_rows: "store_value i d out = Inr out' \<Longrightarrow> out' = out[i := Some d]"
  by (auto simp: store_value_def split: if_splits)

lemma enumerate_nth: "(p, row) \<in> set (enumerate 0 xs) \<Longrightarrow> p < length xs \<and> row = xs ! p"
  by (auto simp: in_set_enumerate_eq)

lemma run_count_Suc: "run_count X ordered (Suc p) = run_count X ordered p + (if peers X ordered p then 0 else 1)"
  by (simp add: run_count_def)

lemma run_start_le: "run_start X ordered p \<le> p"
  by (induction p) auto

lemma run_count_le: "run_count X ordered p \<le> p"
  unfolding run_count_def by (metis length_filter_le length_upt minus_nat.diff_0)

lemma rank_loop_rows:
  assumes "rank_loop X dense (enumerate k rows) rank dense_rank previous out = Inr out'"
    and "rows = drop k ordered" and "length ordered \<le> usize_max"
    and "k = 0 \<Longrightarrow> previous = None \<and> rank = 1 \<and> dense_rank = 1"
    and "k \<noteq> 0 \<Longrightarrow> previous = Some (or_keys (ordered ! (k - 1))) \<and> rank = run_start X ordered (k - 1) + 1 \<and>
      dense_rank = run_count X ordered (k - 1) + 1"
  shows "out' = fold (\<lambda>(p, row) out. out[or_input_index row := Some (Value (VUInt (of_nat
      ((if dense then run_count X ordered p else run_start X ordered p) + 1))))]) (enumerate k rows) out"
  using assms
proof (induction rows arbitrary: k rank dense_rank previous out)
  case Nil
  then show ?case by simp
next
  case (Cons row rows)
  have k: "k < length ordered" and row: "row = ordered ! k" and rows: "rows = drop (Suc k) ordered"
    using Cons.prems(2) by (metis drop_all linorder_not_le list.distinct(1))
      (metis Cons.prems(2) Cons_nth_drop_Suc drop_all linorder_not_le list.distinct(1) list.inject)+
  let ?peer = "case previous of None \<Rightarrow> True | Some keys \<Rightarrow> vec_equal (map (datum_eq X) keys) (or_keys row)"
  let ?rank = "if ?peer then rank else saturating_add_usize k 1"
  let ?dense = "if ?peer then dense_rank else saturating_add_usize dense_rank 1"
  have rank: "?rank = run_start X ordered k + 1"
    using Cons.prems(3,4,5) k row by (cases k) (auto simp: peers_def saturating_add_usize_def)
  have dense: "?dense = run_count X ordered k + 1"
  proof (cases k)
    case 0
    with Cons.prems(4) show ?thesis by (simp add: run_count_def)
  next
    case (Suc j)
    with Cons.prems(3,5) k row run_count_le [of X ordered j] show ?thesis
      by (simp add: peers_def saturating_add_usize_def run_count_Suc)
  qed
  from Cons.prems(1) obtain out1
    where out1: "store_rank (or_input_index row) (if dense then ?dense else ?rank) out = Inr out1"
      and rest: "rank_loop X dense (enumerate (Suc k) rows) ?rank ?dense (Some (or_keys row)) out1 = Inr out'"
    by (auto simp: Let_def and_then_Inr)
  have "out1 = out[or_input_index row := Some (Value (VUInt (of_nat
      ((if dense then run_count X ordered k else run_start X ordered k) + 1))))]"
    using out1 unfolding store_rank_def rank dense by (auto dest: store_value_rows)
  with Cons.IH [OF rest rows Cons.prems(3)] rank dense row show ?case by simp
qed


lemma assign_rank_rows:
  assumes "assign_rank X ordered dense out = Inr out'" and "length ordered \<le> usize_max"
  shows "out' = fold (\<lambda>(p, row) out. out[or_input_index row := Some (Value (VUInt (of_nat
      ((if dense then run_count X ordered p else run_start X ordered p) + 1))))]) (enumerate 0 ordered) out"
  using assms unfolding assign_rank_def by (intro rank_loop_rows) auto

lemma assign_row_number_rows:
  assumes "assign_row_number ordered out = Inr out'" and "length ordered \<le> usize_max"
  shows "out' = fold (\<lambda>(p, row) out. out[or_input_index row := Some (Value (VUInt (of_nat (p + 1))))])
    (enumerate 0 ordered) out"
  using assms(1) unfolding assign_row_number_def
  by (rule try_each_fold [where proj = id, simplified, rotated])
    (use assms(2) in \<open>auto simp: store_rank_def saturating_add_usize_def dest!: store_value_rows enumerate_nth\<close>)

lemma fold_enumerate: "fold (\<lambda>(p, row). f p row) (enumerate k xs) out = fold (\<lambda>p. f p (xs ! (p - k))) [k..<k + length xs] out"
proof (induction xs arbitrary: k out)
  case Nil
  then show ?case by simp
next
  case (Cons x xs)
  have "fold (\<lambda>p. f p (xs ! (p - Suc k))) [Suc k..<Suc k + length xs] (f k x out) =
    fold (\<lambda>p. f p ((x # xs) ! (p - k))) [Suc k..<Suc k + length xs] (f k x out)"
    by (rule fold_cong) (auto simp: nth_Cons' Suc_diff_le)
  with Cons.IH [of "Suc k" "f k x out"] show ?case by (simp add: upt_conv_Cons del: upt_Suc)
qed

lemma frame_rows_found:
  assumes "try_map (\<lambda>i. and_then (ok_or (vec_get ordered i) memory_window_009) (\<lambda>row.
      ok_or (vec_get input (or_input_index row)) memory_window_010)) (frame_range f p (length ordered)) = Inr rows"
  shows "rows = frame_rows input ordered f p"
  unfolding frame_rows_def
  by (rule try_map_values [OF assms]) (auto simp: and_then_Inr ok_or_Inr vec_get_def split: if_splits)

lemma sum_step_rows:
  assumes "sum_step S E input outer ordered e f p out = Inr out'"
  shows "out' = out[or_input_index (ordered ! p) := Some (projr (evaluate_sum_for_rows S E (frame_rows input ordered f p) outer e))]"
proof -
  from assms obtain rows d row where rows: "try_map (\<lambda>i. and_then (ok_or (vec_get ordered i) memory_window_009) (\<lambda>row.
      ok_or (vec_get input (or_input_index row)) memory_window_010)) (frame_range f p (length ordered)) = Inr rows"
    and d: "evaluate_sum_for_rows S E rows outer e = Inr d" and row: "vec_get ordered p = Some row"
    and out: "store_value (or_input_index row) d out = Inr out'"
    by (auto simp: sum_step_def and_then_Inr ok_or_Inr)
  from row have "row = ordered ! p" by (simp add: vec_get_def split: if_splits)
  with frame_rows_found [OF rows] d store_value_rows [OF out] show ?thesis by simp
qed

lemma assign_sum_rows:
  assumes "assign_sum S E input outer ordered w out = Inr out'"
  shows "out' = fold (\<lambda>(p, row) out. out[or_input_index row := Some (projr (evaluate_sum_for_rows S E
    (frame_rows input ordered (the (lw_frame w)) p) outer (the (lw_input w))))]) (enumerate 0 ordered) out"
proof -
  from assms obtain e f where e: "lw_input w = Some e" and f: "lw_frame w = Some f"
    and loop: "try_each (sum_step S E input outer ordered e f) [0..<length ordered] out = Inr out'"
    by (auto simp: assign_sum_def and_then_Inr ok_or_Inr)
  have "out' = fold (\<lambda>p out. out[or_input_index (ordered ! p) := Some (projr (evaluate_sum_for_rows S E
    (frame_rows input ordered f p) outer e))]) [0..<length ordered] out"
    using loop by (rule try_each_fold [where proj = id, simplified, rotated])
      (auto dest: sum_step_rows)
  with e f fold_enumerate [where k = 0 and xs = ordered and out = out] show ?thesis by simp
qed

lemma length_ordered_rows [simp]: "length (ordered_rows S E input outer order indices) = length indices"
  by (simp add: ordered_rows_def Let_def)

lemma window_partition_rows:
  assumes "window_partition S E input outer w part out = Inr out'" and "length (snd part) \<le> usize_max"
  shows "out' = window_values S E input outer w (snd part) out"
proof -
  from assms(1) obtain ordered where ordered: "order_partition S E input outer (snd part) (lw_order w) = Inr ordered"
    and step: "(case lw_kind w of
         RowNumber \<Rightarrow> assign_row_number ordered out
       | Rank \<Rightarrow> assign_rank (ops_ext S) ordered False out
       | DenseRank \<Rightarrow> assign_rank (ops_ext S) ordered True out
       | WindowSum \<Rightarrow> assign_sum S E input outer ordered w out) = Inr out'"
    by (auto simp: window_partition_def and_then_Inr)
  note rows = order_partition_rows [OF ordered]
  with assms(2) have len: "length ordered \<le> usize_max" by simp
  show ?thesis
    using step len unfolding window_values_def Let_def rows [symmetric] window_value_def
    by (cases "lw_kind w") (auto dest: assign_row_number_rows assign_rank_rows assign_sum_rows)
qed

lemma group_sizes:
  "\<forall>g \<in> set groups. length (snd g) \<le> n \<Longrightarrow> \<forall>g \<in> set (add_to_group X key a groups). length (snd g) \<le> Suc n"
  by (induction X key a groups rule: add_to_group.induct) (auto split: if_splits)

lemma group_rows_sizes: "g \<in> set (group_rows S E outer p xs) \<Longrightarrow> length (snd g) \<le> length xs"
proof -
  have "\<forall>g \<in> set (fold (\<lambda>(row, a). add_to_group (ops_ext S) (projr (evaluate_projection S E p row outer)) a) xs groups).
      length (snd g) \<le> n + length xs" if "\<forall>g \<in> set groups. length (snd g) \<le> n" for groups n
    using that
  proof (induction xs arbitrary: groups n)
    case Nil
    then show ?case by simp
  next
    case (Cons x xs)
    from Cons.IH [OF group_sizes [OF Cons.prems]] show ?case by (cases x) simp
  qed
  from this [of "[]" 0] show "g \<in> set (group_rows S E outer p xs) \<Longrightarrow> length (snd g) \<le> length xs"
    by (auto simp: group_rows_def)
qed

lemma execute_window_rows:
  assumes "execute_window S E input outer w = Inr rows" and "length input \<le> usize_max"
  shows "rows = window_rows S E input outer w"
proof -
  from assms(1) obtain partitions out where parts: "build_partitions S E input outer (lw_partition w) = Inr partitions"
    and loop: "try_each (window_partition S E input outer w) partitions (replicate (length input) None) = Inr out"
    and rows: "stage_rows (try_each (window_row (ops_ext S) E w) (zip input out) ([], 0)) = Inr rows"
    by (auto simp: execute_window_def and_then_Inr)
  have part: "map snd partitions = window_partitions S E input outer (lw_partition w)"
    using parts by (auto simp: build_partitions_def window_partitions_def dest!: group_loop split: option.splits)
  have size: "length (snd g) \<le> usize_max" if "g \<in> set partitions" for g
    using parts that assms(2)
    by (auto simp: build_partitions_def dest!: group_loop group_rows_sizes split: option.splits)
  have "out = fold (\<lambda>g. window_values S E input outer w (snd g)) partitions (replicate (length input) None)"
    using loop by (rule try_each_fold [where proj = id, simplified, rotated]) (blast dest: window_partition_rows size)
  then have out: "out = fold (window_values S E input outer w) (window_partitions S E input outer (lw_partition w))
      (replicate (length input) None)"
    by (simp add: fold_map comp_def flip: part)
  have "rows = concat (map (\<lambda>e. [\<lparr>wk_output = RowProduct [wk_output (fst e), RowValue (the (snd e))],
      wk_scopes = wk_scopes (fst e)\<rparr>]) (zip input out))"
    using rows by (rule stage_loop) (auto simp: window_row_def and_then_Inr ok_or_Inr dest!: push_stage_row_rows)
  with out show ?thesis by (simp add: window_rows_def map_concat_singleton case_prod_unfold)
qed

end
