(* ===== verification/Exec_Plan_Laws.thy ===== *)
theory Exec_Plan_Laws
  imports Exec_Window_Laws
begin

text \<open>
  Whole plans: the rows of a plan node in the algebra, and that an execution that succeeds computes the rows of
  its root, each stage it materializes within the limits; existential subqueries answer whether their plan has
  rows.
\<close>

section \<open>The rows of a plan\<close>

definition source_rows :: "'x tables \<Rightarrow> model_def \<Rightarrow> 'x working_row list" where
  "source_rows tables m =
     (case map_of tables (md_key m) of
        None \<Rightarrow> []
      | Some t \<Rightarrow> map (\<lambda>row. \<lparr>wk_output = RowModel row, wk_scopes = [ScopePresent row]\<rparr>) (mt_rows t))"

fun node_rows :: "digest \<Rightarrow> 'x scalar_ops \<Rightarrow> 'x exec_session \<Rightarrow> 'x scope_record list \<Rightarrow> (plan_id \<Rightarrow> 'x working_row list) \<Rightarrow>
    'x logical_node \<Rightarrow> 'x working_row list" where
  "node_rows B S E outer rows (NSource m alias) = source_rows (xs_tables E) m"
| "node_rows B S E outer rows (NFilter i c) = filter_rows S E (rows i) outer c"
| "node_rows B S E outer rows (NProject i p) = project_rows S E (rows i) outer p"
| "node_rows B S E outer rows (NAggregate i g a) = aggregate_rows S E (rows i) outer g a"
| "node_rows B S E outer rows (NUnnest i element) = unnest_rows (rows i)"
| "node_rows B S E outer rows (NWindow i w) = window_rows S E (rows i) outer w"
| "node_rows B S E outer rows (NSort i ks) = sort_rows S E (rows i) outer ks"
| "node_rows B S E outer rows (NDistinct i) = distinct_rows B (ops_ext S) (rows i)"
| "node_rows B S E outer rows (NSlice i offset limit) =
     (case limit of None \<Rightarrow> drop offset (rows i) | Some n \<Rightarrow> take n (drop offset (rows i)))"
| "node_rows B S E outer rows (NJoin l r k c) =
     join_rows S E \<lparr>jr_left = rows l, jr_right = rows r, jr_left_shape = xs_shapes E ! l,
       jr_right_shape = xs_shapes E ! r, jr_outer = outer, jr_kind = k, jr_condition = c\<rparr>"
| "node_rows B S E outer rows (NSet l r operator) = set_rows B (ops_ext S) (rows l) (rows r) operator"

function plan_rows :: "digest \<Rightarrow> 'x scalar_ops \<Rightarrow> 'x exec_session \<Rightarrow> 'x scope_record list \<Rightarrow> plan_id \<Rightarrow> 'x working_row list" where
  "plan_rows B S E outer i =
     (case vec_get (pl_nodes (xs_plan E)) i of
        None \<Rightarrow> []
      | Some node \<Rightarrow> node_rows B S E outer (\<lambda>j. if j < i then plan_rows B S E outer j else []) node)"
  by pat_completeness auto
termination
  by (relation "measure (\<lambda>(B, S, E, outer, i). i)") auto

declare plan_rows.simps [simp del]

text \<open>No vector holds more than \<open>usize::MAX\<close> rows.\<close>

definition tables_fit :: "'x tables \<Rightarrow> bool" where
  "tables_fit tables \<longleftrightarrow> list_all (\<lambda>(key, t). length (mt_rows t) \<le> usize_max) tables"

section \<open>Sizes of stages\<close>

lemma try_each_invariant:
  assumes "try_each g xs s = Inr t" and "P s" and "\<And>x s t. x \<in> set xs \<Longrightarrow> P s \<Longrightarrow> g x s = Inr t \<Longrightarrow> P t"
  shows "P t"
  using assms by (induction xs arbitrary: s) (auto simp: and_then_Inr)

abbreviation stage_fits :: "'x stage \<Rightarrow> bool" where
  "stage_fits st \<equiv> length (fst st) \<le> usize_max"

lemma push_stage_row_fits: "push_stage_row E row st = Inr st' \<Longrightarrow> stage_fits st'"
  by (auto simp: push_stage_row_def result_simps Let_def)

lemma stage_fits_loop:
  assumes "stage_rows (try_each g xs ([], 0)) = Inr rows"
    and "\<And>x st st'. x \<in> set xs \<Longrightarrow> stage_fits st \<Longrightarrow> g x st = Inr st' \<Longrightarrow> stage_fits st'"
  shows "length rows \<le> usize_max"
proof -
  from assms(1) obtain st where st: "try_each g xs ([], 0) = Inr st" and rows: "rows = fst st"
    by (auto simp: stage_rows_def and_then_Inr)
  have "stage_fits st" by (rule try_each_invariant [OF st]) (simp, blast intro: assms(2))
  with rows show ?thesis by simp
qed

lemma filter_step_fits:
  assumes "filter_step S E c outer row st = Inr st'" and "stage_fits st"
  shows "stage_fits st'"
proof -
  from assms(1) obtain d where "evaluate_expr S E c row outer = Inr d" and step: "(case d of Value (VTruth t) \<Rightarrow> if t = TTrue then push_stage_row E row st else Inr st
       | _ \<Rightarrow> Inl memory_filter_001) = Inr st'"
    by (auto simp: filter_step_def and_then_Inr)
  from step obtain t where "d = Value (VTruth t)" by (auto split: datum.splits val.splits)
  with step assms(2) show ?thesis by (auto split: if_splits dest: push_stage_row_fits)
qed

lemma filter_fits: "execute_filter S E input outer c = Inr rows \<Longrightarrow> length rows \<le> usize_max"
  unfolding execute_filter_def by (erule stage_fits_loop) (rule filter_step_fits)

lemma project_fits: "execute_project S E input outer p = Inr rows \<Longrightarrow> length rows \<le> usize_max"
  unfolding execute_project_def by (erule stage_fits_loop) (auto simp: and_then_Inr dest!: push_stage_row_fits)

lemma unnest_row_fits:
  assumes "unnest_row X E element row st = Inr st'" and "stage_fits st"
  shows "stage_fits st'"
proof (cases "\<exists>ds. wk_output row = RowValue (Value (VList ds))")
  case True
  then obtain ds where ds: "wk_output row = RowValue (Value (VList ds))" by blast
  with assms(1) have loop: "try_each (\<lambda>d st. and_then (validate_datum X element Required d) (\<lambda>_.
       push_stage_row E (value_row d) st)) ds st = Inr st'"
    by (auto simp: unnest_row_def and_then_Inr)
  show ?thesis
    by (rule try_each_invariant [OF loop]) (use assms(2) in \<open>auto simp: and_then_Inr dest!: push_stage_row_fits\<close>)
next
  case False
  with assms show ?thesis
    by (auto simp: unnest_row_def and_then_Inr split: execution_row.splits datum.splits val.splits)
qed

lemma unnest_fits: "execute_unnest X E input element = Inr rows \<Longrightarrow> length rows \<le> usize_max"
  unfolding execute_unnest_def by (erule stage_fits_loop) (rule unnest_row_fits)

lemma aggregate_fits: "execute_aggregate S E input outer g a = Inr rows \<Longrightarrow> length rows \<le> usize_max"
  by (auto simp: execute_aggregate_def and_then_Inr dest!: push_stage_row_fits elim!: stage_fits_loop)

lemma window_fits: "execute_window S E input outer w = Inr rows \<Longrightarrow> length rows \<le> usize_max"
  by (auto simp: execute_window_def window_row_def and_then_Inr dest!: push_stage_row_fits elim!: stage_fits_loop)

lemma sort_fits: "execute_sort S E input outer ks = Inr rows \<Longrightarrow> length rows = length input"
  by (drule execute_sort_rows) (simp add: sort_rows_def)

lemma push_unique_fits: "push_unique B X E row st = Inr st' \<Longrightarrow> stage_fits st \<Longrightarrow> stage_fits st'"
  by (auto simp: push_unique_def and_then_Inr split: if_splits dest!: push_stage_row_fits)

lemma distinct_fits: "execute_distinct B X E input = Inr rows \<Longrightarrow> length rows \<le> usize_max"
  unfolding execute_distinct_def by (erule stage_fits_loop) (rule push_unique_fits)

lemma set_fits: "execute_set B X E left right operator = Inr rows \<Longrightarrow> length rows \<le> usize_max"
  unfolding execute_set_def
  by (cases operator; simp; erule stage_fits_loop)
    (auto simp: and_then_Inr split: if_splits dest!: push_stage_row_fits push_unique_fits)

lemma join_right_fits:
  "join_right S E q l rs (lm, rm, st) = Inr (lm', rm', st') \<Longrightarrow> stage_fits st \<Longrightarrow> stage_fits st'"
proof (induction rs arbitrary: lm rm st)
  case Nil
  then show ?case by simp
next
  case (Cons e rs)
  obtain i r where e: "e = (i, r)" by (cases e)
  with Cons.prems(1) obtain b where pair: "pair_matches S E q l r = Inr b" by (auto simp: and_then_Inr)
  show ?case
  proof (cases b)
    case True
    with Cons.prems(1) pair e obtain st1 where push: "push_stage_row E (combined_row l r (jr_kind q)) st = Inr st1"
      and rest: "join_right S E q l rs (True, rm[i := True], st1) = Inr (lm', rm', st')"
      by (auto simp: and_then_Inr)
    show ?thesis by (rule Cons.IH [OF rest push_stage_row_fits [OF push]])
  next
    case False
    with Cons.prems(1) pair e have rest: "join_right S E q l rs (lm, rm, st) = Inr (lm', rm', st')"
      by (auto simp: and_then_Inr)
    show ?thesis by (rule Cons.IH [OF rest Cons.prems(2)])
  qed
qed

lemma join_left_fits:
  assumes "join_left S E q l (rm, st) = Inr (rm', st')" and "stage_fits st"
  shows "stage_fits st'"
proof -
  from assms(1) obtain lm st1 rm1
    where loop: "join_right S E q l (enumerate 0 (jr_right q)) (False, rm, st) = Inr (lm, rm1, st1)"
      and post: "(if \<not> lm \<and> (jr_kind q = JoinLeft \<or> jr_kind q = JoinFull)
       then and_then (push_stage_row E (unmatched_left l (jr_right_shape q) (jr_kind q)) st1) (\<lambda>st. Inr (rm1, st))
       else Inr (rm1, st1)) = Inr (rm', st')"
    by (auto simp: join_left_def and_then_Inr)
  from join_right_fits [OF loop assms(2)] post show ?thesis
    by (auto simp: and_then_Inr split: if_splits dest: push_stage_row_fits)
qed

lemma join_rest_fits: "join_rest E q rm e st = Inr st' \<Longrightarrow> stage_fits st \<Longrightarrow> stage_fits st'"
  by (auto simp: join_rest_def and_then_Inr split: if_splits dest!: push_stage_row_fits)

lemma join_fits:
  assumes "execute_join S E q = Inr rows"
  shows "length rows \<le> usize_max"
proof -
  from assms obtain rm st where loop: "try_each (join_left S E q) (jr_left q)
      (replicate (length (jr_right q)) False, [], 0) = Inr (rm, st)"
    and rest: "stage_rows (if jr_kind q = JoinRight \<or> jr_kind q = JoinFull
           then try_each (join_rest E q rm) (enumerate 0 (jr_right q)) st else Inr st) = Inr rows"
    by (auto simp: execute_join_def and_then_Inr split: if_splits)
  have fits: "stage_fits (snd (rm, st))"
    by (rule try_each_invariant [where P = "\<lambda>t. stage_fits (snd t)", OF loop]) (auto dest: join_left_fits)
  show ?thesis
  proof (cases "jr_kind q = JoinRight \<or> jr_kind q = JoinFull")
    case True
    with rest obtain st' where loop: "try_each (join_rest E q rm) (enumerate 0 (jr_right q)) st = Inr st'"
      and rows: "rows = fst st'"
      by (auto simp: stage_rows_def and_then_Inr)
    have "stage_fits st'" by (rule try_each_invariant [OF loop]) (use fits in \<open>auto intro: join_rest_fits\<close>)
    with rows show ?thesis by simp
  next
    case False
    with rest fits show ?thesis by (auto simp: stage_rows_def)
  qed
qed

section \<open>Stages\<close>

lemma execute_source_rows:
  assumes "execute_source B E m = Inr rows"
  shows "rows = source_rows (xs_tables E) m"
  using assms by (auto simp: execute_source_def source_rows_def and_then_Inr ok_or_Inr split: if_splits)

lemma source_fits: "tables_fit tables \<Longrightarrow> length (source_rows tables m) \<le> usize_max"
  by (auto simp: tables_fit_def source_rows_def list_all_iff split: option.splits dest: map_of_SomeD)

definition results_agree :: "digest \<Rightarrow> 'x scalar_ops \<Rightarrow> 'x exec_session \<Rightarrow> 'x scope_record list \<Rightarrow> nat \<Rightarrow> 'x stage_results \<Rightarrow> bool" where
  "results_agree B S E outer k results \<longleftrightarrow>
     (\<forall>j rows. vec_get results j = Some (Some rows) \<longrightarrow>
        j < k \<and> rows = plan_rows B S E outer j \<and> length rows \<le> usize_max \<and>
        enforce_row_limit (xs_limits E) (length rows) = Inr () \<and> enforce_working_byte_limit (xs_limits E) rows = Inr ())"

lemma input_agrees:
  "input_rows results i = Inr rows \<Longrightarrow> results_agree B S E outer k results \<Longrightarrow>
    i < k \<and> rows = plan_rows B S E outer i \<and> length rows \<le> usize_max"
  by (auto simp: input_rows_def ok_or_Inr results_agree_def split: option.splits)

lemma scope_shape_nth: "scope_shape E i = Inr s \<Longrightarrow> s = xs_shapes E ! i"
  by (auto simp: scope_shape_def ok_or_Inr vec_get_def split: if_splits)

lemma slice_rows: "length input \<le> usize_max \<Longrightarrow> execute_slice input offset limit =
    (case limit of None \<Rightarrow> drop offset input | Some n \<Rightarrow> take n (drop offset input))"
  by (cases limit) (simp_all add: execute_slice_def)

lemma execute_stage_rows:
  assumes "execute_stage B S E outer results node = Inr rows" and "results_agree B S E outer i results"
    and "vec_get (pl_nodes (xs_plan E)) i = Some node" and "tables_fit (xs_tables E)"
  shows "rows = plan_rows B S E outer i \<and> length rows \<le> usize_max"
proof -
  note agrees = input_agrees [OF _ assms(2)]
  have plan: "plan_rows B S E outer i = node_rows B S E outer (\<lambda>j. if j < i then plan_rows B S E outer j else []) node"
    using assms(3) by (simp add: plan_rows.simps)
  show ?thesis
  proof (cases node)
    case (NSource m a)
    with assms(1,4) show ?thesis by (auto simp: plan source_fits dest: execute_source_rows)
  next
    case (NFilter j c)
    with assms(1) show ?thesis by (auto simp: plan and_then_Inr dest: agrees filter_fits execute_filter_rows)
  next
    case (NProject j p)
    with assms(1) show ?thesis by (auto simp: plan and_then_Inr dest: agrees project_fits execute_project_rows)
  next
    case (NAggregate j g a)
    with assms(1) show ?thesis by (auto simp: plan and_then_Inr dest: agrees aggregate_fits execute_aggregate_rows)
  next
    case (NUnnest j element)
    with assms(1) show ?thesis by (auto simp: plan and_then_Inr dest: agrees unnest_fits execute_unnest_rows)
  next
    case (NWindow j w)
    with assms(1) obtain input where input: "input_rows results j = Inr input"
      and out: "execute_window S E input outer w = Inr rows" by (auto simp: and_then_Inr)
    from agrees [OF input] out NWindow show ?thesis
      by (auto simp: plan dest: window_fits execute_window_rows)
  next
    case (NSort j ks)
    with assms(1) obtain input where input: "input_rows results j = Inr input"
      and out: "execute_sort S E input outer ks = Inr rows" by (auto simp: and_then_Inr)
    from agrees [OF input] sort_fits [OF out] execute_sort_rows [OF out] NSort show ?thesis by (auto simp: plan)
  next
    case (NDistinct j)
    with assms(1) show ?thesis by (auto simp: plan and_then_Inr dest: agrees distinct_fits execute_distinct_rows)
  next
    case (NSlice j offset limit)
    with assms(1) obtain input where input: "input_rows results j = Inr input"
      and out: "rows = execute_slice input offset limit" by (auto simp: and_then_Inr)
    from agrees [OF input] out NSlice show ?thesis
      by (auto simp: plan slice_rows split: option.splits)
  next
    case (NJoin l r k c)
    with assms(1) show ?thesis
      by (auto simp: plan and_then_Inr dest!: agrees scope_shape_nth dest: join_fits execute_join_rows)
  next
    case (NSet l r operator)
    with assms(1) show ?thesis by (auto simp: plan and_then_Inr dest!: agrees dest: set_fits execute_set_rows)
  qed
qed

lemma execute_index_agrees:
  assumes "execute_index B S E outer needed i results = Inr results'" and "results_agree B S E outer i results"
    and "tables_fit (xs_tables E)"
  shows "results_agree B S E outer (Suc i) results'"
proof (cases "vec_get needed i = Some True")
  case False
  with assms(1,2) show ?thesis by (fastforce simp: execute_index_def results_agree_def)
next
  case True
  with assms(1) obtain node rows where node: "vec_get (pl_nodes (xs_plan E)) i = Some node"
    and stage: "execute_stage B S E outer results node = Inr rows"
    and limits: "enforce_row_limit (xs_limits E) (length rows) = Inr ()" "enforce_working_byte_limit (xs_limits E) rows = Inr ()"
    and results': "results' = results[i := Some rows]"
    by (auto simp: execute_index_def and_then_Inr ok_or_Inr split: if_splits)
  note here = execute_stage_rows [OF stage assms(2) node assms(3)]
  show ?thesis unfolding results_agree_def
  proof (intro allI impI)
    fix j found
    assume found: "vec_get results' j = Some (Some found)"
    show "j < Suc i \<and> found = plan_rows B S E outer j \<and> length found \<le> usize_max \<and>
        enforce_row_limit (xs_limits E) (length found) = Inr () \<and> enforce_working_byte_limit (xs_limits E) found = Inr ()"
    proof (cases "j = i")
      case True
      with found here limits show ?thesis by (auto simp: results' vec_get_def split: if_splits)
    next
      case False
      with found have "vec_get results j = Some (Some found)" by (auto simp: results' vec_get_def split: if_splits)
      with assms(2) show ?thesis unfolding results_agree_def by (metis less_SucI)
    qed
  qed
qed

lemma execute_indices_agree:
  assumes "try_each (execute_index B S E outer needed) [k..<k + n] results = Inr results'"
    and "results_agree B S E outer k results" and "tables_fit (xs_tables E)"
  shows "results_agree B S E outer (k + n) results'"
  using assms
proof (induction n arbitrary: k results)
  case 0
  then show ?case by simp
next
  case (Suc n)
  from Suc.prems(1) obtain r where one: "execute_index B S E outer needed k results = Inr r"
    and rest: "try_each (execute_index B S E outer needed) [Suc k..<Suc k + n] r = Inr results'"
    by (auto simp: upt_conv_Cons and_then_Inr simp del: upt_Suc)
  from Suc.IH [OF rest execute_index_agrees [OF one Suc.prems(2,3)] Suc.prems(3)] show ?case by simp
qed

lemma subplan_rows:
  assumes "execute_subplan B S E root outer = Inr rows" and "tables_fit (xs_tables E)"
  shows "rows = plan_rows B S E outer root \<and> length rows \<le> usize_max \<and>
    enforce_row_limit (xs_limits E) (length rows) = Inr () \<and> enforce_working_byte_limit (xs_limits E) rows = Inr ()"
proof -
  from assms(1) obtain needed results where loop: "try_each (execute_index B S E outer needed) [0..<Suc root]
         (replicate (length (pl_nodes (xs_plan E))) None) = Inr results"
    and rows: "vec_get results root = Some (Some rows)"
    by (auto simp: execute_subplan_def and_then_Inr ok_or_Inr split: option.splits)
  have "results_agree B S E outer 0 (replicate (length (pl_nodes (xs_plan E))) None)"
    by (auto simp: results_agree_def vec_get_def split: if_splits)
  from execute_indices_agree [where k = 0 and n = "Suc root", OF _ this assms(2)] loop
  have "results_agree B S E outer (Suc root) results" by simp
  with rows show ?thesis by (auto simp: results_agree_def)
qed

lemma exists_rows:
  assumes "evaluate_exists (Suc n) B S E subquery outer = Inr t" and "tables_fit (xs_tables E)"
  shows "t = (if plan_rows B S (session_at n B S E) outer subquery = [] then TFalse else TTrue)"
  using assms by (auto simp: and_then_Inr session_at_def dest!: subplan_rows)

end
