(* ===== verification/Exec_Congruence.thy ===== *)
theory Exec_Congruence
  imports Exec_Plan_Laws
begin

text \<open>
  What an execution depends on: the tables, parameters, limits and deadline of its session, and for each
  expression the answers to the existential subqueries it names.
\<close>

definition same_resources :: "'x exec_session \<Rightarrow> 'x exec_session \<Rightarrow> bool" where
  "same_resources E F \<longleftrightarrow> xs_tables E = xs_tables F \<and> xs_parameters E = xs_parameters F \<and> xs_limits E = xs_limits F \<and>
     xs_late E = xs_late F"

lemma same_resources_refl [simp]: "same_resources E (E\<lparr>xs_exists := f\<rparr>)" "same_resources (E\<lparr>xs_exists := f\<rparr>) (E\<lparr>xs_exists := g\<rparr>)"
  by (simp_all add: same_resources_def)

section \<open>Expressions\<close>

definition same_node :: "(nat \<Rightarrow> truth res) \<Rightarrow> (nat \<Rightarrow> truth res) \<Rightarrow> 'x prepared_node \<Rightarrow> 'x prepared_node \<Rightarrow> bool" where
  "same_node rex rex' n n' \<longleftrightarrow> pn_ty n' = pn_ty n \<and>
     (case existential_target (pn_kind n) of
        None \<Rightarrow> pn_kind n' = pn_kind n
      | Some q \<Rightarrow> \<exists>q'. existential_target (pn_kind n') = Some q' \<and> rex' q' = rex q)"

lemma existential_targetD: "existential_target k = Some q \<Longrightarrow> \<exists>f. k = PExists q f"
  by (cases k) simp_all

lemma evaluate_node_same:
  assumes "list_all2 (same_node rex rex') nodes nodes'"
  shows "evaluate_node n S nodes' ctx rex' i = evaluate_node n S nodes ctx rex i"
proof (induction n arbitrary: i)
  case 0
  then show ?case by simp
next
  case (Suc n)
  then have IH: "evaluate_node n S nodes' ctx rex' = evaluate_node n S nodes ctx rex" by (intro ext)
  show ?case
  proof (cases "i < length nodes")
    case False
    with assms show ?thesis by (simp add: vec_get_def list_all2_lengthD)
  next
    case True
    then have node: "vec_get nodes i = Some (nodes ! i)" "vec_get nodes' i = Some (nodes' ! i)"
      using assms by (simp_all add: vec_get_def list_all2_lengthD)
    have same: "same_node rex rex' (nodes ! i) (nodes' ! i)" using assms True by (simp add: list_all2_nthD)
    show ?thesis
    proof (cases "existential_target (pn_kind (nodes ! i))")
      case None
      with same have "pn_kind (nodes' ! i) = pn_kind (nodes ! i)" and "pn_ty (nodes' ! i) = pn_ty (nodes ! i)"
        by (simp_all add: same_node_def)
      with None show ?thesis unfolding evaluate_node.simps node IH ok_or_simps and_then_simps
        by (cases "pn_kind (nodes ! i)") simp_all
    next
      case (Some q)
      with same obtain q' where q': "existential_target (pn_kind (nodes' ! i)) = Some q'" "rex' q' = rex q"
        and ty: "pn_ty (nodes' ! i) = pn_ty (nodes ! i)"
        by (auto simp: same_node_def)
      from existential_targetD [OF Some] existential_targetD [OF q'(1)] q'(2) ty show ?thesis
        by (auto simp: node null_extended_field_def)
    qed
  qed
qed

definition same_expression :: "'x exec_session \<Rightarrow> 'x exec_session \<Rightarrow> 'x logical_expr \<Rightarrow> 'x logical_expr \<Rightarrow> bool" where
  "same_expression E F e e' \<longleftrightarrow> pe_root e' = pe_root e \<and> pe_scopes e' = pe_scopes e \<and>
     pe_outer_scope_count e' = pe_outer_scope_count e \<and> pe_ty e' = pe_ty e \<and>
     (\<forall>outer. list_all2 (same_node (\<lambda>q. xs_exists E q outer) (\<lambda>q. xs_exists F q outer)) (pe_nodes e) (pe_nodes e'))"

lemma evaluate_expr_same:
  fixes E F :: "'x exec_session"
  assumes "same_resources E F" and "same_expression E F e e'"
  shows "evaluate_expr S F e' = evaluate_expr S E e"
proof (intro ext)
  fix row :: "'x working_row" and outer :: "'x scope_record list"
  let ?scopes = "combined_scopes (take (pe_outer_scope_count e) outer) row"
  have "list_all2 (same_node (\<lambda>q. xs_exists E q ?scopes) (\<lambda>q. xs_exists F q ?scopes)) (pe_nodes e) (pe_nodes e')"
    using assms(2) unfolding same_expression_def by blast
  from evaluate_node_same [OF this] list_all2_lengthD [OF this] assms show "evaluate_expr S F e' row outer = evaluate_expr S E e row outer"
    by (simp add: evaluate_expr_def evaluate_datum_with_exists_def same_expression_def same_resources_def
        validate_evaluation_scopes_def)
qed

lemma set_map_filter: "set (List.map_filter f xs) = {y. \<exists>x \<in> set xs. f x = Some y}"
  by (induction xs) (auto simp: map_filter_def split: option.splits)

text \<open>An expression whose subqueries have the same answers; in particular one without subqueries.\<close>

lemma same_expression_refl:
  assumes "\<forall>q \<in> set (collect_existential_dependencies e). xs_exists F q = xs_exists E q"
  shows "same_expression E F e e"
proof -
  have "same_node (\<lambda>q. xs_exists E q outer) (\<lambda>q. xs_exists F q outer) n n" if "n \<in> set (pe_nodes e)" for n outer
  proof (cases "existential_target (pn_kind n)")
    case None
    then show ?thesis by (simp add: same_node_def)
  next
    case (Some q)
    with that have "q \<in> set (collect_existential_dependencies e)"
      unfolding collect_existential_dependencies_def set_map_filter by blast
    with assms Some show ?thesis by (simp add: same_node_def)
  qed
  then show ?thesis by (auto simp: same_expression_def list_all2_same)
qed

section \<open>Operators\<close>

lemma session_timeout_same: "same_resources E F \<Longrightarrow> session_timeout F = session_timeout E"
  by (simp add: same_resources_def session_timeout_def)

lemma xs_limits_same: "same_resources E F \<Longrightarrow> xs_limits F = xs_limits E"
  by (simp add: same_resources_def)

lemma push_stage_row_same:
  assumes "same_resources E F"
  shows "push_stage_row F = push_stage_row E"
  unfolding push_stage_row_def [abs_def] session_timeout_same [OF assms] xs_limits_same [OF assms] ..

lemma preflight_same:
  assumes "same_resources E F"
  shows "preflight_product F = preflight_product E"
  unfolding preflight_product_def [abs_def] session_timeout_same [OF assms] xs_limits_same [OF assms] ..

lemmas resources_same = session_timeout_same push_stage_row_same preflight_same

lemma execute_source_same: "same_resources E F \<Longrightarrow> execute_source B F m = execute_source B E m"
  unfolding same_resources_def by (elim conjE) (simp only: execute_source_def)

lemma execute_filter_same:
  assumes "same_resources E F" and "evaluate_expr S F c' = evaluate_expr S E c"
  shows "execute_filter S F input outer c' = execute_filter S E input outer c"
  unfolding execute_filter_def filter_step_def [abs_def] resources_same [OF assms(1)] assms(2) ..

text \<open>\<open>plain_expressions F E es\<close>: the expressions evaluate alike in both sessions.\<close>

definition plain_expressions :: "'x scalar_ops \<Rightarrow> 'x exec_session \<Rightarrow> 'x exec_session \<Rightarrow> 'x logical_expr list \<Rightarrow> bool" where
  "plain_expressions S E F es \<longleftrightarrow> (\<forall>e \<in> set es. evaluate_expr S F e = evaluate_expr S E e)"

lemma evaluate_projection_same:
  assumes "plain_expressions S E F (lp_expressions p)"
  shows "evaluate_projection S F p row outer = evaluate_projection S E p row outer"
proof -
  have "try_map (\<lambda>e. evaluate_expr S F e row outer) (lp_expressions p) = try_map (\<lambda>e. evaluate_expr S E e row outer) (lp_expressions p)"
    using assms by (intro try_map_cong refl) (simp add: plain_expressions_def)
  then show ?thesis by (simp add: evaluate_projection_def)
qed

lemma execute_project_same:
  assumes "same_resources E F" and "plain_expressions S E F (lp_expressions p)"
  shows "execute_project S F input outer p = execute_project S E input outer p"
  by (simp add: execute_project_def resources_same [OF assms(1)] evaluate_projection_same [OF assms(2)])

lemma execute_unnest_same:
  assumes "same_resources E F"
  shows "execute_unnest X F input element = execute_unnest X E input element"
  unfolding execute_unnest_def unnest_row_def [abs_def] resources_same [OF assms] ..

lemma sort_keys_same:
  assumes "plain_expressions S E F (map se_expression ks)"
  shows "sort_keys S F outer ks err row = sort_keys S E outer ks err row"
proof -
  have "try_map (\<lambda>k. evaluate_expr S F (se_expression k) row outer) ks = try_map (\<lambda>k. evaluate_expr S E (se_expression k) row outer) ks"
    using assms by (intro try_map_cong refl) (simp add: plain_expressions_def)
  then show ?thesis by (simp add: sort_keys_def)
qed

lemma execute_sort_same:
  assumes "same_resources E F" and "plain_expressions S E F (map se_expression ks)"
  shows "execute_sort S F input outer ks = execute_sort S E input outer ks"
  by (simp add: execute_sort_def resources_same [OF assms(1)] sort_keys_same [OF assms(2)])

lemma execute_distinct_same:
  assumes "same_resources E F"
  shows "execute_distinct B X F input = execute_distinct B X E input"
  unfolding execute_distinct_def push_unique_def [abs_def] resources_same [OF assms] ..

lemma execute_set_same:
  assumes "same_resources E F"
  shows "execute_set B X F l r operator = execute_set B X E l r operator"
  unfolding execute_set_def push_unique_def [abs_def] resources_same [OF assms] ..

lemma pair_matches_same:
  assumes "\<And>c. jr_condition q = Some c \<Longrightarrow> evaluate_expr S F c = evaluate_expr S E c"
  shows "pair_matches S F q = pair_matches S E q"
  using assms by (intro ext, cases "jr_condition q") (simp_all add: pair_matches_def)

lemma join_right_same:
  assumes "same_resources E F" and "pair_matches S F q = pair_matches S E q"
  shows "join_right S F q l rs st = join_right S E q l rs st"
proof (induction rs arbitrary: st)
  case Nil
  then show ?case by simp
next
  case (Cons e rs)
  obtain i r lm rm s where "e = (i, r)" "st = (lm, rm, s)" by (metis surj_pair)
  with Cons show ?case by (simp only: join_right.simps resources_same [OF assms(1)] assms(2) cong: if_cong)
qed

lemma execute_join_same:
  assumes "same_resources E F" and "\<And>c. jr_condition q = Some c \<Longrightarrow> evaluate_expr S F c = evaluate_expr S E c"
  shows "execute_join S F q = execute_join S E q"
proof -
  have "pair_matches S F q = pair_matches S E q" by (rule pair_matches_same) (rule assms(2))
  then have right: "join_right S F q = join_right S E q" by (intro ext) (rule join_right_same [OF assms(1)])
  show ?thesis
    unfolding execute_join_def join_left_def [abs_def] join_rest_def [abs_def] resources_same [OF assms(1)] right ..
qed

lemma build_groups_same:
  fixes E F :: "'x exec_session"
  assumes "same_resources E F" and "plain_expressions S E F (projection_expressions g)"
  shows "build_groups S F input outer g = build_groups S E input outer g"
    "build_partitions S F input outer g = build_partitions S E input outer g"
proof -
  have step: "group_step S F outer p = group_step S E outer p" if "g = Some p" for p :: "'x logical_projection"
  proof -
    from that assms(2) have "plain_expressions S E F (lp_expressions p)" by (simp add: projection_expressions_def)
    then show ?thesis unfolding group_step_def [abs_def] resources_same [OF assms(1)] by (simp add: evaluate_projection_same)
  qed
  show "build_groups S F input outer g = build_groups S E input outer g"
    by (cases g) (simp_all add: build_groups_def step)
  show "build_partitions S F input outer g = build_partitions S E input outer g"
    by (cases g) (simp_all add: build_partitions_def step)
qed

lemma evaluate_sum_same:
  assumes "same_resources E F" and "evaluate_expr S F e = evaluate_expr S E e"
  shows "evaluate_sum_for_rows S F rows outer e = evaluate_sum_for_rows S E rows outer e"
  unfolding evaluate_sum_for_rows_def concrete_step_def [abs_def] resources_same [OF assms(1)] assms(2) ..

lemma evaluate_one_same:
  assumes "same_resources E F" and "\<And>e. la_input a = Some e \<Longrightarrow> evaluate_expr S F e = evaluate_expr S E e"
  shows "evaluate_one S F rows outer a = evaluate_one S E rows outer a"
proof (cases "la_input a")
  case None
  then show ?thesis by (simp add: evaluate_one_def required_input_def cong: aggregate_kind.case_cong)
next
  case (Some e)
  note same = assms(2) [OF Some]
  have extreme: "evaluate_extreme S F rows outer e b = evaluate_extreme S E rows outer e b" for b
    unfolding evaluate_extreme_def extreme_step_def [abs_def] resources_same [OF assms(1)] same ..
  have count: "count_step S F outer e = count_step S E outer e"
    unfolding count_step_def [abs_def] resources_same [OF assms(1)] same ..
  show ?thesis
    unfolding evaluate_one_def required_input_def Some ok_or_simps and_then_simps extreme count evaluate_sum_same [OF assms(1) same] ..
qed

lemma execute_aggregate_same:
  assumes "same_resources E F" and "plain_expressions S E F (projection_expressions g @ List.map_filter la_input (ag_aggregates a))"
  shows "execute_aggregate S F input outer g a = execute_aggregate S E input outer g a"
proof -
  have "plain_expressions S E F (projection_expressions g)" using assms(2) by (simp add: plain_expressions_def)
  note groups = build_groups_same(1) [OF assms(1) this]
  have one: "evaluate_one S F rows outer x = evaluate_one S E rows outer x" if "x \<in> set (ag_aggregates a)" for rows x
    by (rule evaluate_one_same [OF assms(1)])
      (use assms(2) that in \<open>auto simp: plain_expressions_def set_map_filter intro!: exI [of _ x]\<close>)
  have "try_map (evaluate_one S F rows outer) (ag_aggregates a) = try_map (evaluate_one S E rows outer) (ag_aggregates a)" for rows
    by (rule try_map_cong) (simp_all add: one)
  then have selection: "evaluate_selection S F rows outer a = evaluate_selection S E rows outer a" for rows
    by (simp add: evaluate_selection_def)
  show ?thesis unfolding execute_aggregate_def groups selection resources_same [OF assms(1)] ..
qed

lemma execute_window_same:
  assumes "same_resources E F"
    and "plain_expressions S E F ((case lw_input w of None \<Rightarrow> [] | Some e \<Rightarrow> [e]) @ projection_expressions (lw_partition w) @
      map se_expression (lw_order w))"
  shows "execute_window S F input outer w = execute_window S E input outer w"
proof -
  from assms(2) have "plain_expressions S E F (projection_expressions (lw_partition w))"
    and keys: "plain_expressions S E F (map se_expression (lw_order w))"
    and sum: "\<And>e. lw_input w = Some e \<Longrightarrow> evaluate_expr S F e = evaluate_expr S E e"
    by (auto simp: plain_expressions_def)
  note groups = build_groups_same(2) [OF assms(1) this(1)]
  have order: "order_partition S F input outer indices (lw_order w) = order_partition S E input outer indices (lw_order w)" for indices
    unfolding order_partition_def resources_same [OF assms(1)] sort_keys_same [OF keys] ..
  have "assign_sum S F input outer ordered w out = assign_sum S E input outer ordered w out" for ordered out
  proof (cases "lw_input w")
    case None
    then show ?thesis by (simp add: assign_sum_def)
  next
    case (Some e)
    have "sum_step S F input outer ordered e f = sum_step S E input outer ordered e f" for f
      unfolding sum_step_def [abs_def] resources_same [OF assms(1)] evaluate_sum_same [OF assms(1) sum [OF Some]] ..
    with Some show ?thesis by (simp add: assign_sum_def)
  qed
  note sums = this
  have "window_partition S F input outer w = window_partition S E input outer w"
    unfolding window_partition_def [abs_def] resources_same [OF assms(1)] order sums ..
  then show ?thesis unfolding execute_window_def groups window_row_def [abs_def] resources_same [OF assms(1)] by (simp only:)
qed

end
