(* ===== verification/Exec_Closure.thy ===== *)
theory Exec_Closure
  imports Exec_Congruence
begin

text \<open>
  The nodes an execution needs: \<open>structural_closure\<close> computes the least set that contains the root and the inputs
  of its members. Plans whose nodes refer to earlier nodes only never make it fail.
\<close>

definition closed_under :: "'x logical_node list \<Rightarrow> nat set \<Rightarrow> bool" where
  "closed_under nodes C \<longleftrightarrow> (\<forall>i node. i \<in> C \<longrightarrow> vec_get nodes i = Some node \<longrightarrow> set (node_inputs node) \<subseteq> C)"

definition flagged :: "bool list \<Rightarrow> nat set" where
  "flagged needed = {i. vec_get needed i = Some True}"

lemma flagged_update: "vec_get needed i = Some False \<Longrightarrow> flagged (needed[i := True]) = insert i (flagged needed)"
  by (auto simp: flagged_def vec_get_def nth_list_update split: if_splits)

lemma closure_loop_least:
  assumes "closure_loop nodes needed stack = Inr out"
  shows "length out = length needed \<and> flagged needed \<union> set stack \<subseteq> flagged out \<and>
    (\<forall>C. closed_under nodes C \<longrightarrow> flagged needed \<union> set stack \<subseteq> C \<longrightarrow> flagged out \<subseteq> C) \<and>
    ((\<forall>i node. i \<in> flagged needed \<longrightarrow> vec_get nodes i = Some node \<longrightarrow> set (node_inputs node) \<subseteq> flagged needed \<union> set stack) \<longrightarrow>
      closed_under nodes (flagged out))"
  using assms
proof (induction nodes needed stack rule: closure_loop.induct)
  case (1 nodes needed)
  then show ?case by (auto simp: closed_under_def)
next
  case (2 nodes needed i stack)
  show ?case
  proof (cases "vec_get needed i")
    case None
    with 2 show ?thesis by simp
  next
    case (Some seen)
    show ?thesis
    proof (cases seen)
      case True
      with Some have flag: "vec_get needed i = Some True" by simp
      then have i: "i \<in> flagged needed" by (simp add: flagged_def)
      from 2 True Some have loop: "closure_loop nodes needed stack = Inr out" by simp
      have same: "flagged needed \<union> set (i # stack) = flagged needed \<union> set stack" using i by auto
      show ?thesis unfolding same by (rule "2.IH"(1) [OF flag refl loop])
    next
      case False
      with 2 Some obtain node where node: "vec_get nodes i = Some node"
        and loop: "closure_loop nodes (needed[i := True]) (rev (node_inputs node) @ stack) = Inr out"
        by (auto split: option.splits)
      have update: "flagged (needed[i := True]) = insert i (flagged needed)"
        using Some False by (simp add: flagged_update)
      from Some False have flag: "vec_get needed i = Some False" by simp
      note IH = "2.IH"(2) [OF flag refl node loop, unfolded update]
      have closed: "insert i (flagged needed) \<union> set (rev (node_inputs node) @ stack) \<subseteq> C"
        if "closed_under nodes C" "flagged needed \<union> set (i # stack) \<subseteq> C" for C
        using that node by (auto simp: closed_under_def)
      have inputs: "\<forall>j m. j \<in> insert i (flagged needed) \<longrightarrow> vec_get nodes j = Some m \<longrightarrow>
          set (node_inputs m) \<subseteq> insert i (flagged needed) \<union> set (rev (node_inputs node) @ stack)"
        if "\<forall>j m. j \<in> flagged needed \<longrightarrow> vec_get nodes j = Some m \<longrightarrow>
          set (node_inputs m) \<subseteq> flagged needed \<union> set (i # stack)"
        using that node by fastforce
      from IH closed inputs show ?thesis by (simp only: length_list_update set_append set_rev) auto
    qed
  qed
qed

lemma closure_loop_total:
  assumes "length needed = length nodes" and "\<forall>i \<in> set stack. i < length nodes"
    and "\<forall>node \<in> set nodes. \<forall>i \<in> set (node_inputs node). i < length nodes"
  shows "\<exists>out. closure_loop nodes needed stack = Inr out"
  using assms
proof (induction nodes needed stack rule: closure_loop.induct)
  case (1 nodes needed)
  then show ?case by simp
next
  case (2 nodes needed i stack)
  then have "i < length needed" by simp
  then have flag: "vec_get needed i = Some (needed ! i)" by (simp add: vec_get_def)
  show ?case
  proof (cases "needed ! i")
    case True
    with 2 flag show ?thesis by simp
  next
    case False
    have node: "vec_get nodes i = Some (nodes ! i)" and mem: "nodes ! i \<in> set nodes" using 2 by (simp_all add: vec_get_def)
    have "\<exists>out. closure_loop nodes (needed[i := True]) (rev (node_inputs (nodes ! i)) @ stack) = Inr out"
      using 2 mem False flag by (intro "2.IH"(2) [OF _ refl node]) auto
    with flag False node show ?thesis by simp
  qed
qed

definition plan_valid :: "'x logical_plan \<Rightarrow> bool" where
  "plan_valid plan \<longleftrightarrow> topological (pl_nodes plan) \<and> pl_root plan < length (pl_nodes plan)"

lemma topological_inputs:
  "topological nodes \<Longrightarrow> vec_get nodes i = Some node \<Longrightarrow> j \<in> set (node_inputs node) \<Longrightarrow> j < i"
  by (auto simp: topological_def node_dependencies_def vec_get_def split: if_splits)

lemma closed_below: "topological nodes \<Longrightarrow> closed_under nodes {i. i \<le> r}"
  by (auto simp: closed_under_def dest: topological_inputs)

lemma structural_closure_least:
  assumes "structural_closure plan root = Inr needed"
  shows "length needed = length (pl_nodes plan)" and "root \<in> flagged needed"
    and "closed_under (pl_nodes plan) (flagged needed)"
    and "closed_under (pl_nodes plan) C \<Longrightarrow> root \<in> C \<Longrightarrow> flagged needed \<subseteq> C"
proof -
  have none: "flagged (replicate n False) = {}" for n by (auto simp: flagged_def vec_get_def split: if_splits)
  note least = closure_loop_least [OF assms [unfolded structural_closure_def], unfolded none]
  from least show "length needed = length (pl_nodes plan)" "root \<in> flagged needed"
      "closed_under (pl_nodes plan) (flagged needed)" by auto
  from least show "closed_under (pl_nodes plan) C \<Longrightarrow> root \<in> C \<Longrightarrow> flagged needed \<subseteq> C" by auto
qed

lemma structural_closure_total:
  assumes "topological (pl_nodes plan)" and "root < length (pl_nodes plan)"
  shows "\<exists>needed. structural_closure plan root = Inr needed"
  unfolding structural_closure_def
proof (rule closure_loop_total)
  show "\<forall>node \<in> set (pl_nodes plan). \<forall>i \<in> set (node_inputs node). i < length (pl_nodes plan)"
  proof (intro ballI)
    fix node i
    assume "node \<in> set (pl_nodes plan)" and i: "i \<in> set (node_inputs node)"
    then obtain k where "k < length (pl_nodes plan)" "vec_get (pl_nodes plan) k = Some node"
      by (auto simp: in_set_conv_nth vec_get_def)
    with topological_inputs [OF assms(1) this(2) i] show "i < length (pl_nodes plan)" by simp
  qed
qed (use assms(2) in simp_all)

section \<open>Nesting\<close>

text \<open>
  Stages under a renumbering of the nodes, and the bound on the nesting of subqueries: a subquery at index \<open>q\<close> never
  needs more than \<open>q + 1\<close> levels, so deeper resolvers agree.
\<close>

subsection \<open>Stages in two sessions\<close>

text \<open>\<open>node_map f g\<close> renumbers the inputs with \<open>f\<close> and rewrites the condition of a filter with \<open>g\<close>.\<close>

fun node_map :: "(plan_id \<Rightarrow> plan_id) \<Rightarrow> ('x logical_expr \<Rightarrow> 'x logical_expr) \<Rightarrow> 'x logical_node \<Rightarrow> 'x logical_node" where
  "node_map f g (NSource m a) = NSource m a"
| "node_map f g (NFilter i c) = NFilter (f i) (g c)"
| "node_map f g (NProject i p) = NProject (f i) p"
| "node_map f g (NAggregate i gs a) = NAggregate (f i) gs a"
| "node_map f g (NUnnest i ty) = NUnnest (f i) ty"
| "node_map f g (NWindow i w) = NWindow (f i) w"
| "node_map f g (NSort i ks) = NSort (f i) ks"
| "node_map f g (NDistinct i) = NDistinct (f i)"
| "node_map f g (NSlice i offset limit) = NSlice (f i) offset limit"
| "node_map f g (NJoin l r k c) = NJoin (f l) (f r) k c"
| "node_map f g (NSet l r s) = NSet (f l) (f r) s"

lemma node_map_id: "node_map (\<lambda>i. i) (\<lambda>c. c) node = node"
  by (cases node) simp_all

lemma node_inputs_map: "node_inputs (node_map f g node) = map f (node_inputs node)"
  by (cases node) simp_all

definition filter_condition :: "'x logical_node \<Rightarrow> 'x logical_expr option" where
  "filter_condition node = (case node of NFilter i c \<Rightarrow> Some c | _ \<Rightarrow> None)"

lemma execute_stage_map:
  assumes "same_resources E F"
    and "\<And>i. i \<in> set (node_inputs node) \<Longrightarrow> input_rows results' (f i) = input_rows results i"
    and "\<And>i. i \<in> set (node_inputs node) \<Longrightarrow> scope_shape F (f i) = scope_shape E i"
    and "\<And>c. filter_condition node = Some c \<Longrightarrow> evaluate_expr S F (g c) = evaluate_expr S E c"
    and "filter_condition node = None \<Longrightarrow> plain_expressions S E F (node_expressions node)"
  shows "execute_stage B S F outer results' (node_map f g node) = execute_stage B S E outer results node"
proof (cases node)
  case (NSource m a)
  then show ?thesis by (simp add: execute_source_same [OF assms(1)])
next
  case (NFilter i c)
  then have "evaluate_expr S F (g c) = evaluate_expr S E c" using assms(4) by (simp add: filter_condition_def)
  from execute_filter_same [OF assms(1) this] NFilter assms(2) show ?thesis by simp
next
  case (NProject i p)
  with assms(5) have "plain_expressions S E F (lp_expressions p)" by (simp add: filter_condition_def)
  from execute_project_same [OF assms(1) this] NProject assms(2) show ?thesis by simp
next
  case (NAggregate i gs a)
  with assms(5) have "plain_expressions S E F (projection_expressions gs @ List.map_filter la_input (ag_aggregates a))"
    by (simp add: filter_condition_def)
  from execute_aggregate_same [OF assms(1) this] NAggregate assms(2) show ?thesis by simp
next
  case (NUnnest i ty)
  with assms(2) show ?thesis by (simp add: execute_unnest_same [OF assms(1)])
next
  case (NWindow i w)
  with assms(5) have "plain_expressions S E F ((case lw_input w of None \<Rightarrow> [] | Some e \<Rightarrow> [e]) @
      projection_expressions (lw_partition w) @ map se_expression (lw_order w))"
    by (simp add: filter_condition_def)
  from execute_window_same [OF assms(1) this] NWindow assms(2) show ?thesis by simp
next
  case (NSort i ks)
  with assms(5) have "plain_expressions S E F (map se_expression ks)" by (simp add: filter_condition_def)
  from execute_sort_same [OF assms(1) this] NSort assms(2) show ?thesis by simp
next
  case (NDistinct i)
  with assms(2) show ?thesis by (simp add: execute_distinct_same [OF assms(1)] cong: and_then_cong)
next
  case (NSlice i offset limit)
  with assms(2) show ?thesis by simp
next
  case (NJoin l r k c)
  have "evaluate_expr S F d = evaluate_expr S E d" if "c = Some d" for d
    using assms(5) NJoin that by (simp add: filter_condition_def plain_expressions_def)
  then have "execute_join S F q = execute_join S E q" if "jr_condition q = c" for q
    by (intro execute_join_same [OF assms(1)]) (simp add: that)
  with NJoin assms(2,3) show ?thesis by simp
next
  case (NSet l r s)
  with assms(2) show ?thesis by (simp add: execute_set_same [OF assms(1)])
qed

subsection \<open>Subqueries of a node\<close>

lemma existential_dependencies_set:
  "set (node_existential_dependencies node) = (\<Union>e \<in> set (node_expressions node). set (collect_existential_dependencies e))"
  by (simp add: node_existential_dependencies_def)

lemma topological_existentials:
  assumes "topological nodes" and "vec_get nodes i = Some node" and "e \<in> set (node_expressions node)"
    and "q \<in> set (collect_existential_dependencies e)"
  shows "q < i"
  using assms by (auto simp: topological_def node_dependencies_def existential_dependencies_set vec_get_def split: if_splits)

subsection \<open>The nesting bound\<close>

lemma execute_index_exists:
  assumes "topological (pl_nodes (xs_plan E))" and "\<And>q. q < i \<Longrightarrow> g q = f q"
  shows "execute_index B S (E\<lparr>xs_exists := g\<rparr>) outer needed i results = execute_index B S (E\<lparr>xs_exists := f\<rparr>) outer needed i results"
proof -
  let ?E = "E\<lparr>xs_exists := f\<rparr>" and ?F = "E\<lparr>xs_exists := g\<rparr>"
  have same: "same_resources ?E ?F" by simp
  have "execute_stage B S ?F outer results node = execute_stage B S ?E outer results node"
    if node: "vec_get (pl_nodes (xs_plan E)) i = Some node" for node
  proof -
    have expr: "evaluate_expr S ?F e = evaluate_expr S ?E e" if "e \<in> set (node_expressions node)" for e
      by (rule evaluate_expr_same [OF same], rule same_expression_refl)
        (use topological_existentials [OF assms(1) node that] assms(2) in simp)
    have "execute_stage B S ?F outer results (node_map (\<lambda>i. i) (\<lambda>c. c) node) = execute_stage B S ?E outer results node"
      by (rule execute_stage_map [OF same])
        (auto simp: scope_shape_def plain_expressions_def expr filter_condition_def split: logical_node.splits)
    then show ?thesis by (simp add: node_map_id)
  qed
  then show ?thesis
    by (cases "vec_get (pl_nodes (xs_plan E)) i") (simp_all add: execute_index_def session_timeout_def)
qed

lemma execute_subplan_exists:
  assumes "topological (pl_nodes (xs_plan E))" and "\<And>q. q < root \<Longrightarrow> g q = f q"
  shows "execute_subplan B S (E\<lparr>xs_exists := g\<rparr>) root outer = execute_subplan B S (E\<lparr>xs_exists := f\<rparr>) root outer"
proof -
  have "try_each (execute_index B S (E\<lparr>xs_exists := g\<rparr>) outer needed) [0..<Suc root] =
      try_each (execute_index B S (E\<lparr>xs_exists := f\<rparr>) outer needed) [0..<Suc root]" for needed
    by (rule ext, rule try_each_cong) (auto intro!: execute_index_exists [OF assms(1)] assms(2))
  then show ?thesis by (simp add: execute_subplan_def session_timeout_def del: upt_Suc)
qed

lemma exists_depth_irrelevant:
  assumes "topological (pl_nodes (xs_plan E))" and "q < n" and "q < m"
  shows "evaluate_exists n B S E q = evaluate_exists m B S E q"
  using assms(2,3)
proof (induction q arbitrary: n m rule: less_induct)
  case (less q)
  then obtain n' m' where n: "n = Suc n'" and m: "m = Suc m'" by (metis less_imp_Suc_add)
  have "evaluate_exists n' B S E p = evaluate_exists m' B S E p" if "p < q" for p
    using less.IH [OF that, of n' m'] less.prems that n m by simp
  then have "execute_subplan B S (E\<lparr>xs_exists := evaluate_exists n' B S E\<rparr>) q outer =
      execute_subplan B S (E\<lparr>xs_exists := evaluate_exists m' B S E\<rparr>) q outer" for outer
    by (rule execute_subplan_exists [OF assms(1)])
  then show ?case by (intro ext) (simp add: n m)
qed

end
