(* ===== verification/Exec_Stream_Laws.thy ===== *)
theory Exec_Stream_Laws
  imports Executor
begin

text \<open>
  Results of executions: collecting a memory stream always ends, with all its rows exactly if they are within the
  limits; the frames of windowed sums.
\<close>

section \<open>Byte totals\<close>

lemma saturating_mono: "a \<le> b \<Longrightarrow> saturating_add_u64 a c \<le> saturating_add_u64 b c"
  by (simp add: saturating_add_u64_def)

lemma saturating_grows: "n < 2 ^ 64 \<Longrightarrow> n \<le> saturating_add_u64 n c"
  by (simp add: saturating_add_u64_def)

definition add_bytes :: "nat \<Rightarrow> 'x execution_row list \<Rightarrow> nat" where
  "add_bytes n rows = foldl (\<lambda>total row. saturating_add_u64 total (execution_row_bytes row)) n rows"

lemma add_bytes_grows: "n < 2 ^ 64 \<Longrightarrow> n \<le> add_bytes n rows"
proof (induction rows arbitrary: n)
  case Nil
  then show ?case by (simp add: add_bytes_def)
next
  case (Cons row rows)
  have "saturating_add_u64 n (execution_row_bytes row) < 2 ^ 64"
    using saturating_add_u64_le [of n "execution_row_bytes row"] by simp
  from Cons.IH [OF this] saturating_grows [OF Cons.prems] show ?case by (auto simp: add_bytes_def intro: order_trans)
qed

lemma add_bytes_append: "add_bytes n (xs @ ys) = add_bytes (add_bytes n xs) ys"
  by (simp add: add_bytes_def)

lemma add_bytes_small: "n < 2 ^ 64 \<Longrightarrow> add_bytes n rows < 2 ^ 64"
proof (induction rows arbitrary: n)
  case (Cons row rows)
  have "saturating_add_u64 n (execution_row_bytes row) < 2 ^ 64"
    using saturating_add_u64_le [of n "execution_row_bytes row"] by simp
  with Cons.IH [OF this] show ?case by (simp add: add_bytes_def)
qed (simp add: add_bytes_def)

lemma collect_bytes_loop:
  assumes "n < 2 ^ 64"
  shows "try_each (collect_bytes L) rows n = Inr m \<longleftrightarrow> (rows = [] \<or> add_bytes n rows \<le> cl_max_bytes L) \<and> m = add_bytes n rows"
  using assms
proof (induction rows arbitrary: n)
  case Nil
  then show ?case by (auto simp: add_bytes_def)
next
  case (Cons row rows)
  let ?n = "saturating_add_u64 n (execution_row_bytes row)"
  have small: "?n < 2 ^ 64" using saturating_add_u64_le [of n "execution_row_bytes row"] by simp
  have total: "add_bytes n (row # rows) = add_bytes ?n rows" by (simp add: add_bytes_def)
  show ?case
    using Cons.IH [OF small] add_bytes_grows [OF small, of rows]
    by (cases rows) (auto simp: collect_bytes_def Let_def total add_bytes_def)
qed

section \<open>Collecting a memory stream\<close>

definition within_limits :: "collect_limits \<Rightarrow> nat \<Rightarrow> nat \<Rightarrow> 'x execution_row list \<Rightarrow> bool" where
  "within_limits L k n rows \<longleftrightarrow>
     rows = [] \<or> k + length rows \<le> cl_max_rows L \<and> add_bytes n rows \<le> cl_max_bytes L"

definition drained :: "'x memory_stream \<Rightarrow> bool" where
  "drained s \<longleftrightarrow> ms_rows s = []"

text \<open>A collection that ends with the rows exactly if they are within the limits, leaving nothing to read.\<close>

definition collects :: "collect_limits \<Rightarrow> nat \<Rightarrow> nat \<Rightarrow> 'x execution_row list \<Rightarrow> 'x execution_row list \<Rightarrow>
    ('x execution_row list res \<times> 'x memory_stream) option \<Rightarrow> bool" where
  "collects L k n rest all out \<longleftrightarrow>
     (\<exists>r s. out = Some (r, s) \<and> drained s \<and> (r = Inr all \<or> (\<exists>e. r = Inl e)) \<and> (r = Inr all \<longleftrightarrow> within_limits L k n rest))"

lemma collect_loop_ends:
  assumes "\<not> ms_cancelled s" and "0 < ms_batch_rows s" and "k + length (ms_rows s) < 2 ^ 64" and "n < 2 ^ 64"
  shows "collects L k n (ms_rows s) (rows @ ms_rows s) (collect_loop memory_stream_ops L rows k n s)"
  using assms
proof (induction "length (ms_rows s)" arbitrary: s rows k n rule: less_induct)
  case less
  show ?case
  proof (cases "ms_rows s")
    case Nil
    then show ?thesis
      by (simp add: collects_def within_limits_def drained_def collect_loop.simps memory_stream_ops_def memory_next_batch_def)
  next
    case (Cons row more)
    obtain m where m: "m = min (ms_batch_rows s) (length (ms_rows s))" by simp
    then have m_le: "m \<le> length (ms_rows s)" "0 < m" using Cons less.prems(2) by simp_all
    let ?batch = "take m (ms_rows s)" and ?s = "s\<lparr>ms_rows := drop m (ms_rows s)\<rparr>"
    have batch: "length ?batch = m" "0 < m" "?batch \<noteq> []" using Cons m_le by auto
    have small: "k + m < 2 ^ 64" "m < 2 ^ 64" using m_le less.prems(3) by simp_all
    have all: "?batch @ ms_rows ?s = ms_rows s" by simp
    have next_batch: "memory_next_batch s = (Inr (Some \<lparr>eb_output = ms_output s, eb_rows = ?batch\<rparr>), ?s)"
      using Cons less.prems(1) by (simp add: memory_next_batch_def Let_def m)
    have len: "length (ms_rows s) = m + length (ms_rows ?s)" using m_le by simp
    have fail: "collects L k n (ms_rows s) (rows @ ms_rows s) (Some (Inl e, memory_cancel t))"
      if "\<not> within_limits L k n (ms_rows s)" for e t
      using that by (simp add: collects_def drained_def memory_cancel_def)
    show ?thesis
    proof (cases "k + m > cl_max_rows L")
      case True
      then have "cl_max_rows L < k + length (ms_rows s)" by (rule order_less_le_trans) (simp add: m_le)
      then have "\<not> within_limits L k n (ms_rows s)" using Cons by (simp add: within_limits_def)
      moreover have "collect_loop memory_stream_ops L rows k n s = Some (Inl engine_collect_001, memory_cancel ?s)"
        using True small
        by (subst collect_loop.simps) (simp add: memory_stream_ops_def next_batch batch(1) del: length_take)
      ultimately show ?thesis by (simp only: fail not_False_eq_True)
    next
      case False
      have grows: "add_bytes n ?batch \<le> add_bytes n (ms_rows s)"
        using add_bytes_grows [OF add_bytes_small [OF less.prems(4), of ?batch], of "ms_rows ?s"]
        by (metis add_bytes_append all)
      show ?thesis
      proof (cases "try_each (collect_bytes L) ?batch n")
        case (Inl e)
        then have "\<not> add_bytes n ?batch \<le> cl_max_bytes L" using collect_bytes_loop [OF less.prems(4), of L ?batch] by auto
        then have "\<not> within_limits L k n (ms_rows s)" using Cons grows by (auto simp: within_limits_def)
        moreover have "collect_loop memory_stream_ops L rows k n s = Some (Inl e, memory_cancel ?s)"
          using False small Inl
          by (subst collect_loop.simps) (simp add: memory_stream_ops_def next_batch batch(1) del: length_take)
        ultimately show ?thesis by (simp only: fail not_False_eq_True)
      next
        case (Inr total)
        with collect_bytes_loop [OF less.prems(4), of L ?batch] batch
        have total: "total = add_bytes n ?batch" "add_bytes n ?batch \<le> cl_max_bytes L" by auto
        have step: "collect_loop memory_stream_ops L rows k n s = collect_loop memory_stream_ops L (rows @ ?batch) (k + m) total ?s"
          using False small Inr
          by (subst collect_loop.simps) (simp add: memory_stream_ops_def next_batch batch(1) del: length_take)
        have IH: "collects L (k + m) total (ms_rows ?s) ((rows @ ?batch) @ ms_rows ?s)
            (collect_loop memory_stream_ops L (rows @ ?batch) (k + m) total ?s)"
          by (rule less.hyps) (use less.prems m_le total(1) add_bytes_small [OF less.prems(4)] in simp_all)
        have "within_limits L (k + m) total (ms_rows ?s) \<longleftrightarrow> within_limits L k n (ms_rows s)"
        proof (cases "ms_rows ?s = []")
          case True
          then have "?batch = ms_rows s" using all by simp
          with True False total Cons len show ?thesis by (simp add: within_limits_def)
        next
          case rest: False
          have "add_bytes total (ms_rows ?s) = add_bytes n (ms_rows s)" using total all by (metis add_bytes_append)
          with rest Cons len show ?thesis by (simp add: within_limits_def)
        qed
        with IH show ?thesis unfolding step by (simp add: collects_def)
      qed
    qed
  qed
qed

section \<open>Frames\<close>

definition frame_low :: "frame_bound \<Rightarrow> nat \<Rightarrow> nat \<Rightarrow> bool" where
  "frame_low b p j \<longleftrightarrow>
     (case b of
        UnboundedPreceding \<Rightarrow> True
      | Preceding d \<Rightarrow> p \<le> j + unat d
      | CurrentRow \<Rightarrow> p \<le> j
      | Following d \<Rightarrow> p + unat d \<le> j
      | UnboundedFollowing \<Rightarrow> False)"

definition frame_high :: "frame_bound \<Rightarrow> nat \<Rightarrow> nat \<Rightarrow> bool" where
  "frame_high b p j \<longleftrightarrow>
     (case b of
        UnboundedPreceding \<Rightarrow> False
      | Preceding d \<Rightarrow> j + unat d \<le> p
      | CurrentRow \<Rightarrow> j \<le> p
      | Following d \<Rightarrow> j \<le> p + unat d
      | UnboundedFollowing \<Rightarrow> True)"

lemma frame_start_low: "p < len \<Longrightarrow> len \<le> usize_max \<Longrightarrow> j < len \<Longrightarrow> frame_start b p len \<le> j \<longleftrightarrow> frame_low b p j"
  by (cases b) (auto simp: frame_low_def saturating_add_usize_def)

lemma frame_end_high: "p < len \<Longrightarrow> len \<le> usize_max \<Longrightarrow> j < len \<Longrightarrow> j < frame_end_exclusive b p len \<longleftrightarrow> frame_high b p j"
  by (cases b) (auto simp: frame_high_def saturating_add_usize_def)

lemma frame_range_rows:
  assumes "p < len" and "len \<le> usize_max"
  shows "frame_range f p len = filter (\<lambda>j. frame_low (rf_start f) p j \<and> frame_high (rf_end f) p j) [0..<len]"
proof -
  let ?e = "frame_end_exclusive (rf_end f) p len"
  have range: "[min (frame_start (rf_start f) p len) ?e..<?e] = filter (\<lambda>j. frame_start (rf_start f) p len \<le> j \<and> j < ?e) [0..<len]"
    if "?e \<le> len"
  proof -
    have "filter (\<lambda>j. a \<le> j \<and> j < e) [0..<n] = [min a e..<e]" if "e \<le> n" for a e n :: nat
      using that
    proof (induction n)
      case 0
      then show ?case by simp
    next
      case (Suc n)
      show ?case
      proof (cases "e \<le> n")
        case True
        with Suc.IH show ?thesis by simp
      next
        case False
        with Suc.prems have e: "e = Suc n" by simp
        have "filter (\<lambda>j. a \<le> j \<and> j < Suc n) [0..<m] = [min a m..<m]" if "m \<le> Suc n" for m
          using that by (induction m) (auto simp: min_def le_Suc_eq)
        from this [of "Suc n"] show ?thesis unfolding e by simp
      qed
    qed
    with that show ?thesis by simp
  qed
  have "?e \<le> len" using assms by (cases "rf_end f") auto
  note range [OF this]
  also have "filter (\<lambda>j. frame_start (rf_start f) p len \<le> j \<and> j < ?e) [0..<len] =
      filter (\<lambda>j. frame_low (rf_start f) p j \<and> frame_high (rf_end f) p j) [0..<len]"
    by (rule filter_cong) (simp_all add: frame_start_low [OF assms] frame_end_high [OF assms])
  finally show ?thesis by (simp add: frame_range_def Let_def)
qed

end
