(* ===== verification/Memory_Query.thy ===== *)
theory Memory_Query
  imports Memory_Engine Exec_Closure Exec_Stream_Laws
begin

text \<open>
  Queries of the memory engine (\<open>src/lib.rs\<close> of the memory engine): placement against its capabilities, execution
  of a prepared plan, and explanations. A \<open>Pipeline\<close> is lowered to its plan by the caller's argument.
\<close>

definition memory_placement_001 :: diagnostic where
  "memory_placement_001 = diagnostic_error ''MEMORY-PLACEMENT-001''
     ''memory engine does not execute hybrid local-residual plans''"

definition engine_execute_plan :: "digest \<Rightarrow> 'x scalar_ops \<Rightarrow> bool \<Rightarrow> 'x logical_plan \<Rightarrow> 'x parameters \<Rightarrow> execution_options \<Rightarrow>
    'x memory_engine \<Rightarrow> 'x memory_engine \<times> 'x memory_stream res" where
  "engine_execute_plan B S late plan ps options e =
     (case engine_validate B (ops_ext S) e of
        (e, Inl err) \<Rightarrow> (e, Inl err)
      | (e, Inr _) \<Rightarrow>
          (e, and_then (analyze_placement plan (me_capabilities e) (eo_placement options)) (\<lambda>placement.
                if \<not> is_fully_engine placement then Inl memory_placement_001
                else execute B S late (me_tables e) plan ps options)))"

definition engine_execute :: "digest \<Rightarrow> 'x scalar_ops \<Rightarrow> bool \<Rightarrow> 'x logical_plan res \<Rightarrow> 'x parameters \<Rightarrow> execution_options \<Rightarrow>
    'x memory_engine \<Rightarrow> 'x memory_engine \<times> 'x memory_stream res" where
  "engine_execute B S late prepared ps options e =
     (case prepared of Inl err \<Rightarrow> (e, Inl err) | Inr plan \<Rightarrow> engine_execute_plan B S late plan ps options e)"

definition engine_explain :: "string \<Rightarrow> 'x logical_plan res \<Rightarrow> placement_policy \<Rightarrow> 'x memory_engine \<Rightarrow> explain_plan res" where
  "engine_explain version prepared policy e =
     and_then prepared (\<lambda>plan.
     and_then (analyze_placement plan (me_capabilities e) policy) (\<lambda>placement.
       Inr (explain_new ''memory'' version plan placement)))"

section \<open>The memory engine executes every node itself\<close>

lemma memory_supports: "capability_support_for_node node memory_capabilities = ExactNative"
  by (cases node) (simp_all add: capability_support_for_node_def memory_capabilities_def uniform_pipeline_def)

lemma memory_never_local: "\<not> needs_local nodes (\<lambda>node. capability_support_for_node node memory_capabilities) i"
proof
  assume "needs_local nodes (\<lambda>node. capability_support_for_node node memory_capabilities) i"
  then show False by induction (simp_all add: memory_supports)
qed

lemma memory_placement:
  assumes "topological (pl_nodes plan)" and "length (pl_nodes plan) \<le> 2 ^ 32"
    and "\<And>b. policy = Hybrid b \<Longrightarrow> transfer_validate b = Inr ()"
  shows "\<exists>p. analyze_placement plan memory_capabilities policy = Inr p \<and> is_fully_engine p"
proof -
  let ?support = "\<lambda>node. capability_support_for_node node memory_capabilities"
  let ?transfer = "case policy of RemoteOnly \<Rightarrow> None | Hybrid b \<Rightarrow> Some b"
  let ?p = "\<lparr>pp_nodes = placed (pl_nodes plan) ?support, pp_transfer = ?transfer\<rparr>"
  have "analyze_placement_with plan policy ?support = Inr ?p"
    unfolding placement_decides [OF assms(1,2)] using assms(3) memory_never_local
    by (auto split: placement_policy.split)
  moreover have "is_fully_engine ?p"
    by (auto simp: is_fully_engine_def placed_def list_all_iff memory_never_local)
  ultimately show ?thesis by (auto simp: analyze_placement_def)
qed

text \<open>So a valid plan is refused by placement only for its own transfer budget.\<close>

lemma engine_executes:
  assumes "topological (pl_nodes plan)" and "length (pl_nodes plan) \<le> 2 ^ 32"
    and "\<And>b. eo_placement options = Hybrid b \<Longrightarrow> transfer_validate b = Inr ()"
    and "me_capabilities e = memory_capabilities" and "me_validated e"
  shows "engine_execute_plan B S late plan ps options e = (e, execute B S late (me_tables e) plan ps options)"
  using memory_placement [OF assms(1,2), of "eo_placement options"] assms(3,4,5)
  by (auto simp: engine_execute_plan_def engine_validate_def)

end
