(* ===== verification/Plan_Optimize_Laws.thy ===== *)
theory Plan_Optimize_Laws
  imports Plan Exec_Closure
begin

text \<open>
  The plan optimizer: what its single pass leaves of a plan, that it succeeds on every valid plan, and that the
  optimized plan executes exactly as the original, with the same rows or the same error.
\<close>

section \<open>Renumbered nodes\<close>

lemma try_map_mono: "(\<And>x y. x \<in> set xs \<Longrightarrow> f x = Inr y \<Longrightarrow> g x = Inr y) \<Longrightarrow> try_map f xs = Inr ys \<Longrightarrow> try_map g xs = Inr ys"
  by (induction xs arbitrary: ys) (fastforce simp: and_then_Inr)+

lemma vec_get_extend: "vec_get R i = Some r \<Longrightarrow> vec_get (R @ Q) i = Some r"
  by (auto simp: vec_get_def nth_append split: if_splits)

lemma mapped_Inr: "mapped i R = Inr r \<longleftrightarrow> vec_get R i = Some r"
  by (simp add: mapped_def ok_or_Inr)

lemma mapped_extend: "mapped i R = Inr r \<Longrightarrow> mapped i (R @ Q) = Inr r"
  by (simp add: mapped_Inr vec_get_extend)

lemma remap_kind_extend: "remap_kind R k = Inr k' \<Longrightarrow> remap_kind (R @ Q) k = Inr k'"
  by (cases k) (auto simp: and_then_Inr ok_or_Inr dest: vec_get_extend)

lemma remap_plan_ids_extend:
  assumes "remap_plan_ids R e = Inr e'"
  shows "remap_plan_ids (R @ Q) e = Inr e'"
proof -
  from assms obtain nodes where nodes: "try_map (\<lambda>n. and_then (remap_kind R (pn_kind n)) (\<lambda>k. Inr (n\<lparr>pn_kind := k\<rparr>))) (pe_nodes e) = Inr nodes"
    and e': "e' = e\<lparr>pe_nodes := nodes\<rparr>" by (auto simp: remap_plan_ids_def and_then_Inr)
  have "try_map (\<lambda>n. and_then (remap_kind (R @ Q) (pn_kind n)) (\<lambda>k. Inr (n\<lparr>pn_kind := k\<rparr>))) (pe_nodes e) = Inr nodes"
    by (rule try_map_mono [OF _ nodes]) (auto simp: and_then_Inr dest: remap_kind_extend)
  with e' show ?thesis by (simp add: remap_plan_ids_def)
qed

lemma remap_node_extend: "remap_node R node = Inr n \<Longrightarrow> remap_node (R @ Q) node = Inr n"
  by (cases node) (auto simp: and_then_Inr dest: mapped_extend remap_plan_ids_extend)

lemma remap_node_map:
  assumes "remap_node R node = Inr n"
  shows "n = node_map ((!) R) (\<lambda>c. projr (remap_plan_ids R c)) node"
    and "\<forall>i \<in> set (node_inputs node). i < length R"
    and "\<And>c. filter_condition node = Some c \<Longrightarrow> remap_plan_ids R c = Inr (projr (remap_plan_ids R c))"
  using assms
  by (cases node; auto simp: and_then_Inr mapped_Inr vec_get_def filter_condition_def split: if_splits)+

text \<open>The references of a node that are renumbered: its inputs and the subqueries of a filter.\<close>

definition condition_subqueries :: "'x logical_node \<Rightarrow> plan_id set" where
  "condition_subqueries node =
     (case filter_condition node of None \<Rightarrow> {} | Some c \<Rightarrow> set (collect_existential_dependencies c))"

lemma remap_plan_ids_total:
  assumes "\<forall>q \<in> set (collect_existential_dependencies e). q < length R"
  shows "\<exists>e'. remap_plan_ids R e = Inr e'"
proof -
  have kind: "\<exists>k. remap_kind R (pn_kind n) = Inr k" if "n \<in> set (pe_nodes e)" for n
  proof (cases "existential_target (pn_kind n)")
    case None
    then show ?thesis by (cases "pn_kind n") simp_all
  next
    case (Some q)
    with that have "q \<in> set (collect_existential_dependencies e)"
      unfolding collect_existential_dependencies_def set_map_filter by blast
    with assms existential_targetD [OF Some] Some show ?thesis by (auto simp: vec_get_def)
  qed
  have "\<exists>nodes. try_map (\<lambda>n. and_then (remap_kind R (pn_kind n)) (\<lambda>k. Inr (n\<lparr>pn_kind := k\<rparr>))) ns = Inr nodes"
    if "set ns \<subseteq> set (pe_nodes e)" for ns
    using that
  proof (induction ns)
    case Nil
    then show ?case by simp
  next
    case (Cons n ns)
    from Cons.prems kind [of n] obtain k where "remap_kind R (pn_kind n) = Inr k" by auto
    with Cons show ?case by auto
  qed
  then show ?thesis by (fastforce simp: remap_plan_ids_def)
qed

lemma remap_node_total:
  assumes "\<forall>i \<in> set (node_inputs node). i < length R" and "\<forall>q \<in> condition_subqueries node. q < length R"
  shows "\<exists>n. remap_node R node = Inr n"
proof -
  have mapped: "mapped i R = Inr (R ! i)" if "i < length R" for i using that by (simp add: mapped_Inr vec_get_def)
  show ?thesis
  proof (cases node)
    case (NFilter i c)
    with assms(2) have "\<exists>c'. remap_plan_ids R c = Inr c'"
      by (intro remap_plan_ids_total) (simp add: condition_subqueries_def filter_condition_def)
    with NFilter assms(1) mapped show ?thesis by auto
  qed (use assms(1) mapped in auto)
qed

section \<open>What the pass leaves\<close>

text \<open>
  \<open>kept\<close> lists the indices of the nodes that remain, in order; every other node is a slice without effect or a
  second duplicate elimination, and is renumbered to what its input is renumbered to.
\<close>

definition optimized :: "'x logical_node list \<Rightarrow> nat list \<Rightarrow> 'x logical_node list \<Rightarrow> plan_id list \<Rightarrow> bool" where
  "optimized nodes kept N R \<longleftrightarrow>
     length R = length nodes \<and> length kept = length N \<and> sorted_wrt (<) kept \<and> (\<forall>i \<in> set kept. i < length nodes) \<and>
     (\<forall>t < length N. R ! (kept ! t) = t \<and> remap_node R (nodes ! (kept ! t)) = Inr (N ! t)) \<and>
     (\<forall>i < length nodes. i \<notin> set kept \<longrightarrow> (\<exists>j < i. R ! i = R ! j \<and>
        (nodes ! i = NSlice j 0 None \<or> nodes ! i = NDistinct j \<and> (\<exists>k. vec_get N (R ! j) = Some (NDistinct k))))) \<and>
     (\<forall>i < length nodes. R ! i < length N)"

lemma optimized_step:
  assumes "optimized nodes kept N R" and "optimize_step node (N, R) = Inr (N', R')"
    and "\<forall>j \<in> set (node_inputs node). j < length nodes"
  shows "\<exists>kept'. optimized (nodes @ [node]) kept' N' R'"
proof -
  from assms(2) obtain n where n: "remap_node R node = Inr n" by (auto simp: optimize_step_def and_then_Inr)
  have len: "length R = length nodes" using assms(1) by (simp add: optimized_def)
  have remap: "remap_node (R @ [x]) (nodes ! (kept ! t)) = Inr (N ! t)" if "t < length N" for x t
    using assms(1) that by (auto simp: optimized_def intro: remap_node_extend)
  have old: "(nodes @ [node]) ! (kept ! t) = nodes ! (kept ! t)" "(R @ [x]) ! (kept ! t) = t" if "t < length N" for t x
    using assms(1) that len by (auto simp: optimized_def nth_append)
  show ?thesis
  proof (cases "redundant_target n N")
    case None
    with assms(2) n have new: "N' = N @ [n]" "R' = R @ [length N]"
      by (auto simp: optimize_step_def and_then_Inr plan_id_from_index_def split: if_splits)
    have "optimized (nodes @ [node]) (kept @ [length nodes]) N' R'"
      unfolding optimized_def new
    proof (intro conjI allI impI ballI)
      show "sorted_wrt (<) (kept @ [length nodes])" using assms(1) by (auto simp: optimized_def sorted_wrt_append)
      show "i < length (nodes @ [node])" if "i \<in> set (kept @ [length nodes])" for i
        using that assms(1) by (auto simp: optimized_def)
      show "(R @ [length N]) ! ((kept @ [length nodes]) ! t) = t" if "t < length (N @ [n])" for t
        using that old [of t] assms(1) len by (cases "t = length N") (auto simp: optimized_def nth_append)
      show "remap_node (R @ [length N]) ((nodes @ [node]) ! ((kept @ [length nodes]) ! t)) = Inr ((N @ [n]) ! t)"
        if "t < length (N @ [n])" for t
      proof (cases "t = length N")
        case True
        with assms(1) remap_node_extend [OF n] show ?thesis by (simp add: optimized_def nth_append)
      next
        case False
        with that remap [of t] old [of t] assms(1) show ?thesis by (simp add: optimized_def nth_append)
      qed
      show "\<exists>j < i. (R @ [length N]) ! i = (R @ [length N]) ! j \<and> ((nodes @ [node]) ! i = NSlice j 0 None \<or>
          (nodes @ [node]) ! i = NDistinct j \<and> (\<exists>k. vec_get (N @ [n]) ((R @ [length N]) ! j) = Some (NDistinct k)))"
        if i: "i < length (nodes @ [node])" "i \<notin> set (kept @ [length nodes])" for i
      proof -
        from i have "i < length nodes" "i \<notin> set kept" by auto
        with assms(1) obtain j where "j < i" "R ! i = R ! j" "nodes ! i = NSlice j 0 None \<or>
            nodes ! i = NDistinct j \<and> (\<exists>k. vec_get N (R ! j) = Some (NDistinct k))"
          unfolding optimized_def by blast
        with \<open>i < length nodes\<close> len show ?thesis
          by (intro exI [of _ j]) (auto simp: nth_append intro: vec_get_extend)
      qed
      show "(R @ [length N]) ! i < length (N @ [n])" if "i < length (nodes @ [node])" for i
        using that assms(1) len by (auto simp: optimized_def nth_append less_Suc_eq)
    qed (use assms(1) in \<open>simp_all add: optimized_def\<close>)
    then show ?thesis ..
  next
    case (Some x)
    with assms(2) n have new: "N' = N" "R' = R @ [x]" by (auto simp: optimize_step_def)
    have target: "\<exists>j < length nodes. x = R ! j \<and> (node = NSlice j 0 None \<or> node = NDistinct j \<and> (\<exists>k. vec_get N (R ! j) = Some (NDistinct k)))"
    proof (cases node)
      case (NSlice j offset limit)
      with n Some assms(3) show ?thesis
        by (auto simp: and_then_Inr mapped_Inr vec_get_def redundant_target_def split: if_splits)
    next
      case (NDistinct j)
      with n have "n = NDistinct (R ! j)" "j < length nodes" using assms(3)
        by (auto simp: and_then_Inr mapped_Inr vec_get_def split: if_splits)
      with Some NDistinct show ?thesis
        by (auto simp: redundant_target_def split: option.splits logical_node.splits)
    qed (use n Some in \<open>auto simp: and_then_Inr redundant_target_def\<close>)
    then obtain j where j: "j < length nodes" "x = R ! j"
      "node = NSlice j 0 None \<or> node = NDistinct j \<and> (\<exists>k. vec_get N (R ! j) = Some (NDistinct k))" by blast
    have "optimized (nodes @ [node]) kept N' R'"
      unfolding optimized_def new
    proof (intro conjI allI impI ballI)
      show "i < length (nodes @ [node])" if "i \<in> set kept" for i using that assms(1) by (auto simp: optimized_def)
      show "(R @ [x]) ! (kept ! t) = t" if "t < length N" for t using old that by simp
      show "remap_node (R @ [x]) ((nodes @ [node]) ! (kept ! t)) = Inr (N ! t)" if "t < length N" for t
        using remap old that by simp
      show "\<exists>j < i. (R @ [x]) ! i = (R @ [x]) ! j \<and> ((nodes @ [node]) ! i = NSlice j 0 None \<or>
          (nodes @ [node]) ! i = NDistinct j \<and> (\<exists>k. vec_get N ((R @ [x]) ! j) = Some (NDistinct k)))"
        if i: "i < length (nodes @ [node])" "i \<notin> set kept" for i
      proof (cases "i = length nodes")
        case True
        with j len show ?thesis by (intro exI [of _ j]) (auto simp: nth_append)
      next
        case False
        with i have "i < length nodes" by simp
        with assms(1) i(2) obtain j where "j < i" "R ! i = R ! j" "nodes ! i = NSlice j 0 None \<or>
            nodes ! i = NDistinct j \<and> (\<exists>k. vec_get N (R ! j) = Some (NDistinct k))"
          unfolding optimized_def by blast
        with \<open>i < length nodes\<close> len show ?thesis by (intro exI [of _ j]) (auto simp: nth_append)
      qed
      show "(R @ [x]) ! i < length N" if "i < length (nodes @ [node])" for i
        using that assms(1) len j by (auto simp: optimized_def nth_append less_Suc_eq)
    qed (use assms(1) in \<open>simp_all add: optimized_def\<close>)
    then show ?thesis ..
  qed
qed

lemma optimized_pass:
  assumes "try_each optimize_step ns (N, R) = Inr (N', R')" and "optimized done kept N R"
    and "topological (done @ ns)"
  shows "\<exists>kept'. optimized (done @ ns) kept' N' R'"
  using assms
proof (induction ns arbitrary: "done" kept N R)
  case Nil
  then show ?case by auto
next
  case (Cons n ns)
  from Cons.prems(1) obtain N1 R1 where step: "optimize_step n (N, R) = Inr (N1, R1)"
    and rest: "try_each optimize_step ns (N1, R1) = Inr (N', R')" by (auto simp: and_then_Inr)
  have "vec_get (done @ n # ns) (length done) = Some n" by (simp add: vec_get_def)
  then have "\<forall>j \<in> set (node_inputs n). j < length done" using topological_inputs [OF Cons.prems(3)] by blast
  from optimized_step [OF Cons.prems(2) step this] obtain kept1 where "optimized (done @ [n]) kept1 N1 R1" by blast
  from Cons.IH [OF rest this] Cons.prems(3) show ?case by simp
qed

lemma optimize_optimized:
  assumes "optimize plan = Inr plan'" and "topological (pl_nodes plan)"
  shows "\<exists>kept R. optimized (pl_nodes plan) kept (pl_nodes plan') R \<and> pl_root plan < length (pl_nodes plan) \<and>
    pl_root plan' = R ! pl_root plan \<and> pl_output plan' = pl_output plan \<and> pl_fingerprint plan' = pl_fingerprint plan"
proof -
  from assms(1) obtain N R root where pass: "try_each optimize_step (pl_nodes plan) ([], []) = Inr (N, R)"
    and root: "mapped (pl_root plan) R = Inr root"
    and plan': "plan' = \<lparr>pl_nodes = N, pl_root = root, pl_output = pl_output plan, pl_fingerprint = pl_fingerprint plan\<rparr>"
    by (auto simp: optimize_def and_then_Inr)
  have "optimized [] [] [] ([] :: plan_id list)" by (simp add: optimized_def)
  from optimized_pass [OF pass this] assms(2) obtain kept where kept: "optimized (pl_nodes plan) kept N R" by auto
  then have "length R = length (pl_nodes plan)" by (simp add: optimized_def)
  with kept root plan' show ?thesis by (intro exI [of _ kept] exI [of _ R]) (simp add: mapped_Inr vec_get_def split: if_splits)
qed

section \<open>The pass succeeds\<close>

lemma remap_kind_target: "remap_kind R k = Inr k' \<Longrightarrow> existential_target k = None \<Longrightarrow> k' = k"
  by (cases k) simp_all

lemma condition_subqueries_dependencies: "condition_subqueries node \<subseteq> set (node_existential_dependencies node)"
  by (cases node) (auto simp: condition_subqueries_def filter_condition_def existential_dependencies_set)

lemma topological_node:
  assumes "topological (done @ n # ns)"
  shows "\<forall>j \<in> set (node_inputs n). j < length done" and "\<forall>q \<in> condition_subqueries n. q < length done"
proof -
  from assms have "\<forall>j \<in> set (node_dependencies n). j < length done"
    unfolding topological_def by (elim allE [of _ "length done"]) simp
  with condition_subqueries_dependencies [of n]
  show "\<forall>j \<in> set (node_inputs n). j < length done" "\<forall>q \<in> condition_subqueries n. q < length done"
    by (auto simp: node_dependencies_def)
qed

lemma optimize_pass_total:
  assumes "topological (done @ ns)" and "length R = length done" and "length N \<le> length done"
    and "length (done @ ns) \<le> 2 ^ 32"
  shows "\<exists>N' R'. try_each optimize_step ns (N, R) = Inr (N', R') \<and> length R' = length (done @ ns) \<and> length N' \<le> length (done @ ns)"
  using assms
proof (induction ns arbitrary: "done" N R)
  case Nil
  then show ?case by simp
next
  case (Cons n ns)
  from remap_node_total [of n R] topological_node [OF Cons.prems(1)] Cons.prems(2)
  obtain n' where n': "remap_node R n = Inr n'" by auto
  have "\<exists>N1 R1. optimize_step n (N, R) = Inr (N1, R1) \<and> length R1 = length (done @ [n]) \<and> length N1 \<le> length (done @ [n])"
    using n' Cons.prems(2-4)
    by (cases "redundant_target n' N") (auto simp: optimize_step_def plan_id_from_index_def)
  then obtain N1 R1 where step: "optimize_step n (N, R) = Inr (N1, R1)"
    and len: "length R1 = length (done @ [n])" "length N1 \<le> length (done @ [n])" by blast
  from Cons.IH [of "done @ [n]" R1 N1] len Cons.prems step show ?case by simp
qed

lemma optimize_total:
  assumes "plan_valid plan" and "length (pl_nodes plan) \<le> 2 ^ 32"
  shows "\<exists>plan'. optimize plan = Inr plan' \<and> length (pl_nodes plan') \<le> length (pl_nodes plan)"
proof -
  from optimize_pass_total [of "[]" "pl_nodes plan" "[]" "[]"] assms obtain N R
    where "try_each optimize_step (pl_nodes plan) ([], []) = Inr (N, R)"
      and "length R = length (pl_nodes plan)" "length N \<le> length (pl_nodes plan)"
    by (auto simp: plan_valid_def)
  with assms(1) show ?thesis by (auto simp: optimize_def plan_valid_def mapped_def vec_get_def)
qed

section \<open>Numbering\<close>

lemma optimized_facts:
  assumes "optimized nodes kept N R"
  shows "length R = length nodes" and "i < length nodes \<Longrightarrow> R ! i < length N"
    and "t < length N \<Longrightarrow> kept ! t < length nodes \<and> R ! (kept ! t) = t \<and> remap_node R (nodes ! (kept ! t)) = Inr (N ! t)"
    and "i \<in> set kept \<Longrightarrow> i < length nodes \<and> kept ! (R ! i) = i \<and> remap_node R (nodes ! i) = Inr (N ! (R ! i))"
    and "i < length nodes \<Longrightarrow> i \<notin> set kept \<Longrightarrow> \<exists>j < i. R ! i = R ! j \<and> (nodes ! i = NSlice j 0 None \<or>
      nodes ! i = NDistinct j \<and> (\<exists>k. vec_get N (R ! j) = Some (NDistinct k)))"
    and "s < t \<Longrightarrow> t < length N \<Longrightarrow> kept ! s < kept ! t"
proof -
  show "i \<in> set kept \<Longrightarrow> i < length nodes \<and> kept ! (R ! i) = i \<and> remap_node R (nodes ! i) = Inr (N ! (R ! i))"
    using assms unfolding optimized_def in_set_conv_nth by auto
  show "s < t \<Longrightarrow> t < length N \<Longrightarrow> kept ! s < kept ! t"
    using assms by (simp add: optimized_def sorted_wrt_nth_less)
qed (use assms in \<open>auto simp: optimized_def\<close>)

text \<open>The kept node a node is renumbered to is not after it.\<close>

lemma kept_not_after:
  assumes "optimized nodes kept N R" and "i < length nodes"
  shows "kept ! (R ! i) \<le> i"
  using assms(2)
proof (induction i rule: less_induct)
  case (less i)
  note facts = optimized_facts [OF assms(1)]
  show ?case
  proof (cases "i \<in> set kept")
    case True
    with facts(4) show ?thesis by simp
  next
    case False
    from facts(5) [OF less.prems this] obtain j where "j < i" "R ! i = R ! j" by blast
    with less show ?thesis by fastforce
  qed
qed

end
