(* ===== verification/Exec_Optimize_Laws.thy ===== *)
theory Exec_Optimize_Laws
  imports Plan_Optimize_Laws
begin

text \<open>
  Execution of an optimized plan follows the execution of the original stage by stage: a node that is kept
  computes the same rows or fails with the same error, a node that is dropped would have repeated its input.
\<close>

section \<open>Repeated duplicate elimination\<close>

lemma push_unique_replay:
  assumes "try_each (push_unique B X E) input st = Inr st'"
  shows "\<exists>new. fst st' = fst st @ new \<and> try_each (push_unique B X E) new st = Inr st'"
  using assms
proof (induction input arbitrary: st)
  case Nil
  then show ?case by simp
next
  case (Cons row rows)
  from Cons.prems obtain st1 where one: "push_unique B X E row st = Inr st1"
    and rest: "try_each (push_unique B X E) rows st1 = Inr st'" by (auto simp: and_then_Inr)
  from Cons.IH [OF rest] obtain new where new: "fst st' = fst st1 @ new" "try_each (push_unique B X E) new st1 = Inr st'"
    by blast
  show ?case
  proof (cases "contains_output B X (fst st) row")
    case True
    with one have "st1 = st" by (auto simp: push_unique_def and_then_Inr)
    with new show ?thesis by blast
  next
    case False
    with push_unique_rows [OF one] have "fst st1 = fst st @ [row]" by (simp add: add_unique_def)
    with one new show ?thesis by (intro exI [of _ "row # new"]) simp
  qed
qed

lemma execute_distinct_again:
  assumes "execute_distinct B X E input = Inr rows"
  shows "execute_distinct B X E rows = Inr rows"
proof -
  from assms obtain st where st: "try_each (push_unique B X E) input ([], 0) = Inr st" and rows: "rows = fst st"
    by (auto simp: execute_distinct_def stage_rows_def and_then_Inr)
  from push_unique_replay [OF st] rows show ?thesis by (auto simp: execute_distinct_def stage_rows_def)
qed

section \<open>The two sessions\<close>

definition renumbered :: "'x logical_node list \<Rightarrow> 'x logical_node list \<Rightarrow> plan_id list \<Rightarrow> 'x exec_session \<Rightarrow> 'x exec_session \<Rightarrow> bool" where
  "renumbered nodes N R E F \<longleftrightarrow>
     same_resources E F \<and> pl_nodes (xs_plan E) = nodes \<and> pl_nodes (xs_plan F) = N \<and>
     (\<forall>q < length nodes. xs_exists F (R ! q) = xs_exists E q) \<and>
     (\<forall>i < length nodes. vec_get (xs_shapes F) (R ! i) = vec_get (xs_shapes E) i)"

definition existentials_in_filters :: "'x logical_plan \<Rightarrow> bool" where
  "existentials_in_filters plan \<longleftrightarrow>
     list_all (\<lambda>node. filter_condition node = None \<longrightarrow> node_existential_dependencies node = []) (pl_nodes plan)"

lemma remapped_expression:
  assumes "remap_plan_ids R c = Inr c'" and "\<forall>q \<in> set (collect_existential_dependencies c). xs_exists F (R ! q) = xs_exists E q"
  shows "same_expression E F c c'"
proof -
  from assms(1) obtain nodes where nodes: "list_all2 (\<lambda>n n'. and_then (remap_kind R (pn_kind n)) (\<lambda>k. Inr (n\<lparr>pn_kind := k\<rparr>)) = Inr n') (pe_nodes c) nodes"
    and c': "c' = c\<lparr>pe_nodes := nodes\<rparr>" by (auto simp: remap_plan_ids_def and_then_Inr try_map_Inr)
  have "same_node (\<lambda>q. xs_exists E q outer) (\<lambda>q. xs_exists F q outer) n n'"
    if n: "n \<in> set (pe_nodes c)" and n': "and_then (remap_kind R (pn_kind n)) (\<lambda>k. Inr (n\<lparr>pn_kind := k\<rparr>)) = Inr n'" for n n' outer
  proof (cases "existential_target (pn_kind n)")
    case None
    with n' show ?thesis by (auto simp: same_node_def and_then_Inr dest: remap_kind_target)
  next
    case (Some q)
    then obtain f where kind: "pn_kind n = PExists q f" by (auto dest: existential_targetD)
    from n Some have "q \<in> set (collect_existential_dependencies c)"
      unfolding collect_existential_dependencies_def set_map_filter by blast
    with assms(2) n' kind show ?thesis by (auto simp: same_node_def and_then_Inr ok_or_Inr vec_get_def split: if_splits)
  qed
  then have "list_all2 (same_node (\<lambda>q. xs_exists E q outer) (\<lambda>q. xs_exists F q outer)) (pe_nodes c) nodes" for outer
    using nodes by (auto simp: list_all2_conv_all_nth)
  with c' show ?thesis by (simp add: same_expression_def)
qed

lemma remapped_stage:
  assumes ses: "renumbered nodes N R E F" and n: "remap_node R node = Inr n" and node: "vec_get nodes k = Some node"
    and top: "topological nodes" and ex: "filter_condition node = None \<longrightarrow> node_existential_dependencies node = []"
    and inputs: "\<And>i. i \<in> set (node_inputs node) \<Longrightarrow> input_rows results' (R ! i) = input_rows results i"
  shows "execute_stage B S F outer results' n = execute_stage B S E outer results node"
proof -
  have k: "k < length nodes" using node by (simp add: vec_get_def split: if_splits)
  note map = remap_node_map [OF n]
  have same: "same_resources E F" using ses by (simp add: renumbered_def)
  have below: "q < length nodes" if "e \<in> set (node_expressions node)" "q \<in> set (collect_existential_dependencies e)" for e q
    using topological_existentials [OF top node that] k by simp
  have shape: "scope_shape F (R ! i) = scope_shape E i" if "i \<in> set (node_inputs node)" for i
    using ses topological_inputs [OF top node that] k by (simp add: renumbered_def scope_shape_def)
  have condition: "evaluate_expr S F (projr (remap_plan_ids R c)) = evaluate_expr S E c" if "filter_condition node = Some c" for c
  proof (rule evaluate_expr_same [OF same], rule remapped_expression)
    show "remap_plan_ids R c = Inr (projr (remap_plan_ids R c))" by (rule map(3) [OF that])
    have "c \<in> set (node_expressions node)" using that by (cases node) (simp_all add: filter_condition_def)
    with below ses show "\<forall>q \<in> set (collect_existential_dependencies c). xs_exists F (R ! q) = xs_exists E q"
      by (auto simp: renumbered_def)
  qed
  have others: "plain_expressions S E F (node_expressions node)" if "filter_condition node = None"
  proof -
    from that ex have "set (node_existential_dependencies node) = {}" by simp
    then have "set (collect_existential_dependencies e) = {}" if "e \<in> set (node_expressions node)" for e
      using that by (auto simp: existential_dependencies_set)
    then have "evaluate_expr S F e = evaluate_expr S E e" if "e \<in> set (node_expressions node)" for e
      using that by (intro evaluate_expr_same [OF same] same_expression_refl) auto
    then show ?thesis by (simp add: plain_expressions_def)
  qed
  show ?thesis unfolding map(1)
    by (rule execute_stage_map [OF same inputs shape condition others])
qed

section \<open>Which nodes are needed\<close>

lemma needed_corresponds:
  assumes opt: "optimized nodes kept N R" and root: "root < length nodes"
    and needed: "closed_under nodes A" "root \<in> A" "\<And>C. closed_under nodes C \<Longrightarrow> root \<in> C \<Longrightarrow> A \<subseteq> C"
    and needed': "closed_under N A'" "R ! root \<in> A'" "\<And>C. closed_under N C \<Longrightarrow> R ! root \<in> C \<Longrightarrow> A' \<subseteq> C"
    and i: "i \<in> set kept"
  shows "i \<in> A \<longleftrightarrow> R ! i \<in> A'"
proof
  note facts = optimized_facts [OF opt]
  have inputs: "node_inputs (N ! (R ! j)) = map ((!) R) (node_inputs (nodes ! j))" if "j \<in> set kept" for j
    using facts(4) [OF that] remap_node_map(1) by (metis node_inputs_map)
  have "closed_under nodes {j. R ! j \<in> A'}"
    unfolding closed_under_def
  proof (intro allI impI subsetI)
    fix j node a
    assume j: "j \<in> {j. R ! j \<in> A'}" and node: "vec_get nodes j = Some node" and a: "a \<in> set (node_inputs node)"
    then have len: "j < length nodes" "node = nodes ! j" by (simp_all add: vec_get_def split: if_splits)
    show "a \<in> {j. R ! j \<in> A'}"
    proof (cases "j \<in> set kept")
      case True
      have "vec_get N (R ! j) = Some (N ! (R ! j))" using facts(2) [OF len(1)] by (simp add: vec_get_def)
      with needed'(1) j have "set (node_inputs (N ! (R ! j))) \<subseteq> A'" unfolding closed_under_def by blast
      with a len show ?thesis by (auto simp: inputs [OF True])
    next
      case False
      from facts(5) [OF len(1) False] a j len show ?thesis by auto
    qed
  qed
  from needed(3) [OF this] needed'(2) show "i \<in> A \<Longrightarrow> R ! i \<in> A'" by auto
  have root_kept: "kept ! (R ! j) \<in> A" if "j \<in> A" "j < length nodes" for j
    using that
  proof (induction j rule: less_induct)
    case (less j)
    show ?case
    proof (cases "j \<in> set kept")
      case True
      with facts(4) less.prems show ?thesis by simp
    next
      case False
      from facts(5) [OF less.prems(2) False] obtain a where a: "a < j" "R ! j = R ! a" and "a \<in> set (node_inputs (nodes ! j))"
        by auto
      moreover have "vec_get nodes j = Some (nodes ! j)" using less.prems by (simp add: vec_get_def)
      ultimately have "a \<in> A" using needed(1) less.prems(1) unfolding closed_under_def by blast
      with less.IH [of a] a less.prems show ?thesis by simp
    qed
  qed
  have "closed_under N {t. t < length N \<longrightarrow> kept ! t \<in> A}"
    unfolding closed_under_def
  proof (intro allI impI subsetI)
    fix t node b
    assume t: "t \<in> {t. t < length N \<longrightarrow> kept ! t \<in> A}" and node: "vec_get N t = Some node" and b: "b \<in> set (node_inputs node)"
    then have len: "t < length N" "node = N ! t" by (simp_all add: vec_get_def split: if_splits)
    let ?j = "kept ! t"
    have j: "?j \<in> A" "?j < length nodes" "R ! ?j = t" "?j \<in> set kept" using t len facts(3) [OF len(1)] opt
      by (auto simp: optimized_def)
    from inputs [OF j(4)] j(3) len b obtain a where a: "a \<in> set (node_inputs (nodes ! ?j))" "b = R ! a" by auto
    have get: "vec_get nodes ?j = Some (nodes ! ?j)" using j(2) by (simp add: vec_get_def)
    with needed(1) j(1) a have "a \<in> A" unfolding closed_under_def by blast
    moreover have "a < length nodes"
      using a(1) remap_node_map(2) facts(4) [OF j(4)] facts(1) by metis
    ultimately show "b \<in> {t. t < length N \<longrightarrow> kept ! t \<in> A}" using root_kept a by simp
  qed
  moreover have "R ! root \<in> {t. t < length N \<longrightarrow> kept ! t \<in> A}" using root_kept needed(2) root by simp
  ultimately have "A' \<subseteq> {t. t < length N \<longrightarrow> kept ! t \<in> A}" by (rule needed'(3))
  moreover have "R ! i < length N" using facts(2,4) i by blast
  ultimately show "R ! i \<in> A' \<Longrightarrow> i \<in> A" using facts(4) [OF i] by auto
qed

section \<open>The two loops\<close>

definition stage_sim :: "digest \<Rightarrow> 'x scalar_ops \<Rightarrow> 'x exec_session \<Rightarrow> 'x scope_record list \<Rightarrow> 'x logical_node list \<Rightarrow> plan_id list \<Rightarrow>
    nat set \<Rightarrow> nat \<Rightarrow> 'x stage_results \<Rightarrow> 'x stage_results \<Rightarrow> bool" where
  "stage_sim B S E outer N R A k results results' \<longleftrightarrow>
     length results = length (pl_nodes (xs_plan E)) \<and> length results' = length N \<and> results_agree B S E outer k results \<and>
     (\<forall>i < k. i \<in> A \<longrightarrow> (\<exists>rows. vec_get results i = Some (Some rows) \<and> vec_get results' (R ! i) = Some (Some rows) \<and>
        ((\<exists>j. vec_get N (R ! i) = Some (NDistinct j)) \<longrightarrow> execute_distinct B (ops_ext S) E rows = Inr rows)))"

fun both_fail_or :: "('a \<Rightarrow> 'b \<Rightarrow> bool) \<Rightarrow> 'e + 'a \<Rightarrow> 'e + 'b \<Rightarrow> bool" where
  "both_fail_or P (Inl e) (Inl e') \<longleftrightarrow> e = e'"
| "both_fail_or P (Inr a) (Inr b) \<longleftrightarrow> P a b"
| "both_fail_or P _ _ \<longleftrightarrow> False"

lemma both_fail_or_bind:
  assumes "both_fail_or P m m'" and "\<And>a b. P a b \<Longrightarrow> both_fail_or Q (f a) (g b)"
  shows "both_fail_or Q (and_then m f) (and_then m' g)"
  using assms by (cases m; cases m') simp_all

lemma execute_index_unneeded: "vec_get needed i \<noteq> Some True \<Longrightarrow> execute_index B S E outer needed i results = Inr results"
  by (simp add: execute_index_def)

lemma execute_index_needed:
  assumes "vec_get needed i = Some True" and "session_timeout E = Inr ()" and "vec_get (pl_nodes (xs_plan E)) i = Some node"
    and "length results = length (pl_nodes (xs_plan E))"
  shows "execute_index B S E outer needed i results =
    and_then (execute_stage B S E outer results node) (\<lambda>rows.
    and_then (enforce_row_limit (xs_limits E) (length rows)) (\<lambda>_.
    and_then (enforce_working_byte_limit (xs_limits E) rows) (\<lambda>_. Inr (results[i := Some rows]))))"
  using assms by (simp add: execute_index_def vec_get_def split: if_splits)

text \<open>A node that is kept.\<close>

lemma kept_sim:
  assumes opt: "optimized nodes kept N R" and ses: "renumbered nodes N R E F" and top: "topological nodes"
    and ex: "existentials_in_filters (xs_plan E)" and fit: "tables_fit (xs_tables E)" and time: "session_timeout E = Inr ()"
    and sim: "stage_sim B S E outer N R (flagged needed) k results results'"
    and closed: "closed_under nodes (flagged needed)"
    and k: "k \<in> set kept" and flags: "k \<in> flagged needed \<longleftrightarrow> R ! k \<in> flagged needed'"
    and fresh: "\<forall>i < k. R ! i < R ! k"
  shows "both_fail_or (stage_sim B S E outer N R (flagged needed) (Suc k))
    (execute_index B S E outer needed k results) (execute_index B S F outer needed' (R ! k) results')"
proof (cases "k \<in> flagged needed")
  case False
  then have "vec_get needed k \<noteq> Some True" "vec_get needed' (R ! k) \<noteq> Some True" using flags by (auto simp: flagged_def)
  moreover have "stage_sim B S E outer N R (flagged needed) (Suc k) results results'"
    using sim False by (auto simp: stage_sim_def less_Suc_eq results_agree_def)
  ultimately show ?thesis by (simp add: execute_index_unneeded)
next
  case True
  note facts = optimized_facts [OF opt]
  have plans: "pl_nodes (xs_plan E) = nodes" "pl_nodes (xs_plan F) = N" "same_resources E F" using ses by (simp_all add: renumbered_def)
  have lens: "length results = length nodes" "length results' = length N" using sim plans by (simp_all add: stage_sim_def)
  have get: "vec_get nodes k = Some (nodes ! k)" using facts(4) [OF k] by (simp add: vec_get_def)
  have get': "vec_get N (R ! k) = Some (N ! (R ! k))" using facts(2,4) k by (simp add: vec_get_def)
  have needed: "vec_get needed k = Some True" "vec_get needed' (R ! k) = Some True" using True flags by (simp_all add: flagged_def)
  have remap: "remap_node R (nodes ! k) = Inr (N ! (R ! k))" using facts(4) [OF k] by simp
  have inputs: "input_rows results' (R ! i) = input_rows results i" if i: "i \<in> set (node_inputs (nodes ! k))" for i
  proof -
    have "i \<in> flagged needed" using closed True get i unfolding closed_under_def by blast
    with topological_inputs [OF top get i] sim obtain rows
      where "vec_get results i = Some (Some rows)" "vec_get results' (R ! i) = Some (Some rows)"
      unfolding stage_sim_def by blast
    then show ?thesis by (simp add: input_rows_def)
  qed
  have ex_k: "filter_condition (nodes ! k) = None \<longrightarrow> node_existential_dependencies (nodes ! k) = []"
    using ex facts(4) [OF k] by (auto simp: existentials_in_filters_def list_all_iff plans)
  have stage: "execute_stage B S F outer results' (N ! (R ! k)) = execute_stage B S E outer results (nodes ! k)"
    by (rule remapped_stage [OF ses remap get top ex_k inputs])
  note run = execute_index_needed [OF needed(1) time, of "nodes ! k" results B S outer, unfolded plans, OF get lens(1)]
  note run' = execute_index_needed [OF needed(2) trans [OF session_timeout_same [OF plans(3)] time],
      of "N ! (R ! k)" results' B S outer, unfolded plans, OF get' lens(2), unfolded stage xs_limits_same [OF plans(3)]]
  show ?thesis
  proof (cases "execute_index B S E outer needed k results")
    case (Inl e)
    then have "execute_index B S F outer needed' (R ! k) results' = Inl e"
      unfolding run run' by (auto simp: and_then_Inl)
    with Inl show ?thesis by simp
  next
    case (Inr after)
    then obtain rows where rows: "execute_stage B S E outer results (nodes ! k) = Inr rows"
      and limits: "enforce_row_limit (xs_limits E) (length rows) = Inr ()" "enforce_working_byte_limit (xs_limits E) rows = Inr ()"
      and after: "after = results[k := Some rows]"
      unfolding run by (auto simp: and_then_Inr)
    have after': "execute_index B S F outer needed' (R ! k) results' = Inr (results'[R ! k := Some rows])"
      unfolding run' by (simp add: rows limits)
    have agree: "results_agree B S E outer (Suc k) after"
      by (rule execute_index_agrees [OF Inr _ fit]) (use sim in \<open>simp add: stage_sim_def\<close>)
    have distinct: "execute_distinct B (ops_ext S) E rows = Inr rows" if "vec_get N (R ! k) = Some (NDistinct j)" for j
    proof -
      from that remap get' have "\<exists>i. nodes ! k = NDistinct i" by (cases "nodes ! k") (auto simp: and_then_Inr)
      with rows show ?thesis by (auto simp: and_then_Inr intro: execute_distinct_again)
    qed
    have "stage_sim B S E outer N R (flagged needed) (Suc k) after (results'[R ! k := Some rows])"
      unfolding stage_sim_def
    proof (intro conjI allI impI)
      show "length after = length (pl_nodes (xs_plan E))" "length (results'[R ! k := Some rows]) = length N"
        using lens plans after by simp_all
      show "results_agree B S E outer (Suc k) after" by (rule agree)
      show "\<exists>rs. vec_get after i = Some (Some rs) \<and> vec_get (results'[R ! k := Some rows]) (R ! i) = Some (Some rs) \<and>
          ((\<exists>j. vec_get N (R ! i) = Some (NDistinct j)) \<longrightarrow> execute_distinct B (ops_ext S) E rs = Inr rs)"
        if i: "i < Suc k" "i \<in> flagged needed" for i
      proof (cases "i = k")
        case True
        with distinct after lens facts(2,4) k show ?thesis by (auto simp: vec_get_def)
      next
        case False
        with i have "i < k" by simp
        with sim i(2) obtain rs where rs: "vec_get results i = Some (Some rs)" "vec_get results' (R ! i) = Some (Some rs)"
          "(\<exists>j. vec_get N (R ! i) = Some (NDistinct j)) \<longrightarrow> execute_distinct B (ops_ext S) E rs = Inr rs"
          unfolding stage_sim_def by blast
        have "R ! i \<noteq> R ! k" using fresh \<open>i < k\<close> by auto
        with rs False after show ?thesis by (intro exI [of _ rs]) (auto simp: vec_get_def split: if_splits)
      qed
    qed
    with Inr after' show ?thesis by simp
  qed
qed

text \<open>A node that is dropped.\<close>

lemma dropped_sim:
  assumes opt: "optimized nodes kept N R" and ses: "renumbered nodes N R E F" and fit: "tables_fit (xs_tables E)"
    and time: "session_timeout E = Inr ()"
    and sim: "stage_sim B S E outer N R (flagged needed) k results results'" and closed: "closed_under nodes (flagged needed)"
    and k: "k < length nodes" "k \<notin> set kept"
  shows "both_fail_or (stage_sim B S E outer N R (flagged needed) (Suc k)) (execute_index B S E outer needed k results) (Inr results')"
proof (cases "k \<in> flagged needed")
  case False
  then have "vec_get needed k \<noteq> Some True" by (auto simp: flagged_def)
  moreover have "stage_sim B S E outer N R (flagged needed) (Suc k) results results'"
    using sim False by (auto simp: stage_sim_def less_Suc_eq results_agree_def)
  ultimately show ?thesis by (simp add: execute_index_unneeded)
next
  case True
  note facts = optimized_facts [OF opt]
  have plans: "pl_nodes (xs_plan E) = nodes" using ses by (simp add: renumbered_def)
  have lens: "length results = length nodes" using sim plans by (simp add: stage_sim_def)
  have get: "vec_get nodes k = Some (nodes ! k)" using k by (simp add: vec_get_def)
  from facts(5) [OF k] obtain j where j: "j < k" "R ! k = R ! j"
    and kind: "nodes ! k = NSlice j 0 None \<or> nodes ! k = NDistinct j \<and> (\<exists>i. vec_get N (R ! j) = Some (NDistinct i))" by blast
  then have "j \<in> set (node_inputs (nodes ! k))" by auto
  then have "j \<in> flagged needed" using closed True get unfolding closed_under_def by blast
  with j sim obtain rows where rows: "vec_get results j = Some (Some rows)" "vec_get results' (R ! j) = Some (Some rows)"
    "(\<exists>i. vec_get N (R ! j) = Some (NDistinct i)) \<longrightarrow> execute_distinct B (ops_ext S) E rows = Inr rows"
    unfolding stage_sim_def by blast
  have agree: "results_agree B S E outer k results" using sim by (simp add: stage_sim_def)
  with rows(1) have limits: "length rows \<le> usize_max" "enforce_row_limit (xs_limits E) (length rows) = Inr ()"
    "enforce_working_byte_limit (xs_limits E) rows = Inr ()" by (auto simp: results_agree_def)
  have stage: "execute_stage B S E outer results (nodes ! k) = Inr rows"
    using kind rows limits(1) by (auto simp: input_rows_def slice_rows)
  have needed: "vec_get needed k = Some True" using True by (simp add: flagged_def)
  have run: "execute_index B S E outer needed k results = Inr (results[k := Some rows])"
    using execute_index_needed [OF needed time, of "nodes ! k" results B S outer] get lens limits by (simp add: plans stage)
  have "stage_sim B S E outer N R (flagged needed) (Suc k) (results[k := Some rows]) results'"
    unfolding stage_sim_def
  proof (intro conjI allI impI)
    show "length (results[k := Some rows]) = length (pl_nodes (xs_plan E))" "length results' = length N"
      using sim by (simp_all add: stage_sim_def)
    show "results_agree B S E outer (Suc k) (results[k := Some rows])" by (rule execute_index_agrees [OF run agree fit])
    show "\<exists>rs. vec_get (results[k := Some rows]) i = Some (Some rs) \<and> vec_get results' (R ! i) = Some (Some rs) \<and>
        ((\<exists>j. vec_get N (R ! i) = Some (NDistinct j)) \<longrightarrow> execute_distinct B (ops_ext S) E rs = Inr rs)"
      if i: "i < Suc k" "i \<in> flagged needed" for i
    proof (cases "i = k")
      case True
      with rows j lens k show ?thesis by (intro exI [of _ rows]) (simp add: vec_get_def)
    next
      case False
      with i sim obtain rs where "vec_get results i = Some (Some rs)" "vec_get results' (R ! i) = Some (Some rs)"
        "(\<exists>j. vec_get N (R ! i) = Some (NDistinct j)) \<longrightarrow> execute_distinct B (ops_ext S) E rs = Inr rs"
        unfolding stage_sim_def by (metis less_antisym)
      with False show ?thesis by (intro exI [of _ rs]) (simp add: vec_get_def split: if_splits)
    qed
  qed
  with run show ?thesis by simp
qed

lemma and_then_return: "and_then m Inr = m"
  by (cases m) simp_all

lemma try_each_snoc: "try_each f [0..<Suc k] s = and_then (try_each f [0..<k] s) (f k)"
proof -
  have "try_each f [k] x = f k x" for x by (cases "f k x") simp_all
  then have "try_each f [k] = f k" by (rule ext)
  then show ?thesis by (simp add: try_each_append)
qed

lemma loops_sim:
  assumes opt: "optimized nodes kept N R" and ses: "renumbered nodes N R E F" and top: "topological nodes"
    and ex: "existentials_in_filters (xs_plan E)" and fit: "tables_fit (xs_tables E)" and time: "session_timeout E = Inr ()"
    and closed: "closed_under nodes (flagged needed)"
    and flags: "\<And>i. i \<in> set kept \<Longrightarrow> i \<in> flagged needed \<longleftrightarrow> R ! i \<in> flagged needed'"
    and init: "stage_sim B S E outer N R (flagged needed) 0 init init'"
    and k: "k \<le> length nodes" and m: "m \<le> length N" "\<And>t. t < length N \<Longrightarrow> kept ! t < k \<longleftrightarrow> t < m"
  shows "both_fail_or (stage_sim B S E outer N R (flagged needed) k)
    (try_each (execute_index B S E outer needed) [0..<k] init) (try_each (execute_index B S F outer needed') [0..<m] init')"
  using k m
proof (induction k arbitrary: m)
  case 0
  then have "m = 0" by (metis less_nat_zero_code linorder_neqE_nat order_less_le_trans)
  with init show ?case by simp
next
  case (Suc k)
  note facts = optimized_facts [OF opt]
  have k: "k < length nodes" using Suc.prems by simp
  show ?case
  proof (cases "k \<in> set kept")
    case True
    have Rk: "R ! k < length N" "kept ! (R ! k) = k" using facts(2,4) True by auto
    have sep: "kept ! t < k \<longleftrightarrow> t < R ! k" if "t < length N" for t
      using facts(6) [of t "R ! k"] facts(6) [of "R ! k" t] that Rk
      by (metis linorder_neqE_nat order_less_asym order_less_irrefl)
    have m: "m = Suc (R ! k)"
    proof (rule antisym)
      show "Suc (R ! k) \<le> m" using Suc.prems(3) [OF Rk(1)] Rk(2) by simp
      show "m \<le> Suc (R ! k)"
      proof (rule ccontr)
        assume "\<not> m \<le> Suc (R ! k)"
        then have t: "Suc (R ! k) < m" "Suc (R ! k) < length N" using Suc.prems(2) by simp_all
        from Suc.prems(3) [OF t(2)] t facts(6) [of "R ! k" "Suc (R ! k)"] Rk show False by simp
      qed
    qed
    have fresh: "\<forall>i < k. R ! i < R ! k"
    proof (intro allI impI)
      fix i assume i: "i < k"
      then have len: "i < length nodes" using k by simp
      have "kept ! (R ! i) < k" using kept_not_after [OF opt len] i by simp
      with sep [OF facts(2) [OF len]] show "R ! i < R ! k" by simp
    qed
    have "both_fail_or (stage_sim B S E outer N R (flagged needed) k)
      (try_each (execute_index B S E outer needed) [0..<k] init) (try_each (execute_index B S F outer needed') [0..<R ! k] init')"
      by (rule Suc.IH) (use k Rk sep in auto)
    then show ?thesis unfolding m try_each_snoc
      by (rule both_fail_or_bind) (rule kept_sim [OF opt ses top ex fit time _ closed True flags [OF True] fresh])
  next
    case False
    have sep: "kept ! t < k \<longleftrightarrow> t < m" if "t < length N" for t
    proof -
      have "kept ! t \<in> set kept" using that opt by (simp add: optimized_def)
      with False have "kept ! t \<noteq> k" by metis
      with Suc.prems(3) [OF that] show ?thesis by auto
    qed
    have "both_fail_or (stage_sim B S E outer N R (flagged needed) k)
      (try_each (execute_index B S E outer needed) [0..<k] init) (try_each (execute_index B S F outer needed') [0..<m] init')"
      by (rule Suc.IH) (use k Suc.prems sep in auto)
    then have "both_fail_or (stage_sim B S E outer N R (flagged needed) (Suc k))
      (and_then (try_each (execute_index B S E outer needed) [0..<k] init) (execute_index B S E outer needed k))
      (and_then (try_each (execute_index B S F outer needed') [0..<m] init') Inr)"
      by (rule both_fail_or_bind) (rule dropped_sim [OF opt ses fit time _ closed k False])
    then show ?thesis unfolding try_each_snoc and_then_return .
  qed
qed

section \<open>Subplans\<close>

lemma try_each_unneeded:
  assumes "flagged needed \<subseteq> {i. i \<le> r}" and "r < m"
  shows "try_each (execute_index B S E outer needed) [0..<m] init = try_each (execute_index B S E outer needed) [0..<Suc r] init"
proof -
  have rest: "try_each (execute_index B S E outer needed) xs st = Inr st" if "\<forall>i \<in> set xs. r < i" for xs st
    using that
  proof (induction xs)
    case (Cons i xs)
    then have "i \<notin> flagged needed" using assms(1) by auto
    then have "vec_get needed i \<noteq> Some True" by (auto simp: flagged_def)
    with Cons show ?case by (simp add: execute_index_unneeded)
  qed simp
  have "[0..<m] = [0..<Suc r] @ [Suc r..<m]" using assms(2) by (metis Suc_leI le0 upt_add_eq_append le_add_diff_inverse)
  then show ?thesis by (simp only: try_each_append) (cases "try_each (execute_index B S E outer needed) [0..<Suc r] init"; simp add: rest)
qed

lemma optimized_topological:
  assumes opt: "optimized nodes kept N R" and top: "topological nodes" and t: "vec_get N t = Some n" and j: "j \<in> set (node_inputs n)"
  shows "j < t"
proof -
  note facts = optimized_facts [OF opt]
  from t have len: "t < length N" "n = N ! t" by (simp_all add: vec_get_def split: if_splits)
  from facts(3) [OF len(1)] have remap: "remap_node R (nodes ! (kept ! t)) = Inr n" and i: "kept ! t < length nodes" using len by auto
  from remap_node_map(1) [OF remap] j obtain a where a: "a \<in> set (node_inputs (nodes ! (kept ! t)))" "j = R ! a"
    by (metis image_iff list.set_map node_inputs_map)
  have get: "vec_get nodes (kept ! t) = Some (nodes ! (kept ! t))" using i by (simp add: vec_get_def)
  from topological_inputs [OF top get a(1)] have below: "a < kept ! t" .
  then have "a < length nodes" using i by simp
  with kept_not_after [OF opt this] below have "kept ! (R ! a) < kept ! t" by simp
  moreover have "R ! a < length N" using facts(2) \<open>a < length nodes\<close> by simp
  ultimately show ?thesis using a(2) facts(6) [of t "R ! a"] len(1)
    by (metis linorder_neqE_nat order_less_asym order_less_irrefl)
qed

lemma optimized_subplan:
  assumes opt: "optimized nodes kept N R" and ses: "renumbered nodes N R E F" and top: "topological nodes"
    and ex: "existentials_in_filters (xs_plan E)" and fit: "tables_fit (xs_tables E)" and root: "root < length nodes"
  shows "execute_subplan B S F (R ! root) outer = execute_subplan B S E root outer"
proof (cases "session_timeout E")
  case (Inl e)
  moreover have "session_timeout F = session_timeout E" using ses by (auto simp: renumbered_def intro: session_timeout_same)
  ultimately show ?thesis by (simp add: execute_subplan_def)
next
  case (Inr u)
  note facts = optimized_facts [OF opt]
  have plans: "pl_nodes (xs_plan E) = nodes" "pl_nodes (xs_plan F) = N" "same_resources E F" using ses by (simp_all add: renumbered_def)
  have time: "session_timeout E = Inr ()" "session_timeout F = Inr ()"
    using Inr session_timeout_same [OF plans(3)] by simp_all
  have Rroot: "R ! root < length N" by (rule facts(2) [OF root])
  have below': "\<forall>node \<in> set N. \<forall>i \<in> set (node_inputs node). i < length N"
  proof (intro ballI)
    fix n i assume n: "n \<in> set N" and i: "i \<in> set (node_inputs n)"
    then obtain t where t: "t < length N" "vec_get N t = Some n" by (auto simp: in_set_conv_nth vec_get_def)
    with optimized_topological [OF opt top t(2) i] show "i < length N" by simp
  qed
  obtain needed where needed: "structural_closure (xs_plan E) root = Inr needed"
    using structural_closure_total [of "xs_plan E" root] top root plans by auto
  obtain needed' where needed': "structural_closure (xs_plan F) (R ! root) = Inr needed'"
    unfolding structural_closure_def plans
    using closure_loop_total [of "replicate (length N) False" N "[R ! root]"] below' Rroot by auto
  note least = structural_closure_least [OF needed, unfolded plans]
  note least' = structural_closure_least [OF needed', unfolded plans]
  have flags: "i \<in> flagged needed \<longleftrightarrow> R ! i \<in> flagged needed'" if "i \<in> set kept" for i
    by (rule needed_corresponds [OF opt root least(3,2,4) least'(3,2,4) that])
  have bound: "flagged needed \<subseteq> {i. i \<le> root}" using least(4) [OF closed_below [OF top]] by simp
  have "closed_under N {i. i \<le> R ! root}"
    by (auto simp: closed_under_def dest: optimized_topological [OF opt top])
  then have bound': "flagged needed' \<subseteq> {i. i \<le> R ! root}" using least'(4) by simp
  let ?init = "replicate (length nodes) None" and ?init' = "replicate (length N) None"
  have init: "stage_sim B S E outer N R (flagged needed) 0 ?init ?init'"
    by (auto simp: stage_sim_def plans results_agree_def vec_get_def split: if_splits)
  have kept: "kept ! t < length nodes \<longleftrightarrow> t < length N" if "t < length N" for t using facts(3) that by simp
  have sim: "both_fail_or (stage_sim B S E outer N R (flagged needed) (length nodes))
      (try_each (execute_index B S E outer needed) [0..<length nodes] ?init)
      (try_each (execute_index B S F outer needed') [0..<length N] ?init')"
    by (rule loops_sim [OF opt ses top ex fit time(1) least(3) flags init order_refl order_refl kept])
  have final: "vec_get a root = vec_get b (R ! root)"
    if "stage_sim B S E outer N R (flagged needed) (length nodes) a b" for a b
    using that least(2) root unfolding stage_sim_def by metis
  have "and_then (try_each (execute_index B S E outer needed) [0..<length nodes] ?init) (\<lambda>results.
       ok_or (case vec_get results root of Some r \<Rightarrow> r | None \<Rightarrow> None) memory_exec_002) =
    and_then (try_each (execute_index B S F outer needed') [0..<length N] ?init') (\<lambda>results.
       ok_or (case vec_get results (R ! root) of Some r \<Rightarrow> r | None \<Rightarrow> None) memory_exec_002)"
    using sim final
    by (cases "try_each (execute_index B S E outer needed) [0..<length nodes] ?init";
        cases "try_each (execute_index B S F outer needed') [0..<length N] ?init'") simp_all
  then show ?thesis
    unfolding try_each_unneeded [OF bound root] try_each_unneeded [OF bound' Rroot]
    by (simp add: execute_subplan_def time needed needed' plans del: upt_Suc)
qed

section \<open>Subqueries and scopes\<close>

lemma optimized_exists:
  assumes opt: "optimized nodes kept N R" and top: "topological nodes"
    and ses: "\<And>f g. \<forall>q < length nodes. g (R ! q) = f q \<Longrightarrow> renumbered nodes N R (E\<lparr>xs_exists := f\<rparr>) (F\<lparr>xs_exists := g\<rparr>)"
    and ex: "existentials_in_filters (xs_plan E)" and fit: "tables_fit (xs_tables E)" and q: "q < length nodes"
  shows "evaluate_exists n B S F (R ! q) = evaluate_exists n B S E q"
  using q
proof (induction n arbitrary: q)
  case 0
  then show ?case by simp
next
  case (Suc n)
  then have "renumbered nodes N R (E\<lparr>xs_exists := evaluate_exists n B S E\<rparr>) (F\<lparr>xs_exists := evaluate_exists n B S F\<rparr>)"
    by (intro ses) simp
  from optimized_subplan [OF opt this top _ _ Suc.prems] ex fit show ?case by (intro ext) simp
qed

lemma try_each_build:
  "try_each (\<lambda>x acc. and_then (f acc x) (\<lambda>y. Inr (acc @ [y]))) xs acc = Inr ys \<longleftrightarrow>
    length ys = length acc + length xs \<and> take (length acc) ys = acc \<and>
    (\<forall>i < length xs. f (take (length acc + i) ys) (xs ! i) = Inr (ys ! (length acc + i)))"
proof (induction xs arbitrary: acc)
  case Nil
  then show ?case by auto
next
  case (Cons x xs)
  have step: "length ys = Suc (length acc + length xs) \<Longrightarrow> take (length acc) ys = acc \<Longrightarrow>
      take (Suc (length acc)) ys = acc @ [ys ! length acc]"
    by (simp add: take_Suc_conv_app_nth)
  show ?case
  proof
    assume "try_each (\<lambda>x acc. and_then (f acc x) (\<lambda>y. Inr (acc @ [y]))) (x # xs) acc = Inr ys"
    then obtain y where y: "f acc x = Inr y"
      and rest: "try_each (\<lambda>x acc. and_then (f acc x) (\<lambda>y. Inr (acc @ [y]))) xs (acc @ [y]) = Inr ys"
      by (auto simp: and_then_Inr)
    from Cons.IH [of "acc @ [y]"] rest have ys: "length ys = Suc (length acc + length xs)" "take (Suc (length acc)) ys = acc @ [y]"
      "\<forall>i < length xs. f (take (Suc (length acc + i)) ys) (xs ! i) = Inr (ys ! (Suc (length acc + i)))" by simp_all
    from ys(2) have here: "take (length acc) ys = acc" "ys ! length acc = y"
      by (metis append_eq_conv_conj length_append_singleton lessI less_imp_le_nat min.absorb2 min.commute take_take)
        (metis ys(2) length_append_singleton lessI nth_append_length nth_take)
    show "length ys = length acc + length (x # xs) \<and> take (length acc) ys = acc \<and>
      (\<forall>i < length (x # xs). f (take (length acc + i) ys) ((x # xs) ! i) = Inr (ys ! (length acc + i)))"
      using ys here y by (auto simp: less_Suc_eq_0_disj)
  next
    assume ys: "length ys = length acc + length (x # xs) \<and> take (length acc) ys = acc \<and>
      (\<forall>i < length (x # xs). f (take (length acc + i) ys) ((x # xs) ! i) = Inr (ys ! (length acc + i)))"
    then have "f acc x = Inr (ys ! length acc)" by auto
    moreover have "try_each (\<lambda>x acc. and_then (f acc x) (\<lambda>y. Inr (acc @ [y]))) xs (acc @ [ys ! length acc]) = Inr ys"
      using ys step Cons.IH [of "acc @ [ys ! length acc]"] by auto
    ultimately show "try_each (\<lambda>x acc. and_then (f acc x) (\<lambda>y. Inr (acc @ [y]))) (x # xs) acc = Inr ys" by simp
  qed
qed

lemma scope_shapes_ok:
  "scope_shapes plan = Inr shapes \<longleftrightarrow> length shapes = length (pl_nodes plan) \<and>
    (\<forall>i < length (pl_nodes plan). node_shape (take i shapes) (pl_nodes plan ! i) = Inr (shapes ! i))"
  using try_each_build [of node_shape "pl_nodes plan" "[]" shapes] by (simp add: scope_shapes_def)

lemma shape_for_prefix: "j < i \<Longrightarrow> i \<le> length shapes \<Longrightarrow> shape_for (take i shapes) j = Inr (shapes ! j)"
  by (simp add: shape_for_def vec_get_def)

lemma node_shape_map:
  assumes "\<And>j. j \<in> set (node_inputs node) \<Longrightarrow> shape_for shapes' (f j) = shape_for shapes j"
  shows "node_shape shapes' (node_map f g node) = node_shape shapes node"
  using assms by (cases node) simp_all

lemma optimized_shapes:
  assumes opt: "optimized (pl_nodes plan) kept (pl_nodes plan') R" and top: "topological (pl_nodes plan)"
    and shapes: "scope_shapes plan = Inr shapes"
  shows "\<exists>shapes'. scope_shapes plan' = Inr shapes' \<and> (\<forall>i < length (pl_nodes plan). vec_get shapes' (R ! i) = vec_get shapes i)"
proof -
  let ?nodes = "pl_nodes plan" and ?N = "pl_nodes plan'"
  note facts = optimized_facts [OF opt]
  from shapes have len: "length shapes = length ?nodes"
    and shape: "\<And>i. i < length ?nodes \<Longrightarrow> node_shape (take i shapes) (?nodes ! i) = Inr (shapes ! i)"
    by (simp_all add: scope_shapes_ok)
  have same: "shapes ! (kept ! (R ! i)) = shapes ! i" if "i < length ?nodes" for i
    using that
  proof (induction i rule: less_induct)
    case (less i)
    show ?case
    proof (cases "i \<in> set kept")
      case True
      with facts(4) show ?thesis by simp
    next
      case False
      from facts(5) [OF less.prems this] obtain j where j: "j < i" "R ! i = R ! j"
        "?nodes ! i = NSlice j 0 None \<or> ?nodes ! i = NDistinct j" by blast
      with shape [OF less.prems] less.prems len have "shapes ! i = shapes ! j"
        by (auto simp: shape_for_prefix)
      with less.IH [OF j(1)] j less.prems show ?thesis by simp
    qed
  qed
  let ?shapes' = "map (\<lambda>t. shapes ! (kept ! t)) [0..<length ?N]"
  have "scope_shapes plan' = Inr ?shapes'"
    unfolding scope_shapes_ok
  proof (intro conjI allI impI)
    show "length ?shapes' = length ?N" by simp
    fix t assume t: "t < length ?N"
    have get: "vec_get ?N t = Some (?N ! t)" using t by (simp add: vec_get_def)
    from facts(3) [OF t] have k: "kept ! t < length ?nodes" and remap: "remap_node R (?nodes ! (kept ! t)) = Inr (?N ! t)" by auto
    have getk: "vec_get ?nodes (kept ! t) = Some (?nodes ! (kept ! t))" using k by (simp add: vec_get_def)
    have input: "shape_for (take t ?shapes') (R ! j) = shape_for (take (kept ! t) shapes) j"
      if j: "j \<in> set (node_inputs (?nodes ! (kept ! t)))" for j
    proof -
      have below: "j < kept ! t" by (rule topological_inputs [OF top getk j])
      have "R ! j \<in> set (node_inputs (?N ! t))" using j remap_node_map(1) [OF remap] by (metis image_eqI list.set_map node_inputs_map)
      then have "R ! j < t" by (rule optimized_topological [OF opt top get])
      with t below k len same [of j] show ?thesis by (simp add: shape_for_prefix shape_for_def vec_get_def)
    qed
    show "node_shape (take t ?shapes') (?N ! t) = Inr (?shapes' ! t)"
      using node_shape_map [of "?nodes ! (kept ! t)" "take t ?shapes'" "(!) R" "take (kept ! t) shapes"] input shape [OF k] t
      by (simp add: remap_node_map(1) [OF remap])
  qed
  moreover have "vec_get ?shapes' (R ! i) = vec_get shapes i" if "i < length ?nodes" for i
    using same [OF that] facts(2) [OF that] that len by (simp add: vec_get_def)
  ultimately show ?thesis by blast
qed

lemma scope_shapes_total:
  assumes "topological (pl_nodes plan)"
  shows "\<exists>shapes. scope_shapes plan = Inr shapes"
proof -
  let ?step = "\<lambda>node shapes. and_then (node_shape shapes node) (\<lambda>s. Inr (shapes @ [s]))"
  have "\<exists>shapes. try_each ?step ns acc = Inr shapes" if "topological (done @ ns)" "length acc = length done" for ns "done" acc
    using that
  proof (induction ns arbitrary: "done" acc)
    case Nil
    then show ?case by simp
  next
    case (Cons n ns)
    from topological_node(1) [OF Cons.prems(1)] Cons.prems(2) have "\<exists>s. node_shape acc n = Inr s"
      by (cases n) (auto simp: shape_for_def vec_get_def)
    then obtain s where "node_shape acc n = Inr s" by blast
    with Cons.IH [of "done @ [n]" "acc @ [s]"] Cons.prems show ?case by simp
  qed
  from this [of "[]" "pl_nodes plan" "[]"] assms show ?thesis by (simp add: scope_shapes_def)
qed

section \<open>Limits\<close>

lemma remap_plan_ids_length: "remap_plan_ids R e = Inr e' \<Longrightarrow> length (pe_nodes e') = length (pe_nodes e)"
  by (auto simp: remap_plan_ids_def and_then_Inr try_map_Inr dest: list_all2_lengthD)

lemma remap_node_count: "remap_node R node = Inr n \<Longrightarrow> logical_node_expression_count n = logical_node_expression_count node"
  by (cases node) (auto simp: logical_node_expression_count_def and_then_Inr dest: remap_plan_ids_length)

lemma optimize_pass_count:
  "try_each optimize_step ns (N, R) = Inr (N', R') \<Longrightarrow>
    sum_list (map logical_node_expression_count N') \<le> sum_list (map logical_node_expression_count N) + sum_list (map logical_node_expression_count ns)"
proof (induction ns arbitrary: N R)
  case Nil
  then show ?case by simp
next
  case (Cons n ns)
  then obtain N1 R1 where step: "optimize_step n (N, R) = Inr (N1, R1)" and rest: "try_each optimize_step ns (N1, R1) = Inr (N', R')"
    by (auto simp: and_then_Inr)
  from step have "sum_list (map logical_node_expression_count N1) \<le> sum_list (map logical_node_expression_count N) + logical_node_expression_count n"
    by (auto simp: optimize_step_def and_then_Inr remap_node_count split: option.splits)
  with Cons.IH [OF rest] show ?case by simp
qed

lemma optimized_limits:
  assumes "optimize plan = Inr plan'" and "length (pl_nodes plan') \<le> length (pl_nodes plan)" and "validate_plan L plan = Inr ()"
  shows "validate_plan L plan' = Inr ()"
proof -
  from assms(1) have "sum_list (map logical_node_expression_count (pl_nodes plan')) \<le> sum_list (map logical_node_expression_count (pl_nodes plan))"
    by (auto simp: optimize_def and_then_Inr dest: optimize_pass_count)
  with assms(2,3) show ?thesis by (auto simp: validate_plan_def split: if_splits)
qed

section \<open>Execution\<close>

lemma optimized_execute:
  assumes opt: "optimize plan = Inr plan'" and valid: "plan_valid plan" and ex: "existentials_in_filters plan"
    and fit: "tables_fit tables" and limits: "validate_plan (eo_limits options) plan = Inr ()"
    and len: "length (pl_nodes plan') \<le> length (pl_nodes plan)"
  shows "execute B S late tables plan' ps options = execute B S late tables plan ps options"
proof -
  have top: "topological (pl_nodes plan)" using valid by (simp add: plan_valid_def)
  from optimize_optimized [OF opt top] obtain kept R where R: "optimized (pl_nodes plan) kept (pl_nodes plan') R"
    "pl_root plan < length (pl_nodes plan)" "pl_root plan' = R ! pl_root plan" "pl_output plan' = pl_output plan" by blast
  obtain shapes where shapes: "scope_shapes plan = Inr shapes" using scope_shapes_total [OF top] by blast
  from optimized_shapes [OF R(1) top shapes] obtain shapes' where shapes': "scope_shapes plan' = Inr shapes'"
    and same: "\<forall>i < length (pl_nodes plan). vec_get shapes' (R ! i) = vec_get shapes i" by blast
  let ?session = "\<lambda>plan shapes. \<lparr>xs_tables = tables, xs_plan = plan, xs_parameters = ps, xs_limits = eo_limits options,
    xs_late = late, xs_shapes = shapes, xs_exists = (\<lambda>_ _. Inl memory_exists_001)\<rparr>"
  have E: "session_new tables plan ps options late = Inr (?session plan shapes)"
    and F: "session_new tables plan' ps options late = Inr (?session plan' shapes')"
    by (simp_all add: session_new_def shapes shapes')
  have ren: "renumbered (pl_nodes plan) (pl_nodes plan') R ((?session plan shapes)\<lparr>xs_exists := f\<rparr>) ((?session plan' shapes')\<lparr>xs_exists := g\<rparr>)"
    if "\<forall>q < length (pl_nodes plan). g (R ! q) = f q" for f g
    using that same by (simp add: renumbered_def same_resources_def)
  have exists: "evaluate_exists MAX_EXISTENTIAL_DEPTH B S (?session plan' shapes') (R ! q) =
      evaluate_exists MAX_EXISTENTIAL_DEPTH B S (?session plan shapes) q" if "q < length (pl_nodes plan)" for q
    by (rule optimized_exists [OF R(1) top ren _ _ that]) (simp_all add: ex fit)
  have "execute_subplan B S (session_at MAX_EXISTENTIAL_DEPTH B S (?session plan' shapes')) (R ! pl_root plan) [] =
      execute_subplan B S (session_at MAX_EXISTENTIAL_DEPTH B S (?session plan shapes)) (pl_root plan) []"
    unfolding session_at_def
    by (rule optimized_subplan [OF R(1) ren top _ _ R(2)]) (simp_all add: ex fit exists)
  then show ?thesis
    using optimized_limits [OF opt len limits] limits
    by (simp add: execute_def E F R(3,4) session_timeout_def)
qed

end
