(* ===== verification/Exec_Sort_Laws.thy ===== *)
theory Exec_Sort_Laws
  imports Exec_Algebra Exact_Sum Value_Conformance
begin

text \<open>
  Sorting: what the comparison of key rows owes to the sort of the standard library, and that a sort arranges
  its input by the keys, first key first, in their directions, rows with equal keys in the order of the input.
\<close>

section \<open>The comparison of keys\<close>

definition result_type :: "'x logical_expr \<Rightarrow> type_def" where
  "result_type e = pn_ty (pe_nodes e ! pe_root e)"

text \<open>A datum that may be compared with the others of its column.\<close>

definition column_datum :: "'x ext \<Rightarrow> (ext_kind \<Rightarrow> 'x \<Rightarrow> bool) \<Rightarrow> type_def \<Rightarrow> 'x datum \<Rightarrow> bool" where
  "column_datum X ok ty d \<longleftrightarrow>
     datum_ext_ok ok d \<and> compare_datums X d d \<noteq> None \<and> (case d of Value v \<Rightarrow> of_type X ty v | _ \<Rightarrow> True)"

lemma scalar_of_type: "compare_values X v v \<noteq> None \<Longrightarrow> of_type X ty v \<Longrightarrow> \<exists>repr. ty_shape ty = ShScalar repr \<and> scalar_matches repr v"
  by (erule of_type.cases) (simp_all add: compare_values_def)

lemma same_type_compares:
  assumes "of_type X ty v" and "of_type X ty w" and "compare_values X v v \<noteq> None" and "compare_values X w w \<noteq> None"
  shows "compare_values X v w \<noteq> None"
proof -
  from scalar_of_type [OF assms(3,1)] scalar_of_type [OF assms(4,2)]
  obtain repr where "scalar_matches repr v" "scalar_matches repr w" by auto
  with assms(3,4) show ?thesis
    by (cases v; simp add: scalar_matches_def compare_values_def; cases w; simp add: scalar_matches_def compare_values_def
        split: scalar_repr.splits)
qed

lemma column_compares:
  "column_datum X ok ty a \<Longrightarrow> column_datum X ok ty b \<Longrightarrow> compare_datums X a b \<noteq> None"
  by (cases a; cases b) (simp_all add: column_datum_def del: not_None_eq, metis same_type_compares)

definition datum_ordering :: "'x ext \<Rightarrow> 'x sort_expr \<Rightarrow> 'x datum \<Rightarrow> 'x datum \<Rightarrow> ordering" where
  "datum_ordering X k a b =
     directed (se_direction k) (case compare_datums X a b of Some c \<Rightarrow> c | None \<Rightarrow> Equal)"

lemma directed_reverse: "directed d (reverse_ordering c) = reverse_ordering (directed d c)"
  by (cases d) (simp_all add: directed_def)

lemma datum_ordering_swap:
  assumes "ext_order_laws X ok" and "column_datum X ok ty a" and "column_datum X ok ty b"
  shows "datum_ordering X k b a = reverse_ordering (datum_ordering X k a b)"
  using compare_datums_swap [OF assms(1), of a b] column_compares [OF assms(2,3)] assms(2,3)
  by (auto simp: datum_ordering_def column_datum_def directed_reverse)

lemma datum_ordering_trans:
  assumes "ext_order_laws X ok" and "column_datum X ok ty a" and "column_datum X ok ty b" and "column_datum X ok ty c"
    and "datum_ordering X k a b \<noteq> Greater" and "datum_ordering X k b c \<noteq> Greater"
  shows "datum_ordering X k a c \<noteq> Greater"
proof -
  from assms(2-4) have ok: "datum_ext_ok ok a" "datum_ext_ok ok b" "datum_ext_ok ok c" by (simp_all add: column_datum_def)
  have rev: "reverse_ordering x \<noteq> Greater \<longleftrightarrow> x \<noteq> Less" for x by (cases x) simp_all
  obtain ab ba ac ca bc cb where cmp: "compare_datums X a b = Some ab" "compare_datums X b a = Some ba"
      "compare_datums X a c = Some ac" "compare_datums X c a = Some ca"
      "compare_datums X b c = Some bc" "compare_datums X c b = Some cb"
    using column_compares [OF assms(2,3)] column_compares [OF assms(3,2)] column_compares [OF assms(2,4)]
      column_compares [OF assms(4,2)] column_compares [OF assms(3,4)] column_compares [OF assms(4,3)] by auto
  have swap: "ba = reverse_ordering ab" "ca = reverse_ordering ac" "cb = reverse_ordering bc"
    using compare_datums_swap [OF assms(1) ok(1,2)] compare_datums_swap [OF assms(1) ok(1,3)]
      compare_datums_swap [OF assms(1) ok(2,3)] cmp by auto
  show ?thesis
  proof (cases "se_direction k")
    case Ascending
    with assms(5,6) cmp compare_datums_trans [OF assms(1) ok] show ?thesis
      by (simp add: datum_ordering_def directed_def)
  next
    case Descending
    with assms(5,6) cmp swap compare_datums_trans [OF assms(1) ok(3,2,1)] show ?thesis
      by (simp add: datum_ordering_def directed_def rev)
  qed
qed

lemma compare_key_values_Cons:
  "compare_key_values X (l # ls) (r # rs) (k # ks) =
     (if datum_ordering X k l r \<noteq> Equal then datum_ordering X k l r else compare_key_values X ls rs ks)"
  by (simp add: datum_ordering_def Let_def)

definition key_columns :: "'x ext \<Rightarrow> (ext_kind \<Rightarrow> 'x \<Rightarrow> bool) \<Rightarrow> 'x sort_expr list \<Rightarrow> 'x datum list \<Rightarrow> bool" where
  "key_columns X ok ks ds \<longleftrightarrow> list_all2 (\<lambda>k d. column_datum X ok (result_type (se_expression k)) d) ks ds"

lemma compare_keys_swap:
  assumes "ext_order_laws X ok" and "key_columns X ok ks as" and "key_columns X ok ks bs"
  shows "compare_key_values X bs as ks = reverse_ordering (compare_key_values X as bs ks)"
  using assms(2,3)
proof (induction ks arbitrary: as bs)
  case Nil
  then show ?case by simp
next
  case (Cons k ks)
  then obtain a as' b bs' where split: "as = a # as'" "bs = b # bs'"
    and a: "column_datum X ok (result_type (se_expression k)) a" and b: "column_datum X ok (result_type (se_expression k)) b"
    and rest: "key_columns X ok ks as'" "key_columns X ok ks bs'"
    by (auto simp: key_columns_def list_all2_Cons1)
  from datum_ordering_swap [OF assms(1) a b, of k] Cons.IH [OF rest] show ?case
    unfolding split compare_key_values_Cons by (cases "datum_ordering X k a b") simp_all
qed

lemma both_ways: "c \<noteq> Greater \<Longrightarrow> reverse_ordering c \<noteq> Greater \<Longrightarrow> c = Equal"
  by (cases c) simp_all

lemma compare_keys_trans:
  assumes "ext_order_laws X ok" and "key_columns X ok ks as" and "key_columns X ok ks bs" and "key_columns X ok ks cs"
    and "compare_key_values X as bs ks \<noteq> Greater" and "compare_key_values X bs cs ks \<noteq> Greater"
  shows "compare_key_values X as cs ks \<noteq> Greater"
  using assms(2-6)
proof (induction ks arbitrary: as bs cs)
  case Nil
  then show ?case by simp
next
  case (Cons k ks)
  then obtain a as' b bs' c cs' where split: "as = a # as'" "bs = b # bs'" "cs = c # cs'"
    and a: "column_datum X ok (result_type (se_expression k)) a" and b: "column_datum X ok (result_type (se_expression k)) b"
    and c: "column_datum X ok (result_type (se_expression k)) c"
    and rest: "key_columns X ok ks as'" "key_columns X ok ks bs'" "key_columns X ok ks cs'"
    by (auto simp: key_columns_def list_all2_Cons1)
  note swap = datum_ordering_swap [OF assms(1)]
  note trans = datum_ordering_trans [OF assms(1)]
  have ab: "datum_ordering X k a b \<noteq> Greater" and bc: "datum_ordering X k b c \<noteq> Greater"
    using Cons.prems(4,5) unfolding split compare_key_values_Cons by (metis ordering.distinct)+
  have ac: "datum_ordering X k a c \<noteq> Greater" by (rule trans [OF a b c ab bc])
  show ?case
  proof (cases "datum_ordering X k a c = Equal")
    case True
    then have ca: "datum_ordering X k c a \<noteq> Greater" using swap [OF a c, of k] by simp
    have "datum_ordering X k b a \<noteq> Greater" "datum_ordering X k c b \<noteq> Greater"
      using trans [OF b c a bc ca] trans [OF c a b ca ab] .
    with ab bc swap [OF a b, of k] swap [OF b c, of k] have "datum_ordering X k a b = Equal" "datum_ordering X k b c = Equal"
      by (metis both_ways)+
    with True Cons.prems(4,5) Cons.IH [OF rest] show ?thesis unfolding split compare_key_values_Cons by simp
  next
    case False
    with ac show ?thesis unfolding split compare_key_values_Cons by simp
  qed
qed

text \<open>The rows that can be sorted by given keys; the comparison without its last resort, the position.\<close>

definition sortable :: "'x ext \<Rightarrow> (ext_kind \<Rightarrow> 'x \<Rightarrow> bool) \<Rightarrow> 'x sort_expr list \<Rightarrow> 'x keyed_row set" where
  "sortable X ok ks = {row. ext_order_laws X ok \<and> key_columns X ok ks (kr_values row)}"

definition by_keys :: "'x ext \<Rightarrow> 'x sort_expr list \<Rightarrow> 'x keyed_row \<Rightarrow> 'x keyed_row \<Rightarrow> ordering" where
  "by_keys X ks l r = compare_key_values X (kr_values l) (kr_values r) ks"

interpretation keys: total_comparison "by_keys X ks" "sortable X ok ks" for X ok ks
  by unfold_locales (unfold by_keys_def sortable_def mem_Collect_eq, metis compare_keys_swap, metis compare_keys_trans)

section \<open>The position decides nothing more\<close>

lemma insert_by_position:
  "\<forall>y \<in> set ys. kr_position x < kr_position y \<Longrightarrow> insert_by (compare_keys X ks) x ys = insert_by (by_keys X ks) x ys"
  by (induction ys) (auto simp: compare_keys_def by_keys_def Let_def cmp_of_def)

lemma sort_by_position:
  "sorted_wrt (\<lambda>x y. kr_position x < kr_position y) xs \<Longrightarrow> sort_by (compare_keys X ks) xs = sort_by (by_keys X ks) xs"
proof (induction xs)
  case Nil
  then show ?case by (simp add: sort_by_def)
next
  case (Cons x xs)
  then have "sort_by (compare_keys X ks) xs = sort_by (by_keys X ks) xs" by simp
  with Cons.prems set_sort_by [of "by_keys X ks" xs] show ?case
    by (simp add: sort_by_def insert_by_position)
qed

section \<open>What a sort does\<close>

definition row_keys :: "'x scalar_ops \<Rightarrow> 'x exec_session \<Rightarrow> 'x scope_record list \<Rightarrow> 'x sort_expr list \<Rightarrow> 'x working_row \<Rightarrow>
    'x datum list" where
  "row_keys S E outer ks row = map (\<lambda>k. projr (evaluate_expr S E (se_expression k) row outer)) ks"

definition row_order :: "'x scalar_ops \<Rightarrow> 'x exec_session \<Rightarrow> 'x scope_record list \<Rightarrow> 'x sort_expr list \<Rightarrow> 'x working_row \<Rightarrow>
    'x working_row \<Rightarrow> ordering" where
  "row_order S E outer ks l r = compare_key_values (ops_ext S) (row_keys S E outer ks l) (row_keys S E outer ks r) ks"

text \<open>The evaluator has checked a key against the type of its expression.\<close>

lemma checked_of_type:
  assumes "checked_result X ty exempt v = Inr w" and "exempt \<Longrightarrow> v = Null"
  shows "w = v \<and> (case w of Value u \<Rightarrow> of_type X ty u | _ \<Rightarrow> True)"
  using assms by (cases v) (auto simp: checked_result_def and_then_Inr map_err_Inr validate_value_ok split: if_splits)

lemma evaluate_node_typed:
  assumes "evaluate_node n S nodes ctx rex i = Inr d"
  shows "case d of Value v \<Rightarrow> of_type (ops_ext S) (pn_ty (nodes ! i)) v | _ \<Rightarrow> True"
proof (cases n)
  case 0
  with assms show ?thesis by simp
next
  case (Suc m)
  with assms obtain node v where node: "vec_get nodes i = Some node"
    and checked: "checked_result (ops_ext S) (pn_ty node) (null_extended_field ctx (pn_kind node) v) v = Inr d"
    by (auto simp: and_then_Inr ok_or_Inr)
  have "null_extended_field ctx (pn_kind node) v \<Longrightarrow> v = Null"
    by (auto simp: null_extended_field_def split: prepared_kind.splits)
  with checked_of_type [OF checked] node show ?thesis by (auto simp: vec_get_def split: if_splits)
qed

lemma evaluate_expr_typed:
  "evaluate_expr S E e row outer = Inr d \<Longrightarrow> case d of Value v \<Rightarrow> of_type (ops_ext S) (result_type e) v | _ \<Rightarrow> True"
  unfolding evaluate_expr_def evaluate_datum_with_exists_def and_then_Inr result_type_def
  by (elim exE conjE) (rule evaluate_node_typed)

lemma sort_keys_columns:
  assumes "sort_keys S E outer ks err row = Inr vs" and "\<forall>d \<in> set (row_keys S E outer ks row). datum_ext_ok ok d"
  shows "key_columns (ops_ext S) ok ks vs \<and> vs = row_keys S E outer ks row"
proof -
  from assms(1) have vs: "list_all2 (\<lambda>k d. evaluate_expr S E (se_expression k) row outer = Inr d) ks vs"
    and self: "\<forall>v \<in> set vs. compare_datums (ops_ext S) v v \<noteq> None"
    by (auto simp: sort_keys_def and_then_Inr try_map_Inr try_all_ok split: if_splits)
  from assms(1) have keys: "vs = row_keys S E outer ks row" by (simp add: row_keys_def sort_keys_values)
  have "key_columns (ops_ext S) ok ks vs" unfolding key_columns_def
    using vs self assms(2) unfolding keys [symmetric]
    by (auto simp: list_all2_conv_all_nth column_datum_def simp del: not_None_eq dest!: evaluate_expr_typed)
  with keys show ?thesis by simp
qed

lemma sorted_enumerate: "sorted_wrt (\<lambda>x y. fst x < fst y) (enumerate k xs)"
  by (induction xs arbitrary: k) (auto simp: in_set_enumerate_eq)

definition keyed_rows :: "'x scalar_ops \<Rightarrow> 'x exec_session \<Rightarrow> 'x scope_record list \<Rightarrow> 'x sort_expr list \<Rightarrow> 'x working_row list \<Rightarrow>
    'x keyed_row list" where
  "keyed_rows S E outer ks input =
     map (\<lambda>(position, row). \<lparr>kr_position = position, kr_values = row_keys S E outer ks row, kr_row = row\<rparr>) (enumerate 0 input)"

lemma keyed_rows_facts:
  "map kr_row (keyed_rows S E outer ks input) = input"
  "sorted_wrt (\<lambda>x y. kr_position x < kr_position y) (keyed_rows S E outer ks input)"
  "k \<in> set (keyed_rows S E outer ks input) \<Longrightarrow> kr_values k = row_keys S E outer ks (kr_row k)"
proof -
  show "map kr_row (keyed_rows S E outer ks input) = input"
    by (simp add: keyed_rows_def case_prod_unfold comp_def)
  show "sorted_wrt (\<lambda>x y. kr_position x < kr_position y) (keyed_rows S E outer ks input)"
    using sorted_enumerate [of 0 input] by (simp add: keyed_rows_def sorted_wrt_map case_prod_unfold)
  show "kr_values k = row_keys S E outer ks (kr_row k)" if "k \<in> set (keyed_rows S E outer ks input)"
    using that by (auto simp: keyed_rows_def)
qed

lemma sort_rows_keyed:
  "sort_rows S E input outer ks = map kr_row (sort_by (by_keys (ops_ext S) ks) (keyed_rows S E outer ks input))"
  using sort_by_position [OF keyed_rows_facts(2), of "ops_ext S" ks S E outer ks input]
  by (simp add: sort_rows_def keyed_rows_def row_keys_def)

lemma execute_sort_columns:
  assumes "execute_sort S E input outer ks = Inr rows" and "row \<in> set input"
    and "\<forall>d \<in> set (row_keys S E outer ks row). datum_ext_ok ok d"
  shows "key_columns (ops_ext S) ok ks (row_keys S E outer ks row)"
proof -
  from assms(1) obtain keyed where keyed: "list_all2 (\<lambda>(position, row) k.
         and_then (session_timeout E) (\<lambda>_.
         and_then (sort_keys S E outer ks memory_sort_001 row) (\<lambda>vs.
           Inr \<lparr>kr_position = position, kr_values = vs, kr_row = row\<rparr>)) = Inr k) (enumerate 0 input) keyed"
    by (auto simp: execute_sort_def and_then_Inr try_map_Inr case_prod_unfold)
  from assms(2) obtain i where i: "i < length input" "input ! i = row" by (auto simp: in_set_conv_nth)
  with keyed have "\<exists>vs. sort_keys S E outer ks memory_sort_001 row = Inr vs"
    by (auto simp: list_all2_conv_all_nth and_then_Inr nth_enumerate_eq dest!: spec [of _ i])
  with sort_keys_columns [OF _ assms(3)] show ?thesis by metis
qed

theorem sorted_by_keys:
  assumes "execute_sort S E input outer ks = Inr rows" and "ext_order_laws (ops_ext S) ok"
    and "\<forall>row \<in> set input. \<forall>d \<in> set (row_keys S E outer ks row). datum_ext_ok ok d"
  shows "mset rows = mset input" and "sorted_wrt (\<lambda>l r. row_order S E outer ks l r \<noteq> Greater) rows"
    and "z \<in> set input \<Longrightarrow> filter (\<lambda>r. row_order S E outer ks z r = Equal) rows = filter (\<lambda>r. row_order S E outer ks z r = Equal) input"
proof -
  let ?keyed = "keyed_rows S E outer ks input"
  let ?sorted = "sort_by (by_keys (ops_ext S) ks) ?keyed"
  have rows: "rows = map kr_row ?sorted" using execute_sort_rows [OF assms(1)] by (simp add: sort_rows_keyed)
  have "mset rows = mset (map kr_row ?keyed)" unfolding rows mset_map by simp
  then show "mset rows = mset input" by (simp add: keyed_rows_facts)
  have order: "by_keys (ops_ext S) ks a b = row_order S E outer ks (kr_row a) (kr_row b)"
    if "a \<in> set ?keyed" "b \<in> set ?keyed" for a b
    using that by (simp add: by_keys_def row_order_def keyed_rows_facts(3))
  have sortable: "set ?keyed \<subseteq> sortable (ops_ext S) ok ks"
  proof
    fix k assume k: "k \<in> set ?keyed"
    then have "kr_row k \<in> set input" by (auto simp: keyed_rows_def in_set_enumerate_eq)
    with k assms execute_sort_columns [OF assms(1)] show "k \<in> sortable (ops_ext S) ok ks"
      by (simp add: sortable_def keyed_rows_facts(3))
  qed
  show "sorted_wrt (\<lambda>l r. row_order S E outer ks l r \<noteq> Greater) rows"
    unfolding rows sorted_wrt_map
    by (rule sorted_wrt_mono_rel [OF _ keys.sorted_sort [OF sortable]]) (simp add: order)
  show "filter (\<lambda>r. row_order S E outer ks z r = Equal) rows = filter (\<lambda>r. row_order S E outer ks z r = Equal) input"
    if "z \<in> set input"
  proof -
    from that obtain kz where kz: "kz \<in> set ?keyed" "kr_row kz = z"
      by (metis (no_types, lifting) imageE keyed_rows_facts(1) set_map)
    have "filter (\<lambda>k. row_order S E outer ks z (kr_row k) = Equal) ?sorted = filter (\<lambda>k. by_keys (ops_ext S) ks kz k = Equal) ?sorted"
      by (rule filter_cong) (auto simp: order [OF kz(1)] kz(2))
    also have "\<dots> = filter (\<lambda>k. by_keys (ops_ext S) ks kz k = Equal) ?keyed"
      by (rule keys.stable_sort [OF sortable]) (use kz(1) sortable in blast)
    also have "\<dots> = filter (\<lambda>k. row_order S E outer ks z (kr_row k) = Equal) ?keyed"
      by (rule filter_cong) (auto simp: order [OF kz(1)] kz(2))
    finally have "map kr_row (filter (\<lambda>k. row_order S E outer ks z (kr_row k) = Equal) ?sorted) =
        map kr_row (filter (\<lambda>k. row_order S E outer ks z (kr_row k) = Equal) ?keyed)" by simp
    then have "filter (\<lambda>r. row_order S E outer ks z r = Equal) (map kr_row ?sorted) =
        filter (\<lambda>r. row_order S E outer ks z r = Equal) (map kr_row ?keyed)"
      by (simp add: filter_map comp_def)
    then show ?thesis by (simp add: rows keyed_rows_facts(1))
  qed
qed

end
