(* ===== verification/Query_Samples.thy ===== *)
theory Query_Samples
  imports Write_Samples Memory_Query Exec_Optimize_Laws Exec_Sort_Laws
begin

text \<open>
  A plan over the rows of \<open>Write_Samples\<close>: a filter, a duplicate elimination twice, a slice without effect and a sort,
  with its optimized form and its execution.
\<close>

definition day_field :: "sample logical_expr" where
  "day_field =
     \<lparr>pe_nodes = [\<lparr>pn_kind = PField 0 0 False, pn_ty = date_type\<rparr>], pe_root = 0, pe_ty = date_type, pe_fingerprint = [],
      pe_bound_fingerprint = [], pe_scopes = [''u''], pe_outer_scope_count = 0\<rparr>"

definition day_is :: "32 word \<Rightarrow> sample logical_expr" where
  "day_is d =
     \<lparr>pe_nodes =
        [\<lparr>pn_kind = PField 0 0 False, pn_ty = date_type\<rparr>,
         \<lparr>pn_kind = PLiteral (Value (VDate (SDate d))), pn_ty = date_type\<rparr>,
         \<lparr>pn_kind = PBinary OpEq 0 1, pn_ty = truth_type_def\<rparr>],
      pe_root = 2, pe_ty = truth_type_def, pe_fingerprint = [], pe_bound_fingerprint = [], pe_scopes = [''u''],
      pe_outer_scope_count = 0\<rparr>"

text \<open>Whether the subquery at an index has rows, with one enclosing scope.\<close>

definition rows_exist :: "nat \<Rightarrow> sample logical_expr" where
  "rows_exist q =
     \<lparr>pe_nodes = [\<lparr>pn_kind = PExists q [], pn_ty = truth_type_def\<rparr>], pe_root = 0, pe_ty = truth_type_def,
      pe_fingerprint = [], pe_bound_fingerprint = [], pe_scopes = [''u''], pe_outer_scope_count = 0\<rparr>"

definition user_plan :: "sample logical_plan" where
  "user_plan =
     \<lparr>pl_nodes =
        [NSource stored_model None, NDistinct 0, NDistinct 1, NSource stored_model None, NFilter 2 (rows_exist 3),
         NSlice 4 0 None, NSort 5 [\<lparr>se_expression = day_field, se_direction = Ascending\<rparr>]],
      pl_root = 6, pl_output = OutModel stored_model, pl_fingerprint = []\<rparr>"

definition smaller_plan :: "sample logical_plan" where
  "smaller_plan =
     \<lparr>pl_nodes =
        [NSource stored_model None, NDistinct 0, NSource stored_model None, NFilter 1 (rows_exist 2),
         NSort 3 [\<lparr>se_expression = day_field, se_direction = Ascending\<rparr>]],
      pl_root = 4, pl_output = OutModel stored_model, pl_fingerprint = []\<rparr>"

lemma user_plan_optimizes: "optimize user_plan = Inr smaller_plan"
  by (simp add: user_plan_def smaller_plan_def optimize_def optimize_step_def rows_exist_def vec_get_def remap_plan_ids_def
      plan_id_from_index_def redundant_target_def mapped_def)

lemma user_plan_valid: "plan_valid user_plan" "existentials_in_filters user_plan"
  "validate_plan default_execution_limits user_plan = Inr ()"
proof -
  show "validate_plan default_execution_limits user_plan = Inr ()" by code_simp
  show "existentials_in_filters user_plan" by code_simp
  have "list_all (\<lambda>(i, node). list_all (\<lambda>j. j < i) (node_dependencies node)) (enumerate 0 (pl_nodes user_plan))" by code_simp
  then have "topological (pl_nodes user_plan)"
    unfolding topological_def list_all_length [of _ "enumerate 0 _"] by (auto simp: nth_enumerate_eq list_all_iff)
  then show "plan_valid user_plan" by (simp add: plan_valid_def user_plan_def)
qed

lemma user_tables_fit: "tables_fit (store_of stored_model user_rows)"
  by (simp add: tables_fit_def store_of_def user_rows_def usize_max_def)

definition user_options :: execution_options where
  "user_options = default_execution_options\<lparr>eo_batch_rows := 1\<rparr>"

definition user_result :: "sample memory_stream" where
  "user_result =
     \<lparr>ms_output = OutModel stored_model,
      ms_rows = [RowModel (user_row 2 Missing), RowModel (user_row 7 (Value (VDate (SDate 9))))],
      ms_batch_rows = 1, ms_cancelled = False\<rparr>"

section \<open>The execution, stage by stage\<close>

definition user_session :: "(plan_id \<Rightarrow> sample scope_record list \<Rightarrow> truth res) \<Rightarrow> sample exec_session" where
  "user_session f =
     \<lparr>xs_tables = store_of stored_model user_rows, xs_plan = user_plan, xs_parameters = [], xs_limits = default_execution_limits,
      xs_late = False, xs_shapes = replicate 7 [stored_model], xs_exists = f\<rparr>"

definition working_users :: "sample working_row list" where
  "working_users = map (\<lambda>row. \<lparr>wk_output = RowModel row, wk_scopes = [ScopePresent row]\<rparr>) user_rows"

abbreviation always :: "plan_id \<Rightarrow> sample scope_record list \<Rightarrow> truth res" where
  "always \<equiv> \<lambda>_ _. Inr TTrue"

abbreviation by_day :: "sample sort_expr list" where
  "by_day \<equiv> [\<lparr>se_expression = day_field, se_direction = Ascending\<rparr>]"

lemma always_stages:
  "execute_source (\<lambda>_. []) (user_session always) stored_model = Inr working_users"
  "execute_distinct (\<lambda>_. []) sample_ext (user_session always) working_users = Inr working_users"
  "execute_filter sample_ops (user_session always) working_users [] (rows_exist 3) = Inr working_users"
  "execute_sort sample_ops (user_session always) working_users [] by_day = Inr (rev working_users)"
  by code_simp+

lemma user_same: "same_resources (user_session f) (user_session g)"
  by (simp add: same_resources_def user_session_def)

lemma no_subqueries: "evaluate_expr S (user_session f) day_field = evaluate_expr S (user_session g) day_field"
proof (rule evaluate_expr_same [OF user_same same_expression_refl])
  have "collect_existential_dependencies day_field = []" by code_simp
  then show "\<forall>q \<in> set (collect_existential_dependencies day_field). xs_exists (user_session f) q = xs_exists (user_session g) q"
    by simp
qed

lemma one_subquery:
  assumes "f 3 = (\<lambda>_. Inr TTrue)"
  shows "evaluate_expr S (user_session f) (rows_exist 3) = evaluate_expr S (user_session always) (rows_exist 3)"
proof (rule evaluate_expr_same [OF user_same same_expression_refl])
  have "collect_existential_dependencies (rows_exist 3) = [3]" by code_simp
  with assms show "\<forall>q \<in> set (collect_existential_dependencies (rows_exist 3)). xs_exists (user_session f) q = xs_exists (user_session always) q"
    by (simp add: user_session_def)
qed

lemma user_stages:
  "execute_source (\<lambda>_. []) (user_session f) stored_model = Inr working_users"
  "execute_distinct (\<lambda>_. []) sample_ext (user_session f) working_users = Inr working_users"
  "execute_sort sample_ops (user_session f) working_users [] by_day = Inr (rev working_users)"
  "f 3 = (\<lambda>_. Inr TTrue) \<Longrightarrow> execute_filter sample_ops (user_session f) working_users [] (rows_exist 3) = Inr working_users"
proof -
  show "execute_source (\<lambda>_. []) (user_session f) stored_model = Inr working_users"
    using execute_source_same [OF user_same [of always f]] always_stages by simp
  show "execute_distinct (\<lambda>_. []) sample_ext (user_session f) working_users = Inr working_users"
    using execute_distinct_same [OF user_same [of always f]] always_stages by simp
  have "plain_expressions sample_ops (user_session always) (user_session f) (map se_expression by_day)"
    by (simp add: plain_expressions_def no_subqueries [of sample_ops f always])
  from execute_sort_same [OF user_same this] always_stages
  show "execute_sort sample_ops (user_session f) working_users [] by_day = Inr (rev working_users)" by simp
  show "execute_filter sample_ops (user_session f) working_users [] (rows_exist 3) = Inr working_users" if "f 3 = (\<lambda>_. Inr TTrue)"
    proof -
    have "evaluate_expr sample_ops (user_session f) (rows_exist 3) = evaluate_expr sample_ops (user_session always) (rows_exist 3)"
      by (rule one_subquery [of f sample_ops, OF that])
    from execute_filter_same [OF user_same [of always f] this] always_stages(3) show ?thesis by simp
  qed
qed

lemma query_limits:
  "session_timeout (user_session f) = Inr ()"
  "enforce_row_limit (xs_limits (user_session f)) (length working_users) = Inr ()"
  "enforce_working_byte_limit (xs_limits (user_session f)) working_users = Inr ()"
  "enforce_working_byte_limit (xs_limits (user_session f)) (rev working_users) = Inr ()"
proof -
  have "enforce_row_limit default_execution_limits (length working_users) = Inr ()"
    "enforce_working_byte_limit default_execution_limits working_users = Inr ()"
    "enforce_working_byte_limit default_execution_limits (rev working_users) = Inr ()" by code_simp+
  then show "enforce_row_limit (xs_limits (user_session f)) (length working_users) = Inr ()"
    "enforce_working_byte_limit (xs_limits (user_session f)) working_users = Inr ()"
    "enforce_working_byte_limit (xs_limits (user_session f)) (rev working_users) = Inr ()"
    "session_timeout (user_session f) = Inr ()"
    by (simp_all add: user_session_def session_timeout_def default_execution_limits_def)
qed

lemma user_closures:
  "structural_closure user_plan 6 = Inr [True, True, True, False, True, True, True]"
  "structural_closure user_plan 3 = Inr [False, False, False, True, False, False, False]"
  by code_simp+

lemma user_nodes:
  "xs_plan (user_session f) = user_plan" "length (pl_nodes user_plan) = 7"
  "vec_get (pl_nodes user_plan) 0 = Some (NSource stored_model None)" "vec_get (pl_nodes user_plan) 1 = Some (NDistinct 0)"
  "vec_get (pl_nodes user_plan) 2 = Some (NDistinct 1)" "vec_get (pl_nodes user_plan) 3 = Some (NSource stored_model None)"
  "vec_get (pl_nodes user_plan) 4 = Some (NFilter 2 (rows_exist 3))" "vec_get (pl_nodes user_plan) 5 = Some (NSlice 4 0 None)"
  "vec_get (pl_nodes user_plan) 6 = Some (NSort 5 by_day)"
  "pl_nodes user_plan ! 0 = NSource stored_model None" "pl_nodes user_plan ! 1 = NDistinct 0"
  "pl_nodes user_plan ! Suc 0 = NDistinct 0" "pl_nodes user_plan ! 2 = NDistinct 1"
  "pl_nodes user_plan ! 2 = NDistinct (Suc 0)"
  "pl_nodes user_plan ! 3 = NSource stored_model None" "pl_nodes user_plan ! 4 = NFilter 2 (rows_exist 3)"
  "pl_nodes user_plan ! 5 = NSlice 4 0 None" "pl_nodes user_plan ! 6 = NSort 5 by_day"
  by (simp_all add: user_session_def user_plan_def vec_get_def)

lemma ops_ext_sample: "ops_ext sample_ops = sample_ext"
  by (simp add: sample_ops_def)

lemma index_result:
  assumes "vec_get needed i = Some True" and "vec_get (pl_nodes user_plan) i = Some node"
    and "execute_stage (\<lambda>_. []) sample_ops (user_session f) outer results node = Inr rows"
    and "length rows = length working_users" and "enforce_working_byte_limit (xs_limits (user_session f)) rows = Inr ()"
    and "length results = 7"
  shows "execute_index (\<lambda>_. []) sample_ops (user_session f) outer needed i results = Inr (results[i := Some rows])"
  using execute_index_needed [of needed i "user_session f" node results "\<lambda>_. []" sample_ops outer] assms query_limits
  by (simp add: user_nodes)

lemma user_slice: "execute_slice working_users 0 None = working_users"
proof -
  have "length working_users \<le> usize_max" by code_simp
  then show ?thesis by (simp add: slice_rows)
qed

lemma index_skipped:
  "vec_get needed i \<noteq> Some True \<Longrightarrow> execute_index B S E outer needed i results = Inr results"
  by (simp add: execute_index_def)

lemma exists_subplan: "execute_subplan (\<lambda>_. []) sample_ops (user_session f) 3 outer = Inr working_users"
proof -
  let ?needed = "[False, False, False, True, False, False, False]"
  have "execute_index (\<lambda>_. []) sample_ops (user_session f) outer ?needed 3 (replicate 7 None)
      = Inr ((replicate 7 None)[3 := Some working_users])"
    by (rule index_result [of _ _ "NSource stored_model None"]) (simp_all add: vec_get_def user_nodes user_stages query_limits)
  moreover have "[0..<Suc 3] = [0, 1, 2, 3]" by (simp add: upt_rec)
  moreover have "execute_index (\<lambda>_. []) sample_ops (user_session f) outer ?needed i results = Inr results" if "i < 3" for i results
    using that by (intro index_skipped) (auto simp: vec_get_def nth_Cons')
  ultimately show ?thesis
    by (simp add: execute_subplan_def query_limits user_nodes user_closures vec_get_def)
qed

lemma user_session_at: "(user_session f)\<lparr>xs_exists := g\<rparr> = user_session g"
  by (simp add: user_session_def)

lemma nested_exists: "evaluate_exists (Suc n) (\<lambda>_. []) sample_ops (user_session f) 3 = (\<lambda>_. Inr TTrue)"
proof -
  have "working_users \<noteq> []" by (simp add: working_users_def user_rows_def)
  then show ?thesis by (simp add: user_session_at exists_subplan fun_eq_iff)
qed

lemma user_subplan:
  assumes "f 3 = (\<lambda>_. Inr TTrue)"
  shows "execute_subplan (\<lambda>_. []) sample_ops (user_session f) 6 [] = Inr (rev working_users)"
proof -
  let ?needed = "[True, True, True, False, True, True, True]"
  let ?run = "execute_index (\<lambda>_. []) sample_ops (user_session f) [] ?needed"
  let ?w = "Some working_users"
  have upt: "[0..<Suc 6] = [0, 1, 2, 3, 4, 5, 6]" by (simp add: upt_rec)
  have r: "replicate 7 None = [None, None, None, None, None, None, None]" by (simp add: numeral_eq_Suc)
  note facts = vec_get_def user_nodes user_stages query_limits user_slice input_rows_def assms
  have "?run 0 (replicate 7 None) = Inr [?w, None, None, None, None, None, None]"
    using index_result [of ?needed 0 "NSource stored_model None" f "[]" "replicate 7 None" working_users] by (simp add: facts r)
  moreover have "?run 1 [?w, None, None, None, None, None, None] = Inr [?w, ?w, None, None, None, None, None]"
    using index_result [of ?needed 1 "NDistinct 0" f "[]" "[?w, None, None, None, None, None, None]" working_users]
    by (simp add: facts ops_ext_sample)
  moreover have "?run 2 [?w, ?w, None, None, None, None, None] = Inr [?w, ?w, ?w, None, None, None, None]"
    using index_result [of ?needed 2 "NDistinct 1" f "[]" "[?w, ?w, None, None, None, None, None]" working_users]
    by (simp add: facts ops_ext_sample)
  moreover have "?run 3 [?w, ?w, ?w, None, None, None, None] = Inr [?w, ?w, ?w, None, None, None, None]"
    by (rule index_skipped) (simp add: vec_get_def)
  moreover have "?run 4 [?w, ?w, ?w, None, None, None, None] = Inr [?w, ?w, ?w, None, ?w, None, None]"
    using index_result [of ?needed 4 "NFilter 2 (rows_exist 3)" f "[]" "[?w, ?w, ?w, None, None, None, None]" working_users]
    by (simp add: facts)
  moreover have "?run 5 [?w, ?w, ?w, None, ?w, None, None] = Inr [?w, ?w, ?w, None, ?w, ?w, None]"
    using index_result [of ?needed 5 "NSlice 4 0 None" f "[]" "[?w, ?w, ?w, None, ?w, None, None]" working_users]
    by (simp add: facts)
  moreover have "?run 6 [?w, ?w, ?w, None, ?w, ?w, None] = Inr [?w, ?w, ?w, None, ?w, ?w, Some (rev working_users)]"
    using index_result [of ?needed 6 "NSort 5 by_day" f "[]" "[?w, ?w, ?w, None, ?w, ?w, None]" "rev working_users"]
    by (simp add: facts)
  ultimately show ?thesis
    unfolding execute_subplan_def upt by (simp add: query_limits user_nodes user_closures vec_get_def)
qed

lemma user_shapes: "scope_shapes user_plan = Inr (replicate 7 [stored_model])"
  by code_simp

lemma query_executes:
  "execute (\<lambda>_. []) sample_ops False (store_of stored_model user_rows) user_plan [] user_options = Inr user_result"
proof -
  have session: "session_new (store_of stored_model user_rows) user_plan [] user_options False = Inr (user_session (\<lambda>_ _. Inl memory_exists_001))"
    by (simp add: session_new_def user_shapes user_session_def user_options_def default_execution_options_def)
  have exists: "evaluate_exists MAX_EXISTENTIAL_DEPTH (\<lambda>_. []) sample_ops (user_session f) 3 = (\<lambda>_. Inr TTrue)" for f
    using nested_exists [of 255 f] by (simp add: MAX_EXISTENTIAL_DEPTH_def)
  have root: "pl_root user_plan = 6" "pl_output user_plan = OutModel stored_model" by (simp_all add: user_plan_def)
  have limits: "eo_limits user_options = default_execution_limits" "eo_batch_rows user_options = 1"
    by (simp_all add: user_options_def default_execution_options_def)
  have bytes: "enforce_byte_limit default_execution_limits (ms_rows user_result) = Inr ()" by code_simp
  have rows: "map wk_output (rev working_users) = ms_rows user_result" 
    by (simp add: working_users_def user_rows_def user_result_def rev_map)
  have subplan: "execute_subplan (\<lambda>_. []) sample_ops
      (user_session (evaluate_exists MAX_EXISTENTIAL_DEPTH (\<lambda>_. []) sample_ops (user_session f))) 6 [] = Inr (rev working_users)" for f
    by (rule user_subplan) (rule exists)
  show ?thesis
    unfolding execute_def session_at_def session limits root
    by (simp add: user_plan_valid user_session_at subplan bytes query_limits session
        memory_stream_new_def rows limits Let_def) (simp add: user_result_def)
qed

lemma day_values:
  "map (\<lambda>row. evaluate_expr sample_ops (user_session always) day_field row []) working_users =
    [Inr (Value (VDate (SDate 7))), Inr (Value (VDate (SDate 2)))]"
  by code_simp

lemma query_keys:
  assumes "row \<in> set working_users" and "d \<in> set (row_keys sample_ops (user_session always) [] by_day row)"
  shows "datum_ext_ok sample_ok d"
proof -
  have "evaluate_expr sample_ops (user_session always) day_field row [] \<in> set (map (\<lambda>row. evaluate_expr sample_ops (user_session always) day_field row []) working_users)"
    using assms(1) by simp
  then have "evaluate_expr sample_ops (user_session always) day_field row [] \<in> {Inr (Value (VDate (SDate 7))), Inr (Value (VDate (SDate 2)))}"
    unfolding day_values by simp
  with assms(2) show ?thesis by (auto simp: row_keys_def datum_ext_ok_def)
qed

end
