(* ===== verification/Model_Order.thy ===== *)
theory Model_Order
  imports Model_Laws
begin

text \<open>
  Declaration order is not semantic: builders that declare the same parts in any order freeze to the
  same model, or both are rejected.
\<close>

definition same_declarations :: "model_builder \<Rightarrow> model_builder \<Rightarrow> bool" where
  "same_declarations b c \<longleftrightarrow>
     mb_key b = mb_key c \<and> mb_name b = mb_name c \<and> mb_limits b = mb_limits c \<and>
     mb_identity_redeclared b = mb_identity_redeclared c \<and>
     mset (mb_fields b) = mset (mb_fields c) \<and>
     map_option mset (mb_identity b) = map_option mset (mb_identity c) \<and>
     mset (map mset (mb_unique b)) = mset (map mset (mb_unique c)) \<and>
     mset (mb_relations b) = mset (mb_relations c) \<and>
     mset (mb_references b) = mset (mb_references c)"

lemma same_declarations_sym: "same_declarations b c \<Longrightarrow> same_declarations c b"
  by (simp add: same_declarations_def)

lemma map_sort_key: "map f (sort_key f xs) = sort (map f xs)"
  by (rule properties_for_sort [symmetric]) simp_all

lemma sort_key_inj_perm:
  assumes "mset xs = mset ys" and "inj f"
  shows "sort_key f xs = sort_key f ys"
proof -
  have "map f (sort_key f xs) = map f (sort_key f ys)"
    unfolding map_sort_key using assms(1) by (metis mset_map sorted_list_of_multiset_mset)
  then show ?thesis using assms(2) by simp
qed

lemma sort_mset: "sort xs = sorted_list_of_multiset (mset xs)"
  by simp

lemma sort_tuples_perm:
  assumes "mset (map mset us) = mset (map mset vs)"
  shows "sort (map sort us) = sort (map sort vs)"
proof -
  have "map sort ws = map sorted_list_of_multiset (map mset ws)" for ws :: "'a::linorder list list"
    by simp
  then have "mset (map sort us) = mset (map sort vs)"
    using assms by (metis mset_map)
  then show ?thesis by (metis sorted_list_of_multiset_mset)
qed

lemma same_canonical:
  assumes s: "same_declarations b c" and f: "distinct (map fs_key (mb_fields b))"
    and r: "distinct (map rel_key (mb_relations b))"
  shows "into_model_def (builder_canonicalize b) = into_model_def (builder_canonicalize c)"
proof -
  note s = s [unfolded same_declarations_def]
  have "sort_key fs_key (mb_fields b) = sort_key fs_key (mb_fields c)"
    using s f by (intro sort_key_perm) auto
  moreover have "sort_key rel_key (mb_relations b) = sort_key rel_key (mb_relations c)"
    using s r by (intro sort_key_perm) auto
  moreover have "sort (map sort (mb_unique b)) = sort (map sort (mb_unique c))"
    using s by (intro sort_tuples_perm) simp
  moreover have "sort_key reference_sort_key (mb_references b) = sort_key reference_sort_key (mb_references c)"
    using s by (intro sort_key_inj_perm reference_sort_key_inj) simp
  moreover have "map_option identity_new (mb_identity b) = map_option identity_new (mb_identity c)"
    using s by (cases "mb_identity b"; cases "mb_identity c") (auto simp: identity_new_def sort_mset simp del: sorted_list_of_multiset_mset)
  ultimately show ?thesis
    using s by (simp add: into_model_def_def builder_canonicalize_def)
qed

lemma same_counts:
  assumes "same_declarations b c"
  shows "check_counts b = Inr () \<longleftrightarrow> check_counts c = Inr ()"
proof -
  note s = assms [unfolded same_declarations_def]
  have "length (mb_fields b) = length (mb_fields c)" "length (mb_relations b) = length (mb_relations c)"
    "length (mb_references b) = length (mb_references c)"
    using s by (auto dest: mset_eq_length)
  moreover have "length (mb_unique b) = length (mb_unique c)"
    using s by (metis length_map mset_eq_length)
  moreover have "mb_identity b = None \<longleftrightarrow> mb_identity c = None" using s by (metis map_option_is_None)
  moreover have "model_type_nodes (mb_fields b) = model_type_nodes (mb_fields c)"
  proof -
    have "mset (map (\<lambda>f. type_node_count (fs_ty f)) (mb_fields b)) = mset (map (\<lambda>f. type_node_count (fs_ty f)) (mb_fields c))"
      using s by simp
    then show ?thesis unfolding model_type_nodes_def by (metis sum_mset_sum_list)
  qed
  ultimately show ?thesis using s by (simp add: check_counts_ok)
qed

lemma same_unique_valid:
  assumes "mset (map mset us) = mset (map mset vs)" and "set fs = set gs"
    and "\<forall>ks \<in> set us. unique_valid fs ks"
  shows "\<forall>ks \<in> set vs. unique_valid gs ks"
proof
  fix ks
  assume "ks \<in> set vs"
  then have "mset ks \<in> mset ` set us"
    using mset_eq_setD [OF assms(1)] by (metis image_eqI list.set_map)
  then obtain ls where "ls \<in> set us" "mset ls = mset ks" by auto
  then show "unique_valid gs ks" using assms(2,3) unique_valid_set [of fs gs ls ks] by auto
qed

lemma same_identity_valid:
  assumes "map_option mset i = map_option mset j" and "set fs = set gs" and "identity_valid fs i"
  shows "identity_valid gs j"
proof (cases i)
  case None
  with assms show ?thesis by (cases j) (simp_all add: identity_valid_def)
next
  case (Some ks)
  with assms(1) obtain ls where "j = Some ls" "mset ks = mset ls" by (cases j) auto
  moreover from this have "sort ks = sort ls" by (metis sorted_list_of_multiset_mset)
  ultimately show ?thesis
    using assms(2,3) Some identity_valid_set [of fs gs ks] identity_valid_set [of gs gs ls] by simp
qed

lemma freeze_same:
  assumes s: "same_declarations b c" and b: "model_freeze b = Inr m"
  shows "model_freeze c = Inr m"
proof -
  note v = b [unfolded model_freeze_Inr]
  note e = s [unfolded same_declarations_def]
  have set: "set (mb_fields b) = set (mb_fields c)" using e by (blast dest: mset_eq_setD)
  have "distinct (map fs_key (mb_fields b))" "distinct (map rel_key (mb_relations b))"
    using v by (auto simp: fields_valid_def relations_valid_def)
  note c = same_canonical [OF s this]
  have "fields_valid (mb_limits c) (mb_fields c)"
    using v e fields_valid_perm [of "mb_fields b" "mb_fields c"] by simp
  moreover have "relations_valid (mb_limits c) (mb_fields c) (mb_relations c)"
    using v e set relations_valid_perm [of "mb_fields b" "mb_fields c" "mb_relations b" "mb_relations c"] by simp
  moreover have "\<forall>r \<in> set (mb_references c). reference_valid (mb_limits c) (mb_fields c) r"
    using v e reference_valid_set [OF set] mset_eq_setD [of "mb_references b" "mb_references c"] by simp
  moreover have "identity_valid (mb_fields c) (mb_identity c)"
    by (rule same_identity_valid [of "mb_identity b" _ "mb_fields b"]) (use v e set in auto)
  moreover have "\<forall>ks \<in> set (mb_unique c). unique_valid (mb_fields c) ks"
    by (rule same_unique_valid [of "mb_unique b" _ "mb_fields b"]) (use v e set in auto)
  ultimately show ?thesis
    unfolding model_freeze_Inr using v e c same_counts [OF s] by simp
qed

end
