(* ===== verification/Migrate_Catalog.thy ===== *)
theory Migrate_Catalog
  imports Types Stable_Sort Ordered_Map
begin

text \<open>
  \<open>catalog/mod.rs\<close> of \<open>dol-migrate\<close>: catalog snapshots with their entities, fields and indexes, their validation and
  canonical order.
\<close>

section \<open>Limits and texts\<close>

record catalog_limits =
  ct_max_entities :: nat
  ct_max_fields_per_entity :: nat
  ct_max_indexes_per_entity :: nat
  ct_max_index_fields :: nat

definition default_catalog_limits :: catalog_limits where
  "default_catalog_limits =
     \<lparr>ct_max_entities = 4096, ct_max_fields_per_entity = 4096, ct_max_indexes_per_entity = 1024, ct_max_index_fields = 64\<rparr>"

definition migrate_catalog_001 :: diagnostic where
  "migrate_catalog_001 = diagnostic_error ''MIGRATE-CATALOG-001'' ''catalog limits must all be greater than zero''"
definition migrate_catalog_002 :: diagnostic where
  "migrate_catalog_002 = diagnostic_error ''MIGRATE-CATALOG-002'' ''an index must reference at least one field''"
definition migrate_catalog_003 :: "string \<Rightarrow> string \<Rightarrow> diagnostic" where
  "migrate_catalog_003 key field = diagnostic_error ''MIGRATE-CATALOG-003''
     (''index `'' @ key @ ''` repeats field key `'' @ field @ ''`'')"
definition migrate_catalog_004 :: "string \<Rightarrow> string \<Rightarrow> string \<Rightarrow> diagnostic" where
  "migrate_catalog_004 index field key = diagnostic_error ''MIGRATE-CATALOG-004''
     (''index `'' @ index @ ''` references unknown field key `'' @ field @ ''` in entity `'' @ key @ ''`'')"
definition migrate_catalog_005 :: "string \<Rightarrow> diagnostic" where
  "migrate_catalog_005 label = diagnostic_error ''MIGRATE-CATALOG-005''
     (label @ '' must be non-empty and have no surrounding whitespace'')"
definition migrate_catalog_006 :: "string \<Rightarrow> diagnostic" where
  "migrate_catalog_006 label = diagnostic_error ''MIGRATE-CATALOG-006''
     (label @ '' contains unsupported text or exceeds its byte limit'')"
definition migrate_catalog_007 :: "string \<Rightarrow> string \<Rightarrow> diagnostic" where
  "migrate_catalog_007 label key = diagnostic_error ''MIGRATE-CATALOG-007''
     (''duplicate '' @ label @ '' key `'' @ key @ ''`'')"
definition migrate_catalog_008 :: "string \<Rightarrow> string \<Rightarrow> string \<Rightarrow> string \<Rightarrow> diagnostic" where
  "migrate_catalog_008 label name previous key = diagnostic_error ''MIGRATE-CATALOG-008''
     (''duplicate '' @ label @ '' name `'' @ name @ ''` for keys `'' @ previous @ ''` and `'' @ key @ ''`'')"
definition catalog_limit_error :: "string \<Rightarrow> nat \<Rightarrow> nat \<Rightarrow> diagnostic" where
  "catalog_limit_error label actual maximum = diagnostic_error ''MIGRATE-CATALOG-009''
     (''catalog '' @ label @ '' count '' @ show_nat actual @ '' exceeds limit '' @ show_nat maximum)"

definition validate_catalog_limits :: "catalog_limits \<Rightarrow> unit res" where
  "validate_catalog_limits L =
     (if ct_max_entities L = 0 \<or> ct_max_fields_per_entity L = 0 \<or> ct_max_indexes_per_entity L = 0 \<or>
         ct_max_index_fields L = 0
      then Inl migrate_catalog_001 else Inr ())"

definition MAX_CATALOG_TEXT_BYTES :: nat where
  "MAX_CATALOG_TEXT_BYTES = 1024"

definition validate_text :: "string \<Rightarrow> string \<Rightarrow> unit res" where
  "validate_text label value =
     (if value = [] \<or> has_surrounding_whitespace value then Inl (migrate_catalog_005 label)
      else if length value > MAX_CATALOG_TEXT_BYTES \<or> list_ex is_control (chars value) then Inl (migrate_catalog_006 label)
      else Inr ())"

section \<open>Scopes, revisions, fields and indexes\<close>

record catalog_scope =
  sc_backend :: string
  sc_namespace :: string

definition catalog_scope_new :: "string \<Rightarrow> string \<Rightarrow> catalog_scope res" where
  "catalog_scope_new backend namespace =
     and_then (validate_text ''backend'' backend) (\<lambda>_.
     and_then (validate_text ''namespace'' namespace) (\<lambda>_.
       Inr \<lparr>sc_backend = backend, sc_namespace = namespace\<rparr>))"

type_synonym catalog_revision = string

definition catalog_revision_new :: "string \<Rightarrow> catalog_revision res" where
  "catalog_revision_new value = and_then (validate_text ''catalog revision'' value) (\<lambda>_. Inr value)"

record catalog_field =
  cf_key :: string
  cf_name :: string
  cf_data_type :: string
  cf_required :: bool
  cf_nullable :: bool

definition catalog_field_new :: "string \<Rightarrow> string \<Rightarrow> string \<Rightarrow> bool \<Rightarrow> bool \<Rightarrow> catalog_field res" where
  "catalog_field_new key name data_type required nulls =
     and_then (validate_text ''field key'' key) (\<lambda>_.
     and_then (validate_text ''field name'' name) (\<lambda>_.
     and_then (validate_text ''field data type'' data_type) (\<lambda>_.
       Inr \<lparr>cf_key = key, cf_name = name, cf_data_type = data_type, cf_required = required, cf_nullable = nulls\<rparr>)))"

record catalog_index =
  ci_key :: string
  ci_name :: string
  ci_fields :: "string list"
  ci_unique :: bool

fun index_fields_loop :: "string \<Rightarrow> string list \<Rightarrow> string list \<Rightarrow> unit res" where
  "index_fields_loop key seen [] = Inr ()"
| "index_fields_loop key seen (field # rest) =
     and_then (validate_text ''index field key'' field) (\<lambda>_.
       if field \<in> set seen then Inl (migrate_catalog_003 key field) else index_fields_loop key (field # seen) rest)"

definition catalog_index_new :: "string \<Rightarrow> string \<Rightarrow> string list \<Rightarrow> bool \<Rightarrow> catalog_index res" where
  "catalog_index_new key name fs unique =
     and_then (validate_text ''index key'' key) (\<lambda>_.
     and_then (validate_text ''index name'' name) (\<lambda>_.
       if fs = [] then Inl migrate_catalog_002
       else and_then (index_fields_loop key [] fs) (\<lambda>_.
              Inr \<lparr>ci_key = key, ci_name = name, ci_fields = fs, ci_unique = unique\<rparr>)))"

section \<open>Entities and snapshots\<close>

record catalog_entity =
  ce_key :: string
  ce_name :: string
  ce_fields :: "catalog_field list"
  ce_indexes :: "catalog_index list"

fun catalog_unique_loop :: "('a \<Rightarrow> string) \<Rightarrow> ('a \<Rightarrow> string) \<Rightarrow> string \<Rightarrow> string list \<Rightarrow> (string \<times> string) list \<Rightarrow> 'a list \<Rightarrow> unit res" where
  "catalog_unique_loop key name label keys names [] = Inr ()"
| "catalog_unique_loop key name label keys names (v # vs) =
     (if key v \<in> set keys then Inl (migrate_catalog_007 label (key v))
      else case map_of names (name v) of
             Some previous \<Rightarrow> Inl (migrate_catalog_008 label (name v) previous (key v))
           | None \<Rightarrow> catalog_unique_loop key name label (key v # keys) ((name v, key v) # names) vs)"

definition validate_unique :: "'a list \<Rightarrow> ('a \<Rightarrow> string) \<Rightarrow> ('a \<Rightarrow> string) \<Rightarrow> string \<Rightarrow> unit res" where
  "validate_unique values key name label = catalog_unique_loop key name label [] [] values"

definition sort_by_key :: "('a \<Rightarrow> string) \<Rightarrow> 'a list \<Rightarrow> 'a list" where
  "sort_by_key key = sort_by (\<lambda>l r. cmp_of (key l) (key r))"

definition index_references :: "catalog_limits \<Rightarrow> string \<Rightarrow> string list \<Rightarrow> catalog_index \<Rightarrow> unit res" where
  "index_references L key field_keys index =
     (if length (ci_fields index) > ct_max_index_fields L
      then Inl (catalog_limit_error ''index fields'' (length (ci_fields index)) (ct_max_index_fields L))
      else try_all (\<lambda>field. if field \<in> set field_keys then Inr () else Inl (migrate_catalog_004 (ci_key index) field key))
             (ci_fields index))"

definition catalog_entity_new_with_limits :: "string \<Rightarrow> string \<Rightarrow> catalog_field list \<Rightarrow> catalog_index list \<Rightarrow> catalog_limits \<Rightarrow>
    catalog_entity res" where
  "catalog_entity_new_with_limits key name fs ixs L =
     and_then (validate_catalog_limits L) (\<lambda>_.
     and_then (validate_text ''entity key'' key) (\<lambda>_.
     and_then (validate_text ''entity name'' name) (\<lambda>_.
       if length fs > ct_max_fields_per_entity L
       then Inl (catalog_limit_error ''fields'' (length fs) (ct_max_fields_per_entity L))
       else if length ixs > ct_max_indexes_per_entity L
       then Inl (catalog_limit_error ''indexes'' (length ixs) (ct_max_indexes_per_entity L))
       else
         let fs = sort_by_key cf_key fs; ixs = sort_by_key ci_key ixs in
         and_then (validate_unique fs cf_key cf_name ''field'') (\<lambda>_.
         and_then (validate_unique ixs ci_key ci_name ''index'') (\<lambda>_.
         and_then (try_all (index_references L key (map cf_key fs)) ixs) (\<lambda>_.
           Inr \<lparr>ce_key = key, ce_name = name, ce_fields = fs, ce_indexes = ixs\<rparr>))))))"

definition catalog_entity_new :: "string \<Rightarrow> string \<Rightarrow> catalog_field list \<Rightarrow> catalog_index list \<Rightarrow> catalog_entity res" where
  "catalog_entity_new key name fs ixs = catalog_entity_new_with_limits key name fs ixs default_catalog_limits"

text \<open>\<open>binary_search_by_key\<close> on lists that are strictly sorted by key.\<close>

definition entity_field :: "catalog_entity \<Rightarrow> string \<Rightarrow> catalog_field option" where
  "entity_field e key = find (\<lambda>f. cf_key f = key) (ce_fields e)"
definition entity_index :: "catalog_entity \<Rightarrow> string \<Rightarrow> catalog_index option" where
  "entity_index e key = find (\<lambda>i. ci_key i = key) (ce_indexes e)"

record catalog_snapshot =
  cs_scope :: catalog_scope
  cs_revision :: catalog_revision
  cs_entities :: "catalog_entity list"

definition catalog_snapshot_new_with_limits :: "catalog_scope \<Rightarrow> catalog_revision \<Rightarrow> catalog_entity list \<Rightarrow> catalog_limits \<Rightarrow>
    catalog_snapshot res" where
  "catalog_snapshot_new_with_limits scope revision entities L =
     and_then (validate_catalog_limits L) (\<lambda>_.
       if length entities > ct_max_entities L then Inl (catalog_limit_error ''entities'' (length entities) (ct_max_entities L))
       else
         let entities = sort_by_key ce_key entities in
         and_then (validate_unique entities ce_key ce_name ''entity'') (\<lambda>_.
           Inr \<lparr>cs_scope = scope, cs_revision = revision, cs_entities = entities\<rparr>))"

definition catalog_snapshot_new :: "catalog_scope \<Rightarrow> catalog_revision \<Rightarrow> catalog_entity list \<Rightarrow> catalog_snapshot res" where
  "catalog_snapshot_new scope revision entities = catalog_snapshot_new_with_limits scope revision entities default_catalog_limits"

definition snapshot_entity :: "catalog_snapshot \<Rightarrow> string \<Rightarrow> catalog_entity option" where
  "snapshot_entity s key = find (\<lambda>e. ce_key e = key) (cs_entities s)"

definition equivalent_catalog :: "catalog_snapshot \<Rightarrow> catalog_snapshot \<Rightarrow> bool" where
  "equivalent_catalog a b \<longleftrightarrow> cs_scope a = cs_scope b \<and> cs_entities a = cs_entities b"

section \<open>Canonical order\<close>

interpretation text_keys: total_comparison "\<lambda>l r. cmp_of (key l) (key r)" UNIV for key :: "'a \<Rightarrow> string"
proof unfold_locales
  show "cmp_of (key b) (key a) = reverse_ordering (cmp_of (key a) (key b))" for a b by (rule cmp_of_swap)
  show "cmp_of (key a) (key c) \<noteq> Greater"
    if "cmp_of (key a) (key b) \<noteq> Greater" "cmp_of (key b) (key c) \<noteq> Greater" for a b c
    using that by simp
qed

definition keyed :: "('a \<Rightarrow> string) \<Rightarrow> ('a \<Rightarrow> string) \<Rightarrow> 'a list \<Rightarrow> bool" where
  "keyed key name xs \<longleftrightarrow> sorted_wrt (\<lambda>a b. key a < key b) xs \<and> distinct (map name xs)"

lemma catalog_unique_loop_ok:
  "catalog_unique_loop key name label keys names vs = Inr () \<longleftrightarrow>
    distinct (map key vs) \<and> set (map key vs) \<inter> set keys = {} \<and>
    distinct (map name vs) \<and> set (map name vs) \<inter> fst ` set names = {}"
proof (induction vs arbitrary: keys names)
  case Nil
  then show ?case by simp
next
  case (Cons v vs)
  show ?case
  proof (cases "map_of names (name v)")
    case None
    then have "name v \<notin> fst ` set names" by (simp add: map_of_eq_None_iff)
    with None show ?thesis by (simp add: Cons.IH) blast
  next
    case (Some previous)
    then have "name v \<in> fst ` set names" by (metis map_of_eq_None_iff option.distinct(1))
    with Some show ?thesis by auto
  qed
qed

lemma sort_unique_keyed:
  assumes "validate_unique (sort_by_key key xs) key name label = Inr ()"
  shows "keyed key name (sort_by_key key xs)"
proof -
  have "sorted_wrt (\<lambda>a b. cmp_of (key a) (key b) \<noteq> Greater) (sort_by_key key xs)"
    unfolding sort_by_key_def by (rule text_keys.sorted_sort) simp
  then have le: "sorted_wrt (\<lambda>a b. key a \<le> key b) (sort_by_key key xs)"
    by (rule sorted_wrt_mono_rel [rotated]) auto
  from assms have distinct: "distinct (map key (sort_by_key key xs))" "distinct (map name (sort_by_key key xs))"
    by (auto simp: validate_unique_def catalog_unique_loop_ok)
  have "sorted_wrt (\<lambda>a b. key a < key b) (sort_by_key key xs)"
    using le distinct(1) by (auto simp: sorted_wrt_iff_nth_less distinct_conv_nth order_le_less)
  with distinct show ?thesis by (simp add: keyed_def)
qed

lemma keyed_distinct: "keyed key name xs \<Longrightarrow> distinct (map key xs)"
  by (auto simp: keyed_def sorted_wrt_iff_nth_less distinct_conv_nth) (metis less_irrefl linorder_neqE_nat)

text \<open>A keyed list is determined by its entries.\<close>

lemma keyed_unique:
  assumes "keyed key name xs" and "keyed key name ys" and "set xs = set ys"
  shows "xs = ys"
proof -
  have sorted: "sorted_wrt (<) (map key xs)" "sorted_wrt (<) (map key ys)"
    using assms(1,2) by (simp_all add: keyed_def sorted_wrt_map)
  have keys: "map key xs = map key ys"
    using sorted assms(3) by (metis list.set_map strict_sorted_equal)
  have "inj_on key (set xs)" using keyed_distinct [OF assms(1)] by (simp add: distinct_map)
  then have inj: "inj_on key (set xs \<union> set ys)" using assms(3) by simp
  from keys show ?thesis using inj by (rule map_inj_on)
qed

definition entity_valid :: "catalog_entity \<Rightarrow> bool" where
  "entity_valid e \<longleftrightarrow> keyed cf_key cf_name (ce_fields e) \<and> keyed ci_key ci_name (ce_indexes e) \<and>
     (\<forall>i \<in> set (ce_indexes e). set (ci_fields i) \<subseteq> cf_key ` set (ce_fields e))"

definition snapshot_valid :: "catalog_snapshot \<Rightarrow> bool" where
  "snapshot_valid s \<longleftrightarrow> keyed ce_key ce_name (cs_entities s) \<and> (\<forall>e \<in> set (cs_entities s). entity_valid e)"

lemma set_sort_by_key [simp]: "set (sort_by_key key xs) = set xs"
  by (simp add: sort_by_key_def)

lemma entity_new_valid:
  assumes "catalog_entity_new_with_limits key name fs ixs L = Inr e"
  shows "entity_valid e \<and> set (ce_fields e) = set fs \<and> set (ce_indexes e) = set ixs \<and> ce_key e = key \<and> ce_name e = name"
proof -
  from assms have e: "e = \<lparr>ce_key = key, ce_name = name, ce_fields = sort_by_key cf_key fs, ce_indexes = sort_by_key ci_key ixs\<rparr>"
    and unique: "validate_unique (sort_by_key cf_key fs) cf_key cf_name ''field'' = Inr ()"
      "validate_unique (sort_by_key ci_key ixs) ci_key ci_name ''index'' = Inr ()"
    and refs: "try_all (index_references L key (map cf_key (sort_by_key cf_key fs))) (sort_by_key ci_key ixs) = Inr ()"
    by (auto simp: catalog_entity_new_with_limits_def Let_def and_then_Inr split: if_splits)
  from refs have "\<forall>i \<in> set ixs. set (ci_fields i) \<subseteq> cf_key ` set fs"
    by (fastforce simp: try_all_ok index_references_def split: if_splits)
  with unique show ?thesis by (auto simp: e entity_valid_def sort_unique_keyed)
qed

lemma snapshot_new_valid:
  assumes "catalog_snapshot_new_with_limits scope revision entities L = Inr s" and "\<forall>e \<in> set entities. entity_valid e"
  shows "snapshot_valid s \<and> set (cs_entities s) = set entities \<and> cs_scope s = scope \<and> cs_revision s = revision"
proof -
  from assms(1) have s: "s = \<lparr>cs_scope = scope, cs_revision = revision, cs_entities = sort_by_key ce_key entities\<rparr>"
    and unique: "validate_unique (sort_by_key ce_key entities) ce_key ce_name ''entity'' = Inr ()"
    by (auto simp: catalog_snapshot_new_with_limits_def Let_def and_then_Inr split: if_splits)
  with assms(2) show ?thesis by (simp add: snapshot_valid_def sort_unique_keyed)
qed

end
