(* ===== verification/Migrate_Diff.thy ===== *)
theory Migrate_Diff
  imports Migrate_Catalog
begin

text \<open>
  \<open>diff/mod.rs\<close> of \<open>dol-migrate\<close>: rename intents, typed operations and the difference of two snapshots. The
  \<open>Debug\<close> form of a string (its quotes and Unicode escapes) is an argument \<open>quote\<close>.
\<close>

section \<open>Limits\<close>

record diff_limits =
  dl_max_operations :: nat
  dl_max_rename_intents :: nat

definition default_diff_limits :: diff_limits where
  "default_diff_limits = \<lparr>dl_max_operations = 16384, dl_max_rename_intents = 4096\<rparr>"

definition migrate_diff_001 :: diagnostic where
  "migrate_diff_001 = diagnostic_error ''MIGRATE-DIFF-001'' ''diff limits must be greater than zero''"
definition migrate_diff_002 :: diagnostic where
  "migrate_diff_002 = diagnostic_error ''MIGRATE-DIFF-002''
     ''rename keys and names must be non-empty and have no surrounding whitespace''"
definition migrate_diff_003 :: diagnostic where
  "migrate_diff_003 = diagnostic_error ''MIGRATE-DIFF-003'' ''rename source and target names must differ''"
definition migrate_diff_004 :: diagnostic where
  "migrate_diff_004 = diagnostic_error ''MIGRATE-DIFF-004'' ''duplicate rename intent''"
definition migrate_diff_005 :: diagnostic where
  "migrate_diff_005 = diagnostic_error ''MIGRATE-DIFF-005'' ''source and target catalog scopes differ''"
definition migrate_diff_006 :: "nat \<Rightarrow> nat \<Rightarrow> diagnostic" where
  "migrate_diff_006 n limit = diagnostic_error ''MIGRATE-DIFF-006''
     (''rename intent count '' @ show_nat n @ '' exceeds limit '' @ show_nat limit)"
definition migrate_diff_007 :: "string \<Rightarrow> diagnostic" where
  "migrate_diff_007 unused = diagnostic_error ''MIGRATE-DIFF-007''
     (''rename intent does not match an observed name change: '' @ unused)"
definition migrate_diff_008 :: "string \<Rightarrow> diagnostic" where
  "migrate_diff_008 rename = diagnostic_error ''MIGRATE-DIFF-008''
     (''name change requires exact rename intent: '' @ rename)"
definition migrate_diff_009 :: "nat \<Rightarrow> diagnostic" where
  "migrate_diff_009 limit = diagnostic_error ''MIGRATE-DIFF-009''
     (''migration operation count exceeds limit '' @ show_nat limit)"
definition migrate_diff_009_overflow :: diagnostic where
  "migrate_diff_009_overflow = diagnostic_error ''MIGRATE-DIFF-009'' ''migration operation count overflowed''"

definition validate_diff_limits :: "diff_limits \<Rightarrow> unit res" where
  "validate_diff_limits L =
     (if dl_max_operations L = 0 \<or> dl_max_rename_intents L = 0 then Inl migrate_diff_001 else Inr ())"

section \<open>Rename intents\<close>

datatype rename_intent =
    IntentEntity string string string
  | IntentField string string string string
  | IntentIndex string string string string

fun intent_rank :: "rename_intent \<Rightarrow> nat" where
  "intent_rank (IntentEntity key from to) = 0"
| "intent_rank (IntentField entity key from to) = 1"
| "intent_rank (IntentIndex entity key from to) = 2"

fun intent_texts :: "rename_intent \<Rightarrow> string list" where
  "intent_texts (IntentEntity key from to) = [key, from, to]"
| "intent_texts (IntentField entity key from to) = [entity, key, from, to]"
| "intent_texts (IntentIndex entity key from to) = [entity, key, from, to]"

lemma intent_eq: "intent_rank a = intent_rank b \<Longrightarrow> intent_texts a = intent_texts b \<Longrightarrow> a = b"
  by (cases a; cases b) auto

text \<open>The derived order: variants first, then their fields.\<close>

instantiation rename_intent :: linorder
begin

definition less_rename_intent :: "rename_intent \<Rightarrow> rename_intent \<Rightarrow> bool" where
  "less_rename_intent a b \<longleftrightarrow>
     intent_rank a < intent_rank b \<or> intent_rank a = intent_rank b \<and> intent_texts a < intent_texts b"

definition less_eq_rename_intent :: "rename_intent \<Rightarrow> rename_intent \<Rightarrow> bool" where
  "less_eq_rename_intent a b \<longleftrightarrow>
     intent_rank a < intent_rank b \<or> intent_rank a = intent_rank b \<and> intent_texts a \<le> intent_texts b"

instance
  by intro_classes (auto simp: less_rename_intent_def less_eq_rename_intent_def intro: intent_eq)

end

fun intent_debug :: "(string \<Rightarrow> string) \<Rightarrow> rename_intent \<Rightarrow> string" where
  "intent_debug quote (IntentEntity key from to) =
     ''Entity { key: '' @ quote key @ '', from: '' @ quote from @ '', to: '' @ quote to @ '' }''"
| "intent_debug quote (IntentField entity key from to) =
     ''Field { entity_key: '' @ quote entity @ '', key: '' @ quote key @ '', from: '' @ quote from @ '', to: '' @ quote to @ '' }''"
| "intent_debug quote (IntentIndex entity key from to) =
     ''Index { entity_key: '' @ quote entity @ '', key: '' @ quote key @ '', from: '' @ quote from @ '', to: '' @ quote to @ '' }''"

fun intent_names :: "rename_intent \<Rightarrow> string \<times> string" where
  "intent_names (IntentEntity key from to) = (from, to)"
| "intent_names (IntentField entity key from to) = (from, to)"
| "intent_names (IntentIndex entity key from to) = (from, to)"

definition validate_intent :: "rename_intent \<Rightarrow> unit res" where
  "validate_intent r =
     (if list_ex (\<lambda>v. v = [] \<or> has_surrounding_whitespace v) (intent_texts r) then Inl migrate_diff_002
      else if fst (intent_names r) = snd (intent_names r) then Inl migrate_diff_003
      else Inr ())"

record migration_intent =
  mi_renames :: "rename_intent list"

definition default_migration_intent :: migration_intent where
  "default_migration_intent = \<lparr>mi_renames = []\<rparr>"

definition migration_intent_new :: "rename_intent list \<Rightarrow> migration_intent res" where
  "migration_intent_new renames =
     and_then (try_all validate_intent renames) (\<lambda>_.
       let renames = sort renames in
       if list_ex (\<lambda>(a, b). a = b) (zip renames (tl renames)) then Inl migrate_diff_004
       else Inr \<lparr>mi_renames = renames\<rparr>)"

section \<open>Operations\<close>

datatype migration_operation =
    CreateEntity catalog_entity
  | DropEntity catalog_entity
  | RenameEntity string string string
  | AddField string catalog_field
  | DropField string catalog_field
  | RenameField string string string string
  | AlterField string catalog_field catalog_field
  | CreateIndex string catalog_index
  | DropIndex string catalog_index
  | RenameIndex string string string string

fun operation_summary :: "migration_operation \<Rightarrow> string" where
  "operation_summary (CreateEntity e) = ''create entity `'' @ ce_name e @ ''`''"
| "operation_summary (DropEntity e) = ''drop entity `'' @ ce_name e @ ''`''"
| "operation_summary (RenameEntity entity from to) = ''rename entity `'' @ from @ ''` to `'' @ to @ ''`''"
| "operation_summary (AddField entity f) = ''add field `'' @ cf_name f @ ''` to `'' @ entity @ ''`''"
| "operation_summary (DropField entity f) = ''drop field `'' @ cf_name f @ ''` from `'' @ entity @ ''`''"
| "operation_summary (RenameField entity key from to) =
     ''rename field `'' @ entity @ ''.'' @ from @ ''` to `'' @ to @ ''`''"
| "operation_summary (AlterField entity before after) = ''alter field `'' @ entity @ ''.'' @ cf_name after @ ''`''"
| "operation_summary (CreateIndex entity i) = ''create index `'' @ ci_name i @ ''` on `'' @ entity @ ''`''"
| "operation_summary (DropIndex entity i) = ''drop index `'' @ ci_name i @ ''` from `'' @ entity @ ''`''"
| "operation_summary (RenameIndex entity key from to) =
     ''rename index `'' @ entity @ ''.'' @ from @ ''` to `'' @ to @ ''`''"

record catalog_diff =
  cd_source :: catalog_snapshot
  cd_target :: catalog_snapshot
  cd_operations :: "migration_operation list"

section \<open>Diffing\<close>

text \<open>The ten vectors of operations, by name, in the order they are appended.\<close>

datatype bucket_kind = DropIndexes | DropFields | DropEntities | RenameEntities | CreateEntities | RenameFields | AddFields |
  AlterFields | RenameIndexes | CreateIndexes

definition bucket_order :: "bucket_kind list" where
  "bucket_order = [DropIndexes, DropFields, DropEntities, RenameEntities, CreateEntities, RenameFields, AddFields,
     AlterFields, RenameIndexes, CreateIndexes]"

type_synonym op_buckets = "bucket_kind \<Rightarrow> migration_operation list"

text \<open>The intents that were used, and the buckets.\<close>

type_synonym diff_state = "rename_intent set \<times> op_buckets"

definition push_checked :: "diff_limits \<Rightarrow> bucket_kind \<Rightarrow> migration_operation \<Rightarrow> diff_state \<Rightarrow> diff_state res" where
  "push_checked L b op st =
     (if length (snd st b) \<ge> dl_max_operations L then Inl (migrate_diff_009 (dl_max_operations L))
      else Inr (fst st, (snd st)(b := snd st b @ [op])))"

definition require_declared :: "(string \<Rightarrow> string) \<Rightarrow> rename_intent set \<Rightarrow> rename_intent \<Rightarrow> diff_state \<Rightarrow> diff_state res" where
  "require_declared quote declared rename st =
     (if rename \<notin> declared then Inl (migrate_diff_008 (intent_debug quote rename))
      else Inr (insert rename (fst st), snd st))"

definition append_checked :: "diff_limits \<Rightarrow> migration_operation list \<Rightarrow> migration_operation list \<Rightarrow> migration_operation list res" where
  "append_checked L ops operations =
     and_then (ok_or (checked_add_usize (length operations) (length ops)) migrate_diff_009_overflow) (\<lambda>total.
       if total > dl_max_operations L then Inl (migrate_diff_009 (dl_max_operations L)) else Inr (operations @ ops))"

definition by_key :: "('a \<Rightarrow> string) \<Rightarrow> 'a list \<Rightarrow> (string, 'a) btree" where
  "by_key key xs = btree_of_list (map (\<lambda>x. (key x, x)) xs)"

text \<open>What one side has and the other lacks.\<close>

definition push_missing :: "diff_limits \<Rightarrow> bucket_kind \<Rightarrow> ('a \<Rightarrow> migration_operation) \<Rightarrow> (string, 'a) btree \<Rightarrow> (string, 'a) btree \<Rightarrow>
    diff_state \<Rightarrow> diff_state res" where
  "push_missing L b op entries other =
     try_each (\<lambda>(key, x) st. if map_of other key = None then push_checked L b (op x) st else Inr st) entries"

definition field_altered :: "catalog_field \<Rightarrow> catalog_field \<Rightarrow> bool" where
  "field_altered old new \<longleftrightarrow>
     cf_data_type old \<noteq> cf_data_type new \<or> cf_required old \<noteq> cf_required new \<or> cf_nullable old \<noteq> cf_nullable new"

definition diff_field :: "(string \<Rightarrow> string) \<Rightarrow> rename_intent set \<Rightarrow> diff_limits \<Rightarrow> string \<Rightarrow> (string, catalog_field) btree \<Rightarrow>
    string \<times> catalog_field \<Rightarrow> diff_state \<Rightarrow> diff_state res" where
  "diff_field quote declared L entity new_fields = (\<lambda>(key, old) st.
     case map_of new_fields key of
       None \<Rightarrow> Inr st
     | Some new \<Rightarrow>
         and_then
           (if cf_name old \<noteq> cf_name new
            then and_then (require_declared quote declared (IntentField entity key (cf_name old) (cf_name new)) st)
                   (push_checked L RenameFields (RenameField entity key (cf_name old) (cf_name new)))
            else Inr st) (\<lambda>st.
         if field_altered old new then push_checked L AlterFields (AlterField entity old new) st else Inr st))"

definition index_changed :: "catalog_index \<Rightarrow> catalog_index \<Rightarrow> bool" where
  "index_changed old new \<longleftrightarrow> ci_fields old \<noteq> ci_fields new \<or> ci_unique old \<noteq> ci_unique new"

definition drop_index :: "diff_limits \<Rightarrow> string \<Rightarrow> (string, catalog_index) btree \<Rightarrow> string \<times> catalog_index \<Rightarrow> diff_state \<Rightarrow>
    diff_state res" where
  "drop_index L entity new_indexes = (\<lambda>(key, old) st.
     if (case map_of new_indexes key of None \<Rightarrow> True | Some new \<Rightarrow> index_changed old new)
     then push_checked L DropIndexes (DropIndex entity old) st else Inr st)"

definition diff_index :: "(string \<Rightarrow> string) \<Rightarrow> rename_intent set \<Rightarrow> diff_limits \<Rightarrow> string \<Rightarrow> string \<Rightarrow>
    (string, catalog_index) btree \<Rightarrow> string \<times> catalog_index \<Rightarrow> diff_state \<Rightarrow> diff_state res" where
  "diff_index quote declared L before after old_indexes = (\<lambda>(key, new) st.
     let old = map_of old_indexes key;
         changed = (case old of None \<Rightarrow> False | Some old \<Rightarrow> index_changed old new) in
     and_then (if old = None \<or> changed then push_checked L CreateIndexes (CreateIndex after new) st else Inr st) (\<lambda>st.
       case old of
         None \<Rightarrow> Inr st
       | Some old \<Rightarrow>
           if ci_name old \<noteq> ci_name new
           then and_then (require_declared quote declared (IntentIndex before key (ci_name old) (ci_name new)) st) (\<lambda>st.
                  if \<not> changed then push_checked L RenameIndexes (RenameIndex before key (ci_name old) (ci_name new)) st
                  else Inr st)
           else Inr st))"

definition diff_indexes :: "(string \<Rightarrow> string) \<Rightarrow> rename_intent set \<Rightarrow> diff_limits \<Rightarrow> catalog_entity \<Rightarrow> catalog_entity \<Rightarrow>
    diff_state \<Rightarrow> diff_state res" where
  "diff_indexes quote declared L before after st =
     (let old_indexes = by_key ci_key (ce_indexes before); new_indexes = by_key ci_key (ce_indexes after) in
      and_then (try_each (drop_index L (ce_key before) new_indexes) old_indexes st)
        (try_each (diff_index quote declared L (ce_key before) (ce_key after) old_indexes) new_indexes))"

definition diff_entity :: "(string \<Rightarrow> string) \<Rightarrow> rename_intent set \<Rightarrow> diff_limits \<Rightarrow> catalog_entity \<Rightarrow> catalog_entity \<Rightarrow>
    diff_state \<Rightarrow> diff_state res" where
  "diff_entity quote declared L before after st =
     (let old_fields = by_key cf_key (ce_fields before); new_fields = by_key cf_key (ce_fields after) in
      and_then (push_missing L DropFields (DropField (ce_key before)) old_fields new_fields st) (\<lambda>st.
      and_then (push_missing L AddFields (AddField (ce_key after)) new_fields old_fields st) (\<lambda>st.
      and_then (try_each (diff_field quote declared L (ce_key before) new_fields) old_fields st)
        (diff_indexes quote declared L before after))))"

definition diff_common :: "(string \<Rightarrow> string) \<Rightarrow> rename_intent set \<Rightarrow> diff_limits \<Rightarrow> (string, catalog_entity) btree \<Rightarrow>
    string \<times> catalog_entity \<Rightarrow> diff_state \<Rightarrow> diff_state res" where
  "diff_common quote declared L target_entities = (\<lambda>(key, before) st.
     case map_of target_entities key of
       None \<Rightarrow> Inr st
     | Some after \<Rightarrow>
         and_then
           (if ce_name before \<noteq> ce_name after
            then and_then (require_declared quote declared (IntentEntity key (ce_name before) (ce_name after)) st)
                   (push_checked L RenameEntities (RenameEntity key (ce_name before) (ce_name after)))
            else Inr st)
           (diff_entity quote declared L before after))"

definition diff_catalog :: "(string \<Rightarrow> string) \<Rightarrow> catalog_snapshot \<Rightarrow> catalog_snapshot \<Rightarrow> migration_intent \<Rightarrow> diff_limits \<Rightarrow>
    catalog_diff res" where
  "diff_catalog quote source target intent L =
     and_then (validate_diff_limits L) (\<lambda>_.
       if cs_scope source \<noteq> cs_scope target then Inl migrate_diff_005
       else if length (mi_renames intent) > dl_max_rename_intents L
       then Inl (migrate_diff_006 (length (mi_renames intent)) (dl_max_rename_intents L))
       else
         let declared = set (mi_renames intent);
             source_entities = by_key ce_key (cs_entities source);
             target_entities = by_key ce_key (cs_entities target) in
         and_then (push_missing L DropEntities DropEntity source_entities target_entities ({}, \<lambda>_. [])) (\<lambda>st.
         and_then (push_missing L CreateEntities CreateEntity target_entities source_entities st) (\<lambda>st.
         and_then (try_each (diff_common quote declared L target_entities) source_entities st) (\<lambda>(used, buckets).
           if used \<noteq> declared then Inl (migrate_diff_007 (intent_debug quote (Min (declared - used))))
           else and_then (try_each (append_checked L) (map buckets bucket_order) []) (\<lambda>operations.
                  Inr \<lparr>cd_source = source, cd_target = target, cd_operations = operations\<rparr>)))))"

end
