(* ===== verification/Migrate_Diff_Laws.thy ===== *)
theory Migrate_Diff_Laws
  imports Migrate_Diff
begin

text \<open>
  What a difference of two valid snapshots is: exactly when it exists, its operations as a list over the two
  snapshots, and that these operations turn the source into the target.
\<close>

section \<open>Lists by key\<close>

lemma map_of_keys: "map_of (map (\<lambda>x. (key x, x)) xs) k = find (\<lambda>x. key x = k) xs"
  by (induction xs) auto

lemma by_key_keyed: "keyed key name xs \<Longrightarrow> by_key key xs = map (\<lambda>x. (key x, x)) xs"
  unfolding by_key_def by (rule btree_of_list_sorted) (simp add: btree_inv_def keyed_def sorted_wrt_map)

lemma find_keyed: "keyed key name xs \<Longrightarrow> find (\<lambda>x. key x = k) xs = Some y \<longleftrightarrow> y \<in> set xs \<and> key y = k"
  using keyed_distinct [of key name xs] by (induction xs) (auto simp: keyed_def)

lemma find_missing: "find (\<lambda>x. key x = k) xs = None \<longleftrightarrow> k \<notin> key ` set xs"
  by (auto simp: find_None_iff)

section \<open>Emitting operations\<close>

text \<open>A part of the algorithm that uses the intents \<open>i\<close> and appends \<open>e b\<close> to every bucket \<open>b\<close>, and fails exactly
  if an intent is not declared or a bucket overflows.\<close>

definition emits :: "rename_intent set \<Rightarrow> diff_limits \<Rightarrow> (diff_state \<Rightarrow> diff_state res) \<Rightarrow> op_buckets \<Rightarrow> rename_intent set \<Rightarrow> bool" where
  "emits D L f e i \<longleftrightarrow>
     (\<forall>st st'. f st = Inr st' \<longleftrightarrow>
        i \<subseteq> D \<and> (\<forall>b. e b \<noteq> [] \<longrightarrow> length (snd st b) + length (e b) \<le> dl_max_operations L) \<and>
        st' = (fst st \<union> i, \<lambda>b. snd st b @ e b))"

lemma emits_skip: "emits D L Inr (\<lambda>_. []) {}"
  by (auto simp: emits_def)

lemma emits_push: "emits D L (push_checked L b op) (\<lambda>c. if c = b then [op] else []) {}"
  by (auto simp: emits_def push_checked_def fun_eq_iff)

lemma emits_require: "emits D L (require_declared quote D r) (\<lambda>_. []) {r}"
  by (auto simp: emits_def require_declared_def)

lemma emits_seq:
  assumes "emits D L f e i" and "emits D L g e' i'"
  shows "emits D L (\<lambda>st. and_then (f st) g) (\<lambda>b. e b @ e' b) (i \<union> i')"
proof -
  have "(\<forall>b. e b \<noteq> [] \<longrightarrow> length (B b) + length (e b) \<le> n) \<and> (\<forall>b. e' b \<noteq> [] \<longrightarrow> length (B b @ e b) + length (e' b) \<le> n)
      \<longleftrightarrow> (\<forall>b. e b @ e' b \<noteq> [] \<longrightarrow> length (B b) + length (e b @ e' b) \<le> n)" for B :: op_buckets and n
    by (auto; metis add.assoc add_leD1 length_0_conv add_0_right)
  then show ?thesis
    using assms by (simp add: emits_def and_then_Inr Un_assoc) blast
qed

lemma emits_if:
  assumes "c \<Longrightarrow> emits D L f e i" and "\<not> c \<Longrightarrow> emits D L g e' i'"
  shows "emits D L (\<lambda>st. if c then f st else g st) (\<lambda>b. if c then e b else e' b) (if c then i else i')"
  using assms by (cases c) simp_all

lemma emits_each:
  assumes "\<And>x. x \<in> set xs \<Longrightarrow> emits D L (step x) (e x) (i x)"
  shows "emits D L (try_each step xs) (\<lambda>b. concat (map (\<lambda>x. e x b) xs)) (\<Union>x \<in> set xs. i x)"
  using assms
proof (induction xs)
  case Nil
  have "try_each step [] = Inr" by (rule ext) simp
  then show ?case using emits_skip by simp
next
  case (Cons x xs)
  have "try_each step (x # xs) = (\<lambda>st. and_then (step x st) (try_each step xs))" by (rule ext) simp
  then show ?case using emits_seq [OF Cons.prems Cons.IH] Cons.prems by simp
qed

section \<open>The operations of a difference\<close>

text \<open>The operations between the two states of an entity, per bucket in the order of the keys.\<close>

definition index_kept :: "catalog_entity \<Rightarrow> catalog_index \<Rightarrow> bool" where
  "index_kept e i \<longleftrightarrow> (case entity_index e (ci_key i) of None \<Rightarrow> False | Some j \<Rightarrow> \<not> index_changed i j)"

definition entity_operations :: "catalog_entity \<Rightarrow> catalog_entity \<Rightarrow> op_buckets" where
  "entity_operations a z b = (case b of
     DropFields \<Rightarrow> concat (map (\<lambda>f. if entity_field z (cf_key f) = None then [DropField (ce_key a) f] else []) (ce_fields a))
   | AddFields \<Rightarrow> concat (map (\<lambda>f. if entity_field a (cf_key f) = None then [AddField (ce_key z) f] else []) (ce_fields z))
   | RenameFields \<Rightarrow> concat (map (\<lambda>f. case entity_field z (cf_key f) of None \<Rightarrow> [] | Some g \<Rightarrow>
       if cf_name f \<noteq> cf_name g then [RenameField (ce_key a) (cf_key f) (cf_name f) (cf_name g)] else []) (ce_fields a))
   | AlterFields \<Rightarrow> concat (map (\<lambda>f. case entity_field z (cf_key f) of None \<Rightarrow> [] | Some g \<Rightarrow>
       if field_altered f g then [AlterField (ce_key a) f g] else []) (ce_fields a))
   | DropIndexes \<Rightarrow> concat (map (\<lambda>i. if index_kept z i then [] else [DropIndex (ce_key a) i]) (ce_indexes a))
   | CreateIndexes \<Rightarrow> concat (map (\<lambda>j. if index_kept a j then [] else [CreateIndex (ce_key z) j]) (ce_indexes z))
   | RenameIndexes \<Rightarrow> concat (map (\<lambda>j. case entity_index a (ci_key j) of None \<Rightarrow> [] | Some i \<Rightarrow>
       if ci_name i \<noteq> ci_name j \<and> \<not> index_changed i j then [RenameIndex (ce_key a) (ci_key j) (ci_name i) (ci_name j)]
       else []) (ce_indexes z))
   | _ \<Rightarrow> [])"

definition entity_renames :: "catalog_entity \<Rightarrow> catalog_entity \<Rightarrow> rename_intent set" where
  "entity_renames a z =
     {IntentField (ce_key a) (cf_key f) (cf_name f) (cf_name g) | f g.
        f \<in> set (ce_fields a) \<and> entity_field z (cf_key f) = Some g \<and> cf_name f \<noteq> cf_name g} \<union>
     {IntentIndex (ce_key a) (ci_key j) (ci_name i) (ci_name j) | i j.
        j \<in> set (ce_indexes z) \<and> entity_index a (ci_key j) = Some i \<and> ci_name i \<noteq> ci_name j}"

definition catalog_operations :: "catalog_snapshot \<Rightarrow> catalog_snapshot \<Rightarrow> op_buckets" where
  "catalog_operations s t b = (case b of
     DropEntities \<Rightarrow> concat (map (\<lambda>a. if snapshot_entity t (ce_key a) = None then [DropEntity a] else []) (cs_entities s))
   | CreateEntities \<Rightarrow> concat (map (\<lambda>z. if snapshot_entity s (ce_key z) = None then [CreateEntity z] else []) (cs_entities t))
   | RenameEntities \<Rightarrow> concat (map (\<lambda>a. case snapshot_entity t (ce_key a) of None \<Rightarrow> [] | Some z \<Rightarrow>
       if ce_name a \<noteq> ce_name z then [RenameEntity (ce_key a) (ce_name a) (ce_name z)] else []) (cs_entities s))
   | _ \<Rightarrow> concat (map (\<lambda>a. case snapshot_entity t (ce_key a) of None \<Rightarrow> [] | Some z \<Rightarrow> entity_operations a z b)
       (cs_entities s)))"

text \<open>The renames the caller must have declared.\<close>

definition required_renames :: "catalog_snapshot \<Rightarrow> catalog_snapshot \<Rightarrow> rename_intent set" where
  "required_renames s t =
     (\<Union>a \<in> set (cs_entities s). case snapshot_entity t (ce_key a) of None \<Rightarrow> {} | Some z \<Rightarrow>
        (if ce_name a \<noteq> ce_name z then {IntentEntity (ce_key a) (ce_name a) (ce_name z)} else {}) \<union> entity_renames a z)"

definition operations_list :: "catalog_snapshot \<Rightarrow> catalog_snapshot \<Rightarrow> migration_operation list" where
  "operations_list s t = concat (map (catalog_operations s t) bucket_order)"

section \<open>The algorithm computes them\<close>

lemma concat_map_Nil [simp]: "concat (map (\<lambda>x. []) xs) = []"
  by (induction xs) simp_all

lemma case_option_const [simp]: "(case m of None \<Rightarrow> c | Some x \<Rightarrow> c) = c"
  by (cases m) simp_all

lemma if_Nil_concat: "concat (map (\<lambda>x. if c then f x else []) xs) = (if c then concat (map f xs) else [])"
  by simp

lemma try_each_map: "try_each f (map g xs) s = try_each (\<lambda>x. f (g x)) xs s"
  by (induction xs arbitrary: s) (simp_all cong: and_then_cong)

lemma emits_cong: "emits D L f e i \<Longrightarrow> (\<And>st. f st = g st) \<Longrightarrow> (\<And>b. e b = e' b) \<Longrightarrow> i = i' \<Longrightarrow> emits D L g e' i'"
  by (simp add: emits_def)

lemma push_missing_emits:
  "emits D L (push_missing L b op (map (\<lambda>x. (key x, x)) xs) other)
    (\<lambda>c. if c = b then concat (map (\<lambda>x. if map_of other (key x) = None then [op x] else []) xs) else []) {}"
proof -
  have "emits D L (try_each (\<lambda>x st. if map_of other (key x) = None then push_checked L b (op x) st else Inr st) xs)
      (\<lambda>c. concat (map (\<lambda>x. if map_of other (key x) = None then if c = b then [op x] else [] else []) xs))
      (\<Union>x \<in> set xs. if map_of other (key x) = None then {} else {})"
    by (intro emits_each emits_if emits_push emits_skip)
  then show ?thesis
    by (rule emits_cong) (auto simp: push_missing_def try_each_map cong: if_cong)
qed

lemma emits_keyed:
  assumes "keyed key name xs" and "\<And>x. x \<in> set xs \<Longrightarrow> emits D L (step (key x, x)) (e x) (i x)"
  shows "emits D L (try_each step (by_key key xs)) (\<lambda>b. concat (map (\<lambda>x. e x b) xs)) (\<Union>x \<in> set xs. i x)"
  using emits_each [of xs D L "\<lambda>x. step (key x, x)" e i] assms
  by (simp add: by_key_keyed try_each_map emits_def)

lemma fields_emit:
  assumes "keyed cf_key cf_name (ce_fields a)" and "keyed cf_key cf_name (ce_fields z)" and "ce_key z = ce_key a"
  shows "emits D L (try_each (diff_field quote D L (ce_key a) (by_key cf_key (ce_fields z))) (by_key cf_key (ce_fields a)))
    (\<lambda>b. if b \<in> {RenameFields, AlterFields} then entity_operations a z b else [])
    {IntentField (ce_key a) (cf_key f) (cf_name f) (cf_name g) | f g.
        f \<in> set (ce_fields a) \<and> entity_field z (cf_key f) = Some g \<and> cf_name f \<noteq> cf_name g}"
proof -
  let ?renames = "\<lambda>f g b. if cf_name f \<noteq> cf_name g then (if b = RenameFields then [RenameField (ce_key a) (cf_key f) (cf_name f) (cf_name g)] else []) else []"
  let ?alters = "\<lambda>f g b. if field_altered f g then (if b = AlterFields then [AlterField (ce_key a) f g] else []) else []"
  let ?step = "\<lambda>f. diff_field quote D L (ce_key a) (by_key cf_key (ce_fields z)) (cf_key f, f)"
  let ?e = "\<lambda>f b. case entity_field z (cf_key f) of None \<Rightarrow> [] | Some g \<Rightarrow> ?renames f g b @ ?alters f g b"
  let ?i = "\<lambda>f. case entity_field z (cf_key f) of None \<Rightarrow> {} | Some g \<Rightarrow>
    if cf_name f \<noteq> cf_name g then {IntentField (ce_key a) (cf_key f) (cf_name f) (cf_name g)} else {}"
  have one: "emits D L (?step f) (?e f) (?i f)" for f
  proof (cases "entity_field z (cf_key f)")
    case None
    then have "?step f = Inr"
      by (auto simp: diff_field_def by_key_keyed [OF assms(2)] map_of_keys entity_field_def)
    with None emits_skip show ?thesis by simp
  next
    case (Some g)
    let ?rename = "\<lambda>st. if cf_name f \<noteq> cf_name g
      then and_then (require_declared quote D (IntentField (ce_key a) (cf_key f) (cf_name f) (cf_name g)) st)
        (push_checked L RenameFields (RenameField (ce_key a) (cf_key f) (cf_name f) (cf_name g))) else Inr st"
    let ?alter = "\<lambda>st. if field_altered f g then push_checked L AlterFields (AlterField (ce_key a) f g) st else Inr st"
    have step: "?step f = (\<lambda>st. and_then (?rename st) ?alter)"
      using Some by (auto simp: diff_field_def by_key_keyed [OF assms(2)] map_of_keys entity_field_def)
    have "emits D L ?rename
        (\<lambda>b. if cf_name f \<noteq> cf_name g then [] @ (if b = RenameFields then [RenameField (ce_key a) (cf_key f) (cf_name f) (cf_name g)] else []) else [])
        (if cf_name f \<noteq> cf_name g then {IntentField (ce_key a) (cf_key f) (cf_name f) (cf_name g)} \<union> {} else {})"
      by (intro emits_if emits_seq emits_require emits_push emits_skip)
    moreover have "emits D L ?alter (?alters f g) (if field_altered f g then {} else {})"
      by (intro emits_if emits_push emits_skip)
    ultimately show ?thesis unfolding step
      by (rule emits_cong [OF emits_seq]) (auto simp: Some)
  qed
  have "emits D L (try_each (diff_field quote D L (ce_key a) (by_key cf_key (ce_fields z))) (by_key cf_key (ce_fields a)))
      (\<lambda>b. concat (map (\<lambda>f. ?e f b) (ce_fields a))) (\<Union>f \<in> set (ce_fields a). ?i f)"
    by (rule emits_keyed [OF assms(1)]) (rule one)
  then show ?thesis
  proof (rule emits_cong)
    show "concat (map (\<lambda>f. case entity_field z (cf_key f) of None \<Rightarrow> [] | Some g \<Rightarrow> ?renames f g b @ ?alters f g b) (ce_fields a))
        = (if b \<in> {RenameFields, AlterFields} then entity_operations a z b else [])" for b
      by (cases b) (simp_all add: entity_operations_def cong: if_cong option.case_cong)
  qed (auto split: option.splits if_splits, blast)
qed

lemma drop_indexes_emit:
  assumes "keyed ci_key ci_name (ce_indexes a)" and "keyed ci_key ci_name (ce_indexes z)"
  shows "emits D L (try_each (drop_index L (ce_key a) (by_key ci_key (ce_indexes z))) (by_key ci_key (ce_indexes a)))
    (\<lambda>b. if b = DropIndexes then entity_operations a z b else []) {}"
proof -
  let ?step = "\<lambda>i. drop_index L (ce_key a) (by_key ci_key (ce_indexes z)) (ci_key i, i)"
  let ?e = "\<lambda>i b. if index_kept z i then [] else if b = DropIndexes then [DropIndex (ce_key a) i] else []"
  have one: "emits D L (?step i) (?e i) {}" for i
  proof -
    have step: "?step i = (\<lambda>st. if index_kept z i then Inr st else push_checked L DropIndexes (DropIndex (ce_key a) i) st)"
      by (auto simp: drop_index_def index_kept_def by_key_keyed [OF assms(2)] map_of_keys entity_index_def fun_eq_iff split: option.split)
    have "emits D L (?step i) (?e i) (if index_kept z i then {} else {})"
      unfolding step by (intro emits_if emits_push emits_skip)
    then show ?thesis by simp
  qed
  have "emits D L (try_each (drop_index L (ce_key a) (by_key ci_key (ce_indexes z))) (by_key ci_key (ce_indexes a)))
      (\<lambda>b. concat (map (\<lambda>i. ?e i b) (ce_indexes a))) (\<Union>i \<in> set (ce_indexes a). {})"
    by (rule emits_keyed [OF assms(1)]) (rule one)
  then show ?thesis
  proof (rule emits_cong)
    show "concat (map (\<lambda>i. ?e i b) (ce_indexes a)) = (if b = DropIndexes then entity_operations a z b else [])" for b
      by (cases b) (simp_all add: entity_operations_def cong: if_cong)
  qed simp_all
qed

lemma indexes_emit:
  assumes "keyed ci_key ci_name (ce_indexes a)" and "keyed ci_key ci_name (ce_indexes z)" and "ce_key z = ce_key a"
  shows "emits D L (try_each (diff_index quote D L (ce_key a) (ce_key z) (by_key ci_key (ce_indexes a))) (by_key ci_key (ce_indexes z)))
    (\<lambda>b. if b \<in> {CreateIndexes, RenameIndexes} then entity_operations a z b else [])
    {IntentIndex (ce_key a) (ci_key j) (ci_name i) (ci_name j) | i j.
        j \<in> set (ce_indexes z) \<and> entity_index a (ci_key j) = Some i \<and> ci_name i \<noteq> ci_name j}"
proof -
  let ?step = "\<lambda>j. diff_index quote D L (ce_key a) (ce_key z) (by_key ci_key (ce_indexes a)) (ci_key j, j)"
  let ?create = "\<lambda>j b. if index_kept a j then [] else if b = CreateIndexes then [CreateIndex (ce_key z) j] else []"
  let ?intent = "\<lambda>i j. IntentIndex (ce_key a) (ci_key j) (ci_name i) (ci_name j)"
  let ?op = "\<lambda>i j. RenameIndex (ce_key a) (ci_key j) (ci_name i) (ci_name j)"
  let ?rename = "\<lambda>j b. case entity_index a (ci_key j) of None \<Rightarrow> [] | Some i \<Rightarrow>
    if ci_name i \<noteq> ci_name j then [] @ (if \<not> index_changed i j then if b = RenameIndexes then [?op i j] else [] else []) else []"
  let ?i = "\<lambda>j. case entity_index a (ci_key j) of None \<Rightarrow> {} | Some i \<Rightarrow>
    if ci_name i \<noteq> ci_name j then {?intent i j} \<union> (if \<not> index_changed i j then {} else {}) else {}"
  have one: "emits D L (?step j) (\<lambda>b. ?create j b @ ?rename j b) ((if index_kept a j then {} else {}) \<union> ?i j)" for j
  proof -
    let ?first = "\<lambda>st. if index_kept a j then Inr st else push_checked L CreateIndexes (CreateIndex (ce_key z) j) st"
    let ?second = "\<lambda>st. case entity_index a (ci_key j) of None \<Rightarrow> Inr st | Some i \<Rightarrow>
      if ci_name i \<noteq> ci_name j
      then and_then (require_declared quote D (?intent i j) st)
        (\<lambda>st. if \<not> index_changed i j then push_checked L RenameIndexes (?op i j) st else Inr st)
      else Inr st"
    have symmetric: "index_changed i j \<longleftrightarrow> index_changed j i" for i j by (auto simp: index_changed_def)
    have step: "?step j = (\<lambda>st. and_then (?first st) ?second)"
      by (cases "entity_index a (ci_key j)")
        (auto simp: diff_index_def index_kept_def by_key_keyed [OF assms(1)] map_of_keys entity_index_def Let_def symmetric [of j] fun_eq_iff)
    have "emits D L ?second (?rename j) (?i j)"
    proof (cases "entity_index a (ci_key j)")
      case None
      then show ?thesis using emits_skip by simp
    next
      case (Some i)
      have "emits D L (\<lambda>st. if ci_name i \<noteq> ci_name j
          then and_then (require_declared quote D (?intent i j) st)
            (\<lambda>st. if \<not> index_changed i j then push_checked L RenameIndexes (?op i j) st else Inr st)
          else Inr st)
          (\<lambda>b. if ci_name i \<noteq> ci_name j then [] @ (if \<not> index_changed i j then if b = RenameIndexes then [?op i j] else [] else []) else [])
          (if ci_name i \<noteq> ci_name j then {?intent i j} \<union> (if \<not> index_changed i j then {} else {}) else {})"
        by (intro emits_if emits_seq emits_require emits_push emits_skip)
      with Some show ?thesis by simp
    qed
    moreover have "emits D L ?first (?create j) (if index_kept a j then {} else {})"
      by (intro emits_if emits_push emits_skip)
    ultimately show ?thesis unfolding step by (intro emits_seq)
  qed
  have "emits D L (try_each (diff_index quote D L (ce_key a) (ce_key z) (by_key ci_key (ce_indexes a))) (by_key ci_key (ce_indexes z)))
      (\<lambda>b. concat (map (\<lambda>j. ?create j b @ ?rename j b) (ce_indexes z)))
      (\<Union>j \<in> set (ce_indexes z). (if index_kept a j then {} else {}) \<union> ?i j)"
    by (rule emits_keyed [OF assms(2)]) (rule one)
  then show ?thesis
  proof (rule emits_cong)
    show "concat (map (\<lambda>j. ?create j b @ ?rename j b) (ce_indexes z))
        = (if b \<in> {CreateIndexes, RenameIndexes} then entity_operations a z b else [])" for b
    proof (cases b)
      case RenameIndexes
      then show ?thesis
        by (auto simp: entity_operations_def cong: if_cong option.case_cong intro!: arg_cong [where f = concat] split: option.split)
    qed (simp_all add: entity_operations_def cong: if_cong option.case_cong)
  qed (auto split: option.splits if_splits, blast)
qed

lemma missing_emits:
  assumes "keyed key name xs" and "keyed key name' ys"
  shows "emits D L (push_missing L b op (by_key key xs) (by_key key ys))
    (\<lambda>c. if c = b then concat (map (\<lambda>x. if find (\<lambda>y. key y = key x) ys = None then [op x] else []) xs) else []) {}"
  unfolding by_key_keyed [OF assms(1)] by_key_keyed [OF assms(2)]
  using push_missing_emits [of D L b op key xs "map (\<lambda>y. (key y, y)) ys"] by (simp only: map_of_keys)

lemma entity_emits:
  assumes "entity_valid a" and "entity_valid z" and "ce_key z = ce_key a"
  shows "emits D L (diff_entity quote D L a z) (entity_operations a z) (entity_renames a z)"
proof -
  from assms(1,2) have keyed: "keyed cf_key cf_name (ce_fields a)" "keyed cf_key cf_name (ce_fields z)"
    "keyed ci_key ci_name (ce_indexes a)" "keyed ci_key ci_name (ce_indexes z)" by (simp_all add: entity_valid_def)
  note parts = emits_seq [OF missing_emits [OF keyed(1,2)] emits_seq [OF missing_emits [OF keyed(2,1)]
    emits_seq [OF fields_emit [where quote = quote, OF keyed(1,2) assms(3)] emits_seq [OF drop_indexes_emit [OF keyed(3,4)] indexes_emit [where quote = quote, OF keyed(3,4) assms(3)]]]]]
  show ?thesis
  proof (rule emits_cong [OF parts])
    show "and_then (push_missing L DropFields (DropField (ce_key a)) (by_key cf_key (ce_fields a)) (by_key cf_key (ce_fields z)) st)
        (\<lambda>st. and_then (push_missing L AddFields (AddField (ce_key z)) (by_key cf_key (ce_fields z)) (by_key cf_key (ce_fields a)) st)
        (\<lambda>st. and_then (try_each (diff_field quote D L (ce_key a) (by_key cf_key (ce_fields z))) (by_key cf_key (ce_fields a)) st)
        (\<lambda>st. and_then (try_each (drop_index L (ce_key a) (by_key ci_key (ce_indexes z))) (by_key ci_key (ce_indexes a)) st)
          (try_each (diff_index quote D L (ce_key a) (ce_key z) (by_key ci_key (ce_indexes a))) (by_key ci_key (ce_indexes z))))))
      = diff_entity quote D L a z st" for st
      by (simp add: diff_entity_def diff_indexes_def [abs_def] Let_def)
    show "(if b = DropFields then concat (map (\<lambda>x. if find (\<lambda>y. cf_key y = cf_key x) (ce_fields z) = None then [DropField (ce_key a) x] else []) (ce_fields a)) else []) @
        (if b = AddFields then concat (map (\<lambda>x. if find (\<lambda>y. cf_key y = cf_key x) (ce_fields a) = None then [AddField (ce_key z) x] else []) (ce_fields z)) else []) @
        (if b \<in> {RenameFields, AlterFields} then entity_operations a z b else []) @
        (if b = DropIndexes then entity_operations a z b else []) @
        (if b \<in> {CreateIndexes, RenameIndexes} then entity_operations a z b else []) = entity_operations a z b" for b
      by (cases b) (simp_all add: entity_operations_def entity_field_def)
  qed (simp add: entity_renames_def)
qed

lemma common_emits:
  assumes "snapshot_valid s" and "snapshot_valid t"
  shows "emits D L (try_each (diff_common quote D L (by_key ce_key (cs_entities t))) (by_key ce_key (cs_entities s)))
    (\<lambda>b. if b \<in> {DropEntities, CreateEntities} then [] else catalog_operations s t b) (required_renames s t)"
proof -
  from assms have keyed: "keyed ce_key ce_name (cs_entities s)" "keyed ce_key ce_name (cs_entities t)"
    and valid: "\<forall>e \<in> set (cs_entities s). entity_valid e" "\<forall>e \<in> set (cs_entities t). entity_valid e"
    by (simp_all add: snapshot_valid_def)
  let ?step = "\<lambda>a. diff_common quote D L (by_key ce_key (cs_entities t)) (ce_key a, a)"
  let ?intent = "\<lambda>a z. IntentEntity (ce_key a) (ce_name a) (ce_name z)"
  let ?op = "\<lambda>a z. RenameEntity (ce_key a) (ce_name a) (ce_name z)"
  let ?rename = "\<lambda>a z b. if ce_name a \<noteq> ce_name z then [] @ (if b = RenameEntities then [?op a z] else []) else []"
  let ?e = "\<lambda>a b. case snapshot_entity t (ce_key a) of None \<Rightarrow> [] | Some z \<Rightarrow> ?rename a z b @ entity_operations a z b"
  let ?i = "\<lambda>a. case snapshot_entity t (ce_key a) of None \<Rightarrow> {} | Some z \<Rightarrow>
    (if ce_name a \<noteq> ce_name z then {?intent a z} \<union> {} else {}) \<union> entity_renames a z"
  have one: "emits D L (?step a) (?e a) (?i a)" if a: "a \<in> set (cs_entities s)" for a
  proof (cases "snapshot_entity t (ce_key a)")
    case None
    then have "?step a = Inr"
      by (auto simp: diff_common_def by_key_keyed [OF keyed(2)] map_of_keys snapshot_entity_def)
    with None emits_skip show ?thesis by simp
  next
    case (Some z)
    then have z: "z \<in> set (cs_entities t)" "ce_key z = ce_key a"
      using find_keyed [OF keyed(2)] by (simp_all add: snapshot_entity_def)
    have step: "?step a = (\<lambda>st. and_then (if ce_name a \<noteq> ce_name z
        then and_then (require_declared quote D (?intent a z) st) (push_checked L RenameEntities (?op a z)) else Inr st)
        (diff_entity quote D L a z))"
      using Some by (auto simp: diff_common_def by_key_keyed [OF keyed(2)] map_of_keys snapshot_entity_def)
    have "emits D L (?step a) (\<lambda>b. ?rename a z b @ entity_operations a z b)
        ((if ce_name a \<noteq> ce_name z then {?intent a z} \<union> {} else {}) \<union> entity_renames a z)"
      unfolding step
      by (intro emits_seq emits_if emits_require emits_push emits_skip entity_emits)
        (use valid a z in auto)
    with Some show ?thesis by simp
  qed
  have "emits D L (try_each (diff_common quote D L (by_key ce_key (cs_entities t))) (by_key ce_key (cs_entities s)))
      (\<lambda>b. concat (map (\<lambda>a. ?e a b) (cs_entities s))) (\<Union>a \<in> set (cs_entities s). ?i a)"
    by (rule emits_keyed [OF keyed(1)]) (rule one)
  then show ?thesis
  proof (rule emits_cong)
    have no_ops: "entity_operations a z DropEntities = []" "entity_operations a z CreateEntities = []"
      "entity_operations a z RenameEntities = []" for a z by (simp_all add: entity_operations_def)
    show "concat (map (\<lambda>a. ?e a b) (cs_entities s)) = (if b \<in> {DropEntities, CreateEntities} then [] else catalog_operations s t b)" for b
    proof (cases b)
      case DropEntities
      have "?e a b = []" for a unfolding DropEntities by (simp add: no_ops split: option.split)
      then show ?thesis using DropEntities by simp
    next
      case CreateEntities
      have "?e a b = []" for a unfolding CreateEntities by (simp add: no_ops split: option.split)
      then show ?thesis using CreateEntities by simp
    next
      case RenameEntities
      have "?e a b = (case snapshot_entity t (ce_key a) of None \<Rightarrow> [] | Some z \<Rightarrow>
          if ce_name a \<noteq> ce_name z then [?op a z] else [])" for a
        unfolding RenameEntities by (simp add: no_ops split: option.split)
      then show ?thesis using RenameEntities by (simp add: catalog_operations_def)
    qed (simp_all add: catalog_operations_def cong: if_cong option.case_cong)
    show "(\<Union>a \<in> set (cs_entities s). ?i a) = required_renames s t"
      unfolding required_renames_def by (intro SUP_cong refl) (simp split: option.split)
  qed simp
qed

section \<open>When a difference exists, and what it is\<close>

lemma append_each:
  "try_each (append_checked L) bs ops = Inr out \<longleftrightarrow>
    out = ops @ concat bs \<and> (bs \<noteq> [] \<longrightarrow> length out \<le> usize_max \<and> length out \<le> dl_max_operations L)"
proof (induction bs arbitrary: ops)
  case Nil
  then show ?case by auto
next
  case (Cons b bs)
  have "try_each (append_checked L) (b # bs) ops = Inr out \<longleftrightarrow>
      length ops + length b \<le> usize_max \<and> length ops + length b \<le> dl_max_operations L \<and>
      try_each (append_checked L) bs (ops @ b) = Inr out"
    by (auto simp: append_checked_def and_then_Inr ok_or_Inr checked_add_usize_Some)
  also have "\<dots> \<longleftrightarrow> length ops + length b \<le> usize_max \<and> length ops + length b \<le> dl_max_operations L \<and>
      out = ops @ b @ concat bs \<and> (bs \<noteq> [] \<longrightarrow> length out \<le> usize_max \<and> length out \<le> dl_max_operations L)"
    by (simp add: Cons.IH)
  finally show ?case by (cases bs) auto
qed

theorem diff_catalog_exact:
  assumes "snapshot_valid s" and "snapshot_valid t" and "dl_max_operations L \<le> usize_max"
  shows "diff_catalog quote s t intent L = Inr d \<longleftrightarrow>
    validate_diff_limits L = Inr () \<and> cs_scope s = cs_scope t \<and> length (mi_renames intent) \<le> dl_max_rename_intents L \<and>
    set (mi_renames intent) = required_renames s t \<and> length (operations_list s t) \<le> dl_max_operations L \<and>
    d = \<lparr>cd_source = s, cd_target = t, cd_operations = operations_list s t\<rparr>"
proof -
  let ?D = "set (mi_renames intent)"
  from assms have keyed: "keyed ce_key ce_name (cs_entities s)" "keyed ce_key ce_name (cs_entities t)"
    by (simp_all add: snapshot_valid_def)
  let ?run = "\<lambda>st. and_then (push_missing L DropEntities DropEntity (by_key ce_key (cs_entities s)) (by_key ce_key (cs_entities t)) st)
    (\<lambda>st. and_then (push_missing L CreateEntities CreateEntity (by_key ce_key (cs_entities t)) (by_key ce_key (cs_entities s)) st)
      (try_each (diff_common quote ?D L (by_key ce_key (cs_entities t))) (by_key ce_key (cs_entities s))))"
  have run: "emits ?D L ?run (catalog_operations s t) (required_renames s t)"
  proof (rule emits_cong [OF emits_seq [OF missing_emits [OF keyed] emits_seq [OF missing_emits [OF keyed(2,1)] common_emits [OF assms(1,2)]]] refl])
    show "(if b = DropEntities then concat (map (\<lambda>x. if find (\<lambda>y. ce_key y = ce_key x) (cs_entities t) = None then [DropEntity x] else []) (cs_entities s)) else []) @
        (if b = CreateEntities then concat (map (\<lambda>x. if find (\<lambda>y. ce_key y = ce_key x) (cs_entities s) = None then [CreateEntity x] else []) (cs_entities t)) else []) @
        (if b \<in> {DropEntities, CreateEntities} then [] else catalog_operations s t b) = catalog_operations s t b" for b
      by (cases b) (simp_all add: catalog_operations_def snapshot_entity_def)
  qed simp
  have each: "length (catalog_operations s t b) \<le> length (operations_list s t)" for b
    by (cases b) (simp_all add: operations_list_def bucket_order_def)
  have ran: "?run ({}, \<lambda>_. []) = Inr st \<longleftrightarrow> required_renames s t \<subseteq> ?D \<and>
      (\<forall>b. catalog_operations s t b \<noteq> [] \<longrightarrow> length (catalog_operations s t b) \<le> dl_max_operations L) \<and>
      st = (required_renames s t, catalog_operations s t)" for st
    using run [unfolded emits_def, rule_format, of "({}, \<lambda>_. [])" st] by simp
  have "diff_catalog quote s t intent L = Inr d \<longleftrightarrow>
      validate_diff_limits L = Inr () \<and> cs_scope s = cs_scope t \<and> length (mi_renames intent) \<le> dl_max_rename_intents L \<and>
      (\<exists>used op_buckets. ?run ({}, \<lambda>_. []) = Inr (used, op_buckets) \<and> used = ?D \<and>
        (\<exists>ops. try_each (append_checked L) (map op_buckets bucket_order) [] = Inr ops \<and>
          d = \<lparr>cd_source = s, cd_target = t, cd_operations = ops\<rparr>))"
    by (auto simp: diff_catalog_def Let_def and_then_Inr)
  also have "\<dots> \<longleftrightarrow> validate_diff_limits L = Inr () \<and> cs_scope s = cs_scope t \<and> length (mi_renames intent) \<le> dl_max_rename_intents L \<and>
      ?D = required_renames s t \<and> length (operations_list s t) \<le> dl_max_operations L \<and>
      d = \<lparr>cd_source = s, cd_target = t, cd_operations = operations_list s t\<rparr>"
    unfolding ran append_each using each assms(3) order_trans
    by (auto simp: operations_list_def bucket_order_def)
  finally show ?thesis .
qed

section \<open>What operations do\<close>

text \<open>An abstract catalog: names of entities by key, fields and indexes by the keys of their entity and their own.\<close>

record abstract_catalog =
  ac_names :: "string \<Rightarrow> string option"
  ac_fields :: "string \<times> string \<Rightarrow> catalog_field option"
  ac_indexes :: "string \<times> string \<Rightarrow> catalog_index option"

definition abstract_of :: "catalog_snapshot \<Rightarrow> abstract_catalog" where
  "abstract_of s =
     \<lparr>ac_names = (\<lambda>e. map_option ce_name (snapshot_entity s e)),
      ac_fields = (\<lambda>(e, k). Option.bind (snapshot_entity s e) (\<lambda>x. entity_field x k)),
      ac_indexes = (\<lambda>(e, k). Option.bind (snapshot_entity s e) (\<lambda>x. entity_index x k))\<rparr>"

fun name_effect :: "migration_operation \<Rightarrow> string \<Rightarrow> string option \<Rightarrow> string option" where
  "name_effect (CreateEntity x) e v = (if e = ce_key x then Some (ce_name x) else v)"
| "name_effect (DropEntity x) e v = (if e = ce_key x then None else v)"
| "name_effect (RenameEntity key from to) e v = (if e = key then map_option (\<lambda>_. to) v else v)"
| "name_effect _ e v = v"

fun field_effect :: "migration_operation \<Rightarrow> string \<times> string \<Rightarrow> catalog_field option \<Rightarrow> catalog_field option" where
  "field_effect (CreateEntity x) (e, k) v = (if e = ce_key x then entity_field x k else v)"
| "field_effect (DropEntity x) (e, k) v = (if e = ce_key x then None else v)"
| "field_effect (AddField entity f) (e, k) v = (if e = entity \<and> k = cf_key f then Some f else v)"
| "field_effect (DropField entity f) (e, k) v = (if e = entity \<and> k = cf_key f then None else v)"
| "field_effect (RenameField entity key from to) (e, k) v =
     (if e = entity \<and> k = key then map_option (\<lambda>f. f\<lparr>cf_name := to\<rparr>) v else v)"
| "field_effect (AlterField entity before after) (e, k) v =
     (if e = entity \<and> k = cf_key after then map_option (\<lambda>_. after) v else v)"
| "field_effect _ cell v = v"

fun index_effect :: "migration_operation \<Rightarrow> string \<times> string \<Rightarrow> catalog_index option \<Rightarrow> catalog_index option" where
  "index_effect (CreateEntity x) (e, k) v = (if e = ce_key x then entity_index x k else v)"
| "index_effect (DropEntity x) (e, k) v = (if e = ce_key x then None else v)"
| "index_effect (CreateIndex entity i) (e, k) v = (if e = entity \<and> k = ci_key i then Some i else v)"
| "index_effect (DropIndex entity i) (e, k) v = (if e = entity \<and> k = ci_key i then None else v)"
| "index_effect (RenameIndex entity key from to) (e, k) v =
     (if e = entity \<and> k = key then map_option (\<lambda>i. i\<lparr>ci_name := to\<rparr>) v else v)"
| "index_effect _ cell v = v"

definition apply_operation :: "migration_operation \<Rightarrow> abstract_catalog \<Rightarrow> abstract_catalog" where
  "apply_operation op c =
     \<lparr>ac_names = (\<lambda>cell. name_effect op cell (ac_names c cell)),
      ac_fields = (\<lambda>cell. field_effect op cell (ac_fields c cell)),
      ac_indexes = (\<lambda>cell. index_effect op cell (ac_indexes c cell))\<rparr>"

lemma fold_apply:
  "ac_names (fold apply_operation ops c) e = fold (\<lambda>op. name_effect op e) ops (ac_names c e)"
  "ac_fields (fold apply_operation ops c) cell = fold (\<lambda>op. field_effect op cell) ops (ac_fields c cell)"
  "ac_indexes (fold apply_operation ops c) cell = fold (\<lambda>op. index_effect op cell) ops (ac_indexes c cell)"
  by (induction ops arbitrary: c) (simp_all add: apply_operation_def)

text \<open>Operations made from the elements of a keyed list, seen at one cell.\<close>

lemma fold_id: "(\<And>x v. x \<in> set xs \<Longrightarrow> g x v = v) \<Longrightarrow> fold g xs v = v"
  by (induction xs arbitrary: v) simp_all

lemma fold_at_key:
  assumes "keyed key name xs" and "\<And>x op v. x \<in> set xs \<Longrightarrow> key x \<noteq> k \<Longrightarrow> op \<in> set (h x) \<Longrightarrow> g op v = v"
  shows "fold g (concat (map h xs)) v = (case find (\<lambda>x. key x = k) xs of None \<Rightarrow> v | Some x \<Rightarrow> fold g (h x) v)"
  using assms(2) keyed_distinct [OF assms(1)]
proof (induction xs arbitrary: v)
  case Nil
  then show ?case by simp
next
  case (Cons x xs)
  show ?case
  proof (cases "key x = k")
    case True
    then have "find (\<lambda>x. key x = k) xs = None" using Cons.prems(2) by (simp add: find_missing)
    moreover have "fold g (concat (map h xs)) w = (case find (\<lambda>x. key x = k) xs of None \<Rightarrow> w | Some x \<Rightarrow> fold g (h x) w)" for w
      by (rule Cons.IH) (use Cons.prems in auto)
    ultimately show ?thesis using True by simp
  next
    case False
    have "fold g (h x) v = v" by (rule fold_id) (use False Cons.prems(1) in auto)
    moreover have "fold g (concat (map h xs)) w = (case find (\<lambda>x. key x = k) xs of None \<Rightarrow> w | Some x \<Rightarrow> fold g (h x) w)" for w
      by (rule Cons.IH) (use Cons.prems in auto)
    ultimately show ?thesis using False by simp
  qed
qed

lemma entity_keyed:
  assumes "entity_valid a"
  shows "keyed cf_key cf_name (ce_fields a)" and "keyed ci_key ci_name (ce_indexes a)"
  using assms by (simp_all add: entity_valid_def)

lemma entity_at_key:
  assumes "snapshot_valid s"
  shows "snapshot_entity s e = Some a \<longleftrightarrow> a \<in> set (cs_entities s) \<and> ce_key a = e"
  using assms by (simp add: snapshot_entity_def snapshot_valid_def find_keyed [of ce_key ce_name])

lemma found_key: "find (\<lambda>x. key x = k) xs = Some y \<Longrightarrow> key y = k"
  by (auto simp: find_Some_iff)

definition no_effect_elsewhere :: "(migration_operation \<Rightarrow> string \<times> string \<Rightarrow> 'a \<Rightarrow> 'a) \<Rightarrow> bool" where
  "no_effect_elsewhere g \<longleftrightarrow>
     (\<forall>a z b op e k v. op \<in> set (entity_operations a z b) \<longrightarrow> ce_key z = ce_key a \<longrightarrow> ce_key a \<noteq> e \<longrightarrow> g op (e, k) v = v)"

lemma fields_elsewhere: "no_effect_elsewhere field_effect"
  unfolding no_effect_elsewhere_def
proof (intro allI impI)
  fix a z b op e k and v :: "catalog_field option"
  assume "op \<in> set (entity_operations a z b)" "ce_key z = ce_key a" "ce_key a \<noteq> e"
  then show "field_effect op (e, k) v = v"
    by (cases b) (auto simp: entity_operations_def split: if_splits option.splits)
qed

lemma indexes_elsewhere: "no_effect_elsewhere index_effect"
  unfolding no_effect_elsewhere_def
proof (intro allI impI)
  fix a z b op e k and v :: "catalog_index option"
  assume "op \<in> set (entity_operations a z b)" "ce_key z = ce_key a" "ce_key a \<noteq> e"
  then show "index_effect op (e, k) v = v"
    by (cases b) (auto simp: entity_operations_def split: if_splits option.splits)
qed

lemma entity_bucket_at:
  assumes "snapshot_valid s" and "snapshot_valid t" and "no_effect_elsewhere g"
    and "b \<notin> {DropEntities, CreateEntities, RenameEntities}"
  shows "fold (\<lambda>op. g op (e, k)) (catalog_operations s t b) v =
    (case snapshot_entity s e of None \<Rightarrow> v | Some a \<Rightarrow>
       (case snapshot_entity t e of None \<Rightarrow> v | Some z \<Rightarrow> fold (\<lambda>op. g op (e, k)) (entity_operations a z b) v))"
proof -
  let ?h = "\<lambda>a. case snapshot_entity t (ce_key a) of None \<Rightarrow> [] | Some z \<Rightarrow> entity_operations a z b"
  have "catalog_operations s t b = concat (map ?h (cs_entities s))"
    using assms(4) by (cases b) (simp_all add: catalog_operations_def cong: option.case_cong)
  moreover have "keyed ce_key ce_name (cs_entities s)" using assms(1) by (simp add: snapshot_valid_def)
  moreover have "g op (e, k) v = v" if "ce_key a \<noteq> e" "op \<in> set (?h a)" for a op v
  proof (cases "snapshot_entity t (ce_key a)")
    case None
    with that show ?thesis by simp
  next
    case (Some z)
    then have "ce_key z = ce_key a" using entity_at_key [OF assms(2)] by simp
    with Some that assms(3) show ?thesis unfolding no_effect_elsewhere_def by auto
  qed
  ultimately have "fold (\<lambda>op. g op (e, k)) (catalog_operations s t b) v =
      (case find (\<lambda>x. ce_key x = e) (cs_entities s) of None \<Rightarrow> v | Some a \<Rightarrow> fold (\<lambda>op. g op (e, k)) (?h a) v)"
    by (simp only:) (rule fold_at_key)
  then show ?thesis unfolding snapshot_entity_def
    by (cases "find (\<lambda>x. ce_key x = e) (cs_entities s)") (auto dest: found_key split: option.split)
qed

text \<open>Creating and dropping, for any effect that respects the entity.\<close>

lemma drop_entities_at:
  assumes "snapshot_valid s" and "\<And>x v. g (DropEntity x) v = (if e = ce_key x then None else v)"
  shows "fold g (catalog_operations s t DropEntities) v =
    (if snapshot_entity s e \<noteq> None \<and> snapshot_entity t e = None then None else v)"
proof -
  have "keyed ce_key ce_name (cs_entities s)" using assms(1) by (simp add: snapshot_valid_def)
  then have "fold g (catalog_operations s t DropEntities) v =
      (case find (\<lambda>x. ce_key x = e) (cs_entities s) of None \<Rightarrow> v | Some a \<Rightarrow>
        fold g (if snapshot_entity t (ce_key a) = None then [DropEntity a] else []) v)"
    unfolding catalog_operations_def bucket_kind.case by (rule fold_at_key) (auto simp: assms(2) split: if_splits)
  then show ?thesis unfolding snapshot_entity_def
    by (cases "find (\<lambda>x. ce_key x = e) (cs_entities s)") (auto simp: assms(2) dest: found_key)
qed

lemma create_entities_at:
  assumes "snapshot_valid t" and "\<And>x v. g (CreateEntity x) v = (if e = ce_key x then c x else v)"
  shows "fold g (catalog_operations s t CreateEntities) v =
    (case snapshot_entity t e of None \<Rightarrow> v | Some z \<Rightarrow> if snapshot_entity s e = None then c z else v)"
proof -
  have "keyed ce_key ce_name (cs_entities t)" using assms(1) by (simp add: snapshot_valid_def)
  then have "fold g (catalog_operations s t CreateEntities) v =
      (case find (\<lambda>x. ce_key x = e) (cs_entities t) of None \<Rightarrow> v | Some z \<Rightarrow>
        fold g (if snapshot_entity s (ce_key z) = None then [CreateEntity z] else []) v)"
    unfolding catalog_operations_def bucket_kind.case by (rule fold_at_key) (auto simp: assms(2) split: if_splits)
  then show ?thesis unfolding snapshot_entity_def
    by (cases "find (\<lambda>x. ce_key x = e) (cs_entities t)") (auto simp: assms(2) dest: found_key)
qed

lemma rename_entities_skip:
  assumes "\<And>key from to v. g (RenameEntity key from to) v = v"
  shows "fold g (catalog_operations s t RenameEntities) v = v"
  by (rule fold_id) (auto simp: catalog_operations_def assms split: option.splits if_splits)

lemma operations_fold:
  "fold g (operations_list s t) v =
    fold g (catalog_operations s t CreateIndexes) (fold g (catalog_operations s t RenameIndexes)
    (fold g (catalog_operations s t AlterFields) (fold g (catalog_operations s t AddFields)
    (fold g (catalog_operations s t RenameFields) (fold g (catalog_operations s t CreateEntities)
    (fold g (catalog_operations s t RenameEntities) (fold g (catalog_operations s t DropEntities)
    (fold g (catalog_operations s t DropFields) (fold g (catalog_operations s t DropIndexes) v)))))))))"
  by (simp add: operations_list_def bucket_order_def)

section \<open>The operations turn the source into the target\<close>

lemma field_buckets_at:
  fixes k :: string
  assumes "entity_valid a" and "entity_valid z" and "ce_key a = e" and "ce_key z = e"
  defines "g \<equiv> \<lambda>op. field_effect op (e, k)"
  shows "fold g (entity_operations a z DropFields) v =
      (if entity_field a k \<noteq> None \<and> entity_field z k = None then None else v)"
    and "fold g (entity_operations a z AddFields) v =
      (case entity_field z k of None \<Rightarrow> v | Some f \<Rightarrow> if entity_field a k = None then Some f else v)"
    and "fold g (entity_operations a z RenameFields) v =
      (case entity_field a k of None \<Rightarrow> v | Some f \<Rightarrow> (case entity_field z k of None \<Rightarrow> v | Some h \<Rightarrow>
         if cf_name f \<noteq> cf_name h then map_option (\<lambda>f. f\<lparr>cf_name := cf_name h\<rparr>) v else v))"
    and "fold g (entity_operations a z AlterFields) v =
      (case entity_field a k of None \<Rightarrow> v | Some f \<Rightarrow> (case entity_field z k of None \<Rightarrow> v | Some h \<Rightarrow>
         if field_altered f h then map_option (\<lambda>_. h) v else v))"
    and "fold g (entity_operations a z DropIndexes) v = v" and "fold g (entity_operations a z RenameIndexes) v = v"
    and "fold g (entity_operations a z CreateIndexes) v = v"
proof -
  note at = fold_at_key [of cf_key cf_name _ k _ g]
  note keyed = entity_keyed(1) [OF assms(1)] entity_keyed(1) [OF assms(2)]
  have keys: "cf_key f = key" if "entity_field x key = Some f" for x key f
    using that by (auto simp: entity_field_def dest: found_key)
  show "fold g (entity_operations a z DropFields) v =
      (if entity_field a k \<noteq> None \<and> entity_field z k = None then None else v)"
    unfolding entity_operations_def bucket_kind.case using keyed
    by (subst at) (auto simp: g_def assms(3,4) entity_field_def [symmetric] dest: keys keys [OF sym] split: option.splits if_splits)
  show "fold g (entity_operations a z AddFields) v =
      (case entity_field z k of None \<Rightarrow> v | Some f \<Rightarrow> if entity_field a k = None then Some f else v)"
    unfolding entity_operations_def bucket_kind.case using keyed
    by (subst at) (auto simp: g_def assms(3,4) entity_field_def [symmetric] dest: keys keys [OF sym] split: option.splits if_splits)
  show "fold g (entity_operations a z RenameFields) v =
      (case entity_field a k of None \<Rightarrow> v | Some f \<Rightarrow> (case entity_field z k of None \<Rightarrow> v | Some h \<Rightarrow>
         if cf_name f \<noteq> cf_name h then map_option (\<lambda>f. f\<lparr>cf_name := cf_name h\<rparr>) v else v))"
    unfolding entity_operations_def bucket_kind.case using keyed
    by (subst at) (auto simp: g_def assms(3,4) entity_field_def [symmetric] dest: keys keys [OF sym] split: option.splits if_splits)
  show "fold g (entity_operations a z AlterFields) v =
      (case entity_field a k of None \<Rightarrow> v | Some f \<Rightarrow> (case entity_field z k of None \<Rightarrow> v | Some h \<Rightarrow>
         if field_altered f h then map_option (\<lambda>_. h) v else v))"
  proof -
    let ?h = "\<lambda>f. case entity_field z (cf_key f) of None \<Rightarrow> [] | Some h \<Rightarrow> if field_altered f h then [AlterField (ce_key a) f h] else []"
    have "fold g (entity_operations a z AlterFields) v = (case entity_field a k of None \<Rightarrow> v | Some f \<Rightarrow> fold g (?h f) v)"
      unfolding entity_operations_def bucket_kind.case entity_field_def [of a]
      by (rule at [OF keyed(1)]) (auto simp: g_def dest: keys [OF sym] split: option.splits if_splits)
    then show ?thesis
      by (cases "entity_field a k"; cases "entity_field z k") (use keys in \<open>simp_all add: g_def assms(3)\<close>)
  qed
  show "fold g (entity_operations a z DropIndexes) v = v" "fold g (entity_operations a z RenameIndexes) v = v"
    "fold g (entity_operations a z CreateIndexes) v = v"
    by (rule fold_id; auto simp: g_def entity_operations_def split: option.splits if_splits)+
qed

lemma index_buckets_at:
  fixes k :: string
  assumes "entity_valid a" and "entity_valid z" and "ce_key a = e" and "ce_key z = e"
  defines "g \<equiv> \<lambda>op. index_effect op (e, k)"
  shows "fold g (entity_operations a z DropIndexes) v =
      (case entity_index a k of None \<Rightarrow> v | Some i \<Rightarrow> if index_kept z i then v else None)"
    and "fold g (entity_operations a z CreateIndexes) v =
      (case entity_index z k of None \<Rightarrow> v | Some j \<Rightarrow> if index_kept a j then v else Some j)"
    and "fold g (entity_operations a z RenameIndexes) v =
      (case entity_index z k of None \<Rightarrow> v | Some j \<Rightarrow> (case entity_index a k of None \<Rightarrow> v | Some i \<Rightarrow>
         if ci_name i \<noteq> ci_name j \<and> \<not> index_changed i j then map_option (\<lambda>i. i\<lparr>ci_name := ci_name j\<rparr>) v else v))"
    and "fold g (entity_operations a z DropFields) v = v" and "fold g (entity_operations a z AddFields) v = v"
    and "fold g (entity_operations a z RenameFields) v = v" and "fold g (entity_operations a z AlterFields) v = v"
proof -
  note at = fold_at_key [of ci_key ci_name _ k _ g]
  note keyed = entity_keyed(2) [OF assms(1)] entity_keyed(2) [OF assms(2)]
  have keys: "ci_key f = key" if "entity_index x key = Some f" for x key f
    using that by (auto simp: entity_index_def dest: found_key)
  show "fold g (entity_operations a z DropIndexes) v =
      (case entity_index a k of None \<Rightarrow> v | Some i \<Rightarrow> if index_kept z i then v else None)"
    unfolding entity_operations_def bucket_kind.case using keyed
    by (subst at) (auto simp: g_def assms(3,4) entity_index_def [symmetric] dest: keys keys [OF sym] split: option.splits if_splits)
  show "fold g (entity_operations a z CreateIndexes) v =
      (case entity_index z k of None \<Rightarrow> v | Some j \<Rightarrow> if index_kept a j then v else Some j)"
    unfolding entity_operations_def bucket_kind.case using keyed
    by (subst at) (auto simp: g_def assms(3,4) entity_index_def [symmetric] dest: keys keys [OF sym] split: option.splits if_splits)
  show "fold g (entity_operations a z RenameIndexes) v =
      (case entity_index z k of None \<Rightarrow> v | Some j \<Rightarrow> (case entity_index a k of None \<Rightarrow> v | Some i \<Rightarrow>
         if ci_name i \<noteq> ci_name j \<and> \<not> index_changed i j then map_option (\<lambda>i. i\<lparr>ci_name := ci_name j\<rparr>) v else v))"
    unfolding entity_operations_def bucket_kind.case using keyed
    by (subst at) (auto simp: g_def assms(3,4) entity_index_def [symmetric] dest: keys keys [OF sym] split: option.splits if_splits)
  show "fold g (entity_operations a z DropFields) v = v" "fold g (entity_operations a z AddFields) v = v"
    "fold g (entity_operations a z RenameFields) v = v" "fold g (entity_operations a z AlterFields) v = v"
    by (rule fold_id; auto simp: g_def entity_operations_def split: option.splits if_splits)+
qed

lemma fields_transformed:
  assumes "snapshot_valid s" and "snapshot_valid t"
  shows "fold (\<lambda>op. field_effect op (e, k)) (operations_list s t) (ac_fields (abstract_of s) (e, k)) = ac_fields (abstract_of t) (e, k)"
proof -
  let ?g = "\<lambda>op. field_effect op (e, k)"
  note entities = entity_bucket_at [OF assms fields_elsewhere, where e = e and k = k]
    drop_entities_at [OF assms(1), of ?g e t] create_entities_at [OF assms(2), of ?g e "\<lambda>z. entity_field z k" s]
    rename_entities_skip [of ?g s t]
  show ?thesis
  proof (cases "snapshot_entity s e")
    case None
    then show ?thesis
      by (cases "snapshot_entity t e") (simp_all add: operations_fold entities abstract_of_def)
  next
    case (Some a)
    note a = this
    then have valid: "entity_valid a" "ce_key a = e"
      using assms(1) entity_at_key [OF assms(1)] by (auto simp: snapshot_valid_def)
    show ?thesis
    proof (cases "snapshot_entity t e")
      case None
      with a show ?thesis by (simp add: operations_fold entities abstract_of_def)
    next
      case (Some z)
      then have valid': "entity_valid z" "ce_key z = e"
        using assms(2) entity_at_key [OF assms(2)] by (auto simp: snapshot_valid_def)
      have same: "h = f\<lparr>cf_name := cf_name h\<rparr>" if "entity_field a k = Some f" "entity_field z k = Some h" "\<not> field_altered f h" for f h
        using that by (cases f; cases h) (auto simp: entity_field_def field_altered_def dest!: found_key)
      have equal: "f = h" if "entity_field a k = Some f" "entity_field z k = Some h" "\<not> field_altered f h" "cf_name f = cf_name h" for f h
        using that by (cases f; cases h) (auto simp: entity_field_def field_altered_def dest!: found_key)
      show ?thesis
        using a Some same equal
        by (cases "entity_field a k"; cases "entity_field z k")
          (auto simp: operations_fold entities abstract_of_def field_buckets_at [OF valid(1) valid'(1) valid(2) valid'(2)])
    qed
  qed
qed

lemma indexes_transformed:
  assumes "snapshot_valid s" and "snapshot_valid t"
  shows "fold (\<lambda>op. index_effect op (e, k)) (operations_list s t) (ac_indexes (abstract_of s) (e, k)) = ac_indexes (abstract_of t) (e, k)"
proof -
  let ?g = "\<lambda>op. index_effect op (e, k)"
  note entities = entity_bucket_at [OF assms indexes_elsewhere, where e = e and k = k]
    drop_entities_at [OF assms(1), of ?g e t] create_entities_at [OF assms(2), of ?g e "\<lambda>z. entity_index z k" s]
    rename_entities_skip [of ?g s t]
  show ?thesis
  proof (cases "snapshot_entity s e")
    case None
    then show ?thesis
      by (cases "snapshot_entity t e") (simp_all add: operations_fold entities abstract_of_def)
  next
    case (Some a)
    note a = this
    then have valid: "entity_valid a" "ce_key a = e"
      using assms(1) entity_at_key [OF assms(1)] by (auto simp: snapshot_valid_def)
    show ?thesis
    proof (cases "snapshot_entity t e")
      case None
      with a show ?thesis by (simp add: operations_fold entities abstract_of_def)
    next
      case (Some z)
      then have valid': "entity_valid z" "ce_key z = e"
        using assms(2) entity_at_key [OF assms(2)] by (auto simp: snapshot_valid_def)
      have same: "j = i\<lparr>ci_name := ci_name j\<rparr>" if "entity_index a k = Some i" "entity_index z k = Some j" "\<not> index_changed i j" for i j
        using that by (cases i; cases j) (auto simp: entity_index_def index_changed_def dest!: found_key)
      have keys: "ci_key i = k" if "entity_index x k = Some i" for x i
        using that by (auto simp: entity_index_def dest: found_key)
      show ?thesis
        using a Some same
        by (cases "entity_index a k"; cases "entity_index z k")
          (auto simp: operations_fold entities abstract_of_def index_buckets_at [OF valid(1) valid'(1) valid(2) valid'(2)]
            index_kept_def keys index_changed_def)
    qed
  qed
qed

lemma names_transformed:
  assumes "snapshot_valid s" and "snapshot_valid t"
  shows "fold (\<lambda>op. name_effect op e) (operations_list s t) (ac_names (abstract_of s) e) = ac_names (abstract_of t) e"
proof -
  let ?g = "\<lambda>op. name_effect op e"
  have skip: "fold ?g (catalog_operations s t b) v = v" if "b \<notin> {DropEntities, CreateEntities, RenameEntities}" for b v
    by (rule fold_id) (use that in \<open>cases b; auto simp: catalog_operations_def entity_operations_def split: option.splits if_splits\<close>)
  have "fold ?g (catalog_operations s t RenameEntities) v =
      (case snapshot_entity s e of None \<Rightarrow> v | Some a \<Rightarrow> (case snapshot_entity t e of None \<Rightarrow> v | Some z \<Rightarrow>
         if ce_name a \<noteq> ce_name z then map_option (\<lambda>_. ce_name z) v else v))" for v
  proof -
    let ?h = "\<lambda>a. case snapshot_entity t (ce_key a) of None \<Rightarrow> [] | Some z \<Rightarrow>
      if ce_name a \<noteq> ce_name z then [RenameEntity (ce_key a) (ce_name a) (ce_name z)] else []"
    have "keyed ce_key ce_name (cs_entities s)" using assms(1) by (simp add: snapshot_valid_def)
    then have "fold ?g (catalog_operations s t RenameEntities) v =
        (case find (\<lambda>x. ce_key x = e) (cs_entities s) of None \<Rightarrow> v | Some a \<Rightarrow> fold ?g (?h a) v)"
      unfolding catalog_operations_def bucket_kind.case by (rule fold_at_key) (auto split: option.splits if_splits)
    then show ?thesis unfolding snapshot_entity_def
      by (cases "find (\<lambda>x. ce_key x = e) (cs_entities s)") (auto dest: found_key split: option.split)
  qed
  note entities = this skip drop_entities_at [OF assms(1), of ?g e t] create_entities_at [OF assms(2), of ?g e "\<lambda>z. Some (ce_name z)" s]
  show ?thesis
    by (cases "snapshot_entity s e"; cases "snapshot_entity t e") (auto simp: operations_fold entities abstract_of_def)
qed

theorem operations_transform:
  assumes "snapshot_valid s" and "snapshot_valid t"
  shows "fold apply_operation (operations_list s t) (abstract_of s) = abstract_of t"
  by (rule abstract_catalog.equality)
    (auto simp: fold_apply fun_eq_iff fields_transformed [OF assms] indexes_transformed [OF assms] names_transformed [OF assms])

text \<open>The abstraction forgets nothing of a valid snapshot.\<close>

lemma abstract_determines:
  assumes "snapshot_valid s" and "snapshot_valid t" and "abstract_of s = abstract_of t"
  shows "cs_entities s = cs_entities t"
proof -
  have part: "set (cs_entities s) \<subseteq> set (cs_entities t)"
    if "snapshot_valid s" "snapshot_valid t" "abstract_of s = abstract_of t" for s t
  proof
    fix a
    assume a: "a \<in> set (cs_entities s)"
    then have s: "snapshot_entity s (ce_key a) = Some a" using entity_at_key [OF that(1)] by simp
    from that(3) have cells: "map_option ce_name (snapshot_entity s e) = map_option ce_name (snapshot_entity t e)"
      "Option.bind (snapshot_entity s e) (\<lambda>x. entity_field x k) = Option.bind (snapshot_entity t e) (\<lambda>x. entity_field x k)"
      "Option.bind (snapshot_entity s e) (\<lambda>x. entity_index x k) = Option.bind (snapshot_entity t e) (\<lambda>x. entity_index x k)" for e k
      by (simp_all add: abstract_of_def fun_eq_iff)
    obtain z where t: "snapshot_entity t (ce_key a) = Some z" and name: "ce_name z = ce_name a"
      using cells(1) [of "ce_key a"] s by (cases "snapshot_entity t (ce_key a)") auto
    then have z: "z \<in> set (cs_entities t)" "ce_key z = ce_key a" using entity_at_key [OF that(2)] by simp_all
    have valid: "entity_valid a" "entity_valid z" using a z that(1,2) by (simp_all add: snapshot_valid_def)
    have fs: "entity_field a k = entity_field z k" and ixs: "entity_index a k = entity_index z k" for k
      using cells(2,3) [of "ce_key a" k] s t by simp_all
    have "f \<in> set (ce_fields a) \<longleftrightarrow> f \<in> set (ce_fields z)" for f
      using fs [of "cf_key f"] find_keyed [OF entity_keyed(1) [OF valid(1)]] find_keyed [OF entity_keyed(1) [OF valid(2)]]
      by (simp add: entity_field_def) metis
    then have "ce_fields a = ce_fields z"
      by (intro keyed_unique [OF entity_keyed(1) [OF valid(1)] entity_keyed(1) [OF valid(2)]]) auto
    moreover have "i \<in> set (ce_indexes a) \<longleftrightarrow> i \<in> set (ce_indexes z)" for i
      using ixs [of "ci_key i"] find_keyed [OF entity_keyed(2) [OF valid(1)]] find_keyed [OF entity_keyed(2) [OF valid(2)]]
      by (simp add: entity_index_def) metis
    then have "ce_indexes a = ce_indexes z"
      by (intro keyed_unique [OF entity_keyed(2) [OF valid(1)] entity_keyed(2) [OF valid(2)]]) auto
    ultimately have "a = z" using name z(2) by simp
    with z(1) show "a \<in> set (cs_entities t)" by simp
  qed
  have "set (cs_entities s) = set (cs_entities t)" using part [OF assms] part [OF assms(2,1) assms(3) [symmetric]] by blast
  then show ?thesis using assms(1,2) by (auto simp: snapshot_valid_def intro: keyed_unique)
qed

end
