(* ===== verification/Migrate_Apply.thy ===== *)
theory Migrate_Apply
  imports Migrate_Diff_Laws
begin

text \<open>
  \<open>plan/mod.rs\<close>, \<open>policy/mod.rs\<close> and \<open>apply/mod.rs\<close> of \<open>dol-migrate\<close>: risks and plans, policies and approvals, and
  the locked protocol that applies a plan to a backend. A backend is a record of its operations over its state.
\<close>

section \<open>Risks\<close>

datatype data_safety = DataSafe | RequiresDataRewrite | Destructive

datatype operational_impact = MetadataOnly | Locking | DataRewrite | ExternalRebuild

datatype automation_level = Automatic | RequiresApproval | Manual | UnsupportedStep

text \<open>The derived orders follow the declarations.\<close>

fun data_rank :: "data_safety \<Rightarrow> nat" where
  "data_rank DataSafe = 0"
| "data_rank RequiresDataRewrite = 1"
| "data_rank Destructive = 2"

fun automation_rank :: "automation_level \<Rightarrow> nat" where
  "automation_rank Automatic = 0"
| "automation_rank RequiresApproval = 1"
| "automation_rank Manual = 2"
| "automation_rank UnsupportedStep = 3"

instantiation data_safety :: linorder
begin

definition less_data_safety :: "data_safety \<Rightarrow> data_safety \<Rightarrow> bool" where
  "less_data_safety a b \<longleftrightarrow> data_rank a < data_rank b"

definition less_eq_data_safety :: "data_safety \<Rightarrow> data_safety \<Rightarrow> bool" where
  "less_eq_data_safety a b \<longleftrightarrow> data_rank a \<le> data_rank b"

instance
proof
  show "a = b" if "a \<le> b" "b \<le> a" for a b :: data_safety
    using that by (cases a; cases b) (simp_all add: less_eq_data_safety_def)
qed (auto simp: less_data_safety_def less_eq_data_safety_def)

end

instantiation automation_level :: linorder
begin

definition less_automation_level :: "automation_level \<Rightarrow> automation_level \<Rightarrow> bool" where
  "less_automation_level a b \<longleftrightarrow> automation_rank a < automation_rank b"

definition less_eq_automation_level :: "automation_level \<Rightarrow> automation_level \<Rightarrow> bool" where
  "less_eq_automation_level a b \<longleftrightarrow> automation_rank a \<le> automation_rank b"

instance
proof
  show "a = b" if "a \<le> b" "b \<le> a" for a b :: automation_level
    using that by (cases a; cases b) (simp_all add: less_eq_automation_level_def)
qed (auto simp: less_automation_level_def less_eq_automation_level_def)

end

fun operational_rank :: "operational_impact \<Rightarrow> nat" where
  "operational_rank MetadataOnly = 0"
| "operational_rank Locking = 1"
| "operational_rank ExternalRebuild = 2"
| "operational_rank DataRewrite = 3"

record migration_risk =
  mr_data :: data_safety
  mr_operation :: operational_impact
  mr_automation :: automation_level

fun risk_for_operation :: "migration_operation \<Rightarrow> migration_risk" where
  "risk_for_operation (CreateEntity e) = \<lparr>mr_data = DataSafe, mr_operation = Locking, mr_automation = Automatic\<rparr>"
| "risk_for_operation (DropEntity e) = \<lparr>mr_data = Destructive, mr_operation = Locking, mr_automation = RequiresApproval\<rparr>"
| "risk_for_operation (DropField entity f) = \<lparr>mr_data = Destructive, mr_operation = Locking, mr_automation = RequiresApproval\<rparr>"
| "risk_for_operation (RenameEntity entity from to) =
     \<lparr>mr_data = DataSafe, mr_operation = MetadataOnly, mr_automation = RequiresApproval\<rparr>"
| "risk_for_operation (RenameField entity key from to) =
     \<lparr>mr_data = DataSafe, mr_operation = MetadataOnly, mr_automation = RequiresApproval\<rparr>"
| "risk_for_operation (RenameIndex entity key from to) =
     \<lparr>mr_data = DataSafe, mr_operation = MetadataOnly, mr_automation = RequiresApproval\<rparr>"
| "risk_for_operation (AddField entity f) =
     (if \<not> cf_required f then \<lparr>mr_data = DataSafe, mr_operation = MetadataOnly, mr_automation = Automatic\<rparr>
      else \<lparr>mr_data = RequiresDataRewrite, mr_operation = DataRewrite, mr_automation = RequiresApproval\<rparr>)"
| "risk_for_operation (AlterField entity before after) =
     \<lparr>mr_data = RequiresDataRewrite, mr_operation = DataRewrite, mr_automation = RequiresApproval\<rparr>"
| "risk_for_operation (CreateIndex entity i) =
     \<lparr>mr_data = DataSafe, mr_operation = ExternalRebuild, mr_automation = RequiresApproval\<rparr>"
| "risk_for_operation (DropIndex entity i) = \<lparr>mr_data = DataSafe, mr_operation = Locking, mr_automation = RequiresApproval\<rparr>"

definition risk_covers :: "migration_risk \<Rightarrow> migration_risk \<Rightarrow> bool" where
  "risk_covers r minimum \<longleftrightarrow>
     mr_data r \<ge> mr_data minimum \<and> operational_rank (mr_operation r) \<ge> operational_rank (mr_operation minimum) \<and>
     mr_automation r \<ge> mr_automation minimum"

section \<open>Plans\<close>

record migration_step =
  sp_id :: nat
  sp_operation :: migration_operation
  sp_risk :: migration_risk

record plan_identity =
  pi_scope :: catalog_scope
  pi_source_revision :: catalog_revision
  pi_target_revision :: catalog_revision
  pi_steps :: "migration_step list"

record migration_plan =
  mp_identity :: plan_identity
  mp_source :: catalog_snapshot
  mp_target :: catalog_snapshot

abbreviation plan_steps :: "migration_plan \<Rightarrow> migration_step list" where
  "plan_steps plan \<equiv> pi_steps (mp_identity plan)"

definition migrate_plan_001 :: diagnostic where
  "migrate_plan_001 = diagnostic_error ''MIGRATE-PLAN-001'' ''migration step count overflowed''"
definition migrate_plan_001_range :: diagnostic where
  "migrate_plan_001_range = diagnostic_error ''MIGRATE-PLAN-001''
     ''migration step count exceeds the supported identifier range''"
definition migrate_plan_002 :: diagnostic where
  "migrate_plan_002 = diagnostic_error ''MIGRATE-PLAN-002'' ''migration plan source and target scopes differ''"
definition migrate_plan_003 :: diagnostic where
  "migrate_plan_003 = diagnostic_error ''MIGRATE-PLAN-003'' ''migration step identifiers must be contiguous and one-based''"
definition migrate_plan_004 :: "nat \<Rightarrow> diagnostic" where
  "migrate_plan_004 i = diagnostic_error ''MIGRATE-PLAN-004'' (''step '' @ show_nat i @ '' understates its generic minimum risk'')"
definition migrate_plan_005 :: diagnostic where
  "migrate_plan_005 = diagnostic_error ''MIGRATE-PLAN-005'' ''planner limits must be greater than zero''"

definition check_step :: "nat \<times> migration_step \<Rightarrow> unit res" where
  "check_step = (\<lambda>(index, step).
     if index + 1 \<ge> 2 ^ 32 then Inl migrate_plan_001
     else if sp_id step \<noteq> index + 1 then Inl migrate_plan_003
     else if \<not> risk_covers (sp_risk step) (risk_for_operation (sp_operation step)) then Inl (migrate_plan_004 (sp_id step))
     else Inr ())"

definition migration_plan_new :: "catalog_snapshot \<Rightarrow> catalog_snapshot \<Rightarrow> migration_step list \<Rightarrow> migration_plan res" where
  "migration_plan_new source target steps =
     (if cs_scope source \<noteq> cs_scope target then Inl migrate_plan_002
      else and_then (try_all check_step (enumerate 0 steps)) (\<lambda>_.
        Inr \<lparr>mp_identity = \<lparr>pi_scope = cs_scope source, pi_source_revision = cs_revision source,
               pi_target_revision = cs_revision target, pi_steps = steps\<rparr>,
             mp_source = source, mp_target = target\<rparr>))"

definition plan_step :: "nat \<times> migration_operation \<Rightarrow> migration_step res" where
  "plan_step = (\<lambda>(index, op).
     and_then (ok_or (checked_add_usize index 1) migrate_plan_001) (\<lambda>sequence.
       if sequence \<ge> 2 ^ 32 then Inl migrate_plan_001_range
       else Inr \<lparr>sp_id = sequence, sp_operation = op, sp_risk = risk_for_operation op\<rparr>))"

definition plan_from_diff :: "catalog_diff \<Rightarrow> migration_plan res" where
  "plan_from_diff d =
     and_then (try_map plan_step (enumerate 0 (cd_operations d))) (migration_plan_new (cd_source d) (cd_target d))"

definition plan_changes :: "migration_plan \<Rightarrow> string list" where
  "plan_changes plan = map (\<lambda>step. operation_summary (sp_operation step)) (plan_steps plan)"

definition planner_new :: "diff_limits \<Rightarrow> diff_limits res" where
  "planner_new L =
     (if dl_max_operations L = 0 \<or> dl_max_rename_intents L = 0 then Inl migrate_plan_005 else Inr L)"

definition plan_migration :: "(string \<Rightarrow> string) \<Rightarrow> diff_limits \<Rightarrow> catalog_snapshot \<Rightarrow> catalog_snapshot \<Rightarrow> migration_intent \<Rightarrow>
    migration_plan res" where
  "plan_migration quote L source target intent = and_then (diff_catalog quote source target intent L) plan_from_diff"

section \<open>Policies and approvals\<close>

record migration_policy =
  po_data_rewrite :: bool
  po_destructive :: bool
  po_locking :: bool
  po_external_rebuild :: bool

definition conservative_policy :: migration_policy where
  "conservative_policy =
     \<lparr>po_data_rewrite = False, po_destructive = False, po_locking = True, po_external_rebuild = False\<rparr>"

definition with_data_rewrite :: "migration_policy \<Rightarrow> migration_policy" where
  "with_data_rewrite p = p\<lparr>po_data_rewrite := True\<rparr>"
definition with_destructive :: "migration_policy \<Rightarrow> migration_policy" where
  "with_destructive p = p\<lparr>po_data_rewrite := True, po_destructive := True\<rparr>"
definition with_locking :: "bool \<Rightarrow> migration_policy \<Rightarrow> migration_policy" where
  "with_locking allowed p = p\<lparr>po_locking := allowed\<rparr>"
definition with_external_rebuild :: "migration_policy \<Rightarrow> migration_policy" where
  "with_external_rebuild p = p\<lparr>po_external_rebuild := True\<rparr>"

record migration_approval =
  ap_identity :: plan_identity
  ap_steps :: "nat set"
  ap_actor :: string
  ap_rationale :: string

definition migrate_policy_001 :: diagnostic where
  "migrate_policy_001 = diagnostic_error ''MIGRATE-POLICY-001'' ''approval is bound to a different migration plan''"
definition migrate_policy_002 :: diagnostic where
  "migrate_policy_002 = diagnostic_error ''MIGRATE-POLICY-002'' ''approval actor and rationale must be non-empty''"
definition migrate_policy_003 :: diagnostic where
  "migrate_policy_003 = diagnostic_error ''MIGRATE-POLICY-003''
     ''approval contains a step that is not part of its bound plan''"
definition policy_denial :: "nat \<Rightarrow> string \<Rightarrow> diagnostic" where
  "policy_denial step reason = diagnostic_error ''MIGRATE-POLICY-004''
     (''migration step '' @ show_nat step @ '' denied: '' @ reason)"

definition authorize_data :: "migration_policy \<Rightarrow> nat \<Rightarrow> data_safety \<Rightarrow> unit res" where
  "authorize_data p i d =
     (case d of
        DataSafe \<Rightarrow> Inr ()
      | RequiresDataRewrite \<Rightarrow>
          if \<not> po_data_rewrite p then Inl (policy_denial i ''data rewrite is not allowed'') else Inr ()
      | Destructive \<Rightarrow>
          if \<not> po_destructive p then Inl (policy_denial i ''destructive changes are not allowed'') else Inr ())"

definition authorize_impact :: "migration_policy \<Rightarrow> nat \<Rightarrow> operational_impact \<Rightarrow> unit res" where
  "authorize_impact p i impact =
     (case impact of
        MetadataOnly \<Rightarrow> Inr ()
      | Locking \<Rightarrow> if \<not> po_locking p then Inl (policy_denial i ''locking operations are not allowed'') else Inr ()
      | ExternalRebuild \<Rightarrow>
          if \<not> po_external_rebuild p then Inl (policy_denial i ''external rebuilds are not allowed'') else Inr ()
      | DataRewrite \<Rightarrow>
          if \<not> po_data_rewrite p then Inl (policy_denial i ''data rewrite is not allowed'') else Inr ())"

definition authorize_automation :: "migration_approval option \<Rightarrow> nat \<Rightarrow> automation_level \<Rightarrow> unit res" where
  "authorize_automation approval i level =
     (case level of
        Automatic \<Rightarrow> Inr ()
      | RequiresApproval \<Rightarrow>
          if \<not> (case approval of None \<Rightarrow> False | Some a \<Rightarrow> i \<in> ap_steps a)
          then Inl (policy_denial i ''explicit approval is required'') else Inr ()
      | Manual \<Rightarrow> Inl (policy_denial i ''manual steps cannot be executed by the automatic applier'')
      | UnsupportedStep \<Rightarrow> Inl (policy_denial i ''the backend does not support this operation''))"

definition authorize_step :: "migration_policy \<Rightarrow> migration_approval option \<Rightarrow> migration_step \<Rightarrow> unit res" where
  "authorize_step p approval step =
     and_then (authorize_data p (sp_id step) (mr_data (sp_risk step))) (\<lambda>_.
     and_then (authorize_impact p (sp_id step) (mr_operation (sp_risk step))) (\<lambda>_.
       authorize_automation approval (sp_id step) (mr_automation (sp_risk step))))"

definition authorize :: "migration_policy \<Rightarrow> migration_plan \<Rightarrow> migration_approval option \<Rightarrow> unit res" where
  "authorize p plan approval =
     (if (case approval of None \<Rightarrow> False | Some a \<Rightarrow> ap_identity a \<noteq> mp_identity plan) then Inl migrate_policy_001
      else try_all (authorize_step p approval) (plan_steps plan))"

definition is_blank :: "string \<Rightarrow> bool" where
  "is_blank s \<longleftrightarrow> list_all is_whitespace (chars s)"

definition approval_new :: "migration_plan \<Rightarrow> nat list \<Rightarrow> string \<Rightarrow> string \<Rightarrow> migration_approval res" where
  "approval_new plan steps actor rationale =
     (if is_blank actor \<or> is_blank rationale then Inl migrate_policy_002
      else if \<not> set steps \<subseteq> set (map sp_id (plan_steps plan)) then Inl migrate_policy_003
      else Inr \<lparr>ap_identity = mp_identity plan, ap_steps = set steps, ap_actor = actor, ap_rationale = rationale\<rparr>)"

definition approve_all :: "migration_plan \<Rightarrow> string \<Rightarrow> string \<Rightarrow> migration_approval res" where
  "approve_all plan actor rationale = approval_new plan (map sp_id (plan_steps plan)) actor rationale"

section \<open>Application\<close>

record apply_limits =
  al_catalog :: catalog_limits
  al_max_steps :: nat

definition default_apply_limits :: apply_limits where
  "default_apply_limits = \<lparr>al_catalog = default_catalog_limits, al_max_steps = 16384\<rparr>"

datatype migration_finish = Commit | Abort

record 's catalog_backend =
  bk_inspect :: "catalog_scope \<Rightarrow> catalog_limits \<Rightarrow> 's \<Rightarrow> catalog_snapshot res \<times> 's"
  bk_begin :: "migration_plan \<Rightarrow> 's \<Rightarrow> unit res \<times> 's"
  bk_apply_step :: "migration_step \<Rightarrow> 's \<Rightarrow> unit res \<times> 's"
  bk_finish :: "migration_finish \<Rightarrow> 's \<Rightarrow> unit res \<times> 's"

record applied_step =
  as_id :: nat
  as_summary :: string

record migration_report =
  rp_identity :: plan_identity
  rp_initial_revision :: catalog_revision
  rp_final_revision :: catalog_revision
  rp_applied_steps :: "applied_step list"
  rp_inspections :: nat

definition show_diagnostic :: "diagnostic \<Rightarrow> string" where
  "show_diagnostic d = code d @ '': '' @ message d"

definition migrate_apply_001 :: diagnostic where
  "migrate_apply_001 = diagnostic_error ''MIGRATE-APPLY-001'' ''apply step limit must be greater than zero''"
definition migrate_apply_002 :: "nat \<Rightarrow> nat \<Rightarrow> diagnostic" where
  "migrate_apply_002 n limit = diagnostic_error ''MIGRATE-APPLY-002''
     (''plan step count '' @ show_nat n @ '' exceeds apply limit '' @ show_nat limit)"
definition migrate_apply_003 :: "diagnostic \<Rightarrow> diagnostic \<Rightarrow> diagnostic" where
  "migrate_apply_003 primary cleanup = diagnostic_error ''MIGRATE-APPLY-003''
     (''migration failed ('' @ show_diagnostic primary @ ''); abort also failed ('' @ show_diagnostic cleanup @
      ''); backend state is uncertain'')"
definition migrate_apply_stale :: "catalog_revision \<Rightarrow> catalog_revision \<Rightarrow> diagnostic" where
  "migrate_apply_stale expected observed = diagnostic_error ''MIGRATE-APPLY-STALE''
     (''stale migration plan: expected source revision `'' @ expected @ ''`, observed `'' @ observed @ ''`'')"
definition migrate_apply_004 :: diagnostic where
  "migrate_apply_004 = diagnostic_error ''MIGRATE-APPLY-004''
     ''catalog contents do not match the plan source despite an equal revision token''"
definition migrate_apply_005 :: "nat \<Rightarrow> nat \<Rightarrow> diagnostic \<Rightarrow> diagnostic" where
  "migrate_apply_005 i n e = diagnostic_error ''MIGRATE-APPLY-005''
     (''migration step '' @ show_nat i @ '' failed after '' @ show_nat n @ '' successful steps: '' @ show_diagnostic e)"
definition migrate_apply_006 :: "catalog_revision \<Rightarrow> catalog_revision \<Rightarrow> diagnostic" where
  "migrate_apply_006 target observed = diagnostic_error ''MIGRATE-APPLY-006''
     (''migration did not reach target revision `'' @ target @ ''`; observed `'' @ observed @ ''`'')"
definition migrate_apply_007 :: "nat \<Rightarrow> diagnostic" where
  "migrate_apply_007 n = diagnostic_error ''MIGRATE-APPLY-007''
     (''migration did not converge; '' @ show_nat n @ '' catalog operations remain'')"

definition validate_apply_limits :: "apply_limits \<Rightarrow> unit res" where
  "validate_apply_limits L =
     (if al_max_steps L = 0 then Inl migrate_apply_001 else validate_catalog_limits (al_catalog L))"

fun apply_steps :: "'s catalog_backend \<Rightarrow> migration_step list \<Rightarrow> applied_step list \<Rightarrow> 's \<Rightarrow> applied_step list res \<times> 's" where
  "apply_steps B [] applied s = (Inr applied, s)"
| "apply_steps B (step # steps) applied s =
     (case bk_apply_step B step s of
        (Inl e, s) \<Rightarrow> (Inl (migrate_apply_005 (sp_id step) (length applied) e), s)
      | (Inr _, s) \<Rightarrow>
          apply_steps B steps (applied @ [\<lparr>as_id = sp_id step, as_summary = operation_summary (sp_operation step)\<rparr>]) s)"

text \<open>The catalog before the first step, and the one after the last.\<close>

definition check_source :: "migration_plan \<Rightarrow> catalog_snapshot \<Rightarrow> unit res" where
  "check_source plan observed =
     (if cs_revision observed \<noteq> pi_source_revision (mp_identity plan)
      then Inl (migrate_apply_stale (pi_source_revision (mp_identity plan)) (cs_revision observed))
      else if \<not> equivalent_catalog observed (mp_source plan) then Inl migrate_apply_004
      else Inr ())"

definition check_converged :: "(string \<Rightarrow> string) \<Rightarrow> migration_plan \<Rightarrow> apply_limits \<Rightarrow> catalog_snapshot \<Rightarrow> unit res" where
  "check_converged quote plan L final =
     (if cs_revision final \<noteq> pi_target_revision (mp_identity plan)
      then Inl (migrate_apply_006 (pi_target_revision (mp_identity plan)) (cs_revision final))
      else and_then (diff_catalog quote final (mp_target plan) default_migration_intent
             \<lparr>dl_max_operations = al_max_steps L, dl_max_rename_intents = 1\<rparr>) (\<lambda>convergence.
        if cd_operations convergence \<noteq> [] then Inl (migrate_apply_007 (length (cd_operations convergence)))
        else Inr ()))"

definition apply_while_locked :: "(string \<Rightarrow> string) \<Rightarrow> 's catalog_backend \<Rightarrow> migration_plan \<Rightarrow> apply_limits \<Rightarrow> 's \<Rightarrow>
    migration_report res \<times> 's" where
  "apply_while_locked quote B plan L s =
     (case bk_inspect B (pi_scope (mp_identity plan)) (al_catalog L) s of
        (Inl e, s) \<Rightarrow> (Inl e, s)
      | (Inr observed, s) \<Rightarrow>
     (case check_source plan observed of
        Inl e \<Rightarrow> (Inl e, s)
      | Inr _ \<Rightarrow>
     (case apply_steps B (plan_steps plan) [] s of
        (Inl e, s) \<Rightarrow> (Inl e, s)
      | (Inr applied, s) \<Rightarrow>
     (case bk_inspect B (pi_scope (mp_identity plan)) (al_catalog L) s of
        (Inl e, s) \<Rightarrow> (Inl e, s)
      | (Inr final, s) \<Rightarrow>
          (and_then (check_converged quote plan L final) (\<lambda>_.
             Inr \<lparr>rp_identity = mp_identity plan, rp_initial_revision = cs_revision observed,
                  rp_final_revision = cs_revision final, rp_applied_steps = applied, rp_inspections = 2\<rparr>), s)))))"

definition apply_checked :: "(string \<Rightarrow> string) \<Rightarrow> 's catalog_backend \<Rightarrow> migration_plan \<Rightarrow> migration_policy \<Rightarrow>
    migration_approval option \<Rightarrow> apply_limits \<Rightarrow> 's \<Rightarrow> migration_report res \<times> 's" where
  "apply_checked quote B plan policy approval L s =
     (case and_then (validate_apply_limits L) (\<lambda>_.
             if length (plan_steps plan) > al_max_steps L
             then Inl (migrate_apply_002 (length (plan_steps plan)) (al_max_steps L))
             else authorize policy plan approval) of
        Inl e \<Rightarrow> (Inl e, s)
      | Inr _ \<Rightarrow>
     (case bk_begin B plan s of
        (Inl e, s) \<Rightarrow> (Inl e, s)
      | (Inr _, s) \<Rightarrow>
     (case apply_while_locked quote B plan L s of
        (Inr report, s) \<Rightarrow>
          (case bk_finish B Commit s of (Inl e, s) \<Rightarrow> (Inl e, s) | (Inr _, s) \<Rightarrow> (Inr report, s))
      | (Inl primary, s) \<Rightarrow>
          (case bk_finish B Abort s of
             (Inr _, s) \<Rightarrow> (Inl primary, s)
           | (Inl cleanup, s) \<Rightarrow> (Inl (migrate_apply_003 primary cleanup), s)))))"

section \<open>What plans promise\<close>

definition plan_sound :: "migration_plan \<Rightarrow> bool" where
  "plan_sound plan \<longleftrightarrow>
     cs_scope (mp_source plan) = cs_scope (mp_target plan) \<and>
     pi_scope (mp_identity plan) = cs_scope (mp_source plan) \<and>
     pi_source_revision (mp_identity plan) = cs_revision (mp_source plan) \<and>
     pi_target_revision (mp_identity plan) = cs_revision (mp_target plan) \<and>
     map sp_id (plan_steps plan) = map Suc [0..<length (plan_steps plan)] \<and>
     (\<forall>step \<in> set (plan_steps plan). risk_covers (sp_risk step) (risk_for_operation (sp_operation step)))"

lemma checked_steps:
  assumes "try_all check_step (enumerate 0 steps) = Inr ()"
  shows "map sp_id steps = map Suc [0..<length steps] \<and>
    (\<forall>step \<in> set steps. risk_covers (sp_risk step) (risk_for_operation (sp_operation step)))"
proof -
  have one: "sp_id (steps ! i) = i + 1 \<and> risk_covers (sp_risk (steps ! i)) (risk_for_operation (sp_operation (steps ! i)))"
    if "i < length steps" for i
  proof -
    have "(i, steps ! i) \<in> set (enumerate 0 steps)" using that by (simp add: in_set_enumerate_eq)
    then have "check_step (i, steps ! i) = Inr ()" using assms by (simp add: try_all_ok)
    then show ?thesis by (simp add: check_step_def split: if_splits)
  qed
  have "map sp_id steps = map Suc [0..<length steps]"
    by (rule nth_equalityI) (simp_all add: one)
  with one show ?thesis by (simp add: all_set_conv_all_nth)
qed

lemma plan_new_sound: "migration_plan_new s t steps = Inr plan \<Longrightarrow> plan_sound plan \<and> mp_source plan = s \<and> mp_target plan = t \<and> plan_steps plan = steps"
  by (auto simp: migration_plan_new_def and_then_Inr plan_sound_def checked_steps split: if_splits)

lemma plan_steps_of_diff:
  assumes "try_map plan_step (enumerate 0 ops) = Inr steps"
  shows "map sp_operation steps = ops"
proof -
  have one: "sp_operation y = snd x" if "plan_step x = Inr y" for x y
    using that by (auto simp: plan_step_def and_then_Inr split: prod.splits if_splits)
  have "list_all2 (\<lambda>x y. plan_step x = Inr y) (enumerate 0 ops) steps" using assms by (simp add: try_map_Inr)
  then have "list_all2 (\<lambda>x y. snd x = sp_operation y) (enumerate 0 ops) steps" by (rule list_all2_mono) (simp add: one)
  then have "map sp_operation steps = map snd (enumerate 0 ops)"
    by (auto simp: list_all2_conv_all_nth nth_enumerate_eq intro!: nth_equalityI)
  then show ?thesis by simp
qed

lemma planned:
  assumes "plan_migration quote L s t intent = Inr plan" and "snapshot_valid s" and "snapshot_valid t"
    and "dl_max_operations L \<le> usize_max"
  shows "plan_sound plan \<and> mp_source plan = s \<and> mp_target plan = t \<and> map sp_operation (plan_steps plan) = operations_list s t \<and>
    set (mi_renames intent) = required_renames s t"
proof -
  from assms(1) obtain d where d: "diff_catalog quote s t intent L = Inr d" and plan: "plan_from_diff d = Inr plan"
    by (auto simp: plan_migration_def and_then_Inr)
  from d diff_catalog_exact [OF assms(2-4)] have parts: "d = \<lparr>cd_source = s, cd_target = t, cd_operations = operations_list s t\<rparr>"
    "set (mi_renames intent) = required_renames s t" by blast+
  from plan obtain steps where steps: "try_map plan_step (enumerate 0 (operations_list s t)) = Inr steps"
    and new: "migration_plan_new s t steps = Inr plan"
    by (auto simp: plan_from_diff_def and_then_Inr parts(1))
  with plan_new_sound [OF new] plan_steps_of_diff [OF steps] parts(2) show ?thesis by simp
qed

section \<open>What authorization promises\<close>

definition permitted :: "migration_policy \<Rightarrow> migration_approval option \<Rightarrow> migration_step \<Rightarrow> bool" where
  "permitted p approval step \<longleftrightarrow>
     (mr_data (sp_risk step) = RequiresDataRewrite \<longrightarrow> po_data_rewrite p) \<and>
     (mr_data (sp_risk step) = Destructive \<longrightarrow> po_destructive p) \<and>
     (mr_operation (sp_risk step) = Locking \<longrightarrow> po_locking p) \<and>
     (mr_operation (sp_risk step) = ExternalRebuild \<longrightarrow> po_external_rebuild p) \<and>
     (mr_operation (sp_risk step) = DataRewrite \<longrightarrow> po_data_rewrite p) \<and>
     (mr_automation (sp_risk step) = Automatic \<or>
      mr_automation (sp_risk step) = RequiresApproval \<and> (\<exists>a. approval = Some a \<and> sp_id step \<in> ap_steps a))"

lemma authorize_step_permitted: "authorize_step p approval step = Inr () \<longleftrightarrow> permitted p approval step"
  by (cases "mr_data (sp_risk step)"; cases "mr_operation (sp_risk step)"; cases "mr_automation (sp_risk step)"; cases approval)
    (simp_all add: authorize_step_def authorize_data_def authorize_impact_def authorize_automation_def permitted_def and_then_Inr)

lemma authorize_permits:
  "authorize p plan approval = Inr () \<longleftrightarrow>
    (\<forall>a. approval = Some a \<longrightarrow> ap_identity a = mp_identity plan) \<and> (\<forall>step \<in> set (plan_steps plan). permitted p approval step)"
  by (auto simp: authorize_def try_all_ok authorize_step_permitted split: option.splits)

lemma destructive_covered:
  assumes "risk_covers r (risk_for_operation op)" and "op = DropEntity x \<or> op = DropField entity f"
  shows "mr_data r = Destructive \<and> mr_automation r \<noteq> Automatic"
  using assms by (cases "mr_data r"; cases "mr_automation r")
    (auto simp: risk_covers_def less_eq_data_safety_def less_eq_automation_level_def)

lemma destructive_authorized:
  assumes "migration_plan_new s t steps = Inr plan" and "authorize policy plan approval = Inr ()"
    and "step \<in> set (plan_steps plan)" and "sp_operation step = DropEntity e \<or> sp_operation step = DropField entity f"
  shows "po_destructive policy \<and> (\<exists>a. approval = Some a \<and> ap_identity a = mp_identity plan \<and> sp_id step \<in> ap_steps a)"
proof -
  have "risk_covers (sp_risk step) (risk_for_operation (sp_operation step))"
    using plan_new_sound [OF assms(1)] assms(3) by (simp add: plan_sound_def)
  then have "mr_data (sp_risk step) = Destructive" and "mr_automation (sp_risk step) \<noteq> Automatic"
    using destructive_covered assms(4) by blast+
  with assms(2,3) show ?thesis by (auto simp: authorize_permits permitted_def)
qed

section \<open>What an application promises\<close>

text \<open>The steps applied one after the other, none failing.\<close>

fun applies :: "'s catalog_backend \<Rightarrow> migration_step list \<Rightarrow> 's \<Rightarrow> 's \<Rightarrow> bool" where
  "applies B [] s t \<longleftrightarrow> s = t"
| "applies B (step # steps) s t \<longleftrightarrow> (\<exists>u. bk_apply_step B step s = (Inr (), u) \<and> applies B steps u t)"

lemma apply_steps_applies:
  "apply_steps B steps applied s = (Inr out, t) \<longleftrightarrow>
    applies B steps s t \<and> out = applied @ map (\<lambda>step. \<lparr>as_id = sp_id step, as_summary = operation_summary (sp_operation step)\<rparr>) steps"
  by (induction steps arbitrary: applied s) (auto split: prod.splits sum.splits)

lemma locked_success:
  assumes "apply_while_locked quote B plan L s = (Inr report, t)"
  shows "\<exists>observed u v final.
      bk_inspect B (pi_scope (mp_identity plan)) (al_catalog L) s = (Inr observed, u) \<and> check_source plan observed = Inr () \<and>
      applies B (plan_steps plan) u v \<and>
      bk_inspect B (pi_scope (mp_identity plan)) (al_catalog L) v = (Inr final, t) \<and> check_converged quote plan L final = Inr () \<and>
      report = \<lparr>rp_identity = mp_identity plan, rp_initial_revision = cs_revision observed, rp_final_revision = cs_revision final,
        rp_applied_steps = map (\<lambda>step. \<lparr>as_id = sp_id step, as_summary = operation_summary (sp_operation step)\<rparr>) (plan_steps plan),
        rp_inspections = 2\<rparr>"
proof -
  have applied: "apply_steps B (plan_steps plan) [] u = (Inr applied, v) \<longleftrightarrow>
      applies B (plan_steps plan) u v \<and> applied = map (\<lambda>step. \<lparr>as_id = sp_id step, as_summary = operation_summary (sp_operation step)\<rparr>) (plan_steps plan)"
    for u applied v by (simp add: apply_steps_applies)
  from assms show ?thesis
    by (auto simp: apply_while_locked_def and_then_Inr applied split: prod.splits sum.splits)
qed

lemma apply_success:
  "apply_checked quote B plan policy approval L s = (Inr report, t) \<longleftrightarrow>
    validate_apply_limits L = Inr () \<and> length (plan_steps plan) \<le> al_max_steps L \<and> authorize policy plan approval = Inr () \<and>
    (\<exists>u v. bk_begin B plan s = (Inr (), u) \<and> apply_while_locked quote B plan L u = (Inr report, v) \<and> bk_finish B Commit v = (Inr (), t))"
  by (auto simp: apply_checked_def and_then_Inr and_then_Inl split: prod.splits sum.splits if_splits)

lemma converged_entities:
  assumes "check_converged quote plan L final = Inr ()" and "snapshot_valid final" and "snapshot_valid (mp_target plan)"
    and "al_max_steps L \<le> usize_max"
  shows "cs_revision final = pi_target_revision (mp_identity plan) \<and> cs_scope final = cs_scope (mp_target plan) \<and>
    cs_entities final = cs_entities (mp_target plan)"
proof -
  from assms(1) obtain d where d: "diff_catalog quote final (mp_target plan) default_migration_intent
      \<lparr>dl_max_operations = al_max_steps L, dl_max_rename_intents = 1\<rparr> = Inr d" and none: "cd_operations d = []"
    and revision: "cs_revision final = pi_target_revision (mp_identity plan)"
    by (auto simp: check_converged_def and_then_Inr split: if_splits)
  from d diff_catalog_exact [OF assms(2,3), of "\<lparr>dl_max_operations = al_max_steps L, dl_max_rename_intents = 1\<rparr>"] assms(4)
  have "cs_scope final = cs_scope (mp_target plan)" and "cd_operations d = operations_list final (mp_target plan)" by auto
  with none operations_transform [OF assms(2,3)] have "abstract_of final = abstract_of (mp_target plan)" by simp
  with abstract_determines [OF assms(2,3)] revision \<open>cs_scope final = cs_scope (mp_target plan)\<close> show ?thesis by simp
qed

section \<open>The order of the calls\<close>

datatype backend_call = CallInspect | CallBegin | CallStep migration_step | CallFinish migration_finish

text \<open>A backend that records the calls it gets.\<close>

definition record_call :: "backend_call \<Rightarrow> ('s \<Rightarrow> 'r \<times> 's) \<Rightarrow> 's \<times> backend_call list \<Rightarrow> 'r \<times> 's \<times> backend_call list" where
  "record_call c f st = (fst (f (fst st)), snd (f (fst st)), snd st @ [c])"

definition logged :: "'s catalog_backend \<Rightarrow> ('s \<times> backend_call list) catalog_backend" where
  "logged B =
     \<lparr>bk_inspect = (\<lambda>scope L. record_call CallInspect (bk_inspect B scope L)),
      bk_begin = (\<lambda>plan. record_call CallBegin (bk_begin B plan)),
      bk_apply_step = (\<lambda>step. record_call (CallStep step) (bk_apply_step B step)),
      bk_finish = (\<lambda>finish. record_call (CallFinish finish) (bk_finish B finish))\<rparr>"

lemma logged_simps [simp]:
  "bk_inspect (logged B) scope L (s, l) = (fst (bk_inspect B scope L s), snd (bk_inspect B scope L s), l @ [CallInspect])"
  "bk_begin (logged B) plan (s, l) = (fst (bk_begin B plan s), snd (bk_begin B plan s), l @ [CallBegin])"
  "bk_apply_step (logged B) step (s, l) = (fst (bk_apply_step B step s), snd (bk_apply_step B step s), l @ [CallStep step])"
  "bk_finish (logged B) finish (s, l) = (fst (bk_finish B finish s), snd (bk_finish B finish s), l @ [CallFinish finish])"
  by (simp_all add: logged_def record_call_def)

lemma logged_steps:
  "\<exists>calls. prefix calls (map CallStep steps) \<and>
    apply_steps (logged B) steps applied (s, l) = (fst (apply_steps B steps applied s), snd (apply_steps B steps applied s), l @ calls) \<and>
    (\<not> isl (fst (apply_steps B steps applied s)) \<longrightarrow> calls = map CallStep steps)"
proof (induction steps arbitrary: applied s l)
  case Nil
  then show ?case by simp
next
  case (Cons step steps)
  obtain r u where call: "bk_apply_step B step s = (r, u)" by fastforce
  show ?case
  proof (cases r)
    case (Inl e)
    with call show ?thesis by (intro exI [of _ "[CallStep step]"]) simp
  next
    case (Inr x)
    let ?applied = "applied @ [\<lparr>as_id = sp_id step, as_summary = operation_summary (sp_operation step)\<rparr>]"
    obtain calls where calls: "prefix calls (map CallStep steps)"
      "apply_steps (logged B) steps ?applied (u, l @ [CallStep step]) =
        (fst (apply_steps B steps ?applied u), snd (apply_steps B steps ?applied u), (l @ [CallStep step]) @ calls)"
      "\<not> isl (fst (apply_steps B steps ?applied u)) \<longrightarrow> calls = map CallStep steps" using Cons.IH by blast
    with call Inr show ?thesis by (intro exI [of _ "CallStep step # calls"]) simp
  qed
qed

definition locked_calls :: "migration_plan \<Rightarrow> backend_call list" where
  "locked_calls plan = CallInspect # map CallStep (plan_steps plan) @ [CallInspect]"

lemma logged_locked:
  "\<exists>calls. prefix calls (locked_calls plan) \<and>
    apply_while_locked quote (logged B) plan L (s, l) =
      (fst (apply_while_locked quote B plan L s), snd (apply_while_locked quote B plan L s), l @ calls) \<and>
    (\<not> isl (fst (apply_while_locked quote B plan L s)) \<longrightarrow> calls = locked_calls plan)"
proof -
  let ?inspect = "bk_inspect B (pi_scope (mp_identity plan)) (al_catalog L)"
  have short: "?thesis" if "fst (apply_while_locked quote B plan L s) = Inl e"
    "apply_while_locked quote (logged B) plan L (s, l) =
      (fst (apply_while_locked quote B plan L s), snd (apply_while_locked quote B plan L s), l @ calls)"
    "prefix calls (locked_calls plan)" for e calls
    using that by auto
  obtain r u where first: "?inspect s = (r, u)" by fastforce
  show ?thesis
  proof (cases r)
    case (Inl e)
    with first show ?thesis
      by (intro short [of e "[CallInspect]"]) (simp_all add: apply_while_locked_def locked_calls_def)
  next
    case (Inr observed)
    show ?thesis
    proof (cases "check_source plan observed")
      case (Inl e)
      with first Inr show ?thesis
        by (intro short [of e "[CallInspect]"]) (simp_all add: apply_while_locked_def locked_calls_def)
    next
      case ok: (Inr x)
      obtain calls where calls: "prefix calls (map CallStep (plan_steps plan))"
        "apply_steps (logged B) (plan_steps plan) [] (u, l @ [CallInspect]) =
          (fst (apply_steps B (plan_steps plan) [] u), snd (apply_steps B (plan_steps plan) [] u), (l @ [CallInspect]) @ calls)"
        "\<not> isl (fst (apply_steps B (plan_steps plan) [] u)) \<longrightarrow> calls = map CallStep (plan_steps plan)"
        using logged_steps [of "plan_steps plan" B "[]" u "l @ [CallInspect]"] by blast
      obtain r' v where steps: "apply_steps B (plan_steps plan) [] u = (r', v)" by fastforce
      show ?thesis
      proof (cases r')
        case (Inl e)
        with first Inr ok calls steps show ?thesis
          by (intro short [of e "CallInspect # calls"]) (auto simp: apply_while_locked_def locked_calls_def prefix_def)
      next
        case applied: (Inr applied)
        obtain r'' w where last: "?inspect v = (r'', w)" by fastforce
        have "apply_while_locked quote (logged B) plan L (s, l) =
            (fst (apply_while_locked quote B plan L s), snd (apply_while_locked quote B plan L s), l @ locked_calls plan)"
          using first Inr ok calls steps applied last
          by (cases r'') (simp_all add: apply_while_locked_def locked_calls_def)
        then show ?thesis by auto
      qed
    qed
  qed
qed

text \<open>No call without authorization; nothing after a lock that was not granted; otherwise the lock is released by
  the last call and by no other, and committed only after all steps and both inspections.\<close>

definition lock_discipline :: "migration_plan \<Rightarrow> bool \<Rightarrow> backend_call list \<Rightarrow> bool" where
  "lock_discipline plan success calls \<longleftrightarrow>
     \<not> success \<and> calls = [] \<or> \<not> success \<and> calls = [CallBegin] \<or>
     calls = CallBegin # locked_calls plan @ [CallFinish Commit] \<or>
     \<not> success \<and> (\<exists>mid. prefix mid (locked_calls plan) \<and> calls = CallBegin # mid @ [CallFinish Abort])"

lemma logged_apply:
  "\<exists>calls. apply_checked quote (logged B) plan policy approval L (s, []) =
      (fst (apply_checked quote B plan policy approval L s), snd (apply_checked quote B plan policy approval L s), calls) \<and>
    lock_discipline plan (\<not> isl (fst (apply_checked quote B plan policy approval L s))) calls \<and>
    (calls \<noteq> [] \<longrightarrow> authorize policy plan approval = Inr ())"
proof -
  let ?check = "and_then (validate_apply_limits L) (\<lambda>_.
    if length (plan_steps plan) > al_max_steps L then Inl (migrate_apply_002 (length (plan_steps plan)) (al_max_steps L))
    else authorize policy plan approval)"
  show ?thesis
  proof (cases ?check)
    case (Inl e)
    then show ?thesis by (intro exI [of _ "[]"]) (simp add: apply_checked_def lock_discipline_def)
  next
    case checked: (Inr x)
    then have allowed: "authorize policy plan approval = Inr ()" by (auto simp: and_then_Inr split: if_splits)
    obtain r u where begun: "bk_begin B plan s = (r, u)" by fastforce
    show ?thesis
    proof (cases r)
      case (Inl e)
      with checked begun allowed show ?thesis
        by (intro exI [of _ "[CallBegin]"]) (simp add: apply_checked_def lock_discipline_def)
    next
      case (Inr y)
      obtain r' v where locked: "apply_while_locked quote B plan L u = (r', v)" by fastforce
      obtain calls where calls: "prefix calls (locked_calls plan)"
        "apply_while_locked quote (logged B) plan L (u, [CallBegin]) = (r', v, [CallBegin] @ calls)"
        "\<not> isl r' \<longrightarrow> calls = locked_calls plan"
        using logged_locked [of plan quote B L u "[CallBegin]"] locked by auto
      show ?thesis
      proof (cases r')
        case (Inl e)
        obtain f w where finish: "bk_finish B Abort v = (f, w)" by fastforce
        show ?thesis using checked begun Inr calls locked Inl finish allowed
          by (intro exI [of _ "CallBegin # calls @ [CallFinish Abort]"], cases f)
            (auto simp: apply_checked_def lock_discipline_def)
      next
        case (Inr report)
        obtain f w where finish: "bk_finish B Commit v = (f, w)" by fastforce
        show ?thesis using checked begun \<open>r = Inr y\<close> calls locked Inr finish allowed
          by (intro exI [of _ "CallBegin # locked_calls plan @ [CallFinish Commit]"], cases f)
            (auto simp: apply_checked_def lock_discipline_def)
      qed
    qed
  qed
qed

end
