(* ===== verification/Migrate_Backend.thy ===== *)
theory Migrate_Backend
  imports Migrate_Apply
begin

text \<open>
  What a backend owes the migration protocol, as a locale, and the reference backend of the tests of
  \<open>apply/mod.rs\<close>, which keeps its catalog in memory, as its instance; with a migration that runs on it.
\<close>

section \<open>The contract\<close>

text \<open>Steps carry valid entities, as every constructor of an entity guarantees.\<close>

fun step_valid :: "migration_operation \<Rightarrow> bool" where
  "step_valid (CreateEntity e) = entity_valid e"
| "step_valid _ = True"

locale migration_backend =
  fixes B :: "'s catalog_backend" and inv :: "'s \<Rightarrow> bool"
  assumes inspect_valid: "inv s \<Longrightarrow> bk_inspect B scope L s = (r, t) \<Longrightarrow> inv t \<and> (\<forall>observed. r = Inr observed \<longrightarrow> snapshot_valid observed)"
    and begin_inv: "inv s \<Longrightarrow> inv (snd (bk_begin B plan s))"
    and step_inv: "inv s \<Longrightarrow> step_valid (sp_operation step) \<Longrightarrow> inv (snd (bk_apply_step B step s))"
    and finish_inv: "inv s \<Longrightarrow> inv (snd (bk_finish B finish s))"
begin

lemma applies_inv:
  "applies B steps s t \<Longrightarrow> inv s \<Longrightarrow> \<forall>step \<in> set steps. step_valid (sp_operation step) \<Longrightarrow> inv t"
proof (induction steps arbitrary: s)
  case Nil
  then show ?case by simp
next
  case (Cons step steps)
  then obtain u where u: "bk_apply_step B step s = (Inr (), u)" "applies B steps u t" by auto
  with step_inv [of s step] Cons show ?case by simp
qed

text \<open>A successful application started from the catalog that was planned for and left the one that was planned.\<close>

lemma application_converges:
  assumes "apply_checked quote B plan policy approval L s = (Inr report, t)" and "inv s"
    and "snapshot_valid (mp_target plan)" and "\<forall>step \<in> set (plan_steps plan). step_valid (sp_operation step)"
    and "al_max_steps L \<le> usize_max"
  shows "inv t \<and> (\<exists>u observed v w final x.
    bk_begin B plan s = (Inr (), u) \<and>
    bk_inspect B (pi_scope (mp_identity plan)) (al_catalog L) u = (Inr observed, v) \<and>
    cs_entities observed = cs_entities (mp_source plan) \<and> cs_revision observed = pi_source_revision (mp_identity plan) \<and>
    applies B (plan_steps plan) v w \<and>
    bk_inspect B (pi_scope (mp_identity plan)) (al_catalog L) w = (Inr final, x) \<and>
    cs_entities final = cs_entities (mp_target plan) \<and> cs_revision final = pi_target_revision (mp_identity plan) \<and>
    bk_finish B Commit x = (Inr (), t))"
proof -
  from assms(1) obtain u x where b: "bk_begin B plan s = (Inr (), u)"
    and locked: "apply_while_locked quote B plan L u = (Inr report, x)" and f: "bk_finish B Commit x = (Inr (), t)"
    by (auto simp: apply_success)
  from locked_success [OF locked] obtain observed v w final
    where first: "bk_inspect B (pi_scope (mp_identity plan)) (al_catalog L) u = (Inr observed, v)"
      and source: "check_source plan observed = Inr ()" and steps: "applies B (plan_steps plan) v w"
      and last: "bk_inspect B (pi_scope (mp_identity plan)) (al_catalog L) w = (Inr final, x)"
      and target: "check_converged quote plan L final = Inr ()" by blast
  have "inv u" using begin_inv [OF assms(2), of plan] b by simp
  with inspect_valid first have "inv v" by blast
  from applies_inv [OF steps this assms(4)] have "inv w" .
  from inspect_valid [OF this last] have x: "inv x" "snapshot_valid final" by auto
  from converged_entities [OF target x(2) assms(3,5)]
  have "cs_entities final = cs_entities (mp_target plan)" "cs_revision final = pi_target_revision (mp_identity plan)" by auto
  moreover have "inv t" using finish_inv [OF x(1), of Commit] f by simp
  moreover have "cs_entities observed = cs_entities (mp_source plan)" "cs_revision observed = pi_source_revision (mp_identity plan)"
    using source by (auto simp: check_source_def equivalent_catalog_def split: if_splits)
  ultimately show ?thesis using b first steps last f by blast
qed

end

text \<open>The same for a plan made by the planner.\<close>

lemma operations_valid: "snapshot_valid t \<Longrightarrow> op \<in> set (operations_list s t) \<Longrightarrow> step_valid op"
  by (auto simp: operations_list_def bucket_order_def catalog_operations_def entity_operations_def snapshot_valid_def
      split: option.splits if_splits)

lemma planned_application_converges:
  assumes "migration_backend B ok" and "ok s" and "plan_migration quote K source target intent = Inr plan"
    and "snapshot_valid source" and "snapshot_valid target" and "dl_max_operations K \<le> usize_max"
    and "apply_checked quote' B plan policy approval L s = (Inr report, t)" and "al_max_steps L \<le> usize_max"
  shows "ok t \<and> (\<exists>u observed v w final x.
    bk_begin B plan s = (Inr (), u) \<and>
    bk_inspect B (cs_scope source) (al_catalog L) u = (Inr observed, v) \<and>
    cs_entities observed = cs_entities source \<and> cs_revision observed = cs_revision source \<and>
    applies B (plan_steps plan) v w \<and>
    bk_inspect B (cs_scope source) (al_catalog L) w = (Inr final, x) \<and>
    cs_entities final = cs_entities target \<and> cs_revision final = cs_revision target \<and>
    bk_finish B Commit x = (Inr (), t))"
proof -
  from planned [OF assms(3-6)] have sound: "plan_sound plan" and ends: "mp_source plan = source" "mp_target plan = target"
    and ops: "map sp_operation (plan_steps plan) = operations_list source target" by auto
  have "\<forall>step \<in> set (plan_steps plan). step_valid (sp_operation step)"
    using operations_valid [OF assms(5), of _ source] unfolding ops [symmetric] by auto
  with migration_backend.application_converges [OF assms(1,7,2)] assms(5,8) sound ends
  show ?thesis by (simp add: plan_sound_def)
qed

section \<open>The reference backend\<close>

record fake_backend =
  fb_current :: catalog_snapshot
  fb_working :: "catalog_snapshot option"
  fb_target_revision :: "catalog_revision option"
  fb_expected_steps :: nat
  fb_completed_steps :: nat
  fb_begin_count :: nat
  fb_abort_count :: nat

definition fake_new :: "catalog_snapshot \<Rightarrow> fake_backend" where
  "fake_new current =
     \<lparr>fb_current = current, fb_working = None, fb_target_revision = None, fb_expected_steps = 0, fb_completed_steps = 0,
      fb_begin_count = 0, fb_abort_count = 0\<rparr>"

definition fake_visible :: "fake_backend \<Rightarrow> catalog_snapshot" where
  "fake_visible s = (case fb_working s of Some w \<Rightarrow> w | None \<Rightarrow> fb_current s)"

definition fake_migrate_001 :: "string \<Rightarrow> diagnostic" where
  "fake_migrate_001 key = diagnostic_error ''FAKE-MIGRATE-001'' (''unknown entity `'' @ key @ ''`'')"
definition fake_migrate_002 :: diagnostic where
  "fake_migrate_002 = diagnostic_error ''FAKE-MIGRATE-002'' ''unknown catalog scope''"
definition fake_migrate_003 :: diagnostic where
  "fake_migrate_003 = diagnostic_error ''FAKE-MIGRATE-003'' ''migration lock is already held''"
definition fake_migrate_004 :: diagnostic where
  "fake_migrate_004 = diagnostic_error ''FAKE-MIGRATE-004'' ''migration lock is not held''"

text \<open>The code panics where \<open>the\<close> is not defined, when no migration has begun.\<close>

definition replace_visible_entities :: "catalog_entity list \<Rightarrow> fake_backend \<Rightarrow> unit res \<times> fake_backend" where
  "replace_visible_entities entities s =
     (let s = s\<lparr>fb_completed_steps := fb_completed_steps s + 1\<rparr> in
      case and_then
             (if fb_completed_steps s = fb_expected_steps s then Inr (the (fb_target_revision s))
              else catalog_revision_new (''working-'' @ show_nat (fb_completed_steps s)))
             (\<lambda>revision. catalog_snapshot_new (cs_scope (fb_current s)) revision entities) of
        Inl e \<Rightarrow> (Inl e, s)
      | Inr w \<Rightarrow> (Inr (), s\<lparr>fb_working := Some w\<rparr>))"

fun update_entity :: "string \<Rightarrow> (catalog_entity \<Rightarrow> catalog_entity res) \<Rightarrow> catalog_entity list \<Rightarrow> catalog_entity list res" where
  "update_entity key f [] = Inl (fake_migrate_001 key)"
| "update_entity key f (e # es) =
     (if ce_key e = key then and_then (f e) (\<lambda>e. Inr (e # es))
      else and_then (update_entity key f es) (\<lambda>es. Inr (e # es)))"

definition replace_entity :: "string \<Rightarrow> (catalog_entity \<Rightarrow> catalog_entity res) \<Rightarrow> fake_backend \<Rightarrow> unit res \<times> fake_backend" where
  "replace_entity key f s =
     (case update_entity key f (cs_entities (fake_visible s)) of
        Inl e \<Rightarrow> (Inl e, s)
      | Inr entities \<Rightarrow> replace_visible_entities entities s)"

definition fake_inspect :: "catalog_scope \<Rightarrow> catalog_limits \<Rightarrow> fake_backend \<Rightarrow> catalog_snapshot res \<times> fake_backend" where
  "fake_inspect scope L s =
     (if cs_scope (fake_visible s) \<noteq> scope then Inl fake_migrate_002
      else catalog_snapshot_new_with_limits (cs_scope (fake_visible s)) (cs_revision (fake_visible s)) (cs_entities (fake_visible s)) L, s)"

definition fake_begin :: "migration_plan \<Rightarrow> fake_backend \<Rightarrow> unit res \<times> fake_backend" where
  "fake_begin plan s =
     (if fb_working s \<noteq> None then (Inl fake_migrate_003, s)
      else (Inr (), s\<lparr>fb_begin_count := fb_begin_count s + 1, fb_expected_steps := length (plan_steps plan),
        fb_completed_steps := 0, fb_target_revision := Some (pi_target_revision (mp_identity plan)),
        fb_working := Some (fb_current s)\<rparr>))"

fun fake_operation :: "migration_operation \<Rightarrow> fake_backend \<Rightarrow> unit res \<times> fake_backend" where
  "fake_operation (CreateEntity entity) s = replace_visible_entities (cs_entities (fake_visible s) @ [entity]) s"
| "fake_operation (DropEntity entity) s =
     replace_visible_entities (filter (\<lambda>e. ce_key e \<noteq> ce_key entity) (cs_entities (fake_visible s))) s"
| "fake_operation (RenameEntity key from to) s =
     replace_entity key (\<lambda>e. catalog_entity_new (ce_key e) to (ce_fields e) (ce_indexes e)) s"
| "fake_operation (AddField key field) s =
     replace_entity key (\<lambda>e. catalog_entity_new (ce_key e) (ce_name e) (ce_fields e @ [field]) (ce_indexes e)) s"
| "fake_operation (DropField key field) s =
     replace_entity key (\<lambda>e. catalog_entity_new (ce_key e) (ce_name e)
       (filter (\<lambda>f. cf_key f \<noteq> cf_key field) (ce_fields e)) (ce_indexes e)) s"
| "fake_operation (RenameField key field_key from to) s =
     replace_entity key (\<lambda>e.
       and_then (try_map (\<lambda>f. if cf_key f = field_key
           then catalog_field_new (cf_key f) to (cf_data_type f) (cf_required f) (cf_nullable f) else Inr f) (ce_fields e)) (\<lambda>fs.
         catalog_entity_new (ce_key e) (ce_name e) fs (ce_indexes e))) s"
| "fake_operation (AlterField key before after) s =
     replace_entity key (\<lambda>e. catalog_entity_new (ce_key e) (ce_name e)
       (map (\<lambda>f. if cf_key f = cf_key after then after else f) (ce_fields e)) (ce_indexes e)) s"
| "fake_operation (CreateIndex key index) s =
     replace_entity key (\<lambda>e. catalog_entity_new (ce_key e) (ce_name e) (ce_fields e) (ce_indexes e @ [index])) s"
| "fake_operation (DropIndex key index) s =
     replace_entity key (\<lambda>e. catalog_entity_new (ce_key e) (ce_name e) (ce_fields e)
       (filter (\<lambda>i. ci_key i \<noteq> ci_key index) (ce_indexes e))) s"
| "fake_operation (RenameIndex key index_key from to) s =
     replace_entity key (\<lambda>e.
       and_then (try_map (\<lambda>i. if ci_key i = index_key
           then catalog_index_new (ci_key i) to (ci_fields i) (ci_unique i) else Inr i) (ce_indexes e)) (\<lambda>ixs.
         catalog_entity_new (ce_key e) (ce_name e) (ce_fields e) ixs)) s"

definition fake_finish :: "migration_finish \<Rightarrow> fake_backend \<Rightarrow> unit res \<times> fake_backend" where
  "fake_finish finish s =
     (case fb_working s of
        None \<Rightarrow> (Inl fake_migrate_004, s)
      | Some w \<Rightarrow>
          (let s = s\<lparr>fb_working := None\<rparr>;
               s = (case finish of Commit \<Rightarrow> s\<lparr>fb_current := w\<rparr> | Abort \<Rightarrow> s\<lparr>fb_abort_count := fb_abort_count s + 1\<rparr>)
           in (Inr (), s\<lparr>fb_target_revision := None\<rparr>)))"

definition fake :: "fake_backend catalog_backend" where
  "fake = \<lparr>bk_inspect = fake_inspect, bk_begin = fake_begin, bk_apply_step = (\<lambda>step. fake_operation (sp_operation step)),
     bk_finish = fake_finish\<rparr>"

definition fake_valid :: "fake_backend \<Rightarrow> bool" where
  "fake_valid s \<longleftrightarrow> snapshot_valid (fb_current s) \<and> (case fb_working s of None \<Rightarrow> True | Some w \<Rightarrow> snapshot_valid w)"

lemma visible_valid: "fake_valid s \<Longrightarrow> snapshot_valid (fake_visible s)"
  by (auto simp: fake_valid_def fake_visible_def split: option.splits)

lemma replace_visible_valid:
  assumes "fake_valid s" and "\<forall>e \<in> set entities. entity_valid e"
  shows "fake_valid (snd (replace_visible_entities entities s))"
  using assms
  by (auto simp: replace_visible_entities_def Let_def fake_valid_def and_then_Inr catalog_snapshot_new_def
      dest: snapshot_new_valid split: sum.split if_splits)

lemma update_entity_valid:
  assumes "update_entity key f es = Inr es'" and "\<forall>e \<in> set es. entity_valid e" and "\<And>e e'. f e = Inr e' \<Longrightarrow> entity_valid e'"
  shows "\<forall>e \<in> set es'. entity_valid e"
  using assms by (induction es arbitrary: es') (auto simp: and_then_Inr split: if_splits)

lemma replace_entity_valid:
  assumes "fake_valid s" and "\<And>e e'. f e = Inr e' \<Longrightarrow> entity_valid e'"
  shows "fake_valid (snd (replace_entity key f s))"
proof (cases "update_entity key f (cs_entities (fake_visible s))")
  case (Inl e)
  with assms(1) show ?thesis by (simp add: replace_entity_def)
next
  case (Inr es)
  have "\<forall>e \<in> set es. entity_valid e"
    using update_entity_valid [OF Inr _ assms(2)] visible_valid [OF assms(1)] by (simp add: snapshot_valid_def)
  with Inr replace_visible_valid [OF assms(1)] show ?thesis by (simp add: replace_entity_def)
qed

lemma entity_new_ok: "catalog_entity_new key name fs ixs = Inr e \<Longrightarrow> entity_valid e"
  unfolding catalog_entity_new_def by (drule entity_new_valid) blast

lemma fake_operation_valid:
  assumes "fake_valid s" and "step_valid op"
  shows "fake_valid (snd (fake_operation op s))"
proof -
  have entities: "\<forall>e \<in> set (cs_entities (fake_visible s)). entity_valid e"
    using visible_valid [OF assms(1)] by (simp add: snapshot_valid_def)
  show ?thesis
    using assms(2) entities
    by (cases op) (auto intro!: replace_visible_valid [OF assms(1)] replace_entity_valid [OF assms(1)]
        simp: and_then_Inr dest: entity_new_ok)
qed

interpretation fake: migration_backend fake fake_valid
proof unfold_locales
  show "fake_valid t \<and> (\<forall>observed. r = Inr observed \<longrightarrow> snapshot_valid observed)"
    if "fake_valid s" "bk_inspect fake scope L s = (r, t)" for s scope L r t
    using that visible_valid [OF that(1)]
    by (auto simp: fake_def fake_inspect_def snapshot_valid_def dest!: snapshot_new_valid split: if_splits)
  show "fake_valid (snd (bk_begin fake plan s))" if "fake_valid s" for plan s
    using that by (auto simp: fake_def fake_begin_def fake_valid_def split: option.splits)
  show "fake_valid (snd (bk_apply_step fake step s))" if "fake_valid s" "step_valid (sp_operation step)" for step s
    using fake_operation_valid [OF that] by (simp add: fake_def)
  show "fake_valid (snd (bk_finish fake finish s))" if "fake_valid s" for finish s
    using that by (auto simp: fake_def fake_finish_def fake_valid_def Let_def split: option.splits migration_finish.splits)
qed

section \<open>A migration that runs\<close>

text \<open>The snapshots of the tests: \<open>users\<close> becomes \<open>people\<close> and gains a field with an index.\<close>

definition user_id_field :: catalog_field where
  "user_id_field = \<lparr>cf_key = ''id'', cf_name = ''id'', cf_data_type = ''u64'', cf_required = True, cf_nullable = False\<rparr>"
definition user_email_field :: catalog_field where
  "user_email_field = \<lparr>cf_key = ''email'', cf_name = ''email'', cf_data_type = ''text'', cf_required = False, cf_nullable = True\<rparr>"
definition email_index :: catalog_index where
  "email_index = \<lparr>ci_key = ''by_email'', ci_name = ''by_email'', ci_fields = [''email''], ci_unique = True\<rparr>"

definition test_snapshot :: "catalog_revision \<Rightarrow> catalog_entity list \<Rightarrow> catalog_snapshot" where
  "test_snapshot revision entities =
     \<lparr>cs_scope = \<lparr>sc_backend = ''fake'', sc_namespace = ''test''\<rparr>, cs_revision = revision, cs_entities = entities\<rparr>"

definition source_snapshot :: catalog_snapshot where
  "source_snapshot = test_snapshot ''revision-one''
     [\<lparr>ce_key = ''user'', ce_name = ''users'', ce_fields = [user_id_field], ce_indexes = []\<rparr>]"
definition target_snapshot :: catalog_snapshot where
  "target_snapshot = test_snapshot ''revision-two''
     [\<lparr>ce_key = ''user'', ce_name = ''people'', ce_fields = [user_email_field, user_id_field], ce_indexes = [email_index]\<rparr>]"

definition user_intent :: migration_intent where
  "user_intent = \<lparr>mi_renames = [IntentEntity ''user'' ''users'' ''people'']\<rparr>"

definition user_operations :: "migration_operation list" where
  "user_operations = [RenameEntity ''user'' ''users'' ''people'', AddField ''user'' user_email_field, CreateIndex ''user'' email_index]"

lemmas migration_samples = user_id_field_def user_email_field_def email_index_def test_snapshot_def source_snapshot_def
  target_snapshot_def user_intent_def user_operations_def

lemma test_snapshots_valid: "snapshot_valid source_snapshot" "snapshot_valid target_snapshot"
  by (simp_all add: migration_samples snapshot_valid_def entity_valid_def keyed_def)

lemmas diff_evals = migration_samples diff_catalog_def validate_diff_limits_def default_diff_limits_def Let_def by_key_def
  btree_of_list_def push_missing_def diff_common_def require_declared_def push_checked_def diff_entity_def diff_field_def
  diff_indexes_def drop_index_def diff_index_def append_checked_def bucket_order_def checked_add_usize_def field_altered_def
  index_changed_def usize_max_def

lemma user_diff: "diff_catalog (\<lambda>s. s) source_snapshot target_snapshot user_intent default_diff_limits =
    Inr \<lparr>cd_source = source_snapshot, cd_target = target_snapshot, cd_operations = user_operations\<rparr>"
  by (simp add: diff_evals)

definition user_migration :: migration_plan where
  "user_migration =
     \<lparr>mp_identity = \<lparr>pi_scope = cs_scope source_snapshot, pi_source_revision = ''revision-one'', pi_target_revision = ''revision-two'',
        pi_steps = map (\<lambda>(i, op). \<lparr>sp_id = i, sp_operation = op, sp_risk = risk_for_operation op\<rparr>) (enumerate 1 user_operations)\<rparr>,
      mp_source = source_snapshot, mp_target = target_snapshot\<rparr>"

lemma user_migration_planned: "plan_migration (\<lambda>s. s) default_diff_limits source_snapshot target_snapshot user_intent = Inr user_migration"
proof -
  have "plan_from_diff \<lparr>cd_source = source_snapshot, cd_target = target_snapshot, cd_operations = user_operations\<rparr> = Inr user_migration"
    by (simp add: plan_from_diff_def plan_step_def migration_plan_new_def check_step_def checked_add_usize_def usize_max_def
        user_migration_def migration_samples risk_covers_def)
  then show ?thesis by (simp add: plan_migration_def user_diff)
qed

definition user_approval :: migration_approval where
  "user_approval = \<lparr>ap_identity = mp_identity user_migration, ap_steps = {1, 2, 3}, ap_actor = ''operator'', ap_rationale = ''reviewed''\<rparr>"

lemma user_approved: "approve_all user_migration ''operator'' ''reviewed'' = Inr user_approval"
  by code_simp

definition user_report :: migration_report where
  "user_report =
     \<lparr>rp_identity = mp_identity user_migration, rp_initial_revision = ''revision-one'', rp_final_revision = ''revision-two'',
      rp_applied_steps = map (\<lambda>(i, op). \<lparr>as_id = i, as_summary = operation_summary op\<rparr>) (enumerate 1 user_operations),
      rp_inspections = 2\<rparr>"

lemma user_authorized: "authorize (with_external_rebuild conservative_policy) user_migration (Some user_approval) = Inr ()"
  by code_simp

text \<open>The catalog between the steps.\<close>

definition user_backend :: "nat \<Rightarrow> catalog_revision \<Rightarrow> string \<Rightarrow> catalog_field list \<Rightarrow> catalog_index list \<Rightarrow> fake_backend" where
  "user_backend n revision name fs ixs =
     \<lparr>fb_current = source_snapshot,
      fb_working = Some (test_snapshot revision [\<lparr>ce_key = ''user'', ce_name = name, ce_fields = fs, ce_indexes = ixs\<rparr>]),
      fb_target_revision = Some ''revision-two'', fb_expected_steps = 3, fb_completed_steps = n, fb_begin_count = 1,
      fb_abort_count = 0\<rparr>"

lemma user_begun: "bk_begin fake user_migration (fake_new source_snapshot) =
    (Inr (), user_backend 0 ''revision-one'' ''users'' [user_id_field] [])"
  by (simp add: fake_def fake_begin_def fake_new_def user_backend_def user_migration_def migration_samples)

text \<open>Printable ASCII without spaces is an acceptable text.\<close>

definition plain_text :: "string \<Rightarrow> bool" where
  "plain_text s \<longleftrightarrow> s \<noteq> [] \<and> length s \<le> 1024 \<and> list_all (\<lambda>c. 33 \<le> (of_char c :: nat) \<and> (of_char c :: nat) < 127) s"

lemma plain_chars: "list_all (\<lambda>c. 33 \<le> (of_char c :: nat) \<and> (of_char c :: nat) < 127) s \<Longrightarrow> chars s = map of_char s"
proof -
  have "list_all (\<lambda>c. 33 \<le> (of_char c :: nat) \<and> (of_char c :: nat) < 127) s \<Longrightarrow> utf8_decode (map of_char s) = Some (map of_char s)"
    by (induction s) auto
  then show "list_all (\<lambda>c. 33 \<le> (of_char c :: nat) \<and> (of_char c :: nat) < 127) s \<Longrightarrow> chars s = map of_char s"
    by (simp add: chars_def)
qed

lemma plain_validates: "plain_text s \<Longrightarrow> validate_text label s = Inr ()"
proof -
  assume plain: "plain_text s"
  then have all: "33 \<le> (of_char c :: nat) \<and> (of_char c :: nat) < 127" if "c \<in> set s" for c
    using that by (simp add: plain_text_def list_all_iff)
  with plain have "(of_char (hd s) :: nat) \<in> {33..<127}" "(of_char (last s) :: nat) \<in> {33..<127}"
    by (simp_all add: plain_text_def)
  then have "\<not> has_surrounding_whitespace s"
    using plain by (auto simp: has_surrounding_whitespace_def plain_text_def plain_chars Let_def is_whitespace_def hd_map last_map)
  moreover have "\<not> list_ex is_control (chars s)"
    using plain all by (fastforce simp: plain_text_def plain_chars list_ex_iff is_control_def)
  ultimately show ?thesis using plain by (simp add: validate_text_def plain_text_def MAX_CATALOG_TEXT_BYTES_def)
qed

lemmas fake_evals = migration_samples user_backend_def fake_visible_def replace_entity_def replace_visible_entities_def
  catalog_entity_new_def catalog_entity_new_with_limits_def catalog_snapshot_new_def catalog_snapshot_new_with_limits_def
  catalog_revision_new_def plain_validates plain_text_def validate_catalog_limits_def default_catalog_limits_def
  validate_unique_def index_references_def sort_by_key_def sort_by_def Let_def

lemma show_small: "show_nat (Suc 0) = ''1''" "show_nat (Suc (Suc 0)) = ''2''"
  by code_simp+

lemma step_one: "fake_operation (RenameEntity ''user'' ''users'' ''people'') (user_backend 0 ''revision-one'' ''users'' [user_id_field] []) =
    (Inr (), user_backend 1 ''working-1'' ''people'' [user_id_field] [])"
  by (simp add: fake_evals show_small)

lemma step_two: "fake_operation (AddField ''user'' user_email_field) (user_backend 1 ''working-1'' ''people'' [user_id_field] []) =
    (Inr (), user_backend 2 ''working-2'' ''people'' [user_email_field, user_id_field] [])"
  by (simp add: fake_evals show_small)

lemma step_three: "fake_operation (CreateIndex ''user'' email_index) (user_backend 2 ''working-2'' ''people'' [user_email_field, user_id_field] []) =
    (Inr (), user_backend 3 ''revision-two'' ''people'' [user_email_field, user_id_field] [email_index])"
  by (simp add: fake_evals show_small)

lemma inspect_source: "fake_inspect (cs_scope source_snapshot) default_catalog_limits
    (user_backend 0 ''revision-one'' ''users'' [user_id_field] []) =
   (Inr source_snapshot, user_backend 0 ''revision-one'' ''users'' [user_id_field] [])"
  by (simp add: fake_evals fake_inspect_def)

lemma inspect_target: "fake_inspect (cs_scope source_snapshot) default_catalog_limits
    (user_backend 3 ''revision-two'' ''people'' [user_email_field, user_id_field] [email_index]) =
   (Inr target_snapshot, user_backend 3 ''revision-two'' ''people'' [user_email_field, user_id_field] [email_index])"
  by (simp add: fake_evals fake_inspect_def)

lemma user_source: "check_source user_migration source_snapshot = Inr ()"
  by (simp add: check_source_def equivalent_catalog_def user_migration_def migration_samples)

lemma user_converged: "check_converged quote user_migration default_apply_limits target_snapshot = Inr ()"
  by (simp add: check_converged_def user_migration_def default_apply_limits_def default_migration_intent_def diff_evals)

lemma user_applied:
  "apply_checked (\<lambda>s. s) fake user_migration (with_external_rebuild conservative_policy) (Some user_approval)
     default_apply_limits (fake_new source_snapshot) =
   (Inr user_report, (fake_new target_snapshot)\<lparr>fb_expected_steps := 3, fb_completed_steps := 3, fb_begin_count := 1\<rparr>)"
proof -
  have scope: "pi_scope (mp_identity user_migration) = cs_scope source_snapshot" by (simp add: user_migration_def)
  have steps: "plan_steps user_migration =
      [\<lparr>sp_id = 1, sp_operation = RenameEntity ''user'' ''users'' ''people'', sp_risk = risk_for_operation (RenameEntity ''user'' ''users'' ''people'')\<rparr>,
       \<lparr>sp_id = 2, sp_operation = AddField ''user'' user_email_field, sp_risk = risk_for_operation (AddField ''user'' user_email_field)\<rparr>,
       \<lparr>sp_id = 3, sp_operation = CreateIndex ''user'' email_index, sp_risk = risk_for_operation (CreateIndex ''user'' email_index)\<rparr>]"
    by (simp add: user_migration_def user_operations_def)
  have limits: "validate_apply_limits default_apply_limits = Inr ()" "3 \<le> al_max_steps default_apply_limits"
      "al_catalog default_apply_limits = default_catalog_limits"
    by (simp_all add: validate_apply_limits_def validate_catalog_limits_def default_apply_limits_def default_catalog_limits_def)
  have run: "apply_steps fake (plan_steps user_migration) [] (user_backend 0 ''revision-one'' ''users'' [user_id_field] []) =
      (Inr (rp_applied_steps user_report), user_backend 3 ''revision-two'' ''people'' [user_email_field, user_id_field] [email_index])"
    unfolding steps using step_one step_two step_three by (simp add: fake_def user_report_def user_operations_def)
  have ends: "cs_revision source_snapshot = ''revision-one''" "cs_revision target_snapshot = ''revision-two''"
    by (simp_all add: migration_samples)
  have locked: "apply_while_locked (\<lambda>s. s) fake user_migration default_apply_limits (user_backend 0 ''revision-one'' ''users'' [user_id_field] []) =
      (Inr user_report, user_backend 3 ''revision-two'' ''people'' [user_email_field, user_id_field] [email_index])"
    using inspect_source inspect_target run
    by (simp add: apply_while_locked_def scope limits user_source user_converged fake_def ends) (simp add: user_report_def)
  have finished: "bk_finish fake Commit (user_backend 3 ''revision-two'' ''people'' [user_email_field, user_id_field] [email_index]) =
      (Inr (), (fake_new target_snapshot)\<lparr>fb_expected_steps := 3, fb_completed_steps := 3, fb_begin_count := 1\<rparr>)"
    by (simp add: fake_def fake_finish_def user_backend_def fake_new_def migration_samples Let_def)
  show ?thesis
    using limits(2) by (simp add: apply_checked_def limits user_authorized user_begun locked finished) (simp add: steps default_apply_limits_def)
qed

text \<open>A plan that drops the entity.\<close>

definition drop_migration :: migration_plan where
  "drop_migration =
     \<lparr>mp_identity = \<lparr>pi_scope = cs_scope source_snapshot, pi_source_revision = ''revision-one'', pi_target_revision = ''empty'',
        pi_steps = [\<lparr>sp_id = 1, sp_operation = DropEntity (hd (cs_entities source_snapshot)),
          sp_risk = risk_for_operation (DropEntity (hd (cs_entities source_snapshot)))\<rparr>]\<rparr>,
      mp_source = source_snapshot, mp_target = test_snapshot ''empty'' []\<rparr>"

definition drop_approval :: migration_approval where
  "drop_approval = \<lparr>ap_identity = mp_identity drop_migration, ap_steps = {1}, ap_actor = ''operator'', ap_rationale = ''reviewed''\<rparr>"

lemma drop_planned:
  "migration_plan_new source_snapshot (test_snapshot ''empty'' []) (plan_steps drop_migration) = Inr drop_migration"
  by (simp add: migration_plan_new_def check_step_def drop_migration_def migration_samples risk_covers_def)

lemma drop_authorized: "authorize (with_destructive conservative_policy) drop_migration (Some drop_approval) = Inr ()"
  by (simp add: authorize_permits permitted_def drop_migration_def drop_approval_def with_destructive_def conservative_policy_def)

section \<open>A migration that does not run\<close>

text \<open>Fields \<open>a\<close> and \<open>b\<close>, named \<open>x\<close> and \<open>y\<close>, become \<open>y\<close> and \<open>z\<close>. The renames are planned by key, so that the
  first takes a name that is still in use.\<close>

definition plain_field :: "string \<Rightarrow> string \<Rightarrow> catalog_field" where
  "plain_field key name = \<lparr>cf_key = key, cf_name = name, cf_data_type = ''u64'', cf_required = True, cf_nullable = False\<rparr>"

definition chain_snapshot :: "catalog_revision \<Rightarrow> string \<Rightarrow> string \<Rightarrow> catalog_snapshot" where
  "chain_snapshot revision a b = test_snapshot revision
     [\<lparr>ce_key = ''user'', ce_name = ''users'', ce_fields = [plain_field ''a'' a, plain_field ''b'' b], ce_indexes = []\<rparr>]"

definition chain_intent :: migration_intent where
  "chain_intent = \<lparr>mi_renames = [IntentField ''user'' ''a'' ''x'' ''y'', IntentField ''user'' ''b'' ''y'' ''z'']\<rparr>"

definition chain_backend :: fake_backend where
  "chain_backend = (fake_new (chain_snapshot ''one'' ''x'' ''y''))\<lparr>fb_expected_steps := 2, fb_target_revision := Some ''two''\<rparr>"

theorem chained_renames_stuck:
  "diff_catalog quote (chain_snapshot ''one'' ''x'' ''y'') (chain_snapshot ''two'' ''y'' ''z'') chain_intent default_diff_limits =
     Inr \<lparr>cd_source = chain_snapshot ''one'' ''x'' ''y'', cd_target = chain_snapshot ''two'' ''y'' ''z'',
       cd_operations = [RenameField ''user'' ''a'' ''x'' ''y'', RenameField ''user'' ''b'' ''y'' ''z'']\<rparr>"
  "fst (fake_operation (RenameField ''user'' ''a'' ''x'' ''y'') chain_backend) = Inl (migrate_catalog_008 ''field'' ''y'' ''a'' ''b'')"
  "fst (fake_operation (RenameField ''user'' ''b'' ''y'' ''z'') chain_backend) = Inr ()"
  "fst (fake_operation (RenameField ''user'' ''a'' ''x'' ''y'')
     (snd (fake_operation (RenameField ''user'' ''b'' ''y'' ''z'') chain_backend))) = Inr ()"
  by (simp_all add: fake_evals show_small diff_evals chain_snapshot_def chain_intent_def chain_backend_def plain_field_def
      fake_new_def catalog_field_new_def insert_commute)

end
