(* ===== verification/Spec2Isabelle.thy ===== *)
theory Spec2Isabelle
  imports Data_Laws Memory_Session Query_Samples Exact_Sum Value_Conformance Model_Order Samples Truth Fingerprint Expr_Samples Migrate_Backend
begin

text \<open>
  A verification library for DOL, a data operating language: Rust crates that define semantic types,
  values and models (\<open>crates/dol-core\<close>), a canonical wire format (\<open>crates/dol-wire\<close>), the contracts of
  execution engines (\<open>crates/dol-engine\<close>), schema migrations (\<open>crates/dol-migrate\<close>) and reference engines
  (\<open>engines/memory\<close>).

  \<^bold>\<open>How the parts interact.\<close> A \<open>TypeDef\<close> describes values; a \<open>ModelBuilder\<close> collects fields, constraints,
  relations and references over such types and \<open>freeze\<close>s into a canonical \<open>ModelDef\<close>. Datums are checked
  against types, compared, summed and fingerprinted. Types, typed datums, models and model sets are encoded
  into envelopes; decoding parses a payload into private DTOs, lowers these through the same builders and
  validators, and accepts a frame only if re-encoding gives it back. Expressions are
  trees over literals, fields, parameters, operators and functions; preparing one validates it against the
  limits and type rules, normalizes it, binds its fields to the models in scope and compiles it into a flat
  array of nodes that is evaluated against records. Records become dense rows; data sets of records are
  validated against identities and unique constraints. Authored writes are prepared against their model and
  lowered to a logical form, which a data set applies by itself and an engine executes: the memory engine
  keeps a table of rows per model, applies writes atomically and groups them into transactions on a private
  copy. A pipeline is lowered to a logical plan, an array of nodes that refer to earlier ones; an optimizer removes
  nodes without effect, placement decides which nodes an engine runs, and the memory engine executes the plan
  stage by stage into a stream of rows. Engines consult a cache policy before they retain compiled artifacts.
  Migrations compare two catalog snapshots, plan the operations that lead from one to the other, check them against a
  policy and an approval, and apply them to a backend under its lock.

  \<^bold>\<open>Conventions.\<close> A \<open>Result\<close> is a sum with the error on the left; \<open>usize\<close> is \<open>nat\<close> with the bound
  \<open>usize_max\<close>; fixed-width integers are words; a Rust \<open>String\<close> is a HOL string of its UTF-8 bytes and a
  \<open>BTreeMap\<close> is an association list sorted by key. What comes from third-party crates is a parameter: the
  record \<open>ext\<close> holds the operations on decimals, calendar scalars and IEEE floats (type variable \<open>'x\<close>), the
  digest \<open>B\<close> stands for BLAKE3. For expressions \<open>scalar_ops\<close> adds float and decimal arithmetic, calendar
  accessors and the Unicode case tables; subqueries are a type variable \<open>'q\<close>, their fingerprint and the
  planner that resolves them closures \<open>Q\<close> and \<open>R\<close>; evaluation answers a planned subquery by a function
  of its plan. Whether the deadline of an execution has passed is a flag \<open>xs_late\<close> of its session; the time that
  a write has taken is a function \<open>clock\<close> of the number of checks made; the Rust
  type of the records of a data set enters as a record \<open>record_ops\<close> of its model and field access;
  a migration backend is a record \<open>catalog_backend\<close> of its operations on its state, and the \<open>Debug\<close> form of strings
  in messages a function \<open>quote\<close>. What the
  code relies on is stated by \<open>ext_order_laws\<close>, \<open>ext_wire_laws\<close> and \<open>ext_eq_laws\<close>; \<open>Sample_Scalars\<close> and
  \<open>Write_Samples\<close> show an instance.

  \<^bold>\<open>Theories.\<close>
  \<^item> \<open>Prelude\<close>, \<open>Rust_Std\<close>, \<open>Ordered_Map\<close>: results, lists, orderings, string operations and sorted maps.
  \<^item> \<open>Types\<close>, \<open>Type_Validate\<close>, \<open>Type_Laws\<close> (\<open>dol-core/types\<close>, \<open>limits\<close>, \<open>diagnostic\<close>): definitions, the
    iterative limit check with its explicit stack (termination by a measure), the recursive validator, and
    the proof that together they decide \<open>type_wf\<close> and the bounds.
  \<^item> \<open>Truth\<close>, \<open>Big_Magnitude\<close>, \<open>Exact_Sum\<close> (\<open>dol-core/semantics\<close>): Kleene logic, multi-limb
    magnitudes as an implementation of the naturals, exact sums, the execution order of datums.
  \<^item> \<open>Values\<close>, \<open>Value_Validate\<close>, \<open>Value_Conformance\<close> (\<open>dol-core/value\<close>): logical values, the validator of a
    datum against a type and the inductive conformance judgement it decides.
  \<^item> \<open>Model_Def\<close>, \<open>Model_Laws\<close>, \<open>Model_Order\<close> (\<open>dol-core/model\<close>): builder, \<open>freeze\<close>, model sets; canonical
    form, validity, lookup, idempotence and independence of the declaration order.
  \<^item> \<open>Fingerprint\<close> (\<open>dol-core/fingerprint\<close>, \<open>ModelDef::fingerprint\<close>): the hashed byte streams and their
    injectivity.
  \<^item> \<open>Wire_Envelope\<close>, \<open>Wire_Encode\<close>, \<open>Wire_Decode\<close>, \<open>Wire_Lower\<close>, \<open>Wire_Model\<close> (\<open>dol-wire\<close>): budgets, envelopes,
    encoder, decoder and lowering. \<open>Wire_Roundtrip\<close>, \<open>Wire_Datum_Roundtrip\<close>, \<open>Wire_Model_Roundtrip\<close> prove
    that encoding refines an abstract byte format and that the decoder inverts it; the locale \<open>frame_codec\<close>
    states what a codec of one payload kind promises and is interpreted for types, datums
    (\<open>Wire_Datum_Roundtrip\<close>) and models (\<open>Wire_Model_Codec\<close>). \<open>Wire_Soundness\<close> holds what is
    guaranteed for arbitrary bytes.
  \<^item> \<open>Expr_Node\<close>, \<open>Expr_Semantic\<close>, \<open>Expr_Function\<close>, \<open>Expr_Validate\<close>, \<open>Expr_Normalize\<close>, \<open>Expr_Prepare\<close>,
    \<open>Expr_Eval\<close> (\<open>dol-core/expr\<close>): nodes, operators, built-in functions, type rules, normalization,
    binding and compilation, evaluation; beside them the meaning \<open>eval_expr\<close> of a tree. \<open>Expr_Normal_Form\<close>
    proves that normalization keeps the meaning, \<open>Expr_Compile\<close> that the array evaluator implements it,
    \<open>Expr_Typing\<close> and \<open>Expr_Builtin\<close> that validated expressions and functions give values of their types,
    \<open>Expr_Safety\<close> puts these together for prepared expressions on conforming records; \<open>Expr_Samples\<close> holds
    a prepared expression.
  \<^item> \<open>Value_Equality\<close>: logical equality on well-formed datums is a partial equivalence that the hash respects.
  \<^item> \<open>Row\<close>, \<open>Row_Laws\<close> (\<open>runtime/row\<close>, \<open>data/validate\<close>): dense rows and their builder, validation of records
    and data sets through buckets of tuple fingerprints; the proof that it decides \<open>dataset_valid\<close>.
  \<^item> \<open>Write_Op\<close>, \<open>Write_Laws\<close> (\<open>ops\<close>, \<open>expr/existential\<close>): authored, prepared and logical writes;
    balanced conjunctions keep the meaning of filters.
  \<^item> \<open>Data_Write\<close>, \<open>Data_Laws\<close> (\<open>data\<close>): writes on data sets. The locale \<open>mutable_record\<close> states what a
    record type owes; dynamic rows are its instance.
  \<^item> \<open>Memory_Store\<close>, \<open>Memory_Write\<close>, \<open>Memory_Engine\<close> (\<open>engines/memory\<close>, with the limits of \<open>dol-engine\<close>): tables, writes, the engine and its transactions, operations returning the state they
    leave beside their result. \<open>Memory_Laws\<close> proves that an accepted write refines \<open>write_effect\<close> and a
    refused one changes nothing; \<open>Memory_Session\<close> has the state machine of sessions with its invariant and, in
    the locales \<open>atomic_writes\<close> and \<open>effective_writes\<close> (interpreted for the store and for transactions),
    sequences of writes.
  \<^item> \<open>Engine_Capability\<close> (\<open>dol-engine/capability\<close>, \<open>cache\<close>): capabilities and cache policy.
  \<^item> \<open>Plan\<close> (\<open>dol-core/plan\<close>): nodes, builder, stage fingerprints, optimizer.
    \<open>Engine_Placement\<close>, \<open>Engine_Execute\<close> (\<open>dol-engine\<close>: \<open>placement\<close>, \<open>explain\<close>, \<open>execute\<close>, \<open>stream\<close>): placement with the
    inductive specification \<open>needs_local\<close>, limits, rows and the collection of streams.
  \<^item> \<open>Exec_Session\<close>, \<open>Exec_Ops\<close>, \<open>Exec_Aggregate\<close>, \<open>Executor\<close>, \<open>Memory_Query\<close> (\<open>engines/memory/src/executor\<close> and
    \<open>lib\<close>): the stages, subqueries, the result stream and the queries of the engine; \<open>Stable_Sort\<close> is the stable
    \<open>sort_by\<close> of the standard library with the locale \<open>total_comparison\<close> of what it needs.
  \<^item> \<open>Exec_Algebra\<close>, \<open>Exec_Window_Laws\<close>, \<open>Exec_Plan_Laws\<close> give every stage its row algebra and prove that an
    execution that succeeds computes it within its limits. \<open>Exec_Congruence\<close>, \<open>Exec_Closure\<close>: what a
    stage depends on, the nodes that are run, nesting. \<open>Plan_Optimize_Laws\<close> and \<open>Exec_Optimize_Laws\<close>: the
    optimizer is total and changes no result. \<open>Exec_Sort_Laws\<close>, \<open>Exec_Stream_Laws\<close>: sorting, streams, frames.
    \<open>Query_Samples\<close> runs a plan with a subquery.
  \<^item> \<open>Migrate_Catalog\<close>, \<open>Migrate_Diff\<close>, \<open>Migrate_Apply\<close> (\<open>dol-migrate\<close>: \<open>catalog\<close>, \<open>diff\<close>, then \<open>plan\<close>, \<open>policy\<close> and \<open>apply\<close>):
    snapshots in canonical order, the difference with its declared renames, plans, authorization and the locked
    protocol. \<open>Migrate_Diff_Laws\<close> computes the difference in closed form and proves that its operations transform the
    abstract content of one catalog into that of the other; \<open>Migrate_Backend\<close> has the contract of backends as the
    locale \<open>migration_backend\<close>, interpreted for the reference backend of the tests, a migration that runs on it and
    one that does not.
  \<^item> \<open>Sample_Scalars\<close>, \<open>Samples\<close>, \<open>Write_Samples\<close>: concrete scalars, types, models, frames, rows and engines
    the witnesses run on.

  \<^bold>\<open>Fuel and bounds.\<close> The mutually recursive readers of the decoder run on fuel, \<open>payload_fuel\<close> being one more
  than the number of payload bytes. Each level consumes a byte, so this is always enough: by the
  safety properties of the decoders an error always names an offset, which the out-of-fuel error does not. \<open>evaluate_node\<close> follows the
  indices of a compiled array with as many steps as there are nodes; every child has a smaller index than its
  parent, and the compilation property equates the result with the total function \<open>eval_expr\<close>. Nested subqueries
  are bounded by the code itself, by \<open>MAX_EXISTENTIAL_DEPTH\<close>. The collection of an arbitrary stream is a partial
  function; for the stream of the memory engine it is shown to end. All other functions terminate structurally or
  by a measure.

  \<^bold>\<open>Not modelled.\<close> The typed builders of expressions and pipelines of \<open>dol-core\<close> and the lowering of pipelines to plans (plans
  are arbitrary here; that lowering puts subqueries into filters only is the hypothesis
  \<open>existentials_in_filters\<close>), the engines that talk to files and databases, the machine-learning crate, the derive macros, and tools, tests and
  benchmarks. Their status is
  given in the manifest.
\<close>

section \<open>Wire frames\<close>



text \<open>A semantic type definition decodes from exactly the frame it is encoded to.\<close>

theorem type_def_frames:
  assumes "type_ok ty"
  shows "decode_type_def frame L = Inr ty \<longleftrightarrow> encode_type_def ty L = Inr frame"
  using type_codec.decode_iff [of ty frame L] assms by simp

theorem type_def_frames_witness: "decode_type_def date_frame default_decode_limits = Inr date_type"
  using type_def_frames [OF date_type_ok] date_frame by blast

text \<open>C2. A model that was declared and frozen under the limits of the wire decodes from exactly the
  frame it is encoded to: identities, constraints, relations, references, slots and lookup indexes all
  come back as they were.\<close>

theorem model_def_frames:
  assumes "builder_ok b" and "mb_limits b = Wire_Envelope.definition_limits L" and "model_freeze b = Inr m"
  shows "decode_model_def frame L = Inr m \<longleftrightarrow> encode_model_def m L = Inr frame"
  by (rule model_codec.decode_iff [OF frozen_model_wire_ok [OF assms]])

theorem model_def_frames_witness: "decode_model_def user_frame default_decode_limits = Inr user_model"
  using model_def_frames [OF user_builder_ok user_limits user_model] user_frame by blast

text \<open>C18. Decoding an encoded model is freezing it again under the limits of the wire. The encoder
  bounds each list of a model on its own, \<open>freeze\<close> bounds the constraints together: the witness is a
  model that is encoded and whose frame the decoder then rejects with \<open>LIMIT-003\<close>.\<close>

theorem decoding_freezes_again:
  assumes "builder_ok b" and "model_freeze b = Inr m" and "encode_model_def m L = Inr frame"
  shows "decode_model_def frame L = map_err core_error (model_freeze (rebuild (Wire_Envelope.definition_limits L) m))"
  by (rule decode_encoded_model_freezes [OF freeze_parts_ok [OF assms(1,2)] freeze_establishes(1) [OF assms(2)] assms(3)])

theorem decoding_freezes_again_witness:
  "encode_model_def narrow_model narrow_limits = Inr narrow_frame \<and>
   decode_model_def narrow_frame narrow_limits = Inl (core_error limit_003)"
  using decoding_freezes_again [OF narrow_builder_ok narrow_model narrow_frame] narrow_frame narrow_refrozen by simp

text \<open>C7. Whatever the bytes: a frame that is accepted as a typed datum carries a type that validates
  under the limits and a datum that is of this type, is the one encoding of what it decodes to, and is
  within the byte limit.\<close>

theorem accepted_datum_sound:
  assumes "decode_typed_datum X frame L = Inr (ty, presence, d)"
  shows "validate_type ty (Wire_Envelope.definition_limits L) = Inr () \<and> of_field X ty presence d \<and>
    encode_typed_datum X ty presence d L = Inr frame \<and>
    HEADER_LEN \<le> length frame \<and> length frame \<le> max_total_bytes L"
  using decoded_datum_valid [OF assms] decode_typed_datum_canonical [OF assms]
    datum_codec.accepted_within_limits [OF assms] by blast

theorem accepted_datum_sound_witness:
  "of_field sample_ext dates_type Required dates \<and> length dates_frame \<le> 8388608"
  using accepted_datum_sound [of sample_ext dates_frame default_decode_limits dates_type Required dates]
    dates_decodes by (simp add: default_decode_limits_def)

text \<open>C20. A frame that is accepted as a model carries a model in canonical form (fields sorted by key
  with their slots and indexes, sorted and duplicate-free constraints) whose every part is valid under
  the limits, and is the one encoding of that model.\<close>

theorem accepted_model_sound:
  assumes "decode_model_def frame L = Inr m"
  shows "model_canonical m \<and> model_valid (Wire_Envelope.definition_limits L) m \<and> encode_model_def m L = Inr frame"
  using decoded_model_valid [OF assms] model_codec.decode_canonical [OF assms] by blast

theorem accepted_model_sound_witness: "model_canonical user_model"
  using accepted_model_sound [of user_frame default_decode_limits user_model] user_decodes by blast


text \<open>The same for the model decoder: every failure names an offset of the payload, and a model
  takes at least 25 bytes.\<close>

theorem model_decoder_safe:
  "case dec_model (payload_fuel (decoder_new payload L)) 0 (decoder_new payload L) of
     Inl err \<Rightarrow> \<exists>off. we_offset err = Some off \<and> off \<le> length payload
   | Inr (dto, d) \<Rightarrow> 25 \<le> d_offset d \<and> d_offset d \<le> length payload \<and> d_nodes d \<le> max_nodes L"
  using payload_errors [of payload L 25, OF safe_model] payload_reads [of payload L 25, OF safe_model]
  by (auto split: sum.splits)

text \<open>C19. The bytes of an envelope are accepted if and only if they are the encoding of the envelope
  that is returned: header fields, reserved bytes, declared and actual length leave no freedom.\<close>

theorem envelope_frames: "decode_envelope input L = Inr env \<longleftrightarrow> encode_envelope env L = Inr input"
  by (rule envelope_inverse)

text \<open>No frame is accepted as two kinds: a frame that one of the four decoders accepts is rejected
  by the others.\<close>

theorem frame_kinds_disjoint:
  "\<not> (decode_type_def frame L = Inr ty \<and> decode_typed_datum X frame L = Inr p) \<and>
   \<not> (decode_type_def frame L = Inr ty \<and> decode_model_def frame L = Inr m) \<and>
   \<not> (decode_type_def frame L = Inr ty \<and> decode_model_set frame L = Inr ms) \<and>
   \<not> (decode_typed_datum X frame L = Inr p \<and> decode_model_def frame L = Inr m) \<and>
   \<not> (decode_typed_datum X frame L = Inr p \<and> decode_model_set frame L = Inr ms) \<and>
   \<not> (decode_model_def frame L = Inr m \<and> decode_model_set frame L = Inr ms)"
  by (auto dest!: decoded_kinds)

text \<open>The encoder with its budgets refines the abstract format: the frame of a typed datum is the
  20-byte header (magic, version, kind, zero flags, payload length) followed by the type, the presence
  and the datum, map entries in the order of their encoded keys.\<close>

theorem typed_datum_layout:
  assumes "ext_wire_laws X ok" and "type_ok ty" and "datum_canonical X ok d"
    and "encode_typed_datum X ty presence d L = Inr frame"
  shows "frame = [68, 79, 76, 87, 0, 1, 0, 0, 2, 0, 0, 0] @
    u64_be (of_nat (length (typed_datum_bytes X ty presence d))) @ typed_datum_bytes X ty presence d"
  using typed_datum_frame_bytes [OF assms]
  by (simp add: encode_envelope_Inr frame_header_bytes envelope_new_def)

theorem typed_datum_layout_witness:
  "dates_frame = [68, 79, 76, 87, 0, 1, 0, 0, 2, 0, 0, 0] @
    u64_be (of_nat (length (typed_datum_bytes sample_ext dates_type Required dates))) @
    typed_datum_bytes sample_ext dates_type Required dates"
  by (rule typed_datum_layout [OF sample_wire_laws dates_type_ok dates_canonical dates_frame])


section \<open>Models\<close>

text \<open>C9. A model that freezes is in canonical form and valid: names within bounds, keys and names
  unique, types validated and consistent, identity fields required, non-null and keyable, constraint
  tuples over declared fields, relation and reference mappings well formed.\<close>

theorem freeze_canonical:
  assumes "model_freeze b = Inr m"
  shows "model_canonical m \<and> model_valid (mb_limits b) m"
  using freeze_establishes [OF assms] by blast

theorem freeze_canonical_witness: "model_canonical user_model"
  using freeze_canonical [OF user_model] by blast

text \<open>C37. Declaration order is not semantic: builders with the same fields, relations, references and
  constraint tuples in any order freeze to the same model.\<close>

theorem freeze_order_irrelevant:
  assumes "same_declarations b c"
  shows "model_freeze b = Inr m \<longleftrightarrow> model_freeze c = Inr m"
  using freeze_same [OF assms] freeze_same [OF same_declarations_sym [OF assms]] by blast

theorem freeze_order_irrelevant_witness:
  "model_freeze (user_builder\<lparr>mb_fields := rev (mb_fields user_builder), mb_unique := [[''a'', ''b'']]\<rparr>) = Inr user_model"
proof -
  have "same_declarations user_builder
      (user_builder\<lparr>mb_fields := rev (mb_fields user_builder), mb_unique := [[''a'', ''b'']]\<rparr>)"
    by (simp add: same_declarations_def user_builder_def builder_unique_def builder_identity_def
        builder_field_def_def builder_limits_def builder_with_key_def add_mset_commute)
  from freeze_order_irrelevant [OF this] user_model show ?thesis by blast
qed

text \<open>Freezing is idempotent: declaring the parts of a frozen model again and freezing under the
  same limits gives the model back.\<close>

theorem freeze_again:
  assumes "model_freeze b = Inr m"
  shows "model_freeze (rebuild (mb_limits b) m) = Inr m"
  by (rule freeze_idempotent [OF assms])

theorem freeze_again_witness:
  "model_freeze (rebuild (Wire_Envelope.definition_limits default_decode_limits) user_model) = Inr user_model"
  using freeze_again [OF user_model] by (simp add: user_limits)

text \<open>The indexes of a frozen model are right: a lookup by key or by name returns a field if and
  only if it is the declared field of that key or name.\<close>

theorem frozen_lookup:
  assumes "model_freeze b = Inr m"
  shows "(model_field m k = Some f \<longleftrightarrow> f \<in> set (md_fields m) \<and> fd_key f = k) \<and>
    (model_field_named m n = Some g \<longleftrightarrow> g \<in> set (md_fields m) \<and> fd_name g = n)"
  using model_field_lookup model_field_named_lookup freeze_establishes [OF assms] by blast

theorem frozen_lookup_witness: "model_field user_model ''zz'' = None"
proof -
  have "''zz'' \<notin> set (map fd_key (md_fields user_model))" by code_simp
  then have "model_field user_model ''zz'' \<noteq> Some f" for f
    using frozen_lookup [OF user_model, THEN conjunct1, of "''zz''" f] by force
  then show ?thesis by (metis not_None_eq)
qed

section \<open>Types\<close>

text \<open>C17. \<open>validate_type\<close> decides well-formedness: on limits below \<open>usize::MAX\<close> it accepts a definition
  if and only if its depth and node count are within the limits and every level has a valid key, a
  non-zero version, bounded parameters, a legal integer width, admissible map keys and unique field names.\<close>

theorem validate_type_decides:
  assumes "max_type_depth limits < usize_max" and "max_type_nodes limits < usize_max"
  shows "validate_type t limits = Inr () \<longleftrightarrow>
    type_depth t \<le> max_type_depth limits \<and> type_nodes t \<le> max_type_nodes limits \<and> type_wf limits t"
  by (rule validate_type_ok [OF assms])

theorem validate_type_decides_witness:
  "type_wf default_definition_limits date_type \<and> type_nodes date_type \<le> 16384"
proof -
  have "validate_type date_type default_definition_limits = Inr ()" by code_simp
  with validate_type_decides [of default_definition_limits date_type] show ?thesis
    by (simp add: default_definition_limits_def usize_max_def)
qed

text \<open>A universe of types is accepted if and only if any two definitions anywhere in it, nested
  ones included, that share key and version define the same value type.\<close>

theorem type_universe_consistent:
  "validate_type_universe types = Inr () \<longleftrightarrow>
     (\<forall>a \<in> set (concat (map subtypes types)). \<forall>b \<in> set (concat (map subtypes types)).
        type_identity a = type_identity b \<longrightarrow> same_value_type a b)"
  by (rule validate_type_universe_ok)

theorem type_universe_consistent_witness:
  "validate_type_universe [date_type, nullable date_type] = Inr ()"
proof -
  have "set (concat (map subtypes [date_type, nullable date_type])) = {date_type, nullable date_type}" by code_simp
  moreover have "same_value_type date_type (nullable date_type)" by code_simp
  ultimately show ?thesis
    using type_universe_consistent [of "[date_type, nullable date_type]"] same_value_type_equivalence
    by (metis insert_iff singletonD)
qed

text \<open>The order in which a record type lists its fields is not semantic.\<close>

theorem record_field_order_irrelevant:
  assumes "mset fs = mset gs" and "distinct (map rf_name fs)"
  shows "type_shaped k v (ShRecord fs) = type_shaped k v (ShRecord gs)"
  by (rule type_shaped_perm [OF assms])

theorem record_field_order_irrelevant_witness:
  "type_shaped ''a/r'' 1 (ShRecord [RecordField ''x'' date_type Required, RecordField ''y'' date_type Optional]) =
   type_shaped ''a/r'' 1 (ShRecord [RecordField ''y'' date_type Optional, RecordField ''x'' date_type Required])"
  by (rule record_field_order_irrelevant) simp_all

section \<open>Values\<close>

text \<open>C15. The datum validator decides the conformance judgement: a datum passes the checks for a field
  if and only if it is of the type, with missing and null admitted exactly by presence and nullability.\<close>

theorem validate_datum_decides: "validate_datum X ty presence d = Inr () \<longleftrightarrow> of_field X ty presence d"
  by (rule validate_datum_ok)

text \<open>In a validated map no two entries have equal keys.\<close>

theorem validated_map_keys_differ:
  assumes "validate_value X ty (VMap es) = Inr ()" and "i < j" and "j < length es"
  shows "\<not> datum_eq X (fst (es ! i)) (fst (es ! j))"
  using assms of_map_distinct unfolding validate_value_ok by blast

theorem validated_map_keys_differ_witness: "\<not> datum_eq sample_ext (Value (VDate (SDate 1))) (Value (VDate (SDate 2)))"
proof -
  have "validate_value sample_ext (type_shaped ''a/m'' 1 (ShMap date_type date_type))
      (VMap [(Value (VDate (SDate 1)), Value (VDate (SDate 1))), (Value (VDate (SDate 2)), Value (VDate (SDate 1)))]) = Inr ()"
    by code_simp
  from validated_map_keys_differ [OF this, of 0 1] show ?thesis by simp
qed



section \<open>Exact aggregation\<close>

text \<open>C39. Summing signed integers is exact: the result is the mathematical sum whenever it fits 128
  bits, whatever the partial sums do, and \<open>EXPR-EVAL-003\<close> otherwise.\<close>

theorem signed_sum_exact:
  "sum_signed_integers (map VInt ws :: 'x val list) =
    (if - (2 ^ 127) \<le> sum_list (map sint ws) \<and> sum_list (map sint ws) < 2 ^ 127
     then Inr (word_of_int (sum_list (map sint ws))) else Inl eval_003_signed)"
  by (simp add: sum_signed_integers_spec Let_def)

text \<open>The same for unsigned integers.\<close>

theorem unsigned_sum_exact:
  "sum_unsigned_integers (map VUInt ws :: 'x val list) =
    (if sum_list (map unat ws) < 2 ^ 128 then Inr (of_nat (sum_list (map unat ws))) else Inl eval_003_unsigned)"
  by (simp add: sum_unsigned_integers_spec Let_def)

text \<open>Decimals are summed exactly at the largest scale of the terms: the mantissa handed to the
  decimal constructor is the sum of the aligned mantissas.\<close>

theorem decimal_sum_exact:
  "sum_decimals X (map VDecimal ds) =
    (let scale = common_scale X ds;
         total = sum_list (map (aligned_mantissa X (unat scale)) ds)
     in if - (2 ^ 127) \<le> total \<and> total < 2 ^ 127
        then ok_or (dec_from_i128_with_scale X (word_of_int total) scale) eval_003_decimal
        else Inl eval_003_signed)"
  by (rule sum_decimals_spec)

text \<open>Magnitudes implement the natural numbers: the limb loops compute sum, product and comparison
  of the values and keep the normal form, and subtraction fails exactly below zero.\<close>

theorem magnitudes_refine_naturals:
  assumes "big_inv a" and "big_inv b"
  shows "big_value (big_add_assign a b) = big_value a + big_value b \<and> big_inv (big_add_assign a b) \<and>
    big_value (big_mul_small a factor) = big_value a * unat factor \<and>
    big_cmp a b = cmp_of (big_value a) (big_value b) \<and>
    (case big_sub a b of
       Inl err \<Rightarrow> big_value a < big_value b
     | Inr d \<Rightarrow> big_value d + big_value b = big_value a)"
  using big_value_add [of a b] big_inv_add [OF assms] big_value_mul_small [of a factor] big_cmp_value [OF assms]
    big_sub_total [OF assms] by blast

theorem magnitudes_refine_naturals_witness: "big_value (big_add_assign [-1] [1]) = 2 ^ 64"
proof -
  have "big_inv [-1]" "big_inv [1]" by (simp_all add: big_inv_def)
  from magnitudes_refine_naturals [OF this, of 0] show ?thesis by (simp add: unsigned_minus_1_eq_mask mask_eq_exp_minus_1)
qed

text \<open>The truth connectives are strong Kleene logic: minimum, maximum and negation of the levels
  false, unknown, true; a filter keeps a row only on true.\<close>

theorem kleene_connectives:
  "truth_level (truth_and a b) = min (truth_level a) (truth_level b) \<and>
   truth_level (truth_or a b) = max (truth_level a) (truth_level b) \<and>
   truth_level (truth_negate a) = - truth_level a \<and>
   (retains_row a \<longleftrightarrow> truth_level a = 1)"
  by (cases a; cases b) (simp_all add: truth_levels retains_row_def)

section \<open>Fingerprints\<close>

text \<open>The bytes hashed for a type determine the type: two types with one fingerprint are equal or
  are a collision of the digest on two different inputs.\<close>

theorem type_fingerprints_separate:
  assumes "type_sized a" and "type_sized b" and "fingerprint_type_def B a = fingerprint_type_def B b"
  shows "a = b \<or> (\<exists>p q. p = hash_type_def a (hasher_new ''type/v1'') \<and> q = hash_type_def b (hasher_new ''type/v1'') \<and>
    p \<noteq> q \<and> B p = B q)"
  using assms type_stream_inject [OF assms(1,2)] by (auto simp: fingerprint_type_def_def hasher_finish_def)

theorem type_fingerprints_separate_witness:
  "fingerprint_type_def (\<lambda>bs. bs) date_type \<noteq> fingerprint_type_def (\<lambda>bs. bs) dates_type"
proof
  assume "fingerprint_type_def (\<lambda>bs. bs) date_type = fingerprint_type_def (\<lambda>bs. bs) dates_type"
  moreover have "type_sized date_type" "type_sized dates_type" by code_simp+
  ultimately have "date_type = dates_type" using type_fingerprints_separate by blast
  moreover have "ty_version date_type \<noteq> ty_version dates_type" by code_simp
  ultimately show False by simp
qed

text \<open>The bytes hashed for a model determine the model: every part of a frozen model is covered.\<close>

theorem model_fingerprints_separate:
  assumes "model_freeze b = Inr m" and "model_freeze c = Inr n" and "model_sized m" and "model_sized n"
    and "fingerprint_model B m = fingerprint_model B n"
  shows "m = n \<or> (\<exists>p q. p = hash_model m (hasher_new ''model/v1'') \<and> q = hash_model n (hasher_new ''model/v1'') \<and>
    p \<noteq> q \<and> B p = B q)"
  using assms(5) model_stream_inject [OF freeze_establishes(1) [OF assms(1)] freeze_establishes(1) [OF assms(2)] assms(3,4)]
  by (auto simp: fingerprint_model_def hasher_finish_def)

theorem model_fingerprints_separate_witness:
  "fingerprint_model (\<lambda>bs. bs) user_model \<noteq> fingerprint_model (\<lambda>bs. bs) narrow_model"
proof
  assume "fingerprint_model (\<lambda>bs. bs) user_model = fingerprint_model (\<lambda>bs. bs) narrow_model"
  moreover have "user_model \<noteq> narrow_model" by code_simp
  ultimately show False
    using model_fingerprints_separate [OF user_model narrow_model user_sized narrow_sized] by blast
qed

text \<open>Fingerprints of datums are canonical: the order of map entries, the payload of a NaN and the
  sign of zero do not show, and types, models, datums and map entries are hashed in separate domains.\<close>

theorem datum_fingerprints_canonical:
  assumes "mset es = mset es'"
  shows "hash_map B es = hash_map B es' \<and>
    (canonical_f64_bits a = canonical_f64_bits b \<longleftrightarrow>
       a = b \<or> f64_is_nan a \<and> f64_is_nan b \<or> f64_is_zero a \<and> f64_is_zero b) \<and>
    hash_type_def ty (hasher_new ''type/v1'') \<noteq> hash_model m (hasher_new ''model/v1'')"
proof -
  have "hash_type_def ty (hasher_new ''type/v1'') \<noteq> hash_model m (hasher_new ''model/v1'')"
    by (rule domain_separation) (simp_all add: sized_def)
  then show ?thesis using hash_map_mset [OF assms] canonical_f64_bits_eq [of a b] by blast
qed

theorem datum_fingerprints_canonical_witness:
  "hash_map (\<lambda>bs. bs) [(h_u8 1, h_u8 2), (h_u8 3, h_u8 4)] = hash_map (\<lambda>bs. bs) [(h_u8 3, h_u8 4), (h_u8 1, h_u8 2)]"
  by (rule datum_fingerprints_canonical [THEN conjunct1]) simp

section \<open>Engine caches\<close>

text \<open>Cache admission is conservative: nothing larger than the per-entry bound is retained under a
  validated policy, only plan-reusable artifacts are ever shared, and request-scoped ones never are.\<close>

theorem cache_admission_safe:
  assumes "policy_validate p = Inr ()" and "artifact_lifetime p c n = Some lifetime"
  shows "cache_compiled_artifacts p \<and> n \<le> max_entry_bytes p \<and> n \<le> max_cache_bytes p \<and>
    0 < max_entries p \<and> c \<noteq> Never \<and> (lifetime = Shared \<longleftrightarrow> c = PlanReusable)"
  using assms by (cases c) (auto simp: artifact_lifetime_def admits_size_def policy_validate_def split: if_splits)

theorem cache_admission_safe_witness:
  "artifact_lifetime (default_cache_policy\<lparr>cache_compiled_artifacts := True\<rparr>) RequestScoped 10 = Some Request \<and>
   (10 :: u64) \<le> max_entry_bytes default_cache_policy"
proof -
  let ?p = "default_cache_policy\<lparr>cache_compiled_artifacts := True\<rparr>"
  have "policy_validate ?p = Inr ()" "artifact_lifetime ?p RequestScoped 10 = Some Request"
    by (simp_all add: default_cache_policy_def policy_validate_def artifact_lifetime_def admits_size_def)
  with cache_admission_safe [OF this] show ?thesis by simp
qed

section \<open>Expressions\<close>

text \<open>C8. Normalization preserves meaning: whatever an expression evaluates to against records and
  parameters, with any answer to its existentials, the normalized expression evaluates to as well.
  Constant folding, double negation and the sorting of membership candidates lose nothing.\<close>

theorem normalization_preserves_meaning:
  assumes "normalize_node B S Q n = Inr n'"
    and "eval_expr S (context_valuation c ctx ex) lift n = Inr v"
  shows "eval_expr S (context_valuation c ctx ex) lift n' = Inr v"
  by (rule normalize_node_ok [OF context_lifts assms])

theorem normalization_preserves_meaning_witness:
  "\<exists>n'. normalize_node (\<lambda>_. []) sample_ops (\<lambda>_. Inr []) sample_expr = Inr n' \<and>
     eval_expr sample_ops (context_valuation (bind_single user_model) sample_ctx (\<lambda>_. Inl eval_112)) False n' =
       Inr (Value (VUInt 7))"
  using sample_normalizes normalization_preserves_meaning [OF _ sample_means] by blast

text \<open>C3. Compilation is correct: a prepared expression, evaluated over its flat array of nodes, gives
  exactly what the normalized expression tree means, error by error, when evaluation answers the planned
  existentials as the tree does; and it gives what the expression as written means wherever that
  has a value. The recursion bound of the evaluator is never reached.\<close>

theorem prepared_expression_means:
  assumes "prepare_with_existentials B S Q R node ty c L outer s = Inr (p, s')"
    and "answers R rex ex" and "validate_evaluation_scopes p ctx = Inr ()"
  shows "\<exists>normalized. normalize_node B S Q node = Inr normalized \<and>
    evaluate_datum_with_exists S p ctx rex = eval_expr S (context_valuation c ctx ex) False normalized \<and>
    (\<forall>v. eval_expr S (context_valuation c ctx ex) False node = Inr v \<longrightarrow>
       evaluate_datum_with_exists S p ctx rex = Inr v)"
proof -
  from assms(1) obtain n' where n': "normalize_node B S Q node = Inr n'"
    and "compile_node R c False n' ([], s) = Inr (pe_root p, pe_nodes p, s')" by (rule prepare_Inr)
  from prepared_means [OF this(2) assms(2,3)] normalize_node_ok [OF context_lifts n'] n' show ?thesis by auto
qed

theorem prepared_expression_means_witness:
  "evaluate_datum sample_ops sample_prepared sample_ctx = Inr (Value (VUInt 7))"
proof -
  have "answers (\<lambda>_ _. Inl exists_001) (\<lambda>_. Inl eval_112) (\<lambda>_. Inl eval_112)" by (simp add: answers_def)
  from prepared_expression_means [OF sample_prepared_with this sample_scopes] sample_means show ?thesis
    by (auto simp: evaluate_datum_def)
qed





text \<open>The resource check of an expression is exact: it succeeds, with the number of nodes, if and only
  if the tree has at most the allowed number of nodes and at most the allowed depth.\<close>

theorem expression_limits_exact:
  assumes "el_max_nodes L < usize_max" and "el_max_depth L < usize_max"
  shows "check_expression_limits n L = Inr k \<longleftrightarrow>
    k = length (subnodes n) \<and> k \<le> el_max_nodes L \<and> expr_depth n \<le> el_max_depth L"
  by (rule check_expression_limits_ok [OF assms])

theorem expression_limits_exact_witness:
  "check_expression_limits sample_expr default_expression_limits = Inr 9 \<and> expr_depth sample_expr = 3"
proof -
  have "check_expression_limits sample_expr default_expression_limits = Inr 9" by code_simp
  moreover have "check_expression_limits sample_expr (default_expression_limits\<lparr>el_max_depth := 3\<rparr>) = Inr 9" by code_simp
  moreover have "\<not> (\<exists>k. check_expression_limits sample_expr (default_expression_limits\<lparr>el_max_depth := 2\<rparr>) = Inr k)"
    using sample_too_deep by auto
  ultimately show ?thesis
    by (simp add: expression_limits_exact default_expression_limits_def usize_max_def)
qed

text \<open>A field reference is resolved if and only if exactly one of the sources in scope has its model and,
  where the reference names an alias, that alias; it resolves to that source, and two candidates are an
  error, never a choice.\<close>

theorem field_resolution_unique:
  "resolve_field c f = Inr (i, m, b) \<longleftrightarrow>
     [(j, n) \<leftarrow> enumerate 0 (bc_models c). source_matches c f j n] = [(i, m)] \<and> i < 2 ^ 32 \<and>
     b = (vec_get (bc_nullable c) i = Some True)"
  by (simp add: resolve_field_ok answering_def nullable_source_def)

text \<open>Membership is the three-valued disjunction of the equalities with the candidates, its negation
  the negation of that: an unknown candidate hides neither a match nor makes one.\<close>

theorem membership_is_disjunction:
  "eval_membership X v vs negate = Inr (Value (VTruth
     (let t = foldr (\<lambda>c t. truth_or (equal_truth X v c) t) vs TFalse in if negate then truth_negate t else t))) \<and>
   compare_equality X v c False = Inr (Value (VTruth (equal_truth X v c)))"
  by (simp add: membership_kleene compare_equality_truth)

section \<open>Rows and data sets\<close>

text \<open>C33. Logical equality is what data sets and constraints rely on: on a validated datum whose maps and
  records are ordered it is symmetric and transitive, and equal datums hash to the same bytes, although
  equality identifies floats of different bits and maps of different entry order.\<close>

theorem equal_datums_hash_alike:
  assumes "ext_eq_laws X" and "validate_datum X ty presence d = Inr ()" and "datum_btrees d" and "datum_eq X d e"
  shows "datum_eq X e d \<and> (\<forall>f. datum_eq X e f \<longrightarrow> datum_eq X d f) \<and> hash_datum B X d = hash_datum B X e"
proof -
  have distinct: "datum_distinct X d"
    using field_distinct [OF _ assms(3)] assms(2) by (simp add: validate_datum_ok)
  show ?thesis
    using equality_per(2) [OF assms(1) distinct] hash_equal(2) [OF assms(1) distinct assms(4)] assms(4)
    by (auto simp: per_at_def)
qed

theorem equal_datums_hash_alike_witness:
  "hash_datum (\<lambda>bs. bs) sample_ext (Value (VFloat64 0)) = hash_datum (\<lambda>bs. bs) sample_ext (Value (VFloat64 0x8000000000000000))"
proof -
  have "datum_eq sample_ext (Value (VFloat64 0)) (Value (VFloat64 0x8000000000000000))" by code_simp
  from equal_datums_hash_alike [OF sample_eq_laws _ _ this, of "type_scalar ''dol/f64'' 1 RFloat64" Required "\<lambda>bs. bs"]
  show ?thesis by (simp add: type_scalar_def scalar_matches_def)
qed

text \<open>C14. Validation of materialized data decides its specification: every record has the model and
  conforming values, and no two records agree on the identity, nor on a unique tuple without absent
  values. The buckets of tuple fingerprints lose no duplicate, whatever the digest.\<close>

theorem dataset_validation_decides:
  assumes "ext_eq_laws X" and "model_canonical m" and "model_valid limits m"
    and "\<forall>r \<in> set records. record_btrees m r"
  shows "validate_dataset B X m records = Inr () \<longleftrightarrow> dataset_valid B X m records"
  by (rule validate_dataset_decides [OF assms])

theorem dataset_validation_decides_witness: "dataset_valid (\<lambda>bs. bs) sample_ext stored_model (map row_view user_rows)"
proof -
  obtain limits where "model_valid limits stored_model" using stored_model_ok(2) by blast
  moreover have "\<forall>r \<in> set (map row_view user_rows). record_btrees stored_model r"
    by (simp add: user_rows_def record_btrees_def field_datum_def stored_fields user_row_field)
  ultimately show ?thesis
    using dataset_validation_decides [OF sample_eq_laws stored_model_ok(1), of limits "map row_view user_rows" "\<lambda>bs. bs"]
      user_rows_valid [of "\<lambda>bs. bs"] by (simp add: validate_dynamic_dataset_def)
qed

text \<open>C36. Every way to a runtime row gives a row of its model: dense construction accepts exactly the
  conforming values, copying a record and setting a field keep the row conforming, and a builder, after any
  accepted sequence of sets, freezes exactly when its values conform. Such rows pass record validation.\<close>

theorem rows_conform:
  assumes "model_canonical m"
  shows "(row_from_dense X m vs = Inr r \<longleftrightarrow> r = \<lparr>dr_model = m, dr_values = vs\<rparr> \<and> row_ok X r) \<and>
    (row_from_record X rec = Inr s \<longrightarrow> rv_model rec = Inr (dr_model s) \<and> row_ok X s) \<and>
    (row_ok X t \<and> row_set_field X slot d t = Inr t' \<longrightarrow> row_ok X t' \<and> dr_values t' = (dr_values t)[slot := d]) \<and>
    (try_each (\<lambda>(k, d). row_set X k d) kvs (row_builder m) = Inr b \<longrightarrow>
       (row_freeze X b = Inr u \<longleftrightarrow> u = b \<and> row_ok X b)) \<and>
    (row_ok X v \<and> dr_model v = m \<longrightarrow> validate_record_against B X m (row_view v) = Inr ())"
proof -
  have "row_freeze X b = Inr u \<longleftrightarrow> u = b \<and> row_ok X b"
    if "try_each (\<lambda>(k, d). row_set X k d) kvs (row_builder m) = Inr b"
    using row_sets_ok [OF row_builder_ok _ that] assms row_freeze_ok(1) [of X b u] by (simp add: row_builder_def)
  moreover have "validate_record_against B X m (row_view v) = Inr ()" if "row_ok X v" "dr_model v = m"
    using row_ok_valid [of v X B] assms that by (simp add: validate_record_ok)
  ultimately show ?thesis
    using row_from_dense_ok [OF assms, of X vs r] row_from_record_ok(1,2) [of X rec s] row_set_field_ok(1,3) [of X t slot d t']
    by blast
qed

theorem rows_conform_witness:
  "validate_record_against (\<lambda>bs. bs) sample_ext stored_model (row_view (user_row 7 Missing)) = Inr ()"
proof -
  have "row_ok sample_ext (user_row 7 Missing)"
    by (simp add: row_ok_def user_row_def stored_fields validate_datum_ok [symmetric])
      (simp add: date_type_def type_scalar_def scalar_matches_def)
  with rows_conform [OF stored_model_ok(1), of sample_ext _ _ _ _ _ _ _ _ _ _ _ "user_row 7 Missing" "\<lambda>bs. bs"]
  show ?thesis by (simp add: user_row_def)
qed

section \<open>Writes\<close>

text \<open>C35. Filters are kept as balanced conjunctions: for a condition whose conjuncts are truth-valued, the
  canonical condition evaluates to the same result under every valuation; it depends only on the sequence of
  conjuncts, not on how filters were nested, and its depth of conjunctions is logarithmic in their number.\<close>

theorem canonical_filter:
  assumes "conjunction S V (es_node e)" and "length (and_leaves (es_node e)) \<le> 2 ^ d"
  shows "eval_expr S V False (es_node (canonical_truth e)) = eval_expr S V False (es_node e) \<and>
    (\<forall>e'. and_leaves (es_node e') = and_leaves (es_node e) \<longrightarrow> canonical_truth e' = canonical_truth e) \<and>
    and_depth (es_node (canonical_truth e)) \<le> d"
  using canonical_meaning [OF assms(1)] canonical_depth [OF assms(2)] canonical_unique by blast

theorem canonical_filter_witness:
  "and_depth (es_node (canonical_truth
    \<lparr>es_node = and_node truth_leaf (and_node truth_leaf (and_node truth_leaf truth_leaf)), es_ty = truth_type_def\<rparr>)) \<le> 2"
proof -
  let ?n = "and_node truth_leaf (and_node truth_leaf (and_node truth_leaf truth_leaf))"
  let ?V = "context_valuation (bind_single user_model) sample_ctx (\<lambda>_. Inl eval_112)"
  have "conjunction sample_ops ?V ?n" by (simp add: conjunction.simps and_node_def truth_leaf_def truth_valued_def checked_result_def result_simps)
  moreover have "length (and_leaves ?n) \<le> 2 ^ 2" by code_simp
  ultimately show ?thesis
    by (intro canonical_filter [THEN conjunct2, THEN conjunct2, of sample_ops ?V]) (simp_all only: expression_spec.simps)
qed

text \<open>C34. A prepared update is well-formed: it assigns at least one field, no field twice, each slot to the
  field of its key with an expression of the field's type, and has a condition unless it acknowledges all rows.
  The order in which assignments were added does not matter.\<close>

theorem prepared_update_sound:
  assumes "prepare_update B S Q (Inr m) u all = Inr p" and "model_canonical m"
  shows "update_prepared m all p \<and>
    (\<forall>v. mset (up_assignments v) = mset (up_assignments u) \<and> distinct (map as_field (up_assignments u)) \<and>
       up_condition v = up_condition u \<longrightarrow> prepare_update B S Q (Inr m) v all = Inr p)"
  using prepare_update_ok [OF assms] prepare_update_order [of u _ B S Q "Inr m" all] assms(1) by metis

theorem prepared_update_sound_witness:
  "\<exists>p. prepare_update (\<lambda>_. []) sample_ops (\<lambda>_. Inr []) (Inr stored_model) user_update False = Inr p \<and>
    update_prepared stored_model False p"
  using user_prepares prepared_update_sound [OF _ stored_model_ok(1)] by blast

text \<open>C11. Writes to the memory engine are atomic: a refused write, whatever the reason, leaves the tables as
  they were; an accepted one changes exactly the table of its model, to what the abstract write makes of its
  rows (all assignments reading the old row), reports the number of rows it affected, and the whole store
  satisfies its constraints and references.\<close>

theorem engine_writes_atomic:
  assumes "engine_inv B (ops_ext S) e" and "write_ok w" and "execute_write B S L clock ps w e = (e', r)"
  shows "case r of
      Inl err \<Rightarrow> me_tables e' = me_tables e
    | Inr n \<Rightarrow> write_result B S ps w (me_tables e) (me_tables e') n \<and>
        validate_tables B (ops_ext S) (me_tables e') = Inr ()"
  by (rule execute_write_effect [OF assms])

theorem engine_writes_atomic_witness:
  "write_result (\<lambda>bs. bs) sample_ops [] user_write (store_of stored_model user_rows) (store_of stored_model updated_rows) 1"
  using engine_writes_atomic [OF _ user_write_ok user_executes, of "\<lambda>bs. bs"] user_engine_inv
  by (simp add: user_engine_def updated_engine_def)



text \<open>C12. Transactions are serializable: committing publishes exactly the effects of the writes the
  transaction accepted, one after the other from the snapshot, at most as many as its limit, to a store that
  satisfies every constraint; a refused commit leaves the engine as it was.\<close>

theorem transactions_serializable:
  assumes "engine_inv B (ops_ext S) e" and "begin_transaction B (ops_ext S) isolation TL e = (e0, Inr tx0)"
    and "list_all (\<lambda>r. write_ok (wr_write r)) rs"
    and "transaction_commit B (ops_ext S) (run_writes (transaction_request B S c) rs tx0) e0 = (e1, r)"
  shows "length (accepted (transaction_request B S c) rs tx0) \<le> tl_max_writes TL \<and>
    (case r of
       Inl err \<Rightarrow> me_tables e1 = me_tables e
     | Inr _ \<Rightarrow> me_tables e1 = fold (store_effect S) (accepted (transaction_request B S c) rs tx0) (me_tables e) \<and>
         validate_tables B (ops_ext S) (me_tables e1) = Inr ())"
  by (rule transaction_serial [OF assms])

theorem transactions_serializable_witness:
  "store_effect sample_ops user_request (store_of stored_model user_rows) = store_of stored_model updated_rows"
proof -
  have "wr_write user_request = user_write" by (simp add: user_request_def)
  with user_commits [of "\<lambda>_. []"] transactions_serializable [of "\<lambda>_. []" sample_ops user_engine Serializable default_transaction_limits user_engine
      user_transaction "[user_request]" memory_capabilities updated_engine "Inr ()"]
  have "me_tables updated_engine = store_effect sample_ops user_request (me_tables user_engine)"
    by (simp add: user_engine_inv user_begins user_accepts user_write_ok)
  then show ?thesis by (simp add: user_engine_def updated_engine_def)
qed

text \<open>C32. Transactions make progress: if writes succeed one by one on a validated engine and its tables stay
  within the snapshot limits, then a transaction can be begun, accepts all of them and commits, and the engine
  ends with the tables that the single writes give.\<close>

theorem accepted_writes_commit:
  assumes "engine_inv B (ops_ext S) e" and "me_validated e" and "list_all (\<lambda>r. write_ok (wr_write r)) rs"
    and "accepted (engine_request B S) rs e = rs" and "snapshots_fit B S TL rs e"
    and "length rs \<le> tl_max_writes TL" and "0 < tl_max_writes TL" "0 < tl_max_snapshot_rows TL" "0 < tl_max_snapshot_bytes TL"
  shows "\<exists>tx. begin_transaction B (ops_ext S) isolation TL e = (e, Inr tx) \<and>
    transaction_commit B (ops_ext S) (run_writes (transaction_request B S (me_capabilities e)) rs tx) e =
      (e\<lparr>me_tables := me_tables (run_writes (engine_request B S) rs e)\<rparr>, Inr ())"
  by (rule transaction_commits [OF assms])

theorem accepted_writes_commit_witness:
  "\<exists>tx. begin_transaction (\<lambda>bs. bs) sample_ext Serializable default_transaction_limits user_engine = (user_engine, Inr tx) \<and>
    snd (transaction_commit (\<lambda>bs. bs) sample_ext (run_writes (transaction_request (\<lambda>bs. bs) sample_ops memory_capabilities) [user_request] tx)
      user_engine) = Inr ()"
proof -
  have "accepted (engine_request (\<lambda>bs. bs) sample_ops) [user_request] user_engine = [user_request]"
    by (simp add: user_runs)
  moreover have "snapshots_fit (\<lambda>bs. bs) sample_ops default_transaction_limits [user_request] user_engine"
    using user_snapshots by (simp add: snapshots_fit_Cons user_runs) (simp add: snapshots_fit_def user_engine_def updated_engine_def)
  moreover have "me_validated user_engine" "me_capabilities user_engine = memory_capabilities" by (simp_all add: user_engine_def)
  ultimately show ?thesis
    using accepted_writes_commit [of "\<lambda>bs. bs" sample_ops user_engine "[user_request]" default_transaction_limits Serializable]
      user_engine_inv [of "\<lambda>bs. bs"] user_write_ok
    by (auto simp: user_request_def default_transaction_limits_def)
qed



section \<open>Plans\<close>



text \<open>C6. Optimization changes no result: a valid plan whose subqueries stand in filters is optimized to a plan of
  at most its size, and executing that under the same limits gives the same rows or the same error.\<close>

theorem optimized_plans_execute_alike:
  assumes "plan_valid plan" and "length (pl_nodes plan) \<le> 2 ^ 32" and "existentials_in_filters plan"
    and "tables_fit tables" and "validate_plan (eo_limits options) plan = Inr ()"
  shows "\<exists>plan'. optimize plan = Inr plan' \<and> length (pl_nodes plan') \<le> length (pl_nodes plan) \<and>
    execute B S late tables plan' ps options = execute B S late tables plan ps options"
  using optimize_total [OF assms(1,2)] optimized_execute [OF _ assms(1,3,4,5)] by blast

theorem optimized_plans_execute_alike_witness:
  "execute (\<lambda>_. []) sample_ops False (store_of stored_model user_rows) smaller_plan [] user_options = Inr user_result"
proof -
  have limits: "eo_limits user_options = default_execution_limits" and "length (pl_nodes user_plan) \<le> 2 ^ 32"
    by (simp_all add: user_options_def default_execution_options_def user_plan_def)
  then obtain plan' where "optimize user_plan = Inr plan'" and "execute (\<lambda>_. []) sample_ops False (store_of stored_model user_rows) plan' [] user_options
      = execute (\<lambda>_. []) sample_ops False (store_of stored_model user_rows) user_plan [] user_options"
    using optimized_plans_execute_alike [of user_plan "store_of stored_model user_rows" user_options "\<lambda>_. []" sample_ops False "[]"]
      user_plan_valid user_tables_fit by auto
  with user_plan_optimizes query_executes show ?thesis by simp
qed



text \<open>C28. Collecting the stream of an execution always ends, with every row in order exactly if the rows and
  their bytes are within the collection limits, and leaves nothing to read.\<close>

theorem memory_streams_drain:
  assumes "\<not> ms_cancelled st" and "0 < ms_batch_rows st" and "length (ms_rows st) < 2 ^ 64"
  shows "\<exists>r s. collect_stream_with_limits memory_stream_ops L st = Some (r, s) \<and> ms_rows s = [] \<and>
    (r = Inr (ms_rows st) \<or> (\<exists>e. r = Inl e)) \<and>
    (r = Inr (ms_rows st) \<longleftrightarrow> ms_rows st = [] \<or>
      length (ms_rows st) \<le> cl_max_rows L \<and> add_bytes 0 (ms_rows st) \<le> cl_max_bytes L)"
  using collect_loop_ends [OF assms(1,2), of 0 0 L "[]"] assms(3)
  by (auto simp: collects_def drained_def within_limits_def collect_stream_with_limits_def)

theorem memory_streams_drain_witness:
  "\<exists>s. collect_stream memory_stream_ops user_result = Some (Inr (ms_rows user_result), s) \<and> ms_rows s = []"
proof -
  have "add_bytes 0 (ms_rows user_result) \<le> 64 * 1024 * 1024" by code_simp
  then show ?thesis
    using memory_streams_drain [of user_result default_collect_limits]
    by (auto simp: collect_stream_def default_collect_limits_def user_result_def)
qed

text \<open>C30. The limit on nested subqueries is never the reason for a failure of a subquery with a plan number below
  it: whatever larger nesting is allowed, the answer is the same.\<close>

theorem nesting_depth_irrelevant:
  assumes "topological (pl_nodes (xs_plan E))" and "q < MAX_EXISTENTIAL_DEPTH" and "q < n"
  shows "evaluate_exists n B S E q = evaluate_exists MAX_EXISTENTIAL_DEPTH B S E q"
  by (rule exists_depth_irrelevant [OF assms(1,3,2)])

theorem nesting_depth_irrelevant_witness:
  "evaluate_exists 4 (\<lambda>_. []) sample_ops (user_session always) 3 =
    evaluate_exists MAX_EXISTENTIAL_DEPTH (\<lambda>_. []) sample_ops (user_session always) 3"
  using nesting_depth_irrelevant [of "user_session always" 3 4] user_plan_valid(1)
  by (simp add: user_nodes plan_valid_def MAX_EXISTENTIAL_DEPTH_def)

text \<open>The nodes an execution runs are the least set that contains the root and the inputs of its members.\<close>

theorem closure_least:
  assumes "structural_closure plan root = Inr needed"
  shows "flagged needed = \<Inter> {C. root \<in> C \<and> closed_under (pl_nodes plan) C} \<and> length needed = length (pl_nodes plan)"
  using structural_closure_least [OF assms] by blast

theorem closure_least_witness:
  "flagged [True, True, True, False, True, True, True] = \<Inter> {C. 6 \<in> C \<and> closed_under (pl_nodes user_plan) C}"
  using closure_least [OF user_closures(1)] by blast

text \<open>C31. The frame of a windowed sum is the set of positions between its bounds, written out over the positions of
  the partition: saturating index arithmetic cuts off nothing.\<close>

theorem frame_ranges_exact:
  assumes "p < len" and "len \<le> usize_max"
  shows "frame_range f p len = filter (\<lambda>j. frame_low (rf_start f) p j \<and> frame_high (rf_end f) p j) [0..<len]"
  by (rule frame_range_rows [OF assms])

theorem frame_ranges_exact_witness:
  "frame_range \<lparr>rf_start = Preceding 1, rf_end = Following 5\<rparr> 2 4 = [1, 2, 3]"
proof -
  have "[0..<4] = [0, 1, 2, 3]" by (simp add: upt_rec)
  then show ?thesis
    using frame_ranges_exact [of 2 4 "\<lparr>rf_start = Preceding 1, rf_end = Following 5\<rparr>"]
    by (simp add: usize_max_def frame_low_def frame_high_def)
qed

text \<open>C29. Placement decides locality: a node is local exactly if it, or a node it depends on through inputs or
  subqueries, is not supported; a remote-only policy accepts exactly the plans without local nodes, a hybrid one
  those with a valid transfer budget.\<close>

theorem placement_exact:
  assumes "topological (pl_nodes plan)" and "length (pl_nodes plan) \<le> 2 ^ 32"
  shows "analyze_placement_with plan policy support_for = Inr p \<longleftrightarrow>
    pp_nodes p = placed (pl_nodes plan) support_for \<and>
    (case policy of
       RemoteOnly \<Rightarrow> pp_transfer p = None \<and> (\<forall>i < length (pl_nodes plan). \<not> needs_local (pl_nodes plan) support_for i)
     | Hybrid b \<Rightarrow> transfer_validate b = Inr () \<and> pp_transfer p = Some b)"
  by (rule placement_decides [OF assms])

theorem placement_exact_witness:
  "analyze_placement user_plan memory_capabilities RemoteOnly =
    Inr \<lparr>pp_nodes = placed (pl_nodes user_plan) (\<lambda>node. capability_support_for_node node memory_capabilities), pp_transfer = None\<rparr>"
proof -
  have "topological (pl_nodes user_plan)" "length (pl_nodes user_plan) \<le> 2 ^ 32"
    using user_plan_valid(1) by (simp_all add: plan_valid_def user_nodes)
  from placement_exact [OF this, of RemoteOnly] show ?thesis by (simp add: analyze_placement_def memory_never_local)
qed

section \<open>Migrations\<close>

text \<open>C23. The difference of two catalogs, exactly: on catalogs that their constructors accept it succeeds if and only if the
  scopes agree, the declared renames are those that the names require (none missing, none superfluous) and the
  operations fit the limit, and then it is the list of operations read off the two catalogs, in the fixed order of their
  kinds.\<close>

theorem migration_diff_exact:
  assumes "snapshot_valid s" and "snapshot_valid t" and "dl_max_operations L \<le> usize_max"
  shows "diff_catalog quote s t intent L = Inr d \<longleftrightarrow>
    validate_diff_limits L = Inr () \<and> cs_scope s = cs_scope t \<and> length (mi_renames intent) \<le> dl_max_rename_intents L \<and>
    set (mi_renames intent) = required_renames s t \<and> length (operations_list s t) \<le> dl_max_operations L \<and>
    d = \<lparr>cd_source = s, cd_target = t, cd_operations = operations_list s t\<rparr>"
  by (rule diff_catalog_exact [OF assms])

theorem migration_diff_exact_witness:
  "required_renames source_snapshot target_snapshot = {IntentEntity ''user'' ''users'' ''people''} \<and>
   operations_list source_snapshot target_snapshot = user_operations"
  using migration_diff_exact [OF test_snapshots_valid, of default_diff_limits "\<lambda>s. s" user_intent] user_diff
  by (auto simp: default_diff_limits_def usize_max_def user_intent_def)

text \<open>C24. The operations of a plan, carried out in order on the abstract content of the source (which entities, fields and
  indexes exist under which key, with which properties), give the content of the target, and the plan is sound: one
  scope, contiguous identifiers, no risk understated.\<close>

theorem planned_changes_transform:
  assumes "plan_migration quote L s t intent = Inr plan" and "snapshot_valid s" and "snapshot_valid t"
    and "dl_max_operations L \<le> usize_max"
  shows "fold apply_operation (map sp_operation (plan_steps plan)) (abstract_of s) = abstract_of t \<and> plan_sound plan"
  using planned [OF assms] operations_transform [OF assms(2,3)] by simp

theorem planned_changes_transform_witness:
  "fold apply_operation (map sp_operation (plan_steps user_migration)) (abstract_of source_snapshot) = abstract_of target_snapshot"
  using planned_changes_transform [OF user_migration_planned test_snapshots_valid] by (simp add: default_diff_limits_def usize_max_def)

text \<open>C25. Nothing is dropped without consent: if a plan is authorized and one of its steps drops an entity or a field, then
  the policy allows destructive changes and an approval that is bound to exactly this plan names the step, whatever
  risks the planner has stated.\<close>

theorem destructive_steps_approved:
  assumes "migration_plan_new s t steps = Inr plan" and "authorize policy plan approval = Inr ()"
    and "step \<in> set (plan_steps plan)" and "sp_operation step = DropEntity e \<or> sp_operation step = DropField entity f"
  shows "po_destructive policy \<and> (\<exists>a. approval = Some a \<and> ap_identity a = mp_identity plan \<and> sp_id step \<in> ap_steps a)"
  by (rule destructive_authorized [OF assms])

theorem destructive_steps_approved_witness:
  "po_destructive (with_destructive conservative_policy) \<and> (\<exists>a. Some drop_approval = Some a \<and> ap_identity a = mp_identity drop_migration \<and> 1 \<in> ap_steps a)"
  using destructive_steps_approved [OF drop_planned drop_authorized, of "hd (plan_steps drop_migration)" "hd (cs_entities source_snapshot)"]
  by (simp add: drop_migration_def)

text \<open>C22. A migration that is reported as applied took place: under the lock the backend held exactly the source of the
  plan, all steps were carried out on it in order, and the catalog inspected before the commit is the target, entity
  by entity, at the revision of the target. This holds on every backend that only shows valid catalogs.\<close>

theorem applied_migrations_converge:
  assumes "migration_backend B ok" and "ok s" and "plan_migration quote K source target intent = Inr plan"
    and "snapshot_valid source" and "snapshot_valid target" and "dl_max_operations K \<le> usize_max"
    and "apply_checked quote' B plan policy approval L s = (Inr report, t)" and "al_max_steps L \<le> usize_max"
  shows "ok t \<and> (\<exists>u observed v w final x.
    bk_begin B plan s = (Inr (), u) \<and>
    bk_inspect B (cs_scope source) (al_catalog L) u = (Inr observed, v) \<and>
    cs_entities observed = cs_entities source \<and> cs_revision observed = cs_revision source \<and>
    applies B (plan_steps plan) v w \<and>
    bk_inspect B (cs_scope source) (al_catalog L) w = (Inr final, x) \<and>
    cs_entities final = cs_entities target \<and> cs_revision final = cs_revision target \<and>
    bk_finish B Commit x = (Inr (), t))"
  by (rule planned_application_converges [OF assms])

theorem applied_migrations_converge_witness:
  "\<exists>w final x. applies fake (plan_steps user_migration) (user_backend 0 ''revision-one'' ''users'' [user_id_field] []) w \<and>
    bk_inspect fake (cs_scope source_snapshot) default_catalog_limits w = (Inr final, x) \<and>
    cs_entities final = cs_entities target_snapshot"
proof -
  have "fake_valid (fake_new source_snapshot)" using test_snapshots_valid by (simp add: fake_valid_def fake_new_def)
  from applied_migrations_converge [OF fake.migration_backend_axioms this user_migration_planned test_snapshots_valid _ user_applied]
  obtain u observed v w final x where "bk_begin fake user_migration (fake_new source_snapshot) = (Inr (), u)"
    and "bk_inspect fake (cs_scope source_snapshot) default_catalog_limits u = (Inr observed, v)"
    and run: "applies fake (plan_steps user_migration) v w"
      "bk_inspect fake (cs_scope source_snapshot) default_catalog_limits w = (Inr final, x)"
      "cs_entities final = cs_entities target_snapshot"
    by (auto simp: default_diff_limits_def default_apply_limits_def usize_max_def)
  moreover have "bk_inspect fake = fake_inspect" by (simp add: fake_def)
  ultimately have "v = user_backend 0 ''revision-one'' ''users'' [user_id_field] []"
    by (auto simp: user_begun inspect_source)
  with run show ?thesis by blast
qed


end
